(* ===== verification/Prelude.thy ===== *)
theory Prelude
  imports Main
begin

text \<open>
  Shared vocabulary of the development: the exceptions the services throw, the
  state-and-exception computations every handler is written in, transactions, and the list and
  association-list lemmas that several components use.

  A handler of the code reads and writes a store and may throw. It is modelled as a function from
  the store to the outcome (an exception or a value) paired with the store it leaves behind, so
  that what was written before a throw stays visible, and a transaction is the wrapper that
  discards it.
\<close>

named_theorems keepsI \<open>introduction rules for store invariants kept by a computation\<close>

section \<open>Exceptions\<close>

text \<open>
  \<open>HttpExc s m\<close> is a NestJS \<open>HttpException\<close> with status \<open>s\<close> and a plain message;
  \<open>HttpProblems s ps\<close> one whose body lists \<open>(pointer, detail)\<close> errors. \<open>PublicApi\<close>,
  \<open>AccountLocked\<close> and \<open>OAuthFail\<close> are the code's own subclasses. \<open>PlainError\<close> is
  a JavaScript \<open>Error\<close>, \<open>UniqueViolation\<close> Prisma's P2002 (or SQL state 23505) and
  \<open>RetryWrite\<close> the write engine's \<open>Retry\<close>.
\<close>

datatype exn =
    HttpExc nat string
  | HttpProblems nat "(string \<times> string) list"
  | PublicApi int string nat
  | AccountLocked int
  | OAuthFail nat string string "int option"
  | PlainError string
  | MissingTenant
  | UniqueViolation
  | RetryWrite string

section \<open>Computations over a store\<close>

type_synonym ('s, 'a) comp = "'s \<Rightarrow> (exn + 'a) \<times> 's"

definition retM :: "'a \<Rightarrow> ('s, 'a) comp" where
  "retM a s = (Inr a, s)"

definition throwM :: "exn \<Rightarrow> ('s, 'a) comp" where
  "throwM e s = (Inl e, s)"

definition bindM :: "('s, 'a) comp \<Rightarrow> ('a \<Rightarrow> ('s, 'b) comp) \<Rightarrow> ('s, 'b) comp" where
  "bindM m f s = (case m s of (Inl e, s') \<Rightarrow> (Inl e, s') | (Inr a, s') \<Rightarrow> f a s')"

definition getM :: "('s \<Rightarrow> 'a) \<Rightarrow> ('s, 'a) comp" where
  "getM g s = (Inr (g s), s)"

definition modifyM :: "('s \<Rightarrow> 's) \<Rightarrow> ('s, unit) comp" where
  "modifyM f s = (Inr (), f s)"

definition liftE :: "exn + 'a \<Rightarrow> ('s, 'a) comp" where
  "liftE r s = (r, s)"

definition whenM :: "bool \<Rightarrow> ('s, unit) comp \<Rightarrow> ('s, unit) comp" where
  "whenM b m = (if b then m else retM ())"

text \<open>\<open>$transaction\<close>: a throw inside rolls the store back and is thrown on.\<close>

definition atomicM :: "('s, 'a) comp \<Rightarrow> ('s, 'a) comp" where
  "atomicM m s = (case m s of (Inl e, _) \<Rightarrow> (Inl e, s) | (Inr a, s') \<Rightarrow> (Inr a, s'))"

text \<open>\<open>.catch\<close> that maps the exception and throws it on.\<close>

definition mapErrM :: "(exn \<Rightarrow> exn) \<Rightarrow> ('s, 'a) comp \<Rightarrow> ('s, 'a) comp" where
  "mapErrM h m s = (case m s of (Inl e, s') \<Rightarrow> (Inl (h e), s') | (Inr a, s') \<Rightarrow> (Inr a, s'))"

fun forM :: "'x list \<Rightarrow> ('x \<Rightarrow> ('s, unit) comp) \<Rightarrow> ('s, unit) comp" where
  "forM [] f = retM ()"
| "forM (x # xs) f = bindM (f x) (\<lambda>_. forM xs f)"

lemma retM_apply [simp]: "retM a s = (Inr a, s)"
  by (simp add: retM_def)

lemma throwM_apply [simp]: "throwM e s = (Inl e, s)"
  by (simp add: throwM_def)

lemma getM_apply [simp]: "getM g s = (Inr (g s), s)"
  by (simp add: getM_def)

lemma modifyM_apply [simp]: "modifyM f s = (Inr (), f s)"
  by (simp add: modifyM_def)

lemma liftE_apply [simp]: "liftE r s = (r, s)"
  by (simp add: liftE_def)

lemma bindM_Inr: "bindM m f s = (Inr b, t) \<longleftrightarrow> (\<exists>a s'. m s = (Inr a, s') \<and> f a s' = (Inr b, t))"
  by (auto simp: bindM_def split: prod.splits sum.splits)

lemma bindM_eq_Inr [simp]: "m s = (Inr a, s') \<Longrightarrow> bindM m f s = f a s'"
  by (simp add: bindM_def)

lemma bindM_eq_Inl [simp]: "m s = (Inl e, s') \<Longrightarrow> bindM m f s = (Inl e, s')"
  by (simp add: bindM_def)

lemma bindM_Inl: "bindM m f s = (Inl e, t) \<longleftrightarrow>
    m s = (Inl e, t) \<or> (\<exists>a s'. m s = (Inr a, s') \<and> f a s' = (Inl e, t))"
  by (auto simp: bindM_def split: prod.splits sum.splits)

lemma bindM_retM [simp]: "bindM (retM a) f = f a"
  by (simp add: bindM_def fun_eq_iff)

lemma bindM_getM [simp]: "bindM (getM g) f s = f (g s) s"
  by simp

lemma bindM_throwM [simp]: "bindM (throwM e) f s = (Inl e, s)"
  by simp

lemma atomicM_Inr: "atomicM m s = (Inr a, t) \<longleftrightarrow> m s = (Inr a, t)"
  by (auto simp: atomicM_def split: prod.splits sum.splits)

lemma atomicM_Inl: "atomicM m s = (Inl e, t) \<longleftrightarrow> t = s \<and> (\<exists>s'. m s = (Inl e, s'))"
  by (auto simp: atomicM_def split: prod.splits sum.splits)

lemma atomicM_rollback: "fst (atomicM m s) = Inl e \<Longrightarrow> snd (atomicM m s) = s"
  by (auto simp: atomicM_def split: prod.splits sum.splits)

lemma mapErrM_Inr: "mapErrM h m s = (Inr a, t) \<longleftrightarrow> m s = (Inr a, t)"
  by (auto simp: mapErrM_def split: prod.splits sum.splits)

lemma mapErrM_Inl: "mapErrM h m s = (Inl e, t) \<longleftrightarrow> (\<exists>e'. e = h e' \<and> m s = (Inl e', t))"
  by (auto simp: mapErrM_def split: prod.splits sum.splits)

lemmas comp_results = bindM_Inr bindM_Inl atomicM_Inr atomicM_Inl mapErrM_Inr mapErrM_Inl

section \<open>Invariants and frames\<close>

text \<open>
  \<open>keeps R m\<close>: whatever the outcome, the store \<open>m\<close> leaves is related by \<open>R\<close> to the
  one it started from. With \<open>R\<close> reflexive and transitive it composes along \<open>bindM\<close>.
\<close>

definition keeps :: "('s \<Rightarrow> 's \<Rightarrow> bool) \<Rightarrow> ('s, 'a) comp \<Rightarrow> bool" where
  "keeps R m \<longleftrightarrow> (\<forall>s. R s (snd (m s)))"

locale frame =
  fixes R :: "'s \<Rightarrow> 's \<Rightarrow> bool"
  assumes frame_refl: "R s s"
    and frame_trans: "R s t \<Longrightarrow> R t u \<Longrightarrow> R s u"
begin

lemma keeps_retM [keepsI]: "keeps R (retM a)"
  by (simp add: keeps_def frame_refl)

lemma keeps_throwM [keepsI]: "keeps R (throwM e)"
  by (simp add: keeps_def frame_refl)

lemma keeps_getM [keepsI]: "keeps R (getM g)"
  by (simp add: keeps_def frame_refl)

lemma keeps_liftE [keepsI]: "keeps R (liftE r)"
  by (simp add: keeps_def frame_refl)

lemma keeps_Pair [keepsI]: "keeps R (Pair r)"
  by (simp add: keeps_def frame_refl)

lemma keeps_bindM [keepsI]: "keeps R m \<Longrightarrow> (\<And>a. keeps R (f a)) \<Longrightarrow> keeps R (bindM m f)"
proof -
  assume m: "keeps R m" and f: "\<And>a. keeps R (f a)"
  have "R s (snd (bindM m f s))" for s
  proof (cases "m s")
    case (Pair r s')
    from m have "R s s'" using Pair by (metis keeps_def snd_conv)
    then show ?thesis
      using f Pair by (cases r) (auto simp: keeps_def bindM_def intro: frame_trans)
  qed
  then show "keeps R (bindM m f)" by (simp add: keeps_def)
qed

lemma keeps_bindM_dep:
  "keeps R m \<Longrightarrow> (\<And>s a s'. m s = (Inr a, s') \<Longrightarrow> keeps R (f a)) \<Longrightarrow> keeps R (bindM m f)"
proof -
  assume m: "keeps R m" and f: "\<And>s a s'. m s = (Inr a, s') \<Longrightarrow> keeps R (f a)"
  have "R s (snd (bindM m f s))" for s
  proof (cases "m s")
    case (Pair r s')
    from m have "R s s'" using Pair by (metis keeps_def snd_conv)
    then show ?thesis
      using f[of s _ s'] Pair by (cases r) (auto simp: keeps_def bindM_def intro: frame_trans)
  qed
  then show "keeps R (bindM m f)" by (simp add: keeps_def)
qed

lemma keeps_atomicM [keepsI]: "keeps R m \<Longrightarrow> keeps R (atomicM m)"
  by (auto simp: keeps_def atomicM_def frame_refl split: prod.splits sum.splits)
     (metis snd_conv)

lemma keeps_mapErrM [keepsI]: "keeps R m \<Longrightarrow> keeps R (mapErrM h m)"
  by (auto simp: keeps_def mapErrM_def split: prod.splits sum.splits) (metis snd_conv)+

lemma keeps_whenM [keepsI]: "keeps R m \<Longrightarrow> keeps R (whenM b m)"
  by (simp add: whenM_def keeps_retM)

lemma keeps_forM [keepsI]: "(\<And>x. keeps R (f x)) \<Longrightarrow> keeps R (forM xs f)"
  by (induction xs) (auto intro: keeps_retM keeps_bindM)

lemma keeps_if [keepsI]: "keeps R m \<Longrightarrow> keeps R n \<Longrightarrow> keeps R (if b then m else n)"
  by simp

lemma keeps_option [keepsI]:
  "keeps R m \<Longrightarrow> (\<And>x. keeps R (f x)) \<Longrightarrow> keeps R (case v of None \<Rightarrow> m | Some x \<Rightarrow> f x)"
  by (cases v) auto

lemma keeps_modifyM: "(\<And>s. R s (g s)) \<Longrightarrow> keeps R (modifyM g)"
  by (simp add: keeps_def)

end

lemma keeps_outcome: "keeps R m \<Longrightarrow> m s = (r, t) \<Longrightarrow> R s t"
  by (metis keeps_def snd_conv)

section \<open>Association lists\<close>

text \<open>A JavaScript object or \<open>Map\<close>, kept as its list of entries in insertion order.\<close>

fun alist_put :: "'k \<Rightarrow> 'v \<Rightarrow> ('k \<times> 'v) list \<Rightarrow> ('k \<times> 'v) list" where
  "alist_put k v [] = [(k, v)]"
| "alist_put k v ((k', v') # xs) = (if k' = k then (k, v) # xs else (k', v') # alist_put k v xs)"

definition alist_del :: "'k \<Rightarrow> ('k \<times> 'v) list \<Rightarrow> ('k \<times> 'v) list" where
  "alist_del k xs = filter (\<lambda>p. fst p \<noteq> k) xs"

lemma map_of_alist_put [simp]: "map_of (alist_put k v xs) = (map_of xs)(k \<mapsto> v)"
  by (induction xs) (auto simp: fun_eq_iff)

lemma map_of_alist_del [simp]: "map_of (alist_del k xs) = (map_of xs)(k := None)"
  unfolding alist_del_def by (induction xs) (auto simp: fun_eq_iff)

lemma keys_alist_put:
  "map fst (alist_put k v xs) = (if k \<in> fst ` set xs then map fst xs else map fst xs @ [k])"
  by (induction xs) (force simp: image_iff)+

lemma fst_set_alist_put [simp]: "fst ` set (alist_put k v xs) = insert k (fst ` set xs)"
proof -
  have "dom (map_of (alist_put k v xs)) = insert k (dom (map_of xs))" by simp
  then show ?thesis by (simp only: dom_map_of_conv_image_fst)
qed

lemma distinct_alist_put [simp]: "distinct (map fst xs) \<Longrightarrow> distinct (map fst (alist_put k v xs))"
  by (simp add: keys_alist_put)

lemma distinct_alist_del [simp]: "distinct (map fst xs) \<Longrightarrow> distinct (map fst (alist_del k xs))"
  unfolding alist_del_def by (induction xs) auto

section \<open>Lists\<close>

text \<open>\<open>[...new Set(xs)]\<close>: first occurrences, in order.\<close>

fun uniq_from :: "'a list \<Rightarrow> 'a list \<Rightarrow> 'a list" where
  "uniq_from seen [] = []"
| "uniq_from seen (x # xs) = (if x \<in> set seen then uniq_from seen xs else x # uniq_from (x # seen) xs)"

definition uniq :: "'a list \<Rightarrow> 'a list" where
  "uniq xs = uniq_from [] xs"

lemma set_uniq_from: "set (uniq_from seen xs) = set xs - set seen"
  by (induction seen xs rule: uniq_from.induct) auto

lemma set_uniq [simp]: "set (uniq xs) = set xs"
  by (simp add: uniq_def set_uniq_from)

lemma distinct_uniq_from: "distinct (uniq_from seen xs)"
  by (induction seen xs rule: uniq_from.induct) (auto simp: set_uniq_from)

lemma distinct_uniq [simp]: "distinct (uniq xs)"
  by (simp add: uniq_def distinct_uniq_from)

lemma uniq_from_id: "distinct xs \<Longrightarrow> set xs \<inter> set seen = {} \<Longrightarrow> uniq_from seen xs = xs"
  by (induction xs arbitrary: seen) auto

lemma uniq_id: "distinct xs \<Longrightarrow> uniq xs = xs"
  by (simp add: uniq_def uniq_from_id)

lemma length_uniq_le: "length (uniq xs) \<le> length xs"
  by (metis card_length distinct_card distinct_uniq set_uniq)

lemma find_Some_set: "find P xs = Some x \<Longrightarrow> x \<in> set xs \<and> P x"
  by (induction xs) (auto split: if_splits)

lemma find_None_set: "find P xs = None \<longleftrightarrow> (\<forall>x \<in> set xs. \<not> P x)"
  by (induction xs) auto

end
