(* ===== verification/Js_Runtime.thy ===== *)
theory Js_Runtime
  imports Prelude
begin

text \<open>
  The parts of the JavaScript language and library the sources use on data: strings and the
  regular expressions over them, numbers with their conversions, JSON values, and dates.

  A string is the list of its UTF-16 code units, restricted to units below 256. A number is an
  exact decimal \<open>Dec m k = m / 10^k\<close> in lowest form: the rounding of doubles (beyond 15
  significant digits) and the exponent notation of \<open>String(n)\<close> (from \<open>10^21\<close> on and
  below \<open>10^-6\<close>) are outside the model. An object is its list of entries, in the order
  \<open>Object.entries\<close> gives them.
\<close>

section \<open>Characters and strings\<close>

definition code :: "char \<Rightarrow> nat" where
  "code c = of_char c"

definition digit_char :: "char \<Rightarrow> bool" where
  "digit_char c \<longleftrightarrow> 48 \<le> code c \<and> code c \<le> 57"

definition digit19_char :: "char \<Rightarrow> bool" where
  "digit19_char c \<longleftrightarrow> 49 \<le> code c \<and> code c \<le> 57"

definition lower_alpha :: "char \<Rightarrow> bool" where
  "lower_alpha c \<longleftrightarrow> 97 \<le> code c \<and> code c \<le> 122"

definition upper_alpha :: "char \<Rightarrow> bool" where
  "upper_alpha c \<longleftrightarrow> 65 \<le> code c \<and> code c \<le> 90"

text \<open>\<open>[0-9a-f]\<close> under the \<open>i\<close> flag.\<close>

definition hex_char :: "char \<Rightarrow> bool" where
  "hex_char c \<longleftrightarrow> digit_char c \<or> (97 \<le> code c \<and> code c \<le> 102) \<or> (65 \<le> code c \<and> code c \<le> 70)"

text \<open>What \<open>trim\<close> strips among the units below 256.\<close>

definition ws_char :: "char \<Rightarrow> bool" where
  "ws_char c \<longleftrightarrow> (9 \<le> code c \<and> code c \<le> 13) \<or> code c = 32 \<or> code c = 160"

definition strip :: "(char \<Rightarrow> bool) \<Rightarrow> string \<Rightarrow> string" where
  "strip p s = rev (dropWhile p (rev (dropWhile p s)))"

definition trim :: "string \<Rightarrow> string" where
  "trim s = strip ws_char s"

definition lower_char :: "char \<Rightarrow> char" where
  "lower_char c = (if upper_alpha c \<or> (192 \<le> code c \<and> code c \<le> 222 \<and> code c \<noteq> 215)
     then char_of (code c + 32) else c)"

definition lower :: "string \<Rightarrow> string" where
  "lower s = map lower_char s"

text \<open>\<open>s.split(d)\<close> for a one-character separator.\<close>

fun split_on :: "char \<Rightarrow> string \<Rightarrow> string list" where
  "split_on d [] = [[]]"
| "split_on d (c # s) = (if c = d then [] # split_on d s
     else (case split_on d s of [] \<Rightarrow> [[c]] | w # ws \<Rightarrow> (c # w) # ws))"

fun join_with :: "string \<Rightarrow> string list \<Rightarrow> string" where
  "join_with d [] = []"
| "join_with d [w] = w"
| "join_with d (w # v # ws) = w @ d @ join_with d (v # ws)"

text \<open>\<open>s.indexOf(d)\<close>; None for -1.\<close>

fun index_of :: "char \<Rightarrow> string \<Rightarrow> nat option" where
  "index_of d [] = None"
| "index_of d (c # s) = (if c = d then Some 0 else map_option Suc (index_of d s))"

definition starts_with :: "string \<Rightarrow> string \<Rightarrow> bool" where
  "starts_with s p \<longleftrightarrow> take (length p) s = p"

definition ends_with :: "string \<Rightarrow> string \<Rightarrow> bool" where
  "ends_with s p \<longleftrightarrow> length p \<le> length s \<and> drop (length s - length p) s = p"

section \<open>Regular expressions\<close>

text \<open>A pattern of fixed length is the list of its character classes.\<close>

definition match_classes :: "(char \<Rightarrow> bool) list \<Rightarrow> string \<Rightarrow> bool" where
  "match_classes ps s = list_all2 (\<lambda>p c. p c) ps s"

definition is_dash :: "char \<Rightarrow> bool" where
  "is_dash c \<longleftrightarrow> c = CHR ''-''"

text \<open>\<open>/^[0-9a-f]{8}-[0-9a-f]{4}-[0-9a-f]{4}-[0-9a-f]{4}-[0-9a-f]{12}$/i\<close>.\<close>

definition is_uuid :: "string \<Rightarrow> bool" where
  "is_uuid = match_classes (replicate 8 hex_char @ [is_dash] @ replicate 4 hex_char @ [is_dash] @
     replicate 4 hex_char @ [is_dash] @ replicate 4 hex_char @ [is_dash] @ replicate 12 hex_char)"

text \<open>\<open>/^\d+$/\<close>, \<open>/^[1-9]\d*$/\<close> and \<open>/^(id|[1-9]\d*)$/\<close>.\<close>

definition is_digits :: "string \<Rightarrow> bool" where
  "is_digits s \<longleftrightarrow> s \<noteq> [] \<and> list_all digit_char s"

definition is_field_key :: "string \<Rightarrow> bool" where
  "is_field_key s \<longleftrightarrow> s \<noteq> [] \<and> digit19_char (hd s) \<and> list_all digit_char (tl s)"

definition is_key_id :: "string \<Rightarrow> bool" where
  "is_key_id s \<longleftrightarrow> s = ''id'' \<or> is_field_key s"

text \<open>\<open>/^[a-z_]+:(view|edit|launch|admin)$/\<close>.\<close>

definition is_permission :: "string \<Rightarrow> bool" where
  "is_permission s = (case index_of CHR '':'' s of None \<Rightarrow> False
     | Some i \<Rightarrow> i \<noteq> 0 \<and> list_all (\<lambda>c. lower_alpha c \<or> c = CHR ''_'') (take i s) \<and>
         List.member [''view'', ''edit'', ''launch'', ''admin''] (drop (Suc i) s))"

text \<open>\<open>/^[a-z][a-z0-9_]{0,62}$/\<close>.\<close>

definition is_api_name :: "string \<Rightarrow> bool" where
  "is_api_name s \<longleftrightarrow> s \<noteq> [] \<and> lower_alpha (hd s) \<and> length s \<le> 63 \<and>
     list_all (\<lambda>c. lower_alpha c \<or> digit_char c \<or> c = CHR ''_'') (tl s)"

section \<open>Numbers\<close>

datatype jsnum = Dec (mant: int) (scale: nat)

fun mk_dec :: "int \<Rightarrow> nat \<Rightarrow> jsnum" where
  "mk_dec m 0 = Dec m 0"
| "mk_dec m (Suc k) = (if m mod 10 = 0 then mk_dec (m div 10) k else Dec m (Suc k))"

abbreviation int_num :: "int \<Rightarrow> jsnum" where
  "int_num i \<equiv> Dec i 0"

text \<open>\<open>Number.isInteger\<close>.\<close>

definition is_int_num :: "jsnum \<Rightarrow> bool" where
  "is_int_num n \<longleftrightarrow> scale n = 0"

definition digit_of :: "nat \<Rightarrow> char" where
  "digit_of d = char_of (48 + d)"

definition digit_val :: "char \<Rightarrow> nat" where
  "digit_val c = code c - 48"

fun show_nat :: "nat \<Rightarrow> string" where
  "show_nat n = (if n < 10 then [digit_of n] else show_nat (n div 10) @ [digit_of (n mod 10)])"

declare show_nat.simps [simp del]

definition show_int :: "int \<Rightarrow> string" where
  "show_int i = (if i < 0 then ''-'' @ show_nat (nat (- i)) else show_nat (nat i))"

definition pad_left :: "nat \<Rightarrow> char \<Rightarrow> string \<Rightarrow> string" where
  "pad_left n c s = replicate (n - length s) c @ s"

text \<open>\<open>String(n)\<close>.\<close>

definition num_string :: "jsnum \<Rightarrow> string" where
  "num_string n = (if scale n = 0 then show_int (mant n)
     else let d = pad_left (Suc (scale n)) CHR ''0'' (show_nat (nat \<bar>mant n\<bar>)); i = length d - scale n
          in (if mant n < 0 then ''-'' else []) @ take i d @ ''.'' @ drop i d)"

definition digits_nat :: "string \<Rightarrow> nat" where
  "digits_nat s = foldl (\<lambda>n c. 10 * n + digit_val c) 0 s"

text \<open>\<open>Number(s)\<close> of a string of digits.\<close>

definition digits_int :: "string \<Rightarrow> int" where
  "digits_int s = int (digits_nat s)"

text \<open>\<open>/^-?\d+(\.\d+)?$/\<close> and the number such a string denotes.\<close>

definition unsigned_decimal :: "string \<Rightarrow> (string \<times> string) option" where
  "unsigned_decimal s = (case index_of CHR ''.'' s of
       None \<Rightarrow> if is_digits s then Some (s, []) else None
     | Some i \<Rightarrow> if is_digits (take i s) \<and> is_digits (drop (Suc i) s)
         then Some (take i s, drop (Suc i) s) else None)"

definition is_decimal :: "string \<Rightarrow> bool" where
  "is_decimal s = (case s of [] \<Rightarrow> False
     | c # t \<Rightarrow> (if c = CHR ''-'' then unsigned_decimal t else unsigned_decimal s) \<noteq> None)"

definition decimal_num :: "string \<Rightarrow> jsnum" where
  "decimal_num s = (let neg = (s \<noteq> [] \<and> hd s = CHR ''-'') in
     case unsigned_decimal (if neg then tl s else s) of None \<Rightarrow> int_num 0
     | Some (a, b) \<Rightarrow> mk_dec ((if neg then - 1 else 1) * digits_int (a @ b)) (length b))"

text \<open>
  \<open>Number(s)\<close> of any string: white space trimmed, the empty string is 0, decimal literals
  with sign, fraction and exponent, and \<open>0x\<close>, \<open>0o\<close>, \<open>0b\<close> integers. None stands for
  \<open>NaN\<close> and for the infinities, which every caller rejects in the same way.
\<close>

definition radix_val :: "char \<Rightarrow> nat" where
  "radix_val c = (if digit_char c then code c - 48 else if 97 \<le> code c \<and> code c \<le> 122 then code c - 87
     else if upper_alpha c then code c - 55 else 36)"

definition radix_nat :: "nat \<Rightarrow> string \<Rightarrow> nat option" where
  "radix_nat r s = (if s \<noteq> [] \<and> list_all (\<lambda>c. radix_val c < r) s
     then Some (foldl (\<lambda>n c. r * n + radix_val c) 0 s) else None)"

definition split_sign :: "string \<Rightarrow> bool \<times> string" where
  "split_sign s = (case s of [] \<Rightarrow> (False, [])
     | c # t \<Rightarrow> if c = CHR ''-'' then (True, t) else if c = CHR ''+'' then (False, t) else (False, s))"

definition mantissa :: "string \<Rightarrow> (string \<times> string) option" where
  "mantissa s = (case index_of CHR ''.'' s of
       None \<Rightarrow> if is_digits s then Some (s, []) else None
     | Some i \<Rightarrow> let a = take i s; b = drop (Suc i) s in
         if list_all digit_char (a @ b) \<and> a @ b \<noteq> [] then Some (a, b) else None)"

definition dec_literal :: "string \<Rightarrow> jsnum option" where
  "dec_literal s =
    (let (neg, u) = split_sign s;
         e = index_of CHR ''e'' (lower u);
         m = (case e of None \<Rightarrow> u | Some i \<Rightarrow> take i u);
         x = (case e of None \<Rightarrow> (False, ''0'') | Some i \<Rightarrow> split_sign (drop (Suc i) u))
     in if \<not> is_digits (snd x) then None
        else case mantissa m of None \<Rightarrow> None
        | Some (a, b) \<Rightarrow>
            let v = (if neg then - 1 else 1) * digits_int (a @ b);
                k = int (length b) - (if fst x then - 1 else 1) * digits_int (snd x)
            in Some (if k < 0 then int_num (v * 10 ^ nat (- k)) else mk_dec v (nat k)))"

definition js_number :: "string \<Rightarrow> jsnum option" where
  "js_number s = (let t = trim s; p = lower (take 2 t); r = drop 2 t in
     if t = [] then Some (int_num 0)
     else if p = ''0x'' then map_option (\<lambda>n. int_num (int n)) (radix_nat 16 r)
     else if p = ''0o'' then map_option (\<lambda>n. int_num (int n)) (radix_nat 8 r)
     else if p = ''0b'' then map_option (\<lambda>n. int_num (int n)) (radix_nat 2 r)
     else dec_literal t)"

section \<open>JSON values\<close>

datatype json =
    JNull
  | JBool bool
  | JNum jsnum
  | JStr string
  | JArr "json list"
  | JObj "(string \<times> json) list"

text \<open>\<open>String(v)\<close>: arrays join their elements with commas, null elements as nothing.\<close>

fun js_string :: "json \<Rightarrow> string" where
  "js_string JNull = ''null''"
| "js_string (JBool b) = (if b then ''true'' else ''false'')"
| "js_string (JNum n) = num_string n"
| "js_string (JStr s) = s"
| "js_string (JArr xs) = join_with '','' (map (\<lambda>x. if x = JNull then [] else js_string x) xs)"
| "js_string (JObj kvs) = ''[object Object]''"

definition obj_get :: "json \<Rightarrow> string \<Rightarrow> json option" where
  "obj_get v k = (case v of JObj kvs \<Rightarrow> map_of kvs k | _ \<Rightarrow> None)"

section \<open>Dates\<close>

text \<open>
  A \<open>Date\<close> is its time value, milliseconds since 1970-01-01T00:00:00Z. \<open>civil_of_days\<close> and
  \<open>days_of_civil\<close> are the proleptic Gregorian calendar that \<open>toISOString\<close> and
  \<open>Date.parse\<close> use; \<open>iso_string\<close> covers the years 0 to 9999.
\<close>

definition days_of_civil :: "int \<Rightarrow> int \<Rightarrow> int \<Rightarrow> int" where
  "days_of_civil y m d =
    (let y' = (if m \<le> 2 then y - 1 else y); era = y' div 400; yoe = y' mod 400;
         doy = (153 * (m + (if 2 < m then - 3 else 9)) + 2) div 5 + d - 1;
         doe = yoe * 365 + yoe div 4 - yoe div 100 + doy
     in era * 146097 + doe - 719468)"

definition civil_of_days :: "int \<Rightarrow> int \<times> int \<times> int" where
  "civil_of_days z =
    (let z' = z + 719468; era = z' div 146097; doe = z' mod 146097;
         yoe = (doe - doe div 1460 + doe div 36524 - doe div 146096) div 365;
         doy = doe - (365 * yoe + yoe div 4 - yoe div 100);
         mp = (5 * doy + 2) div 153; d = doy - (153 * mp + 2) div 5 + 1;
         m = mp + (if mp < 10 then 3 else - 9)
     in (yoe + era * 400 + (if m \<le> 2 then 1 else 0), m, d))"

definition pad_int :: "nat \<Rightarrow> int \<Rightarrow> string" where
  "pad_int n i = pad_left n CHR ''0'' (show_nat (nat i))"

definition iso_date :: "int \<Rightarrow> string" where
  "iso_date days = (case civil_of_days days of (y, m, d) \<Rightarrow>
     pad_int 4 y @ ''-'' @ pad_int 2 m @ ''-'' @ pad_int 2 d)"

definition iso_string :: "int \<Rightarrow> string" where
  "iso_string ms = (let t = ms mod 86400000 in
     iso_date (ms div 86400000) @ ''T'' @ pad_int 2 (t div 3600000) @ '':'' @
     pad_int 2 (t div 60000 mod 60) @ '':'' @ pad_int 2 (t div 1000 mod 60) @ ''.'' @
     pad_int 3 (t mod 1000) @ ''Z'')"

text \<open>\<open>Date.parse\<close> of a \<open>YYYY-MM-DD\<close> string, None for an invalid date.\<close>

definition is_ymd :: "string \<Rightarrow> bool" where
  "is_ymd = match_classes (replicate 4 digit_char @ [is_dash] @ replicate 2 digit_char @ [is_dash] @
     replicate 2 digit_char)"

definition parse_ymd :: "string \<Rightarrow> int option" where
  "parse_ymd s = (let y = digits_int (take 4 s); m = digits_int (take 2 (drop 5 s));
       d = digits_int (drop 8 s)
     in if 1 \<le> m \<and> m \<le> 12 \<and> 1 \<le> d \<and> d \<le> 31 then Some (86400000 * days_of_civil y m d) else None)"

end
