(* ===== verification/Http_Lib.thy ===== *)
theory Http_Lib
  imports Js_Runtime "HOL-Library.List_Lexorder" "HOL-Library.Char_ord"
begin

text \<open>
  \<open>packages/ts-common/src/http\<close>: cursor pagination, the public envelope and the
  \<open>application/problem+json\<close> filter, with core's override of it
  (\<open>services/core/src/app.module.ts\<close>). The keyset-pagination contract that the list endpoints
  share is the locale \<open>keyset\<close>: following the cursors from the first page enumerates every row
  once, in order.
\<close>

section \<open>Cursor pages (\<open>cursor-page.ts\<close>)\<close>

record 'r cursor_page =
  cp_items :: "'r list"
  cp_next :: "string option"

record cursor_query =
  cq_cursor :: "string option"
  cq_limit :: int

type_synonym query = "(string \<times> json) list"

definition parseLimit :: "json option \<Rightarrow> int \<Rightarrow> int \<Rightarrow> exn + int" where
  "parseLimit raw defaultLimit maxLimit =
    (case raw of
       Some (JStr s) \<Rightarrow>
         if trim s \<noteq> [] then
           (case js_number s of
              Some n \<Rightarrow> if is_int_num n \<and> 0 < mant n then Inr (min (mant n) maxLimit)
                else Inl (HttpExc 400 ''limit must be a positive integer'')
            | None \<Rightarrow> Inl (HttpExc 400 ''limit must be a positive integer''))
         else Inr defaultLimit
     | _ \<Rightarrow> Inr defaultLimit)"

definition parseCursorQuery :: "query \<Rightarrow> int \<Rightarrow> int \<Rightarrow> exn + cursor_query" where
  "parseCursorQuery q defaultLimit maxLimit =
    (case parseLimit (map_of q ''limit'') defaultLimit maxLimit of
       Inl e \<Rightarrow> Inl e
     | Inr limit \<Rightarrow> Inr \<lparr>
         cq_cursor = (case map_of q ''cursor'' of Some (JStr c) \<Rightarrow> if 0 < length c then Some c else None
            | _ \<Rightarrow> None),
         cq_limit = limit\<rparr>)"

definition buildCursorPage :: "'r list \<Rightarrow> string option \<Rightarrow> 'r cursor_page" where
  "buildCursorPage items next = \<lparr>cp_items = items, cp_next = next\<rparr>"

lemma parseLimit_bounds:
  "parseLimit raw d m = Inr n \<Longrightarrow> 0 < d \<Longrightarrow> d \<le> m \<Longrightarrow> 0 < n \<and> n \<le> m"
  by (auto simp: parseLimit_def split: option.splits json.splits if_splits)

lemma parseCursorQuery_bounds:
  "parseCursorQuery q d m = Inr r \<Longrightarrow> 0 < d \<Longrightarrow> d \<le> m \<Longrightarrow> 0 < cq_limit r \<and> cq_limit r \<le> m"
  by (auto simp: parseCursorQuery_def dest: parseLimit_bounds split: sum.splits)

lemma parseCursorQuery_error: "parseCursorQuery q d m = Inl e \<Longrightarrow>
    e = HttpExc 400 ''limit must be a positive integer''"
  by (auto simp: parseCursorQuery_def parseLimit_def
      split: sum.splits option.splits json.splits if_splits)

section \<open>Keyset pagination\<close>

text \<open>
  The endpoints fetch \<open>limit + 1\<close> rows past the cursor, return the first \<open>limit\<close> and, when
  there was one more, the last returned row's key as the next cursor.
\<close>

definition page_rows :: "nat \<Rightarrow> 'r list \<Rightarrow> 'r list" where
  "page_rows limit rows = (if limit < length rows then take limit rows else rows)"

definition page_next :: "nat \<Rightarrow> ('r \<Rightarrow> 'c) \<Rightarrow> 'r list \<Rightarrow> 'c option" where
  "page_next limit cursorOf rows =
    (if limit < length rows then Some (cursorOf (last (page_rows limit rows))) else None)"

lemma page_rows_take: "page_rows limit rows = take limit rows"
  by (simp add: page_rows_def)

lemma page_rows_fetch [simp]: "page_rows limit (take (Suc limit) rows) = take limit rows"
  by (simp add: page_rows_take min_def)

lemma page_next_fetch: "page_next limit f (take (Suc limit) rows) =
    (if limit < length rows then Some (f (last (take limit rows))) else None)"
  by (auto simp: page_next_def page_rows_def min_def)

text \<open>
  A fetch past a cursor over rows sorted by a key, ascending or descending: the contract the
  tables give, with a key that is unique among the rows. \<open>crawl\<close>
  follows the cursors with fuel; \<open>length rows + 1\<close> pages always reach the end.
\<close>

fun crawl :: "('c option \<Rightarrow> 'r list \<times> 'c option) \<Rightarrow> nat \<Rightarrow> 'c option \<Rightarrow> 'r list option" where
  "crawl page 0 c = None"
| "crawl page (Suc n) c = (case page c of
      (rows, None) \<Rightarrow> Some rows
    | (rows, Some c') \<Rightarrow> map_option (\<lambda>rest. rows @ rest) (crawl page n (Some c')))"

locale keyset =
  fixes key :: "'r \<Rightarrow> 'k"
    and lt :: "'k \<Rightarrow> 'k \<Rightarrow> bool"
    and fetch :: "'k option \<Rightarrow> 'r list"
    and rows :: "'r list"
  assumes lt_asym: "lt a b \<Longrightarrow> \<not> lt b a"
    and lt_total: "a \<noteq> b \<Longrightarrow> lt a b \<or> lt b a"
    and rows_sorted: "sorted_wrt (\<lambda>a b. \<not> lt (key b) (key a)) rows"
    and fetch_first: "fetch None = rows"
    and fetch_after: "fetch (Some c) = filter (\<lambda>r. lt c (key r)) rows"
begin

definition page :: "nat \<Rightarrow> 'k option \<Rightarrow> 'r list \<times> 'k option" where
  "page limit c = (take limit (fetch c), page_next limit key (take (Suc limit) (fetch c)))"

lemma filter_after:
  assumes "rows = xs @ [x] @ ys" and "distinct (map key rows)"
  shows "filter (\<lambda>r. lt (key x) (key r)) rows = ys"
proof -
  have "\<forall>r \<in> set xs. \<not> lt (key x) (key r)" "\<forall>r \<in> set ys. lt (key x) (key r)"
    using rows_sorted assms lt_total by (auto simp: sorted_wrt_append)
  moreover have "\<not> lt (key x) (key x)" using lt_asym by blast
  ultimately show ?thesis using assms(1) by (auto simp: filter_empty_conv filter_id_conv)
qed

lemma crawl_suffix:
  assumes "0 < limit" and "rows = pre @ suf" and "fetch c = suf" and "length suf < n" and d: "distinct (map key rows)"
  shows "crawl (page limit) n c = Some suf"
  using assms(1-4)
proof (induction n arbitrary: pre suf c)
  case 0
  then show ?case by simp
next
  case (Suc n)
  show ?case
  proof (cases "limit < length suf")
    case False
    then have "page limit c = (suf, None)"
      using Suc.prems by (simp add: page_def page_next_def)
    then show ?thesis by simp
  next
    case True
    define x where "x = last (take limit suf)"
    have tk: "take limit suf = butlast (take limit suf) @ [x]"
      using True Suc.prems(1) unfolding x_def
      by (metis append_butlast_last_id length_greater_0_conv list.size(3) not_less_zero take_eq_Nil)
    have nxt: "fetch (Some (key x)) = drop limit suf"
    proof -
      have "rows = (pre @ butlast (take limit suf)) @ [x] @ drop limit suf"
        using Suc.prems(2) tk by (metis append.assoc append_take_drop_id)
      from filter_after[OF this d] show ?thesis by (simp add: fetch_after)
    qed
    have "crawl (page limit) n (Some (key x)) = Some (drop limit suf)"
    proof (rule Suc.IH)
      show "rows = (pre @ take limit suf) @ drop limit suf" using Suc.prems(2) by simp
      show "length (drop limit suf) < n" using Suc.prems(1,4) True by simp
    qed (use Suc.prems(1) nxt in auto)
    moreover have "page limit c = (take limit suf, Some (key x))"
      using True Suc.prems(3) by (simp add: page_def page_next_fetch x_def)
    ultimately show ?thesis by simp
  qed
qed

lemma crawl_all: "distinct (map key rows) \<Longrightarrow> 0 < limit \<Longrightarrow> length rows < n \<Longrightarrow> crawl (page limit) n None = Some rows"
  using crawl_suffix[of limit "[]" rows None n] fetch_first by simp

end

section \<open>Thrown values\<close>

text \<open>
  What a filter can catch: an \<open>HttpException\<close> with its status, response body and message (a
  \<open>PublicApiError\<close> also carries a reply code), any other \<open>Error\<close>, or another value.
\<close>

record http_exception =
  he_status :: nat
  he_body :: json
  he_message :: string

datatype thrown =
    ThrownHttp http_exception
  | ThrownPublic int http_exception
  | ThrownError string
  | ThrownOther

definition http_of :: "thrown \<Rightarrow> http_exception option" where
  "http_of t = (case t of ThrownHttp h \<Rightarrow> Some h | ThrownPublic _ h \<Rightarrow> Some h | _ \<Rightarrow> None)"

section \<open>Public envelope (\<open>envelope.ts\<close>)\<close>

record envelope =
  env_replyCode :: int
  env_replyText :: string
  env_data :: json

record reply =
  rp_status :: nat
  rp_contentType :: string
  rp_envelope :: envelope

definition publicEnvelope :: "json \<Rightarrow> envelope" where
  "publicEnvelope d = \<lparr>env_replyCode = 0, env_replyText = ''OK'', env_data = d\<rparr>"

text \<open>\<open>message.join('; ')\<close> on an array of strings.\<close>

definition join_messages :: "json list \<Rightarrow> string" where
  "join_messages ms = join_with ''; '' (map (\<lambda>m. if m = JNull then [] else js_string m) ms)"

definition messageOf :: "http_exception \<Rightarrow> string" where
  "messageOf h = (case he_body h of
      JStr s \<Rightarrow> s
    | JObj kvs \<Rightarrow> (case map_of kvs ''message'' of
          Some (JStr m) \<Rightarrow> m
        | Some (JArr ms) \<Rightarrow> join_messages ms
        | _ \<Rightarrow> he_message h)
    | _ \<Rightarrow> he_message h)"

definition publicEnvelopeFilter :: "thrown \<Rightarrow> reply" where
  "publicEnvelopeFilter t =
    (let status = (case http_of t of Some h \<Rightarrow> he_status h | None \<Rightarrow> 500);
         replyCode = (case t of ThrownPublic c _ \<Rightarrow> c | _ \<Rightarrow> int status);
         replyText = (case http_of t of Some h \<Rightarrow> messageOf h | None \<Rightarrow> ''Internal server error'')
     in \<lparr>rp_status = status, rp_contentType = ''application/json'',
         rp_envelope = \<lparr>env_replyCode = replyCode, env_replyText = replyText, env_data = JNull\<rparr>\<rparr>)"

section \<open>Problem documents (\<open>problem-json.filter.ts\<close>)\<close>

record problem =
  pb_title :: string
  pb_status :: nat
  pb_detail :: "string option"
  pb_instance :: string
  pb_errors :: "json option"

text \<open>\<open>titles\<close> is Node's \<open>STATUS_CODES\<close> table.\<close>

definition httpExceptionTitle :: "(nat \<Rightarrow> string option) \<Rightarrow> thrown \<Rightarrow> string" where
  "httpExceptionTitle titles t =
    (case titles (case http_of t of Some h \<Rightarrow> he_status h | None \<Rightarrow> 500) of
       Some s \<Rightarrow> s | None \<Rightarrow> ''Internal Server Error'')"

definition extractProblemFields ::
  "(nat \<Rightarrow> string option) \<Rightarrow> thrown \<Rightarrow> json option \<Rightarrow> string \<times> string option \<times> json option" where
  "extractProblemFields titles t body =
    (let title = httpExceptionTitle titles t in
     case body of
       Some (JObj kvs) \<Rightarrow> (case map_of kvs ''errors'' of
           Some es \<Rightarrow> (case map_of kvs ''title'' of Some (JStr s) \<Rightarrow> s | _ \<Rightarrow> title,
                        case map_of kvs ''detail'' of Some (JStr s) \<Rightarrow> Some s | _ \<Rightarrow> None, Some es)
         | None \<Rightarrow> (title, case map_of kvs ''message'' of Some (JStr m) \<Rightarrow> Some m
             | Some (JArr ms) \<Rightarrow> Some (join_messages ms) | _ \<Rightarrow> None, None))
     | Some (JArr xs) \<Rightarrow> (title, None, None)
     | Some (JStr s) \<Rightarrow> (title, Some s, None)
     | _ \<Rightarrow> (title, case t of ThrownHttp h \<Rightarrow> Some (he_message h) | ThrownPublic _ h \<Rightarrow> Some (he_message h)
           | ThrownError m \<Rightarrow> Some m | ThrownOther \<Rightarrow> Some ''Internal server error'', None))"

definition problemJsonFilter :: "(nat \<Rightarrow> string option) \<Rightarrow> thrown \<Rightarrow> string option \<Rightarrow> string \<Rightarrow> problem" where
  "problemJsonFilter titles t originalUrl url =
    (let (title, detail, errs) = extractProblemFields titles t (map_option he_body (http_of t))
     in \<lparr>pb_title = title,
         pb_status = (case http_of t of Some h \<Rightarrow> he_status h | None \<Rightarrow> 500),
         pb_detail = detail,
         pb_instance = (case originalUrl of Some u \<Rightarrow> u | None \<Rightarrow> url),
         pb_errors = errs\<rparr>)"

text \<open>
  \<open>CoreProblemJsonFilter\<close>: an unexpected error is logged and replaced. \<open>ise\<close> is
  \<open>new InternalServerErrorException()\<close>, whose status, body and message NestJS builds.
\<close>

definition coreProblemJsonFilter ::
  "(nat \<Rightarrow> string option) \<Rightarrow> http_exception \<Rightarrow> thrown \<Rightarrow> string option \<Rightarrow> string \<Rightarrow> problem" where
  "coreProblemJsonFilter titles ise t originalUrl url =
    (case http_of t of
       Some h \<Rightarrow> problemJsonFilter titles t originalUrl url
     | None \<Rightarrow> problemJsonFilter titles (ThrownHttp ise) originalUrl url)"

lemma coreProblemJsonFilter_hides:
  "http_of t = None \<Longrightarrow> http_of u = None \<Longrightarrow>
    coreProblemJsonFilter titles ise t o1 o2 = coreProblemJsonFilter titles ise u o1 o2"
  by (simp add: coreProblemJsonFilter_def)

end
