(* ===== verification/Tenant_Scope.thy ===== *)
theory Tenant_Scope
  imports Js_Runtime
begin

text \<open>
  \<open>packages/ts-common/src/tenant\<close> and \<open>packages/ts-common/src/prisma-tenant\<close>: the tenant in
  context and the two database clients that scope every query to it. The \<open>AsyncLocalStorage\<close>s
  become an explicit context record. The wrapped Postgres connection is a record with a log of
  what was sent and the transaction-local settings in force, and a list of outcomes that says
  which statements fail, so that every error path is a run of the model.
\<close>

section \<open>Tenant context (\<open>tenant/index.ts\<close>)\<close>

record als =
  als_tenant :: "string option"
  als_system :: bool
  als_inScopedTx :: bool

definition emptyCtx :: als where
  "emptyCtx = \<lparr>als_tenant = None, als_system = False, als_inScopedTx = False\<rparr>"

definition tenantContextRun :: "string \<Rightarrow> (als \<Rightarrow> exn + 'a) \<Rightarrow> als \<Rightarrow> exn + 'a" where
  "tenantContextRun tenantId fn ctx =
    (if is_uuid tenantId then fn (ctx\<lparr>als_tenant := Some tenantId\<rparr>)
     else Inl (PlainError (''invalid tenant id: '' @ tenantId)))"

definition requireTenant :: "als \<Rightarrow> exn + string" where
  "requireTenant ctx = (case als_tenant ctx of
      None \<Rightarrow> Inl MissingTenant
    | Some t \<Rightarrow> if t = [] then Inl MissingTenant else Inr t)"

text \<open>\<open>TenantInterceptor\<close>: \<open>source\<close> is \<open>request.user\<close> or the RPC data, with its \<open>tenant_id\<close>.\<close>

definition tenantInterceptor ::
  "string option option \<Rightarrow> (als \<Rightarrow> exn + 'a) \<Rightarrow> als \<Rightarrow> exn + 'a" where
  "tenantInterceptor source handle ctx =
    (case source of
       Some (Some t) \<Rightarrow> if t = [] then handle ctx else tenantContextRun t handle ctx
     | _ \<Rightarrow> handle ctx)"

definition withSystemScope :: "(als \<Rightarrow> exn + 'a) \<Rightarrow> als \<Rightarrow> exn + 'a" where
  "withSystemScope fn ctx = fn (ctx\<lparr>als_system := True\<rparr>)"

section \<open>The scope statement\<close>

text \<open>
  \<open>SetTenant t\<close> is \<open>select set_config('app.tenant_id', t, true)\<close>, \<open>SetRole r\<close> is
  \<open>set local role "r"\<close>; the others are the statements of a query and of transaction control.
\<close>

datatype 'q stmt = SetTenant string | SetRole string | BeginTx | CommitTx | RollbackTx | Query 'q

definition scopeStatement :: "string option \<Rightarrow> als \<Rightarrow> exn + 'q stmt option" where
  "scopeStatement systemRole ctx =
    (if \<not> als_system ctx then
       (case requireTenant ctx of Inl e \<Rightarrow> Inl e | Inr t \<Rightarrow> Inr (Some (SetTenant t)))
     else Inr (case systemRole of None \<Rightarrow> None | Some r \<Rightarrow> if r = [] then None else Some (SetRole r)))"

definition is_role_name :: "string \<Rightarrow> bool" where
  "is_role_name r \<longleftrightarrow> r \<noteq> [] \<and> (lower_alpha (hd r) \<or> hd r = CHR ''_'') \<and>
     list_all (\<lambda>c. lower_alpha c \<or> digit_char c \<or> c = CHR ''_'') (tl r)"

definition checkRole :: "string option \<Rightarrow> exn + string option" where
  "checkRole role = (case role of None \<Rightarrow> Inr None
     | Some r \<Rightarrow> if is_role_name r then Inr (Some r) else Inl (PlainError (''invalid systemRole: '' @ r)))"

section \<open>The Prisma client (\<open>withTenantScope\<close>)\<close>

text \<open>
  What reaches the base client: a query on its own, a batch transaction, or an interactive
  transaction whose callback runs in the context given.
\<close>

datatype 'q prisma_call = Direct 'q | BatchTx "'q stmt list" | InteractiveTx "'q stmt list" als

definition allOperations :: "string option \<Rightarrow> als \<Rightarrow> 'q \<Rightarrow> exn + 'q prisma_call" where
  "allOperations role ctx q =
    (if als_inScopedTx ctx then Inr (Direct q)
     else case scopeStatement role ctx of
       Inl e \<Rightarrow> Inl e
     | Inr None \<Rightarrow> Inr (Direct q)
     | Inr (Some st) \<Rightarrow> Inr (BatchTx [st, Query q]))"

definition transactionFn :: "string option \<Rightarrow> als \<Rightarrow> exn + 'q prisma_call" where
  "transactionFn role ctx =
    (case scopeStatement role ctx of
       Inl e \<Rightarrow> Inl e
     | Inr st \<Rightarrow> Inr (InteractiveTx (case st of None \<Rightarrow> [] | Some s \<Rightarrow> [s]) (ctx\<lparr>als_inScopedTx := True\<rparr>)))"

definition transactionArray :: "string option \<Rightarrow> als \<Rightarrow> 'q list \<Rightarrow> exn + 'q prisma_call" where
  "transactionArray role ctx qs =
    (case scopeStatement role ctx of
       Inl e \<Rightarrow> Inl e
     | Inr None \<Rightarrow> Inr (BatchTx (map Query qs))
     | Inr (Some st) \<Rightarrow> Inr (BatchTx (st # map Query qs)))"

text \<open>\<open>results.slice(1)\<close>: the scope statement's own result is dropped.\<close>

definition batchResults :: "bool \<Rightarrow> 'r list \<Rightarrow> 'r list" where
  "batchResults scoped results = (if scoped then drop 1 results else results)"

section \<open>The Kysely driver\<close>

text \<open>
  The inner connection. \<open>cn_outcomes\<close> lists whether each coming statement succeeds (none left:
  it does). Transaction-local settings end with the transaction; a statement that fails changes
  nothing, except that a failed commit or rollback ends the transaction all the same.
\<close>

record 'q conn =
  cn_log :: "('q \<times> bool \<times> string option \<times> string option) list"
  cn_outcomes :: "bool list"
  cn_tx :: bool
  cn_tenant :: "string option"
  cn_role :: "string option"
  cn_inTransaction :: bool

definition effect_of :: "'q stmt \<Rightarrow> bool \<Rightarrow> 'q conn \<Rightarrow> 'q conn" where
  "effect_of s ok c = (case s of
      BeginTx \<Rightarrow> if ok then c\<lparr>cn_tx := True\<rparr> else c
    | CommitTx \<Rightarrow> c\<lparr>cn_tx := False, cn_tenant := None, cn_role := None\<rparr>
    | RollbackTx \<Rightarrow> c\<lparr>cn_tx := False, cn_tenant := None, cn_role := None\<rparr>
    | SetTenant t \<Rightarrow> if ok \<and> cn_tx c then c\<lparr>cn_tenant := Some t\<rparr> else c
    | SetRole r \<Rightarrow> if ok \<and> cn_tx c then c\<lparr>cn_role := Some r\<rparr> else c
    | Query q \<Rightarrow> c\<lparr>cn_log := cn_log c @ [(q, cn_tx c, cn_tenant c, cn_role c)]\<rparr>)"

definition send :: "'q stmt \<Rightarrow> ('q conn, unit) comp" where
  "send s c = (case cn_outcomes c of
      [] \<Rightarrow> (Inr (), effect_of s True c)
    | ok # rest \<Rightarrow> (if ok then Inr () else Inl (PlainError ''query failed''),
        effect_of s ok (c\<lparr>cn_outcomes := rest\<rparr>)))"

definition setInTransaction :: "bool \<Rightarrow> 'q conn \<Rightarrow> 'q conn" where
  "setInTransaction b c = c\<lparr>cn_inTransaction := b\<rparr>"

text \<open>\<open>try m catch (err) { h; throw err }\<close> and \<open>try m finally { f }\<close>.\<close>

definition onError :: "('s, 'a) comp \<Rightarrow> ('s, unit) comp \<Rightarrow> ('s, 'a) comp" where
  "onError m h s = (case m s of (Inl e, s') \<Rightarrow> (Inl e, snd (h s')) | (Inr a, s') \<Rightarrow> (Inr a, s'))"

definition finallyM :: "('s, 'a) comp \<Rightarrow> ('s \<Rightarrow> 's) \<Rightarrow> ('s, 'a) comp" where
  "finallyM m f s = (case m s of (r, s') \<Rightarrow> (r, f s'))"

definition executeQuery :: "string option \<Rightarrow> als \<Rightarrow> 'q \<Rightarrow> ('q conn, unit) comp" where
  "executeQuery role ctx q =
    bindM (getM cn_inTransaction) (\<lambda>inTx.
      if inTx then send (Query q)
      else bindM (liftE (scopeStatement role ctx)) (\<lambda>stmt.
        case stmt of
          None \<Rightarrow> send (Query q)
        | Some st \<Rightarrow> bindM (send BeginTx) (\<lambda>_.
            onError (bindM (send st) (\<lambda>_. bindM (send (Query q)) (\<lambda>_. send CommitTx)))
              (send RollbackTx))))"

definition streamQuery :: "'q \<Rightarrow> ('q conn, unit) comp" where
  "streamQuery q = bindM (getM cn_inTransaction) (\<lambda>inTx.
     if inTx then send (Query q)
     else throwM (PlainError ''streamQuery must run inside db.transaction()''))"

definition rollbackTransaction :: "('q conn, unit) comp" where
  "rollbackTransaction = finallyM (send RollbackTx) (setInTransaction False)"

definition commitTransaction :: "('q conn, unit) comp" where
  "commitTransaction = finallyM (send CommitTx) (setInTransaction False)"

definition beginTransaction :: "string option \<Rightarrow> als \<Rightarrow> ('q conn, unit) comp" where
  "beginTransaction role ctx =
    bindM (liftE (scopeStatement role ctx)) (\<lambda>stmt.
    bindM (send BeginTx) (\<lambda>_.
    bindM (modifyM (setInTransaction True)) (\<lambda>_.
      onError (case stmt of None \<Rightarrow> retM () | Some st \<Rightarrow> send st) rollbackTransaction)))"

definition acquired :: "bool list \<Rightarrow> 'q conn" where
  "acquired outcomes = \<lparr>cn_log = [], cn_outcomes = outcomes, cn_tx = False, cn_tenant = None,
     cn_role = None, cn_inTransaction = False\<rparr>"

text \<open>The calls Kysely makes on a connection it has acquired; the caller sees each outcome.\<close>

datatype 'q driver_op = OpQuery als 'q | OpStream 'q | OpBegin als | OpCommit | OpRollback

definition driver_step :: "string option \<Rightarrow> 'q driver_op \<Rightarrow> 'q conn \<Rightarrow> 'q conn" where
  "driver_step role op c = snd ((case op of
      OpQuery ctx q \<Rightarrow> executeQuery role ctx q
    | OpStream q \<Rightarrow> streamQuery q
    | OpBegin ctx \<Rightarrow> if cn_inTransaction c then retM () else beginTransaction role ctx
    | OpCommit \<Rightarrow> commitTransaction
    | OpRollback \<Rightarrow> rollbackTransaction) c)"

fun driver_run :: "string option \<Rightarrow> 'q driver_op list \<Rightarrow> 'q conn \<Rightarrow> 'q conn" where
  "driver_run role [] c = c"
| "driver_run role (op # ops) c = driver_run role ops (driver_step role op c)"

section \<open>Every query runs scoped\<close>

text \<open>The context of every operation of a run names tenant \<open>t\<close> and is not system scope.\<close>

definition op_in_tenant :: "string \<Rightarrow> 'q driver_op \<Rightarrow> bool" where
  "op_in_tenant t op = (case op of
      OpQuery ctx _ \<Rightarrow> als_tenant ctx = Some t \<and> \<not> als_system ctx
    | OpBegin ctx \<Rightarrow> als_tenant ctx = Some t \<and> \<not> als_system ctx
    | _ \<Rightarrow> True)"

definition logged_in :: "string \<Rightarrow> 'q conn \<Rightarrow> bool" where
  "logged_in t c \<longleftrightarrow> list_all (\<lambda>(q, tx, ten, role). tx \<and> ten = Some t \<and> role = None) (cn_log c)"

definition idle_conn :: "'q conn \<Rightarrow> bool" where
  "idle_conn c \<longleftrightarrow> \<not> cn_tx c \<and> cn_tenant c = None \<and> cn_role c = None \<and> \<not> cn_inTransaction c"

definition scoped_inv :: "string \<Rightarrow> 'q conn \<Rightarrow> bool" where
  "scoped_inv t c \<longleftrightarrow> logged_in t c \<and>
     (if cn_inTransaction c then cn_tx c \<and> cn_tenant c = Some t \<and> cn_role c = None
      else idle_conn c)"

lemmas conn_defs = send_def effect_of_def onError_def finallyM_def setInTransaction_def bindM_def
  liftE_def getM_def modifyM_def retM_def throwM_def idle_conn_def logged_in_def

lemma scopeStatement_tenant:
  "als_tenant ctx = Some t \<Longrightarrow> \<not> als_system ctx \<Longrightarrow> t \<noteq> [] \<Longrightarrow>
    scopeStatement role ctx = Inr (Some (SetTenant t))"
  by (simp add: scopeStatement_def requireTenant_def)

lemma executeQuery_inv:
  assumes "scoped_inv t c" "als_tenant ctx = Some t" "\<not> als_system ctx" "t \<noteq> []"
  shows "scoped_inv t (snd (executeQuery role ctx q c))"
  using assms
  by (auto simp: executeQuery_def scoped_inv_def scopeStatement_tenant conn_defs
      split: list.splits if_splits)

lemma streamQuery_inv: "scoped_inv t c \<Longrightarrow> scoped_inv t (snd (streamQuery q c))"
  by (auto simp: streamQuery_def scoped_inv_def conn_defs split: list.splits if_splits)

lemma commit_inv: "scoped_inv t c \<Longrightarrow> scoped_inv t (snd (commitTransaction c))"
  by (auto simp: commitTransaction_def scoped_inv_def conn_defs split: list.splits if_splits)

lemma rollback_inv: "scoped_inv t c \<Longrightarrow> scoped_inv t (snd (rollbackTransaction c))"
  by (auto simp: rollbackTransaction_def scoped_inv_def conn_defs split: list.splits if_splits)

lemma begin_inv:
  assumes "scoped_inv t c" "als_tenant ctx = Some t" "\<not> als_system ctx" "t \<noteq> []"
    "\<not> cn_inTransaction c"
  shows "scoped_inv t (snd (beginTransaction role ctx c))"
  using assms
  by (auto simp: beginTransaction_def rollbackTransaction_def scoped_inv_def scopeStatement_tenant
      conn_defs split: list.splits if_splits)

lemma driver_step_inv:
  assumes "scoped_inv t c" "op_in_tenant t op" "t \<noteq> []"
  shows "scoped_inv t (driver_step role op c)"
proof (cases op)
  case (OpBegin ctx)
  with assms show ?thesis by (simp add: driver_step_def op_in_tenant_def begin_inv)
qed (use assms in \<open>simp_all add: driver_step_def op_in_tenant_def executeQuery_inv streamQuery_inv
       commit_inv rollback_inv\<close>)

lemma driver_run_inv:
  "scoped_inv t c \<Longrightarrow> list_all (op_in_tenant t) ops \<Longrightarrow> t \<noteq> [] \<Longrightarrow>
    scoped_inv t (driver_run role ops c)"
  by (induction ops arbitrary: c) (auto intro: driver_step_inv)

lemma acquired_inv: "scoped_inv t (acquired outcomes)"
  by (simp add: scoped_inv_def acquired_def logged_in_def idle_conn_def)

lemma no_tenant_no_query:
  assumes "als_tenant ctx = None" "\<not> als_system ctx" "\<not> cn_inTransaction c"
  shows "executeQuery role ctx q c = (Inl MissingTenant, c)"
    and "beginTransaction role ctx c = (Inl MissingTenant, c)"
  using assms by (simp_all add: executeQuery_def beginTransaction_def scopeStatement_def
      requireTenant_def bindM_def liftE_def getM_def)

end
