(* ===== verification/Auth_Lib.thy ===== *)
theory Auth_Lib
  imports Js_Runtime
begin

text \<open>
  \<open>packages/ts-common/src/auth\<close> with core's \<open>revocation-verifier.ts\<close> and
  \<open>operator-only.guard.ts\<close>: the claims schema, the global guard, and the service-token client.
  \<open>jose\<close>'s signature check is a parameter: \<open>jwt token\<close> is the payload it accepted.
\<close>

section \<open>Claims (\<open>verifier.ts\<close>)\<close>

datatype principal_typ = TUser | TClient | TService

record principal =
  pr_sub :: string
  pr_typ :: principal_typ
  pr_tenant :: "string option"
  pr_perms :: "string list option"
  pr_scopes :: "string list option"
  pr_iat :: int
  pr_exp :: int

definition parseTyp :: "json option \<Rightarrow> principal_typ option" where
  "parseTyp v = (case v of
      Some (JStr s) \<Rightarrow> if s = ''user'' then Some TUser else if s = ''client'' then Some TClient
        else if s = ''service'' then Some TService else None
    | _ \<Rightarrow> None)"

definition parseSub :: "json option \<Rightarrow> string option" where
  "parseSub v = (case v of Some (JStr s) \<Rightarrow> if 1 \<le> length s then Some s else None | _ \<Rightarrow> None)"

definition parseTenantId :: "json option \<Rightarrow> string option option" where
  "parseTenantId v = (case v of
      Some JNull \<Rightarrow> Some None
    | Some (JStr s) \<Rightarrow> if is_uuid s then Some (Some s) else None
    | _ \<Rightarrow> None)"

fun parsePermissions :: "json list \<Rightarrow> string list option" where
  "parsePermissions [] = Some []"
| "parsePermissions (JStr s # vs) = (if is_permission s then map_option ((#) s) (parsePermissions vs) else None)"
| "parsePermissions (_ # vs) = None"

definition parseOptPermissions :: "json option \<Rightarrow> string list option option" where
  "parseOptPermissions v = (case v of
      None \<Rightarrow> Some None
    | Some (JArr vs) \<Rightarrow> map_option Some (parsePermissions vs)
    | _ \<Rightarrow> None)"

definition parseInt :: "json option \<Rightarrow> int option" where
  "parseInt v = (case v of Some (JNum n) \<Rightarrow> if is_int_num n then Some (mant n) else None | _ \<Rightarrow> None)"

text \<open>\<open>jwtClaims.parse\<close>: every field valid, and perms for users, scopes for the others.\<close>

definition grants_fit :: "principal \<Rightarrow> bool" where
  "grants_fit p \<longleftrightarrow> (if pr_typ p = TUser then pr_perms p \<noteq> None \<and> pr_scopes p = None
     else pr_scopes p \<noteq> None \<and> pr_perms p = None)"

definition parseClaims :: "json \<Rightarrow> exn + principal" where
  "parseClaims v =
    (case (parseSub (obj_get v ''sub''), parseTyp (obj_get v ''typ''), parseTenantId (obj_get v ''tenant_id''),
           parseOptPermissions (obj_get v ''perms''), parseOptPermissions (obj_get v ''scopes''),
           parseInt (obj_get v ''iat''), parseInt (obj_get v ''exp'')) of
       (Some sub, Some typ, Some tenant, Some perms, Some scopes, Some iat, Some ex) \<Rightarrow>
         let p = \<lparr>pr_sub = sub, pr_typ = typ, pr_tenant = tenant, pr_perms = perms, pr_scopes = scopes,
                 pr_iat = iat, pr_exp = ex\<rparr>
         in if grants_fit p then Inr p else Inl (PlainError ''invalid claims'')
     | _ \<Rightarrow> Inl (PlainError ''invalid claims''))"

definition grantsOf :: "principal \<Rightarrow> string list" where
  "grantsOf p = (case (if pr_typ p = TUser then pr_perms p else pr_scopes p) of None \<Rightarrow> [] | Some g \<Rightarrow> g)"

definition verifyToken :: "(string \<Rightarrow> json option) \<Rightarrow> string \<Rightarrow> exn + principal" where
  "verifyToken jwt token = (case jwt token of None \<Rightarrow> Inl (PlainError ''JWT verification failed'')
     | Some payload \<Rightarrow> parseClaims payload)"

text \<open>\<open>RevocationAwareVerifier.verify\<close>.\<close>

definition verifyRevocationAware ::
  "(string \<Rightarrow> exn + principal) \<Rightarrow> (string \<Rightarrow> bool) \<Rightarrow> string \<Rightarrow> exn + principal" where
  "verifyRevocationAware inner isRevoked token =
    (case inner token of Inl e \<Rightarrow> Inl e
     | Inr p \<Rightarrow> if pr_typ p = TClient \<and> isRevoked (pr_sub p) then Inl (PlainError ''API client revoked'')
         else Inr p)"

lemma parsePermissions_valid: "parsePermissions vs = Some ps \<Longrightarrow> list_all is_permission ps"
  by (induction vs arbitrary: ps rule: parsePermissions.induct) (auto split: if_splits)

lemma parseOptPermissions_valid: "parseOptPermissions v = Some (Some ps) \<Longrightarrow> list_all is_permission ps"
  by (auto simp: parseOptPermissions_def intro: parsePermissions_valid
      split: option.splits json.splits if_splits)

lemma parseTenantId_valid: "parseTenantId v = Some (Some t) \<Longrightarrow> is_uuid t"
  by (auto simp: parseTenantId_def split: option.splits json.splits if_splits)

lemma parseClaims_valid:
  assumes "parseClaims v = Inr p"
  shows "grants_fit p" and "pr_tenant p = Some t \<Longrightarrow> is_uuid t" and "list_all is_permission (grantsOf p)"
proof -
  show fit: "grants_fit p"
    using assms by (auto simp: parseClaims_def Let_def split: option.splits if_splits)
  show "pr_tenant p = Some t \<Longrightarrow> is_uuid t"
    using assms by (auto simp: parseClaims_def Let_def dest: parseTenantId_valid split: option.splits if_splits)
  have "\<And>ps. pr_perms p = Some ps \<Longrightarrow> list_all is_permission ps"
    and "\<And>ps. pr_scopes p = Some ps \<Longrightarrow> list_all is_permission ps"
    using assms by (auto simp: parseClaims_def Let_def dest: parseOptPermissions_valid split: option.splits if_splits)
  then show "list_all is_permission (grantsOf p)"
    by (auto simp: grantsOf_def split: option.splits)
qed

section \<open>The guard (\<open>guard.ts\<close>)\<close>

text \<open>A route's metadata: \<open>@Public()\<close>, \<open>@InternalOnly()\<close>, \<open>@RequirePermission(...)\<close>.\<close>

record route =
  rt_public :: bool
  rt_internal :: bool
  rt_required :: "string list"

definition bearerToken :: "string option \<Rightarrow> string option" where
  "bearerToken authorization =
    (let parts = split_on CHR '' '' (case authorization of None \<Rightarrow> [] | Some a \<Rightarrow> a) in
     case parts of
       scheme # token # _ \<Rightarrow> if lower scheme = ''bearer'' \<and> token \<noteq> [] then Some token else None
     | _ \<Rightarrow> None)"

definition missingGrants :: "route \<Rightarrow> principal \<Rightarrow> string list" where
  "missingGrants r p = filter (\<lambda>g. \<not> List.member (grantsOf p) g) (rt_required r)"

text \<open>The principal it attaches to the request, None on a public route.\<close>

definition canActivate :: "(string \<Rightarrow> exn + principal) \<Rightarrow> route \<Rightarrow> string option \<Rightarrow> exn + principal option" where
  "canActivate verify r authorization =
    (if rt_public r then Inr None
     else case bearerToken authorization of
       None \<Rightarrow> Inl (HttpExc 401 ''Missing bearer token'')
     | Some token \<Rightarrow> (case verify token of
         Inl e \<Rightarrow> Inl (HttpExc 401 ''Invalid or expired token'')
       | Inr p \<Rightarrow>
           if rt_internal r \<noteq> (pr_typ p = TService) then
             Inl (HttpExc 403 (if rt_internal r then ''Service token required''
               else ''Service tokens are only valid on internal routes''))
           else if missingGrants r p \<noteq> [] then
             Inl (HttpExc 403 (''Missing permission: '' @ join_with '', '' (missingGrants r p)))
           else Inr (Some p)))"

text \<open>\<open>OperatorOnlyGuard\<close> (an absent principal has no \<open>tenant_id\<close>, which is not null).\<close>

definition operatorOnly :: "principal option \<Rightarrow> exn + bool" where
  "operatorOnly p = (if map_option pr_tenant p \<noteq> Some None then Inl (HttpExc 403 ''Operator principal required'')
     else Inr True)"

text \<open>The \<open>tenantOf\<close> every tenant controller has, with its own message.\<close>

definition tenantOf :: "string \<Rightarrow> principal \<Rightarrow> exn + string" where
  "tenantOf msg p = (case pr_tenant p of None \<Rightarrow> Inl (HttpExc 403 msg)
     | Some t \<Rightarrow> if t = [] then Inl (HttpExc 403 msg) else Inr t)"

lemma missingGrants_empty: "missingGrants r p = [] \<longleftrightarrow> set (rt_required r) \<subseteq> set (grantsOf p)"
  by (auto simp: missingGrants_def filter_empty_conv)

lemma canActivate_principal:
  "canActivate verify r a = Inr (Some p) \<longleftrightarrow>
    \<not> rt_public r \<and> (\<exists>token. bearerToken a = Some token \<and> verify token = Inr p) \<and>
    (rt_internal r \<longleftrightarrow> pr_typ p = TService) \<and> set (rt_required r) \<subseteq> set (grantsOf p)"
  by (auto simp: canActivate_def missingGrants_empty split: option.splits sum.splits if_splits)

lemma canActivate_none: "canActivate verify r a = Inr None \<longleftrightarrow> rt_public r"
  by (auto simp: canActivate_def split: option.splits sum.splits if_splits)

lemma canActivate_status: "canActivate verify r a = Inl e \<Longrightarrow> (\<exists>m. e = HttpExc 401 m) \<or> (\<exists>m. e = HttpExc 403 m)"
  by (auto simp: canActivate_def split: option.splits sum.splits if_splits)

section \<open>Service tokens (\<open>service-token.ts\<close>)\<close>

record token_client =
  tc_token :: "(string \<times> int) option"
  tc_inflight :: bool

datatype token_answer = Cached string | Joined | Started

definition getToken :: "int \<Rightarrow> int \<Rightarrow> token_client \<Rightarrow> token_answer \<times> token_client" where
  "getToken skew now c =
    (case tc_token c of
       Some (v, expiresAt) \<Rightarrow>
         if now < expiresAt - skew then (Cached v, c)
         else if tc_inflight c then (Joined, c) else (Started, c\<lparr>tc_inflight := True\<rparr>)
     | None \<Rightarrow> if tc_inflight c then (Joined, c) else (Started, c\<lparr>tc_inflight := True\<rparr>))"

text \<open>The request's end: the response's token and lifetime in seconds, or a failed request.\<close>

definition fetchDone :: "int \<Rightarrow> (string \<times> int) option \<Rightarrow> token_client \<Rightarrow> token_client" where
  "fetchDone now res c = (case res of
      Some (v, expires_in) \<Rightarrow> c\<lparr>tc_token := Some (v, now + expires_in * 1000), tc_inflight := False\<rparr>
    | None \<Rightarrow> c\<lparr>tc_inflight := False\<rparr>)"

datatype token_event = AskToken int | FetchEnd int "(string \<times> int) option"

definition token_step :: "int \<Rightarrow> token_client \<Rightarrow> token_event \<Rightarrow> token_client" where
  "token_step skew c ev = (case ev of AskToken now \<Rightarrow> snd (getToken skew now c)
     | FetchEnd now r \<Rightarrow> if tc_inflight c then fetchDone now r c else c)"

text \<open>Requests sent and not yet ended along a run.\<close>

fun outstanding :: "int \<Rightarrow> token_client \<Rightarrow> token_event list \<Rightarrow> nat \<Rightarrow> nat list" where
  "outstanding skew c [] n = []"
| "outstanding skew c (ev # evs) n =
    (let n' = (case ev of AskToken now \<Rightarrow> if fst (getToken skew now c) = Started then Suc n else n
        | FetchEnd _ _ \<Rightarrow> if tc_inflight c then n - 1 else n)
     in n' # outstanding skew (token_step skew c ev) evs n')"

lemma getToken_inflight:
  "fst (getToken skew now c) = Started \<Longrightarrow> \<not> tc_inflight c \<and> tc_inflight (snd (getToken skew now c))"
  "fst (getToken skew now c) \<noteq> Started \<Longrightarrow> snd (getToken skew now c) = c"
  by (auto simp: getToken_def split: option.splits if_splits)

lemma outstanding_le_1:
  "n = (if tc_inflight c then 1 else 0) \<Longrightarrow> list_all (\<lambda>k. k \<le> 1) (outstanding skew c evs n)"
proof (induction evs arbitrary: c n)
  case Nil
  then show ?case by simp
next
  case (Cons ev evs)
  let ?n = "case ev of AskToken now \<Rightarrow> if fst (getToken skew now c) = Started then Suc n else n
        | FetchEnd _ _ \<Rightarrow> if tc_inflight c then n - 1 else n"
  have n': "?n = (if tc_inflight (token_step skew c ev) then 1 else 0)"
  proof (cases ev)
    case (AskToken now)
    then show ?thesis
      using Cons.prems getToken_inflight[of skew now c]
      by (cases "fst (getToken skew now c) = Started") (auto simp: token_step_def)
  next
    case (FetchEnd now r)
    then show ?thesis
      using Cons.prems by (auto simp: token_step_def fetchDone_def split: option.splits)
  qed
  from Cons.IH[OF n'] n' show ?case by (simp add: Let_def)
qed

lemma getToken_fresh: "getToken skew now c = (Cached v, c') \<Longrightarrow> \<exists>e. tc_token c = Some (v, e) \<and> now < e - skew"
  by (auto simp: getToken_def split: option.splits if_splits)

end
