(* ===== verification/Nats_Lib.thy ===== *)
theory Nats_Lib
  imports Js_Runtime "HOL-Library.Word" "HOL-Library.List_Lexorder" "HOL-Library.Char_ord"
begin

unbundle bit_operations_syntax

text \<open>
  \<open>packages/ts-common/src/nats\<close>: the event envelope with its UUID v7 identifiers
  (\<open>envelope.ts\<close>), the publisher, and the consumer loop with its retries and dead letters
  (\<open>consumer.explorer.ts\<close>). The clock and the random bytes are arguments.
\<close>

section \<open>UUID v7\<close>

type_synonym byte = "8 word"

definition ms_byte :: "nat \<Rightarrow> nat \<Rightarrow> byte" where
  "ms_byte ms sh = word_of_nat (drop_bit sh ms AND 255)"

definition uuid_bytes :: "nat \<Rightarrow> byte list \<Rightarrow> byte list" where
  "uuid_bytes ms rnd =
    [ms_byte ms 40, ms_byte ms 32, ms_byte ms 24, ms_byte ms 16, ms_byte ms 8, ms_byte ms 0,
     0x70 OR (rnd ! 0 AND 0x0f), rnd ! 1, 0x80 OR (rnd ! 2 AND 0x3f)] @ take 7 (drop 3 rnd)"

definition hex_digit :: "nat \<Rightarrow> char" where
  "hex_digit n = (if n < 10 then char_of (48 + n) else char_of (87 + n))"

definition hex2 :: "byte \<Rightarrow> string" where
  "hex2 b = [hex_digit (unat b div 16), hex_digit (unat b mod 16)]"

definition to_hex :: "byte list \<Rightarrow> string" where
  "to_hex bs = concat (map hex2 bs)"

definition slice :: "nat \<Rightarrow> nat \<Rightarrow> string \<Rightarrow> string" where
  "slice i j s = take (j - i) (drop i s)"

definition uuidv7 :: "nat \<Rightarrow> byte list \<Rightarrow> string" where
  "uuidv7 ms rnd = (let hex = to_hex (uuid_bytes ms rnd) in
     slice 0 8 hex @ ''-'' @ slice 8 12 hex @ ''-'' @ slice 12 16 hex @ ''-'' @ slice 16 20 hex @ ''-'' @
     drop 20 hex)"

text \<open>The same string, byte by byte with the dash that follows it.\<close>

fun format_bytes :: "(byte \<times> string) list \<Rightarrow> string" where
  "format_bytes [] = []"
| "format_bytes ((b, sep) # bs) = hex2 b @ sep @ format_bytes bs"

definition uuid_seps :: "string list" where
  "uuid_seps = [[], [], [], ''-'', [], ''-'', [], ''-'', [], ''-'', [], [], [], [], [], []]"

lemma length_uuid_bytes: "length rnd = 10 \<Longrightarrow> length (uuid_bytes ms rnd) = 16"
  by (simp add: uuid_bytes_def)

lemma length16: "length xs = 16 \<Longrightarrow> \<exists>a b c d e f g h i j k l m n p q. xs = [a, b, c, d, e, f, g, h, i, j, k, l, m, n, p, q]"
  by (simp add: eval_nat_numeral length_Suc_conv) blast

lemma format_is_slices:
  assumes "length bs = 16"
  shows "format_bytes (zip bs uuid_seps) =
    slice 0 8 (to_hex bs) @ ''-'' @ slice 8 12 (to_hex bs) @ ''-'' @ slice 12 16 (to_hex bs) @ ''-'' @
    slice 16 20 (to_hex bs) @ ''-'' @ drop 20 (to_hex bs)"
  using length16[OF assms] by (auto simp: uuid_seps_def to_hex_def slice_def hex2_def)

lemma uuidv7_format: "length rnd = 10 \<Longrightarrow> uuidv7 ms rnd = format_bytes (zip (uuid_bytes ms rnd) uuid_seps)"
  by (simp add: uuidv7_def Let_def format_is_slices length_uuid_bytes)

lemma code_char_of: "n < 256 \<Longrightarrow> code (char_of n) = n"
  by (simp add: code_def)

lemma hex_digit_class: "n < 16 \<Longrightarrow> hex_char (hex_digit n)"
  by (auto simp: hex_digit_def hex_char_def digit_char_def code_char_of)

lemma unat_byte_div: "unat (b :: byte) div 16 < 16" and unat_byte_mod: "unat (b :: byte) mod 16 < 16"
  using unsigned_less[of b, where 'a=nat] by auto

lemma match_hex2: "match_classes (hex_char # hex_char # ps) (hex2 b @ s) = match_classes ps s"
  by (simp add: match_classes_def hex2_def hex_digit_class unat_byte_div unat_byte_mod)

lemma match_dash: "match_classes (is_dash # ps) (CHR ''-'' # s) = match_classes ps s"
  by (simp add: match_classes_def is_dash_def)

lemma replicate_numeral_4: "replicate 4 x = [x, x, x, x]"
  and replicate_numeral_8: "replicate 8 x = [x, x, x, x, x, x, x, x]"
  and replicate_numeral_12: "replicate 12 x = [x, x, x, x, x, x, x, x, x, x, x, x]"
  by (simp_all add: eval_nat_numeral)

lemma match_nil: "match_classes [] []"
  by (simp add: match_classes_def)

lemma uuidv7_is_uuid: "length rnd = 10 \<Longrightarrow> is_uuid (uuidv7 ms rnd)"
proof -
  assume "length rnd = 10"
  from length16[OF length_uuid_bytes[OF this, of ms]] obtain a b c d e f g h i j k l m n p q where
    "uuid_bytes ms rnd = [a, b, c, d, e, f, g, h, i, j, k, l, m, n, p, q]"
    by (elim exE)
  then show ?thesis
    using \<open>length rnd = 10\<close>
    by (simp only: uuidv7_format uuid_seps_def is_uuid_def zip_Cons_Cons zip_Nil format_bytes.simps
        append_Cons append_Nil match_hex2 match_dash match_nil replicate_numeral_8 replicate_numeral_4 replicate_numeral_12)
qed

text \<open>The version nibble is 7 and the variant bits are 10.\<close>

lemma version_byte: "(0x70 OR (x AND 0x0f) :: byte) AND 0xf0 = 0x70"
  by (simp add: bit.conj_disj_distrib2 and.assoc)

lemma variant_byte: "(0x80 OR (x AND 0x3f) :: byte) AND 0xc0 = 0x80"
  by (simp add: bit.conj_disj_distrib2 and.assoc)

section \<open>UUIDs sort by time\<close>

fun big_endian :: "nat \<Rightarrow> nat \<Rightarrow> nat list" where
  "big_endian 0 n = []"
| "big_endian (Suc k) n = (n div 256 ^ k) mod 256 # big_endian k n"

lemma big_endian_mod: "k \<le> j \<Longrightarrow> big_endian k (n mod 256 ^ j) = big_endian k n"
proof (induction k)
  case (Suc k)
  have "256 ^ j = (256 :: nat) ^ k * 256 ^ (j - k)" using Suc.prems by (simp flip: power_add)
  moreover have "256 dvd (256 :: nat) ^ (j - k)" using Suc.prems by (simp add: dvd_power)
  ultimately have "(n mod 256 ^ j) div 256 ^ k mod 256 = n div 256 ^ k mod 256"
    by (simp add: mod_mult2_eq div_mult_self1 mod_mod_cancel)
  then show ?case using Suc by simp
qed simp

lemma big_endian_less:
  "n < m \<Longrightarrow> m < 256 ^ k \<Longrightarrow> big_endian k n < big_endian k m"
proof (induction k arbitrary: n m)
  case (Suc k)
  let ?B = "(256 :: nat) ^ k"
  have lt: "n div ?B < 256" "m div ?B < 256"
    using Suc.prems by (auto simp: less_mult_imp_div_less)
  show ?case
  proof (cases "n div ?B = m div ?B")
    case True
    have "n mod ?B < m mod ?B"
      using Suc.prems(1) True by (metis div_mult_mod_eq nat_add_left_cancel_less)
    then have "big_endian k (n mod ?B) < big_endian k (m mod ?B)"
      by (rule Suc.IH) simp
    then show ?thesis using True by (simp add: big_endian_mod)
  next
    case False
    then have "n div ?B < m div ?B" using Suc.prems(1) by (meson div_le_mono le_neq_implies_less less_imp_le)
    then show ?thesis using lt by simp
  qed
qed simp

lemma hex_digit_mono: "a < b \<Longrightarrow> b < 16 \<Longrightarrow> hex_digit a < hex_digit b"
  by (auto simp: hex_digit_def less_char_def)

lemma hex2_less:
  assumes "unat a < unat b"
  shows "hex2 a @ xs < hex2 b @ ys"
proof (cases "unat a div 16 = unat b div 16")
  case True
  then have "unat a mod 16 < unat b mod 16"
    using assms by (metis div_mult_mod_eq nat_add_left_cancel_less)
  then show ?thesis using True by (simp add: hex2_def hex_digit_mono)
next
  case False
  then have "unat a div 16 < unat b div 16"
    using assms by (meson div_le_mono le_neq_implies_less less_imp_le)
  then show ?thesis by (simp add: hex2_def hex_digit_mono unat_byte_div)
qed

lemma less_append_same: "(xs @ ys < xs @ zs) = (ys < (zs :: string))"
  by (induction xs) auto

lemma format_less:
  "map unat as < map unat bs \<Longrightarrow> length as = length bs \<Longrightarrow> length bs \<le> length seps \<Longrightarrow>
    format_bytes (zip (as @ xs) seps) < format_bytes (zip (bs @ ys) seps)"
proof (induction as bs arbitrary: seps rule: list_induct2')
  case (4 a as b bs)
  then obtain s ss where "seps = s # ss" by (cases seps) auto
  with 4 show ?case
  proof (cases "unat a = unat b")
    case True
    then have "a = b" by (simp add: word_unat_eq_iff)
    with 4 \<open>seps = s # ss\<close> show ?thesis by (simp add: less_append_same)
  next
    case False
    with 4 have "unat a < unat b" by auto
    with \<open>seps = s # ss\<close> show ?thesis by (simp add: hex2_less)
  qed
qed auto

lemma unat_ms_byte: "unat (ms_byte ms sh) = (ms div 2 ^ sh) mod 256"
proof -
  have "drop_bit sh ms AND 255 = (ms div 2 ^ sh) mod 256"
    using take_bit_eq_mask[of 8 "drop_bit sh ms"]
    by (simp add: mask_eq_exp_minus_1 take_bit_eq_mod drop_bit_eq_div)
  then show ?thesis by (simp add: ms_byte_def unat_of_nat)
qed

lemma uuid_bytes_split: "uuid_bytes ms rnd = map (ms_byte ms) [40, 32, 24, 16, 8, 0] @ drop 6 (uuid_bytes ms rnd)"
  by (simp add: uuid_bytes_def eval_nat_numeral)

lemma big_endian_6: "big_endian 6 n = [n div 2 ^ 40 mod 256, n div 2 ^ 32 mod 256, n div 2 ^ 24 mod 256,
    n div 2 ^ 16 mod 256, n div 2 ^ 8 mod 256, n mod 256]"
proof -
  have "6 = Suc (Suc (Suc (Suc (Suc (Suc 0)))))" by simp
  then show ?thesis by (simp only: big_endian.simps) simp
qed

lemma ms_bytes_big_endian: "map (\<lambda>sh. unat (ms_byte ms sh)) [40, 32, 24, 16, 8, 0] = big_endian 6 ms"
  by (simp add: unat_ms_byte big_endian_6)

lemma uuidv7_less:
  assumes "ms < ms'" "ms' < 2 ^ 48" "length rnd = 10" "length rnd' = 10"
  shows "uuidv7 ms rnd < uuidv7 ms' rnd'"
proof -
  let ?as = "map (ms_byte ms) [40, 32, 24, 16, 8, 0]" and ?bs = "map (ms_byte ms') [40, 32, 24, 16, 8, 0]"
  have "big_endian 6 ms < big_endian 6 ms'"
    using assms by (intro big_endian_less) auto
  then have "map unat ?as < map unat ?bs"
    by (simp only: ms_bytes_big_endian[symmetric] list.map_comp comp_def map_map)
  then have "format_bytes (zip (?as @ drop 6 (uuid_bytes ms rnd)) uuid_seps) <
      format_bytes (zip (?bs @ drop 6 (uuid_bytes ms' rnd')) uuid_seps)"
    by (rule format_less) (simp_all add: uuid_seps_def)
  then show ?thesis
    using assms by (simp only: uuidv7_format uuid_bytes_split[symmetric])
qed

section \<open>Envelopes (\<open>envelope.ts\<close>, \<open>publisher.ts\<close>)\<close>

record event_envelope =
  ev_id :: string
  ev_type :: string
  ev_schema_version :: int
  ev_tenant_id :: string
  ev_occurred_at :: string
  ev_source :: string
  ev_contact_id :: "string option"
  ev_trace_parent :: "string option"
  ev_data :: json

text \<open>A span context: trace id, span id and flags.\<close>

definition currentTraceParent :: "(string \<times> string \<times> byte) option \<Rightarrow> string option" where
  "currentTraceParent span = map_option (\<lambda>(traceId, spanId, flags).
     ''00-'' @ traceId @ ''-'' @ spanId @ ''-'' @ hex2 flags) span"

definition buildEnvelope ::
  "string \<Rightarrow> string \<Rightarrow> string \<Rightarrow> string \<Rightarrow> string option \<Rightarrow> json \<Rightarrow> int \<Rightarrow> nat \<Rightarrow>
   (string \<times> string \<times> byte) option \<Rightarrow> event_envelope" where
  "buildEnvelope uuid source typ tenantId contactId dat schemaVersion now span =
    \<lparr>ev_id = uuid, ev_type = typ, ev_schema_version = schemaVersion, ev_tenant_id = tenantId,
     ev_occurred_at = iso_string (int now), ev_source = source, ev_contact_id = contactId,
     ev_trace_parent = (case currentTraceParent span of Some t \<Rightarrow> if t = [] then None else Some t | None \<Rightarrow> None),
     ev_data = dat\<rparr>"

definition subjectFor :: "string \<Rightarrow> string \<Rightarrow> string" where
  "subjectFor typ tenantId = ''oe.'' @ typ @ ''.'' @ tenantId"

text \<open>What \<open>JSON.stringify\<close> sees: \<open>trace_parent\<close> last, when set.\<close>

definition envelopeJson :: "event_envelope \<Rightarrow> json" where
  "envelopeJson e = JObj ([(''id'', JStr (ev_id e)), (''type'', JStr (ev_type e)),
     (''schema_version'', JNum (int_num (ev_schema_version e))), (''tenant_id'', JStr (ev_tenant_id e)),
     (''occurred_at'', JStr (ev_occurred_at e)), (''source'', JStr (ev_source e)),
     (''contact_id'', case ev_contact_id e of None \<Rightarrow> JNull | Some c \<Rightarrow> JStr c), (''data'', ev_data e)] @
     (case ev_trace_parent e of None \<Rightarrow> [] | Some t \<Rightarrow> [(''trace_parent'', JStr t)]))"

text \<open>A message on a stream: subject, dedup id, trace header and payload.\<close>

record nats_msg =
  nm_subject :: string
  nm_msgID :: string
  nm_trace :: "string option"
  nm_payload :: "json option"

definition publishEnvelope :: "string \<Rightarrow> event_envelope \<Rightarrow> nats_msg" where
  "publishEnvelope tenantId e = \<lparr>nm_subject = subjectFor (ev_type e) tenantId, nm_msgID = ev_id e,
     nm_trace = ev_trace_parent e, nm_payload = Some (envelopeJson e)\<rparr>"

section \<open>The consumer loop (\<open>consumer.explorer.ts\<close>)\<close>

text \<open>
  A payload is the JSON value it parses to, or None when \<open>JSON.parse\<close> fails. A message may get
  one answer. The loop's world lists, newest last, the answers given and the dead letters published.
\<close>

definition payload_tenant :: "json option \<Rightarrow> string" where
  "payload_tenant payload = (case payload of
      Some v \<Rightarrow> (case obj_get v ''tenant_id'' of Some (JStr t) \<Rightarrow> t | _ \<Rightarrow> ''unknown'')
    | None \<Rightarrow> ''unknown'')"

datatype answer = Ack | Nak int | Term

record delivery =
  dl_seq :: nat
  dl_redeliveryCount :: int
  dl_payload :: "json option"
  dl_trace :: "string option"

record 'w consumer =
  co_answers :: "(nat \<times> answer) list"
  co_dead :: "nats_msg list"
  co_running :: bool
  co_world :: 'w

record consumer_opts =
  op_maxDeliver :: "int option"
  op_ackWaitMs :: "int option"
  op_backoffMs :: "int list option"

definition orElse :: "'a option \<Rightarrow> 'a option \<Rightarrow> 'a \<Rightarrow> 'a" where
  "orElse a b d = (case a of Some x \<Rightarrow> x | None \<Rightarrow> (case b of Some y \<Rightarrow> y | None \<Rightarrow> d))"

definition maxDeliverOf :: "consumer_opts \<Rightarrow> consumer_opts \<Rightarrow> int" where
  "maxDeliverOf meta options = orElse (op_maxDeliver meta) (op_maxDeliver options) 5"

definition backoffOf :: "consumer_opts \<Rightarrow> consumer_opts \<Rightarrow> int list" where
  "backoffOf meta options = orElse (op_backoffMs meta) (op_backoffMs options) [1000, 5000, 15000]"

text \<open>\<open>backoffMs[Math.min(attempt - 1, backoffMs.length - 1)] ?? 1000\<close>: out of range reads undefined.\<close>

definition nakDelay :: "int list \<Rightarrow> int \<Rightarrow> int" where
  "nakDelay backoff attempt = (let i = min (attempt - 1) (int (length backoff) - 1) in
     if 0 \<le> i \<and> nat i < length backoff then backoff ! nat i else 1000)"

definition answer_msg :: "nat \<Rightarrow> answer \<Rightarrow> ('w consumer, unit) comp" where
  "answer_msg n a = modifyM (\<lambda>c. c\<lparr>co_answers := co_answers c @ [(n, a)]\<rparr>)"

text \<open>\<open>deadLetter\<close>: \<open>published\<close> says whether JetStream accepted the message.\<close>

definition deadLetter :: "bool \<Rightarrow> string \<Rightarrow> delivery \<Rightarrow> ('w consumer, unit) comp" where
  "deadLetter published uuid d =
    (if published then modifyM (\<lambda>c. c\<lparr>co_dead := co_dead c @
        [\<lparr>nm_subject = ''oe.system.dead_letter.'' @ payload_tenant (dl_payload d), nm_msgID = uuid,
          nm_trace = (case dl_trace d of Some t \<Rightarrow> if t = [] then None else Some t | None \<Rightarrow> None),
          nm_payload = dl_payload d\<rparr>]\<rparr>)
     else throwM (PlainError ''publish failed''))"

definition onWorld :: "('w, 'a) comp \<Rightarrow> ('w consumer, 'a) comp" where
  "onWorld m c = (case m (co_world c) of (r, w) \<Rightarrow> (r, c\<lparr>co_world := w\<rparr>))"

definition handle_msg :: "(json \<Rightarrow> ('w, unit) comp) \<Rightarrow> delivery \<Rightarrow> ('w consumer, unit) comp" where
  "handle_msg handler d =
    (case dl_payload d of
       None \<Rightarrow> throwM (PlainError ''invalid JSON'')
     | Some v \<Rightarrow> bindM (onWorld (handler v)) (\<lambda>_. answer_msg (dl_seq d) Ack))"

definition catchM :: "('s, 'a) comp \<Rightarrow> (exn \<Rightarrow> ('s, 'a) comp) \<Rightarrow> ('s, 'a) comp" where
  "catchM m h s = (case m s of (Inl e, s') \<Rightarrow> h e s' | (Inr a, s') \<Rightarrow> (Inr a, s'))"

definition consume_one ::
  "(json \<Rightarrow> ('w, unit) comp) \<Rightarrow> int \<Rightarrow> int list \<Rightarrow> delivery \<times> bool \<times> string \<Rightarrow> ('w consumer, unit) comp" where
  "consume_one handler maxDeliver backoff = (\<lambda>(d, published, uuid).
    let attempt = dl_redeliveryCount d + 1 in
    catchM (handle_msg handler d) (\<lambda>_.
      if maxDeliver \<le> attempt then
        bindM (deadLetter published uuid d) (\<lambda>_. answer_msg (dl_seq d) Term)
      else answer_msg (dl_seq d) (Nak (nakDelay backoff attempt))))"

text \<open>
  \<open>loop\<close>: the \<open>for await\<close> over the messages; a rejected iteration ends it (the promise is
  discarded with \<open>void\<close>).
\<close>

fun consumer_loop ::
  "(json \<Rightarrow> ('w, unit) comp) \<Rightarrow> int \<Rightarrow> int list \<Rightarrow> (delivery \<times> bool \<times> string) list \<Rightarrow> 'w consumer \<Rightarrow> 'w consumer" where
  "consumer_loop handler maxDeliver backoff [] c = c"
| "consumer_loop handler maxDeliver backoff (m # ms) c =
    (case consume_one handler maxDeliver backoff m c of
       (Inr _, c') \<Rightarrow> consumer_loop handler maxDeliver backoff ms c'
     | (Inl e, c') \<Rightarrow> c'\<lparr>co_running := False\<rparr>)"

definition answer_of :: "(json \<Rightarrow> ('w, unit) comp) \<Rightarrow> int \<Rightarrow> int list \<Rightarrow> delivery \<Rightarrow> 'w \<Rightarrow> answer" where
  "answer_of handler maxDeliver backoff d w =
    (if (case dl_payload d of None \<Rightarrow> False | Some v \<Rightarrow> isl (fst (handler v w)) = False) then Ack
     else if maxDeliver \<le> dl_redeliveryCount d + 1 then Term
     else Nak (nakDelay backoff (dl_redeliveryCount d + 1)))"

lemma consume_one_Ack:
  assumes "answer_of handler m b d (co_world c) = Ack"
  shows "\<exists>w. consume_one handler m b (d, published, uuid) c =
    (Inr (), c\<lparr>co_world := w, co_answers := co_answers c @ [(dl_seq d, Ack)]\<rparr>)"
proof -
  obtain v where v: "dl_payload d = Some v" "\<not> isl (fst (handler v (co_world c)))"
    using assms by (auto simp: answer_of_def split: option.splits if_splits)
  then obtain w where "handler v (co_world c) = (Inr (), w)"
    by (cases "handler v (co_world c)") (auto simp: isl_def split: sum.splits, metis (full_types) old.sum.exhaust old.unit.exhaust)
  then show ?thesis
    using v by (auto simp: consume_one_def Let_def catchM_def handle_msg_def onWorld_def answer_msg_def bindM_def)
qed

lemma handle_msg_fails:
  assumes "answer_of handler m b d (co_world c) \<noteq> Ack"
  shows "\<exists>e w. handle_msg handler d c = (Inl e, c\<lparr>co_world := w\<rparr>)"
proof (cases "dl_payload d")
  case None
  then show ?thesis by (auto simp: handle_msg_def intro: exI[of _ "co_world c"])
next
  case (Some v)
  then have "isl (fst (handler v (co_world c)))" using assms by (auto simp: answer_of_def split: if_splits)
  then obtain e w where "handler v (co_world c) = (Inl e, w)"
    by (cases "handler v (co_world c)") (auto simp: isl_def)
  then show ?thesis using Some by (auto simp: handle_msg_def onWorld_def bindM_def)
qed

definition dead_message :: "string \<Rightarrow> delivery \<Rightarrow> nats_msg" where
  "dead_message uuid d = \<lparr>nm_subject = ''oe.system.dead_letter.'' @ payload_tenant (dl_payload d),
     nm_msgID = uuid,
     nm_trace = (case dl_trace d of Some t \<Rightarrow> if t = [] then None else Some t | None \<Rightarrow> None),
     nm_payload = dl_payload d\<rparr>"

lemma consume_one_Nak:
  assumes "answer_of handler m b d (co_world c) = Nak k"
  shows "\<exists>w. consume_one handler m b (d, published, uuid) c =
    (Inr (), c\<lparr>co_world := w, co_answers := co_answers c @ [(dl_seq d, Nak k)]\<rparr>)"
proof -
  from assms have lt: "\<not> m \<le> dl_redeliveryCount d + 1" "k = nakDelay b (dl_redeliveryCount d + 1)"
    by (auto simp: answer_of_def split: if_splits)
  obtain e w where "handle_msg handler d c = (Inl e, c\<lparr>co_world := w\<rparr>)"
    using handle_msg_fails[of handler m b d c] assms by auto
  then show ?thesis
    using lt by (auto simp: consume_one_def catchM_def Let_def answer_msg_def)
qed

lemma consume_one_Term:
  assumes "answer_of handler m b d (co_world c) = Term"
  shows "\<exists>w. consume_one handler m b (d, published, uuid) c =
    (if published then (Inr (), c\<lparr>co_world := w, co_dead := co_dead c @ [dead_message uuid d],
        co_answers := co_answers c @ [(dl_seq d, Term)]\<rparr>)
     else (Inl (PlainError ''publish failed''), c\<lparr>co_world := w\<rparr>))"
proof -
  from assms have le: "m \<le> dl_redeliveryCount d + 1"
    by (auto simp: answer_of_def split: if_splits)
  obtain e w where "handle_msg handler d c = (Inl e, c\<lparr>co_world := w\<rparr>)"
    using handle_msg_fails[of handler m b d c] assms by auto
  then show ?thesis
    using le by (auto simp: consume_one_def catchM_def Let_def answer_msg_def deadLetter_def dead_message_def)
qed

lemma consume_one_answers:
  assumes "published"
  shows "\<exists>c'. consume_one handler m b (d, published, uuid) c = (Inr (), c') \<and>
    co_answers c' = co_answers c @ [(dl_seq d, answer_of handler m b d (co_world c))]"
  using assms consume_one_Ack[of handler m b d c published uuid]
    consume_one_Nak[of handler m b d c _ published uuid] consume_one_Term[of handler m b d c published uuid]
  by (cases "answer_of handler m b d (co_world c)") auto

lemma consumer_loop_answers:
  "list_all (\<lambda>(d, published, uuid). published) ms \<Longrightarrow>
    map fst (co_answers (consumer_loop handler m b ms c)) =
      map fst (co_answers c) @ map (\<lambda>(d, _, _). dl_seq d) ms"
proof (induction ms arbitrary: c)
  case (Cons x ms)
  obtain d pub uuid where x: "x = (d, pub, uuid)" by (cases x) auto
  with Cons.prems have pub by simp
  from consume_one_answers[OF this, of handler m b d uuid c] obtain c' where
    c': "consume_one handler m b x c = (Inr (), c')"
    "co_answers c' = co_answers c @ [(dl_seq d, answer_of handler m b d (co_world c))]"
    by (auto simp: x)
  with Cons show ?case by (simp add: x)
qed simp

lemma deadLetter_failure_ends_loop:
  assumes "answer_of handler m b d (co_world c) = Term"
  shows "co_answers (consumer_loop handler m b ((d, False, uuid) # ms) c) = co_answers c"
    and "\<not> co_running (consumer_loop handler m b ((d, False, uuid) # ms) c)"
  using consume_one_Term[OF assms, of False uuid] by auto

lemma nakDelay_in: "b \<noteq> [] \<Longrightarrow> 1 \<le> attempt \<Longrightarrow> nakDelay b attempt \<in> set b"
  by (auto simp: nakDelay_def Let_def min_def length_greater_0_conv[symmetric] simp del: length_greater_0_conv intro!: nth_mem)

end
