(* ===== verification/Contacts_Db.thy ===== *)
theory Contacts_Db
  imports Nats_Lib
begin

text \<open>
  The \<open>contacts\<close> schema as core uses it (the tables of \<open>services/core/prisma\<close>), with the
  process state of the services over it. A table is the list of its rows, every tenant's rows in
  it. A statement that runs in a tenant's scope sees the rows that the row-level-security policy
  shows it, those with its \<open>tenant_id\<close>. Unique indexes, primary keys and cascades are written
  out in the operations that meet them. Statements of a transaction run without interleaving;
  what other requests do between the steps of a request is a parameter where it matters.
\<close>

section \<open>Rows\<close>

type_synonym object = "(string \<times> json) list"

datatype field_type = FText | FNumber | FDate | FBoolean | FSingle | FMulti

record choice =
  ch_id :: int
  ch_api_name :: string
  ch_labels :: json

record field_def =
  fd_tenant :: string
  fd_fieldId :: int
  fd_apiName :: string
  fd_labels :: json
  fd_type :: field_type
  fd_choices :: "choice list"
  fd_description :: "string option"
  fd_isSystem :: bool
  fd_unique :: bool
  fd_readOnly :: bool
  fd_deletedAt :: "int option"

record contact =
  ct_id :: string
  ct_tenant :: string
  ct_data :: object
  ct_version :: int
  ct_createdAt :: int
  ct_updatedAt :: int
  ct_deletedAt :: "int option"

record uniq_row =
  uv_tenant :: string
  uv_field :: int
  uv_value :: string
  uv_contact :: string

record clist =
  cl_id :: string
  cl_tenant :: string
  cl_name :: string
  cl_createdAt :: int
  cl_updatedAt :: int

record member =
  mb_list :: string
  mb_contact :: string
  mb_tenant :: string
  mb_addedAt :: int

datatype channel = CEmail | CSms | CPush

record consent =
  cs_id :: string
  cs_tenant :: string
  cs_contact :: string
  cs_channel :: channel
  cs_value :: "json"
  cs_source :: string
  cs_text :: "string option"
  cs_actor :: "string option"
  cs_changedAt :: int

datatype gdpr_kind = GExport | GForget
datatype gdpr_status = GPending | GRunning | GDone | GFailed

record gdpr_req =
  gr_id :: string
  gr_tenant :: string
  gr_contact :: "string option"
  gr_hash :: "string option"
  gr_kind :: gdpr_kind
  gr_status :: gdpr_status
  gr_requestedBy :: "string option"
  gr_resultKey :: "string option"
  gr_error :: "string option"
  gr_requestedAt :: int
  gr_completedAt :: "int option"

record link =
  il_tenant :: string
  il_anonymous :: string
  il_contact :: string

record column =
  cn_name :: string
  cn_type :: field_type
  cn_choices :: "int list option"

record rtable =
  tb_id :: string
  tb_tenant :: string
  tb_name :: string
  tb_keyField :: string
  tb_columns :: "column list"
  tb_createdAt :: int
  tb_updatedAt :: int

record rrow =
  rr_table :: string
  rr_contact :: string
  rr_key :: string
  rr_tenant :: string
  rr_data :: object
  rr_updatedAt :: int

record outbox_row =
  ob_id :: string
  ob_tenant :: string
  ob_subject :: string
  ob_envelope :: event_envelope

record db =
  db_fields :: "field_def list"
  db_counters :: "(string \<times> int) list"
  db_contacts :: "contact list"
  db_uniques :: "uniq_row list"
  db_lists :: "clist list"
  db_members :: "member list"
  db_consents :: "consent list"
  db_gdpr :: "gdpr_req list"
  db_links :: "link list"
  db_tables :: "rtable list"
  db_rows :: "rrow list"
  db_outbox :: "outbox_row list"

text \<open>
  The services' world: the database; the identifiers still to be drawn (\<open>uuidv7()\<close> in the
  process and \<open>identity.uuid_v7()\<close> in the database); the clock; the field registry's cache;
  how often the outbox relay was kicked; and the field purges started and not yet run.
\<close>

record world =
  w_db :: db
  w_ids :: "nat \<Rightarrow> string"
  w_next :: nat
  w_now :: int
  w_cache :: "(string \<times> field_def list) list"
  w_kicks :: nat
  w_purges :: "(string \<times> int) list"

type_synonym 'a act = "(world, 'a) comp"

section \<open>Statements\<close>

definition fresh_id :: "string act" where
  "fresh_id w = (Inr (w_ids w (w_next w)), w\<lparr>w_next := Suc (w_next w)\<rparr>)"

definition onDb :: "(db \<Rightarrow> db) \<Rightarrow> unit act" where
  "onDb f = modifyM (\<lambda>w. w\<lparr>w_db := f (w_db w)\<rparr>)"

definition readDb :: "(db \<Rightarrow> 'a) \<Rightarrow> 'a act" where
  "readDb f = getM (\<lambda>w. f (w_db w))"

text \<open>A transaction that throws leaves the database as it was; drawn identifiers stay drawn.\<close>

definition transaction :: "'a act \<Rightarrow> 'a act" where
  "transaction m w = (case m w of (Inl e, w') \<Rightarrow> (Inl e, w'\<lparr>w_db := w_db w\<rparr>) | (Inr a, w') \<Rightarrow> (Inr a, w'))"

definition catchA :: "'a act \<Rightarrow> (exn \<Rightarrow> 'a act) \<Rightarrow> 'a act" where
  "catchA m h w = (case m w of (Inl e, w') \<Rightarrow> h e w' | (Inr a, w') \<Rightarrow> (Inr a, w'))"

definition finallyA :: "'a act \<Rightarrow> (world \<Rightarrow> world) \<Rightarrow> 'a act" where
  "finallyA m f w = (case m w of (r, w') \<Rightarrow> (r, f w'))"

lemma transaction_Inr: "transaction m w = (Inr a, w') \<longleftrightarrow> m w = (Inr a, w')"
  by (auto simp: transaction_def split: prod.splits sum.splits)

lemma transaction_Inl: "transaction m w = (Inl e, w') \<longleftrightarrow> (\<exists>v. m w = (Inl e, v) \<and> w' = v\<lparr>w_db := w_db w\<rparr>)"
  by (auto simp: transaction_def split: prod.splits sum.splits)

lemma transaction_rollback: "fst (transaction m w) = Inl e \<Longrightarrow> w_db (snd (transaction m w)) = w_db w"
  by (auto simp: transaction_def split: prod.splits sum.splits)

lemma fresh_id_apply [simp]: "fresh_id w = (Inr (w_ids w (w_next w)), w\<lparr>w_next := Suc (w_next w)\<rparr>)"
  by (simp add: fresh_id_def)

lemma onDb_apply [simp]: "onDb f w = (Inr (), w\<lparr>w_db := f (w_db w)\<rparr>)"
  by (simp add: onDb_def)

lemma readDb_apply [simp]: "readDb f w = (Inr (f (w_db w)), w)"
  by (simp add: readDb_def)

section \<open>Columns of a contact\<close>

text \<open>
  \<open>data ->> k\<close>: a string as it is, null for a JSON null or a missing key, any other value its
  text. \<open>sql_trim\<close> strips spaces only; \<open>lower\<close> is the database's.
\<close>

definition json_text :: "json option \<Rightarrow> string option" where
  "json_text v = (case v of None \<Rightarrow> None | Some JNull \<Rightarrow> None | Some (JStr s) \<Rightarrow> Some s | Some x \<Rightarrow> Some (js_string x))"

definition sql_trim :: "string \<Rightarrow> string" where
  "sql_trim s = strip (\<lambda>c. c = CHR '' '') s"

definition nullif_empty :: "string option \<Rightarrow> string option" where
  "nullif_empty v = (case v of Some s \<Rightarrow> if s = [] then None else Some s | None \<Rightarrow> None)"

definition email_norm :: "object \<Rightarrow> string option" where
  "email_norm data = nullif_empty (map_option (\<lambda>s. lower (sql_trim s)) (json_text (map_of data ''3'')))"

definition external_id :: "object \<Rightarrow> string option" where
  "external_id data = nullif_empty (map_option sql_trim (json_text (map_of data ''4'')))"

definition live :: "contact \<Rightarrow> bool" where
  "live c \<longleftrightarrow> ct_deletedAt c = None"

text \<open>The partial unique indexes \<open>contacts_tenant_id_email_norm_key\<close> and \<open>..._external_id_key\<close>.\<close>

definition index_clash :: "contact \<Rightarrow> contact \<Rightarrow> bool" where
  "index_clash c d \<longleftrightarrow> live c \<and> live d \<and> ct_tenant c = ct_tenant d \<and>
     ((email_norm (ct_data c) \<noteq> None \<and> email_norm (ct_data c) = email_norm (ct_data d)) \<or>
      (external_id (ct_data c) \<noteq> None \<and> external_id (ct_data c) = external_id (ct_data d)))"

definition clash :: "contact \<Rightarrow> contact \<Rightarrow> bool" where
  "clash c d \<longleftrightarrow> ct_id c = ct_id d \<or> index_clash c d"

definition uv_key :: "uniq_row \<Rightarrow> string \<times> int \<times> string" where
  "uv_key u = (uv_tenant u, uv_field u, uv_value u)"

text \<open>The live contacts a tenant's statements find.\<close>

definition live_contacts :: "string \<Rightarrow> db \<Rightarrow> contact list" where
  "live_contacts t d = filter (\<lambda>c. ct_tenant c = t \<and> live c) (db_contacts d)"

section \<open>Constraints\<close>

definition pairwise_clash_free :: "contact list \<Rightarrow> bool" where
  "pairwise_clash_free cs \<longleftrightarrow> sorted_wrt (\<lambda>c d. \<not> clash c d) cs"

definition constraints :: "db \<Rightarrow> bool" where
  "constraints d \<longleftrightarrow> pairwise_clash_free (db_contacts d) \<and> distinct (map uv_key (db_uniques d))"

lemma index_clash_sym: "index_clash c d = index_clash d c"
  unfolding index_clash_def by metis

lemma clash_sym: "clash c d = clash d c"
  by (auto simp: clash_def index_clash_sym)

lemma pairwise_clash_free_Cons: "pairwise_clash_free (c # cs) \<longleftrightarrow>
    (\<forall>d \<in> set cs. \<not> clash c d) \<and> pairwise_clash_free cs"
  by (auto simp: pairwise_clash_free_def)

lemma pairwise_clash_free_Nil [simp]: "pairwise_clash_free []"
  by (simp add: pairwise_clash_free_def)

lemma pairwise_clash_free_append: "pairwise_clash_free (cs @ ds) \<longleftrightarrow>
    pairwise_clash_free cs \<and> pairwise_clash_free ds \<and> (\<forall>c \<in> set cs. \<forall>d \<in> set ds. \<not> clash c d)"
  by (auto simp: pairwise_clash_free_def sorted_wrt_append)

lemma pairwise_clash_free_id:
  "pairwise_clash_free cs \<Longrightarrow> c \<in> set cs \<Longrightarrow> d \<in> set cs \<Longrightarrow> ct_id c = ct_id d \<Longrightarrow> c = d"
  by (induction cs) (auto simp: pairwise_clash_free_Cons clash_def)

lemma pairwise_clash_free_index:
  "pairwise_clash_free cs \<Longrightarrow> c \<in> set cs \<Longrightarrow> d \<in> set cs \<Longrightarrow> index_clash c d \<Longrightarrow> c = d"
  by (induction cs) (auto simp: pairwise_clash_free_Cons clash_def index_clash_sym)

lemma pairwise_clash_free_filter: "pairwise_clash_free cs \<Longrightarrow> pairwise_clash_free (filter P cs)"
  by (simp add: pairwise_clash_free_def sorted_wrt_filter)

section \<open>Tenant isolation\<close>

text \<open>The rows of every table that belong to other tenants.\<close>

definition foreign :: "string \<Rightarrow> db \<Rightarrow> db" where
  "foreign t d = \<lparr>
     db_fields = filter (\<lambda>r. fd_tenant r \<noteq> t) (db_fields d),
     db_counters = filter (\<lambda>r. fst r \<noteq> t) (db_counters d),
     db_contacts = filter (\<lambda>r. ct_tenant r \<noteq> t) (db_contacts d),
     db_uniques = filter (\<lambda>r. uv_tenant r \<noteq> t) (db_uniques d),
     db_lists = filter (\<lambda>r. cl_tenant r \<noteq> t) (db_lists d),
     db_members = filter (\<lambda>r. mb_tenant r \<noteq> t) (db_members d),
     db_consents = filter (\<lambda>r. cs_tenant r \<noteq> t) (db_consents d),
     db_gdpr = filter (\<lambda>r. gr_tenant r \<noteq> t) (db_gdpr d),
     db_links = filter (\<lambda>r. il_tenant r \<noteq> t) (db_links d),
     db_tables = filter (\<lambda>r. tb_tenant r \<noteq> t) (db_tables d),
     db_rows = filter (\<lambda>r. rr_tenant r \<noteq> t) (db_rows d),
     db_outbox = filter (\<lambda>r. ob_tenant r \<noteq> t) (db_outbox d)\<rparr>"

definition iso :: "string \<Rightarrow> world \<Rightarrow> world \<Rightarrow> bool" where
  "iso t w w' \<longleftrightarrow> foreign t (w_db w) = foreign t (w_db w')"

interpretation isolation: frame "iso t" for t
  by unfold_locales (auto simp: iso_def)

named_theorems isoI \<open>table updates that leave the rows of other tenants alone\<close>

definition foreign_ok :: "string \<Rightarrow> (db \<Rightarrow> db) \<Rightarrow> bool" where
  "foreign_ok t f \<longleftrightarrow> (\<forall>d. foreign t (f d) = foreign t d)"

lemma keeps_iso_onDb: "foreign_ok t f \<Longrightarrow> keeps (iso t) (onDb f)"
  by (simp add: keeps_def iso_def foreign_ok_def)

lemma keeps_iso_readDb [keepsI]: "keeps (iso t) (readDb f)"
  by (simp add: keeps_def iso_def)

lemma keeps_iso_fresh_id [keepsI]: "keeps (iso t) fresh_id"
  by (simp add: keeps_def iso_def)

lemma keeps_iso_transaction [keepsI]: "keeps (iso t) m \<Longrightarrow> keeps (iso t) (transaction m)"
  by (auto simp: keeps_def iso_def transaction_def split: prod.splits sum.splits) (metis snd_conv)

lemma keeps_iso_catchA [keepsI]: "keeps (iso t) m \<Longrightarrow> (\<And>e. keeps (iso t) (h e)) \<Longrightarrow> keeps (iso t) (catchA m h)"
proof -
  assume m: "keeps (iso t) m" and h: "\<And>e. keeps (iso t) (h e)"
  have "iso t w (snd (catchA m h w))" for w
    using keeps_outcome[OF m, of w] keeps_outcome[OF h]
    by (cases "m w"; cases "fst (m w)")
       (auto simp: catchA_def iso_def split: prod.splits, metis prod.collapse)
  then show "keeps (iso t) (catchA m h)" by (simp add: keeps_def)
qed

lemma keeps_iso_finallyA [keepsI]:
  "keeps (iso t) m \<Longrightarrow> (\<And>w. w_db (f w) = w_db w) \<Longrightarrow> keeps (iso t) (finallyA m f)"
  by (auto simp: keeps_def iso_def finallyA_def split: prod.splits) (metis snd_conv)

lemma filter_map_other:
  "(\<And>r. r \<in> set xs \<Longrightarrow> ten r \<noteq> t \<Longrightarrow> f r = r) \<Longrightarrow> (\<And>r. r \<in> set xs \<Longrightarrow> ten (f r) = ten r) \<Longrightarrow>
    filter (\<lambda>r. ten r \<noteq> t) (map f xs) = filter (\<lambda>r. ten r \<noteq> t) xs"
  by (induction xs) auto

lemma filter_filter_other:
  "(\<And>r. r \<in> set xs \<Longrightarrow> ten r \<noteq> t \<Longrightarrow> P r) \<Longrightarrow>
    filter (\<lambda>r. ten r \<noteq> t) (filter P xs) = filter (\<lambda>r. ten r \<noteq> t) xs"
  by (induction xs) auto

end
