(* ===== verification/Field_Registry.thy ===== *)
theory Field_Registry
  imports Contacts_Db
begin

text \<open>
  \<open>services/core/src/modules/fields\<close> and \<open>contacts-shared\<close>: the request schemas (\<open>dto.ts\<close>),
  the normalisation of values and the cached registry (\<open>field-registry.ts\<close>), the service
  (\<open>fields.service.ts\<close>), the resolution of contact keys (\<open>key-resolver.ts\<close>) and the
  system-field seeder.
\<close>

section \<open>Schemas (\<open>dto.ts\<close>)\<close>

record choice_input =
  ci_id :: "int option"
  ci_api_name :: string
  ci_labels :: json

record field_create =
  fc_api_name :: string
  fc_type :: field_type
  fc_labels :: json
  fc_choices :: "choice_input list"
  fc_unique :: bool

record field_update =
  fu_api_name :: "string option"
  fu_labels :: "json option"
  fu_choices :: "choice_input list option"

record public_field_create =
  pf_name :: string
  pf_type :: field_type
  pf_string_id :: "string option"
  pf_unique :: bool
  pf_choices :: "string list"

definition parseType :: "json option \<Rightarrow> field_type option" where
  "parseType v = (case v of Some (JStr s) \<Rightarrow> map_of [(''text'', FText), (''number'', FNumber), (''date'', FDate),
       (''boolean'', FBoolean), (''single_choice'', FSingle), (''multi_choice'', FMulti)] s | _ \<Rightarrow> None)"

definition parseApiName :: "json option \<Rightarrow> string option" where
  "parseApiName v = (case v of Some (JStr s) \<Rightarrow> if is_api_name s then Some s else None | _ \<Rightarrow> None)"

definition parseLabels :: "json option \<Rightarrow> json option" where
  "parseLabels v = (case v of
      Some (JObj kvs) \<Rightarrow> (case (map_of kvs ''es'', map_of kvs ''pt'', map_of kvs ''en'') of
          (Some (JStr a), Some (JStr b), Some (JStr c)) \<Rightarrow> if a \<noteq> [] \<and> b \<noteq> [] \<and> c \<noteq> []
            then Some (JObj [(''es'', JStr a), (''pt'', JStr b), (''en'', JStr c)]) else None
        | _ \<Rightarrow> None)
    | _ \<Rightarrow> None)"

text \<open>\<open>z.number().int().min(1).optional()\<close>: outer None for a failure.\<close>

definition parseChoiceId :: "json option \<Rightarrow> int option option" where
  "parseChoiceId v = (case v of None \<Rightarrow> Some None
     | Some (JNum n) \<Rightarrow> if is_int_num n \<and> 1 \<le> mant n then Some (Some (mant n)) else None
     | _ \<Rightarrow> None)"

definition parseChoice :: "json \<Rightarrow> choice_input option" where
  "parseChoice v = (case v of
      JObj kvs \<Rightarrow> (case (parseChoiceId (map_of kvs ''id''), parseApiName (map_of kvs ''api_name''), parseLabels (map_of kvs ''labels'')) of
          (Some i, Some a, Some l) \<Rightarrow> Some \<lparr>ci_id = i, ci_api_name = a, ci_labels = l\<rparr>
        | _ \<Rightarrow> None)
    | _ \<Rightarrow> None)"

fun parseAll :: "(json \<Rightarrow> 'a option) \<Rightarrow> json list \<Rightarrow> 'a list option" where
  "parseAll f [] = Some []"
| "parseAll f (v # vs) = (case f v of None \<Rightarrow> None | Some a \<Rightarrow> map_option ((#) a) (parseAll f vs))"

definition parseArray :: "(json \<Rightarrow> 'a option) \<Rightarrow> json option \<Rightarrow> 'a list option" where
  "parseArray f v = (case v of Some (JArr vs) \<Rightarrow> parseAll f vs | _ \<Rightarrow> None)"

definition parseBool :: "json option \<Rightarrow> bool option" where
  "parseBool v = (case v of Some (JBool b) \<Rightarrow> Some b | _ \<Rightarrow> None)"

text \<open>\<open>.default(d)\<close> and \<open>.optional()\<close> on a missing key.\<close>

definition defaulting :: "'a \<Rightarrow> (json option \<Rightarrow> 'a option) \<Rightarrow> json option \<Rightarrow> 'a option" where
  "defaulting d f v = (case v of None \<Rightarrow> Some d | _ \<Rightarrow> f v)"

definition optional :: "(json option \<Rightarrow> 'a option) \<Rightarrow> json option \<Rightarrow> 'a option option" where
  "optional f v = (case v of None \<Rightarrow> Some None | _ \<Rightarrow> map_option Some (f v))"

definition is_choice_type :: "field_type \<Rightarrow> bool" where
  "is_choice_type t \<longleftrightarrow> t = FSingle \<or> t = FMulti"

definition fieldCreateSchema :: "json \<Rightarrow> field_create option" where
  "fieldCreateSchema v = (case v of
      JObj kvs \<Rightarrow> (case (parseApiName (map_of kvs ''api_name''), parseType (map_of kvs ''type''), parseLabels (map_of kvs ''labels''),
            defaulting [] (parseArray parseChoice) (map_of kvs ''choices''), defaulting False parseBool (map_of kvs ''unique'')) of
          (Some a, Some t, Some l, Some cs, Some u) \<Rightarrow>
            if is_choice_type t \<longrightarrow> cs \<noteq> []
            then Some \<lparr>fc_api_name = a, fc_type = t, fc_labels = l, fc_choices = cs, fc_unique = u\<rparr> else None
        | _ \<Rightarrow> None)
    | _ \<Rightarrow> None)"

definition fieldUpdateSchema :: "json \<Rightarrow> field_update option" where
  "fieldUpdateSchema v = (case v of
      JObj kvs \<Rightarrow> (case (optional parseApiName (map_of kvs ''api_name''), optional parseLabels (map_of kvs ''labels''),
            optional (parseArray parseChoice) (map_of kvs ''choices'')) of
          (Some a, Some l, Some cs) \<Rightarrow> if a = None \<and> l = None \<and> cs = None then None
            else Some \<lparr>fu_api_name = a, fu_labels = l, fu_choices = cs\<rparr>
        | _ \<Rightarrow> None)
    | _ \<Rightarrow> None)"

definition parseNonEmpty :: "json \<Rightarrow> string option" where
  "parseNonEmpty v = (case v of JStr s \<Rightarrow> if s \<noteq> [] then Some s else None | _ \<Rightarrow> None)"

definition publicFieldCreateSchema :: "json \<Rightarrow> public_field_create option" where
  "publicFieldCreateSchema v = (case v of
      JObj kvs \<Rightarrow> (case (map_of kvs ''name'', parseType (map_of kvs ''application_type''), optional parseApiName (map_of kvs ''string_id''),
            defaulting False parseBool (map_of kvs ''unique''), defaulting [] (parseArray parseNonEmpty) (map_of kvs ''choices'')) of
          (Some (JStr n), Some t, Some s, Some u, Some cs) \<Rightarrow> if n \<noteq> [] \<and> length n \<le> 100
            then Some \<lparr>pf_name = n, pf_type = t, pf_string_id = s, pf_unique = u, pf_choices = cs\<rparr> else None
        | _ \<Rightarrow> None)
    | _ \<Rightarrow> None)"

text \<open>\<open>parseBody\<close>: a failed parse is a 400 (zod's issue texts are not modelled).\<close>

definition parseBody :: "(json \<Rightarrow> 'a option) \<Rightarrow> json \<Rightarrow> exn + 'a" where
  "parseBody schema body = (case schema body of Some a \<Rightarrow> Inr a | None \<Rightarrow> Inl (HttpProblems 400 []))"

section \<open>Names from free text\<close>

text \<open>NFD and the removal of combining marks, on the units below 256.\<close>

definition base_letters :: "(nat \<times> nat \<times> char) list" where
  "base_letters = [(192, 197, CHR ''A''), (199, 199, CHR ''C''), (200, 203, CHR ''E''), (204, 207, CHR ''I''),
     (209, 209, CHR ''N''), (210, 214, CHR ''O''), (217, 220, CHR ''U''), (221, 221, CHR ''Y''),
     (224, 229, CHR ''a''), (231, 231, CHR ''c''), (232, 235, CHR ''e''), (236, 239, CHR ''i''),
     (241, 241, CHR ''n''), (242, 246, CHR ''o''), (249, 252, CHR ''u''), (253, 253, CHR ''y''), (255, 255, CHR ''y'')]"

definition base_char :: "char \<Rightarrow> char" where
  "base_char c = (case find (\<lambda>(a, b, _). a \<le> code c \<and> code c \<le> b) base_letters of
     Some (_, _, l) \<Rightarrow> l | None \<Rightarrow> c)"

definition slug_char :: "char \<Rightarrow> bool" where
  "slug_char c \<longleftrightarrow> lower_alpha c \<or> digit_char c"

text \<open>\<open>.replace(/[^a-z0-9]+/g, '_')\<close>: \<open>inRun\<close> says the previous unit was replaced.\<close>

fun squash :: "bool \<Rightarrow> string \<Rightarrow> string" where
  "squash inRun [] = []"
| "squash inRun (c # s) = (if slug_char c then c # squash False s
     else if inRun then squash True s else CHR ''_'' # squash True s)"

definition snakeCase :: "string \<Rightarrow> string" where
  "snakeCase text = (let s = strip (\<lambda>c. c = CHR ''_'') (squash False (lower (map base_char text))) in
     take 63 (if s \<noteq> [] \<and> lower_alpha (hd s) then s else ''f_'' @ s))"

lemma squash_chars: "list_all (\<lambda>c. slug_char c \<or> c = CHR ''_'') (squash b s)"
  by (induction b s rule: squash.induct) auto

lemma list_all_strip: "list_all P s \<Longrightarrow> list_all P (strip q s)"
  unfolding strip_def list_all_iff by (auto dest!: set_dropWhileD)

lemma snakeCase_api_name: "is_api_name (snakeCase text)"
proof -
  define s where "s = strip (\<lambda>c. c = CHR ''_'') (squash False (lower (map base_char text)))"
  have s: "list_all (\<lambda>c. lower_alpha c \<or> digit_char c \<or> c = CHR ''_'') s"
    using list_all_strip[OF squash_chars] unfolding s_def slug_char_def by (simp add: disj_assoc)
  define r where "r = (if s \<noteq> [] \<and> lower_alpha (hd s) then s else ''f_'' @ s)"
  have r: "r \<noteq> []" "lower_alpha (hd r)" "list_all (\<lambda>c. lower_alpha c \<or> digit_char c \<or> c = CHR ''_'') r"
    using s by (auto simp: r_def lower_alpha_def code_def)
  have "snakeCase text = take 63 r" by (simp add: snakeCase_def Let_def s_def r_def)
  moreover obtain c r' where "r = c # r'" using r(1) by (cases r) auto
  ultimately show ?thesis
    using r by (auto simp: is_api_name_def list_all_iff take_Cons' dest: in_set_takeD)
qed

section \<open>Values (\<open>normalizeValue\<close>)\<close>

type_synonym validation = "(int \<times> string) + json"

definition asId :: "int list \<Rightarrow> json \<Rightarrow> int option" where
  "asId ids v = (case v of
      JStr s \<Rightarrow> if is_digits s \<and> digits_int s \<in> set ids then Some (digits_int s) else None
    | JNum n \<Rightarrow> if is_int_num n \<and> mant n \<in> set ids then Some (mant n) else None
    | _ \<Rightarrow> None)"

definition normalizeNumber :: "json \<Rightarrow> validation" where
  "normalizeNumber raw = (case raw of
      JStr s \<Rightarrow> if is_decimal (trim s) then Inr (JNum (decimal_num (trim s))) else Inl (2010, ''expected a decimal number'')
    | JNum n \<Rightarrow> Inr (JNum n)
    | _ \<Rightarrow> Inl (2010, ''expected a decimal number''))"

definition valid_date :: "string \<Rightarrow> bool" where
  "valid_date s = (is_ymd s \<and> (case parse_ymd s of None \<Rightarrow> False | Some ms \<Rightarrow> starts_with (iso_string ms) s))"

definition normalizeDate :: "json \<Rightarrow> validation" where
  "normalizeDate raw = (case raw of
      JStr s \<Rightarrow> if valid_date s then Inr raw else Inl (2010, ''expected a date as YYYY-MM-DD'')
    | _ \<Rightarrow> Inl (2010, ''expected a date as YYYY-MM-DD''))"

definition normalizeBoolean :: "json \<Rightarrow> validation" where
  "normalizeBoolean raw =
    (if raw \<in> {JBool True, JStr ''true'', JNum (int_num 1), JStr ''1''} then Inr (JBool True)
     else if raw \<in> {JBool False, JStr ''false'', JNum (int_num 0), JStr ''0''} then Inr (JBool False)
     else Inl (2010, ''expected a boolean''))"

definition int_json :: "int \<Rightarrow> json" where
  "int_json i = JNum (int_num i)"

definition normalizeValue :: "field_type \<Rightarrow> int list \<Rightarrow> json \<Rightarrow> validation" where
  "normalizeValue type ids raw =
    (if raw = JNull then Inr JNull
     else case type of
       FText \<Rightarrow> (case raw of JStr s \<Rightarrow> Inr raw | _ \<Rightarrow> Inl (2010, ''expected a string''))
     | FNumber \<Rightarrow> normalizeNumber raw
     | FDate \<Rightarrow> normalizeDate raw
     | FBoolean \<Rightarrow> normalizeBoolean raw
     | FSingle \<Rightarrow> (case asId ids raw of None \<Rightarrow> Inl (2010, ''expected the ID of one of the field options'')
         | Some i \<Rightarrow> Inr (int_json i))
     | FMulti \<Rightarrow> (case raw of
           JArr vs \<Rightarrow> (let is = map (asId ids) vs in
             if list_all (\<lambda>i. i \<noteq> None) is then Inr (JArr (map int_json (uniq (map the is))))
             else Inl (2010, ''expected an array of option IDs of the field''))
         | _ \<Rightarrow> Inl (2010, ''expected an array of option IDs of the field'')))"

definition choice_ids :: "field_def \<Rightarrow> int list" where
  "choice_ids d = map ch_id (fd_choices d)"

text \<open>What a stored value of a field looks like.\<close>

definition stored_ok :: "field_type \<Rightarrow> int list \<Rightarrow> json \<Rightarrow> bool" where
  "stored_ok type ids v = (case type of
      FText \<Rightarrow> (case v of JStr _ \<Rightarrow> True | _ \<Rightarrow> False)
    | FNumber \<Rightarrow> (case v of JNum _ \<Rightarrow> True | _ \<Rightarrow> False)
    | FDate \<Rightarrow> (case v of JStr s \<Rightarrow> valid_date s | _ \<Rightarrow> False)
    | FBoolean \<Rightarrow> (case v of JBool _ \<Rightarrow> True | _ \<Rightarrow> False)
    | FSingle \<Rightarrow> (\<exists>i \<in> set ids. v = int_json i)
    | FMulti \<Rightarrow> (case v of JArr vs \<Rightarrow> distinct vs \<and> set vs \<subseteq> int_json ` set ids | _ \<Rightarrow> False))"

lemma asId_int [simp]: "i \<in> set ids \<Longrightarrow> asId ids (int_json i) = Some i"
  by (simp add: asId_def int_json_def is_int_num_def)

lemma asId_in: "asId ids v = Some i \<Longrightarrow> i \<in> set ids"
  by (auto simp: asId_def split: json.splits if_splits)

lemma int_json_inj [simp]: "int_json i = int_json j \<longleftrightarrow> i = j"
  by (simp add: int_json_def)

lemma int_json_not_null [simp]: "int_json i \<noteq> JNull"
  by (simp add: int_json_def)

lemma normalizeMulti_ok:
  assumes "list_all (\<lambda>i. i \<noteq> None) (map (asId ids) vs)"
  shows "set (map the (map (asId ids) vs)) \<subseteq> set ids"
proof
  fix i assume "i \<in> set (map the (map (asId ids) vs))"
  then obtain v where v: "v \<in> set vs" "i = the (asId ids v)" by auto
  with assms obtain j where "asId ids v = Some j" by (auto simp: list_all_iff)
  with v show "i \<in> set ids" by (simp add: asId_in)
qed

lemma normalizeValue_stored:
  assumes "normalizeValue type ids raw = Inr v"
  shows "v = JNull \<or> stored_ok type ids v"
proof (cases type)
  case FMulti
  then show ?thesis
    using assms normalizeMulti_ok
    by (fastforce simp: normalizeValue_def stored_ok_def Let_def distinct_map inj_on_def
        split: if_splits json.splits)
qed (use assms asId_in in \<open>auto simp: normalizeValue_def stored_ok_def normalizeNumber_def normalizeDate_def
      normalizeBoolean_def split: if_splits json.splits option.splits\<close>)

lemma normalizeValue_error: "normalizeValue type ids raw = Inl (c, text) \<Longrightarrow> c = 2010"
  by (auto simp: normalizeValue_def normalizeNumber_def normalizeDate_def normalizeBoolean_def Let_def
      split: if_splits json.splits option.splits field_type.splits)

lemma map_asId_ids: "set is \<subseteq> set ids \<Longrightarrow> map (asId ids) (map int_json is) = map Some is"
  by (induction "is") auto

lemma subset_int_json: "set vs \<subseteq> int_json ` set ids \<Longrightarrow> \<exists>is. vs = map int_json is \<and> set is \<subseteq> set ids"
proof (induction vs)
  case (Cons v vs)
  then obtain "is" i where "vs = map int_json is" "set is \<subseteq> set ids" "v = int_json i" "i \<in> set ids" by auto
  then show ?case by (intro exI[of _ "i # is"]) auto
qed simp

lemma normalizeValue_stored_id:
  assumes "stored_ok type ids v"
  shows "normalizeValue type ids v = Inr v"
proof (cases type)
  case FMulti
  then obtain vs where v: "v = JArr vs" "distinct vs" "set vs \<subseteq> int_json ` set ids"
    using assms by (auto simp: stored_ok_def split: json.splits)
  then obtain "is" where vs: "vs = map int_json is" "set is \<subseteq> set ids"
    using subset_int_json[of vs ids] by blast
  then have "distinct is" using v(2) by (simp add: distinct_map)
  moreover have "map (\<lambda>x. the (asId ids (int_json x))) is = is"
    using vs(2) by (intro map_idI) auto
  ultimately show ?thesis
    using FMulti v(1) vs map_asId_ids[OF vs(2)]
    by (simp add: normalizeValue_def Let_def list_all_iff uniq_id comp_def)
qed (use assms in \<open>auto simp: normalizeValue_def stored_ok_def normalizeNumber_def normalizeDate_def
      normalizeBoolean_def split: json.splits\<close>)

lemma normalizeValue_idem: "normalizeValue type ids raw = Inr v \<Longrightarrow> normalizeValue type ids v = Inr v"
  using normalizeValue_stored[of type ids raw v] normalizeValue_stored_id[of type ids v]
  by (auto simp: normalizeValue_def)

section \<open>The registry\<close>

definition live_fields :: "string \<Rightarrow> db \<Rightarrow> field_def list" where
  "live_fields t d = sort_key fd_fieldId (filter (\<lambda>f. fd_tenant f = t \<and> fd_deletedAt f = None) (db_fields d))"

definition field_of :: "field_def list \<Rightarrow> int \<Rightarrow> field_def option" where
  "field_of defs n = find (\<lambda>f. fd_fieldId f = n) defs"

text \<open>\<open>FieldRegistry.fields\<close> for the tenant in context.\<close>

definition registryFields :: "string \<Rightarrow> field_def list act" where
  "registryFields t w = (case map_of (w_cache w) t of
      Some defs \<Rightarrow> (Inr defs, w)
    | None \<Rightarrow> (let defs = live_fields t (w_db w) in (Inr defs, w\<lparr>w_cache := alist_put t defs (w_cache w)\<rparr>)))"

definition invalidate :: "string \<Rightarrow> world \<Rightarrow> world" where
  "invalidate t w = w\<lparr>w_cache := alist_del t (w_cache w)\<rparr>"

definition validateValue :: "string \<Rightarrow> int \<Rightarrow> json \<Rightarrow> validation act" where
  "validateValue t fieldId raw = bindM (registryFields t) (\<lambda>defs. retM (case field_of defs fieldId of
      Some d \<Rightarrow> normalizeValue (fd_type d) (choice_ids d) raw
    | None \<Rightarrow> Inl (2011, ''field '' @ show_int fieldId @ '' does not exist'')))"

text \<open>The cache is coherent when what it holds for a tenant is what the database does.\<close>

definition coherent :: "string \<Rightarrow> world \<Rightarrow> bool" where
  "coherent t w \<longleftrightarrow> (\<forall>defs. map_of (w_cache w) t = Some defs \<longrightarrow> defs = live_fields t (w_db w))"

lemma invalidate_simps [simp]: "w_db (invalidate t w) = w_db w" "w_next (invalidate t w) = w_next w"
  "w_ids (invalidate t w) = w_ids w" "w_now (invalidate t w) = w_now w" "w_kicks (invalidate t w) = w_kicks w"
  "w_purges (invalidate t w) = w_purges w"
  by (simp_all add: invalidate_def)

lemma coherent_invalidate [simp]: "coherent t (invalidate t w)"
  by (simp add: coherent_def invalidate_def)

lemma registryFields_db: "registryFields t w = (r, w') \<Longrightarrow> w_db w' = w_db w \<and> w_next w' = w_next w"
  by (auto simp: registryFields_def Let_def split: option.splits)

lemma registryFields_coherent:
  assumes "coherent t w"
  shows "\<exists>w'. registryFields t w = (Inr (live_fields t (w_db w)), w') \<and> w_db w' = w_db w \<and> coherent t w'"
  using assms by (auto simp: registryFields_def coherent_def Let_def split: option.splits)

lemma registryFields_total: "\<exists>defs w'. registryFields t w = (Inr defs, w')"
  by (auto simp: registryFields_def Let_def split: option.splits)

lemma keeps_iso_registryFields [keepsI]: "keeps (iso t) (registryFields u)"
  using registryFields_db by (auto simp: keeps_def iso_def) (metis prod.collapse)

lemma field_of_Some: "field_of defs n = Some f \<Longrightarrow> f \<in> set defs \<and> fd_fieldId f = n"
  unfolding field_of_def by (rule find_Some_set)

lemma live_fields_set: "f \<in> set (live_fields t d) \<longleftrightarrow> f \<in> set (db_fields d) \<and> fd_tenant f = t \<and> fd_deletedAt f = None"
  by (auto simp: live_fields_def)

section \<open>Key resolution (\<open>key-resolver.ts\<close>)\<close>

definition assertKey :: "string \<Rightarrow> string \<Rightarrow> unit act" where
  "assertKey t keyId =
    (if keyId = ''id'' then retM ()
     else bindM (if is_digits keyId then bindM (registryFields t) (\<lambda>defs. retM (field_of defs (digits_int keyId))) else retM None)
       (\<lambda>def. if map_option fd_unique def = Some True then retM ()
         else throwM (PublicApi 2009 (''key_id '' @ keyId @ '' does not exist or is not unique'') 400)))"

definition keyNorm :: "string \<Rightarrow> string \<Rightarrow> string" where
  "keyNorm keyId v = (if keyId = ''3'' then lower (trim v) else if keyId = ''4'' then trim v else v)"

definition uuid_eq :: "string \<Rightarrow> string \<Rightarrow> bool" where
  "uuid_eq a b \<longleftrightarrow> lower a = lower b"

lemma hex_char_lower: "hex_char (lower_char c) = hex_char c"
proof -
  have c: "code c < 256" by (simp add: code_def)
  have "code (lower_char c) = (if upper_alpha c \<or> (192 \<le> code c \<and> code c \<le> 222 \<and> code c \<noteq> 215) then code c + 32 else code c)"
    using c by (auto simp: lower_char_def code_def upper_alpha_def)
  then show ?thesis by (auto simp: hex_char_def digit_char_def upper_alpha_def split: if_splits)
qed

lemma is_dash_code: "is_dash c \<longleftrightarrow> code c = 45"
proof -
  have "c = CHR ''-'' \<longleftrightarrow> code c = code CHR ''-''" by (simp add: code_def of_char_eq_iff del: of_char_Char)
  then show ?thesis by (simp add: is_dash_def code_def)
qed

lemma dash_lower: "is_dash (lower_char c) = is_dash c"
proof -
  have c: "code c < 256" by (simp add: code_def)
  have "code (lower_char c) = (if upper_alpha c \<or> (192 \<le> code c \<and> code c \<le> 222 \<and> code c \<noteq> 215) then code c + 32 else code c)"
    using c by (auto simp: lower_char_def code_def upper_alpha_def)
  then show ?thesis by (auto simp: is_dash_code upper_alpha_def split: if_splits)
qed

lemma match_classes_lower:
  "list_all (\<lambda>p. p = hex_char \<or> p = is_dash) ps \<Longrightarrow> match_classes ps (lower s) = match_classes ps s"
  unfolding match_classes_def lower_def
  by (induction ps s rule: list_induct2') (auto simp: hex_char_lower dash_lower)

lemma is_uuid_lower [simp]: "is_uuid (lower s) = is_uuid s"
  unfolding is_uuid_def by (rule match_classes_lower) (simp add: list_all_iff)

lemma uuid_eq_is_uuid: "uuid_eq a b \<Longrightarrow> is_uuid a = is_uuid b"
  by (metis is_uuid_lower uuid_eq_def)

text \<open>The rows \<open>(k, id)\<close> of \<open>query\<close>.\<close>

definition keyRows :: "string \<Rightarrow> string \<Rightarrow> string list \<Rightarrow> db \<Rightarrow> (string \<times> string) list" where
  "keyRows t keyId keys d =
    (if keyId = ''id'' then
       map (\<lambda>c. (ct_id c, ct_id c)) (filter (\<lambda>c. list_ex (uuid_eq (ct_id c)) keys) (live_contacts t d))
     else if keyId = ''3'' \<or> keyId = ''4'' then
       (let col = (\<lambda>c. if keyId = ''3'' then email_norm (ct_data c) else external_id (ct_data c)) in
        map (\<lambda>c. (the (col c), ct_id c)) (filter (\<lambda>c. list_ex (\<lambda>k. col c = Some k) keys) (live_contacts t d)))
     else
       map (\<lambda>u. (uv_value u, uv_contact u)) (filter (\<lambda>u. uv_tenant u = t \<and> uv_field u = digits_int keyId \<and>
         List.member keys (uv_value u) \<and> list_ex (\<lambda>c. ct_id c = uv_contact u) (live_contacts t d)) (db_uniques d)))"

fun put_all :: "('k \<times> 'v) list \<Rightarrow> ('k \<times> 'v) list \<Rightarrow> ('k \<times> 'v) list" where
  "put_all [] m = m"
| "put_all ((k, v) # kvs) m = put_all kvs (alist_put k v m)"

definition resolveKeys :: "string \<Rightarrow> string \<Rightarrow> string list \<Rightarrow> db \<Rightarrow> (string \<times> string) list" where
  "resolveKeys t keyId values d =
    (let keys = filter (\<lambda>k. keyId \<noteq> ''id'' \<or> is_uuid k) (uniq (map (keyNorm keyId) values));
         found = put_all (if keys = [] then [] else keyRows t keyId keys d) []
     in put_all (concat (map (\<lambda>v. case map_of found (keyNorm keyId v) of
          Some i \<Rightarrow> if i = [] then [] else [(v, i)] | None \<Rightarrow> []) values)) [])"

definition resolve :: "string \<Rightarrow> string \<Rightarrow> string list \<Rightarrow> (string \<times> string) list act" where
  "resolve t keyId values = bindM (assertKey t keyId) (\<lambda>_. readDb (resolveKeys t keyId values))"

lemma map_of_put_all: "map_of (put_all kvs m) k =
    (case map_of (rev kvs) k of Some v \<Rightarrow> Some v | None \<Rightarrow> map_of m k)"
  by (induction kvs m rule: put_all.induct) (auto split: option.splits simp: map_add_def)

text \<open>What it means for a live contact of the tenant to hold a key.\<close>

definition holds_key :: "string \<Rightarrow> string \<Rightarrow> string \<Rightarrow> db \<Rightarrow> string \<Rightarrow> bool" where
  "holds_key t keyId v d i \<longleftrightarrow> (\<exists>c \<in> set (live_contacts t d). ct_id c = i \<and>
     (if keyId = ''id'' then v = i
      else if keyId = ''3'' then email_norm (ct_data c) = Some (lower (trim v))
      else if keyId = ''4'' then external_id (ct_data c) = Some (trim v)
      else \<exists>u \<in> set (db_uniques d). uv_tenant u = t \<and> uv_field u = digits_int keyId \<and> uv_value u = v \<and> uv_contact u = i))"

lemma put_all_single_valued:
  assumes "single_valued (set kvs)"
  shows "map_of (put_all kvs []) k = Some v \<longleftrightarrow> (k, v) \<in> set kvs"
proof
  assume "map_of (put_all kvs []) k = Some v"
  then show "(k, v) \<in> set kvs"
    by (auto simp: map_of_put_all dest: map_of_SomeD split: option.splits)
next
  assume kv: "(k, v) \<in> set kvs"
  then have "map_of (rev kvs) k \<noteq> None"
    by (simp add: map_of_eq_None_iff) (metis fst_conv image_eqI)
  then obtain v' where v': "map_of (rev kvs) k = Some v'" by auto
  then have "(k, v') \<in> set kvs" by (metis map_of_SomeD set_rev)
  with kv assms have "v' = v" by (auto dest: single_valuedD)
  with v' show "map_of (put_all kvs []) k = Some v" by (simp add: map_of_put_all)
qed

lemma live_contacts_set: "c \<in> set (live_contacts t d) \<longleftrightarrow> c \<in> set (db_contacts d) \<and> ct_tenant c = t \<and> live c"
  by (auto simp: live_contacts_def)

lemma live_contacts_email:
  assumes "constraints d" "c \<in> set (live_contacts t d)" "c' \<in> set (live_contacts t d)"
    "email_norm (ct_data c) = Some e" "email_norm (ct_data c') = Some e"
  shows "c = c'"
  using assms by (auto simp: live_contacts_set constraints_def intro!: pairwise_clash_free_index simp: index_clash_def)

lemma live_contacts_external:
  assumes "constraints d" "c \<in> set (live_contacts t d)" "c' \<in> set (live_contacts t d)"
    "external_id (ct_data c) = Some e" "external_id (ct_data c') = Some e"
  shows "c = c'"
  using assms by (auto simp: live_contacts_set constraints_def intro!: pairwise_clash_free_index simp: index_clash_def)

lemma live_contacts_id:
  assumes "constraints d" "c \<in> set (live_contacts t d)" "c' \<in> set (live_contacts t d)" "ct_id c = ct_id c'"
  shows "c = c'"
  using assms by (auto simp: live_contacts_set constraints_def intro!: pairwise_clash_free_id)

lemma uniques_same:
  assumes "constraints d" "u \<in> set (db_uniques d)" "u' \<in> set (db_uniques d)" "uv_key u = uv_key u'"
  shows "u = u'"
  using assms by (auto simp: constraints_def dest: inj_onD distinct_map[THEN iffD1, THEN conjunct2])

lemma keyRows_single_valued: "constraints d \<Longrightarrow> single_valued (set (keyRows t keyId keys d))"
  unfolding single_valued_def keyRows_def Let_def list_ex_iff
  using live_contacts_email[of d _ t] live_contacts_external[of d _ t] uniques_same[of d]
  by (auto split: if_splits simp: uv_key_def) (metis option.sel)+

lemma keyRows_holds:
  assumes "keyNorm keyId v \<in> set keys" "constraints d"
  shows "(keyNorm keyId v, i) \<in> set (keyRows t keyId keys d) \<longleftrightarrow> holds_key t keyId v d i"
proof -
  consider "keyId = ''id''" | "keyId = ''3''" | "keyId = ''4''" | "keyId \<notin> {''id'', ''3'', ''4''}" by auto
  then show ?thesis
  proof cases
    case 1
    then show ?thesis
      using assms(1) by (auto simp: keyRows_def holds_key_def keyNorm_def list_ex_iff uuid_eq_def)
  next
    case 4
    then show ?thesis
      using assms(1)
      by (fastforce simp: keyRows_def holds_key_def keyNorm_def list_ex_iff image_iff)
  qed (use assms(1) in \<open>auto simp: keyRows_def holds_key_def keyNorm_def list_ex_iff Let_def image_iff\<close>)
qed

lemma resolveKeys_spec:
  assumes "constraints d"
  shows "map_of (resolveKeys t keyId values d) v = Some i \<longleftrightarrow>
    v \<in> set values \<and> (keyId = ''id'' \<longrightarrow> is_uuid v) \<and> i \<noteq> [] \<and> holds_key t keyId v d i"
proof -
  define keys where "keys = filter (\<lambda>k. keyId \<noteq> ''id'' \<or> is_uuid k) (uniq (map (keyNorm keyId) values))"
  define found where "found = put_all (if keys = [] then [] else keyRows t keyId keys d) []"
  define L where "L = concat (map (\<lambda>v. case map_of found (keyNorm keyId v) of
          Some i \<Rightarrow> if i = [] then [] else [(v, i)] | None \<Rightarrow> []) values)"
  have r: "resolveKeys t keyId values d = put_all L []"
    by (simp add: resolveKeys_def keys_def found_def L_def Let_def)
  have L: "(v, i) \<in> set L \<longleftrightarrow> v \<in> set values \<and> map_of found (keyNorm keyId v) = Some i \<and> i \<noteq> []" for v i
    unfolding L_def by (force split: option.splits if_splits)
  then have "single_valued (set L)" by (auto simp: single_valued_def)
  then have 1: "map_of (resolveKeys t keyId values d) v = Some i \<longleftrightarrow>
      v \<in> set values \<and> map_of found (keyNorm keyId v) = Some i \<and> i \<noteq> []"
    by (simp add: r put_all_single_valued L)
  have sv: "single_valued (set (if keys = [] then [] else keyRows t keyId keys d))"
    using keyRows_single_valued[OF assms] by simp
  have 2: "map_of found (keyNorm keyId v) = Some i \<longleftrightarrow>
      (keyId = ''id'' \<longrightarrow> is_uuid v) \<and> holds_key t keyId v d i" if v: "v \<in> set values"
  proof (cases "keyId = ''id'' \<longrightarrow> is_uuid v")
    case True
    then have "keyNorm keyId v \<in> set keys"
      using v by (auto simp: keys_def keyNorm_def)
    then show ?thesis
      using True keyRows_holds[OF _ assms, of keyId v keys i t] sv
      by (auto simp: found_def put_all_single_valued)
  next
    case False
    have "(v, i) \<notin> set (keyRows t keyId keys d)"
    proof
      assume "(v, i) \<in> set (keyRows t keyId keys d)"
      then obtain k where "k \<in> set keys" "uuid_eq v k"
        using False by (auto simp: keyRows_def list_ex_iff)
      then show False using False uuid_eq_is_uuid by (auto simp: keys_def)
    qed
    then show ?thesis using False sv by (auto simp: found_def put_all_single_valued keyNorm_def)
  qed
  from 1 2 show ?thesis by auto
qed

section \<open>The service (\<open>fields.service.ts\<close>)\<close>

record field_dto =
  dto_field_id :: int
  dto_api_name :: string
  dto_type :: field_type
  dto_labels :: json
  dto_choices :: "choice list"
  dto_unique :: bool
  dto_read_only :: bool
  dto_is_system :: bool
  dto_deleted_at :: "string option"

definition toFieldDto :: "field_def \<Rightarrow> field_dto" where
  "toFieldDto f = \<lparr>dto_field_id = fd_fieldId f, dto_api_name = fd_apiName f, dto_type = fd_type f,
     dto_labels = fd_labels f, dto_choices = fd_choices f, dto_unique = fd_unique f,
     dto_read_only = fd_readOnly f, dto_is_system = fd_isSystem f,
     dto_deleted_at = map_option iso_string (fd_deletedAt f)\<rparr>"

definition nameInUse :: "string \<Rightarrow> exn" where
  "nameInUse apiName = PublicApi 2015 (''field name '' @ apiName @ '' is already in use'') 409"

fun assign_ids :: "int \<Rightarrow> choice_input list \<Rightarrow> choice list" where
  "assign_ids nxt [] = []"
| "assign_ids nxt (c # cs) = (case ci_id c of
      Some i \<Rightarrow> \<lparr>ch_id = i, ch_api_name = ci_api_name c, ch_labels = ci_labels c\<rparr> # assign_ids nxt cs
    | None \<Rightarrow> \<lparr>ch_id = nxt, ch_api_name = ci_api_name c, ch_labels = ci_labels c\<rparr> # assign_ids (nxt + 1) cs)"

definition withChoiceIds :: "choice_input list \<Rightarrow> choice list \<Rightarrow> choice list" where
  "withChoiceIds input current = assign_ids (foldr max (map ch_id current) 0 + 1) input"

definition listFields :: "string \<Rightarrow> bool \<Rightarrow> field_def list act" where
  "listFields t includeDeleted = readDb (\<lambda>d. sort_key fd_fieldId
     (filter (\<lambda>f. fd_tenant f = t \<and> (includeDeleted \<or> fd_deletedAt f = None)) (db_fields d)))"

text \<open>\<open>contacts.next_custom_field_id\<close>: 1000, then one more each time.\<close>

definition nextCustomFieldId :: "string \<Rightarrow> int act" where
  "nextCustomFieldId t w =
    (let n = (case map_of (db_counters (w_db w)) t of None \<Rightarrow> 1000 | Some l \<Rightarrow> l + 1)
     in (Inr n, w\<lparr>w_db := (w_db w)\<lparr>db_counters := alist_put t n (db_counters (w_db w))\<rparr>\<rparr>))"

text \<open>The primary key and the partial unique index on the name.\<close>

definition field_clash :: "field_def \<Rightarrow> field_def \<Rightarrow> bool" where
  "field_clash f g \<longleftrightarrow> fd_tenant f = fd_tenant g \<and> (fd_fieldId f = fd_fieldId g \<or>
     (fd_apiName f = fd_apiName g \<and> fd_deletedAt f = None \<and> fd_deletedAt g = None))"

definition insertField :: "field_def \<Rightarrow> field_def act" where
  "insertField f = bindM (readDb db_fields) (\<lambda>fs.
     if list_ex (field_clash f) fs then throwM UniqueViolation
     else bindM (onDb (\<lambda>d. d\<lparr>db_fields := db_fields d @ [f]\<rparr>)) (\<lambda>_. retM f))"

definition same_field :: "field_def \<Rightarrow> field_def \<Rightarrow> bool" where
  "same_field f g \<longleftrightarrow> fd_tenant f = fd_tenant g \<and> fd_fieldId f = fd_fieldId g"

definition updateField :: "field_def \<Rightarrow> field_def act" where
  "updateField f = bindM (readDb db_fields) (\<lambda>fs.
     if list_ex (\<lambda>g. \<not> same_field f g \<and> field_clash f g) fs then throwM UniqueViolation
     else bindM (onDb (\<lambda>d. d\<lparr>db_fields := map (\<lambda>g. if same_field f g then f else g) (db_fields d)\<rparr>)) (\<lambda>_. retM f))"

text \<open>The \<open>catch\<close> and \<open>finally\<close> of \<open>create\<close> and \<open>update\<close>.\<close>

definition onNameClash :: "string \<Rightarrow> exn \<Rightarrow> exn" where
  "onNameClash name e = (if e = UniqueViolation then nameInUse name else e)"

definition createField :: "string \<Rightarrow> field_create \<Rightarrow> field_def act" where
  "createField t input =
    finallyA (mapErrM (onNameClash (fc_api_name input)) (transaction
      (bindM (nextCustomFieldId t) (\<lambda>n. insertField
        \<lparr>fd_tenant = t, fd_fieldId = n, fd_apiName = fc_api_name input, fd_labels = fc_labels input,
         fd_type = fc_type input, fd_choices = withChoiceIds (fc_choices input) [], fd_description = None,
         fd_isSystem = False, fd_unique = fc_unique input, fd_readOnly = False, fd_deletedAt = None\<rparr>))))
      (invalidate t)"

definition findField :: "string \<Rightarrow> int \<Rightarrow> field_def act" where
  "findField t fieldId = bindM (readDb (\<lambda>d. find (\<lambda>f. fd_tenant f = t \<and> fd_fieldId f = fieldId \<and> fd_deletedAt f = None) (db_fields d)))
     (\<lambda>r. case r of None \<Rightarrow> throwM (HttpExc 404 (''field '' @ show_int fieldId @ '' not found'')) | Some f \<Rightarrow> retM f)"

text \<open>\<open>data -> k @> to_jsonb(i)\<close>.\<close>

definition holds_choice :: "json option \<Rightarrow> int \<Rightarrow> bool" where
  "holds_choice v i = (case v of
      Some (JNum n) \<Rightarrow> n = int_num i
    | Some (JArr vs) \<Rightarrow> List.member vs (int_json i)
    | _ \<Rightarrow> False)"

definition choice_used :: "string \<Rightarrow> int \<Rightarrow> int \<Rightarrow> db \<Rightarrow> bool" where
  "choice_used t fieldId i d =
    list_ex (\<lambda>c. holds_choice (map_of (ct_data c) (show_int fieldId)) i) (live_contacts t d)"

definition find_choice :: "choice list \<Rightarrow> int option \<Rightarrow> choice option" where
  "find_choice current i = find (\<lambda>o'. Some (ch_id o') = i) current"

definition removed_choices :: "choice_input list \<Rightarrow> choice list \<Rightarrow> choice list" where
  "removed_choices input current = filter (\<lambda>c. \<not> list_ex (\<lambda>n. ci_id n = Some (ch_id c)) input) current"

definition changeChoices :: "string \<Rightarrow> field_def \<Rightarrow> choice_input list \<Rightarrow> choice list act" where
  "changeChoices t def choices =
    (let current = fd_choices def; gone = removed_choices choices current in
     if fd_isSystem def \<and> (length choices \<noteq> length current \<or> gone \<noteq> [] \<or>
          list_ex (\<lambda>c. map_option ch_api_name (find_choice current (ci_id c)) \<noteq> Some (ci_api_name c)) choices)
     then throwM (HttpExc 403 ''system fields only accept labels'')
     else if list_ex (\<lambda>c. ci_id c \<noteq> None \<and> find_choice current (ci_id c) = None) choices
     then throwM (PublicApi 2010 ''choice id does not belong to the field'' 400)
     else bindM (forM gone (\<lambda>c. bindM (readDb (choice_used t (fd_fieldId def) (ch_id c))) (\<lambda>used.
         if used then throwM (HttpExc 409 (''choice '' @ show_int (ch_id c) @ '' is in use by contacts'')) else retM ())))
       (\<lambda>_. retM (withChoiceIds choices current)))"

definition changeName :: "field_def \<Rightarrow> field_update \<Rightarrow> string act" where
  "changeName def input = (case fu_api_name input of
      Some n \<Rightarrow> if n \<noteq> [] \<and> n \<noteq> fd_apiName def then
          (if fd_isSystem def then throwM (HttpExc 403 ''system fields only accept labels'') else retM n)
        else retM (fd_apiName def)
    | None \<Rightarrow> retM (fd_apiName def))"

definition updateFieldDef :: "string \<Rightarrow> int \<Rightarrow> field_update \<Rightarrow> field_def act" where
  "updateFieldDef t fieldId input =
    finallyA (mapErrM (onNameClash (case fu_api_name input of Some n \<Rightarrow> n | None \<Rightarrow> [])) (transaction
      (bindM (findField t fieldId) (\<lambda>def.
       bindM (changeName def input) (\<lambda>name.
       bindM (case fu_choices input of None \<Rightarrow> retM (fd_choices def) | Some cs \<Rightarrow> changeChoices t def cs) (\<lambda>choices.
         updateField (def\<lparr>fd_labels := (case fu_labels input of Some l \<Rightarrow> l | None \<Rightarrow> fd_labels def),
           fd_apiName := name, fd_choices := choices\<rparr>)))))))
      (invalidate t)"

definition removeField :: "string \<Rightarrow> int \<Rightarrow> unit act" where
  "removeField t fieldId =
    bindM (findField t fieldId) (\<lambda>def.
    bindM (if fd_isSystem def then throwM (HttpExc 403 ''system fields cannot be deleted'') else retM ()) (\<lambda>_.
    bindM (getM w_now) (\<lambda>now.
    bindM (updateField (def\<lparr>fd_deletedAt := Some now\<rparr>)) (\<lambda>_.
      modifyM (\<lambda>w. (invalidate t w)\<lparr>w_purges := w_purges w @ [(t, fieldId)]\<rparr>)))))"

definition strip_key :: "string \<Rightarrow> string \<Rightarrow> contact \<Rightarrow> contact" where
  "strip_key t k c = (if ct_tenant c = t then c\<lparr>ct_data := alist_del k (ct_data c)\<rparr> else c)"

definition purge :: "string \<Rightarrow> int \<Rightarrow> unit act" where
  "purge t fieldId = transaction
    (bindM (onDb (\<lambda>d. d\<lparr>db_contacts := map (strip_key t (show_int fieldId)) (db_contacts d)\<rparr>)) (\<lambda>_.
      onDb (\<lambda>d. d\<lparr>db_uniques := filter (\<lambda>u. \<not> (uv_tenant u = t \<and> uv_field u = fieldId)) (db_uniques d)\<rparr>)))"

definition localeOf :: "(string \<Rightarrow> string option) \<Rightarrow> string \<Rightarrow> string" where
  "localeOf defaultLocale t = (case defaultLocale t of Some l \<Rightarrow> l | None \<Rightarrow> ''es'')"

section \<open>System fields (\<open>system-fields.seeder.ts\<close>)\<close>

text \<open>\<open>sys\<close> is the contents of \<open>contracts/dsl/system-fields.json\<close>.\<close>

definition system_def :: "string \<Rightarrow> field_def \<Rightarrow> field_def" where
  "system_def t f = f\<lparr>fd_tenant := t, fd_isSystem := True, fd_deletedAt := None\<rparr>"

fun insert_skipping :: "field_def list \<Rightarrow> field_def list \<Rightarrow> field_def list" where
  "insert_skipping fs [] = fs"
| "insert_skipping fs (f # new) = insert_skipping (if list_ex (field_clash f) fs then fs else fs @ [f]) new"

definition seedSystemFields :: "field_def list \<Rightarrow> string \<Rightarrow> unit act" where
  "seedSystemFields sys t = onDb (\<lambda>d. d\<lparr>db_fields := insert_skipping (db_fields d) (map (system_def t) sys)\<rparr>)"

section \<open>Lemmas\<close>

subsection \<open>Option ids\<close>

lemma le_foldr_max: "x \<in> set xs \<Longrightarrow> x \<le> foldr max xs (m :: int)"
  by (induction xs) auto

lemma assign_ids_mem:
  "c \<in> set (assign_ids n input) \<Longrightarrow> Some (ch_id c) \<in> ci_id ` set input \<or> n \<le> ch_id c"
  by (induction n input rule: assign_ids.induct) (fastforce split: option.splits)+

lemma assign_ids_keeps: "i \<in> set input \<Longrightarrow> ci_id i = Some k \<Longrightarrow> k \<in> ch_id ` set (assign_ids n input)"
  by (induction n input rule: assign_ids.induct) (auto split: option.splits)

lemma assign_ids_distinct:
  assumes "distinct (filter (\<lambda>i. i \<noteq> None) (map ci_id input))"
    and "\<forall>i. Some i \<in> ci_id ` set input \<longrightarrow> i < n"
  shows "distinct (map ch_id (assign_ids n input))"
  using assms
proof (induction n input rule: assign_ids.induct)
  case (2 nxt c cs)
  show ?case
  proof (cases "ci_id c")
    case None
    have "distinct (map ch_id (assign_ids (nxt + 1) cs))"
      using 2(1)[OF None] 2(3,4) None by fastforce
    moreover have "nxt \<notin> ch_id ` set (assign_ids (nxt + 1) cs)"
      using 2(4) assign_ids_mem[of _ "nxt + 1" cs] by fastforce
    ultimately show ?thesis using None by simp
  next
    case (Some i)
    have "distinct (map ch_id (assign_ids nxt cs))"
      using 2(2)[OF Some] 2(3,4) Some by fastforce
    moreover have "i \<notin> ch_id ` set (assign_ids nxt cs)"
    proof
      assume "i \<in> ch_id ` set (assign_ids nxt cs)"
      then obtain d where d: "d \<in> set (assign_ids nxt cs)" "i = ch_id d" by auto
      have "i < nxt" using 2(4) Some by (auto simp: image_iff)
      with assign_ids_mem[OF d(1)] d(2) have "Some i \<in> ci_id ` set cs" by auto
      then show False using 2(3) Some by auto
    qed
    ultimately show ?thesis using Some by simp
  qed
qed simp

lemma withChoiceIds_distinct:
  assumes "distinct (filter (\<lambda>i. i \<noteq> None) (map ci_id input))"
    and "\<forall>i. Some i \<in> ci_id ` set input \<longrightarrow> i \<in> ch_id ` set current"
  shows "distinct (map ch_id (withChoiceIds input current))"
  unfolding withChoiceIds_def
proof (rule assign_ids_distinct[OF assms(1)], intro allI impI)
  fix i assume "Some i \<in> ci_id ` set input"
  then have "i \<in> set (map ch_id current)" using assms(2) by auto
  then show "i < foldr max (map ch_id current) 0 + 1" using le_foldr_max by fastforce
qed

lemma withChoiceIds_new:
  assumes "c \<in> set (withChoiceIds input current)" "Some (ch_id c) \<notin> ci_id ` set input"
  shows "ch_id c \<notin> ch_id ` set current"
proof
  assume "ch_id c \<in> ch_id ` set current"
  then have "ch_id c \<le> foldr max (map ch_id current) 0" by (intro le_foldr_max) auto
  then show False using assms assign_ids_mem unfolding withChoiceIds_def by fastforce
qed

subsection \<open>Isolation\<close>

lemma foreign_fields: "filter (\<lambda>r. fd_tenant r \<noteq> t) fs = filter (\<lambda>r. fd_tenant r \<noteq> t) (db_fields d) \<Longrightarrow>
    foreign t (d\<lparr>db_fields := fs\<rparr>) = foreign t d"
  by (simp add: foreign_def)

lemma keeps_iso_insertField: "fd_tenant f = t \<Longrightarrow> keeps (iso t) (insertField f)"
  unfolding insertField_def
  by (intro keepsI keeps_iso_onDb) (simp add: foreign_ok_def foreign_def)

lemma keeps_iso_updateField: "fd_tenant f = t \<Longrightarrow> keeps (iso t) (updateField f)"
  unfolding updateField_def
  by (intro keepsI keeps_iso_onDb)
     (auto simp: foreign_ok_def same_field_def intro!: foreign_fields filter_map_other)

lemma filter_alist_put: "filter (\<lambda>r. fst r \<noteq> k) (alist_put k v xs) = filter (\<lambda>r. fst r \<noteq> k) xs"
  by (induction xs) auto

lemma keeps_iso_nextCustomFieldId [keepsI]: "keeps (iso t) (nextCustomFieldId t)"
  by (simp add: keeps_def nextCustomFieldId_def Let_def iso_def foreign_def filter_alist_put)

lemma findField_Inr: "findField t n w = (Inr f, w') \<longleftrightarrow>
    w' = w \<and> find (\<lambda>f. fd_tenant f = t \<and> fd_fieldId f = n \<and> fd_deletedAt f = None) (db_fields (w_db w)) = Some f"
  by (auto simp: findField_def split: option.splits)

lemma findField_tenant: "findField t n w = (Inr f, w') \<Longrightarrow>
    fd_tenant f = t \<and> fd_fieldId f = n \<and> fd_deletedAt f = None \<and> f \<in> set (db_fields (w_db w))"
  by (auto simp: findField_Inr dest: find_Some_set)

lemma keeps_iso_findField [keepsI]: "keeps (iso t) (findField u n)"
  unfolding findField_def by (intro keepsI)

lemma keeps_iso_changeName [keepsI]: "keeps (iso t) (changeName def input)"
  by (auto simp: changeName_def intro: keepsI split: option.splits)

lemma keeps_iso_changeChoices [keepsI]: "keeps (iso t) (changeChoices u def cs)"
  by (auto simp: changeChoices_def Let_def intro!: keepsI)

lemma keeps_iso_createField: "keeps (iso t) (createField t input)"
  unfolding createField_def by (intro keepsI keeps_iso_insertField) simp_all

lemma keeps_iso_updateFieldDef: "keeps (iso t) (updateFieldDef t n input)"
  unfolding updateFieldDef_def
  by (intro keepsI isolation.keeps_bindM_dep[OF keeps_iso_findField] keeps_iso_updateField)
     (auto dest: findField_tenant)

lemma keeps_iso_removeField: "keeps (iso t) (removeField t n)"
  unfolding removeField_def
  by (intro keepsI isolation.keeps_bindM_dep[OF keeps_iso_findField] keeps_iso_updateField isolation.keeps_modifyM)
     (auto dest: findField_tenant simp: iso_def)

lemma keeps_iso_purge: "keeps (iso t) (purge t n)"
  unfolding purge_def
proof (intro keepsI keeps_iso_onDb)
  show "foreign_ok t (\<lambda>d. d\<lparr>db_contacts := map (strip_key t (show_int n)) (db_contacts d)\<rparr>)"
    by (auto simp: foreign_ok_def foreign_def strip_key_def intro!: filter_map_other)
  show "foreign_ok t (\<lambda>d. d\<lparr>db_uniques := filter (\<lambda>u. \<not> (uv_tenant u = t \<and> uv_field u = n)) (db_uniques d)\<rparr>)"
    by (auto simp: foreign_ok_def foreign_def intro!: filter_cong)
qed

subsection \<open>The cache\<close>

lemma finallyA_coherent: "coherent t (snd (finallyA m (invalidate t) w))"
  by (simp add: finallyA_def split: prod.splits)

lemma live_fields_cong: "db_fields d = db_fields d' \<Longrightarrow> live_fields t d = live_fields t d'"
  by (simp add: live_fields_def)

lemma coherent_cong: "db_fields (w_db w) = db_fields (w_db w') \<Longrightarrow> w_cache w = w_cache w' \<Longrightarrow> coherent t w = coherent t w'"
  by (simp add: coherent_def live_fields_def)

lemma updateField_Inl: "updateField f w = (Inl e, w') \<Longrightarrow> w' = w \<and> e = UniqueViolation"
  by (auto simp: updateField_def split: if_splits)

lemma removeField_eq: "removeField t n w =
    (case findField t n w of
       (Inl e, w') \<Rightarrow> (Inl e, w')
     | (Inr def, w') \<Rightarrow>
         if fd_isSystem def then (Inl (HttpExc 403 ''system fields cannot be deleted''), w')
         else (case updateField (def\<lparr>fd_deletedAt := Some (w_now w')\<rparr>) w' of
             (Inl e, v) \<Rightarrow> (Inl e, v)
           | (Inr _, v) \<Rightarrow> (Inr (), (invalidate t v)\<lparr>w_purges := w_purges v @ [(t, n)]\<rparr>)))"
  by (simp add: removeField_def bindM_def split: prod.split sum.split)

lemma removeField_coherent:
  assumes "coherent t w"
  shows "coherent t (snd (removeField t n w))"
proof (cases "findField t n w")
  case (Pair r w')
  have "w' = w" using Pair by (auto simp: findField_def split: option.splits)
  then show ?thesis
    using assms Pair
    by (auto simp: removeField_eq coherent_def invalidate_def dest: updateField_Inl split: sum.splits prod.splits)
qed

subsection \<open>Field ids and names\<close>

text \<open>
  The primary key, the name index, and where ids come from: system fields below 1000, custom
  fields between 1000 and the tenant's counter.
\<close>

definition id_origin :: "(string \<times> int) list \<Rightarrow> field_def \<Rightarrow> bool" where
  "id_origin counters f \<longleftrightarrow> (if fd_isSystem f then fd_fieldId f < 1000
     else (\<exists>l. map_of counters (fd_tenant f) = Some l \<and> 1000 \<le> fd_fieldId f \<and> fd_fieldId f \<le> l))"

definition counters_ok :: "(string \<times> int) list \<Rightarrow> bool" where
  "counters_ok counters \<longleftrightarrow> (\<forall>t l. map_of counters t = Some l \<longrightarrow> 1000 \<le> l)"

definition fields_inv :: "db \<Rightarrow> bool" where
  "fields_inv d \<longleftrightarrow> sorted_wrt (\<lambda>f g. \<not> field_clash f g) (db_fields d) \<and>
     (\<forall>f \<in> set (db_fields d). id_origin (db_counters d) f) \<and> counters_ok (db_counters d)"

definition name_taken :: "string \<Rightarrow> string \<Rightarrow> db \<Rightarrow> bool" where
  "name_taken t name d \<longleftrightarrow> (\<exists>f \<in> set (db_fields d). fd_tenant f = t \<and> fd_apiName f = name \<and> fd_deletedAt f = None)"

definition next_id :: "string \<Rightarrow> db \<Rightarrow> int" where
  "next_id t d = (case map_of (db_counters d) t of None \<Rightarrow> 1000 | Some l \<Rightarrow> l + 1)"

definition created_field :: "string \<Rightarrow> field_create \<Rightarrow> db \<Rightarrow> field_def" where
  "created_field t input d =
    \<lparr>fd_tenant = t, fd_fieldId = next_id t d, fd_apiName = fc_api_name input, fd_labels = fc_labels input,
     fd_type = fc_type input, fd_choices = withChoiceIds (fc_choices input) [], fd_description = None,
     fd_isSystem = False, fd_unique = fc_unique input, fd_readOnly = False, fd_deletedAt = None\<rparr>"

lemma field_clash_sym: "field_clash f g = field_clash g f"
  by (auto simp: field_clash_def)

lemma next_id_fresh:
  assumes "fields_inv d" "f \<in> set (db_fields d)" "fd_tenant f = t"
  shows "fd_fieldId f < next_id t d" and "1000 \<le> next_id t d"
  using assms by (auto simp: fields_inv_def id_origin_def next_id_def counters_ok_def split: option.splits if_splits)
    (force+)

lemma created_clash:
  assumes "fields_inv d"
  shows "list_ex (field_clash (created_field t input d)) (db_fields d) \<longleftrightarrow> name_taken t (fc_api_name input) d"
  using next_id_fresh(1)[OF assms] by (fastforce simp: list_ex_iff field_clash_def created_field_def name_taken_def)

lemma createField_eq:
  assumes "fields_inv (w_db w)"
  shows "createField t input w =
    (let f = created_field t input (w_db w) in
     if name_taken t (fc_api_name input) (w_db w) then (Inl (nameInUse (fc_api_name input)), invalidate t w)
     else (Inr f, invalidate t (w\<lparr>w_db := (w_db w)\<lparr>
       db_counters := alist_put t (fd_fieldId f) (db_counters (w_db w)),
       db_fields := db_fields (w_db w) @ [f]\<rparr>\<rparr>)))"
  using created_clash[OF assms, of t input]
  by (simp add: createField_def finallyA_def mapErrM_def transaction_def nextCustomFieldId_def insertField_def
      bindM_def created_field_def next_id_def Let_def onNameClash_def)

lemma id_origin_mono:
  "id_origin counters f \<Longrightarrow> (\<And>l. map_of counters t = Some l \<Longrightarrow> l \<le> n) \<Longrightarrow> id_origin (alist_put t n counters) f"
  by (auto simp: id_origin_def split: if_splits)

lemma next_id_ge: "counters_ok (db_counters d) \<Longrightarrow> 1000 \<le> next_id t d"
  by (force simp: counters_ok_def next_id_def split: option.splits)

lemma createField_inv:
  assumes "fields_inv (w_db w)"
  shows "fields_inv (w_db (snd (createField t input w)))"
proof (cases "name_taken t (fc_api_name input) (w_db w)")
  case True
  then show ?thesis using assms by (simp add: createField_eq Let_def)
next
  case False
  let ?d = "w_db w" let ?f = "created_field t input ?d"
  have "\<not> list_ex (field_clash ?f) (db_fields ?d)" using False created_clash[OF assms] by simp
  then have "\<forall>g \<in> set (db_fields ?d). \<not> field_clash g ?f" by (simp add: list_ex_iff field_clash_sym)
  moreover have "id_origin (alist_put t (next_id t ?d) (db_counters ?d)) f" if "f \<in> set (db_fields ?d)" for f
    using assms that by (intro id_origin_mono) (auto simp: fields_inv_def next_id_def)
  moreover have "1000 \<le> next_id t ?d" using assms next_id_ge by (simp add: fields_inv_def)
  then have "id_origin (alist_put t (next_id t ?d) (db_counters ?d)) ?f" "counters_ok (alist_put t (next_id t ?d) (db_counters ?d))"
    using assms by (auto simp: id_origin_def created_field_def counters_ok_def fields_inv_def)
  moreover have "fd_fieldId ?f = next_id t ?d" by (simp add: created_field_def)
  ultimately show ?thesis
    using False assms by (simp add: createField_eq Let_def fields_inv_def sorted_wrt_append)
qed

lemma updateField_Inr: "updateField f w = (Inr g, w') \<longleftrightarrow> g = f \<and>
    \<not> list_ex (\<lambda>g. \<not> same_field f g \<and> field_clash f g) (db_fields (w_db w)) \<and>
    w' = w\<lparr>w_db := (w_db w)\<lparr>db_fields := map (\<lambda>g. if same_field f g then f else g) (db_fields (w_db w))\<rparr>\<rparr>"
  by (auto simp: updateField_def)

lemma sorted_wrt_replace:
  assumes "sorted_wrt (\<lambda>f g. \<not> field_clash f g) fs" "\<forall>g \<in> set fs. \<not> same_field f g \<longrightarrow> \<not> field_clash f g"
  shows "sorted_wrt (\<lambda>f g. \<not> field_clash f g) (map (\<lambda>g. if same_field f g then f else g) fs)"
  using assms
proof (induction fs)
  case (Cons a fs)
  have sep: "\<not> field_clash (if same_field f a then f else a) (if same_field f g then f else g)" if g: "g \<in> set fs" for g
  proof (cases "same_field f a")
    case True
    then have "\<not> same_field f g"
      using Cons.prems(1) g by (auto simp: same_field_def field_clash_def)
    then show ?thesis using True Cons.prems(2) g by auto
  next
    case False
    then show ?thesis using Cons.prems g by (auto simp: field_clash_sym)
  qed
  have "\<forall>h \<in> set (map (\<lambda>g. if same_field f g then f else g) fs).
      \<not> field_clash (if same_field f a then f else a) h"
  proof
    fix h assume "h \<in> set (map (\<lambda>g. if same_field f g then f else g) fs)"
    then obtain g where g: "g \<in> set fs" "h = (if same_field f g then f else g)" unfolding list.set_map by blast
    show "\<not> field_clash (if same_field f a then f else a) h" unfolding g(2) by (rule sep[OF g(1)])
  qed
  moreover have "sorted_wrt (\<lambda>f g. \<not> field_clash f g) (map (\<lambda>g. if same_field f g then f else g) fs)"
    using Cons.IH Cons.prems by simp
  ultimately show ?case unfolding list.map sorted_wrt.simps by blast
qed simp

lemma updateField_inv:
  assumes "fields_inv (w_db w)" "updateField f w = (Inr g, w')" "id_origin (db_counters (w_db w)) f"
  shows "fields_inv (w_db w')"
  using assms
  by (auto simp: updateField_Inr fields_inv_def list_ex_iff intro!: sorted_wrt_replace)

lemma removeField_inv:
  assumes "fields_inv (w_db w)"
  shows "fields_inv (w_db (snd (removeField t n w)))"
proof (cases "findField t n w")
  case (Pair r w')
  have w': "w' = w" using Pair by (auto simp: findField_def split: option.splits)
  show ?thesis
  proof (cases r)
    case (Inl e)
    then show ?thesis using assms Pair w' by (simp add: removeField_eq)
  next
    case (Inr f)
    then have "f \<in> set (db_fields (w_db w))" using Pair findField_tenant by blast
    then have "id_origin (db_counters (w_db w)) (f\<lparr>fd_deletedAt := Some (w_now w)\<rparr>)"
      using assms by (auto simp: fields_inv_def id_origin_def)
    then show ?thesis
      using assms Pair Inr w'
      by (auto simp: removeField_eq dest: updateField_Inl updateField_inv split: prod.split sum.split)
  qed
qed

subsection \<open>Updates\<close>

lemma changeName_cases: "changeName def input w = (r, w') \<Longrightarrow> w' = w \<and>
    (case r of Inl e \<Rightarrow> e = HttpExc 403 ''system fields only accept labels'' \<and> fd_isSystem def
     | Inr name \<Rightarrow> name = fd_apiName def \<or> (\<not> fd_isSystem def \<and> fu_api_name input = Some name))"
  by (auto simp: changeName_def split: option.splits if_splits)

lemma forM_check:
  assumes "\<And>x s. f x s = (if P x s then (Inl (e x), s) else (Inr (), s))"
  shows "forM xs f s = (case find (\<lambda>x. P x s) xs of Some x \<Rightarrow> (Inl (e x), s) | None \<Rightarrow> (Inr (), s))"
  by (induction xs) (auto simp: bindM_def assms)

lemma changeChoices_eq:
  "changeChoices t def choices w =
    (let current = fd_choices def; gone = removed_choices choices current in
     if fd_isSystem def \<and> (length choices \<noteq> length current \<or> gone \<noteq> [] \<or>
          list_ex (\<lambda>c. map_option ch_api_name (find_choice current (ci_id c)) \<noteq> Some (ci_api_name c)) choices)
     then (Inl (HttpExc 403 ''system fields only accept labels''), w)
     else if list_ex (\<lambda>c. ci_id c \<noteq> None \<and> find_choice current (ci_id c) = None) choices
     then (Inl (PublicApi 2010 ''choice id does not belong to the field'' 400), w)
     else case find (\<lambda>c. choice_used t (fd_fieldId def) (ch_id c) (w_db w)) gone of
         Some c \<Rightarrow> (Inl (HttpExc 409 (''choice '' @ show_int (ch_id c) @ '' is in use by contacts'')), w)
       | None \<Rightarrow> (Inr (withChoiceIds choices current), w))"
proof -
  let ?f = "\<lambda>c. bindM (readDb (choice_used t (fd_fieldId def) (ch_id c))) (\<lambda>used.
         if used then throwM (HttpExc 409 (''choice '' @ show_int (ch_id c) @ '' is in use by contacts'')) else retM ())"
  have f: "?f c s = (if choice_used t (fd_fieldId def) (ch_id c) (w_db s)
      then (Inl (HttpExc 409 (''choice '' @ show_int (ch_id c) @ '' is in use by contacts'')), s) else (Inr (), s))" for c s
    by simp
  note loop = forM_check[where f = ?f and P = "\<lambda>c s. choice_used t (fd_fieldId def) (ch_id c) (w_db s)"
      and e = "\<lambda>c. HttpExc 409 (''choice '' @ show_int (ch_id c) @ '' is in use by contacts'')", OF f]
  show ?thesis
    unfolding changeChoices_def Let_def
    by (simp add: bindM_def loop split: option.split)
qed

lemma updateFieldDef_Inr:
  assumes "updateFieldDef t n input w = (Inr g, w')"
  shows "\<exists>def. findField t n w = (Inr def, w) \<and> fd_tenant g = t \<and> fd_fieldId g = n \<and>
    fd_type g = fd_type def \<and> fd_unique g = fd_unique def \<and> fd_isSystem g = fd_isSystem def \<and> fd_deletedAt g = None \<and>
    changeName def input w = (Inr (fd_apiName g), w) \<and>
    (case fu_choices input of None \<Rightarrow> fd_choices g = fd_choices def
     | Some cs \<Rightarrow> changeChoices t def cs w = (Inr (fd_choices g), w)) \<and>
    (\<exists>v. updateField g w = (Inr g, v) \<and> w' = invalidate t v)"
proof -
  obtain v where v: "transaction (bindM (findField t n) (\<lambda>def.
       bindM (changeName def input) (\<lambda>name.
       bindM (case fu_choices input of None \<Rightarrow> retM (fd_choices def) | Some cs \<Rightarrow> changeChoices t def cs) (\<lambda>choices.
         updateField (def\<lparr>fd_labels := (case fu_labels input of Some l \<Rightarrow> l | None \<Rightarrow> fd_labels def),
           fd_apiName := name, fd_choices := choices\<rparr>))))) w = (Inr g, v)" and w': "w' = invalidate t v"
    using assms by (auto simp: updateFieldDef_def finallyA_def mapErrM_Inr split: prod.splits)
  then obtain def name choices v1 v2 v3 where
    1: "findField t n w = (Inr def, v1)" "changeName def input v1 = (Inr name, v2)"
      "(case fu_choices input of None \<Rightarrow> retM (fd_choices def) | Some cs \<Rightarrow> changeChoices t def cs) v2 = (Inr choices, v3)"
      "updateField (def\<lparr>fd_labels := (case fu_labels input of Some l \<Rightarrow> l | None \<Rightarrow> fd_labels def),
           fd_apiName := name, fd_choices := choices\<rparr>) v3 = (Inr g, v)"
    unfolding transaction_Inr bindM_Inr by blast
  have v1: "v1 = w" using 1(1) by (simp add: findField_Inr)
  have v2: "v2 = w" using 1(2) changeName_cases v1 by blast
  have v3: "v3 = w" using 1(3) v2 by (auto simp: changeChoices_eq Let_def split: option.splits if_splits)
  have g: "g = def\<lparr>fd_labels := (case fu_labels input of Some l \<Rightarrow> l | None \<Rightarrow> fd_labels def),
           fd_apiName := name, fd_choices := choices\<rparr>" using 1(4) by (simp add: updateField_Inr)
  show ?thesis
    using 1 w' v1 v2 v3 g findField_tenant[OF 1(1)] by (auto split: option.splits)
qed

text \<open>An option a live contact holds is never removed.\<close>

lemma updateFieldDef_keeps_used:
  assumes "updateFieldDef t n input w = (Inr g, w')" "findField t n w = (Inr def, w)"
    and "c \<in> set (fd_choices def)" "choice_used t n (ch_id c) (w_db w)"
  shows "ch_id c \<in> ch_id ` set (fd_choices g)"
proof -
  from updateFieldDef_Inr[OF assms(1)] assms(2) have g: "fd_fieldId def = n"
    "case fu_choices input of None \<Rightarrow> fd_choices g = fd_choices def
     | Some cs \<Rightarrow> changeChoices t def cs w = (Inr (fd_choices g), w)"
    by (auto dest: findField_tenant)
  show ?thesis
  proof (cases "fu_choices input")
    case None
    then show ?thesis using g assms(3) by auto
  next
    case (Some cs)
    then have "changeChoices t def cs w = (Inr (fd_choices g), w)" using g by simp
    then have none: "find (\<lambda>c. choice_used t n (ch_id c) (w_db w)) (removed_choices cs (fd_choices def)) = None"
      and ch: "fd_choices g = withChoiceIds cs (fd_choices def)"
      using g(1) by (auto simp: changeChoices_eq Let_def split: if_splits option.splits)
    have "c \<notin> set (removed_choices cs (fd_choices def))"
      using none assms(4) by (auto simp: find_None_set)
    then have "\<exists>i \<in> set cs. ci_id i = Some (ch_id c)"
      using assms(3) by (auto simp: removed_choices_def list_ex_iff)
    then show ?thesis
      unfolding ch withChoiceIds_def using assign_ids_keeps by fastforce
  qed
qed

end
