(* ===== verification/Outbox.thy ===== *)
theory Outbox
  imports Field_Registry
begin

text \<open>
  \<open>services/core/src/modules/contacts-write/outbox.ts\<close>: the events that a write leaves in
  \<open>contacts.outbox\<close> inside its transaction (\<open>ContactsOutbox\<close>), and the relay that drains the
  table to JetStream (\<open>OutboxRelay\<close>), as a machine whose steps are the points where the relay
  gives way to other requests.
\<close>

section \<open>Writing events (\<open>ContactsOutbox\<close>)\<close>

text \<open>\<open>NatsModule.forRoot({ source: 'core' })\<close>.\<close>

definition natsSource :: string where
  "natsSource = ''core''"

definition outbox_row_of :: "string \<Rightarrow> int \<Rightarrow> string \<Rightarrow> string \<Rightarrow> string \<times> json \<Rightarrow> outbox_row" where
  "outbox_row_of i now t typ e =
    (let env = buildEnvelope i natsSource typ t (Some (fst e)) (snd e) 1 (nat now) None
     in \<lparr>ob_id = ev_id env, ob_tenant = t, ob_subject = subjectFor typ t, ob_envelope = env\<rparr>)"

fun outboxInsert :: "string \<Rightarrow> string \<Rightarrow> (string \<times> json) list \<Rightarrow> unit act" where
  "outboxInsert t typ [] = retM ()"
| "outboxInsert t typ (e # es) =
    bindM fresh_id (\<lambda>i. bindM (getM w_now) (\<lambda>now.
    bindM (onDb (\<lambda>d. d\<lparr>db_outbox := db_outbox d @ [outbox_row_of i now t typ e]\<rparr>)) (\<lambda>_.
      outboxInsert t typ es)))"

definition lists_of :: "string \<Rightarrow> string \<Rightarrow> db \<Rightarrow> string list" where
  "lists_of t cid d = map mb_list (filter (\<lambda>m. mb_tenant m = t \<and> mb_contact m = cid) (db_members d))"

definition snapshot :: "string \<Rightarrow> string list \<Rightarrow> db \<Rightarrow> contact \<Rightarrow> json" where
  "snapshot t changed d c = JObj [
     (''version'', int_json (ct_version c)),
     (''fields'', JObj (alist_put ''41'' (JStr (iso_string (ct_updatedAt c)))
        (alist_put ''40'' (JStr (iso_string (ct_createdAt c))) (ct_data c)))),
     (''changed'', JArr (map JStr changed)),
     (''lists'', JArr (map JStr (lists_of t (ct_id c) d)))]"

definition upsertedEvents :: "string \<Rightarrow> (string \<times> string list) list \<Rightarrow> db \<Rightarrow> (string \<times> json) list" where
  "upsertedEvents t changed d =
    map (\<lambda>c. (ct_id c, snapshot t (case map_of changed (ct_id c) of Some ks \<Rightarrow> ks | None \<Rightarrow> []) d c))
      (filter (\<lambda>c. ct_tenant c = t \<and> List.member (map fst changed) (ct_id c)) (db_contacts d))"

definition upserted :: "string \<Rightarrow> (string \<times> string list) list \<Rightarrow> unit act" where
  "upserted t changed = (if changed = [] then retM ()
     else bindM (readDb (upsertedEvents t changed)) (\<lambda>es. outboxInsert t ''contacts.upserted'' es))"

definition deletedEvents :: "string list \<Rightarrow> string \<Rightarrow> (string \<times> json) list" where
  "deletedEvents cids reason = map (\<lambda>c. (c, JObj [(''reason'', JStr reason)])) cids"

definition outboxDeleted :: "string \<Rightarrow> string list \<Rightarrow> string \<Rightarrow> unit act" where
  "outboxDeleted t cids reason = outboxInsert t ''contacts.deleted'' (deletedEvents cids reason)"

definition flush :: "unit act" where
  "flush = modifyM (\<lambda>w. w\<lparr>w_kicks := Suc (w_kicks w)\<rparr>)"

fun event_rows :: "(nat \<Rightarrow> string) \<Rightarrow> nat \<Rightarrow> int \<Rightarrow> string \<Rightarrow> string \<Rightarrow> (string \<times> json) list \<Rightarrow> outbox_row list" where
  "event_rows ids n now t typ [] = []"
| "event_rows ids n now t typ (e # es) = outbox_row_of (ids n) now t typ e # event_rows ids (Suc n) now t typ es"

definition add_events :: "string \<Rightarrow> string \<Rightarrow> (string \<times> json) list \<Rightarrow> world \<Rightarrow> world" where
  "add_events t typ es w = w\<lparr>w_db := (w_db w)\<lparr>db_outbox := db_outbox (w_db w) @
       event_rows (w_ids w) (w_next w) (w_now w) t typ es\<rparr>, w_next := w_next w + length es\<rparr>"

lemma outboxInsert_eq [simp]: "outboxInsert t typ es w = (Inr (), add_events t typ es w)"
  by (induction es arbitrary: w) (simp_all add: add_events_def)

lemma upserted_eq: "upserted t changed w = (Inr (), add_events t ''contacts.upserted''
    (if changed = [] then [] else upsertedEvents t changed (w_db w)) w)"
  by (simp add: upserted_def add_events_def)

lemma event_rows_meta: "map (\<lambda>r. (ob_tenant r, ob_subject r, ev_type (ob_envelope r), ev_contact_id (ob_envelope r), ev_data (ob_envelope r)))
     (event_rows ids n now t typ es) = map (\<lambda>(c, v). (t, subjectFor typ t, typ, Some c, v)) es"
  by (induction es arbitrary: n) (auto simp: outbox_row_of_def buildEnvelope_def Let_def)

lemma event_rows_tenant: "r \<in> set (event_rows ids n now t typ es) \<Longrightarrow> ob_tenant r = t"
  by (induction es arbitrary: n) (auto simp: outbox_row_of_def Let_def)

lemma add_events_foreign: "foreign t (w_db (add_events t typ es w)) = foreign t (w_db w)"
proof -
  have "filter (\<lambda>r. ob_tenant r \<noteq> t) (event_rows ids n now t typ es) = []" for ids n now
    by (auto simp: filter_empty_conv dest: event_rows_tenant)
  then show ?thesis by (simp add: add_events_def foreign_def)
qed

lemma keeps_iso_outboxInsert [keepsI]: "keeps (iso t) (outboxInsert t typ es)"
  by (simp add: keeps_def iso_def add_events_foreign)

lemma keeps_iso_upserted [keepsI]: "keeps (iso t) (upserted t changed)"
  by (simp add: keeps_def iso_def upserted_eq add_events_foreign)

lemma keeps_iso_deleted [keepsI]: "keeps (iso t) (outboxDeleted t cids reason)"
  by (simp add: outboxDeleted_def keepsI)

lemma keeps_iso_flush [keepsI]: "keeps (iso t) flush"
  by (simp add: keeps_def flush_def iso_def)

lemma add_events_simps [simp]:
  "db_contacts (w_db (add_events t typ es w)) = db_contacts (w_db w)"
  "db_uniques (w_db (add_events t typ es w)) = db_uniques (w_db w)"
  "db_fields (w_db (add_events t typ es w)) = db_fields (w_db w)"
  "db_members (w_db (add_events t typ es w)) = db_members (w_db w)"
  "db_lists (w_db (add_events t typ es w)) = db_lists (w_db w)"
  "db_consents (w_db (add_events t typ es w)) = db_consents (w_db w)"
  "w_cache (add_events t typ es w) = w_cache w"
  "w_ids (add_events t typ es w) = w_ids w"
  "w_now (add_events t typ es w) = w_now w"
  "w_kicks (add_events t typ es w) = w_kicks w"
  by (simp_all add: add_events_def)

section \<open>The relay (\<open>OutboxRelay\<close>)\<close>

text \<open>
  The relay's fields and where its \<open>loop\<close> stands: \<open>Idle\<close> when \<open>running\<close> is undefined,
  \<open>Draining\<close> inside a \<open>drain\<close> call, \<open>Ended\<close> when \<open>loop\<close> has returned and the
  \<open>finally\<close> callback that clears \<open>running\<close> is still queued. \<open>rl_table\<close> holds the outbox's
  rows in id order, \<open>rl_sent\<close> what JetStream accepted.
\<close>

datatype phase = Idle | Draining | Ended

record relay =
  rl_timer :: bool
  rl_phase :: phase
  rl_again :: bool
  rl_table :: "nat list"
  rl_sent :: "nat list"

definition batch :: nat where
  "batch = 500"

definition kick :: "relay \<Rightarrow> relay" where
  "kick s = (if \<not> rl_timer s then s
     else if rl_phase s \<noteq> Idle then s\<lparr>rl_again := True\<rparr>
     else s\<lparr>rl_phase := Draining, rl_again := False\<rparr>)"

text \<open>
  \<open>drain\<close>, with how many of its rows JetStream took before a publish failed (None: none
  failed): published in order, deleted only when all of them were.
\<close>

definition drain :: "nat option \<Rightarrow> relay \<Rightarrow> nat option \<times> relay" where
  "drain failedAt s = (let rows = take batch (rl_table s) in
     case failedAt of
       Some k \<Rightarrow> (None, s\<lparr>rl_sent := rl_sent s @ take k rows\<rparr>)
     | None \<Rightarrow> (Some (length rows), s\<lparr>rl_sent := rl_sent s @ rows, rl_table := drop batch (rl_table s)\<rparr>))"

text \<open>What \<open>loop\<close> does when a \<open>drain\<close> ends: drain on, run again, or return.\<close>

definition drained :: "nat option \<Rightarrow> relay \<Rightarrow> relay" where
  "drained failedAt s = (case drain failedAt s of
      (None, s') \<Rightarrow> s'\<lparr>rl_phase := Ended\<rparr>
    | (Some n, s') \<Rightarrow> if n = batch then s'
        else if rl_again s' \<and> rl_timer s' then s'\<lparr>rl_again := False\<rparr>
        else s'\<lparr>rl_phase := Ended\<rparr>)"

datatype relay_event = Boot | Kick | Write "nat list" | Drained "nat option" | Cleared | Destroy

inductive relay_step :: "relay \<Rightarrow> relay_event \<Rightarrow> relay \<Rightarrow> bool" where
  boot: "relay_step s Boot (kick (s\<lparr>rl_timer := True\<rparr>))"
| kicked: "relay_step s Kick (kick s)"
| written: "relay_step s (Write rows) (s\<lparr>rl_table := rl_table s @ rows\<rparr>)"
| drained: "rl_phase s = Draining \<Longrightarrow> relay_step s (Drained failedAt) (drained failedAt s)"
| cleared: "rl_phase s = Ended \<Longrightarrow> relay_step s Cleared (s\<lparr>rl_phase := Idle\<rparr>)"
| destroy: "relay_step s Destroy (s\<lparr>rl_timer := False\<rparr>)"

inductive_cases relay_step_cases: "relay_step s ev s'"

definition relay_init :: relay where
  "relay_init = \<lparr>rl_timer = False, rl_phase = Idle, rl_again = False, rl_table = [], rl_sent = []\<rparr>"

text \<open>A run of the relay, with its events.\<close>

inductive relay_run :: "relay_event list \<Rightarrow> relay \<Rightarrow> bool" where
  start: "relay_run [] relay_init"
| step: "relay_run evs s \<Longrightarrow> relay_step s ev s' \<Longrightarrow> relay_run (evs @ [ev]) s'"

definition written_rows :: "relay_event list \<Rightarrow> nat list" where
  "written_rows evs = concat (map (\<lambda>ev. case ev of Write rows \<Rightarrow> rows | _ \<Rightarrow> []) evs)"

text \<open>At least once: a row that left the table was sent; nothing else was; the table is the rest.\<close>

definition relay_inv :: "relay_event list \<Rightarrow> relay \<Rightarrow> bool" where
  "relay_inv evs s \<longleftrightarrow> (\<exists>gone. written_rows evs = gone @ rl_table s \<and> set gone \<subseteq> set (rl_sent s)) \<and>
     set (rl_sent s) \<subseteq> set (written_rows evs)"

lemma relay_inv_step:
  assumes "relay_inv evs s" "relay_step s ev s'"
  shows "relay_inv (evs @ [ev]) s'"
  using assms(2)
proof cases
  case (drained failedAt)
  obtain gone where g: "written_rows evs = gone @ rl_table s" "set gone \<subseteq> set (rl_sent s)"
    and sent: "set (rl_sent s) \<subseteq> set (written_rows evs)"
    using assms(1) by (auto simp: relay_inv_def)
  have w: "written_rows (evs @ [ev]) = written_rows evs" using drained by (simp add: written_rows_def)
  show ?thesis
  proof (cases failedAt)
    case None
    have t: "rl_table s' = drop batch (rl_table s)" "rl_sent s' = rl_sent s @ take batch (rl_table s)"
      using drained None by (simp_all add: drained_def drain_def Let_def)
    show ?thesis
      unfolding relay_inv_def w
      using g sent t by (intro conjI exI[of _ "gone @ take batch (rl_table s)"]) (auto dest: in_set_takeD)
  next
    case (Some k)
    have t: "rl_table s' = rl_table s" "rl_sent s' = rl_sent s @ take k (take batch (rl_table s))"
      using drained Some by (simp_all add: drained_def drain_def Let_def)
    show ?thesis
      unfolding relay_inv_def w
      using g sent t by (intro conjI exI[of _ gone]) (auto dest!: in_set_takeD)
  qed
qed (use assms(1) in \<open>auto simp: relay_inv_def written_rows_def kick_def\<close>)

lemma relay_run_inv: "relay_run evs s \<Longrightarrow> relay_inv evs s"
proof (induction rule: relay_run.induct)
  case start
  then show ?case by (simp add: relay_inv_def relay_init_def written_rows_def)
next
  case (step evs s ev s')
  then show ?case by (blast intro: relay_inv_step)
qed

text \<open>
  No lost wakeup while a drain is under way: a kick then makes the loop run again, unless the
  relay is being destroyed. The rows of the table when no event is left to run are those written
  after the last kick, after a failed drain, or between the end of the loop and \<open>finally\<close>.
\<close>

lemma kick_while_draining:
  assumes "rl_timer s" "rl_phase s = Draining"
  shows "rl_phase (drained None (kick s)) = Draining"
  using assms by (auto simp: kick_def drained_def drain_def Let_def batch_def)

text \<open>The window: a kick between the loop's return and the \<open>finally\<close> callback starts nothing.\<close>

lemma kick_lost_in_window:
  assumes "rl_phase s = Ended" "rl_timer s"
  shows "rl_phase ((kick s)\<lparr>rl_phase := Idle\<rparr>) = Idle" and "rl_table ((kick s)\<lparr>rl_phase := Idle\<rparr>) = rl_table s"
  using assms by (auto simp: kick_def)

text \<open>From an idle relay with its timer set, a kick and enough successful drains empty the table.\<close>

lemma drain_progress:
  "rl_phase s = Draining \<Longrightarrow> rl_table (drained None s) = drop batch (rl_table s) \<and>
    (rl_phase (drained None s) = Draining \<or> (rl_phase (drained None s) = Ended \<and> rl_table (drained None s) = []))"
  by (auto simp: drained_def drain_def Let_def min_def)

lemma drains_empty:
  "rl_phase s = Draining \<Longrightarrow> length (rl_table s) < n * batch \<Longrightarrow>
    rl_table (((\<lambda>s. if rl_phase s = Draining then drained None s else s) ^^ n) s) = []"
proof (induction n arbitrary: s)
  case (Suc n)
  let ?f = "\<lambda>s. if rl_phase s = Draining then drained None s else s"
  have stuck: "rl_phase s \<noteq> Draining \<Longrightarrow> (?f ^^ n) s = s" for s :: relay and n by (induction n) auto
  have "rl_phase (drained None s) = Draining \<or> (rl_phase (drained None s) = Ended \<and> rl_table (drained None s) = [])"
    using drain_progress[OF Suc.prems(1)] by blast
  then show ?case
  proof
    assume d: "rl_phase (drained None s) = Draining"
    show ?thesis
    proof (cases n)
      case 0
      then show ?thesis using Suc.prems drain_progress[OF Suc.prems(1)] by simp
    next
      case (Suc m)
      have "length (rl_table (drained None s)) < n * batch"
        using Suc.prems drain_progress[OF Suc.prems(1)] Suc by (simp add: batch_def)
      from Suc.IH[OF d this] show ?thesis
        using Suc.prems(1) by (simp add: funpow_Suc_right del: funpow.simps)
    qed
  next
    assume d: "rl_phase (drained None s) = Ended \<and> rl_table (drained None s) = []"
    then show ?thesis
      using stuck[of "drained None s" n] Suc.prems(1) by (simp add: funpow_Suc_right del: funpow.simps)
  qed
qed simp

end
