(* ===== verification/Common_Properties.thy ===== *)
theory Common_Properties
  imports Http_Lib Tenant_Scope Auth_Lib Nats_Lib Outbox
begin

text \<open>The properties of the shared library (\<open>packages/ts-common\<close>) and of the outbox relay.\<close>

section \<open>The guard\<close>

text \<open>C5. The global guard attaches a principal exactly when the route is not public, the request has
  a bearer token that verifies, the token's kind fits the route (service tokens on internal routes
  and nowhere else), and its grants include every permission the route requires; it lets a request
  pass without one on public routes only; any other request is answered 401 or 403.\<close>

theorem guard_admits:
  "(canActivate verify r a = Inr (Some p) \<longleftrightarrow> \<not> rt_public r \<and> (\<exists>token. bearerToken a = Some token \<and> verify token = Inr p) \<and>
     (rt_internal r \<longleftrightarrow> pr_typ p = TService) \<and> set (rt_required r) \<subseteq> set (grantsOf p)) \<and>
   (canActivate verify r a = Inr None \<longleftrightarrow> rt_public r) \<and>
   (case canActivate verify r a of Inr _ \<Rightarrow> True
    | Inl e \<Rightarrow> (\<exists>m. e = HttpExc 401 m \<and> \<not> (\<exists>token q. bearerToken a = Some token \<and> verify token = Inr q)) \<or>
        (\<exists>m. e = HttpExc 403 m \<and> (\<exists>token q. bearerToken a = Some token \<and> verify token = Inr q)))"
proof (intro conjI)
  show "case canActivate verify r a of Inr _ \<Rightarrow> True
    | Inl e \<Rightarrow> (\<exists>m. e = HttpExc 401 m \<and> \<not> (\<exists>token q. bearerToken a = Some token \<and> verify token = Inr q)) \<or>
        (\<exists>m. e = HttpExc 403 m \<and> (\<exists>token q. bearerToken a = Some token \<and> verify token = Inr q))"
    by (auto simp: canActivate_def split: option.splits sum.splits if_splits)
qed (rule canActivate_principal, rule canActivate_none)

text \<open>Claims that parse carry permissions for users and scopes for clients and services, never
  both, every grant of the form \<open>area:action\<close>, and a tenant id that is null or a UUID.\<close>

theorem claims_are_valid:
  assumes "parseClaims v = Inr p"
  shows "grants_fit p \<and> list_all is_permission (grantsOf p) \<and> (\<forall>t. pr_tenant p = Some t \<longrightarrow> is_uuid t)"
  using parseClaims_valid[OF assms] by blast

lemma claims_are_valid_witness: "\<exists>p. parseClaims (JObj [(''sub'', JStr ''u''), (''typ'', JStr ''user''), (''tenant_id'', JNull),
    (''perms'', JArr [JStr ''contacts:view'']), (''iat'', JNum (Dec 1 0)), (''exp'', JNum (Dec 2 0))]) = Inr p \<and> grants_fit p"
proof -
  let ?v = "JObj [(''sub'', JStr ''u''), (''typ'', JStr ''user''), (''tenant_id'', JNull),
    (''perms'', JArr [JStr ''contacts:view'']), (''iat'', JNum (Dec 1 0)), (''exp'', JNum (Dec 2 0))]"
  have "\<not> isl (parseClaims ?v)" by code_simp
  then obtain p where "parseClaims ?v = Inr p" by (cases "parseClaims ?v") auto
  with claims_are_valid[of ?v p] show ?thesis by blast
qed

section \<open>Tenant scope\<close>

text \<open>C4. Whatever Kysely calls on a connection in the context of a tenant, in whatever order, and
  whichever of the statements fail: every query that reaches Postgres runs inside a transaction
  with \<open>app.tenant_id\<close> set to that tenant and no role change, and a connection outside a
  transaction carries no tenant setting back to the pool.\<close>

theorem every_query_is_tenant_scoped:
  assumes "list_all (op_in_tenant t) ops" and "t \<noteq> []"
  shows "logged_in t (driver_run role ops (acquired outcomes)) \<and>
    (\<not> cn_inTransaction (driver_run role ops (acquired outcomes)) \<longrightarrow> idle_conn (driver_run role ops (acquired outcomes)))"
  using driver_run_inv[OF acquired_inv[of t outcomes] assms, of role] by (auto simp: scoped_inv_def)

lemma every_query_is_tenant_scoped_witness:
  "logged_in ''t'' (driver_run None [OpQuery (emptyCtx\<lparr>als_tenant := Some ''t''\<rparr>) (0::nat)] (acquired [True, True, False]))"
  using every_query_is_tenant_scoped[of "''t''" "[OpQuery (emptyCtx\<lparr>als_tenant := Some ''t''\<rparr>) (0::nat)]" None "[True, True, False]"]
  by (simp add: op_in_tenant_def emptyCtx_def)

section \<open>Service tokens\<close>

text \<open>However calls and responses interleave, the service-token client has at most one token
  request under way, and a token it serves from its cache is not within the skew of its expiry.\<close>

theorem one_token_request_at_a_time:
  "list_all (\<lambda>n. n \<le> 1) (outstanding skew \<lparr>tc_token = None, tc_inflight = False\<rparr> evs 0) \<and>
   (case getToken skew now c of (Cached v, _) \<Rightarrow> (\<exists>e. tc_token c = Some (v, e) \<and> now + skew < e) | _ \<Rightarrow> True)"
  using outstanding_le_1[of 0 "\<lparr>tc_token = None, tc_inflight = False\<rparr>" skew evs] getToken_fresh
  by (auto split: prod.split token_answer.split) force

section \<open>Errors\<close>

text \<open>Core's problem filter does not tell errors that are not HTTP exceptions apart: whatever was
  thrown, the document is the same for the same request.\<close>

theorem unexpected_errors_are_hidden:
  assumes "http_of t = None" and "http_of u = None"
  shows "coreProblemJsonFilter titles ise t o1 o2 = coreProblemJsonFilter titles ise u o1 o2"
  by (rule coreProblemJsonFilter_hides[OF assms])

lemma unexpected_errors_are_hidden_witness:
  "coreProblemJsonFilter (\<lambda>_. None) \<lparr>he_status = 500, he_body = JNull, he_message = []\<rparr> (ThrownError ''password'') None [] =
   coreProblemJsonFilter (\<lambda>_. None) \<lparr>he_status = 500, he_body = JNull, he_message = []\<rparr> ThrownOther None []"
  by (rule unexpected_errors_are_hidden) (simp_all add: http_of_def)

section \<open>Events\<close>

text \<open>The identifiers drawn for events are UUIDs, and one drawn in an earlier millisecond is
  smaller as a string than one drawn later, whatever the random bytes: ordering rows by id orders
  them by time.\<close>

theorem event_ids_sort_by_time:
  assumes "ms < ms'" and "ms' < 2 ^ 48" and "length rnd = 10" and "length rnd' = 10"
  shows "is_uuid (uuidv7 ms rnd) \<and> uuidv7 ms rnd < uuidv7 ms' rnd'"
  using uuidv7_is_uuid[of rnd ms] uuidv7_less[OF assms] assms(3) by simp

lemma event_ids_sort_by_time_witness: "uuidv7 1 (replicate 10 255) < uuidv7 2 (replicate 10 0)"
  using event_ids_sort_by_time[of 1 2 "replicate 10 255" "replicate 10 0"] by simp



text \<open>When publishing a dead letter fails, the loop ends with the message unanswered, and no
  later message of the stream is consumed by it.\<close>

theorem failed_dead_letter_stops_the_consumer:
  assumes "answer_of handler maxDeliver backoff d (co_world c) = Term"
  shows "co_answers (consumer_loop handler maxDeliver backoff ((d, False, uuid) # ms) c) = co_answers c \<and>
    \<not> co_running (consumer_loop handler maxDeliver backoff ((d, False, uuid) # ms) c)"
  using deadLetter_failure_ends_loop[OF assms] by blast

lemma failed_dead_letter_stops_the_consumer_witness:
  "\<not> co_running (consumer_loop (\<lambda>v. throwM MissingTenant) 1 [] [(\<lparr>dl_seq = 7, dl_redeliveryCount = 0, dl_payload = None, dl_trace = None\<rparr>, False, [])]
     \<lparr>co_answers = [], co_dead = [], co_running = True, co_world = ()\<rparr>)"
  using failed_dead_letter_stops_the_consumer[of "\<lambda>v. throwM MissingTenant" 1 "[]" "\<lparr>dl_seq = 7, dl_redeliveryCount = 0, dl_payload = None, dl_trace = None\<rparr>"
      "\<lparr>co_answers = [], co_dead = [], co_running = True, co_world = ()\<rparr>" "[]" "[]"]
  by (simp add: answer_of_def)

section \<open>The outbox relay\<close>



text \<open>Once a drain has begun, the relay empties its table when publishing works: as many drains
  as there are batches in it, and no kick is needed in between; a kick that arrives during a drain
  makes the relay look again.\<close>

theorem relay_drains_the_table:
  assumes "rl_phase s = Draining" and "length (rl_table s) < n * batch"
  shows "rl_table (((\<lambda>s. if rl_phase s = Draining then drained None s else s) ^^ n) s) = [] \<and>
    (rl_timer s \<longrightarrow> rl_phase (drained None (kick s)) = Draining)"
  using drains_empty[OF assms] kick_while_draining[of s] assms(1) by blast

lemma relay_drains_the_table_witness:
  "rl_table (((\<lambda>s. if rl_phase s = Draining then drained None s else s) ^^ 1) (relay_init\<lparr>rl_phase := Draining, rl_table := [1, 2]\<rparr>)) = []"
  using relay_drains_the_table[of "relay_init\<lparr>rl_phase := Draining, rl_table := [1, 2]\<rparr>" 1]
  by (simp add: relay_init_def batch_def)

end
