(* ===== verification/Contacts_Write.thy ===== *)
theory Contacts_Write
  imports Outbox
begin

text \<open>
  \<open>services/core/src/modules/contacts-write/contacts-write.service.ts\<close>: the batch write
  engine. The service's \<open>results\<close> and \<open>pending\<close> arrays share their result objects; here a
  list of slots, one per item, carries the result, whether the item is pending and the values to
  set, and the stages map over it. A stage that filters \<open>valid\<close> is a stage that skips the other
  slots. The first attempt's reads and its transaction are separate steps of the request:
  \<open>others n\<close> is what other requests do to the database between them at attempt \<open>n\<close>.
\<close>

section \<open>Items and results\<close>

datatype write_mode = Create | Update | Upsert

record item_error =
  ie_code :: int
  ie_text :: string
  ie_field :: "string option"

record item_result =
  ir_index :: nat
  ir_key :: "string option"
  ir_id :: "string option"
  ir_created :: bool
  ir_changed :: "string list"
  ir_error :: "item_error option"

record slot =
  sl_r :: item_result
  sl_item :: object
  sl_pending :: bool
  sl_set :: object

record change =
  chg_contactId :: string
  chg_created :: bool
  chg_before :: object
  chg_after :: object
  chg_changed :: "string list"
  chg_source :: string

type_synonym hook = "string \<Rightarrow> change list \<Rightarrow> unit act"

definition failR :: "int \<Rightarrow> string \<Rightarrow> string option \<Rightarrow> item_result \<Rightarrow> item_result" where
  "failR c text fieldId r = r\<lparr>ir_error := Some \<lparr>ie_code = c, ie_text = text, ie_field = fieldId\<rparr>,
     ir_id := None, ir_created := False, ir_changed := []\<rparr>"

definition failS :: "int \<Rightarrow> string \<Rightarrow> string option \<Rightarrow> slot \<Rightarrow> slot" where
  "failS c text fieldId s = s\<lparr>sl_r := failR c text fieldId (sl_r s)\<rparr>"

definition valid_slot :: "slot \<Rightarrow> bool" where
  "valid_slot s \<longleftrightarrow> sl_pending s \<and> ir_error (sl_r s) = None"

text \<open>\<open>p.r.key!\<close>.\<close>

definition key_of :: "slot \<Rightarrow> string" where
  "key_of s = (case ir_key (sl_r s) of Some k \<Rightarrow> k | None \<Rightarrow> [])"

section \<open>Keys (\<open>keyed\<close>)\<close>

definition normFor :: "string \<Rightarrow> string \<Rightarrow> string" where
  "normFor fieldId v = (if fieldId = ''3'' then lower (trim v) else if fieldId = ''4'' then trim v else v)"

definition itemKey :: "string \<Rightarrow> object \<Rightarrow> string" where
  "itemKey keyId item = (case map_of item keyId of
      Some (JStr s) \<Rightarrow> s | Some (JNum n) \<Rightarrow> num_string n | _ \<Rightarrow> [])"

definition start_slot :: "string \<Rightarrow> nat \<Rightarrow> object \<Rightarrow> slot" where
  "start_slot keyId i item = (let key = itemKey keyId item in
     \<lparr>sl_r = \<lparr>ir_index = i, ir_key = (if key = [] then None else Some key), ir_id = None,
        ir_created = False, ir_changed = [], ir_error = None\<rparr>,
      sl_item = item, sl_pending = False, sl_set = []\<rparr>)"

fun keyed_from :: "string \<Rightarrow> nat \<Rightarrow> string list \<Rightarrow> object list \<Rightarrow> slot list" where
  "keyed_from keyId i seen [] = []"
| "keyed_from keyId i seen (item # items) =
    (let key = itemKey keyId item; s = start_slot keyId i item in
     if trim key = [] then
       failS 2014 (''key field '' @ keyId @ '' is missing'') None s # keyed_from keyId (Suc i) seen items
     else if List.member seen (normFor keyId key) then
       failS 2014 (''key '' @ key @ '' is repeated in the request'') None s # keyed_from keyId (Suc i) seen items
     else s\<lparr>sl_pending := True\<rparr> # keyed_from keyId (Suc i) (normFor keyId key # seen) items)"

definition keyed :: "string \<Rightarrow> object list \<Rightarrow> slot list" where
  "keyed keyId items = keyed_from keyId 0 [] items"

section \<open>Values\<close>

fun setFields :: "field_def list \<Rightarrow> string \<Rightarrow> object \<Rightarrow> slot \<Rightarrow> slot" where
  "setFields defs keyId [] s = s"
| "setFields defs keyId ((k, raw) # kvs) s =
    (if k = ''id'' \<and> keyId = ''id'' then setFields defs keyId kvs s
     else case (if is_field_key k then field_of defs (digits_int k) else None) of
       None \<Rightarrow> failS 2011 (''field '' @ k @ '' does not exist'') (Some k) s
     | Some def \<Rightarrow>
         if fd_readOnly def then failS 2013 (''field '' @ k @ '' is read-only'') (Some k) s
         else (case normalizeValue (fd_type def) (choice_ids def) raw of
             Inl (c, text) \<Rightarrow> failS c (''field '' @ k @ '': '' @ text) (Some k) s
           | Inr v \<Rightarrow> setFields defs keyId kvs (s\<lparr>sl_set := alist_put k v (sl_set s)\<rparr>)))"

definition setStage :: "field_def list \<Rightarrow> string \<Rightarrow> slot list \<Rightarrow> slot list" where
  "setStage defs keyId slots = map (\<lambda>s. if sl_pending s then setFields defs keyId (sl_item s) s else s) slots"

section \<open>Targets\<close>

text \<open>Per valid item: the contact found, a fresh id for a new one, or the failure the mode says.\<close>

definition targetOf :: "write_mode \<Rightarrow> string \<Rightarrow> (string \<times> string) list \<Rightarrow> slot \<Rightarrow> slot act" where
  "targetOf mode keyId found s =
    (let hit = map_of found (key_of s) in
     if hit \<noteq> None \<and> mode = Create then retM (failS 2012 ''contact already exists'' None s)
     else if hit = None \<and> (mode = Update \<or> keyId = ''id'') then retM (failS 2008 ''contact not found'' None s)
     else case hit of
       Some i \<Rightarrow> retM (s\<lparr>sl_r := (sl_r s)\<lparr>ir_id := Some i, ir_created := False\<rparr>\<rparr>)
     | None \<Rightarrow> bindM fresh_id (\<lambda>i. retM (s\<lparr>sl_r := (sl_r s)\<lparr>ir_id := Some i, ir_created := True\<rparr>\<rparr>)))"

fun targetStage :: "write_mode \<Rightarrow> string \<Rightarrow> (string \<times> string) list \<Rightarrow> slot list \<Rightarrow> slot list act" where
  "targetStage mode keyId found [] = retM []"
| "targetStage mode keyId found (s # ss) =
    bindM (if valid_slot s then targetOf mode keyId found s else retM s) (\<lambda>s'.
    bindM (targetStage mode keyId found ss) (\<lambda>ss'. retM (s' # ss')))"

section \<open>Unique fields (\<open>checkUnique\<close>)\<close>

text \<open>\<open>String(p.set[fk])\<close> when it is not null and not blank.\<close>

definition uniqueText :: "object \<Rightarrow> string \<Rightarrow> string option" where
  "uniqueText vals fk = (case map_of vals fk of
      None \<Rightarrow> None
    | Some v \<Rightarrow> if v = JNull \<or> trim (js_string v) = [] then None else Some (js_string v))"

definition setter :: "string \<Rightarrow> slot \<Rightarrow> bool" where
  "setter fk s \<longleftrightarrow> valid_slot s \<and> uniqueText (sl_set s) fk \<noteq> None"

definition checkSetter :: "string \<Rightarrow> (string \<times> string) list \<Rightarrow> string list \<Rightarrow> string \<Rightarrow> slot \<Rightarrow> slot" where
  "checkSetter fk owners seen value s =
    (let owner = map_of owners value in
     if List.member seen (normFor fk value) then
       failS 2014 (''value of field '' @ fk @ '' is repeated in the request'') (Some fk) s
     else if owner \<noteq> None \<and> owner \<noteq> ir_id (sl_r s) then
       failS 2012 (''value of field '' @ fk @ '' belongs to another contact'') (Some fk) s
     else s)"

fun checkSetters :: "string \<Rightarrow> (string \<times> string) list \<Rightarrow> string list \<Rightarrow> slot list \<Rightarrow> slot list" where
  "checkSetters fk owners seen [] = []"
| "checkSetters fk owners seen (s # ss) =
    (if \<not> setter fk s then s # checkSetters fk owners seen ss
     else let value = the (uniqueText (sl_set s) fk)
          in checkSetter fk owners seen value s # checkSetters fk owners (normFor fk value # seen) ss)"

fun checkUnique :: "string \<Rightarrow> string \<Rightarrow> field_def list \<Rightarrow> slot list \<Rightarrow> slot list act" where
  "checkUnique t keyId [] slots = retM slots"
| "checkUnique t keyId (def # defs) slots =
    (let fk = show_int (fd_fieldId def); setters = filter (setter fk) slots in
     if \<not> fd_unique def \<or> fk = keyId \<or> setters = [] then checkUnique t keyId defs slots
     else bindM (resolve t fk (map (\<lambda>s. the (uniqueText (sl_set s) fk)) setters)) (\<lambda>owners.
       checkUnique t keyId defs (checkSetters fk owners [] slots)))"

section \<open>Writing rows\<close>

fun mergeData :: "object \<Rightarrow> object \<Rightarrow> object" where
  "mergeData old [] = old"
| "mergeData old ((k, v) # kvs) = mergeData (if v = JNull then alist_del k old else alist_put k v old) kvs"

definition changedKeys :: "object \<Rightarrow> object \<Rightarrow> string list" where
  "changedKeys old vals = filter (\<lambda>k. map_of old k \<noteq> map_of (mergeData old vals) k) (map fst vals)"

definition slot_id :: "slot \<Rightarrow> string" where
  "slot_id s = (case ir_id (sl_r s) of Some i \<Rightarrow> i | None \<Rightarrow> [])"

definition to_update :: "slot \<Rightarrow> bool" where
  "to_update s \<longleftrightarrow> valid_slot s \<and> \<not> ir_created (sl_r s)"

definition to_insert :: "slot \<Rightarrow> bool" where
  "to_insert s \<longleftrightarrow> valid_slot s \<and> ir_created (sl_r s)"

definition set_changed :: "string list \<Rightarrow> slot \<Rightarrow> slot" where
  "set_changed ks s = s\<lparr>sl_r := (sl_r s)\<lparr>ir_changed := ks\<rparr>\<rparr>"

text \<open>One row of the \<open>UPDATE\<close>: the unique indexes are checked as each row is written.\<close>

definition write_row :: "string \<Rightarrow> int \<Rightarrow> change \<Rightarrow> contact \<Rightarrow> contact" where
  "write_row t now c r = (if ct_id r = chg_contactId c \<and> ct_tenant r = t
     then r\<lparr>ct_data := chg_after c, ct_version := ct_version r + 1, ct_updatedAt := now\<rparr> else r)"

fun updateRows :: "string \<Rightarrow> int \<Rightarrow> change list \<Rightarrow> contact list \<Rightarrow> contact list option" where
  "updateRows t now [] cs = Some cs"
| "updateRows t now (c # chs) cs =
    (let cs' = map (write_row t now c) cs in
     if pairwise_clash_free cs' then updateRows t now chs cs' else None)"

definition rows_of :: "string \<Rightarrow> string list \<Rightarrow> db \<Rightarrow> contact list" where
  "rows_of t is d = filter (\<lambda>c. List.member is (ct_id c)) (live_contacts t d)"

definition old_data :: "contact list \<Rightarrow> slot \<Rightarrow> object option" where
  "old_data rows s = map_option ct_data (find (\<lambda>c. ct_id c = slot_id s) rows)"

definition update_change :: "string \<Rightarrow> contact list \<Rightarrow> slot \<Rightarrow> change" where
  "update_change source rows s = (let old = (case old_data rows s of Some o' \<Rightarrow> o' | None \<Rightarrow> []) in
     \<lparr>chg_contactId = slot_id s, chg_created = False, chg_before = old, chg_after = mergeData old (sl_set s),
      chg_changed = changedKeys old (sl_set s), chg_source = source\<rparr>)"

definition updateStage :: "string \<Rightarrow> string \<Rightarrow> slot list \<Rightarrow> (slot list \<times> change list) act" where
  "updateStage t source slots =
    (let items = filter to_update slots in
     if items = [] then retM (slots, [])
     else bindM (readDb (rows_of t (map slot_id items))) (\<lambda>rows.
       if length rows \<noteq> length items then throwM (RetryWrite ''a contact was deleted concurrently'')
       else if list_ex (\<lambda>s. old_data rows s = None) items then throwM (PlainError ''TypeError'')
       else let slots' = map (\<lambda>s. if to_update s then set_changed (chg_changed (update_change source rows s)) s else s) slots;
                changes = filter (\<lambda>c. chg_changed c \<noteq> []) (map (update_change source rows) items)
            in if changes = [] then retM (slots', [])
               else bindM (getM w_now) (\<lambda>now. bindM (readDb db_contacts) (\<lambda>cs.
                 case updateRows t now changes cs of
                   None \<Rightarrow> throwM UniqueViolation
                 | Some cs' \<Rightarrow> bindM (onDb (\<lambda>d. d\<lparr>db_contacts := cs'\<rparr>)) (\<lambda>_. retM (slots', changes))))))"

definition insert_change :: "string \<Rightarrow> slot \<Rightarrow> change" where
  "insert_change source s = (let after = filter (\<lambda>kv. snd kv \<noteq> JNull) (sl_set s) in
     \<lparr>chg_contactId = slot_id s, chg_created = True, chg_before = [], chg_after = after,
      chg_changed = map fst after, chg_source = source\<rparr>)"

definition new_contact :: "string \<Rightarrow> int \<Rightarrow> change \<Rightarrow> contact" where
  "new_contact t now c = \<lparr>ct_id = chg_contactId c, ct_tenant = t, ct_data = chg_after c, ct_version = 1,
     ct_createdAt = now, ct_updatedAt = now, ct_deletedAt = None\<rparr>"

text \<open>\<open>INSERT ... ON CONFLICT DO NOTHING RETURNING id\<close>: the table and how many rows went in.\<close>

fun insertRows :: "string \<Rightarrow> int \<Rightarrow> change list \<Rightarrow> contact list \<Rightarrow> contact list \<times> nat" where
  "insertRows t now [] cs = (cs, 0)"
| "insertRows t now (c # chs) cs =
    (let n = new_contact t now c in
     if list_ex (clash n) cs then insertRows t now chs cs
     else let (cs', k) = insertRows t now chs (cs @ [n]) in (cs', Suc k))"

definition insertStage :: "string \<Rightarrow> string \<Rightarrow> slot list \<Rightarrow> (slot list \<times> change list) act" where
  "insertStage t source slots =
    (let items = filter to_insert slots; changes = map (insert_change source) items;
         slots' = map (\<lambda>s. if to_insert s then set_changed (chg_changed (insert_change source s)) s else s) slots
     in if items = [] then retM (slots, [])
        else bindM (getM w_now) (\<lambda>now. bindM (readDb db_contacts) (\<lambda>cs.
          let (cs', k) = insertRows t now changes cs in
          bindM (onDb (\<lambda>d. d\<lparr>db_contacts := cs'\<rparr>)) (\<lambda>_.
            if k \<noteq> length items then throwM (RetryWrite ''a key was taken concurrently'')
            else retM (slots', changes)))))"

section \<open>\<open>unique_values\<close> (\<open>syncUniqueValues\<close>)\<close>

definition is_custom_unique :: "field_def list \<Rightarrow> string \<Rightarrow> bool" where
  "is_custom_unique defs k \<longleftrightarrow> k \<noteq> ''3'' \<and> k \<noteq> ''4'' \<and>
     (case field_of defs (digits_int k) of Some def \<Rightarrow> fd_unique def | None \<Rightarrow> False)"

definition cleared_of :: "field_def list \<Rightarrow> change \<Rightarrow> (string \<times> int) list" where
  "cleared_of defs c = map (\<lambda>k. (chg_contactId c, digits_int k)) (filter (is_custom_unique defs) (chg_changed c))"

definition values_of :: "string \<Rightarrow> field_def list \<Rightarrow> change \<Rightarrow> uniq_row list" where
  "values_of t defs c = concat (map (\<lambda>k. case uniqueText (chg_after c) k of
      None \<Rightarrow> []
    | Some v \<Rightarrow> [\<lparr>uv_tenant = t, uv_field = digits_int k, uv_value = v, uv_contact = chg_contactId c\<rparr>])
      (filter (is_custom_unique defs) (chg_changed c)))"

fun insertUniques :: "uniq_row list \<Rightarrow> uniq_row list \<Rightarrow> uniq_row list \<times> nat" where
  "insertUniques [] us = (us, 0)"
| "insertUniques (v # vs) us =
    (if List.member (map uv_key us) (uv_key v) then insertUniques vs us
     else let (us', k) = insertUniques vs (us @ [v]) in (us', Suc k))"

definition clearUniques :: "string \<Rightarrow> (string \<times> int) list \<Rightarrow> uniq_row list \<Rightarrow> uniq_row list" where
  "clearUniques t cleared us =
     filter (\<lambda>u. \<not> (uv_tenant u = t \<and> List.member cleared (uv_contact u, uv_field u))) us"

definition syncUniqueValues :: "string \<Rightarrow> field_def list \<Rightarrow> change list \<Rightarrow> unit act" where
  "syncUniqueValues t defs changes =
    (let cleared = concat (map (cleared_of defs) changes);
         values = concat (map (values_of t defs) changes)
     in bindM (onDb (\<lambda>d. d\<lparr>db_uniques := clearUniques t cleared (db_uniques d)\<rparr>)) (\<lambda>_.
        bindM (readDb db_uniques) (\<lambda>us.
          let (us', k) = insertUniques values us in
          bindM (onDb (\<lambda>d. d\<lparr>db_uniques := us'\<rparr>)) (\<lambda>_.
            if k \<noteq> length values then throwM (RetryWrite ''a unique value was taken concurrently'')
            else retM ()))))"

section \<open>An attempt\<close>

definition results_of :: "slot list \<Rightarrow> item_result list" where
  "results_of slots = map sl_r slots"

text \<open>Everything before the transaction.\<close>

definition prepare :: "string \<Rightarrow> string \<Rightarrow> write_mode \<Rightarrow> object list \<Rightarrow> (field_def list \<times> slot list) act" where
  "prepare t keyId mode items =
    bindM (registryFields t) (\<lambda>defs.
      let slots = setStage defs keyId (keyed keyId items) in
      bindM (resolve t keyId (map key_of (filter valid_slot slots))) (\<lambda>found.
      bindM (targetStage mode keyId found slots) (\<lambda>slots'.
      bindM (checkUnique t keyId defs slots') (\<lambda>slots''. retM (defs, slots'')))))"

definition runHooks :: "hook list \<Rightarrow> string \<Rightarrow> change list \<Rightarrow> unit act" where
  "runHooks hooks t changes = forM hooks (\<lambda>h. h t changes)"

definition changedMap :: "change list \<Rightarrow> (string \<times> string list) list" where
  "changedMap changes = put_all (map (\<lambda>c. (chg_contactId c, chg_changed c)) changes) []"

definition commit :: "hook list \<Rightarrow> string \<Rightarrow> string \<Rightarrow> field_def list \<Rightarrow> slot list \<Rightarrow> slot list act" where
  "commit hooks t source defs slots = transaction
    (bindM (updateStage t source slots) (\<lambda>(slots1, upd).
     bindM (insertStage t source slots1) (\<lambda>(slots2, ins).
     let changes = upd @ ins in
     bindM (syncUniqueValues t defs changes) (\<lambda>_.
     bindM (runHooks hooks t changes) (\<lambda>_.
     bindM (upserted t (changedMap changes)) (\<lambda>_. retM slots2))))))"

definition attempt ::
  "hook list \<Rightarrow> (db \<Rightarrow> db) \<Rightarrow> string \<Rightarrow> string \<Rightarrow> write_mode \<Rightarrow> object list \<Rightarrow> string \<Rightarrow> item_result list act" where
  "attempt hooks other t keyId mode items source =
    bindM (prepare t keyId mode items) (\<lambda>(defs, slots).
      if filter valid_slot slots = [] then retM (results_of slots)
      else bindM (onDb other) (\<lambda>_.
        bindM (commit hooks t source defs slots) (\<lambda>slots'. retM (results_of slots'))))"

definition retryable :: "exn \<Rightarrow> bool" where
  "retryable e = (case e of RetryWrite _ \<Rightarrow> True | UniqueViolation \<Rightarrow> True | _ \<Rightarrow> False)"

text \<open>The \<open>for\<close> loop: \<open>left\<close> attempts may still follow this one.\<close>

fun writeLoop ::
  "hook list \<Rightarrow> (nat \<Rightarrow> db \<Rightarrow> db) \<Rightarrow> string \<Rightarrow> string \<Rightarrow> write_mode \<Rightarrow> object list \<Rightarrow> string \<Rightarrow> nat \<Rightarrow> nat \<Rightarrow> item_result list act" where
  "writeLoop hooks others t keyId mode items source n 0 =
     attempt hooks (others n) t keyId mode items source"
| "writeLoop hooks others t keyId mode items source n (Suc left) =
     catchA (attempt hooks (others n) t keyId mode items source) (\<lambda>e.
       if retryable e then writeLoop hooks others t keyId mode items source (Suc n) left else throwM e)"

definition ATTEMPTS :: nat where
  "ATTEMPTS = 3"

definition writeContacts ::
  "hook list \<Rightarrow> (nat \<Rightarrow> db \<Rightarrow> db) \<Rightarrow> string \<Rightarrow> string \<Rightarrow> write_mode \<Rightarrow> object list \<Rightarrow> string \<Rightarrow> item_result list act" where
  "writeContacts hooks others t keyId mode items source =
    bindM (assertKey t keyId) (\<lambda>_.
    bindM (writeLoop hooks others t keyId mode items source 1 (ATTEMPTS - 1)) (\<lambda>results.
    bindM flush (\<lambda>_. retM results)))"

section \<open>Deletes\<close>

definition getContact :: "string \<Rightarrow> string \<Rightarrow> contact act" where
  "getContact t i = bindM (readDb (\<lambda>d. find (\<lambda>c. ct_id c = i) (live_contacts t d)))
     (\<lambda>c. case c of None \<Rightarrow> throwM (PlainError ''NotFound'') | Some c \<Rightarrow> retM c)"

definition delete_row :: "string \<Rightarrow> string list \<Rightarrow> int \<Rightarrow> contact \<Rightarrow> contact" where
  "delete_row t is now c = (if ct_tenant c = t \<and> live c \<and> list_ex (uuid_eq (ct_id c)) is
     then c\<lparr>ct_deletedAt := Some now, ct_updatedAt := now, ct_version := ct_version c + 1\<rparr> else c)"

definition gone_ids :: "string \<Rightarrow> string list \<Rightarrow> db \<Rightarrow> string list" where
  "gone_ids t is d = map ct_id (filter (\<lambda>c. list_ex (uuid_eq (ct_id c)) is) (live_contacts t d))"

definition softDelete :: "string \<Rightarrow> string list \<Rightarrow> string list act" where
  "softDelete t is =
    (if is = [] then retM []
     else bindM (transaction
       (bindM (getM w_now) (\<lambda>now. bindM (readDb (gone_ids t is)) (\<lambda>gone.
        bindM (onDb (\<lambda>d. d\<lparr>db_contacts := map (delete_row t is now) (db_contacts d)\<rparr>)) (\<lambda>_.
        if gone = [] then retM []
        else bindM (onDb (\<lambda>d. d\<lparr>db_uniques := filter (\<lambda>u. \<not> (uv_tenant u = t \<and> List.member gone (uv_contact u))) (db_uniques d)\<rparr>)) (\<lambda>_.
          bindM (outboxDeleted t gone ''api'') (\<lambda>_. retM gone)))))))
       (\<lambda>deleted. bindM flush (\<lambda>_. retM deleted)))"

definition found_slot :: "(string \<times> string) list \<Rightarrow> slot \<Rightarrow> slot" where
  "found_slot found s = (if \<not> sl_pending s then s
     else case map_of found (key_of s) of
       Some i \<Rightarrow> s\<lparr>sl_r := (sl_r s)\<lparr>ir_id := Some i\<rparr>\<rparr>
     | None \<Rightarrow> failS 2008 ''contact not found'' None s)"

definition deleted_slot :: "string list \<Rightarrow> slot \<Rightarrow> slot" where
  "deleted_slot deleted s = (if sl_pending s \<and> ir_id (sl_r s) \<noteq> None \<and> \<not> List.member deleted (slot_id s)
     then failS 2008 ''contact not found'' None s else s)"

definition deleteByKey :: "string \<Rightarrow> string \<Rightarrow> object list \<Rightarrow> item_result list act" where
  "deleteByKey t keyId items =
    bindM (assertKey t keyId) (\<lambda>_.
    let slots = keyed keyId items in
    bindM (resolve t keyId (map key_of (filter sl_pending slots))) (\<lambda>found.
    let slots' = map (found_slot found) slots in
    bindM (softDelete t (map slot_id (filter (\<lambda>s. sl_pending s \<and> ir_id (sl_r s) \<noteq> None) slots'))) (\<lambda>deleted.
      retM (results_of (map (deleted_slot deleted) slots')))))"

end
