(* ===== verification/Contacts_Write_Results.thy ===== *)
theory Contacts_Write_Results
  imports Contacts_Write
begin

text \<open>
  What a batch write answers and what it leaves alone: one result per item in order, the mode's
  rules, rollback, and the isolation of other tenants. The invariant of a slot is carried through
  the stages of an attempt.
\<close>

section \<open>Slots through the stages\<close>

definition item_codes :: "int set" where
  "item_codes = {2008, 2010, 2011, 2012, 2013, 2014}"

text \<open>The part of a slot no stage changes.\<close>

definition slot_sig :: "slot \<Rightarrow> nat \<times> string option \<times> object \<times> bool" where
  "slot_sig s = (ir_index (sl_r s), ir_key (sl_r s), sl_item s, sl_pending s)"

definition result_ok :: "write_mode \<Rightarrow> string \<Rightarrow> item_result \<Rightarrow> bool" where
  "result_ok mode keyId r \<longleftrightarrow>
     (case ir_error r of
        Some e \<Rightarrow> ie_code e \<in> item_codes \<and> ir_id r = None \<and> \<not> ir_created r \<and> ir_changed r = []
      | None \<Rightarrow> True) \<and>
     (ir_id r = None \<longrightarrow> \<not> ir_created r) \<and>
     (ir_id r \<noteq> None \<and> mode = Create \<longrightarrow> ir_created r) \<and>
     (mode = Update \<or> keyId = ''id'' \<longrightarrow> \<not> ir_created r)"

definition slot_ok :: "write_mode \<Rightarrow> string \<Rightarrow> slot \<Rightarrow> bool" where
  "slot_ok mode keyId s \<longleftrightarrow> result_ok mode keyId (sl_r s) \<and> (\<not> sl_pending s \<longrightarrow> ir_error (sl_r s) \<noteq> None)"

definition targeted :: "slot \<Rightarrow> bool" where
  "targeted s \<longleftrightarrow> (ir_error (sl_r s) = None \<longrightarrow> ir_id (sl_r s) \<noteq> None)"

lemma failS_sig [simp]: "slot_sig (failS c text f s) = slot_sig s"
  by (simp add: slot_sig_def failS_def failR_def)

lemma failS_set [simp]: "sl_set (failS c text f s) = sl_set s"
  by (simp add: failS_def)

lemma failS_ok: "c \<in> item_codes \<Longrightarrow> slot_ok mode keyId (failS c text f s)"
  by (simp add: slot_ok_def result_ok_def failS_def failR_def)

lemma failS_targeted [simp]: "targeted (failS c text f s)"
  by (simp add: targeted_def failS_def failR_def)

lemma failS_not_valid [simp]: "\<not> valid_slot (failS c text f s)"
  by (simp add: valid_slot_def failS_def failR_def)

lemma keyed_from_sig: "map slot_sig (keyed_from keyId i seen items) =
    map (\<lambda>(j, item, p). (j, if itemKey keyId item = [] then None else Some (itemKey keyId item), item, p))
      (zip [i..<i + length items] (zip items (map sl_pending (keyed_from keyId i seen items))))"
proof (induction keyId i seen items rule: keyed_from.induct)
  case (2 keyId i seen item items)
  then show ?case
    by (simp add: Let_def upt_conv_Cons del: upt_Suc)
       (simp add: slot_sig_def start_slot_def failS_def failR_def Let_def)
qed simp

lemma length_keyed_from [simp]: "length (keyed_from keyId i seen items) = length items"
  by (induction keyId i seen items rule: keyed_from.induct) (simp_all add: Let_def)

lemma length_keyed [simp]: "length (keyed keyId items) = length items"
  by (simp add: keyed_def)

lemma keyed_sig: "i < length items \<Longrightarrow> slot_sig (keyed keyId items ! i) =
    (i, if itemKey keyId (items ! i) = [] then None else Some (itemKey keyId (items ! i)), items ! i,
      sl_pending (keyed keyId items ! i))"
  using arg_cong[OF keyed_from_sig[of keyId 0 "[]" items], of "\<lambda>xs. xs ! i"]
  by (simp add: keyed_def)

lemma keyed_from_ok: "s \<in> set (keyed_from keyId i seen items) \<Longrightarrow> slot_ok mode keyId s \<and> sl_set s = []"
  by (induction keyId i seen items rule: keyed_from.induct)
     (auto simp: Let_def slot_ok_def result_ok_def failS_def failR_def start_slot_def item_codes_def split: if_splits)

lemma setFields_sig [simp]: "slot_sig (setFields defs keyId kvs s) = slot_sig s"
  by (induction defs keyId kvs s rule: setFields.induct)
     (auto simp: Let_def slot_sig_def failS_def failR_def split: option.splits sum.splits prod.splits)

lemma setFields_ok: "slot_ok mode keyId s \<Longrightarrow> slot_ok mode keyId (setFields defs keyId kvs s)"
proof (induction defs keyId kvs s rule: setFields.induct)
  case (2 defs keyId k raw kvs s)
  have upd: "slot_ok mode keyId (s\<lparr>sl_set := x\<rparr>)" for x using 2(3) by (simp add: slot_ok_def)
  have c: "2010 \<in> item_codes" "2011 \<in> item_codes" "2013 \<in> item_codes" by (simp_all add: item_codes_def)
  show ?case
    using 2 upd c normalizeValue_error by (auto simp: failS_ok split: option.splits sum.splits prod.splits)
qed simp

lemma setStage_sig [simp]: "map slot_sig (setStage defs keyId slots) = map slot_sig slots"
  by (simp add: setStage_def)

lemma setStage_ok: "\<forall>s \<in> set slots. slot_ok mode keyId s \<Longrightarrow> \<forall>s \<in> set (setStage defs keyId slots). slot_ok mode keyId s"
  by (auto simp: setStage_def setFields_ok)

lemma targetOf_ok:
  assumes "targetOf mode keyId found s w = (r, w')" "slot_ok mode keyId s" "valid_slot s"
  shows "\<exists>s'. r = Inr s' \<and> slot_sig s' = slot_sig s \<and> slot_ok mode keyId s' \<and> targeted s' \<and> sl_set s' = sl_set s"
proof -
  let ?hit = "map_of found (key_of s)"
  have c: "2012 \<in> item_codes" "2008 \<in> item_codes" by (simp_all add: item_codes_def)
  have err: "ir_error (sl_r s) = None" and p: "sl_pending s" using assms(3) by (simp_all add: valid_slot_def)
  consider "?hit \<noteq> None \<and> mode = Create" | "?hit = None \<and> (mode = Update \<or> keyId = ''id'')"
    | i where "?hit = Some i" "mode \<noteq> Create" | "?hit = None" "mode \<noteq> Update" "keyId \<noteq> ''id''" by (cases ?hit) blast+
  then show ?thesis
  proof cases
    case 1
    then have "r = Inr (failS 2012 ''contact already exists'' None s)"
      using assms(1) by (simp add: targetOf_def Let_def)
    then show ?thesis using c by (simp add: failS_ok)
  next
    case 2
    then have "r = Inr (failS 2008 ''contact not found'' None s)"
      using assms(1) by (simp add: targetOf_def Let_def)
    then show ?thesis using c by (simp add: failS_ok)
  next
    case (3 i)
    then have "r = Inr (s\<lparr>sl_r := (sl_r s)\<lparr>ir_id := Some i, ir_created := False\<rparr>\<rparr>)"
      using assms(1) by (simp add: targetOf_def Let_def)
    then show ?thesis using 3 err p by (simp add: slot_ok_def result_ok_def targeted_def slot_sig_def)
  next
    case 4
    then obtain i where "r = Inr (s\<lparr>sl_r := (sl_r s)\<lparr>ir_id := Some i, ir_created := True\<rparr>\<rparr>)"
      using assms(1) by (auto simp: targetOf_def Let_def)
    then show ?thesis using 4 err p by (simp add: slot_ok_def result_ok_def targeted_def slot_sig_def)
  qed
qed

lemma targetStage_ok:
  assumes "targetStage mode keyId found ss w = (r, w')" "\<forall>s \<in> set ss. slot_ok mode keyId s"
  shows "\<exists>ss'. r = Inr ss' \<and> map slot_sig ss' = map slot_sig ss \<and>
    (\<forall>s \<in> set ss'. slot_ok mode keyId s \<and> targeted s) \<and> map sl_set ss' = map sl_set ss"
  using assms
proof (induction ss arbitrary: w r w')
  case (Cons s ss)
  obtain r1 w1 where 1: "(if valid_slot s then targetOf mode keyId found s else retM s) w = (r1, w1)"
    by (metis surj_pair)
  have "\<exists>s'. r1 = Inr s' \<and> slot_sig s' = slot_sig s \<and> slot_ok mode keyId s' \<and> targeted s' \<and> sl_set s' = sl_set s"
  proof (cases "valid_slot s")
    case True
    with 1 targetOf_ok[of mode keyId found s w r1 w1] Cons.prems(2) show ?thesis by simp
  next
    case False
    with 1 Cons.prems(2) show ?thesis by (auto simp: targeted_def valid_slot_def slot_ok_def)
  qed
  then obtain s' where s': "r1 = Inr s'" "slot_sig s' = slot_sig s" "slot_ok mode keyId s'" "targeted s'" "sl_set s' = sl_set s"
    by blast
  obtain r2 w2 where 2: "targetStage mode keyId found ss w1 = (r2, w2)" by (metis surj_pair)
  from Cons.IH[OF 2] Cons.prems(2) obtain ss' where ss': "r2 = Inr ss'" "map slot_sig ss' = map slot_sig ss"
    "\<forall>s \<in> set ss'. slot_ok mode keyId s \<and> targeted s" "map sl_set ss' = map sl_set ss" by auto
  show ?case using Cons.prems(1) 1 2 s' ss' by (auto simp: bindM_def)
qed simp

lemma checkSetter_ok:
  assumes "slot_ok mode keyId s" "targeted s"
  shows "slot_sig (checkSetter fk owners seen v s) = slot_sig s" "sl_set (checkSetter fk owners seen v s) = sl_set s"
    "slot_ok mode keyId (checkSetter fk owners seen v s)" "targeted (checkSetter fk owners seen v s)"
  using assms by (simp_all add: checkSetter_def Let_def failS_ok item_codes_def)

lemma checkSetters_ok:
  "\<forall>s \<in> set ss. slot_ok mode keyId s \<and> targeted s \<Longrightarrow>
    map slot_sig (checkSetters fk owners seen ss) = map slot_sig ss \<and> map sl_set (checkSetters fk owners seen ss) = map sl_set ss \<and>
    (\<forall>s \<in> set (checkSetters fk owners seen ss). slot_ok mode keyId s \<and> targeted s)"
  by (induction fk owners seen ss rule: checkSetters.induct) (auto simp: Let_def checkSetter_ok)

lemma checkUnique_ok:
  assumes "checkUnique t keyId defs ss w = (Inr ss', w')" "\<forall>s \<in> set ss. slot_ok mode keyId s \<and> targeted s"
  shows "map slot_sig ss' = map slot_sig ss \<and> map sl_set ss' = map sl_set ss \<and>
    (\<forall>s \<in> set ss'. slot_ok mode keyId s \<and> targeted s)"
  using assms
proof (induction t keyId defs ss arbitrary: w rule: checkUnique.induct)
  case (2 t keyId def defs ss)
  show ?case
  proof (cases "\<not> fd_unique def \<or> show_int (fd_fieldId def) = keyId \<or> filter (setter (show_int (fd_fieldId def))) ss = []")
    case True
    with 2 show ?thesis by (simp add: Let_def)
  next
    case False
    then obtain owners w1 where
      "checkUnique t keyId defs (checkSetters (show_int (fd_fieldId def)) owners [] ss) w1 = (Inr ss', w')"
      using 2(3) by (auto simp: Let_def bindM_Inr)
    with 2(2)[OF refl refl, of owners w1] False checkSetters_ok[OF 2(4)] show ?thesis by auto
  qed
qed simp

section \<open>No stage before the transaction writes\<close>

definition same_db :: "world \<Rightarrow> world \<Rightarrow> bool" where
  "same_db w w' \<longleftrightarrow> w_db w = w_db w'"

interpretation reads: frame same_db
  by unfold_locales (auto simp: same_db_def)

lemma reads_registryFields [keepsI]: "keeps same_db (registryFields t)"
  using registryFields_db by (auto simp: keeps_def same_db_def) (metis prod.collapse)

lemma reads_readDb [keepsI]: "keeps same_db (readDb f)"
  by (simp add: keeps_def same_db_def)

lemma reads_fresh_id [keepsI]: "keeps same_db fresh_id"
  by (simp add: keeps_def same_db_def)

lemma reads_flush [keepsI]: "keeps same_db flush"
  by (simp add: keeps_def same_db_def flush_def)

lemma reads_assertKey [keepsI]: "keeps same_db (assertKey t keyId)"
  by (auto simp: assertKey_def intro!: keepsI)

lemma reads_resolve [keepsI]: "keeps same_db (resolve t keyId vs)"
  by (simp add: resolve_def keepsI)

lemma reads_targetOf [keepsI]: "keeps same_db (targetOf mode keyId found s)"
  by (auto simp: targetOf_def Let_def intro!: keepsI)

lemma reads_targetStage [keepsI]: "keeps same_db (targetStage mode keyId found ss)"
  by (induction ss) (auto intro!: keepsI)

lemma reads_checkUnique [keepsI]: "keeps same_db (checkUnique t keyId defs ss)"
  by (induction t keyId defs ss rule: checkUnique.induct) (auto simp: Let_def intro!: keepsI)

lemma reads_prepare [keepsI]: "keeps same_db (prepare t keyId mode items)"
  unfolding prepare_def Let_def by (intro keepsI)

lemma commit_rollback:
  assumes "commit hooks t source defs slots w = (Inl e, w')"
  shows "w_db w' = w_db w"
  using assms unfolding commit_def transaction_Inl by auto

lemma attempt_eq: "attempt hooks other t keyId mode items source w =
    (case prepare t keyId mode items w of
       (Inl e, v) \<Rightarrow> (Inl e, v)
     | (Inr (defs, slots), v) \<Rightarrow>
         if filter valid_slot slots = [] then (Inr (results_of slots), v)
         else (case commit hooks t source defs slots (v\<lparr>w_db := other (w_db v)\<rparr>) of
             (Inl e, u) \<Rightarrow> (Inl e, u) | (Inr slots', u) \<Rightarrow> (Inr (results_of slots'), u)))"
  by (simp add: attempt_def bindM_def split: prod.split sum.split)

lemma attempt_rollback:
  assumes "attempt hooks (\<lambda>d. d) t keyId mode items source w = (Inl e, w')"
  shows "w_db w' = w_db w"
proof (cases "prepare t keyId mode items w")
  case (Pair r v)
  have v: "w_db v = w_db w" using keeps_outcome[OF reads_prepare Pair] by (simp add: same_db_def)
  show ?thesis
  proof (cases r)
    case (Inl e')
    then show ?thesis using assms Pair v by (simp add: attempt_eq)
  next
    case (Inr ds)
    obtain defs slots where ds: "ds = (defs, slots)" by (metis surj_pair)
    have "commit hooks t source defs slots v = (Inl e, w')"
      using assms unfolding attempt_eq Pair Inr ds
      by (simp split: if_split_asm prod.split_asm sum.split_asm)
    then show ?thesis using commit_rollback v by metis
  qed
qed

lemma writeLoop_rollback:
  "writeLoop hooks (\<lambda>_ d. d) t keyId mode items source n left w = (Inl e, w') \<Longrightarrow> w_db w' = w_db w"
proof (induction left arbitrary: n w)
  case 0
  then show ?case by (simp add: attempt_rollback)
next
  case (Suc left)
  obtain r v where a: "attempt hooks (\<lambda>d. d) t keyId mode items source w = (r, v)" by (metis surj_pair)
  show ?case
  proof (cases r)
    case (Inl e')
    then have "w_db v = w_db w" using a attempt_rollback by blast
    then show ?thesis using Suc a Inl by (auto simp: catchA_def split: if_splits)
  next
    case (Inr x)
    then show ?thesis using Suc.prems a by (simp add: catchA_def)
  qed
qed

lemma writeContacts_rollback:
  assumes "writeContacts hooks (\<lambda>_ d. d) t keyId mode items source w = (Inl e, w')"
  shows "w_db w' = w_db w"
proof (cases "assertKey t keyId w")
  case (Pair r v)
  have v: "w_db v = w_db w" using keeps_outcome[OF reads_assertKey Pair] by (simp add: same_db_def)
  show ?thesis
  proof (cases r)
    case (Inl e')
    then show ?thesis using assms Pair v by (simp add: writeContacts_def bindM_def)
  next
    case (Inr u)
    then have "writeLoop hooks (\<lambda>_ d. d) t keyId mode items source 1 (ATTEMPTS - 1) v = (Inl e, w')"
      using assms Pair by (auto simp: writeContacts_def bindM_def flush_def split: prod.splits sum.splits)
    then show ?thesis using writeLoop_rollback v by metis
  qed
qed

section \<open>One result per item\<close>

definition slots_done :: "write_mode \<Rightarrow> string \<Rightarrow> object list \<Rightarrow> slot list \<Rightarrow> bool" where
  "slots_done mode keyId items slots \<longleftrightarrow> map slot_sig slots = map slot_sig (keyed keyId items) \<and>
     (\<forall>s \<in> set slots. slot_ok mode keyId s \<and> targeted s)"

lemma prepare_done:
  assumes "prepare t keyId mode items w = (Inr (defs, slots), v)"
  shows "slots_done mode keyId items slots"
proof -
  define ss where "ss = setStage defs keyId (keyed keyId items)"
  have ok: "\<forall>s \<in> set ss. slot_ok mode keyId s"
    unfolding ss_def by (rule setStage_ok) (auto simp: keyed_def dest: keyed_from_ok)
  obtain found w2 ss' w3 where
    "targetStage mode keyId found ss w2 = (Inr ss', w3)" "checkUnique t keyId defs ss' w3 = (Inr slots, v)"
    using assms by (auto simp: prepare_def bindM_Inr Let_def ss_def)
  from targetStage_ok[OF this(1) ok] checkUnique_ok[OF this(2)] show ?thesis
    unfolding slots_done_def by (auto simp: ss_def)
qed

lemma set_changed_sig [simp]: "slot_sig (set_changed ks s) = slot_sig s"
  by (simp add: slot_sig_def set_changed_def)

lemma set_changed_ok: "valid_slot s \<Longrightarrow> slot_ok mode keyId s \<Longrightarrow> targeted s \<Longrightarrow>
    slot_ok mode keyId (set_changed ks s) \<and> targeted (set_changed ks s)"
  by (simp add: slot_ok_def result_ok_def set_changed_def valid_slot_def targeted_def)

lemma mark_done:
  assumes "slots_done mode keyId items slots" "\<And>s. P s \<Longrightarrow> valid_slot s"
  shows "slots_done mode keyId items (map (\<lambda>s. if P s then set_changed (f s) s else s) slots)"
proof -
  have sig: "slot_sig (if P s then set_changed (f s) s else s) = slot_sig s" for s by simp
  show ?thesis
    using assms set_changed_ok unfolding slots_done_def map_map comp_def sig by auto
qed

lemma updateStage_cases:
  assumes "updateStage t source slots w = (Inr (slots', changes), w')"
  shows "\<exists>rows. slots' = map (\<lambda>s. if to_update s then set_changed (chg_changed (update_change source rows s)) s else s) slots \<and>
    changes = filter (\<lambda>c. chg_changed c \<noteq> []) (map (update_change source rows) (filter to_update slots)) \<and>
    (filter to_update slots \<noteq> [] \<longrightarrow> rows = rows_of t (map slot_id (filter to_update slots)) (w_db w) \<and>
       length rows = length (filter to_update slots) \<and> (\<forall>s \<in> set slots. to_update s \<longrightarrow> old_data rows s \<noteq> None)) \<and>
    (\<exists>cs. updateRows t (w_now w) changes (db_contacts (w_db w)) = Some cs \<and> w' = w\<lparr>w_db := (w_db w)\<lparr>db_contacts := cs\<rparr>\<rparr>)"
proof (cases "filter to_update slots = []")
  case True
  then have m: "map (\<lambda>s. if to_update s then set_changed (chg_changed (update_change source [] s)) s else s) slots = slots"
    by (intro map_idI) (auto simp: filter_empty_conv)
  show ?thesis
    using assms True m by (intro exI[of _ "[]"]) (simp add: updateStage_def)
next
  case False
  let ?rows = "rows_of t (map slot_id (filter to_update slots)) (w_db w)"
  let ?changes = "filter (\<lambda>c. chg_changed c \<noteq> []) (map (update_change source ?rows) (filter to_update slots))"
  have len: "length ?rows = length (filter to_update slots)"
    and old: "\<not> list_ex (\<lambda>s. old_data ?rows s = None) (filter to_update slots)"
    using assms False by (auto simp: updateStage_def Let_def split: if_splits)
  have w': "\<exists>cs. updateRows t (w_now w) ?changes (db_contacts (w_db w)) = Some cs \<and> w' = w\<lparr>w_db := (w_db w)\<lparr>db_contacts := cs\<rparr>\<rparr>"
    and r: "slots' = map (\<lambda>s. if to_update s then set_changed (chg_changed (update_change source ?rows s)) s else s) slots"
      "changes = ?changes"
    using assms False len old
    by (auto simp: updateStage_def Let_def split: if_splits option.splits)
  show ?thesis
    using len old w' r by (intro exI[of _ ?rows]) (auto simp: list_ex_iff)
qed

lemma insertStage_cases:
  assumes "insertStage t source slots w = (Inr (slots', changes), w')"
  shows "slots' = map (\<lambda>s. if to_insert s then set_changed (chg_changed (insert_change source s)) s else s) slots \<and>
    changes = map (insert_change source) (filter to_insert slots) \<and>
    (\<exists>cs. insertRows t (w_now w) changes (db_contacts (w_db w)) = (cs, length changes) \<and> w' = w\<lparr>w_db := (w_db w)\<lparr>db_contacts := cs\<rparr>\<rparr>)"
proof (cases "filter to_insert slots = []")
  case True
  then have "map (\<lambda>s. if to_insert s then set_changed (chg_changed (insert_change source s)) s else s) slots = slots"
    by (intro map_idI) (auto simp: filter_empty_conv)
  then show ?thesis using assms True by (simp add: insertStage_def)
next
  case False
  obtain cs k where i: "insertRows t (w_now w) (map (insert_change source) (filter to_insert slots)) (db_contacts (w_db w)) = (cs, k)"
    by (metis surj_pair)
  then have "k = length (filter to_insert slots)"
    using assms False by (auto simp: insertStage_def Let_def split: if_splits)
  then show ?thesis using assms False i by (auto simp: insertStage_def Let_def)
qed

lemma to_update_valid: "to_update s \<Longrightarrow> valid_slot s" and to_insert_valid: "to_insert s \<Longrightarrow> valid_slot s"
  by (simp_all add: to_update_def to_insert_def)

lemma commit_Inr:
  assumes "commit hooks t source defs slots w = (Inr slots', w')"
  shows "\<exists>slots1 upd w1 ins w2 w3 w4. updateStage t source slots w = (Inr (slots1, upd), w1) \<and>
    insertStage t source slots1 w1 = (Inr (slots', ins), w2) \<and>
    syncUniqueValues t defs (upd @ ins) w2 = (Inr (), w3) \<and> runHooks hooks t (upd @ ins) w3 = (Inr (), w4) \<and>
    upserted t (changedMap (upd @ ins)) w4 = (Inr (), w')"
proof -
  obtain u w1 where 1: "updateStage t source slots w = (Inr u, w1)"
    and r1: "(case u of (slots1, upd) \<Rightarrow> bindM (insertStage t source slots1) (\<lambda>(slots2, ins).
       bindM (syncUniqueValues t defs (upd @ ins)) (\<lambda>_. bindM (runHooks hooks t (upd @ ins)) (\<lambda>_.
       bindM (upserted t (changedMap (upd @ ins))) (\<lambda>_. retM slots2))))) w1 = (Inr slots', w')"
    using assms unfolding commit_def transaction_Inr Let_def bindM_Inr[of "updateStage t source slots"] by blast
  obtain slots1 upd where u: "u = (slots1, upd)" by (metis surj_pair)
  obtain v w2 where 2: "insertStage t source slots1 w1 = (Inr v, w2)"
    and r2: "(case v of (slots2, ins) \<Rightarrow> bindM (syncUniqueValues t defs (upd @ ins)) (\<lambda>_. bindM (runHooks hooks t (upd @ ins)) (\<lambda>_.
       bindM (upserted t (changedMap (upd @ ins))) (\<lambda>_. retM slots2)))) w2 = (Inr slots', w')"
    using r1 unfolding u prod.case bindM_Inr[of "insertStage t source slots1"] by blast
  obtain slots2 ins where v: "v = (slots2, ins)" by (metis surj_pair)
  obtain w3 where 3: "syncUniqueValues t defs (upd @ ins) w2 = (Inr (), w3)"
    and r3: "bindM (runHooks hooks t (upd @ ins)) (\<lambda>_. bindM (upserted t (changedMap (upd @ ins))) (\<lambda>_. retM slots2)) w3 = (Inr slots', w')"
    using r2 unfolding v prod.case bindM_Inr[of "syncUniqueValues t defs (upd @ ins)"] by auto
  obtain w4 where 4: "runHooks hooks t (upd @ ins) w3 = (Inr (), w4)"
    and r4: "bindM (upserted t (changedMap (upd @ ins))) (\<lambda>_. retM slots2) w4 = (Inr slots', w')"
    using r3 unfolding bindM_Inr[of "runHooks hooks t (upd @ ins)"] by auto
  have "upserted t (changedMap (upd @ ins)) w4 = (Inr (), w')" "slots' = slots2"
    using r4 by (auto simp: upserted_eq bindM_def)
  with 1 2 3 4 u v show ?thesis by blast
qed

lemma commit_done:
  assumes "commit hooks t source defs slots w = (Inr slots', w')" "slots_done mode keyId items slots"
  shows "slots_done mode keyId items slots'"
proof -
  from commit_Inr[OF assms(1)] obtain slots1 upd w1 ins w2 where
    1: "updateStage t source slots w = (Inr (slots1, upd), w1)" and
    2: "insertStage t source slots1 w1 = (Inr (slots', ins), w2)" by blast
  have "slots_done mode keyId items slots1"
    using updateStage_cases[OF 1] mark_done[OF assms(2), of to_update] to_update_valid by auto
  then show ?thesis
    using insertStage_cases[OF 2] mark_done[of mode keyId items slots1 to_insert] to_insert_valid by auto
qed

lemma attempt_done:
  assumes "attempt hooks other t keyId mode items source w = (Inr rs, w')"
  shows "\<exists>slots. rs = results_of slots \<and> slots_done mode keyId items slots"
proof -
  obtain defs slots v where p: "prepare t keyId mode items w = (Inr (defs, slots), v)"
    using assms by (auto simp: attempt_eq split: sum.splits prod.splits)
  have d: "slots_done mode keyId items slots" by (rule prepare_done[OF p])
  show ?thesis
  proof (cases "filter valid_slot slots = []")
    case True
    then show ?thesis using assms p d by (auto simp: attempt_eq)
  next
    case False
    then obtain slots' where "commit hooks t source defs slots (v\<lparr>w_db := other (w_db v)\<rparr>) = (Inr slots', w')" "rs = results_of slots'"
      using assms p by (auto simp: attempt_eq split: sum.splits prod.splits)
    then show ?thesis using commit_done d by blast
  qed
qed

lemma writeLoop_done:
  "writeLoop hooks others t keyId mode items source n left w = (Inr rs, w') \<Longrightarrow>
    \<exists>slots. rs = results_of slots \<and> slots_done mode keyId items slots"
proof (induction left arbitrary: n w)
  case 0
  then show ?case using attempt_done by simp
next
  case (Suc left)
  obtain r v where a: "attempt hooks (others n) t keyId mode items source w = (r, v)" by (metis surj_pair)
  show ?case
  proof (cases r)
    case (Inl e)
    then show ?thesis using Suc a by (auto simp: catchA_def split: if_splits)
  next
    case (Inr x)
    then show ?thesis using Suc.prems a attempt_done by (fastforce simp: catchA_def)
  qed
qed

lemma writeContacts_done:
  assumes "writeContacts hooks others t keyId mode items source w = (Inr rs, w')"
  shows "\<exists>slots. rs = results_of slots \<and> slots_done mode keyId items slots"
  using assms writeLoop_done unfolding writeContacts_def bindM_Inr by fastforce

definition key_value :: "string \<Rightarrow> object \<Rightarrow> string option" where
  "key_value keyId item = (if itemKey keyId item = [] then None else Some (itemKey keyId item))"

lemma slots_done_results:
  assumes "slots_done mode keyId items slots"
  shows "length slots = length items"
    and "i < length items \<Longrightarrow> ir_index (sl_r (slots ! i)) = i \<and> ir_key (sl_r (slots ! i)) = key_value keyId (items ! i) \<and>
      (ir_error (sl_r (slots ! i)) = None \<longleftrightarrow> ir_id (sl_r (slots ! i)) \<noteq> None) \<and> result_ok mode keyId (sl_r (slots ! i))"
proof -
  have sig: "map slot_sig slots = map slot_sig (keyed keyId items)"
    and ok: "\<forall>s \<in> set slots. slot_ok mode keyId s \<and> targeted s"
    using assms by (simp_all add: slots_done_def)
  show len: "length slots = length items" using arg_cong[OF sig, of length] by simp
  assume i: "i < length items"
  have "slot_sig (slots ! i) = slot_sig (keyed keyId items ! i)"
    using arg_cong[OF sig, of "\<lambda>xs. xs ! i"] len i by simp
  then have "ir_index (sl_r (slots ! i)) = i" "ir_key (sl_r (slots ! i)) = key_value keyId (items ! i)"
    using keyed_sig[OF i, of keyId] by (simp_all add: slot_sig_def key_value_def)
  moreover have "slot_ok mode keyId (slots ! i)" "targeted (slots ! i)" using ok len i by auto
  ultimately show "ir_index (sl_r (slots ! i)) = i \<and> ir_key (sl_r (slots ! i)) = key_value keyId (items ! i) \<and>
      (ir_error (sl_r (slots ! i)) = None \<longleftrightarrow> ir_id (sl_r (slots ! i)) \<noteq> None) \<and> result_ok mode keyId (sl_r (slots ! i))"
    by (auto simp: slot_ok_def targeted_def result_ok_def split: option.splits)
qed

section \<open>Isolation\<close>

lemma foreign_contacts: "filter (\<lambda>r. ct_tenant r \<noteq> t) cs = filter (\<lambda>r. ct_tenant r \<noteq> t) (db_contacts d) \<Longrightarrow>
    foreign t (d\<lparr>db_contacts := cs\<rparr>) = foreign t d"
  by (simp add: foreign_def)

lemma updateRows_foreign: "updateRows t now chs cs = Some cs' \<Longrightarrow>
    filter (\<lambda>r. ct_tenant r \<noteq> t) cs' = filter (\<lambda>r. ct_tenant r \<noteq> t) cs"
proof (induction chs arbitrary: cs)
  case (Cons c chs)
  have "filter (\<lambda>r. ct_tenant r \<noteq> t) (map (write_row t now c) cs) = filter (\<lambda>r. ct_tenant r \<noteq> t) cs"
    by (rule filter_map_other) (auto simp: write_row_def)
  with Cons show ?case by (auto simp: Let_def split: if_splits)
qed simp

lemma insertRows_foreign: "filter (\<lambda>r. ct_tenant r \<noteq> t) (fst (insertRows t now chs cs)) = filter (\<lambda>r. ct_tenant r \<noteq> t) cs"
  by (induction t now chs cs rule: insertRows.induct) (auto simp: Let_def new_contact_def split: prod.splits)

lemma insertUniques_foreign: "\<forall>v \<in> set vs. uv_tenant v = t \<Longrightarrow>
    filter (\<lambda>r. uv_tenant r \<noteq> t) (fst (insertUniques vs us)) = filter (\<lambda>r. uv_tenant r \<noteq> t) us"
  by (induction vs us rule: insertUniques.induct) (auto simp: Let_def split: prod.splits)

lemma keeps_iso_updateStage [keepsI]: "keeps (iso t) (updateStage t source slots)"
proof -
  have "iso t w (snd (updateStage t source slots w))" for w
    by (auto simp: updateStage_def Let_def iso_def foreign_contacts dest: updateRows_foreign split: option.splits)
  then show ?thesis by (simp add: keeps_def)
qed

lemma keeps_iso_insertStage [keepsI]: "keeps (iso t) (insertStage t source slots)"
proof -
  have "iso t w (snd (insertStage t source slots w))" for w
  proof (cases "insertRows t (w_now w) (map (insert_change source) (filter to_insert slots)) (db_contacts (w_db w))")
    case (Pair cs k)
    then have "foreign t ((w_db w)\<lparr>db_contacts := cs\<rparr>) = foreign t (w_db w)"
      using insertRows_foreign[of t "w_now w" "map (insert_change source) (filter to_insert slots)" "db_contacts (w_db w)"]
      by (simp add: foreign_contacts)
    then show ?thesis using Pair by (simp add: insertStage_def Let_def iso_def)
  qed
  then show ?thesis by (simp add: keeps_def)
qed

lemma values_of_tenant: "u \<in> set (values_of t defs c) \<Longrightarrow> uv_tenant u = t"
  by (auto simp: values_of_def split: option.splits)

lemma keeps_iso_syncUniqueValues [keepsI]: "keeps (iso t) (syncUniqueValues t defs changes)"
proof -
  have "iso t w (snd (syncUniqueValues t defs changes w))" for w
  proof -
    let ?vs = "concat (map (values_of t defs) changes)" let ?cl = "concat (map (cleared_of defs) changes)"
    obtain us k where i: "insertUniques ?vs (clearUniques t ?cl (db_uniques (w_db w))) = (us, k)" by (metis surj_pair)
    have "filter (\<lambda>r. uv_tenant r \<noteq> t) us = filter (\<lambda>r. uv_tenant r \<noteq> t) (clearUniques t ?cl (db_uniques (w_db w)))"
      using insertUniques_foreign[of ?vs t "clearUniques t ?cl (db_uniques (w_db w))"] i values_of_tenant by auto
    also have "\<dots> = filter (\<lambda>r. uv_tenant r \<noteq> t) (db_uniques (w_db w))"
      unfolding clearUniques_def by (rule filter_filter_other) simp
    finally show ?thesis using i by (simp add: syncUniqueValues_def Let_def iso_def foreign_def)
  qed
  then show ?thesis by (simp add: keeps_def)
qed

lemma keeps_iso_assertKey [keepsI]: "keeps (iso t) (assertKey u keyId)"
  by (auto simp: assertKey_def intro!: keepsI)

lemma keeps_iso_resolve [keepsI]: "keeps (iso t) (resolve u keyId vs)"
  by (simp add: resolve_def keepsI)

lemma keeps_iso_prepare [keepsI]: "keeps (iso t) (prepare u keyId mode items)"
  using reads_prepare by (auto simp: keeps_def same_db_def iso_def)

lemma keeps_iso_case_prod [keepsI]: "(\<And>a b. keeps (iso t) (f a b)) \<Longrightarrow> keeps (iso t) (case p of (a, b) \<Rightarrow> f a b)"
  by (cases p) simp

lemma keeps_iso_runHooks: "(\<And>h. h \<in> set hooks \<Longrightarrow> keeps (iso t) (h t changes)) \<Longrightarrow> keeps (iso t) (runHooks hooks t changes)"
  unfolding runHooks_def by (induction hooks) (auto intro!: keepsI)

lemma keeps_iso_commit:
  assumes "\<And>h changes. h \<in> set hooks \<Longrightarrow> keeps (iso t) (h t changes)"
  shows "keeps (iso t) (commit hooks t source defs slots)"
  unfolding commit_def Let_def by (intro keepsI keeps_iso_runHooks assms)

lemma keeps_iso_attempt:
  assumes "\<And>h changes. h \<in> set hooks \<Longrightarrow> keeps (iso t) (h t changes)" "foreign_ok t other"
  shows "keeps (iso t) (attempt hooks other t keyId mode items source)"
  unfolding attempt_def
  by (intro keepsI keeps_iso_commit keeps_iso_onDb assms)

lemma keeps_iso_writeLoop:
  assumes "\<And>h changes. h \<in> set hooks \<Longrightarrow> keeps (iso t) (h t changes)" "\<And>n. foreign_ok t (others n)"
  shows "keeps (iso t) (writeLoop hooks others t keyId mode items source n left)"
proof (induction left arbitrary: n)
  case 0
  show ?case unfolding writeLoop.simps by (intro keeps_iso_attempt assms)
next
  case (Suc left)
  show ?case unfolding writeLoop.simps
    by (intro keepsI keeps_iso_attempt Suc.IH assms)
qed

lemma keeps_iso_writeContacts:
  assumes "\<And>h changes. h \<in> set hooks \<Longrightarrow> keeps (iso t) (h t changes)" "\<And>n. foreign_ok t (others n)"
  shows "keeps (iso t) (writeContacts hooks others t keyId mode items source)"
  unfolding writeContacts_def by (intro keepsI keeps_iso_writeLoop assms)

end
