(* ===== verification/Contacts_Write_Rows.thy ===== *)
theory Contacts_Write_Rows
  imports Contacts_Write_Results
begin

text \<open>
  What a committed batch leaves in the tables: the merged and the new contacts, the untouched
  rest, the constraints, \<open>unique_values\<close> in step with the data, and the events of the outbox.
\<close>

section \<open>Field keys\<close>

lemma digits_nat_snoc: "digits_nat (s @ [c]) = 10 * digits_nat s + digit_val c"
  by (simp add: digits_nat_def)

lemma digit_of_val: "digit_char c \<Longrightarrow> digit_of (digit_val c) = c"
  by (simp add: digit_of_def digit_val_def digit_char_def code_def)

lemma digit_val_less: "digit_char c \<Longrightarrow> digit_val c < 10"
  by (auto simp: digit_val_def digit_char_def)

lemma show_nat_snoc: "0 < n \<Longrightarrow> d < 10 \<Longrightarrow> show_nat (10 * n + d) = show_nat n @ [digit_of d]"
  by (subst show_nat.simps) simp

lemma field_key_digits: "is_field_key s \<Longrightarrow> 0 < digits_nat s \<and> show_nat (digits_nat s) = s"
proof (induction s rule: rev_induct)
  case (snoc c s)
  show ?case
  proof (cases "s = []")
    case True
    then have "digit19_char c" using snoc.prems by (simp add: is_field_key_def)
    then have c: "digit_char c" "0 < digit_val c" by (auto simp: digit19_char_def digit_char_def digit_val_def)
    then show ?thesis
      using True digit_val_less[of c] by (simp add: digits_nat_def show_nat.simps digit_of_val)
  next
    case False
    then have s: "is_field_key s" and c: "digit_char c" using snoc.prems by (auto simp: is_field_key_def)
    with snoc.IH have "0 < digits_nat s" "show_nat (digits_nat s) = s" by auto
    then show ?thesis using c digit_val_less[of c]
      by (simp add: digits_nat_snoc show_nat_snoc digit_of_val)
  qed
qed (simp add: is_field_key_def)

lemma digits_int_inj: "is_field_key k \<Longrightarrow> is_field_key l \<Longrightarrow> digits_int k = digits_int l \<longleftrightarrow> k = l"
  using field_key_digits by (auto simp: digits_int_def) metis

lemma show_digits_int: "is_field_key k \<Longrightarrow> show_int (digits_int k) = k"
  using field_key_digits[of k] by (simp add: show_int_def digits_int_def)

section \<open>The values of a slot\<close>

definition value_ok :: "field_def list \<Rightarrow> string \<times> json \<Rightarrow> bool" where
  "value_ok defs kv \<longleftrightarrow> is_field_key (fst kv) \<and> (\<exists>def. field_of defs (digits_int (fst kv)) = Some def \<and> \<not> fd_readOnly def \<and>
     (snd kv = JNull \<or> stored_ok (fd_type def) (choice_ids def) (snd kv)))"

definition set_ok :: "field_def list \<Rightarrow> slot \<Rightarrow> bool" where
  "set_ok defs s \<longleftrightarrow> distinct (map fst (sl_set s)) \<and> (\<forall>kv \<in> set (sl_set s). value_ok defs kv)"

lemma set_alist_put: "x \<in> set (alist_put k v xs) \<Longrightarrow> x = (k, v) \<or> x \<in> set xs"
  by (induction xs) (auto split: if_splits)

lemma setFields_set_ok: "set_ok defs s \<Longrightarrow> set_ok defs (setFields defs keyId kvs s)"
proof (induction defs keyId kvs s rule: setFields.induct)
  case (2 defs keyId k raw kvs s)
  show ?case
  proof (cases "k = ''id'' \<and> keyId = ''id''")
    case True
    then show ?thesis using 2 by simp
  next
    case False
    have fail: "set_ok defs (failS c m g s)" for c m g using 2(3) by (simp add: set_ok_def)
    show ?thesis
    proof (cases "if is_field_key k then field_of defs (digits_int k) else None")
      case None
      then show ?thesis using False fail by simp blast
    next
      case (Some def)
      then have k: "is_field_key k" "field_of defs (digits_int k) = Some def" by (auto split: if_splits)
      show ?thesis
      proof (cases "fd_readOnly def \<or> isl (normalizeValue (fd_type def) (choice_ids def) raw)")
        case True
        then show ?thesis using False Some fail by (auto simp: isl_def split: sum.splits)
      next
        case ok: False
        then obtain v where v: "normalizeValue (fd_type def) (choice_ids def) raw = Inr v"
          by (cases "normalizeValue (fd_type def) (choice_ids def) raw") auto
        have "value_ok defs (k, v)"
          using k ok normalizeValue_stored[OF v] by (auto simp: value_ok_def)
        then have "set_ok defs (s\<lparr>sl_set := alist_put k v (sl_set s)\<rparr>)"
          using 2(3) by (auto simp: set_ok_def dest!: set_alist_put)
        with 2(2)[OF False Some _ v] ok show ?thesis using False Some v by simp blast
      qed
    qed
  qed
qed simp

lemma prepare_set_ok:
  assumes "prepare t keyId mode items w = (Inr (defs, slots), v)"
  shows "\<forall>s \<in> set slots. set_ok defs s"
proof -
  define ss where "ss = setStage defs keyId (keyed keyId items)"
  have ok: "\<forall>s \<in> set ss. slot_ok mode keyId s"
    unfolding ss_def by (rule setStage_ok) (auto simp: keyed_def dest: keyed_from_ok)
  have "set_ok defs s" if "s \<in> set (keyed keyId items)" for s
    using keyed_from_ok that by (fastforce simp: keyed_def set_ok_def)
  then have so: "\<forall>s \<in> set ss. set_ok defs s" by (auto simp: ss_def setStage_def setFields_set_ok)
  obtain found w2 ss' w3 where
    "targetStage mode keyId found ss w2 = (Inr ss', w3)" "checkUnique t keyId defs ss' w3 = (Inr slots, v)"
    using assms by (auto simp: prepare_def bindM_Inr Let_def ss_def)
  from targetStage_ok[OF this(1) ok] checkUnique_ok[OF this(2)] have m: "map sl_set slots = map sl_set ss" by auto
  show ?thesis
  proof
    fix s assume "s \<in> set slots"
    then have "sl_set s \<in> set (map sl_set ss)" using m by (metis image_eqI list.set_map)
    then show "set_ok defs s" using so by (auto simp: set_ok_def)
  qed
qed

section \<open>Merging\<close>

text \<open>The contact a write means: sent keys replace, a sent null removes, the rest stays.\<close>

definition merged :: "(string \<Rightarrow> json option) \<Rightarrow> (string \<Rightarrow> json option) \<Rightarrow> string \<Rightarrow> json option" where
  "merged old vals k = (case vals k of None \<Rightarrow> old k | Some v \<Rightarrow> if v = JNull then None else Some v)"

lemma mergeData_refines:
  "distinct (map fst vals) \<Longrightarrow> map_of (mergeData old vals) = merged (map_of old) (map_of vals)"
proof (induction old vals rule: mergeData.induct)
  case (2 old k v kvs)
  then have nk: "map_of kvs k = None" by (simp add: map_of_eq_None_iff)
  have "map_of (mergeData (if v = JNull then alist_del k old else alist_put k v old) kvs) =
      merged (map_of (if v = JNull then alist_del k old else alist_put k v old)) (map_of kvs)"
    using 2 by simp
  then show ?case
    using nk by (auto simp: merged_def fun_eq_iff split: option.splits)
qed (simp add: merged_def fun_eq_iff)

lemma changedKeys_iff: "k \<in> set (changedKeys old vals) \<longleftrightarrow>
    k \<in> fst ` set vals \<and> map_of old k \<noteq> map_of (mergeData old vals) k"
  by (auto simp: changedKeys_def)

lemma not_changed:
  assumes "distinct (map fst vals)" "k \<notin> set (changedKeys old vals)"
  shows "map_of (mergeData old vals) k = map_of old k"
proof (cases "k \<in> fst ` set vals")
  case False
  then have "map_of vals k = None" by (simp add: map_of_eq_None_iff)
  then show ?thesis using assms(1) by (simp add: mergeData_refines merged_def)
qed (use assms changedKeys_iff in auto)

lemma changedKeys_empty:
  assumes "distinct (map fst vals)" "changedKeys old vals = []"
  shows "merged (map_of old) (map_of vals) = map_of old"
  using not_changed[OF assms(1), of _ old] assms by (auto simp: mergeData_refines fun_eq_iff)

text \<open>Writing the same values again changes nothing.\<close>

lemma changedKeys_again: "distinct (map fst vals) \<Longrightarrow> changedKeys (mergeData old vals) vals = []"
  by (auto simp: changedKeys_def filter_empty_conv mergeData_refines merged_def split: option.splits)

section \<open>The statements\<close>

lemma write_row_keys [simp]: "ct_id (write_row t now c r) = ct_id r" "ct_tenant (write_row t now c r) = ct_tenant r"
  "ct_deletedAt (write_row t now c r) = ct_deletedAt r" "ct_createdAt (write_row t now c r) = ct_createdAt r"
  by (simp_all add: write_row_def)

definition write_rows :: "string \<Rightarrow> int \<Rightarrow> change list \<Rightarrow> contact \<Rightarrow> contact" where
  "write_rows t now chs r = fold (write_row t now) chs r"

lemma write_rows_keys [simp]: "ct_id (write_rows t now chs r) = ct_id r" "ct_tenant (write_rows t now chs r) = ct_tenant r"
  "ct_deletedAt (write_rows t now chs r) = ct_deletedAt r"
  unfolding write_rows_def by (induction chs arbitrary: r) simp_all

lemma live_write_rows [simp]: "live (write_rows t now chs r) = live r"
  by (simp add: live_def)

lemma updateRows_Some: "updateRows t now chs cs = Some cs' \<Longrightarrow> cs' = map (write_rows t now chs) cs \<and>
    (pairwise_clash_free cs \<longrightarrow> pairwise_clash_free cs')"
proof (induction chs arbitrary: cs)
  case (Cons c chs)
  then have "pairwise_clash_free (map (write_row t now c) cs)" "updateRows t now chs (map (write_row t now c) cs) = Some cs'"
    by (auto simp: Let_def split: if_splits)
  with Cons.IH[OF this(2)] have e: "cs' = map (write_rows t now chs) (map (write_row t now c) cs)" "pairwise_clash_free cs'"
    by blast+
  have "map (write_rows t now (c # chs)) cs = cs'" by (simp add: e(1) write_rows_def)
  then show ?case using e(2) by simp
next
  case Nil
  have "write_rows t now [] = (\<lambda>r. r)" by (simp add: write_rows_def fun_eq_iff)
  then show ?case using Nil by simp
qed

lemma write_rows_other: "\<forall>c \<in> set chs. chg_contactId c \<noteq> ct_id r \<Longrightarrow> write_rows t now chs r = r"
  unfolding write_rows_def by (induction chs arbitrary: r) (auto simp: write_row_def)

lemma write_rows_hit:
  assumes "c \<in> set chs" "distinct (map chg_contactId chs)" "ct_id r = chg_contactId c" "ct_tenant r = t"
  shows "write_rows t now chs r = r\<lparr>ct_data := chg_after c, ct_version := ct_version r + 1, ct_updatedAt := now\<rparr>"
  using assms
proof (induction chs arbitrary: r)
  case (Cons a chs)
  show ?case
  proof (cases "a = c")
    case True
    then have "\<forall>d \<in> set chs. chg_contactId d \<noteq> ct_id (write_row t now a r)" using Cons.prems by (auto simp: image_iff)
    then have "write_rows t now chs (write_row t now a r) = write_row t now a r" by (rule write_rows_other)
    then show ?thesis using True Cons.prems by (simp add: write_rows_def write_row_def)
  next
    case False
    then have "chg_contactId a \<noteq> ct_id r" using Cons.prems by auto
    then have "write_row t now a r = r" by (simp add: write_row_def)
    then show ?thesis using Cons False by (simp add: write_rows_def)
  qed
qed simp

lemma insertRows_spec:
  "insertRows t now chs cs = (cs', k) \<Longrightarrow> k \<le> length chs \<and>
    (k = length chs \<longrightarrow> cs' = cs @ map (new_contact t now) chs) \<and> (pairwise_clash_free cs \<longrightarrow> pairwise_clash_free cs')"
proof (induction t now chs cs arbitrary: cs' k rule: insertRows.induct)
  case (2 t now c chs cs)
  show ?case
  proof (cases "list_ex (clash (new_contact t now c)) cs")
    case True
    then show ?thesis using 2(1)[OF refl True] 2(3) by (auto simp: Let_def)
  next
    case False
    then obtain k' where r: "insertRows t now chs (cs @ [new_contact t now c]) = (cs', k')" "k = Suc k'"
      using 2(3) by (auto simp: Let_def split: prod.splits)
    have "pairwise_clash_free cs \<Longrightarrow> pairwise_clash_free (cs @ [new_contact t now c])"
      using False by (auto simp: pairwise_clash_free_append pairwise_clash_free_Cons pairwise_clash_free_Nil list_ex_iff clash_sym)
    then show ?thesis using 2(2)[OF refl False r(1)] r(2) by auto
  qed
qed simp

lemma insertRows_new:
  assumes "insertRows t now chs cs = (cs', length chs)" "c \<in> set chs"
  shows "\<forall>r \<in> set cs. \<not> clash (new_contact t now c) r"
  using assms
proof (induction t now chs cs arbitrary: cs' rule: insertRows.induct)
  case (2 t now a chs cs)
  have n: "\<not> list_ex (clash (new_contact t now a)) cs"
  proof
    assume e: "list_ex (clash (new_contact t now a)) cs"
    then have "insertRows t now chs cs = (cs', length (a # chs))" using 2(3) by (simp add: Let_def)
    then show False using insertRows_spec by fastforce
  qed
  then have r: "insertRows t now chs (cs @ [new_contact t now a]) = (cs', length chs)"
    using 2(3) by (auto simp: Let_def split: prod.splits)
  show ?case
  proof (cases "c = a")
    case True
    then show ?thesis using n by (auto simp: list_ex_iff)
  next
    case False
    then have "c \<in> set chs" using 2(4) by simp
    with 2(2)[OF refl n r] show ?thesis by auto
  qed
qed simp

lemma insertUniques_spec:
  "insertUniques vs us = (us', k) \<Longrightarrow> k \<le> length vs \<and> (k = length vs \<longrightarrow> us' = us @ vs) \<and>
    (distinct (map uv_key us) \<longrightarrow> distinct (map uv_key us'))"
proof (induction vs us arbitrary: us' k rule: insertUniques.induct)
  case (2 v vs us)
  show ?case
  proof (cases "uv_key v \<in> set (map uv_key us)")
    case True
    then show ?thesis using 2(1)[of us' k] 2(3) by auto
  next
    case False
    then obtain k' where r: "insertUniques vs (us @ [v]) = (us', k')" "k = Suc k'"
      using 2(3) by (auto split: prod.splits)
    then show ?thesis using 2(2)[of us' k'] False by auto
  qed
qed simp

section \<open>A committed batch\<close>

text \<open>Hooks write neither contacts nor unique values nor memberships.\<close>

definition same_contacts :: "world \<Rightarrow> world \<Rightarrow> bool" where
  "same_contacts w w' \<longleftrightarrow> db_contacts (w_db w) = db_contacts (w_db w') \<and>
     db_uniques (w_db w) = db_uniques (w_db w') \<and> db_members (w_db w) = db_members (w_db w') \<and>
     (\<exists>rows. db_outbox (w_db w') = db_outbox (w_db w) @ rows \<and> (\<forall>r \<in> set rows. ev_type (ob_envelope r) \<noteq> ''contacts.upserted''))"

interpretation untouched: frame same_contacts
proof unfold_locales
  fix s t u :: world
  show "same_contacts s s" by (simp add: same_contacts_def)
  show "same_contacts s u" if st: "same_contacts s t" and tu: "same_contacts t u"
  proof -
    obtain a where a: "db_outbox (w_db t) = db_outbox (w_db s) @ a" "\<forall>r \<in> set a. ev_type (ob_envelope r) \<noteq> ''contacts.upserted''"
      using st unfolding same_contacts_def by blast
    obtain b where b: "db_outbox (w_db u) = db_outbox (w_db t) @ b" "\<forall>r \<in> set b. ev_type (ob_envelope r) \<noteq> ''contacts.upserted''"
      using tu unfolding same_contacts_def by blast
    have "db_outbox (w_db u) = db_outbox (w_db s) @ a @ b" "\<forall>r \<in> set (a @ b). ev_type (ob_envelope r) \<noteq> ''contacts.upserted''"
      using a b by auto
    then show ?thesis using st tu unfolding same_contacts_def by metis
  qed
qed

definition hooks_ok :: "hook list \<Rightarrow> bool" where
  "hooks_ok hooks \<longleftrightarrow> (\<forall>h \<in> set hooks. \<forall>t. (\<forall>changes. keeps same_contacts (h t changes)) \<and> (\<forall>w. h t [] w = (Inr (), w)))"

lemma runHooks_none: "hooks_ok hooks \<Longrightarrow> runHooks hooks t [] w = (Inr (), w)"
  unfolding runHooks_def hooks_ok_def by (induction hooks) simp_all

lemma runHooks_same: "hooks_ok hooks \<Longrightarrow> keeps same_contacts (runHooks hooks t changes)"
  unfolding runHooks_def hooks_ok_def by (induction hooks) (auto intro!: keepsI)

lemma syncUniqueValues_Inr:
  assumes "syncUniqueValues t defs changes w = (Inr (), w')"
  shows "w' = w\<lparr>w_db := (w_db w)\<lparr>db_uniques := clearUniques t (concat (map (cleared_of defs) changes)) (db_uniques (w_db w)) @
    concat (map (values_of t defs) changes)\<rparr>\<rparr> \<and>
    (distinct (map uv_key (db_uniques (w_db w))) \<longrightarrow> distinct (map uv_key (db_uniques (w_db w'))))"
proof -
  let ?cl = "clearUniques t (concat (map (cleared_of defs) changes)) (db_uniques (w_db w))"
  let ?vs = "concat (map (values_of t defs) changes)"
  obtain us k where i: "insertUniques ?vs ?cl = (us, k)" by (metis surj_pair)
  then have "k = length ?vs" "w' = w\<lparr>w_db := (w_db w)\<lparr>db_uniques := us\<rparr>\<rparr>"
    using assms by (auto simp: syncUniqueValues_def Let_def split: if_splits)
  moreover have "distinct (map uv_key (db_uniques (w_db w))) \<Longrightarrow> distinct (map uv_key ?cl)"
    unfolding clearUniques_def by (rule distinct_map_filter)
  moreover have e: "us = ?cl @ ?vs"
    using conjunct1[OF conjunct2[OF insertUniques_spec[OF i]]] calculation(1) by blast
  moreover have d: "distinct (map uv_key ?cl) \<longrightarrow> distinct (map uv_key us)"
    using conjunct2[OF conjunct2[OF insertUniques_spec[OF i]]] .
  ultimately show ?thesis unfolding e[symmetric] by simp
qed

text \<open>The batch's updates and inserts, as the tables see them.\<close>

record batch =
  bt_rows :: "contact list"
  bt_upd :: "change list"
  bt_ins :: "change list"

definition committed :: "string \<Rightarrow> string \<Rightarrow> field_def list \<Rightarrow> slot list \<Rightarrow> world \<Rightarrow> slot list \<Rightarrow> world \<Rightarrow> batch \<Rightarrow> bool" where
  "committed t source defs slots w slots' w' b \<longleftrightarrow>
     bt_upd b = filter (\<lambda>c. chg_changed c \<noteq> []) (map (update_change source (bt_rows b)) (filter to_update slots)) \<and>
     bt_ins b = map (insert_change source) (filter to_insert slots) \<and>
     slots' = map (\<lambda>s. if to_update s then set_changed (chg_changed (update_change source (bt_rows b) s)) s
        else if to_insert s then set_changed (chg_changed (insert_change source s)) s else s) slots \<and>
     (filter to_update slots \<noteq> [] \<longrightarrow> bt_rows b = rows_of t (map slot_id (filter to_update slots)) (w_db w) \<and>
        length (bt_rows b) = length (filter to_update slots) \<and> (\<forall>s \<in> set slots. to_update s \<longrightarrow> old_data (bt_rows b) s \<noteq> None)) \<and>
     db_contacts (w_db w') = map (write_rows t (w_now w) (bt_upd b)) (db_contacts (w_db w)) @ map (new_contact t (w_now w)) (bt_ins b) \<and>
     db_uniques (w_db w') = clearUniques t (concat (map (cleared_of defs) (bt_upd b @ bt_ins b))) (db_uniques (w_db w)) @
        concat (map (values_of t defs) (bt_upd b @ bt_ins b)) \<and>
     (\<forall>c \<in> set (bt_ins b). \<forall>r \<in> set (db_contacts (w_db w)). chg_contactId c \<noteq> ct_id r)"

lemma set_changed_filters [simp]:
  "to_insert (set_changed ks s) = to_insert s" "to_update (set_changed ks s) = to_update s"
  "insert_change source (set_changed ks s) = insert_change source s"
  "slot_id (set_changed ks s) = slot_id s" "sl_set (set_changed ks s) = sl_set s"
  by (simp_all add: to_insert_def to_update_def valid_slot_def set_changed_def insert_change_def slot_id_def Let_def)

lemma update_insert_disjoint: "to_update s \<Longrightarrow> \<not> to_insert s"
  by (simp add: to_update_def to_insert_def)

lemma filter_insert_marked:
  "filter to_insert (map (\<lambda>s. if to_update s then set_changed (f s) s else s) slots) = filter to_insert slots"
  by (induction slots) (auto dest: update_insert_disjoint)

lemma commit_committed:
  assumes "commit hooks t source defs slots w = (Inr slots', w')" "constraints (w_db w)" "hooks_ok hooks"
  shows "(\<exists>b w3 w4. committed t source defs slots w slots' w' b \<and> db_outbox (w_db w3) = db_outbox (w_db w) \<and>
    db_consents (w_db w3) = db_consents (w_db w) \<and> runHooks hooks t (bt_upd b @ bt_ins b) w3 = (Inr (), w4) \<and> upserted t (changedMap (bt_upd b @ bt_ins b)) w4 = (Inr (), w')) \<and>
    constraints (w_db w')"
proof -
  from commit_Inr[OF assms(1)] obtain slots1 upd w1 ins w2 w3 w4 where
    u: "updateStage t source slots w = (Inr (slots1, upd), w1)" and
    i: "insertStage t source slots1 w1 = (Inr (slots', ins), w2)" and
    y: "syncUniqueValues t defs (upd @ ins) w2 = (Inr (), w3)" and
    h: "runHooks hooks t (upd @ ins) w3 = (Inr (), w4)" and
    o': "upserted t (changedMap (upd @ ins)) w4 = (Inr (), w')" by blast
  from updateStage_cases[OF u] obtain rows cs1 where
    U: "slots1 = map (\<lambda>s. if to_update s then set_changed (chg_changed (update_change source rows s)) s else s) slots"
      "upd = filter (\<lambda>c. chg_changed c \<noteq> []) (map (update_change source rows) (filter to_update slots))"
      "filter to_update slots \<noteq> [] \<longrightarrow> rows = rows_of t (map slot_id (filter to_update slots)) (w_db w) \<and>
       length rows = length (filter to_update slots) \<and> (\<forall>s \<in> set slots. to_update s \<longrightarrow> old_data rows s \<noteq> None)"
      "updateRows t (w_now w) upd (db_contacts (w_db w)) = Some cs1"
      "w1 = w\<lparr>w_db := (w_db w)\<lparr>db_contacts := cs1\<rparr>\<rparr>" by blast
  from insertStage_cases[OF i] obtain cs2 where
    I: "slots' = map (\<lambda>s. if to_insert s then set_changed (chg_changed (insert_change source s)) s else s) slots1"
      "ins = map (insert_change source) (filter to_insert slots1)"
      "insertRows t (w_now w1) ins (db_contacts (w_db w1)) = (cs2, length ins)"
      "w2 = w1\<lparr>w_db := (w_db w1)\<lparr>db_contacts := cs2\<rparr>\<rparr>" by blast
  have cs1: "cs1 = map (write_rows t (w_now w) upd) (db_contacts (w_db w))" "pairwise_clash_free cs1"
    using updateRows_Some[OF U(4)] assms(2) by (auto simp: constraints_def)
  have I3: "insertRows t (w_now w) ins cs1 = (cs2, length ins)" using I(3) U(5) by simp
  have cs2: "cs2 = cs1 @ map (new_contact t (w_now w)) ins" "pairwise_clash_free cs2"
    using insertRows_spec[OF I3] cs1(2) by auto
  have ids: "\<forall>c \<in> set ins. \<forall>r \<in> set (db_contacts (w_db w)). chg_contactId c \<noteq> ct_id r"
    using insertRows_new[OF I3] unfolding cs1(1) by (auto simp: clash_def new_contact_def)
  note Y = syncUniqueValues_Inr[OF y]
  have "same_contacts w3 w4" using keeps_outcome[OF runHooks_same[OF assms(3)] h] .
  then have D: "db_contacts (w_db w') = cs2" "db_uniques (w_db w') = db_uniques (w_db w3)"
    using Y I(4) o' by (auto simp: same_contacts_def upserted_eq)
  have "db_uniques (w_db w2) = db_uniques (w_db w)" using I(4) U(5) by simp
  then have K: "distinct (map uv_key (db_uniques (w_db w')))"
    using conjunct2[OF Y] assms(2) unfolding constraints_def D(2) by simp
  have S: "slots' = map (\<lambda>s. if to_update s then set_changed (chg_changed (update_change source rows s)) s
        else if to_insert s then set_changed (chg_changed (insert_change source s)) s else s) slots"
    unfolding I(1) U(1) by (auto dest: update_insert_disjoint)
  have ins: "ins = map (insert_change source) (filter to_insert slots)"
    unfolding I(2) U(1) filter_insert_marked ..
  have "db_uniques (w_db w') = clearUniques t (concat (map (cleared_of defs) (upd @ ins))) (db_uniques (w_db w)) @
        concat (map (values_of t defs) (upd @ ins))"
    using Y D(2) I(4) U(5) by simp
  moreover have D1: "db_contacts (w_db w') = map (write_rows t (w_now w) upd) (db_contacts (w_db w)) @ map (new_contact t (w_now w)) ins"
    by (simp only: D(1) cs2(1) cs1(1))
  ultimately have com: "committed t source defs slots w slots' w' \<lparr>bt_rows = rows, bt_upd = upd, bt_ins = ins\<rparr>"
    unfolding committed_def batch.simps using U(2,3) ins S D1 ids by blast
  have "db_outbox (w_db w3) = db_outbox (w_db w)" "db_consents (w_db w3) = db_consents (w_db w)" using Y I(4) U(5) by simp_all
  with com h o' have "\<exists>b w3 w4. committed t source defs slots w slots' w' b \<and> db_outbox (w_db w3) = db_outbox (w_db w) \<and>
    db_consents (w_db w3) = db_consents (w_db w) \<and> runHooks hooks t (bt_upd b @ bt_ins b) w3 = (Inr (), w4) \<and> upserted t (changedMap (bt_upd b @ bt_ins b)) w4 = (Inr (), w')"
    by (intro exI[of _ "\<lparr>bt_rows = rows, bt_upd = upd, bt_ins = ins\<rparr>"] exI[of _ w3] exI[of _ w4]) simp
  then show ?thesis using K D(1) cs2(2) by (auto simp: constraints_def)
qed

lemma distinct_live_ids:
  assumes "pairwise_clash_free cs"
  shows "distinct (map ct_id cs)"
  using assms by (induction cs) (auto simp: pairwise_clash_free_Cons clash_def)

lemma rows_of_distinct:
  assumes "constraints d" "length (rows_of t is d) = length is"
  shows "distinct is"
proof -
  have "distinct (map ct_id (rows_of t is d))"
    using assms(1) by (intro distinct_live_ids) (simp add: rows_of_def live_contacts_def constraints_def pairwise_clash_free_filter)
  then have "length (rows_of t is d) = card (ct_id ` set (rows_of t is d))"
    using distinct_card by fastforce
  also have "\<dots> \<le> card (set is)" by (intro card_mono) (auto simp: rows_of_def)
  finally show ?thesis using assms(2) card_length[of "is"] by (intro card_distinct) simp
qed

lemma committed_update:
  assumes "committed t source defs slots w slots' w' b" "constraints (w_db w)" "s \<in> set slots" "to_update s"
  shows "\<exists>c \<in> set (live_contacts t (w_db w)). ct_id c = slot_id s \<and> old_data (bt_rows b) s = Some (ct_data c)"
proof -
  have "filter to_update slots \<noteq> []" using assms(3,4) by (auto simp: filter_empty_conv)
  then have r: "bt_rows b = rows_of t (map slot_id (filter to_update slots)) (w_db w)" "old_data (bt_rows b) s \<noteq> None"
    using assms(1,3,4) by (auto simp: committed_def)
  then obtain c where c: "find (\<lambda>c. ct_id c = slot_id s) (bt_rows b) = Some c" "old_data (bt_rows b) s = Some (ct_data c)"
    by (auto simp: old_data_def)
  from find_Some_set[OF c(1)] r(1) have "c \<in> set (live_contacts t (w_db w))" "ct_id c = slot_id s"
    by (auto simp: rows_of_def)
  with c(2) show ?thesis by blast
qed

lemma committed_distinct:
  assumes "committed t source defs slots w slots' w' b" "constraints (w_db w)"
  shows "distinct (map slot_id (filter to_update slots))"
proof (cases "filter to_update slots = []")
  case False
  then have "length (rows_of t (map slot_id (filter to_update slots)) (w_db w)) = length (map slot_id (filter to_update slots))"
    using assms(1) by (auto simp: committed_def)
  then show ?thesis using rows_of_distinct[OF assms(2)] by blast
qed simp

lemma update_change_simps:
  "old_data rows s = Some old \<Longrightarrow> update_change source rows s = \<lparr>chg_contactId = slot_id s, chg_created = False,
     chg_before = old, chg_after = mergeData old (sl_set s), chg_changed = changedKeys old (sl_set s), chg_source = source\<rparr>"
  by (simp add: update_change_def)

lemma chg_id_update [simp]: "chg_contactId (update_change source rows s) = slot_id s"
  by (simp add: update_change_def Let_def)

lemma chg_id_insert [simp]: "chg_contactId (insert_change source s) = slot_id s"
  by (simp add: insert_change_def Let_def)

lemma committed_upd_distinct:
  assumes "committed t source defs slots w slots' w' b" "constraints (w_db w)"
  shows "distinct (map chg_contactId (bt_upd b))"
proof -
  have e: "map chg_contactId (map (update_change source (bt_rows b)) (filter to_update slots)) = map slot_id (filter to_update slots)"
    by simp
  have upd: "bt_upd b = filter (\<lambda>c. chg_changed c \<noteq> []) (map (update_change source (bt_rows b)) (filter to_update slots))"
    using assms(1) by (simp add: committed_def)
  have "distinct (map chg_contactId (map (update_change source (bt_rows b)) (filter to_update slots)))"
    unfolding e by (rule committed_distinct[OF assms])
  then show ?thesis unfolding upd by (rule distinct_map_filter)
qed

lemma slot_change_unique:
  assumes "distinct (map slot_id ss)" "s \<in> set ss" "s' \<in> set ss" "slot_id s = slot_id s'"
  shows "s = s'"
  using assms by (auto dest: inj_onD distinct_map[THEN iffD1, THEN conjunct2])

text \<open>The row of an updated item: merged data, and a version bump only when something changed.\<close>

lemma committed_update_row:
  assumes b: "committed t source defs slots w slots' w' b" and d: "constraints (w_db w)"
    and s: "s \<in> set slots" "to_update s" "distinct (map fst (sl_set s))"
  shows "\<exists>c \<in> set (live_contacts t (w_db w)). \<exists>c' \<in> set (live_contacts t (w_db w')). ct_id c = slot_id s \<and> ct_id c' = slot_id s \<and>
    map_of (ct_data c') = merged (map_of (ct_data c)) (map_of (sl_set s)) \<and>
    chg_changed (update_change source (bt_rows b) s) = changedKeys (ct_data c) (sl_set s) \<and>
    (if changedKeys (ct_data c) (sl_set s) = [] then c' = c
     else ct_data c' = mergeData (ct_data c) (sl_set s) \<and> ct_version c' = ct_version c + 1 \<and> ct_updatedAt c' = w_now w)"
proof -
  let ?chs = "bt_upd b"
  obtain c where c: "c \<in> set (live_contacts t (w_db w))" "ct_id c = slot_id s" "old_data (bt_rows b) s = Some (ct_data c)"
    using committed_update[OF b d s(1,2)] by blast
  let ?ch = "update_change source (bt_rows b) s"
  have ch: "chg_changed ?ch = changedKeys (ct_data c) (sl_set s)" "chg_after ?ch = mergeData (ct_data c) (sl_set s)"
    using update_change_simps[OF c(3)] by simp_all
  let ?c' = "write_rows t (w_now w) ?chs c"
  have mem: "?c' \<in> set (live_contacts t (w_db w'))"
    using b c(1) by (auto simp: committed_def live_contacts_set)
  have upd: "?chs = filter (\<lambda>c. chg_changed c \<noteq> []) (map (update_change source (bt_rows b)) (filter to_update slots))"
    using b by (simp add: committed_def)
  show ?thesis
  proof (cases "changedKeys (ct_data c) (sl_set s) = []")
    case True
    have "chg_contactId x \<noteq> ct_id c" if "x \<in> set ?chs" for x
    proof
      assume x: "chg_contactId x = ct_id c"
      from that upd obtain s' where s': "s' \<in> set (filter to_update slots)" "x = update_change source (bt_rows b) s'" "chg_changed x \<noteq> []"
        by auto
      have "s' = s" using slot_change_unique[OF committed_distinct[OF b d] s'(1), of s] s(1,2) s'(2) x c(2) by simp
      then show False using s' ch True by simp
    qed
    then have "?c' = c" by (intro write_rows_other) blast
    then show ?thesis using True c ch mem changedKeys_empty[OF s(3) True] by metis
  next
    case False
    then have "?ch \<in> set ?chs" using ch upd s(1,2) by auto
    then have "?c' = c\<lparr>ct_data := chg_after ?ch, ct_version := ct_version c + 1, ct_updatedAt := w_now w\<rparr>"
      using write_rows_hit[of ?ch ?chs c t] committed_upd_distinct[OF b d] c(1,2) by (simp add: live_contacts_set)
    then show ?thesis using False c ch mem mergeData_refines[OF s(3)] by (intro bexI[OF _ c(1)] bexI[OF _ mem]) simp
  qed
qed

text \<open>The row of a created item.\<close>

lemma committed_insert_row:
  assumes "committed t source defs slots w slots' w' b" "s \<in> set slots" "to_insert s"
  shows "new_contact t (w_now w) (insert_change source s) \<in> set (live_contacts t (w_db w'))"
  using assms by (auto simp: committed_def live_contacts_set new_contact_def live_def)

lemma insert_data: "ct_data (new_contact t now (insert_change source s)) = filter (\<lambda>kv. snd kv \<noteq> JNull) (sl_set s)"
  by (simp add: new_contact_def insert_change_def Let_def)

text \<open>Every other row stays, and no other row appears.\<close>

lemma committed_others:
  assumes "committed t source defs slots w slots' w' b"
  shows "\<forall>c \<in> set (db_contacts (w_db w)). (\<forall>s \<in> set slots. valid_slot s \<longrightarrow> slot_id s \<noteq> ct_id c) \<longrightarrow> c \<in> set (db_contacts (w_db w'))"
    and "\<forall>c \<in> set (db_contacts (w_db w')). (\<forall>s \<in> set slots. valid_slot s \<longrightarrow> slot_id s \<noteq> ct_id c) \<longrightarrow> c \<in> set (db_contacts (w_db w))"
proof -
  have other: "write_rows t (w_now w) (bt_upd b) c = c"
    if "\<forall>s \<in> set slots. valid_slot s \<longrightarrow> slot_id s \<noteq> ct_id c" for c
    using assms that by (intro write_rows_other) (auto simp: committed_def to_update_def)
  have D: "db_contacts (w_db w') = map (write_rows t (w_now w) (bt_upd b)) (db_contacts (w_db w)) @ map (new_contact t (w_now w)) (bt_ins b)"
    using assms by (simp add: committed_def)
  show "\<forall>c \<in> set (db_contacts (w_db w)). (\<forall>s \<in> set slots. valid_slot s \<longrightarrow> slot_id s \<noteq> ct_id c) \<longrightarrow> c \<in> set (db_contacts (w_db w'))"
  proof (intro ballI impI)
    fix c assume c: "c \<in> set (db_contacts (w_db w))" "\<forall>s \<in> set slots. valid_slot s \<longrightarrow> slot_id s \<noteq> ct_id c"
    then have "c \<in> write_rows t (w_now w) (bt_upd b) ` set (db_contacts (w_db w))"
      using other[OF c(2)] by (metis imageI)
    then show "c \<in> set (db_contacts (w_db w'))" unfolding D by simp
  qed
  show "\<forall>c \<in> set (db_contacts (w_db w')). (\<forall>s \<in> set slots. valid_slot s \<longrightarrow> slot_id s \<noteq> ct_id c) \<longrightarrow> c \<in> set (db_contacts (w_db w))"
  proof (intro ballI impI)
    fix c assume c: "c \<in> set (db_contacts (w_db w'))" "\<forall>s \<in> set slots. valid_slot s \<longrightarrow> slot_id s \<noteq> ct_id c"
    from c(1) D consider r where "r \<in> set (db_contacts (w_db w))" "c = write_rows t (w_now w) (bt_upd b) r"
      | ch where "ch \<in> set (bt_ins b)" "c = new_contact t (w_now w) ch" by auto
    then show "c \<in> set (db_contacts (w_db w))"
    proof cases
      case 1
      then show ?thesis using other[of r] c(2) by simp
    next
      case 2
      then have "\<exists>s \<in> set slots. valid_slot s \<and> slot_id s = ct_id c"
        using assms by (auto simp: committed_def to_insert_def new_contact_def)
      then show ?thesis using c(2) by blast
    qed
  qed
qed

section \<open>\<open>unique_values\<close> in step\<close>

text \<open>A custom unique field's rows are exactly the non-blank values of the live contacts.\<close>

definition in_step :: "string \<Rightarrow> field_def list \<Rightarrow> db \<Rightarrow> bool" where
  "in_step t defs d \<longleftrightarrow> (\<forall>k v i. is_field_key k \<longrightarrow> is_custom_unique defs k \<longrightarrow>
     (\<lparr>uv_tenant = t, uv_field = digits_int k, uv_value = v, uv_contact = i\<rparr> \<in> set (db_uniques d) \<longleftrightarrow>
      (\<exists>c \<in> set (live_contacts t d). ct_id c = i \<and> uniqueText (ct_data c) k = Some v)))"

lemma uniqueText_cong: "map_of a k = map_of b k \<Longrightarrow> uniqueText a k = uniqueText b k"
  by (simp add: uniqueText_def)

definition keys_ok :: "change \<Rightarrow> bool" where
  "keys_ok c \<longleftrightarrow> (\<forall>k \<in> set (chg_changed c). is_field_key k)"

lemma cleared_iff:
  assumes "keys_ok c" "is_field_key k" "is_custom_unique defs k"
  shows "(i, digits_int k) \<in> set (cleared_of defs c) \<longleftrightarrow> i = chg_contactId c \<and> k \<in> set (chg_changed c)"
  using assms by (auto simp: cleared_of_def keys_ok_def digits_int_inj)

lemma values_iff:
  assumes "keys_ok c" "is_field_key k" "is_custom_unique defs k"
  shows "\<lparr>uv_tenant = t, uv_field = digits_int k, uv_value = v, uv_contact = i\<rparr> \<in> set (values_of t defs c) \<longleftrightarrow>
    i = chg_contactId c \<and> k \<in> set (chg_changed c) \<and> uniqueText (chg_after c) k = Some v"
  using assms by (auto simp: values_of_def keys_ok_def digits_int_inj split: option.splits)

lemma committed_live:
  assumes "committed t source defs slots w slots' w' b"
  shows "c' \<in> set (live_contacts t (w_db w')) \<longleftrightarrow>
    (\<exists>c \<in> set (live_contacts t (w_db w)). c' = write_rows t (w_now w) (bt_upd b) c) \<or> (\<exists>n \<in> set (bt_ins b). c' = new_contact t (w_now w) n)"
proof -
  have "db_contacts (w_db w') = map (write_rows t (w_now w) (bt_upd b)) (db_contacts (w_db w)) @ map (new_contact t (w_now w)) (bt_ins b)"
    using assms by (simp add: committed_def)
  then have "c' \<in> set (live_contacts t (w_db w')) \<longleftrightarrow>
      ((\<exists>c \<in> set (db_contacts (w_db w)). c' = write_rows t (w_now w) (bt_upd b) c) \<or> (\<exists>n \<in> set (bt_ins b). c' = new_contact t (w_now w) n)) \<and>
      ct_tenant c' = t \<and> live c'"
    unfolding live_contacts_set by (simp add: image_iff)
  moreover have "ct_tenant c' = t \<and> live c'" if "c' = new_contact t (w_now w) n" for n
    using that by (simp add: new_contact_def live_def)
  moreover have "(\<exists>c \<in> set (db_contacts (w_db w)). c' = write_rows t (w_now w) (bt_upd b) c) \<and> ct_tenant c' = t \<and> live c' \<longleftrightarrow>
      (\<exists>c \<in> set (live_contacts t (w_db w)). c' = write_rows t (w_now w) (bt_upd b) c)"
    unfolding live_contacts_set Bex_def
    using write_rows_keys(2)[of t "w_now w" "bt_upd b"] live_write_rows[of t "w_now w" "bt_upd b"] by metis
  ultimately show ?thesis by blast
qed

lemma committed_changes:
  assumes b: "committed t source defs slots w slots' w' b" and d: "constraints (w_db w)"
    and so: "\<forall>s \<in> set slots. set_ok defs s"
  shows "u \<in> set (bt_upd b) \<Longrightarrow> keys_ok u \<and> (\<exists>c \<in> set (live_contacts t (w_db w)). ct_id c = chg_contactId u \<and>
      (\<forall>k. k \<notin> set (chg_changed u) \<longrightarrow> map_of (chg_after u) k = map_of (ct_data c) k))"
    and "n \<in> set (bt_ins b) \<Longrightarrow> keys_ok n \<and> (\<forall>k. k \<notin> set (chg_changed n) \<longrightarrow> map_of (chg_after n) k = None)"
proof -
  assume "u \<in> set (bt_upd b)"
  then obtain s where s: "s \<in> set slots" "to_update s" "u = update_change source (bt_rows b) s"
    using b by (auto simp: committed_def)
  obtain c where c: "c \<in> set (live_contacts t (w_db w))" "ct_id c = slot_id s" "old_data (bt_rows b) s = Some (ct_data c)"
    using committed_update[OF b d s(1,2)] by blast
  have o': "distinct (map fst (sl_set s))" "\<forall>kv \<in> set (sl_set s). value_ok defs kv" using so s(1) by (auto simp: set_ok_def)
  have "keys_ok u"
    using o'(2) s(3) update_change_simps[OF c(3)] by (auto simp: keys_ok_def changedKeys_iff value_ok_def)
  then show "keys_ok u \<and> (\<exists>c \<in> set (live_contacts t (w_db w)). ct_id c = chg_contactId u \<and>
      (\<forall>k. k \<notin> set (chg_changed u) \<longrightarrow> map_of (chg_after u) k = map_of (ct_data c) k))"
    using c s(3) update_change_simps[OF c(3)] not_changed[OF o'(1)] by (auto intro!: bexI[OF _ c(1)])
next
  assume "n \<in> set (bt_ins b)"
  then obtain s where s: "s \<in> set slots" "n = insert_change source s"
    using b by (auto simp: committed_def)
  then have "\<forall>kv \<in> set (sl_set s). value_ok defs kv" using so by (auto simp: set_ok_def)
  then show "keys_ok n \<and> (\<forall>k. k \<notin> set (chg_changed n) \<longrightarrow> map_of (chg_after n) k = None)"
    using s by (auto simp: insert_change_def Let_def keys_ok_def value_ok_def map_of_eq_None_iff)
qed

lemma committed_ids_distinct:
  assumes "committed t source defs slots w slots' w' b" "constraints (w_db w)" "constraints (w_db w')"
  shows "distinct (map chg_contactId (bt_upd b @ bt_ins b))"
    and "\<forall>n \<in> set (bt_ins b). \<forall>c \<in> set (live_contacts t (w_db w)). ct_id c \<noteq> chg_contactId n"
proof -
  have D: "db_contacts (w_db w') = map (write_rows t (w_now w) (bt_upd b)) (db_contacts (w_db w)) @ map (new_contact t (w_now w)) (bt_ins b)"
    and new: "\<forall>c \<in> set (bt_ins b). \<forall>r \<in> set (db_contacts (w_db w)). chg_contactId c \<noteq> ct_id r"
    using assms(1) by (auto simp: committed_def)
  have "pairwise_clash_free (map (new_contact t (w_now w)) (bt_ins b))"
    using assms(3) unfolding constraints_def D by (simp add: pairwise_clash_free_append)
  from distinct_live_ids[OF this] have di: "distinct (map chg_contactId (bt_ins b))"
    by (simp add: comp_def new_contact_def)
  show no: "\<forall>n \<in> set (bt_ins b). \<forall>c \<in> set (live_contacts t (w_db w)). ct_id c \<noteq> chg_contactId n"
  proof (intro ballI notI)
    fix n c assume "n \<in> set (bt_ins b)" "c \<in> set (live_contacts t (w_db w))" "ct_id c = chg_contactId n"
    then show False using new by (force simp: live_contacts_set)
  qed
  have "chg_contactId u \<noteq> chg_contactId n" if "u \<in> set (bt_upd b)" "n \<in> set (bt_ins b)" for u n
  proof -
    obtain s where "s \<in> set slots" "to_update s" "u = update_change source (bt_rows b) s"
      using assms(1) \<open>u \<in> set (bt_upd b)\<close> by (auto simp: committed_def)
    then obtain c where "c \<in> set (live_contacts t (w_db w))" "ct_id c = chg_contactId u"
      using committed_update[OF assms(1,2)] by auto
    then show ?thesis using no that(2) by metis
  qed
  then show "distinct (map chg_contactId (bt_upd b @ bt_ins b))"
    using committed_upd_distinct[OF assms(1,2)] di by auto
qed

lemma change_unique:
  assumes "distinct (map chg_contactId chs)" "c \<in> set chs" "c' \<in> set chs" "chg_contactId c = chg_contactId c'"
  shows "c = c'"
  using assms by (auto dest: inj_onD distinct_map[THEN iffD1, THEN conjunct2])

lemma only_live:
  assumes "constraints d" "c \<in> set (live_contacts t d)" "ct_id c = i" "ct_data c = x"
  shows "(\<exists>c \<in> set (live_contacts t d). ct_id c = i \<and> uniqueText (ct_data c) k = Some v) \<longleftrightarrow> uniqueText x k = Some v"
proof
  assume "\<exists>c \<in> set (live_contacts t d). ct_id c = i \<and> uniqueText (ct_data c) k = Some v"
  then obtain y where y: "y \<in> set (live_contacts t d)" "ct_id y = i" "uniqueText (ct_data y) k = Some v" by blast
  have "y = c" using live_contacts_id[OF assms(1) y(1) assms(2)] y(2) assms(3) by simp
  then show "uniqueText x k = Some v" using y(3) assms(4) by simp
qed (use assms in blast)

lemma committed_in_step:
  assumes b: "committed t source defs slots w slots' w' b" and d: "constraints (w_db w)" "constraints (w_db w')"
    and so: "\<forall>s \<in> set slots. set_ok defs s" and st: "in_step t defs (w_db w)"
  shows "in_step t defs (w_db w')"
  unfolding in_step_def
proof (intro allI impI)
  fix k v i assume k: "is_field_key k" "is_custom_unique defs k"
  let ?chs = "bt_upd b @ bt_ins b"
  let ?row = "\<lparr>uv_tenant = t, uv_field = digits_int k, uv_value = v, uv_contact = i\<rparr>"
  have keys: "\<forall>c \<in> set ?chs. keys_ok c" using committed_changes[OF b d(1) so] by auto
  have U: "db_uniques (w_db w') = clearUniques t (concat (map (cleared_of defs) ?chs)) (db_uniques (w_db w)) @ concat (map (values_of t defs) ?chs)"
    using b by (simp add: committed_def)
  have row': "?row \<in> set (db_uniques (w_db w')) \<longleftrightarrow>
      (?row \<in> set (db_uniques (w_db w)) \<and> \<not> (\<exists>c \<in> set ?chs. i = chg_contactId c \<and> k \<in> set (chg_changed c))) \<or>
      (\<exists>c \<in> set ?chs. i = chg_contactId c \<and> k \<in> set (chg_changed c) \<and> uniqueText (chg_after c) k = Some v)"
  proof -
    have "?row \<in> set (clearUniques t (concat (map (cleared_of defs) ?chs)) (db_uniques (w_db w))) \<longleftrightarrow>
        ?row \<in> set (db_uniques (w_db w)) \<and> \<not> (\<exists>c \<in> set ?chs. (i, digits_int k) \<in> set (cleared_of defs c))"
      by (auto simp: clearUniques_def)
    moreover have "?row \<in> set (concat (map (values_of t defs) ?chs)) \<longleftrightarrow> (\<exists>c \<in> set ?chs. ?row \<in> set (values_of t defs c))"
      by auto
    ultimately show ?thesis
      unfolding U using keys cleared_iff[OF _ k] values_iff[OF _ k] by simp
  qed
  have row: "?row \<in> set (db_uniques (w_db w)) \<longleftrightarrow> (\<exists>c \<in> set (live_contacts t (w_db w)). ct_id c = i \<and> uniqueText (ct_data c) k = Some v)"
    using st k by (simp add: in_step_def)
  note dist = committed_ids_distinct[OF b d] and live' = committed_live[OF b]
  consider u where "u \<in> set (bt_upd b)" "i = chg_contactId u" | n where "n \<in> set (bt_ins b)" "i = chg_contactId n"
    | "\<forall>c \<in> set ?chs. chg_contactId c \<noteq> i" by auto
  then show "?row \<in> set (db_uniques (w_db w')) \<longleftrightarrow> (\<exists>c \<in> set (live_contacts t (w_db w')). ct_id c = i \<and> uniqueText (ct_data c) k = Some v)"
  proof cases
    case (1 u)
    obtain c where c: "c \<in> set (live_contacts t (w_db w))" "ct_id c = i" "\<forall>k. k \<notin> set (chg_changed u) \<longrightarrow> map_of (chg_after u) k = map_of (ct_data c) k"
      using committed_changes(1)[OF b d(1) so 1(1)] 1(2) by auto
    have only: "x = u" if "x \<in> set ?chs" "i = chg_contactId x" for x
      using change_unique[OF dist(1) that(1), of u] 1 that(2) by simp
    have holds: "(\<exists>c \<in> set (live_contacts t (w_db w)). ct_id c = i \<and> uniqueText (ct_data c) k = Some v) \<longleftrightarrow> uniqueText (ct_data c) k = Some v"
    proof
      assume "\<exists>c \<in> set (live_contacts t (w_db w)). ct_id c = i \<and> uniqueText (ct_data c) k = Some v"
      then obtain x where x: "x \<in> set (live_contacts t (w_db w))" "ct_id x = i" "uniqueText (ct_data x) k = Some v" by blast
      have "x = c" using live_contacts_id[OF d(1) x(1) c(1)] x(2) c(2) by simp
      then show "uniqueText (ct_data c) k = Some v" using x(3) by simp
    qed (use c in blast)
    let ?c' = "write_rows t (w_now w) (bt_upd b) c"
    have "?c' = c\<lparr>ct_data := chg_after u, ct_version := ct_version c + 1, ct_updatedAt := w_now w\<rparr>"
      using c(1,2) 1(2) dist(1) by (intro write_rows_hit[OF 1(1)]) (simp_all add: live_contacts_set)
    moreover have "?c' \<in> set (live_contacts t (w_db w'))" using c(1) live' by blast
    ultimately have c': "?c' \<in> set (live_contacts t (w_db w'))" "ct_id ?c' = i" "ct_data ?c' = chg_after u"
      using c(2) by simp_all
    have holds': "(\<exists>c \<in> set (live_contacts t (w_db w')). ct_id c = i \<and> uniqueText (ct_data c) k = Some v) \<longleftrightarrow> uniqueText (chg_after u) k = Some v"
      by (rule only_live[OF d(2) c'])
    show ?thesis
    proof (cases "k \<in> set (chg_changed u)")
      case True
      then show ?thesis unfolding row' holds' using only 1 by auto
    next
      case False
      then show ?thesis
        unfolding row' row holds holds' using only uniqueText_cong[of "chg_after u" k "ct_data c"] c(3) by auto
    qed
  next
    case (2 n)
    have only: "x = n" if "x \<in> set ?chs" "i = chg_contactId x" for x
      using change_unique[OF dist(1) that(1), of n] 2 that(2) by simp
    have none: "\<not> (\<exists>c \<in> set (live_contacts t (w_db w)). ct_id c = i \<and> uniqueText (ct_data c) k = Some v)"
      using dist(2) 2 by auto
    let ?c' = "new_contact t (w_now w) n"
    have c': "?c' \<in> set (live_contacts t (w_db w'))" "ct_id ?c' = i" "ct_data ?c' = chg_after n"
      using live' 2 by (auto simp: new_contact_def)
    have holds': "(\<exists>c \<in> set (live_contacts t (w_db w')). ct_id c = i \<and> uniqueText (ct_data c) k = Some v) \<longleftrightarrow> uniqueText (chg_after n) k = Some v"
      by (rule only_live[OF d(2) c'])
    have "uniqueText (chg_after n) k = Some v \<Longrightarrow> k \<in> set (chg_changed n)"
      using committed_changes(2)[OF b d(1) so 2(1)] by (auto simp: uniqueText_def split: option.splits)
    then show ?thesis unfolding row' row holds' using none only 2 by auto
  next
    case 3
    have same: "write_rows t (w_now w) (bt_upd b) c = c" if "ct_id c = i" for c
      using 3 that by (intro write_rows_other) auto
    have "(\<exists>c \<in> set (live_contacts t (w_db w')). ct_id c = i \<and> uniqueText (ct_data c) k = Some v) \<longleftrightarrow>
        (\<exists>c \<in> set (live_contacts t (w_db w)). ct_id c = i \<and> uniqueText (ct_data c) k = Some v)"
    proof
      assume "\<exists>c \<in> set (live_contacts t (w_db w')). ct_id c = i \<and> uniqueText (ct_data c) k = Some v"
      then obtain x where x: "x \<in> set (live_contacts t (w_db w'))" "ct_id x = i" "uniqueText (ct_data x) k = Some v" by blast
      then consider c where "c \<in> set (live_contacts t (w_db w))" "x = write_rows t (w_now w) (bt_upd b) c"
        | n where "n \<in> set (bt_ins b)" "x = new_contact t (w_now w) n" using live' by blast
      then show "\<exists>c \<in> set (live_contacts t (w_db w)). ct_id c = i \<and> uniqueText (ct_data c) k = Some v"
      proof cases
        case (1 c)
        then have "x = c" using same x(2) by simp
        then show ?thesis using 1(1) x by blast
      next
        case 2
        then show ?thesis using 3 x(2) by (auto simp: new_contact_def)
      qed
    next
      assume "\<exists>c \<in> set (live_contacts t (w_db w)). ct_id c = i \<and> uniqueText (ct_data c) k = Some v"
      then obtain c where c: "c \<in> set (live_contacts t (w_db w))" "ct_id c = i" "uniqueText (ct_data c) k = Some v" by blast
      then have "c \<in> set (live_contacts t (w_db w'))" using live' same by metis
      then show "\<exists>c \<in> set (live_contacts t (w_db w')). ct_id c = i \<and> uniqueText (ct_data c) k = Some v" using c by blast
    qed
    then show ?thesis unfolding row' row using 3 by blast
  qed
qed

section \<open>Events\<close>

definition item_written :: "slot \<Rightarrow> bool" where
  "item_written s \<longleftrightarrow> valid_slot s \<and> (ir_created (sl_r s) \<or> ir_changed (sl_r s) \<noteq> [])"

lemma changedMap_keys: "fst ` set (changedMap chs) = chg_contactId ` set chs"
proof -
  have "fst ` set (put_all kvs m) = fst ` set kvs \<union> fst ` set m" for kvs m :: "(string \<times> string list) list"
    by (induction kvs m rule: put_all.induct) auto
  then show ?thesis by (force simp: changedMap_def)
qed

lemma changedMap_of:
  assumes "distinct (map chg_contactId chs)" "c \<in> set chs"
  shows "map_of (changedMap chs) (chg_contactId c) = Some (chg_changed c)"
proof -
  have "single_valued (set (map (\<lambda>c. (chg_contactId c, chg_changed c)) chs))"
    unfolding single_valued_def using change_unique[OF assms(1)] by auto
  then show ?thesis
    unfolding changedMap_def using put_all_single_valued assms(2) by fastforce
qed

lemma snapshot_cong: "db_members d = db_members d' \<Longrightarrow> snapshot t ks d c = snapshot t ks d' c"
  by (simp add: snapshot_def lists_of_def)

lemma upsertedEvents_ids: "constraints d \<Longrightarrow> distinct (map fst (upsertedEvents t m d))"
  unfolding upsertedEvents_def
  by (simp add: comp_def) (intro distinct_live_ids pairwise_clash_free_filter, simp add: constraints_def)

lemma event_rows_props:
  assumes "r \<in> set (event_rows ids n now t typ es)"
  shows "\<exists>c v. (c, v) \<in> set es \<and> ob_tenant r = t \<and> ob_subject r = subjectFor typ t \<and> ev_type (ob_envelope r) = typ \<and>
    ev_contact_id (ob_envelope r) = Some c \<and> ev_data (ob_envelope r) = v"
  using assms by (induction es arbitrary: n) (auto simp: outbox_row_of_def buildEnvelope_def Let_def)

lemma event_rows_contacts: "map (\<lambda>r. ev_contact_id (ob_envelope r)) (event_rows ids n now t typ es) = map (\<lambda>e. Some (fst e)) es"
  by (induction es arbitrary: n) (auto simp: outbox_row_of_def buildEnvelope_def Let_def)

text \<open>The ids a committed batch wrote, seen from its slots.\<close>

lemma committed_written:
  assumes b: "committed t source defs slots w slots' w' b"
  shows "chg_contactId ` set (bt_upd b @ bt_ins b) = slot_id ` {s \<in> set slots'. item_written s}"
    and "s \<in> set slots' \<Longrightarrow> item_written s \<Longrightarrow> \<exists>c \<in> set (bt_upd b @ bt_ins b). chg_contactId c = slot_id s \<and> chg_changed c = ir_changed (sl_r s)"
proof -
  let ?f = "\<lambda>s. if to_update s then set_changed (chg_changed (update_change source (bt_rows b) s)) s
        else if to_insert s then set_changed (chg_changed (insert_change source s)) s else s"
  have S: "slots' = map ?f slots" and
    U: "bt_upd b = filter (\<lambda>c. chg_changed c \<noteq> []) (map (update_change source (bt_rows b)) (filter to_update slots))" and
    I: "bt_ins b = map (insert_change source) (filter to_insert slots)"
    using b by (simp_all add: committed_def)
  have v: "valid_slot s \<longleftrightarrow> to_update s \<or> to_insert s" for s by (auto simp: to_update_def to_insert_def)
  have c: "to_update s \<Longrightarrow> \<not> ir_created (sl_r s)" "to_insert s \<Longrightarrow> ir_created (sl_r s)" for s
    by (auto simp: to_update_def to_insert_def)
  have w: "item_written (?f s) \<longleftrightarrow> (to_update s \<and> chg_changed (update_change source (bt_rows b) s) \<noteq> []) \<or> to_insert s" for s
  proof -
    have sv: "valid_slot (set_changed ks s) = valid_slot s" "ir_created (sl_r (set_changed ks s)) = ir_created (sl_r s)"
      "ir_changed (sl_r (set_changed ks s)) = ks" for ks by (simp_all add: set_changed_def valid_slot_def)
    consider "to_update s" "\<not> to_insert s" | "to_insert s" "\<not> to_update s" | "\<not> to_update s" "\<not> to_insert s"
      using update_insert_disjoint by blast
    then show ?thesis
      using v[of s] c[of s] by cases (simp_all add: item_written_def sv)
  qed
  show "\<exists>c \<in> set (bt_upd b @ bt_ins b). chg_contactId c = slot_id s \<and> chg_changed c = ir_changed (sl_r s)"
    if s: "s \<in> set slots'" "item_written s" for s
  proof -
    obtain s0 where s0: "s0 \<in> set slots" "s = ?f s0" using s(1) S by auto
    with w s(2) consider "to_update s0" "chg_changed (update_change source (bt_rows b) s0) \<noteq> []" | "to_insert s0" by auto
    then show ?thesis
    proof cases
      case 1
      then have "update_change source (bt_rows b) s0 \<in> set (bt_upd b)" using s0(1) U by auto
      then show ?thesis using s0(2) 1 by (intro bexI[of _ "update_change source (bt_rows b) s0"]) (auto simp: set_changed_def slot_id_def)
    next
      case 2
      then have "insert_change source s0 \<in> set (bt_ins b)" using s0(1) I by auto
      then show ?thesis using s0(2) 2 update_insert_disjoint[of s0]
        by (intro bexI[of _ "insert_change source s0"]) (auto simp: set_changed_def slot_id_def)
    qed
  qed
  note hit = this
  show "chg_contactId ` set (bt_upd b @ bt_ins b) = slot_id ` {s \<in> set slots'. item_written s}"
  proof (intro equalityI subsetI)
    fix i assume "i \<in> chg_contactId ` set (bt_upd b @ bt_ins b)"
    then obtain s where s: "s \<in> set slots" "slot_id s = i"
      "(to_update s \<and> chg_changed (update_change source (bt_rows b) s) \<noteq> []) \<or> to_insert s"
      using U I by auto
    then have "?f s \<in> set slots'" "item_written (?f s)" "slot_id (?f s) = i" using S w by auto
    then show "i \<in> slot_id ` {s \<in> set slots'. item_written s}" by blast
  next
    fix i assume "i \<in> slot_id ` {s \<in> set slots'. item_written s}"
    then obtain s where s: "s \<in> set slots'" "item_written s" "i = slot_id s" by blast
    from hit[OF s(1,2)] obtain c where "c \<in> set (bt_upd b @ bt_ins b)" "chg_contactId c = i" using s(3) by auto
    then show "i \<in> chg_contactId ` set (bt_upd b @ bt_ins b)" by blast
  qed
qed

lemma committed_change_live:
  assumes b: "committed t source defs slots w slots' w' b" and d: "constraints (w_db w)" and c: "c \<in> set (bt_upd b @ bt_ins b)"
  shows "\<exists>x \<in> set (live_contacts t (w_db w')). ct_id x = chg_contactId c"
proof -
  consider "c \<in> set (bt_ins b)" | s where "s \<in> set slots" "to_update s" "c = update_change source (bt_rows b) s"
    using b c by (auto simp: committed_def)
  then show ?thesis
  proof cases
    case 1
    then show ?thesis using committed_live[OF b, of "new_contact t (w_now w) c"] by (intro bexI[of _ "new_contact t (w_now w) c"]) (auto simp: new_contact_def)
  next
    case (2 s)
    then obtain y where "y \<in> set (live_contacts t (w_db w))" "ct_id y = slot_id s" using committed_update[OF b d] by blast
    then show ?thesis using 2 committed_live[OF b] by (metis chg_id_update write_rows_keys(1))
  qed
qed

lemma upsertedEvents_contacts: "set (map fst (upsertedEvents t m d)) =
    {i. i \<in> fst ` set m \<and> (\<exists>c \<in> set (db_contacts d). ct_tenant c = t \<and> ct_id c = i)}"
  unfolding upsertedEvents_def by auto

lemma upsertedEvents_mem: "(i, v) \<in> set (upsertedEvents t m d) \<Longrightarrow> \<exists>y \<in> set (db_contacts d). ct_tenant y = t \<and> i = ct_id y \<and>
    v = snapshot t (case map_of m (ct_id y) of Some ks \<Rightarrow> ks | None \<Rightarrow> []) d y"
  unfolding upsertedEvents_def by auto

lemma committed_event_ids:
  assumes b: "committed t source defs slots w slots' w' b" and d: "constraints (w_db w)"
    and same: "db_contacts d4 = db_contacts (w_db w')"
  shows "set (map fst (upsertedEvents t (changedMap (bt_upd b @ bt_ins b)) d4)) = slot_id ` {s \<in> set slots'. item_written s}"
proof -
  have "\<exists>x \<in> set (db_contacts (w_db w')). ct_tenant x = t \<and> ct_id x = chg_contactId ch" if ch: "ch \<in> set (bt_upd b @ bt_ins b)" for ch
    using committed_change_live[OF b d ch] unfolding Bex_def live_contacts_set by auto
  then have "{i. i \<in> chg_contactId ` set (bt_upd b @ bt_ins b) \<and> (\<exists>c \<in> set (db_contacts (w_db w')). ct_tenant c = t \<and> ct_id c = i)} =
      chg_contactId ` set (bt_upd b @ bt_ins b)" by auto
  then show ?thesis unfolding upsertedEvents_contacts changedMap_keys same committed_written(1)[OF b] .
qed

lemma committed_event_data:
  assumes b: "committed t source defs slots w slots' w' b" and d: "constraints (w_db w)" and d': "constraints (w_db w')"
    and same: "db_contacts d4 = db_contacts (w_db w')" "db_members d4 = db_members (w_db w')"
    and iv: "(i, v) \<in> set (upsertedEvents t (changedMap (bt_upd b @ bt_ins b)) d4)"
  shows "\<exists>s \<in> set slots'. \<exists>x \<in> set (live_contacts t (w_db w')). item_written s \<and> ct_id x = slot_id s \<and> i = slot_id s \<and>
      v = snapshot t (ir_changed (sl_r s)) (w_db w') x"
proof -
  have "i \<in> set (map fst (upsertedEvents t (changedMap (bt_upd b @ bt_ins b)) d4))"
    using imageI[OF iv, of fst] by simp
  then obtain s where s: "s \<in> set slots'" "item_written s" "i = slot_id s"
    unfolding committed_event_ids[OF b d same(1)] by auto
  obtain ch where ch: "ch \<in> set (bt_upd b @ bt_ins b)" "chg_contactId ch = slot_id s" "chg_changed ch = ir_changed (sl_r s)"
    using committed_written(2)[OF b s(1,2)] by (elim bexE conjE)
  obtain x where x: "x \<in> set (live_contacts t (w_db w'))" "ct_id x = slot_id s"
    using committed_change_live[OF b d ch(1)] unfolding ch(2) by (elim bexE)
  have m: "map_of (changedMap (bt_upd b @ bt_ins b)) (slot_id s) = Some (ir_changed (sl_r s))"
    using changedMap_of[OF committed_ids_distinct(1)[OF b d d'] ch(1)] unfolding ch(2,3) .
  obtain y where y: "y \<in> set (db_contacts (w_db w'))" "ct_tenant y = t" "i = ct_id y"
    "v = snapshot t (case map_of (changedMap (bt_upd b @ bt_ins b)) (ct_id y) of Some ks \<Rightarrow> ks | None \<Rightarrow> []) d4 y"
    using upsertedEvents_mem[OF iv] unfolding same(1) by (elim bexE conjE)
  have "y = x"
    using pairwise_clash_free_id[OF _ y(1), of x] d' y(3) s(3) x unfolding constraints_def live_contacts_set by simp
  then have "v = snapshot t (ir_changed (sl_r s)) (w_db w') x"
    using y(4) m x(2) snapshot_cong[OF same(2)] by simp
  then show ?thesis using s x by (intro bexI[OF _ s(1)] bexI[OF _ x(1)] conjI)
qed

lemma commit_events:
  assumes c: "commit hooks t source defs slots w = (Inr slots', w')" and d: "constraints (w_db w)" and hk: "hooks_ok hooks"
  shows "\<exists>hooked new. db_outbox (w_db w') = db_outbox (w_db w) @ hooked @ new \<and>
    (\<forall>r \<in> set hooked. ev_type (ob_envelope r) \<noteq> ''contacts.upserted'') \<and> distinct (map (\<lambda>r. ev_contact_id (ob_envelope r)) new) \<and>
    set (map (\<lambda>r. ev_contact_id (ob_envelope r)) new) = Some ` slot_id ` {s \<in> set slots'. item_written s} \<and>
    (\<forall>r \<in> set new. ob_tenant r = t \<and> ob_subject r = subjectFor ''contacts.upserted'' t \<and> (\<exists>s \<in> set slots'. \<exists>x \<in> set (live_contacts t (w_db w')).
      item_written s \<and> ct_id x = slot_id s \<and> ev_contact_id (ob_envelope r) = Some (slot_id s) \<and>
      ev_data (ob_envelope r) = snapshot t (ir_changed (sl_r s)) (w_db w') x))"
proof -
  from commit_committed[OF c d hk] obtain b w3 w4 where b: "committed t source defs slots w slots' w' b"
    and ob: "db_outbox (w_db w3) = db_outbox (w_db w)" and h: "runHooks hooks t (bt_upd b @ bt_ins b) w3 = (Inr (), w4)"
    and up: "upserted t (changedMap (bt_upd b @ bt_ins b)) w4 = (Inr (), w')" and d': "constraints (w_db w')"
    by (elim exE conjE)
  obtain hooked where w4: "db_outbox (w_db w4) = db_outbox (w_db w3) @ hooked"
    and hooked: "\<forall>r \<in> set hooked. ev_type (ob_envelope r) \<noteq> ''contacts.upserted''"
    using keeps_outcome[OF runHooks_same[OF hk] h] by (auto simp: same_contacts_def)
  define es where "es = upsertedEvents t (changedMap (bt_upd b @ bt_ins b)) (w_db w4)"
  have e0: "changedMap (bt_upd b @ bt_ins b) = [] \<Longrightarrow> es = []" by (simp add: es_def upsertedEvents_def)
  have w': "w' = add_events t ''contacts.upserted'' es w4"
    using up e0 by (cases "changedMap (bt_upd b @ bt_ins b) = []") (simp_all add: upserted_eq es_def)
  define new where "new = event_rows (w_ids w4) (w_next w4) (w_now w4) t ''contacts.upserted'' es"
  have new: "db_outbox (w_db w') = db_outbox (w_db w) @ hooked @ new" using ob w4 by (simp add: w' add_events_def new_def)
  have same: "db_contacts (w_db w4) = db_contacts (w_db w')" "db_members (w_db w4) = db_members (w_db w')"
    unfolding w' by simp_all
  have "db_uniques (w_db w4) = db_uniques (w_db w')" unfolding w' by simp
  then have d4: "constraints (w_db w4)" using d' unfolding constraints_def same(1) by simp
  have ids: "map (\<lambda>r. ev_contact_id (ob_envelope r)) new = map Some (map fst es)"
    unfolding new_def event_rows_contacts by simp
  have dist: "distinct (map fst es)" unfolding es_def by (rule upsertedEvents_ids[OF d4])
  have es_set: "set (map fst es) = slot_id ` {s \<in> set slots'. item_written s}"
    unfolding es_def by (rule committed_event_ids[OF b d same(1)])
  note data = committed_event_data[OF b d d' same, folded es_def]
  have "\<exists>s \<in> set slots'. \<exists>x \<in> set (live_contacts t (w_db w')). item_written s \<and> ct_id x = slot_id s \<and>
      ev_contact_id (ob_envelope r) = Some (slot_id s) \<and> ev_data (ob_envelope r) = snapshot t (ir_changed (sl_r s)) (w_db w') x"
    and "ob_tenant r = t" "ob_subject r = subjectFor ''contacts.upserted'' t" if r: "r \<in> set new" for r
  proof -
    obtain i v where r: "(i, v) \<in> set es" "ob_tenant r = t" "ob_subject r = subjectFor ''contacts.upserted'' t"
      "ev_contact_id (ob_envelope r) = Some i" "ev_data (ob_envelope r) = v"
      using event_rows_props[OF r[unfolded new_def]] by (elim exE conjE)
    from r(2,3) show "ob_tenant r = t" "ob_subject r = subjectFor ''contacts.upserted'' t" .
    from data[OF r(1)] obtain s x where "s \<in> set slots'" "x \<in> set (live_contacts t (w_db w'))" "item_written s" "ct_id x = slot_id s"
      "i = slot_id s" "v = snapshot t (ir_changed (sl_r s)) (w_db w') x" by (elim bexE conjE)
    then show "\<exists>s \<in> set slots'. \<exists>x \<in> set (live_contacts t (w_db w')). item_written s \<and> ct_id x = slot_id s \<and>
      ev_contact_id (ob_envelope r) = Some (slot_id s) \<and> ev_data (ob_envelope r) = snapshot t (ir_changed (sl_r s)) (w_db w') x"
      unfolding r(4,5) by (intro bexI conjI) simp_all
  qed
  moreover have "distinct (map (\<lambda>r. ev_contact_id (ob_envelope r)) new)"
    unfolding ids using dist by (simp add: distinct_map inj_on_def)
  moreover have "set (map (\<lambda>r. ev_contact_id (ob_envelope r)) new) = Some ` slot_id ` {s \<in> set slots'. item_written s}"
    unfolding ids set_map[of Some] es_set ..
  ultimately show ?thesis using new hooked by (intro exI[of _ hooked] exI[of _ new] conjI) simp_all
qed

section \<open>Writing a batch again\<close>

lemma merged_again: "map_of d = merged old (map_of vals) \<Longrightarrow> distinct (map fst vals) \<Longrightarrow> changedKeys d vals = []"
  by (auto simp: changedKeys_def filter_empty_conv mergeData_refines merged_def split: option.splits)

lemma map_of_filter_null: "distinct (map fst vals) \<Longrightarrow> map_of (filter (\<lambda>kv. snd kv \<noteq> JNull) vals) = merged (\<lambda>_. None) (map_of vals)"
proof (induction vals)
  case (Cons kv vals)
  then have "map_of vals (fst kv) = None" by (simp add: map_of_eq_None_iff)
  with Cons show ?case by (auto simp: merged_def fun_eq_iff split: option.splits)
qed (simp add: merged_def fun_eq_iff)

text \<open>The contact of a written slot holds the merged values, however it got there.\<close>

lemma committed_holds:
  assumes b: "committed t source defs slots w slots' w' b" and d: "constraints (w_db w)"
    and s: "s \<in> set slots" "valid_slot s" "distinct (map fst (sl_set s))"
  shows "\<exists>c \<in> set (live_contacts t (w_db w')). \<exists>old. ct_id c = slot_id s \<and> map_of (ct_data c) = merged old (map_of (sl_set s))"
proof (cases "to_update s")
  case True
  then show ?thesis using committed_update_row[OF b d s(1) True s(3)] by blast
next
  case False
  then have i: "to_insert s" using s(2) by (auto simp: to_update_def to_insert_def)
  show ?thesis
  proof (intro bexI[OF _ committed_insert_row[OF b s(1) i]] exI[of _ "\<lambda>_. None"] conjI)
    show "ct_id (new_contact t (w_now w) (insert_change source s)) = slot_id s" by (simp add: new_contact_def)
    show "map_of (ct_data (new_contact t (w_now w) (insert_change source s))) = merged (\<lambda>_. None) (map_of (sl_set s))"
      by (simp only: insert_data map_of_filter_null[OF s(3)])
  qed
qed

lemma commit_again:
  assumes b: "committed t source defs slots w slots1 w1 b" and d: "constraints (w_db w)" "constraints (w_db w1)"
    and so: "\<forall>s \<in> set slots. set_ok defs s"
    and again: "\<forall>s \<in> set again. valid_slot s \<longrightarrow> to_update s \<and> (\<exists>s0 \<in> set slots. valid_slot s0 \<and> slot_id s = slot_id s0 \<and> sl_set s = sl_set s0)"
    and c: "commit hooks t source defs again w1 = (Inr slots2, w2)" and hk: "hooks_ok hooks"
  shows "db_contacts (w_db w2) = db_contacts (w_db w1)" and "db_outbox (w_db w2) = db_outbox (w_db w1)"
    and "\<forall>s \<in> set slots2. valid_slot s \<longrightarrow> ir_changed (sl_r s) = [] \<and> \<not> ir_created (sl_r s)"
proof -
  from commit_committed[OF c d(2) hk] obtain b2 w3 w4 where b2: "committed t source defs again w1 slots2 w2 b2"
    and ob: "db_outbox (w_db w3) = db_outbox (w_db w1)" and h: "runHooks hooks t (bt_upd b2 @ bt_ins b2) w3 = (Inr (), w4)"
    and up: "upserted t (changedMap (bt_upd b2 @ bt_ins b2)) w4 = (Inr (), w2)" by blast
  have none: "chg_changed (update_change source (bt_rows b2) s) = []" if s: "s \<in> set again" "to_update s" for s
  proof -
    obtain s0 where s0: "s0 \<in> set slots" "valid_slot s0" "slot_id s = slot_id s0" "sl_set s = sl_set s0"
      using again s to_update_valid by blast
    have ds: "distinct (map fst (sl_set s0))" using so s0(1) by (simp add: set_ok_def)
    obtain c old where c1: "c \<in> set (live_contacts t (w_db w1))" "ct_id c = slot_id s0" "map_of (ct_data c) = merged old (map_of (sl_set s0))"
      using committed_holds[OF b d(1) s0(1,2) ds] by blast
    obtain c2 where c2: "c2 \<in> set (live_contacts t (w_db w1))" "ct_id c2 = slot_id s" "old_data (bt_rows b2) s = Some (ct_data c2)"
      using committed_update[OF b2 d(2) s] by blast
    have "c2 = c" using live_contacts_id[OF d(2) c2(1) c1(1)] c2(2) c1(2) s0(3) by simp
    then show ?thesis
      using update_change_simps[OF c2(3), of source] merged_again[OF c1(3) ds] s0(4) by simp
  qed
  have upd: "bt_upd b2 = []" using b2 none by (auto simp: committed_def filter_empty_conv)
  have "filter to_insert again = []"
    using again update_insert_disjoint to_insert_valid by (auto simp: filter_empty_conv)
  then have ins: "bt_ins b2 = []" using b2 by (simp add: committed_def)
  have "write_rows t (w_now w1) [] = (\<lambda>r. r)" by (simp add: write_rows_def fun_eq_iff)
  then show "db_contacts (w_db w2) = db_contacts (w_db w1)"
    using b2 upd ins by (simp add: committed_def)
  show "db_outbox (w_db w2) = db_outbox (w_db w1)"
    using ob h up upd ins by (simp add: runHooks_none[OF hk] changedMap_def upserted_eq add_events_def)
  show "\<forall>s \<in> set slots2. valid_slot s \<longrightarrow> ir_changed (sl_r s) = [] \<and> \<not> ir_created (sl_r s)"
  proof (intro ballI impI)
    fix s assume "s \<in> set slots2" "valid_slot s"
    then have "\<not> item_written s" using committed_written(1)[OF b2] upd ins by auto
    then show "ir_changed (sl_r s) = [] \<and> \<not> ir_created (sl_r s)" using \<open>valid_slot s\<close> by (simp add: item_written_def)
  qed
qed

end
