(* ===== verification/Contacts_Write_Properties.thy ===== *)
theory Contacts_Write_Properties
  imports Contacts_Write_Rows
begin

text \<open>
  The properties of the batch write engine, over a world small enough to evaluate: one tenant
  with an e-mail field and a unique custom field, and one contact.
\<close>

section \<open>A tenant\<close>

definition demo_field :: "int \<Rightarrow> string \<Rightarrow> bool \<Rightarrow> field_def" where
  "demo_field n name unique = \<lparr>fd_tenant = ''t'', fd_fieldId = n, fd_apiName = name, fd_labels = JNull, fd_type = FText,
     fd_choices = [], fd_description = None, fd_isSystem = n < 1000, fd_unique = unique, fd_readOnly = False, fd_deletedAt = None\<rparr>"

definition demo_contact :: "string \<Rightarrow> object \<Rightarrow> contact" where
  "demo_contact i data = \<lparr>ct_id = i, ct_tenant = ''t'', ct_data = data, ct_version = 1, ct_createdAt = 0, ct_updatedAt = 0, ct_deletedAt = None\<rparr>"

definition demo_db :: "contact list \<Rightarrow> uniq_row list \<Rightarrow> db" where
  "demo_db cs us = \<lparr>db_fields = [demo_field 3 ''email'' True, demo_field 1000 ''code'' True],
     db_counters = [(''t'', 1000)], db_contacts = cs, db_uniques = us,
     db_lists = [], db_members = [], db_consents = [], db_gdpr = [], db_links = [], db_tables = [], db_rows = [], db_outbox = []\<rparr>"

definition demo_world :: "db \<Rightarrow> world" where
  "demo_world d = \<lparr>w_db = d, w_ids = (\<lambda>n. if n = 0 then ''i'' else ''j''), w_next = 0, w_now = 0, w_cache = [], w_kicks = 0, w_purges = []\<rparr>"

definition demo_start :: world where
  "demo_start = demo_world (demo_db [demo_contact ''c'' [(''3'', JStr ''a''), (''1000'', JStr ''k'')]]
     [\<lparr>uv_tenant = ''t'', uv_field = 1000, uv_value = ''k'', uv_contact = ''c''\<rparr>])"

definition demo_items :: "object list" where
  "demo_items = [[(''3'', JStr ''A ''), (''1000'', JStr ''m'')]]"

definition demo_prepared :: "(field_def list \<times> slot list) \<times> world" where
  "demo_prepared = (case prepare ''t'' ''3'' Upsert demo_items demo_start of (Inr p, v) \<Rightarrow> (p, v) | (Inl _, v) \<Rightarrow> (([], []), v))"

definition demo_slot :: slot where
  "demo_slot = \<lparr>sl_r = \<lparr>ir_index = 0, ir_key = Some ''A '', ir_id = Some ''c'', ir_created = False, ir_changed = [], ir_error = None\<rparr>,
     sl_item = hd demo_items, sl_pending = True, sl_set = hd demo_items\<rparr>"

lemma demo_prepare: "prepare ''t'' ''3'' Upsert demo_items demo_start =
    (Inr ([demo_field 3 ''email'' True, demo_field 1000 ''code'' True], [demo_slot]), snd (prepare ''t'' ''3'' Upsert demo_items demo_start))"
proof -
  have "\<not> isl (fst (prepare ''t'' ''3'' Upsert demo_items demo_start)) \<and>
      projr (fst (prepare ''t'' ''3'' Upsert demo_items demo_start)) = ([demo_field 3 ''email'' True, demo_field 1000 ''code'' True], [demo_slot])"
    by code_simp
  then show ?thesis by (metis prod.collapse sum.collapse(2))
qed

lemma Inr_pair: "\<not> isl (fst p) \<Longrightarrow> p = (Inr (projr (fst p)), snd p)"
  by (metis prod.collapse sum.collapse(2))

definition demo_defs :: "field_def list" where
  "demo_defs = [demo_field 3 ''email'' True, demo_field 1000 ''code'' True]"

lemma demo_commit: "commit [] ''t'' ''api'' demo_defs [demo_slot] demo_start =
    (Inr (projr (fst (commit [] ''t'' ''api'' demo_defs [demo_slot] demo_start))), snd (commit [] ''t'' ''api'' demo_defs [demo_slot] demo_start))"
  by (rule Inr_pair) code_simp

lemma demo_write: "writeContacts [] (\<lambda>_ d. d) ''t'' ''3'' Upsert demo_items ''api'' demo_start =
    (Inr (projr (fst (writeContacts [] (\<lambda>_ d. d) ''t'' ''3'' Upsert demo_items ''api'' demo_start))),
     snd (writeContacts [] (\<lambda>_ d. d) ''t'' ''3'' Upsert demo_items ''api'' demo_start))"
  by (rule Inr_pair) code_simp

lemma demo_constraints: "constraints (w_db demo_start)"
  unfolding constraints_def pairwise_clash_free_def by code_simp

lemma demo_valid: "valid_slot demo_slot" and demo_update: "to_update demo_slot"
  by (simp_all add: valid_slot_def demo_slot_def to_update_def)

lemma no_hooks: "hooks_ok []"
  by (simp add: hooks_ok_def)

section \<open>What an item asks for\<close>

text \<open>The values a valid item sets are its own, normalised by their fields.\<close>

lemma setFields_values:
  "valid_slot (setFields defs keyId kvs s) \<Longrightarrow> distinct (map fst kvs) \<Longrightarrow> (k, raw) \<in> set kvs \<Longrightarrow> \<not> (k = ''id'' \<and> keyId = ''id'') \<Longrightarrow>
    \<exists>def v. is_field_key k \<and> field_of defs (digits_int k) = Some def \<and> normalizeValue (fd_type def) (choice_ids def) raw = Inr v \<and>
      map_of (sl_set (setFields defs keyId kvs s)) k = Some v"
  and setFields_keeps: "k \<notin> fst ` set kvs \<Longrightarrow> map_of (sl_set (setFields defs keyId kvs s)) k = map_of (sl_set s) k"
proof (induction defs keyId kvs s rule: setFields.induct)
  case (2 defs keyId l r kvs s)
  let ?def = "if is_field_key l then field_of defs (digits_int l) else None"
  show keep: "map_of (sl_set (setFields defs keyId ((l, r) # kvs) s)) k = map_of (sl_set s) k" if "k \<notin> fst ` set ((l, r) # kvs)"
    using 2(2,4) that by (auto split: option.splits sum.splits)
  assume v: "valid_slot (setFields defs keyId ((l, r) # kvs) s)" and d: "distinct (map fst ((l, r) # kvs))"
    and k: "(k, raw) \<in> set ((l, r) # kvs)" and n: "\<not> (k = ''id'' \<and> keyId = ''id'')"
  show "\<exists>def v. is_field_key k \<and> field_of defs (digits_int k) = Some def \<and> normalizeValue (fd_type def) (choice_ids def) raw = Inr v \<and>
      map_of (sl_set (setFields defs keyId ((l, r) # kvs) s)) k = Some v"
  proof (cases "l = ''id'' \<and> keyId = ''id''")
    case True
    then have "(k, raw) \<in> set kvs" using k n by auto
    with 2(1)[OF True] v d n True show ?thesis by auto
  next
    case False
    note step = setFields.simps(2)[of defs keyId l r kvs s, unfolded if_not_P[OF False]]
    obtain def where def: "?def = Some def"
    proof (cases ?def)
      case None
      then show ?thesis using v unfolding step by simp
    qed (rule that)
    have ro: "\<not> fd_readOnly def"
    proof
      assume "fd_readOnly def"
      then show False using v unfolding step def by simp
    qed
    obtain x where x: "normalizeValue (fd_type def) (choice_ids def) r = Inr x"
    proof (cases "normalizeValue (fd_type def) (choice_ids def) r")
      case (Inl ct)
      then show ?thesis using v ro unfolding step def by (cases ct) simp
    qed (rule that)
    have e: "setFields defs keyId ((l, r) # kvs) s = setFields defs keyId kvs (s\<lparr>sl_set := alist_put l x (sl_set s)\<rparr>)"
      unfolding step def using ro x by simp
    show ?thesis
    proof (cases "k = l")
      case True
      then have "raw = r" using k d by force
      moreover have "map_of (sl_set (setFields defs keyId ((l, r) # kvs) s)) k = Some x"
        using 2(4)[OF False def ro x] d e True by simp
      ultimately show ?thesis using True def x by (auto split: if_splits)
    next
      case kl: False
      then have "(k, raw) \<in> set kvs" using k by simp
      with 2(3)[OF False def ro x] v d n show ?thesis unfolding e by auto
    qed
  qed
qed simp_all

definition values_set :: "field_def list \<Rightarrow> string \<Rightarrow> slot \<Rightarrow> bool" where
  "values_set defs keyId s \<longleftrightarrow> (valid_slot s \<longrightarrow> (\<forall>k raw. (k, raw) \<in> set (sl_item s) \<and> \<not> (k = ''id'' \<and> keyId = ''id'') \<longrightarrow>
     (\<exists>def v. field_of defs (digits_int k) = Some def \<and> normalizeValue (fd_type def) (choice_ids def) raw = Inr v \<and>
       map_of (sl_set s) k = Some v)))"

text \<open>Predicates that failing an item and giving it a target keep.\<close>

definition stable :: "(slot \<Rightarrow> bool) \<Rightarrow> bool" where
  "stable P \<longleftrightarrow> (\<forall>s c m f. P (failS c m f s)) \<and> (\<forall>s i b. P s \<longrightarrow> P (s\<lparr>sl_r := (sl_r s)\<lparr>ir_id := i, ir_created := b\<rparr>\<rparr>))"

lemma targetOf_stable: "stable P \<Longrightarrow> P s \<Longrightarrow> targetOf mode keyId found s w = (Inr s', w') \<Longrightarrow> P s'"
  unfolding targetOf_def Let_def by (auto simp: stable_def split: if_split_asm option.split_asm)

lemma targetStage_stable: "stable P \<Longrightarrow> \<forall>s \<in> set ss. P s \<Longrightarrow> targetStage mode keyId found ss w = (Inr ss', w') \<Longrightarrow> \<forall>s \<in> set ss'. P s"
proof (induction ss arbitrary: w ss')
  case (Cons s ss)
  from Cons.prems(3) obtain s' w1 ss1 where
    1: "(if valid_slot s then targetOf mode keyId found s else retM s) w = (Inr s', w1)"
    "targetStage mode keyId found ss w1 = (Inr ss1, w')" "ss' = s' # ss1"
    by (auto simp: bindM_Inr)
  have "P s'" using 1(1) targetOf_stable[OF Cons.prems(1)] Cons.prems(2) by (auto split: if_split_asm)
  with Cons.IH[OF Cons.prems(1) _ 1(2)] Cons.prems(2) 1(3) show ?case by simp
qed simp

lemma checkSetters_stable: "stable P \<Longrightarrow> \<forall>s \<in> set ss. P s \<Longrightarrow> \<forall>s \<in> set (checkSetters fk owners seen ss). P s"
  by (induction fk owners seen ss rule: checkSetters.induct) (auto simp: Let_def checkSetter_def stable_def)

lemma checkUnique_stable: "stable P \<Longrightarrow> \<forall>s \<in> set ss. P s \<Longrightarrow> checkUnique t keyId defs ss w = (Inr ss', w') \<Longrightarrow> \<forall>s \<in> set ss'. P s"
proof (induction t keyId defs ss arbitrary: w rule: checkUnique.induct)
  case (2 t keyId def defs ss)
  show ?case
  proof (cases "\<not> fd_unique def \<or> show_int (fd_fieldId def) = keyId \<or> filter (setter (show_int (fd_fieldId def))) ss = []")
    case True
    with 2(1)[OF refl refl True 2(3,4)] 2(5) show ?thesis by (simp add: Let_def)
  next
    case False
    then obtain owners w1 where
      "checkUnique t keyId defs (checkSetters (show_int (fd_fieldId def)) owners [] ss) w1 = (Inr ss', w')"
      using 2(5) by (auto simp: Let_def bindM_Inr)
    with 2(2)[OF refl refl False 2(3) checkSetters_stable[OF 2(3,4)]] show ?thesis by blast
  qed
qed simp

lemma values_set_stable: "stable (values_set defs keyId)"
  by (simp add: stable_def values_set_def) (simp add: valid_slot_def)

lemma prepare_values:
  assumes "prepare t keyId mode items w = (Inr (defs, slots), v)" "\<forall>item \<in> set items. distinct (map fst item)"
  shows "\<forall>s \<in> set slots. values_set defs keyId s"
proof -
  define ss where "ss = setStage defs keyId (keyed keyId items)"
  have "values_set defs keyId s" if s: "s \<in> set ss" for s
  proof -
    obtain s0 where s0: "s0 \<in> set (keyed keyId items)" "s = (if sl_pending s0 then setFields defs keyId (sl_item s0) s0 else s0)"
      using s by (auto simp: ss_def setStage_def)
    then obtain i where "i < length items" "s0 = keyed keyId items ! i" by (metis in_set_conv_nth length_keyed)
    then have item: "distinct (map fst (sl_item s0))" using keyed_sig[of i items keyId] assms(2) by (simp add: slot_sig_def)
    show ?thesis
    proof (cases "sl_pending s0")
      case True
      have "sl_item s = sl_item s0" using setFields_sig[of defs keyId "sl_item s0" s0] s0(2) True by (simp add: slot_sig_def)
      then show ?thesis using setFields_values[of defs keyId "sl_item s0" s0] item s0(2) True
        unfolding values_set_def by fastforce
    next
      case False
      then show ?thesis using s0(2) by (simp add: values_set_def valid_slot_def)
    qed
  qed
  then have all: "\<forall>s \<in> set ss. values_set defs keyId s" by blast
  obtain found w2 ss' w3 where
    1: "targetStage mode keyId found ss w2 = (Inr ss', w3)" and 2: "checkUnique t keyId defs ss' w3 = (Inr slots, v)"
    using assms(1) by (auto simp: prepare_def bindM_Inr Let_def ss_def)
  show ?thesis
    by (rule checkUnique_stable[OF values_set_stable targetStage_stable[OF values_set_stable all 1] 2])
qed

section \<open>Properties\<close>

text \<open>C2. A batch write that returns gives one result per item, in the order of the items, with the
  item's key; an item has an id exactly when it has no error; a failed item reports an error code
  of the API and neither a creation nor changes; \<open>create\<close> never reports an update, and
  \<open>update\<close> and writes by \<open>id\<close> never report a creation.\<close>

theorem one_result_per_item:
  assumes "writeContacts hooks others t keyId mode items source w = (Inr rs, w')"
  shows "length rs = length items \<and> (\<forall>i < length items. ir_index (rs ! i) = i \<and> ir_key (rs ! i) = key_value keyId (items ! i) \<and>
    (ir_error (rs ! i) = None \<longleftrightarrow> ir_id (rs ! i) \<noteq> None) \<and> result_ok mode keyId (rs ! i))"
proof -
  obtain slots where s: "rs = results_of slots" "slots_done mode keyId items slots"
    using writeContacts_done[OF assms] by blast
  show ?thesis using slots_done_results[OF s(2)] s(1) by (simp add: results_of_def)
qed

lemma one_result_per_item_witness: "length (projr (fst (writeContacts [] (\<lambda>_ d. d) ''t'' ''3'' Upsert demo_items ''api'' demo_start))) = 1"
  using one_result_per_item[OF demo_write] by (simp add: demo_items_def)

text \<open>A batch write that throws leaves the database as it was: no row, no event (the other
  requests aside).\<close>

theorem failed_write_changes_nothing:
  assumes "writeContacts hooks (\<lambda>_ d. d) t keyId mode items source w = (Inl e, w')"
  shows "w_db w' = w_db w"
  by (rule writeContacts_rollback[OF assms])

lemma demo_bad_key: "writeContacts [] (\<lambda>_ d. d) ''t'' ''9'' Upsert demo_items ''api'' demo_start =
    (Inl (PublicApi 2009 ''key_id 9 does not exist or is not unique'' 400),
     snd (writeContacts [] (\<lambda>_ d. d) ''t'' ''9'' Upsert demo_items ''api'' demo_start))"
proof -
  have "isl (fst (writeContacts [] (\<lambda>_ d. d) ''t'' ''9'' Upsert demo_items ''api'' demo_start)) \<and>
     projl (fst (writeContacts [] (\<lambda>_ d. d) ''t'' ''9'' Upsert demo_items ''api'' demo_start)) = PublicApi 2009 ''key_id 9 does not exist or is not unique'' 400"
    by code_simp
  then show ?thesis by (metis prod.collapse sum.collapse(1))
qed

lemma failed_write_changes_nothing_witness:
  "w_db (snd (writeContacts [] (\<lambda>_ d. d) ''t'' ''9'' Upsert demo_items ''api'' demo_start)) = w_db demo_start"
  by (rule failed_write_changes_nothing[OF demo_bad_key])

text \<open>C9. Whatever its outcome, a batch write leaves every row of every other tenant as it is,
  in every table, when the hooks and the concurrent requests of the tenant do.\<close>

theorem write_keeps_other_tenants:
  assumes "\<And>h changes. h \<in> set hooks \<Longrightarrow> keeps (iso t) (h t changes)" and "\<And>n. foreign_ok t (others n)"
  shows "foreign t (w_db (snd (writeContacts hooks others t keyId mode items source w))) = foreign t (w_db w)"
proof -
  have "keeps (iso t) (writeContacts hooks others t keyId mode items source)"
    by (rule keeps_iso_writeContacts) (fact assms)+
  then show ?thesis by (simp add: keeps_def iso_def)
qed

lemma write_keeps_other_tenants_witness:
  "foreign ''u'' (w_db (snd (writeContacts [] (\<lambda>_ d. d) ''u'' ''3'' Upsert demo_items ''api'' demo_start))) = foreign ''u'' (w_db demo_start)"
  by (rule write_keeps_other_tenants) (simp_all add: foreign_ok_def)

text \<open>C1. The transaction of a batch leaves, for every valid item, a live contact of the tenant
  with the item's id, whose data are the contact's old data with the item's values, normalised by
  their fields, put over them: a sent value replaces, a sent null removes, the rest stays. An
  updated contact's version grows by one exactly when a value changed, and a row with no change is
  not touched; a created contact starts at version 1 with the item's values.\<close>

theorem batch_writes_the_items:
  assumes "prepare t keyId mode items v = (Inr (defs, slots), v')" and "\<forall>item \<in> set items. distinct (map fst item)"
    and "commit hooks t source defs slots w = (Inr slots', w')" and "constraints (w_db w)" and "hooks_ok hooks"
    and "s \<in> set slots" and "valid_slot s"
  shows "values_set defs keyId s \<and> (\<exists>c' \<in> set (live_contacts t (w_db w')). ct_id c' = slot_id s \<and>
    (if ir_created (sl_r s) then map_of (ct_data c') = merged (\<lambda>_. None) (map_of (sl_set s)) \<and> ct_version c' = 1
     else (\<exists>c \<in> set (live_contacts t (w_db w)). ct_id c = slot_id s \<and>
       map_of (ct_data c') = merged (map_of (ct_data c)) (map_of (sl_set s)) \<and>
       (if map_of (ct_data c') = map_of (ct_data c) then c' = c else ct_version c' = ct_version c + 1 \<and> ct_updatedAt c' = w_now w))))"
proof -
  have so: "distinct (map fst (sl_set s))" using prepare_set_ok[OF assms(1)] assms(6) by (simp add: set_ok_def)
  have vs: "values_set defs keyId s" using prepare_values[OF assms(1,2)] assms(6) by blast
  obtain b where b: "committed t source defs slots w slots' w' b" using commit_committed[OF assms(3-5)] by blast
  show ?thesis
  proof (cases "ir_created (sl_r s)")
    case True
    then have i: "to_insert s" using assms(7) by (simp add: to_insert_def)
    let ?c = "new_contact t (w_now w) (insert_change source s)"
    have "ct_id ?c = slot_id s" "ct_version ?c = 1" by (simp_all add: new_contact_def)
    moreover have "map_of (ct_data ?c) = merged (\<lambda>_. None) (map_of (sl_set s))"
      by (simp only: insert_data map_of_filter_null[OF so])
    ultimately show ?thesis
      unfolding if_P[OF True] using vs by (intro conjI bexI[OF _ committed_insert_row[OF b assms(6) i]])
  next
    case False
    then have u: "to_update s" using assms(7) by (simp add: to_update_def)
    obtain c c' where c: "c \<in> set (live_contacts t (w_db w))" "c' \<in> set (live_contacts t (w_db w'))" "ct_id c = slot_id s" "ct_id c' = slot_id s"
      "map_of (ct_data c') = merged (map_of (ct_data c)) (map_of (sl_set s))"
      "if changedKeys (ct_data c) (sl_set s) = [] then c' = c
        else ct_data c' = mergeData (ct_data c) (sl_set s) \<and> ct_version c' = ct_version c + 1 \<and> ct_updatedAt c' = w_now w"
      using committed_update_row[OF b assms(4,6) u so] by (elim bexE conjE)
    have "changedKeys (ct_data c) (sl_set s) = [] \<longleftrightarrow> map_of (ct_data c') = map_of (ct_data c)"
      unfolding c(5) using changedKeys_empty[OF so, of "ct_data c"]
      by (auto simp: changedKeys_def filter_empty_conv mergeData_refines[OF so])
    then have "if map_of (ct_data c') = map_of (ct_data c) then c' = c else ct_version c' = ct_version c + 1 \<and> ct_updatedAt c' = w_now w"
      using c(6) by (cases "changedKeys (ct_data c) (sl_set s) = []") simp_all
    then show ?thesis unfolding if_not_P[OF False] using vs c(3-5) by (intro conjI bexI[OF _ c(2)] bexI[OF _ c(1)])
  qed
qed

lemma batch_writes_the_items_witness:
  "\<exists>c' \<in> set (live_contacts ''t'' (w_db (snd (commit [] ''t'' ''api'' demo_defs [demo_slot] demo_start)))). ct_id c' = ''c''"
proof -
  have "\<forall>item \<in> set demo_items. distinct (map fst item)" by (simp add: demo_items_def)
  from batch_writes_the_items[OF demo_prepare[folded demo_defs_def] this demo_commit demo_constraints no_hooks _ demo_valid]
  show ?thesis by (auto simp: demo_slot_def slot_id_def)
qed

text \<open>Contacts that no valid item of the batch names are not touched, and none appears: a row
  with another id is in the table after the transaction exactly when it was before.\<close>

theorem batch_leaves_the_rest:
  assumes "commit hooks t source defs slots w = (Inr slots', w')" and "constraints (w_db w)" and "hooks_ok hooks"
    and "\<forall>s \<in> set slots. valid_slot s \<longrightarrow> slot_id s \<noteq> ct_id c"
  shows "c \<in> set (db_contacts (w_db w')) \<longleftrightarrow> c \<in> set (db_contacts (w_db w))"
proof -
  obtain b where "committed t source defs slots w slots' w' b" using commit_committed[OF assms(1-3)] by blast
  from committed_others[OF this] assms(4) show ?thesis by blast
qed

lemma batch_leaves_the_rest_witness:
  "demo_contact ''x'' [] \<notin> set (db_contacts (w_db (snd (commit [] ''t'' ''api'' demo_defs [demo_slot] demo_start))))"
proof -
  have "\<forall>s \<in> set [demo_slot]. valid_slot s \<longrightarrow> slot_id s \<noteq> ct_id (demo_contact ''x'' [])"
    by (simp add: demo_slot_def slot_id_def demo_contact_def)
  from batch_leaves_the_rest[OF demo_commit demo_constraints no_hooks this] show ?thesis
    by (simp add: demo_start_def demo_world_def demo_db_def demo_contact_def)
qed

text \<open>C3. The transaction of a batch keeps the constraints of the tables and the invariant of
  \<open>unique_values\<close>: for every custom unique field, the table lists exactly the values that the
  tenant's live contacts hold, each for the contact that holds it.\<close>

theorem unique_values_stay_in_step:
  assumes "prepare t keyId mode items v = (Inr (defs, slots), v')"
    and "commit hooks t source defs slots w = (Inr slots', w')" and "constraints (w_db w)" and "hooks_ok hooks"
    and "in_step t defs (w_db w)"
  shows "constraints (w_db w') \<and> in_step t defs (w_db w')"
proof -
  obtain b where b: "committed t source defs slots w slots' w' b" and d: "constraints (w_db w')"
    using commit_committed[OF assms(2-4)] by blast
  have "in_step t defs (w_db w')"
    by (rule committed_in_step[OF b assms(3) d prepare_set_ok[OF assms(1)] assms(5)])
  with d show ?thesis ..
qed

lemma digits_int_1000: "digits_int ''1000'' = 1000"
  by (simp add: digits_int_def digits_nat_def digit_val_def code_def)

lemma demo_unique: "is_field_key k \<Longrightarrow> is_custom_unique demo_defs k \<Longrightarrow> k = ''1000''"
proof -
  assume k: "is_field_key k" "is_custom_unique demo_defs k"
  have "digits_int k = 3 \<or> digits_int k = 1000"
    using k(2) by (auto simp: is_custom_unique_def field_of_def demo_defs_def demo_field_def split: if_splits)
  moreover have "digits_int ''3'' = 3" "is_field_key ''3''" "is_field_key ''1000''"
    by (simp_all add: digits_int_def digits_nat_def digit_val_def code_def is_field_key_def digit19_char_def digit_char_def)
  moreover have "k \<noteq> ''3''" using k(2) by (simp add: is_custom_unique_def)
  ultimately show ?thesis using digits_int_inj[OF k(1)] digits_int_1000 by metis
qed

lemma demo_in_step: "in_step ''t'' demo_defs (w_db demo_start)"
  unfolding in_step_def
proof (intro allI impI)
  fix k v i assume "is_field_key k" "is_custom_unique demo_defs k"
  then have k: "k = ''1000''" by (rule demo_unique)
  show "\<lparr>uv_tenant = ''t'', uv_field = digits_int k, uv_value = v, uv_contact = i\<rparr> \<in> set (db_uniques (w_db demo_start)) \<longleftrightarrow>
      (\<exists>c \<in> set (live_contacts ''t'' (w_db demo_start)). ct_id c = i \<and> uniqueText (ct_data c) k = Some v)"
    unfolding k digits_int_1000
    by (auto simp: demo_start_def demo_world_def demo_db_def demo_contact_def live_contacts_def live_def uniqueText_def
        trim_def strip_def ws_char_def code_def)
qed

lemma unique_values_stay_in_step_witness:
  "constraints (w_db (snd (commit [] ''t'' ''api'' demo_defs [demo_slot] demo_start))) \<and>
    in_step ''t'' demo_defs (w_db (snd (commit [] ''t'' ''api'' demo_defs [demo_slot] demo_start)))"
  by (rule unique_values_stay_in_step[OF demo_prepare[folded demo_defs_def] demo_commit demo_constraints no_hooks demo_in_step])

text \<open>C7. The transaction of a batch appends to the outbox exactly one \<open>contacts.upserted\<close>
  event per contact created or changed, none for the others: on the tenant's subject, with the
  contact's id, and with the contact as the transaction leaves it (its fields, version and lists)
  and the field ids this write changed. Hooks add events of other types only.\<close>

theorem one_event_per_written_contact:
  assumes "commit hooks t source defs slots w = (Inr slots', w')" and "constraints (w_db w)" and "hooks_ok hooks"
  shows "\<exists>hooked new. db_outbox (w_db w') = db_outbox (w_db w) @ hooked @ new \<and>
    (\<forall>r \<in> set hooked. ev_type (ob_envelope r) \<noteq> ''contacts.upserted'') \<and> distinct (map (\<lambda>r. ev_contact_id (ob_envelope r)) new) \<and>
    set (map (\<lambda>r. ev_contact_id (ob_envelope r)) new) = Some ` slot_id ` {s \<in> set slots'. item_written s} \<and>
    (\<forall>r \<in> set new. ob_tenant r = t \<and> ob_subject r = subjectFor ''contacts.upserted'' t \<and> (\<exists>s \<in> set slots'. \<exists>x \<in> set (live_contacts t (w_db w')).
      item_written s \<and> ct_id x = slot_id s \<and> ev_contact_id (ob_envelope r) = Some (slot_id s) \<and>
      ev_data (ob_envelope r) = snapshot t (ir_changed (sl_r s)) (w_db w') x))"
  by (rule commit_events[OF assms])

lemma one_event_per_written_contact_witness:
  "\<exists>hooked new. db_outbox (w_db (snd (commit [] ''t'' ''api'' demo_defs [demo_slot] demo_start))) = hooked @ new"
  using one_event_per_written_contact[OF demo_commit demo_constraints no_hooks]
  by (auto simp: demo_start_def demo_world_def demo_db_def)

text \<open>Writing a batch again is silent: when the valid items of a second batch set the same
  values on the contacts a first batch wrote, the second transaction leaves every contact and the
  outbox as they are, and reports no changed field.\<close>

theorem repeated_batch_is_silent:
  assumes "prepare t keyId mode items v = (Inr (defs, slots), v')"
    and "commit hooks t source defs slots w = (Inr slots1, w1)" and "constraints (w_db w)" and "hooks_ok hooks"
    and "\<forall>s \<in> set again. valid_slot s \<longrightarrow> \<not> ir_created (sl_r s) \<and> (\<exists>s0 \<in> set slots. valid_slot s0 \<and> slot_id s = slot_id s0 \<and> sl_set s = sl_set s0)"
    and "commit hooks t source defs again w1 = (Inr slots2, w2)"
  shows "db_contacts (w_db w2) = db_contacts (w_db w1) \<and> db_outbox (w_db w2) = db_outbox (w_db w1) \<and>
    (\<forall>s \<in> set slots2. valid_slot s \<longrightarrow> ir_changed (sl_r s) = [] \<and> \<not> ir_created (sl_r s))"
proof -
  obtain b where b: "committed t source defs slots w slots1 w1 b" and d: "constraints (w_db w1)"
    using commit_committed[OF assms(2-4)] by blast
  have again: "\<forall>s \<in> set again. valid_slot s \<longrightarrow> to_update s \<and> (\<exists>s0 \<in> set slots. valid_slot s0 \<and> slot_id s = slot_id s0 \<and> sl_set s = sl_set s0)"
    using assms(5) by (simp add: to_update_def)
  note silent = commit_again[OF b assms(3) d prepare_set_ok[OF assms(1)] again assms(6) assms(4)]
  show ?thesis by (intro conjI) (rule silent)+
qed

lemma demo_commit_again: "commit [] ''t'' ''api'' demo_defs [demo_slot] (snd (commit [] ''t'' ''api'' demo_defs [demo_slot] demo_start)) =
    (Inr (projr (fst (commit [] ''t'' ''api'' demo_defs [demo_slot] (snd (commit [] ''t'' ''api'' demo_defs [demo_slot] demo_start))))),
     snd (commit [] ''t'' ''api'' demo_defs [demo_slot] (snd (commit [] ''t'' ''api'' demo_defs [demo_slot] demo_start))))"
  by (rule Inr_pair) code_simp

lemma repeated_batch_is_silent_witness:
  "db_contacts (w_db (snd (commit [] ''t'' ''api'' demo_defs [demo_slot] (snd (commit [] ''t'' ''api'' demo_defs [demo_slot] demo_start))))) =
    db_contacts (w_db (snd (commit [] ''t'' ''api'' demo_defs [demo_slot] demo_start)))"
proof -
  have "\<forall>s \<in> set [demo_slot]. valid_slot s \<longrightarrow> \<not> ir_created (sl_r s) \<and>
      (\<exists>s0 \<in> set [demo_slot]. valid_slot s0 \<and> slot_id s = slot_id s0 \<and> sl_set s = sl_set s0)"
    by (simp add: demo_slot_def)
  from repeated_batch_is_silent[OF demo_prepare[folded demo_defs_def] demo_commit demo_constraints no_hooks this demo_commit_again]
  show ?thesis by blast
qed

end
