(* ===== verification/Field_Properties.thy ===== *)
theory Field_Properties
  imports Contacts_Write_Properties
begin

text \<open>The properties of the field registry, the key resolver and the fields service.\<close>

section \<open>Values and names\<close>

text \<open>C11. A normalised value is null or well-formed for its field's type (choices are options of the
  field, dates exist, option lists have no repeats), and normalising it again changes nothing; a
  rejected value reports code 2010.\<close>

theorem normalized_values:
  "case normalizeValue type ids raw of
     Inr v \<Rightarrow> (v \<noteq> JNull \<longrightarrow> stored_ok type ids v) \<and> normalizeValue type ids v = Inr v
   | Inl (c, _) \<Rightarrow> c = 2010"
  using normalizeValue_stored normalizeValue_idem normalizeValue_error
  by (auto split: sum.split)

lemma normalized_values_witness: "stored_ok FMulti [1, 2] (JArr [int_json 2, int_json 1])"
proof -
  have "normalizeValue FMulti [1, 2] (JArr [JStr ''2'', JNum (int_num 1), JStr ''02'']) = Inr (JArr [int_json 2, int_json 1])"
    by code_simp
  with normalized_values[of FMulti "[1, 2]" "JArr [JStr ''2'', JNum (int_num 1), JStr ''02'']"] show ?thesis by simp
qed

text \<open>The name that a public field gets from its title is a valid API name, whatever the title.\<close>

theorem generated_names_are_valid: "is_api_name (snakeCase title)"
  by (rule snakeCase_api_name)

section \<open>Keys\<close>

text \<open>C12. A key resolves to a contact exactly when it was asked for and a live contact of the
  tenant holds it under the field's normalisation; keys by \<open>id\<close> must be UUIDs. So two contacts
  never answer one key.\<close>

theorem keys_resolve_to_holders:
  assumes "constraints d"
  shows "map_of (resolveKeys t keyId keys d) v = Some i \<longleftrightarrow>
    v \<in> set keys \<and> (keyId = ''id'' \<longrightarrow> is_uuid v) \<and> i \<noteq> [] \<and> holds_key t keyId v d i"
  by (rule resolveKeys_spec[OF assms])

lemma keys_resolve_to_holders_witness: "holds_key ''t'' ''3'' '' A'' (w_db demo_start) ''c''"
proof -
  have "map_of (resolveKeys ''t'' ''3'' ['' A''] (w_db demo_start)) '' A'' = Some ''c''"
    by code_simp
  with keys_resolve_to_holders[OF demo_constraints] show ?thesis by blast
qed

section \<open>The service\<close>

text \<open>Creating a field, on tables that satisfy the fields' constraints: a name in use among the
  tenant's live fields is reported as 2015 and leaves the database as it was; otherwise the new
  field has the request's data and an id from 1000 on, above every id the tenant ever had, deleted
  fields included. The constraints are kept and the tenant's cached fields are dropped.\<close>

theorem create_field_outcome:
  assumes "fields_inv (w_db w)" and "createField t input w = (r, w')"
  shows "fields_inv (w_db w') \<and> map_of (w_cache w') t = None \<and>
    (case r of
       Inl e \<Rightarrow> name_taken t (fc_api_name input) (w_db w) \<and> e = nameInUse (fc_api_name input) \<and> w_db w' = w_db w
     | Inr f \<Rightarrow> \<not> name_taken t (fc_api_name input) (w_db w) \<and> db_fields (w_db w') = db_fields (w_db w) @ [f] \<and>
         fd_tenant f = t \<and> fd_apiName f = fc_api_name input \<and> fd_type f = fc_type input \<and> fd_unique f = fc_unique input \<and>
         1000 \<le> fd_fieldId f \<and> (\<forall>g \<in> set (db_fields (w_db w)). fd_tenant g = t \<longrightarrow> fd_fieldId g < fd_fieldId f))"
proof -
  have inv: "fields_inv (w_db w')" using createField_inv[OF assms(1), of t input] assms(2) by simp
  have cache: "map_of (w_cache w') t = None"
    using assms(2) by (auto simp: createField_eq[OF assms(1)] Let_def invalidate_def split: if_splits)
  show ?thesis
  proof (cases "name_taken t (fc_api_name input) (w_db w)")
    case True
    then show ?thesis using assms(2) inv cache by (auto simp: createField_eq[OF assms(1)] Let_def)
  next
    case False
    then have r: "r = Inr (created_field t input (w_db w))" "db_fields (w_db w') = db_fields (w_db w) @ [created_field t input (w_db w)]"
      using assms(2) by (auto simp: createField_eq[OF assms(1)] Let_def)
    have n: "1000 \<le> next_id t (w_db w)" "\<forall>g \<in> set (db_fields (w_db w)). fd_tenant g = t \<longrightarrow> fd_fieldId g < next_id t (w_db w)"
      using next_id_ge next_id_fresh[OF assms(1)] assms(1) by (auto simp: fields_inv_def)
    show ?thesis unfolding r sum.case
      using False inv cache n r(2) by (simp add: created_field_def)
  qed
qed

definition demo_field_create :: field_create where
  "demo_field_create = \<lparr>fc_api_name = ''size'', fc_type = FText, fc_labels = JNull, fc_choices = [], fc_unique = False\<rparr>"

lemma demo_fields_inv: "fields_inv (w_db demo_start)"
  by (auto simp: fields_inv_def demo_start_def demo_world_def demo_db_def demo_field_def field_clash_def id_origin_def
      counters_ok_def split: if_splits)

lemma create_field_outcome_witness: "fields_inv (w_db (snd (createField ''t'' demo_field_create demo_start)))"
  using create_field_outcome[OF demo_fields_inv prod.collapse[symmetric]] by blast

text \<open>C13. An update keeps the field's id, type, uniqueness and tenant, does not rename a system
  field, and never drops an option that a live contact of the tenant holds.\<close>

theorem update_field_keeps_data_valid:
  assumes "updateFieldDef t n input w = (Inr g, w')"
  shows "\<exists>def \<in> set (db_fields (w_db w)). fd_tenant def = t \<and> fd_fieldId def = n \<and> fd_deletedAt def = None \<and>
    fd_tenant g = t \<and> fd_fieldId g = n \<and> fd_type g = fd_type def \<and> fd_unique g = fd_unique def \<and>
    (fd_isSystem def \<longrightarrow> fd_apiName g = fd_apiName def) \<and>
    (\<forall>c \<in> set (fd_choices def). choice_used t n (ch_id c) (w_db w) \<longrightarrow> ch_id c \<in> ch_id ` set (fd_choices g))"
proof -
  obtain def where def: "findField t n w = (Inr def, w)" "fd_tenant g = t" "fd_fieldId g = n" "fd_type g = fd_type def"
      "fd_unique g = fd_unique def" "changeName def input w = (Inr (fd_apiName g), w)"
    using updateFieldDef_Inr[OF assms] by blast
  have "fd_isSystem def \<Longrightarrow> fd_apiName g = fd_apiName def"
    using changeName_cases[OF def(6)] by auto
  then show ?thesis
    using def findField_tenant[OF def(1)] updateFieldDef_keeps_used[OF assms def(1)]
    by (intro bexI[of _ def]) auto
qed

definition demo_field_update :: field_update where
  "demo_field_update = \<lparr>fu_api_name = Some ''sku'', fu_labels = None, fu_choices = None\<rparr>"

lemma demo_field_updated: "updateFieldDef ''t'' 1000 demo_field_update demo_start =
    (Inr (projr (fst (updateFieldDef ''t'' 1000 demo_field_update demo_start))), snd (updateFieldDef ''t'' 1000 demo_field_update demo_start))"
  by (rule Inr_pair) code_simp

lemma update_field_keeps_data_valid_witness: "fd_fieldId (projr (fst (updateFieldDef ''t'' 1000 demo_field_update demo_start))) = 1000"
  using update_field_keeps_data_valid[OF demo_field_updated] by blast

text \<open>The changes of the fields service leave the registry coherent: after creating, updating
  or deleting a field, what the process has cached for the tenant is what the database holds.\<close>

theorem field_changes_keep_the_cache_coherent:
  assumes "coherent t w"
  shows "coherent t (snd (createField t ci w)) \<and> coherent t (snd (updateFieldDef t n ui w)) \<and> coherent t (snd (removeField t n w))"
  using removeField_coherent[OF assms] by (simp add: createField_def updateFieldDef_def finallyA_coherent)

lemma field_changes_keep_the_cache_coherent_witness: "coherent ''t'' (snd (removeField ''t'' 1000 demo_start))"
  using field_changes_keep_the_cache_coherent[of "''t''" demo_start]
  by (simp add: coherent_def demo_start_def demo_world_def)

text \<open>Seeding the system fields does not drop the cache: a process that read a tenant's fields
  before the seeding keeps serving the empty list it cached.\<close>

theorem seeding_leaves_a_stale_cache:
  assumes "map_of (w_cache w) t = None" and "live_fields t (w_db w) = []" and "sys \<noteq> []" and "db_fields (w_db w) = []"
  shows "\<exists>w1 w2. registryFields t w = (Inr [], w1) \<and> seedSystemFields sys t w1 = (Inr (), w2) \<and>
    registryFields t w2 = (Inr [], w2) \<and> live_fields t (w_db w2) \<noteq> []"
proof -
  define w1 where "w1 = w\<lparr>w_cache := alist_put t [] (w_cache w)\<rparr>"
  define w2 where "w2 = w1\<lparr>w_db := (w_db w1)\<lparr>db_fields := insert_skipping [] (map (system_def t) sys)\<rparr>\<rparr>"
  have 1: "registryFields t w = (Inr [], w1)" using assms(1,2) by (simp add: registryFields_def w1_def)
  have 2: "seedSystemFields sys t w1 = (Inr (), w2)" using assms(4) by (simp add: seedSystemFields_def w2_def w1_def)
  have 3: "registryFields t w2 = (Inr [], w2)" by (simp add: registryFields_def w2_def w1_def)
  obtain f fs where sys: "sys = f # fs" using assms(3) by (cases sys) auto
  have more: "set xs \<subseteq> set (insert_skipping xs ys)" for xs ys
    by (induction xs ys rule: insert_skipping.induct) auto
  have "system_def t f \<in> set (insert_skipping [] (map (system_def t) sys))"
    using more[of "[system_def t f]" "map (system_def t) fs"] by (simp add: sys)
  then have "system_def t f \<in> set (live_fields t (w_db w2))"
    by (simp add: live_fields_set w2_def w1_def) (simp add: system_def_def)
  then have "live_fields t (w_db w2) \<noteq> []" by auto
  with 1 2 3 show ?thesis by blast
qed

lemma seeding_leaves_a_stale_cache_witness:
  "\<exists>w1. registryFields ''u'' (demo_world ((demo_db [] [])\<lparr>db_fields := []\<rparr>)) = (Inr [], w1)"
proof -
  let ?w = "demo_world ((demo_db [] [])\<lparr>db_fields := []\<rparr>)"
  have "map_of (w_cache ?w) ''u'' = None" "live_fields ''u'' (w_db ?w) = []" "db_fields (w_db ?w) = []"
    by (simp_all add: demo_world_def live_fields_def)
  from seeding_leaves_a_stale_cache[OF this(1,2) _ this(3), of "[demo_field 3 ''email'' True]"] show ?thesis by auto
qed

text \<open>Options sent with an id when a field is created keep it, so an option without one may get
  the same: two options of the new field then share the id 1.\<close>

theorem created_options_may_share_an_id:
  "map ch_id (withChoiceIds [\<lparr>ci_id = None, ci_api_name = ''a'', ci_labels = JNull\<rparr>, \<lparr>ci_id = Some 1, ci_api_name = ''b'', ci_labels = JNull\<rparr>] []) = [1, 1]"
  by (simp add: withChoiceIds_def)

end
