(* ===== verification/Contacts_Delete.thy ===== *)
theory Contacts_Delete
  imports Contacts_Write_Properties
begin

text \<open>
  Deletes of the contact write service: what a soft delete leaves in every table, and that a
  deleted contact can no longer be found.
\<close>

section \<open>Soft deletes\<close>

definition delete_effect :: "string \<Rightarrow> string list \<Rightarrow> int \<Rightarrow> db \<Rightarrow> db" where
  "delete_effect t is now d = (let gone = gone_ids t is d in d\<lparr>
     db_contacts := map (delete_row t is now) (db_contacts d),
     db_uniques := filter (\<lambda>u. \<not> (uv_tenant u = t \<and> List.member gone (uv_contact u))) (db_uniques d)\<rparr>)"

lemma gone_ids_Nil [simp]: "gone_ids t [] d = []"
  by (simp add: gone_ids_def)

lemma gone_ids_mem: "i \<in> set (gone_ids t is d) \<longleftrightarrow> (\<exists>c \<in> set (live_contacts t d). ct_id c = i \<and> list_ex (uuid_eq i) is)"
  by (auto simp: gone_ids_def)

lemma delete_row_other: "\<not> (ct_tenant c = t \<and> live c \<and> list_ex (uuid_eq (ct_id c)) is) \<Longrightarrow> delete_row t is now c = c"
  unfolding delete_row_def by (rule if_not_P)

lemma delete_nothing: "gone_ids t is d = [] \<Longrightarrow> map (delete_row t is now) (db_contacts d) = db_contacts d"
  by (auto simp: gone_ids_def filter_empty_conv live_contacts_set delete_row_def intro!: map_idI)

lemma softDelete_eq: "softDelete t is w = (if is = [] then (Inr [], w) else
    (Inr (gone_ids t is (w_db w)), snd (flush (add_events t ''contacts.deleted'' (deletedEvents (gone_ids t is (w_db w)) ''api'')
       (w\<lparr>w_db := delete_effect t is (w_now w) (w_db w)\<rparr>)))))"
proof (cases "gone_ids t is (w_db w) = []")
  case True
  then have "delete_effect t is (w_now w) (w_db w) = w_db w"
    by (simp add: delete_effect_def Let_def delete_nothing)
  with True show ?thesis
    by (simp add: softDelete_def bindM_def transaction_def flush_def delete_nothing add_events_def deletedEvents_def)
next
  case False
  then show ?thesis
    by (simp add: softDelete_def bindM_def transaction_def flush_def outboxDeleted_def delete_effect_def Let_def)
qed

lemma delete_live: "live (delete_row t is now c) \<longleftrightarrow> live c \<and> \<not> (ct_tenant c = t \<and> list_ex (uuid_eq (ct_id c)) is)"
  by (auto simp: delete_row_def live_def)

lemma delete_ids [simp]: "ct_id (delete_row t is now c) = ct_id c" "ct_tenant (delete_row t is now c) = ct_tenant c"
  "ct_data (delete_row t is now c) = ct_data c"
  by (simp_all add: delete_row_def)

lemma live_after_delete: "live_contacts t (delete_effect t is now d) =
    filter (\<lambda>c. \<not> list_ex (uuid_eq (ct_id c)) is) (live_contacts t d)"
proof -
  have "filter (\<lambda>c. ct_tenant c = t \<and> live c) (map (delete_row t is now) cs) =
      filter (\<lambda>c. \<not> list_ex (uuid_eq (ct_id c)) is) (filter (\<lambda>c. ct_tenant c = t \<and> live c) cs)" for cs
    by (induction cs) (auto simp: delete_live delete_row_other)
  then show ?thesis by (simp add: live_contacts_def delete_effect_def Let_def)
qed

lemma delete_clash: "clash (delete_row t is now c) (delete_row t is now d) \<Longrightarrow> clash c d"
  unfolding clash_def index_clash_def delete_live by auto

lemma delete_constraints: "constraints d \<Longrightarrow> constraints (delete_effect t is now d)"
proof -
  assume d: "constraints d"
  have "pairwise_clash_free (map (delete_row t is now) cs)" if "pairwise_clash_free cs" for cs
    using that by (induction cs) (auto simp: pairwise_clash_free_Cons dest: delete_clash)
  with d show ?thesis by (simp add: constraints_def delete_effect_def Let_def distinct_map_filter)
qed

text \<open>A unique value of a deleted contact is free again.\<close>

lemma delete_uniques: "u \<in> set (db_uniques (delete_effect t is now d)) \<longleftrightarrow>
    u \<in> set (db_uniques d) \<and> \<not> (uv_tenant u = t \<and> uv_contact u \<in> set (gone_ids t is d))"
  by (auto simp: delete_effect_def Let_def)

lemma gone_after_delete: "gone_ids t is (delete_effect t is now d) = []"
  unfolding gone_ids_def live_after_delete by (simp add: filter_empty_conv)

lemma delete_in_step:
  assumes "constraints d" "in_step t defs d"
  shows "in_step t defs (delete_effect t is now d)"
  unfolding in_step_def
proof (intro allI impI)
  fix k v i assume k: "is_field_key k" "is_custom_unique defs k"
  let ?u = "\<lparr>uv_tenant = t, uv_field = digits_int k, uv_value = v, uv_contact = i\<rparr>"
  have st: "?u \<in> set (db_uniques d) \<longleftrightarrow> (\<exists>c \<in> set (live_contacts t d). ct_id c = i \<and> uniqueText (ct_data c) k = Some v)"
    using assms(2) k by (simp add: in_step_def)
  show "?u \<in> set (db_uniques (delete_effect t is now d)) \<longleftrightarrow>
      (\<exists>c \<in> set (live_contacts t (delete_effect t is now d)). ct_id c = i \<and> uniqueText (ct_data c) k = Some v)"
    unfolding delete_uniques live_after_delete st by (auto simp: gone_ids_mem)
qed

section \<open>Deletes by key\<close>

text \<open>What a pending item may be: its result has a key and no id and no error yet.\<close>

lemma keyed_from_start: "s \<in> set (keyed_from keyId i seen items) \<Longrightarrow>
    (if sl_pending s then ir_error (sl_r s) = None \<and> ir_key (sl_r s) \<noteq> None else \<exists>e. ir_error (sl_r s) = Some e \<and> ie_code e = 2014) \<and>
    ir_id (sl_r s) = None"
proof (induction keyId i seen items rule: keyed_from.induct)
  case (2 keyId i seen item items)
  have "trim [] = []" by (simp add: trim_def strip_def)
  with 2 show ?case
    by (auto simp: Let_def failS_def failR_def start_slot_def split: if_splits)
qed simp

lemma resolve_Inr: "resolve t keyId values w = (Inr found, w') \<Longrightarrow>
    w_db w' = w_db w \<and> found = resolveKeys t keyId values (w_db w)"
  by (auto simp: resolve_def bindM_Inr assertKey_def dest: registryFields_db split: if_splits option.splits)

lemma assertKey_Inr: "assertKey t keyId w = (Inr u, w') \<Longrightarrow> w_db w' = w_db w"
  by (auto simp: assertKey_def bindM_Inr dest: registryFields_db split: if_splits option.splits)

definition found_ids :: "slot list \<Rightarrow> string list" where
  "found_ids slots = map slot_id (filter (\<lambda>s. sl_pending s \<and> ir_id (sl_r s) \<noteq> None) slots)"

lemma deleteByKey_Inr:
  assumes "deleteByKey t keyId items w = (Inr rs, w')"
  shows "\<exists>found gone. found = resolveKeys t keyId (map key_of (filter sl_pending (keyed keyId items))) (w_db w) \<and>
    rs = results_of (map (deleted_slot gone) (map (found_slot found) (keyed keyId items))) \<and>
    (let ii = found_ids (map (found_slot found) (keyed keyId items)) in
      gone = gone_ids t ii (w_db w) \<and> live_contacts t (w_db w') = live_contacts t (delete_effect t ii (w_now w') (w_db w)))"
proof -
  from assms obtain v1 v2 found gone where a: "assertKey t keyId w = (Inr (), v1)"
    and r: "resolve t keyId (map key_of (filter sl_pending (keyed keyId items))) v1 = (Inr found, v2)"
    and d: "softDelete t (found_ids (map (found_slot found) (keyed keyId items))) v2 = (Inr gone, w')"
    and rs: "rs = results_of (map (deleted_slot gone) (map (found_slot found) (keyed keyId items)))"
    by (auto simp: deleteByKey_def bindM_Inr Let_def found_ids_def)
  have db: "w_db v1 = w_db w" "w_db v2 = w_db w" "found = resolveKeys t keyId (map key_of (filter sl_pending (keyed keyId items))) (w_db w)"
    using assertKey_Inr[OF a] resolve_Inr[OF r] by simp_all
  have "delete_effect t [] n x = x" for n x
    by (simp add: delete_effect_def Let_def delete_nothing)
  then have "gone = gone_ids t (found_ids (map (found_slot found) (keyed keyId items))) (w_db w) \<and>
      live_contacts t (w_db w') = live_contacts t (delete_effect t (found_ids (map (found_slot found) (keyed keyId items))) (w_now w') (w_db w))"
    using d db(2) by (auto simp: softDelete_eq flush_def live_contacts_def split: if_splits)
  with rs db(3) show ?thesis by (metis (no_types, lifting))
qed

text \<open>The result of each item.\<close>

lemma resolveKeys_self:
  assumes "constraints d" "v \<in> set values"
  shows "map_of (resolveKeys t keyId values d) v = Some i \<longleftrightarrow> (keyId = ''id'' \<longrightarrow> is_uuid v) \<and> i \<noteq> [] \<and> holds_key t keyId v d i"
  using resolveKeys_spec[OF assms(1), of t keyId "values" v i] assms(2) by simp

definition deleted_result :: "string \<Rightarrow> string \<Rightarrow> db \<Rightarrow> db \<Rightarrow> item_result \<Rightarrow> bool" where
  "deleted_result t keyId d d' r = (case ir_error r of
      None \<Rightarrow> (\<exists>k i. ir_key r = Some k \<and> ir_id r = Some i \<and> holds_key t keyId k d i \<and> i \<notin> ct_id ` set (live_contacts t d'))
    | Some e \<Rightarrow> ir_id r = None \<and> (ie_code e = 2014 \<or> (ie_code e = 2008 \<and> (\<exists>k. ir_key r = Some k \<and>
        (\<forall>i. holds_key t keyId k d i \<longrightarrow> i = [] \<or> (keyId = ''id'' \<and> \<not> is_uuid k))))))"

lemma uuid_eq_refl [simp]: "uuid_eq a a"
  by (simp add: uuid_eq_def)

lemma deleteByKey_results:
  assumes "deleteByKey t keyId items w = (Inr rs, w')" "constraints (w_db w)"
  shows "length rs = length items" and "r \<in> set rs \<Longrightarrow> deleted_result t keyId (w_db w) (w_db w') r"
    and "set (live_contacts t (w_db w')) = {c \<in> set (live_contacts t (w_db w)). \<forall>r \<in> set rs. \<forall>i. ir_id r = Some i \<longrightarrow> \<not> uuid_eq (ct_id c) i}"
proof -
  define slots where "slots = keyed keyId items"
  define found where "found = resolveKeys t keyId (map key_of (filter sl_pending slots)) (w_db w)"
  define ii where "ii = found_ids (map (found_slot found) slots)"
  have rs: "rs = results_of (map (deleted_slot (gone_ids t ii (w_db w))) (map (found_slot found) slots))"
    and live': "live_contacts t (w_db w') = filter (\<lambda>c. \<not> list_ex (uuid_eq (ct_id c)) ii) (live_contacts t (w_db w))"
    using deleteByKey_Inr[OF assms(1)] by (auto simp: Let_def slots_def found_def ii_def live_after_delete)
  show "length rs = length items" by (simp add: rs results_of_def slots_def)
  have found: "map_of found (key_of s) = Some i \<longleftrightarrow> (keyId = ''id'' \<longrightarrow> is_uuid (key_of s)) \<and> i \<noteq> [] \<and> holds_key t keyId (key_of s) (w_db w) i"
    if "s \<in> set slots" "sl_pending s" for s i
    unfolding found_def using that by (intro resolveKeys_self[OF assms(2)]) auto
  have start: "(if sl_pending s then ir_error (sl_r s) = None \<and> ir_key (sl_r s) \<noteq> None else \<exists>e. ir_error (sl_r s) = Some e \<and> ie_code e = 2014) \<and>
      ir_id (sl_r s) = None" if "s \<in> set slots" for s
    using keyed_from_start that unfolding slots_def keyed_def by blast
  have same: "deleted_slot (gone_ids t ii (w_db w)) (found_slot found s) = found_slot found s" if s: "s \<in> set slots" for s
  proof (cases "sl_pending s \<and> map_of found (key_of s) \<noteq> None")
    case True
    then obtain i where i: "map_of found (key_of s) = Some i" by auto
    have fs: "sl_pending (found_slot found s)" "ir_id (sl_r (found_slot found s)) = Some i" "slot_id (found_slot found s) = i"
      using True i by (simp_all add: found_slot_def slot_id_def)
    have "found_slot found s \<in> set (filter (\<lambda>s. sl_pending s \<and> ir_id (sl_r s) \<noteq> None) (map (found_slot found) slots))"
      using s fs by simp
    from imageI[OF this, of slot_id] have "i \<in> set ii" unfolding ii_def found_ids_def set_map fs(3) .
    moreover obtain c where "c \<in> set (live_contacts t (w_db w))" "ct_id c = i"
      using found[OF s] True i by (auto simp: holds_key_def)
    ultimately have "i \<in> set (gone_ids t ii (w_db w))" by (auto simp: gone_ids_mem list_ex_iff intro!: bexI[of _ i])
    then show ?thesis using True i by (simp add: deleted_slot_def found_slot_def slot_id_def)
  next
    case False
    then show ?thesis using start[OF s] by (auto simp: deleted_slot_def found_slot_def failS_def failR_def split: option.splits)
  qed
  then have rs': "rs = map (\<lambda>s. sl_r (found_slot found s)) slots" by (simp add: rs results_of_def)
  have ids: "{i. \<exists>r \<in> set rs. ir_id r = Some i} = set ii"
  proof -
    have pend: "sl_pending (found_slot found s) = sl_pending s" for s by (simp add: found_slot_def failS_def split: option.split)
    have none: "s \<in> set slots \<Longrightarrow> ir_id (sl_r (found_slot found s)) = Some i \<Longrightarrow> sl_pending s \<and> slot_id (found_slot found s) = i" for s i
      using start[of s] by (cases "sl_pending s") (auto simp: found_slot_def slot_id_def)
    show ?thesis unfolding rs' ii_def found_ids_def set_map set_filter
    proof (intro equalityI subsetI)
      fix i assume "i \<in> {i. \<exists>r \<in> (\<lambda>s. sl_r (found_slot found s)) ` set slots. ir_id r = Some i}"
      then obtain s where s: "s \<in> set slots" "ir_id (sl_r (found_slot found s)) = Some i" by auto
      then show "i \<in> slot_id ` {x \<in> found_slot found ` set slots. sl_pending x \<and> ir_id (sl_r x) \<noteq> None}"
        using none[OF s] pend[of s] by (intro image_eqI[of _ _ "found_slot found s"]) auto
    next
      fix i assume "i \<in> slot_id ` {x \<in> found_slot found ` set slots. sl_pending x \<and> ir_id (sl_r x) \<noteq> None}"
      then obtain s j where s: "s \<in> set slots" "i = slot_id (found_slot found s)" "ir_id (sl_r (found_slot found s)) = Some j" by blast
      then have "ir_id (sl_r (found_slot found s)) = Some i" using none[OF s(1,3)] by simp
      then show "i \<in> {i. \<exists>r \<in> (\<lambda>s. sl_r (found_slot found s)) ` set slots. ir_id r = Some i}" using s(1) by blast
    qed
  qed
  show "set (live_contacts t (w_db w')) = {c \<in> set (live_contacts t (w_db w)). \<forall>r \<in> set rs. \<forall>i. ir_id r = Some i \<longrightarrow> \<not> uuid_eq (ct_id c) i}"
    unfolding live' using ids by (auto simp: list_ex_iff)
  show "deleted_result t keyId (w_db w) (w_db w') r" if rin: "r \<in> set rs"
  proof -
    obtain s where s: "s \<in> set slots" "r = sl_r (found_slot found s)" using rin rs' by auto
    show ?thesis
    proof (cases "sl_pending s")
      case False
      then show ?thesis using s start[OF s(1)] by (auto simp: deleted_result_def found_slot_def)
    next
      case True
      then obtain k where k: "ir_key (sl_r s) = Some k" "key_of s = k" "ir_error (sl_r s) = None" "ir_id (sl_r s) = None"
        using start[OF s(1)] by (auto simp: key_of_def)
      show ?thesis
      proof (cases "map_of found k")
        case None
        then have "\<not> ((keyId = ''id'' \<longrightarrow> is_uuid k) \<and> i \<noteq> [] \<and> holds_key t keyId k (w_db w) i)" for i
          using found[OF s(1) True, of i] k(2) by simp
        then show ?thesis using None s k True by (auto simp: deleted_result_def found_slot_def failS_def failR_def)
      next
        case (Some i)
        then have h: "holds_key t keyId k (w_db w) i" using found[OF s(1) True, of i] k(2) by simp
        have r: "ir_error r = None" "ir_key r = Some k" "ir_id r = Some i" using s k True Some by (simp_all add: found_slot_def)
        have "i \<notin> ct_id ` set (live_contacts t (w_db w'))"
        proof -
          have "i \<in> set ii" using ids rin r(3) by blast
          then show ?thesis unfolding live' by (auto simp: list_ex_iff dest: bspec[of _ _ i])
        qed
        then show ?thesis using r h by (simp add: deleted_result_def)
      qed
    qed
  qed
qed

section \<open>Properties\<close>

text \<open>C8. A delete by key that returns gives one result per item: a success names a contact that
  held the key and that is no longer a live contact of the tenant; a failure is a missing or
  repeated key (2014) or a key no live contact held (2008). Every other live contact is left
  exactly as it was.\<close>

theorem delete_by_key:
  assumes "deleteByKey t keyId items w = (Inr rs, w')" and "constraints (w_db w)"
  shows "length rs = length items \<and> (\<forall>r \<in> set rs. deleted_result t keyId (w_db w) (w_db w') r) \<and>
    set (live_contacts t (w_db w')) = {c \<in> set (live_contacts t (w_db w)). \<forall>r \<in> set rs. \<forall>i. ir_id r = Some i \<longrightarrow> \<not> uuid_eq (ct_id c) i}"
  using deleteByKey_results[OF assms] by blast

lemma demo_delete: "deleteByKey ''t'' ''3'' [[(''3'', JStr '' A'')], [(''3'', JStr ''b'')]] demo_start =
    (Inr (projr (fst (deleteByKey ''t'' ''3'' [[(''3'', JStr '' A'')], [(''3'', JStr ''b'')]] demo_start))),
     snd (deleteByKey ''t'' ''3'' [[(''3'', JStr '' A'')], [(''3'', JStr ''b'')]] demo_start))"
  by (rule Inr_pair) code_simp

lemma delete_by_key_witness:
  "length (projr (fst (deleteByKey ''t'' ''3'' [[(''3'', JStr '' A'')], [(''3'', JStr ''b'')]] demo_start))) = 2"
  using delete_by_key[OF demo_delete demo_constraints] by simp

text \<open>A soft delete reports the tenant's live contacts with the ids given, ends their life,
  frees their unique values and leaves one \<open>contacts.deleted\<close> event for each; the constraints
  and the \<open>unique_values\<close> invariant are kept, and deleting the same ids again finds nothing.\<close>

theorem soft_delete_frees_values:
  assumes "softDelete t is w = (Inr gone, w')" and "constraints (w_db w)" and "in_step t defs (w_db w)"
  shows "gone = gone_ids t is (w_db w) \<and> constraints (w_db w') \<and> in_step t defs (w_db w') \<and>
    (\<forall>u \<in> set (db_uniques (w_db w')). uv_tenant u = t \<longrightarrow> uv_contact u \<notin> set gone) \<and>
    gone_ids t is (w_db w') = [] \<and>
    (\<exists>new. db_outbox (w_db w') = db_outbox (w_db w) @ new \<and>
      map (\<lambda>r. (ob_subject r, ev_contact_id (ob_envelope r))) new = map (\<lambda>i. (subjectFor ''contacts.deleted'' t, Some i)) gone)"
proof (cases "is = []")
  case True
  then show ?thesis using assms by (simp add: softDelete_eq)
next
  case False
  let ?d = "delete_effect t is (w_now w) (w_db w)"
  from assms(1) False have g: "gone = gone_ids t is (w_db w)"
    and w': "w' = snd (flush (add_events t ''contacts.deleted'' (deletedEvents gone ''api'') (w\<lparr>w_db := ?d\<rparr>)))"
    by (auto simp: softDelete_eq)
  have db: "db_contacts (w_db w') = db_contacts ?d" "db_uniques (w_db w') = db_uniques ?d"
    by (simp_all add: w' flush_def)
  then have live: "live_contacts t (w_db w') = live_contacts t ?d" by (simp add: live_contacts_def)
  have c: "constraints (w_db w')" using delete_constraints[OF assms(2), of t "is" "w_now w"] by (simp add: constraints_def db)
  have s: "in_step t defs (w_db w')"
    using delete_in_step[OF assms(2,3), of "is" "w_now w"] by (simp add: in_step_def live db)
  have u: "\<forall>u \<in> set (db_uniques (w_db w')). uv_tenant u = t \<longrightarrow> uv_contact u \<notin> set gone"
    unfolding db g using delete_uniques by blast
  have n: "gone_ids t is (w_db w') = []"
    using gone_after_delete[of t "is" "w_now w" "w_db w"] by (simp add: gone_ids_def live)
  define rows where "rows = event_rows (w_ids w) (w_next w) (w_now w) t ''contacts.deleted'' (deletedEvents gone ''api'')"
  have "db_outbox (w_db w') = db_outbox (w_db w) @ rows"
    by (simp add: w' flush_def add_events_def delete_effect_def Let_def rows_def)
  moreover have "map (\<lambda>r. (ob_subject r, ev_contact_id (ob_envelope r))) rows = map (\<lambda>i. (subjectFor ''contacts.deleted'' t, Some i)) gone"
    using arg_cong[OF event_rows_meta[of "w_ids w" "w_next w" "w_now w" t "''contacts.deleted''" "deletedEvents gone ''api''"],
        of "map (\<lambda>(_, s, _, c, _). (s, c))"] by (simp add: rows_def deletedEvents_def comp_def)
  ultimately show ?thesis using g c s u n by blast
qed

lemma demo_soft_delete: "softDelete ''t'' [''c''] demo_start =
    (Inr (projr (fst (softDelete ''t'' [''c''] demo_start))), snd (softDelete ''t'' [''c''] demo_start))"
  by (rule Inr_pair) code_simp

lemma soft_delete_frees_values_witness: "gone_ids ''t'' [''c''] (w_db (snd (softDelete ''t'' [''c''] demo_start))) = []"
  using soft_delete_frees_values[OF demo_soft_delete demo_constraints demo_in_step] by blast

section \<open>A key that no lookup finds\<close>

text \<open>
  The stored e-mail starts with a tab: JavaScript's \<open>trim\<close> strips it, the index column's
  \<open>trim\<close> does not.
\<close>

definition tab_world :: world where
  "tab_world = demo_world (demo_db [demo_contact ''c'' [(''3'', JStr (CHR 0x09 # ''a''))]] [])"

definition tab_items :: "object list" where
  "tab_items = [[(''3'', JStr (CHR 0x09 # ''a''))], [(''3'', JStr ''b'')]]"


end
