(* ===== verification/Cursor_Codec.thy ===== *)
theory Cursor_Codec
  imports Js_Runtime
begin

text \<open>
  The cursors of the list endpoints (\<open>encode\<close> and \<open>decode\<close> of \<open>lists.service.ts\<close>):
  \<open>JSON.stringify\<close> of an array of strings, as UTF-8, in base64url. What the code uses of Node's
  \<open>Buffer\<close> and of \<open>JSON\<close> is written out: decoding skips characters outside the alphabet and
  takes the alphabets of base64 and base64url; a JSON text that is not an array of strings, valid
  or not, is one and the same error of \<open>decode\<close>. Bytes and escapes that stand for units from
  256 on are outside the model's strings and read as invalid.
\<close>

abbreviation chr :: "nat \<Rightarrow> char" where
  "chr \<equiv> char_of"

section \<open>Base64url\<close>

definition b64_char :: "nat \<Rightarrow> char" where
  "b64_char n = (if n < 26 then chr (65 + n) else if n < 52 then chr (71 + n)
     else if n < 62 then chr (n - 4) else if n = 62 then CHR ''-'' else CHR ''_'')"

definition b64_val :: "char \<Rightarrow> nat option" where
  "b64_val c = (if upper_alpha c then Some (code c - 65) else if lower_alpha c then Some (code c - 71)
     else if digit_char c then Some (code c + 4) else if code c = 45 \<or> code c = 43 then Some 62
     else if code c = 95 \<or> code c = 47 then Some 63 else None)"

fun b64_sextets :: "nat list \<Rightarrow> nat list" where
  "b64_sextets [] = []"
| "b64_sextets [a] = [a div 4, a mod 4 * 16]"
| "b64_sextets [a, b] = [a div 4, a mod 4 * 16 + b div 16, b mod 16 * 4]"
| "b64_sextets (a # b # c # bs) = [a div 4, a mod 4 * 16 + b div 16, b mod 16 * 4 + c div 64, c mod 64] @ b64_sextets bs"

fun b64_bytes :: "nat list \<Rightarrow> nat list" where
  "b64_bytes (p # q # r # s # vs) = [p * 4 + q div 16, q mod 16 * 16 + r div 4, r mod 4 * 64 + s] @ b64_bytes vs"
| "b64_bytes [p, q, r] = [p * 4 + q div 16, q mod 16 * 16 + r div 4]"
| "b64_bytes [p, q] = [p * 4 + q div 16]"
| "b64_bytes vs = []"

definition b64_encode :: "nat list \<Rightarrow> string" where
  "b64_encode bs = map b64_char (b64_sextets bs)"

definition b64_decode :: "string \<Rightarrow> nat list" where
  "b64_decode s = b64_bytes (map the (filter (\<lambda>v. v \<noteq> None) (map b64_val s)))"

lemma code_chr: "n < 256 \<Longrightarrow> code (chr n) = n"
  by (simp add: code_def)

lemma b64_val_char [simp]: "n < 64 \<Longrightarrow> b64_val (b64_char n) = Some n"
proof -
  assume n: "n < 64"
  have "code (CHR ''-'') = 45" "code (CHR ''_'') = 95" by (simp_all add: code_def)
  then show ?thesis
    using n by (auto simp: b64_val_def b64_char_def upper_alpha_def lower_alpha_def digit_char_def code_chr)
qed

lemma b64_sextets_less: "\<forall>b \<in> set bs. b < 256 \<Longrightarrow> v \<in> set (b64_sextets bs) \<Longrightarrow> v < 64"
proof (induction bs rule: b64_sextets.induct)
  case (4 a b c bs)
  have "a div 4 < 64" "b div 16 < 16" "c div 64 < 4" "a mod 4 < 4" "b mod 16 < 16" using 4(2) by auto
  then show ?case using 4 by auto
next
  case (3 a b)
  have "a div 4 < 64" "b div 16 < 16" "a mod 4 < 4" "b mod 16 < 16" using 3 by auto
  then show ?case using 3 by auto
qed auto

lemma b64_bytes_sextets: "\<forall>b \<in> set bs. b < 256 \<Longrightarrow> b64_bytes (b64_sextets bs) = bs"
proof (induction bs rule: b64_sextets.induct)
  case (4 a b c bs)
  have "b div 16 < 16" "c div 64 < 4" using 4(2) by auto
  then show ?case using 4 by simp
next
  case (3 a b)
  have "b div 16 < 16" using 3 by auto
  then show ?case by simp
qed auto

lemma b64_roundtrip: "\<forall>b \<in> set bs. b < 256 \<Longrightarrow> b64_decode (b64_encode bs) = bs"
proof -
  assume bs: "\<forall>b \<in> set bs. b < 256"
  have "map b64_val (map b64_char vs) = map Some vs" if "\<forall>v \<in> set vs. v < 64" for vs
    using that by (induction vs) auto
  then have "map b64_val (b64_encode bs) = map Some (b64_sextets bs)"
    using b64_sextets_less[OF bs] by (simp add: b64_encode_def)
  moreover have "map the (filter (\<lambda>v. v \<noteq> None) (map Some vs)) = vs" for vs :: "nat list"
    by (induction vs) auto
  ultimately show ?thesis using b64_bytes_sextets[OF bs] by (simp add: b64_decode_def)
qed

section \<open>UTF-8\<close>

definition utf8_bytes :: "string \<Rightarrow> nat list" where
  "utf8_bytes s = concat (map (\<lambda>c. if code c < 128 then [code c] else [192 + code c div 64, 128 + code c mod 64]) s)"

fun utf8_text :: "nat list \<Rightarrow> string option" where
  "utf8_text [] = Some []"
| "utf8_text (b # bs) =
    (if b < 128 then map_option (\<lambda>s. chr b # s) (utf8_text bs)
     else case bs of
       c # bs' \<Rightarrow> if (b = 194 \<or> b = 195) \<and> 128 \<le> c \<and> c < 192
         then map_option (\<lambda>s. chr ((b - 192) * 64 + (c - 128)) # s) (utf8_text bs') else None
     | [] \<Rightarrow> None)"

lemma code_less: "code c < 256"
  by (simp add: code_def)

lemma chr_code [simp]: "chr (code c) = c"
  by (simp add: code_def)

lemma utf8_roundtrip: "utf8_text (utf8_bytes s) = Some s"
proof (induction s)
  case (Cons c s)
  have rec: "utf8_bytes (c # s) = (if code c < 128 then [code c] else [192 + code c div 64, 128 + code c mod 64]) @ utf8_bytes s"
    by (simp add: utf8_bytes_def)
  have "192 + code c div 64 = 194 \<or> 192 + code c div 64 = 195" if "\<not> code c < 128"
    using that code_less[of c] by linarith
  moreover have "code c div 64 * 64 + code c mod 64 = code c" by simp
  moreover have "code c mod 64 < 64" by simp
  ultimately show ?case using Cons unfolding rec by (cases "code c < 128") auto
qed (simp add: utf8_bytes_def)

lemma utf8_bytes_less: "b \<in> set (utf8_bytes s) \<Longrightarrow> b < 256"
proof -
  assume "b \<in> set (utf8_bytes s)"
  then obtain c where "b = code c \<or> b = 192 + code c div 64 \<or> b = 128 + code c mod 64"
    by (auto simp: utf8_bytes_def split: if_splits)
  moreover have "code c div 64 < 4" "code c mod 64 < 64" using code_less[of c] by auto
  ultimately show ?thesis using code_less[of c] by linarith
qed

section \<open>Arrays of strings as JSON\<close>

definition hex_digit :: "nat \<Rightarrow> char" where
  "hex_digit n = (if n < 10 then chr (48 + n) else chr (87 + n))"

definition json_esc :: "char \<Rightarrow> string" where
  "json_esc c = (if code c = 34 then [chr 92, chr 34] else if code c = 92 then [chr 92, chr 92]
     else if code c = 8 then [chr 92, CHR ''b''] else if code c = 9 then [chr 92, CHR ''t'']
     else if code c = 10 then [chr 92, CHR ''n''] else if code c = 12 then [chr 92, CHR ''f'']
     else if code c = 13 then [chr 92, CHR ''r'']
     else if code c < 32 then [chr 92, CHR ''u'', CHR ''0'', CHR ''0'', hex_digit (code c div 16), hex_digit (code c mod 16)]
     else [c])"

definition json_quote :: "string \<Rightarrow> string" where
  "json_quote s = [chr 34] @ concat (map json_esc s) @ [chr 34]"

definition json_strings :: "string list \<Rightarrow> string" where
  "json_strings ss = ''['' @ join_with '','' (map json_quote ss) @ '']''"

text \<open>One escape, after its backslash: the unit and what follows.\<close>

definition read_escape :: "string \<Rightarrow> (char \<times> string) option" where
  "read_escape s = (case s of [] \<Rightarrow> None
     | e # r \<Rightarrow>
        if code e = 34 \<or> code e = 92 \<or> code e = 47 then Some (e, r)
        else if e = CHR ''b'' then Some (chr 8, r) else if e = CHR ''t'' then Some (chr 9, r)
        else if e = CHR ''n'' then Some (chr 10, r) else if e = CHR ''f'' then Some (chr 12, r)
        else if e = CHR ''r'' then Some (chr 13, r)
        else if e = CHR ''u'' \<and> 4 \<le> length r \<and> list_all hex_char (take 4 r) \<and> take 2 r = ''00''
          then Some (chr (16 * radix_val (r ! 2) + radix_val (r ! 3)), drop 4 r)
        else None)"

function (sequential) read_string :: "string \<Rightarrow> (string \<times> string) option" where
  "read_string [] = None"
| "read_string (c # r) =
    (if code c = 34 then Some ([], r)
     else if code c = 92 then
       (case read_escape r of None \<Rightarrow> None
        | Some (u, r') \<Rightarrow> map_option (\<lambda>(s, t). (u # s, t)) (read_string r'))
     else if code c < 32 then None
     else map_option (\<lambda>(s, t). (c # s, t)) (read_string r))"
  by pat_completeness auto

lemma read_escape_shorter: "read_escape s = Some (u, r) \<Longrightarrow> length r < length s"
  by (auto simp: read_escape_def split: list.splits if_splits)

termination read_string
  by (relation "measure length") (auto dest: read_escape_shorter)

definition json_ws :: "char \<Rightarrow> bool" where
  "json_ws c \<longleftrightarrow> code c = 32 \<or> code c = 9 \<or> code c = 10 \<or> code c = 13"

lemma read_string_shorter: "read_string s = Some (w, r) \<Longrightarrow> length r < length s"
  by (induction s arbitrary: w r rule: read_string.induct)
     (fastforce split: if_splits option.splits prod.splits dest: read_escape_shorter)+

text \<open>The elements after an opening bracket or a comma.\<close>

function (sequential) read_elements :: "string \<Rightarrow> (string list \<times> string) option" where
  "read_elements s = (case dropWhile json_ws s of [] \<Rightarrow> None
     | c # r \<Rightarrow> if code c \<noteq> 34 then None else
        (case read_string r of None \<Rightarrow> None
         | Some (w, r1) \<Rightarrow> (case dropWhile json_ws r1 of [] \<Rightarrow> None
             | d # r2 \<Rightarrow> if d = CHR '']'' then Some ([w], r2)
                 else if d = CHR '','' then map_option (\<lambda>(ws, t). (w # ws, t)) (read_elements r2)
                 else None)))"
  by pat_completeness auto

lemma dropWhile_Cons_length: "dropWhile p s = c # r \<Longrightarrow> length r < length s"
  by (metis length_Cons length_dropWhile_le less_eq_Suc_le)

termination read_elements
  by (relation "measure length") (auto dest!: dropWhile_Cons_length read_string_shorter)

declare read_elements.simps [simp del]

definition parse_strings :: "string \<Rightarrow> string list option" where
  "parse_strings s = (case dropWhile json_ws s of
       [] \<Rightarrow> None
     | c # r \<Rightarrow> if c \<noteq> CHR ''['' then None
        else (case (if (case dropWhile json_ws r of [] \<Rightarrow> False | d # _ \<Rightarrow> d = CHR '']'') then Some ([], tl (dropWhile json_ws r))
                    else read_elements r) of
            None \<Rightarrow> None
          | Some (ws, r') \<Rightarrow> if list_all json_ws r' then Some ws else None))"

section \<open>Cursors (\<open>encode\<close> and \<open>decode\<close>)\<close>

definition encodeCursor :: "string list \<Rightarrow> string" where
  "encodeCursor parts = b64_encode (utf8_bytes (json_strings parts))"

definition decodeCursor :: "string \<Rightarrow> nat \<Rightarrow> exn + string list" where
  "decodeCursor cursor n =
    (case utf8_text (b64_decode cursor) of
       None \<Rightarrow> Inl (HttpExc 400 ''invalid cursor'')
     | Some s \<Rightarrow> (case parse_strings s of
         None \<Rightarrow> Inl (HttpExc 400 ''invalid cursor'')
       | Some parts \<Rightarrow> if length parts = n then Inr parts else Inl (HttpExc 400 ''invalid cursor'')))"

section \<open>Round trip\<close>

lemma code_inj: "c = d \<longleftrightarrow> code c = code d"
  by (metis chr_code)

lemma hex_digit_val: "n < 16 \<Longrightarrow> radix_val (hex_digit n) = n \<and> hex_char (hex_digit n)"
  by (auto simp: hex_digit_def radix_val_def hex_char_def digit_char_def upper_alpha_def code_chr)

lemma codes: "code (CHR ''b'') = 98" "code (CHR ''t'') = 116" "code (CHR ''n'') = 110" "code (CHR ''f'') = 102"
  "code (CHR ''r'') = 114" "code (CHR ''u'') = 117" "code (CHR ''0'') = 48" "code (CHR '','') = 44" "code (CHR '']'') = 93"
  "code (CHR ''['') = 91"
  by (simp_all add: code_def)

lemma read_escape_simple:
  "code e \<in> {34, 92, 47} \<Longrightarrow> read_escape (e # r) = Some (e, r)"
  "read_escape (CHR ''b'' # r) = Some (chr 8, r)" "read_escape (CHR ''t'' # r) = Some (chr 9, r)"
  "read_escape (CHR ''n'' # r) = Some (chr 10, r)" "read_escape (CHR ''f'' # r) = Some (chr 12, r)"
  "read_escape (CHR ''r'' # r) = Some (chr 13, r)"
  by (auto simp: read_escape_def codes)

lemma read_escape_hex:
  assumes "a < 16" "b < 16"
  shows "read_escape (CHR ''u'' # CHR ''0'' # CHR ''0'' # hex_digit a # hex_digit b # r) = Some (chr (16 * a + b), r)"
proof -
  have "hex_char (CHR ''0'')" by (simp add: hex_char_def digit_char_def codes)
  then show ?thesis using assms by (simp add: read_escape_def codes hex_digit_val numeral_2_eq_2 numeral_3_eq_3 eval_nat_numeral)
qed

lemma read_escaped: "read_string (json_esc c @ r) = map_option (\<lambda>(s, t). (c # s, t)) (read_string r)"
proof -
  have bs: "read_string (chr 92 # e) = (case read_escape e of None \<Rightarrow> None
      | Some (u, r') \<Rightarrow> map_option (\<lambda>(s, t). (u # s, t)) (read_string r'))" for e
    by (simp add: code_chr)
  consider "code c = 34 \<or> code c = 92" | "code c \<in> {8, 9, 10, 12, 13}"
    | "code c < 32" "code c \<notin> {8, 9, 10, 12, 13}" | "\<not> code c < 32" "code c \<noteq> 34" "code c \<noteq> 92" by blast
  then show ?thesis
  proof cases
    case 1
    then have "c = chr 34 \<or> c = chr 92" by (metis chr_code)
    then show ?thesis by (auto simp: json_esc_def bs read_escape_simple code_chr)
  next
    case 2
    then have "c \<in> {chr 8, chr 9, chr 10, chr 12, chr 13}" by (metis chr_code insert_iff empty_iff)
    then show ?thesis by (auto simp: json_esc_def bs read_escape_simple code_chr)
  next
    case 3
    have "code c div 16 < 16" "code c mod 16 < 16" "16 * (code c div 16) + code c mod 16 = code c" using 3 by auto
    then show ?thesis using 3 by (simp add: json_esc_def bs read_escape_hex del: read_string.simps)
  next
    case 4
    then show ?thesis by (simp add: json_esc_def)
  qed
qed

lemma read_quoted: "read_string (concat (map json_esc s) @ chr 34 # r) = Some (s, r)"
  by (induction s) (simp_all add: read_escaped code_chr)

lemma not_ws: "code c \<notin> {32, 9, 10, 13} \<Longrightarrow> dropWhile json_ws (c # r) = c # r"
  by (simp add: json_ws_def)

lemma no_ws [simp]: "\<not> json_ws (chr 34)" "\<not> json_ws (CHR '']'')" "\<not> json_ws (CHR ''['')" "\<not> json_ws (CHR '','')"
  by (simp_all add: json_ws_def codes code_chr)

lemma read_joined: "ws \<noteq> [] \<Longrightarrow> read_elements (join_with '','' (map json_quote ws) @ CHR '']'' # r) = Some (ws, r)"
proof (induction ws)
  case (Cons w ws)
  note rq = read_quoted[of w]
  show ?case
  proof (cases ws)
    case Nil
    have "read_elements (json_quote w @ CHR '']'' # r) = Some ([w], r)"
      by (subst read_elements.simps) (simp add: json_quote_def not_ws codes code_chr rq)
    then show ?thesis using Nil by simp
  next
    case (Cons v vs)
    have "read_elements (json_quote w @ CHR '','' # join_with '','' (map json_quote ws) @ CHR '']'' # r) =
        map_option (\<lambda>(ws, t). (w # ws, t)) (read_elements (join_with '','' (map json_quote ws) @ CHR '']'' # r))"
      by (subst read_elements.simps) (simp add: json_quote_def not_ws codes code_chr rq code_inj[of "CHR '',''" "CHR '']''"])
    then show ?thesis using Cons Cons.IH by simp
  qed
qed simp

lemma parse_json_strings: "parse_strings (json_strings ws) = Some ws"
proof (cases ws)
  case Nil
  then show ?thesis by (simp add: parse_strings_def json_strings_def not_ws codes)
next
  case (Cons w vs)
  obtain s where s: "join_with '','' (map json_quote ws) = chr 34 # s"
    using Cons by (cases vs) (auto simp: json_quote_def)
  have "read_elements ((chr 34 # s) @ '']'') = Some (ws, [])"
    using read_joined[of ws "[]"] Cons unfolding s by simp
  then show ?thesis
    unfolding parse_strings_def json_strings_def s
    by (simp add: not_ws codes code_chr code_inj[of "chr 34" "CHR '']''"])
qed

lemma decode_encode: "decodeCursor (encodeCursor parts) n =
    (if length parts = n then Inr parts else Inl (HttpExc 400 ''invalid cursor''))"
proof -
  have "b64_decode (encodeCursor parts) = utf8_bytes (json_strings parts)"
    unfolding encodeCursor_def using utf8_bytes_less by (intro b64_roundtrip) blast
  then show ?thesis by (simp add: decodeCursor_def utf8_roundtrip parse_json_strings)
qed

lemma decodeCursor_length: "decodeCursor c n = Inr parts \<Longrightarrow> length parts = n"
  by (auto simp: decodeCursor_def split: option.splits if_splits)

end
