(* ===== verification/Contact_Lists.thy ===== *)
theory Contact_Lists
  imports Contacts_Delete Http_Lib Cursor_Codec "HOL-Library.Product_Lexorder"
begin

text \<open>
  \<open>services/core/src/modules/lists\<close>: contact lists and their members. Statements that read run
  in a transaction of their own and see the tenant's rows. A cursor of the list endpoints is the
  last row's key; the rows after it are the ones past the key, so that the pages are instances of
  the keyset contract. A cursor that decodes but holds no UUID or no timestamp as the model knows
  them is the database's error.
\<close>

section \<open>Patterns (\<open>ILIKE\<close>)\<close>

text \<open>\<open>query.q.replace(/[\\%_]/g, '\\$&')\<close> between two \<open>%\<close>.\<close>

definition like_special :: "char \<Rightarrow> bool" where
  "like_special c \<longleftrightarrow> c = CHR 0x5C \<or> c = CHR ''%'' \<or> c = CHR ''_''"

definition like_escape :: "string \<Rightarrow> string" where
  "like_escape q = concat (map (\<lambda>c. if like_special c then [CHR 0x5C, c] else [c]) q)"

definition like_pattern :: "string \<Rightarrow> string" where
  "like_pattern q = ''%'' @ like_escape q @ ''%''"

fun like :: "string \<Rightarrow> string \<Rightarrow> bool" where
  "like [] s = (s = [])"
| "like (p # ps) [] = (p = CHR ''%'' \<and> like ps [])"
| "like (p # ps) (c # s) =
    (if p = CHR ''%'' then like ps (c # s) \<or> like (p # ps) s
     else if p = CHR ''_'' then like ps s
     else if p = CHR 0x5C then (case ps of [] \<Rightarrow> False | q # qs \<Rightarrow> c = q \<and> like qs s)
     else c = p \<and> like ps s)"

definition ilike :: "string \<Rightarrow> string \<Rightarrow> bool" where
  "ilike s p = like (lower p) (lower s)"

definition contains :: "string \<Rightarrow> string \<Rightarrow> bool" where
  "contains s q \<longleftrightarrow> (\<exists>a b. s = a @ q @ b)"

section \<open>Rows and results\<close>

record list_dto =
  ld_id :: string
  ld_name :: string
  ld_member_count :: nat
  ld_created_at :: string
  ld_updated_at :: string

record member_dto =
  md_contact_id :: string
  md_added_at :: string
  md_fields :: object

record key_error =
  ke_index :: nat
  ke_key :: string
  ke_code :: int
  ke_text :: string

definition members_of :: "string \<Rightarrow> string \<Rightarrow> db \<Rightarrow> member list" where
  "members_of t l d = filter (\<lambda>m. mb_tenant m = t \<and> mb_list m = l \<and>
     list_ex (\<lambda>c. ct_id c = mb_contact m) (live_contacts t d)) (db_members d)"

definition toListDto :: "string \<Rightarrow> db \<Rightarrow> clist \<Rightarrow> list_dto" where
  "toListDto t d l = \<lparr>ld_id = cl_id l, ld_name = cl_name l, ld_member_count = length (members_of t (cl_id l) d),
     ld_created_at = iso_string (cl_createdAt l), ld_updated_at = iso_string (cl_updatedAt l)\<rparr>"

definition pick :: "object \<Rightarrow> string list \<Rightarrow> object" where
  "pick dat ks = concat (map (\<lambda>k. case map_of dat k of None \<Rightarrow> [] | Some v \<Rightarrow> [(k, v)]) ks)"

definition lists_in :: "string \<Rightarrow> db \<Rightarrow> clist list" where
  "lists_in t d = filter (\<lambda>l. cl_tenant l = t) (db_lists d)"

definition find_list :: "string \<Rightarrow> string \<Rightarrow> db \<Rightarrow> clist option" where
  "find_list t i d = (if is_uuid i then find (\<lambda>l. cl_tenant l = t \<and> uuid_eq (cl_id l) i) (db_lists d) else None)"

definition listNotFound :: exn where
  "listNotFound = HttpExc 404 ''list not found''"

section \<open>Pages\<close>

text \<open>\<open>::uuid\<close> of a cursor's part, and the rows past it in id order.\<close>

definition as_uuid :: "string \<Rightarrow> exn + string" where
  "as_uuid s = (if is_uuid s then Inr (lower s) else Inl (PlainError ''invalid input syntax for type uuid''))"

definition past_id :: "string option \<Rightarrow> clist list \<Rightarrow> clist list" where
  "past_id after ls = (case after of None \<Rightarrow> ls | Some i \<Rightarrow> filter (\<lambda>l. i < cl_id l) ls)"

definition id_order :: "clist list \<Rightarrow> clist list" where
  "id_order ls = sort_key cl_id ls"

definition list_page :: "string \<Rightarrow> nat \<Rightarrow> clist list \<Rightarrow> db \<Rightarrow> list_dto cursor_page" where
  "list_page t limit rows d = (let fetched = take (Suc limit) rows in
     buildCursorPage (map (toListDto t d) (page_rows limit fetched)) (page_next limit (\<lambda>l. encodeCursor [cl_id l]) fetched))"

text \<open>\<open>cursor ? decode(cursor, n) : null\<close>, and the casts that the statements make of its parts.\<close>

definition decodeParts :: "string option \<Rightarrow> nat \<Rightarrow> exn + string list option" where
  "decodeParts cursor n = (case cursor of None \<Rightarrow> Inr None | Some c \<Rightarrow> map_sum id Some (decodeCursor c n))"

definition castId :: "string list option \<Rightarrow> exn + string option" where
  "castId parts = (case parts of None \<Rightarrow> Inr None | Some ps \<Rightarrow> map_sum id Some (as_uuid (hd ps)))"

definition search_of :: "query \<Rightarrow> string option" where
  "search_of q = (case map_of q ''q'' of Some (JStr s) \<Rightarrow> if 0 < length s then Some (like_pattern s) else None | _ \<Rightarrow> None)"

definition matching_lists :: "string \<Rightarrow> string option \<Rightarrow> db \<Rightarrow> clist list" where
  "matching_lists t pat d = filter (\<lambda>l. case pat of None \<Rightarrow> True | Some p \<Rightarrow> ilike (cl_name l) p) (lists_in t d)"

definition list_lists :: "string \<Rightarrow> query \<Rightarrow> list_dto cursor_page act" where
  "list_lists t q =
    bindM (liftE (parseCursorQuery q 50 200)) (\<lambda>cq.
    bindM (liftE (decodeParts (cq_cursor cq) 1)) (\<lambda>parts.
    bindM (liftE (castId parts)) (\<lambda>after.
      readDb (\<lambda>d. list_page t (nat (cq_limit cq)) (past_id after (id_order (matching_lists t (search_of q) d))) d))))"

definition lists_with :: "string \<Rightarrow> string \<Rightarrow> db \<Rightarrow> clist list" where
  "lists_with t contactId d = filter (\<lambda>l. list_ex (\<lambda>m. mb_list m = cl_id l \<and> uuid_eq (mb_contact m) contactId) (db_members d)) (lists_in t d)"

definition listsOf :: "string \<Rightarrow> string \<Rightarrow> query \<Rightarrow> list_dto cursor_page act" where
  "listsOf t contactId q =
    bindM (liftE (parseCursorQuery q 50 200)) (\<lambda>cq.
    bindM (liftE (decodeParts (cq_cursor cq) 1)) (\<lambda>parts.
    bindM (readDb (\<lambda>d. is_uuid contactId \<and> list_ex (\<lambda>c. uuid_eq (ct_id c) contactId) (live_contacts t d))) (\<lambda>found.
      if \<not> found then throwM (HttpExc 404 ''contact not found'')
      else bindM (liftE (castId parts)) (\<lambda>after.
        readDb (\<lambda>d. list_page t (nat (cq_limit cq)) (past_id after (id_order (lists_with t contactId d))) d)))))"

text \<open>Members, newest addition first: the cursor is the last one's time and contact.\<close>

definition newest_first :: "member list \<Rightarrow> member list" where
  "newest_first ms = rev (sort_key (\<lambda>m. (mb_addedAt m, mb_contact m)) ms)"

definition before_key :: "(int \<times> string) option \<Rightarrow> member list \<Rightarrow> member list" where
  "before_key k ms = (case k of None \<Rightarrow> ms | Some c \<Rightarrow> filter (\<lambda>m. (mb_addedAt m, mb_contact m) < c) ms)"

definition member_data :: "string \<Rightarrow> db \<Rightarrow> member \<Rightarrow> object" where
  "member_data t d m = (case find (\<lambda>c. ct_id c = mb_contact m) (live_contacts t d) of Some c \<Rightarrow> ct_data c | None \<Rightarrow> [])"

definition toMemberDto :: "string \<Rightarrow> db \<Rightarrow> member \<Rightarrow> member_dto" where
  "toMemberDto t d m = \<lparr>md_contact_id = mb_contact m, md_added_at = iso_string (mb_addedAt m),
     md_fields = pick (member_data t d m) [''1'', ''2'', ''3'', ''4'']\<rparr>"

text \<open>\<open>at::timestamptz\<close>, on the text \<open>toISOString\<close> writes.\<close>

definition parse_iso :: "string \<Rightarrow> int option" where
  "parse_iso s =
    (let h = take 2 (drop 11 s); m = take 2 (drop 14 s); sec = take 2 (drop 17 s); ms = take 3 (drop 20 s) in
     if is_ymd (take 10 s) \<and> length s = 24 \<and> s ! 10 = CHR ''T'' \<and> s ! 13 = CHR '':'' \<and> s ! 16 = CHR '':'' \<and> s ! 19 = CHR ''.'' \<and> s ! 23 = CHR ''Z'' \<and>
        list_all digit_char (h @ m @ sec @ ms) \<and> digits_int h < 24 \<and> digits_int m < 60 \<and> digits_int sec < 60
     then map_option (\<lambda>day. day + ((digits_int h * 60 + digits_int m) * 60 + digits_int sec) * 1000 + digits_int ms) (parse_ymd (take 10 s))
     else None)"

definition castMember :: "string list option \<Rightarrow> exn + (int \<times> string) option" where
  "castMember parts = (case parts of None \<Rightarrow> Inr None
     | Some ps \<Rightarrow> (case parse_iso (ps ! 0) of None \<Rightarrow> Inl (PlainError ''invalid input syntax for type timestamp'')
         | Some ms \<Rightarrow> map_sum id (\<lambda>i. Some (ms, i)) (as_uuid (ps ! 1))))"

definition assertList :: "string \<Rightarrow> string \<Rightarrow> string act" where
  "assertList t i = bindM (readDb (find_list t i)) (\<lambda>l. case l of None \<Rightarrow> throwM listNotFound | Some l \<Rightarrow> retM (cl_id l))"

definition list_members :: "string \<Rightarrow> string \<Rightarrow> query \<Rightarrow> member_dto cursor_page act" where
  "list_members t i q =
    bindM (liftE (parseCursorQuery q 50 200)) (\<lambda>cq.
    bindM (liftE (decodeParts (cq_cursor cq) 2)) (\<lambda>parts.
    bindM (assertList t i) (\<lambda>l.
    bindM (liftE (castMember parts)) (\<lambda>after.
      readDb (\<lambda>d. let limit = nat (cq_limit cq); fetched = take (Suc limit) (before_key after (newest_first (members_of t l d))) in
        buildCursorPage (map (toMemberDto t d) (page_rows limit fetched))
          (page_next limit (\<lambda>m. encodeCursor [iso_string (mb_addedAt m), mb_contact m]) fetched))))))"

section \<open>Lists\<close>

definition getList :: "string \<Rightarrow> string \<Rightarrow> list_dto act" where
  "getList t i = bindM (readDb (\<lambda>d. map_option (toListDto t d) (find_list t i d)))
     (\<lambda>r. case r of None \<Rightarrow> throwM listNotFound | Some l \<Rightarrow> retM l)"

definition countMembers :: "string \<Rightarrow> string \<Rightarrow> nat act" where
  "countMembers t i = bindM (getList t i) (\<lambda>l. retM (ld_member_count l))"

definition listNameTaken :: "exn \<Rightarrow> exn" where
  "listNameTaken e = (if e = UniqueViolation then HttpExc 409 ''a list with that name already exists'' else e)"

text \<open>The unique index \<open>lists_tenant_id_name_key\<close>.\<close>

definition list_name_clash :: "string \<Rightarrow> string \<Rightarrow> string \<Rightarrow> db \<Rightarrow> bool" where
  "list_name_clash t i name d \<longleftrightarrow> list_ex (\<lambda>l. cl_tenant l = t \<and> cl_name l = name \<and> cl_id l \<noteq> i) (db_lists d)"

definition insertList :: "string \<Rightarrow> string \<Rightarrow> string act" where
  "insertList t name = bindM fresh_id (\<lambda>i. bindM (getM w_now) (\<lambda>now.
     bindM (readDb (\<lambda>d. list_name_clash t i name d \<or> list_ex (\<lambda>l. cl_id l = i) (db_lists d))) (\<lambda>bad.
     if bad then throwM UniqueViolation
     else bindM (onDb (\<lambda>d. d\<lparr>db_lists := db_lists d @ [\<lparr>cl_id = i, cl_tenant = t, cl_name = name, cl_createdAt = now, cl_updatedAt = now\<rparr>]\<rparr>)) (\<lambda>_.
       retM i))))"

definition createList :: "string \<Rightarrow> string \<Rightarrow> list_dto act" where
  "createList t name = bindM (mapErrM listNameTaken (insertList t name)) (\<lambda>i. getList t i)"

definition rename_row :: "string \<Rightarrow> string \<Rightarrow> string \<Rightarrow> int \<Rightarrow> clist \<Rightarrow> clist" where
  "rename_row t i name now l = (if cl_tenant l = t \<and> cl_id l = i then l\<lparr>cl_name := name, cl_updatedAt := now\<rparr> else l)"

definition updateListName :: "string \<Rightarrow> string \<Rightarrow> string \<Rightarrow> unit act" where
  "updateListName t i name = bindM (readDb (list_name_clash t i name)) (\<lambda>bad.
     if bad then throwM UniqueViolation
     else bindM (getM w_now) (\<lambda>now. onDb (\<lambda>d. d\<lparr>db_lists := map (rename_row t i name now) (db_lists d)\<rparr>)))"

definition renameList :: "string \<Rightarrow> string \<Rightarrow> string option \<Rightarrow> list_dto act" where
  "renameList t i name = bindM (getList t i) (\<lambda>l.
     bindM (case name of None \<Rightarrow> retM () | Some n \<Rightarrow> mapErrM listNameTaken (updateListName t (ld_id l) n)) (\<lambda>_. getList t i))"

text \<open>Deleting a list deletes its memberships with it (\<open>ON DELETE CASCADE\<close>).\<close>

definition drop_list :: "string \<Rightarrow> string \<Rightarrow> db \<Rightarrow> db" where
  "drop_list t l d = d\<lparr>db_lists := filter (\<lambda>r. \<not> (cl_tenant r = t \<and> cl_id r = l)) (db_lists d),
     db_members := filter (\<lambda>m. \<not> (mb_tenant m = t \<and> mb_list m = l)) (db_members d)\<rparr>"

definition contacts_in :: "string \<Rightarrow> string \<Rightarrow> db \<Rightarrow> string list" where
  "contacts_in t l d = map mb_contact (filter (\<lambda>m. mb_tenant m = t \<and> mb_list m = l) (db_members d))"

definition touched :: "string list \<Rightarrow> (string \<times> string list) list" where
  "touched is = put_all (map (\<lambda>i. (i, [])) is) []"

definition removeList :: "string \<Rightarrow> string \<Rightarrow> unit act" where
  "removeList t i = bindM (transaction (bindM (assertList t i) (\<lambda>l.
     bindM (readDb (contacts_in t l)) (\<lambda>rows.
     bindM (onDb (drop_list t l)) (\<lambda>_. upserted t (touched rows)))))) (\<lambda>_. flush)"

section \<open>Membership\<close>

record changed_members =
  cm_changed :: nat
  cm_not_found :: "string list"

definition live_among :: "string \<Rightarrow> string list \<Rightarrow> db \<Rightarrow> string list" where
  "live_among t is d = map ct_id (filter (\<lambda>c. list_ex (uuid_eq (ct_id c)) (filter is_uuid is)) (live_contacts t d))"

definition is_member :: "string \<Rightarrow> string \<Rightarrow> db \<Rightarrow> bool" where
  "is_member l c d \<longleftrightarrow> list_ex (\<lambda>m. mb_list m = l \<and> mb_contact m = c) (db_members d)"

definition add_members :: "string \<Rightarrow> string \<Rightarrow> string list \<Rightarrow> string list act" where
  "add_members t l targets = bindM (readDb (\<lambda>d. filter (\<lambda>c. \<not> is_member l c d) targets)) (\<lambda>new.
     bindM (getM w_now) (\<lambda>now.
     bindM (onDb (\<lambda>d. d\<lparr>db_members := db_members d @ map (\<lambda>c. \<lparr>mb_list = l, mb_contact = c, mb_tenant = t, mb_addedAt = now\<rparr>) new\<rparr>)) (\<lambda>_.
       retM new)))"

definition drop_members :: "string \<Rightarrow> string \<Rightarrow> string list \<Rightarrow> string list act" where
  "drop_members t l targets =
    (let gone = (\<lambda>m. mb_tenant m = t \<and> mb_list m = l \<and> List.member targets (mb_contact m)) in
     bindM (readDb (\<lambda>d. map mb_contact (filter gone (db_members d)))) (\<lambda>rows.
     bindM (onDb (\<lambda>d. d\<lparr>db_members := filter (\<lambda>m. \<not> gone m) (db_members d)\<rparr>)) (\<lambda>_. retM rows)))"

definition changeMembers :: "string \<Rightarrow> string \<Rightarrow> string list \<Rightarrow> bool \<Rightarrow> changed_members act" where
  "changeMembers t listId is add =
    bindM (transaction (bindM (assertList t listId) (\<lambda>l.
      bindM (readDb (live_among t is)) (\<lambda>live.
      bindM (if add then add_members t l live else drop_members t l live) (\<lambda>rows.
      bindM (upserted t (touched rows)) (\<lambda>_.
        retM \<lparr>cm_changed = length rows, cm_not_found = filter (\<lambda>i. \<not> List.member live (lower i)) is\<rparr>)))))) (\<lambda>result.
    bindM flush (\<lambda>_. retM result))"

definition addContacts :: "string \<Rightarrow> string \<Rightarrow> string list \<Rightarrow> changed_members act" where
  "addContacts t l is = changeMembers t l is True"

definition removeContacts :: "string \<Rightarrow> string \<Rightarrow> string list \<Rightarrow> changed_members act" where
  "removeContacts t l is = changeMembers t l is False"

definition key_errors :: "(string \<times> string) list \<Rightarrow> string list \<Rightarrow> key_error list" where
  "key_errors found ks = map (\<lambda>(i, k). \<lparr>ke_index = i, ke_key = k, ke_code = 2008, ke_text = ''contact not found''\<rparr>)
     (filter (\<lambda>(i, k). map_of found k = None) (zip [0..<length ks] ks))"

definition byKeys :: "string \<Rightarrow> string \<Rightarrow> string \<Rightarrow> string list \<Rightarrow> bool \<Rightarrow> (nat \<times> key_error list) act" where
  "byKeys t listId keyId ks add =
    bindM (getList t listId) (\<lambda>_.
    bindM (resolve t keyId ks) (\<lambda>found.
    bindM (changeMembers t listId (uniq (map snd found)) add) (\<lambda>r.
      retM (cm_changed r, key_errors found ks))))"

section \<open>Lemmas\<close>

subsection \<open>Search\<close>

lemma lower_append [simp]: "lower (a @ b) = lower a @ lower b"
  by (simp add: lower_def)

lemma like_percent_end: "like ''%'' s"
  by (induction s) auto

lemma like_escaped: "like (like_escape q @ p) s \<longleftrightarrow> (\<exists>r. s = q @ r \<and> like p r)"
proof (induction q arbitrary: s)
  case (Cons c q)
  have e: "like_escape (c # q) = (if like_special c then [CHR 0x5C, c] else [c]) @ like_escape q"
    by (simp add: like_escape_def)
  show ?case
  proof (cases s)
    case (Cons d s')
    then show ?thesis using Cons.IH unfolding e by (auto simp: like_special_def)
  qed (auto simp: e like_special_def)
qed (simp add: like_escape_def)

lemma like_contains: "like (like_pattern q) s \<longleftrightarrow> contains s q"
proof -
  have "like (CHR ''%'' # like_escape q @ ''%'') s \<longleftrightarrow> (\<exists>a r. s = a @ r \<and> like (like_escape q @ ''%'') r)"
  proof (induction s)
    case (Cons c s)
    have "(\<exists>a r. c # s = a @ r \<and> P r) \<longleftrightarrow> P (c # s) \<or> (\<exists>a r. s = a @ r \<and> P r)" for P
      by (metis append_Cons append_Nil append_eq_Cons_conv)
    then show ?case using Cons by simp
  qed simp
  then show ?thesis by (simp add: like_pattern_def like_escaped contains_def like_percent_end) blast
qed

lemma lower_char_fix: "lower_char (CHR ''%'') = CHR ''%''" "lower_char (CHR ''_'') = CHR ''_''" "lower_char (CHR 0x5C) = CHR 0x5C"
  by (simp_all add: lower_char_def upper_alpha_def code_def)

lemma lower_special: "like_special (lower_char c) = like_special c"
proof -
  have c: "code (lower_char c) = (if upper_alpha c \<or> (192 \<le> code c \<and> code c \<le> 222 \<and> code c \<noteq> 215) then code c + 32 else code c)"
    using code_less[of c] by (auto simp: lower_char_def upper_alpha_def code_chr)
  have s: "like_special d \<longleftrightarrow> code d = 92 \<or> code d = 37 \<or> code d = 95" for d
    unfolding like_special_def by (simp add: code_inj[of d]) (auto simp: code_def)
  show ?thesis unfolding s c by (auto simp: upper_alpha_def)
qed

lemma lower_escape: "lower (like_escape q) = like_escape (lower q)"
  by (induction q) (simp_all add: like_escape_def lower_def lower_special lower_char_fix)

lemma ilike_contains: "ilike s (like_pattern q) \<longleftrightarrow> contains (lower s) (lower q)"
proof -
  have "lower (like_pattern q) = like_pattern (lower q)"
    unfolding like_pattern_def lower_append lower_escape by (simp add: lower_def lower_char_fix)
  then show ?thesis by (simp add: ilike_def like_contains)
qed

subsection \<open>Pages\<close>

lemma sorted_weak: "sorted (map f xs) \<Longrightarrow> sorted_wrt (\<lambda>a b. \<not> f b < f a) xs"
  by (induction xs) auto

lemma sorted_wrt_rev_weak: "sorted (map f xs) \<Longrightarrow> sorted_wrt (\<lambda>a b. \<not> f a < f b) (rev xs)"
  by (induction xs) (auto simp: sorted_wrt_append)

interpretation list_pages: keyset cl_id "(<)" "\<lambda>after. past_id after (id_order ls)" "id_order ls" for ls
  by unfold_locales (auto simp: past_id_def id_order_def sorted_weak)

interpretation member_pages: keyset "\<lambda>m. (mb_addedAt m, mb_contact m)" "(>)" "\<lambda>k. before_key k (newest_first ms)" "newest_first ms" for ms
proof unfold_locales
  show "sorted_wrt (\<lambda>a b. \<not> (mb_addedAt b, mb_contact b) > (mb_addedAt a, mb_contact a)) (newest_first ms)"
    unfolding newest_first_def by (rule sorted_wrt_rev_weak) simp
qed (auto simp: before_key_def)

text \<open>The endpoint's page is the contract's, with the key encoded.\<close>

lemma list_page_eq: "list_page t limit (past_id c (id_order ls)) d =
    buildCursorPage (map (toListDto t d) (fst (keyset.page cl_id (\<lambda>after. past_id after (id_order ls)) limit c)))
      (map_option (\<lambda>i. encodeCursor [i]) (snd (keyset.page cl_id (\<lambda>after. past_id after (id_order ls)) limit c)))"
  by (simp add: list_page_def list_pages.page_def Let_def page_next_fetch)

text \<open>The identifiers of the table are UUIDs in lower case, as Postgres writes them.\<close>

definition uuid_text :: "string \<Rightarrow> bool" where
  "uuid_text s \<longleftrightarrow> is_uuid s \<and> lower s = s"

lemma castId_encoded: "uuid_text i \<Longrightarrow>
    (case decodeParts (Some (encodeCursor [i])) 1 of Inl e \<Rightarrow> Inl e | Inr parts \<Rightarrow> castId parts) = Inr (Some i)"
  by (simp add: decodeParts_def decode_encode castId_def as_uuid_def uuid_text_def)

subsection \<open>Membership\<close>

text \<open>A membership belongs to the tenant of its list.\<close>

definition members_ok :: "db \<Rightarrow> bool" where
  "members_ok d \<longleftrightarrow> (\<forall>m \<in> set (db_members d). \<forall>l \<in> set (db_lists d). mb_list m = cl_id l \<longrightarrow> mb_tenant m = cl_tenant l) \<and>
     distinct (map (\<lambda>m. (mb_list m, mb_contact m)) (db_members d)) \<and> distinct (map cl_id (db_lists d))"

lemma find_list_Some: "find_list t i d = Some l \<Longrightarrow> l \<in> set (db_lists d) \<and> cl_tenant l = t \<and> uuid_eq (cl_id l) i"
  by (auto simp: find_list_def dest: find_Some_set split: if_splits)

lemma assertList_Inr: "assertList t i w = (Inr lid, w') \<longleftrightarrow> w' = w \<and> (\<exists>l. find_list t i (w_db w) = Some l \<and> lid = cl_id l)"
  by (auto simp: assertList_def split: option.splits)

lemma is_member_iff: "is_member l c d \<longleftrightarrow> (l, c) \<in> (\<lambda>m. (mb_list m, mb_contact m)) ` set (db_members d)"
  by (auto simp: is_member_def list_ex_iff)

definition with_members :: "string \<Rightarrow> string \<Rightarrow> int \<Rightarrow> string list \<Rightarrow> db \<Rightarrow> db" where
  "with_members t l now new d = d\<lparr>db_members := db_members d @ map (\<lambda>c. \<lparr>mb_list = l, mb_contact = c, mb_tenant = t, mb_addedAt = now\<rparr>) new\<rparr>"

definition without_members :: "string \<Rightarrow> string \<Rightarrow> string list \<Rightarrow> db \<Rightarrow> db" where
  "without_members t l targets d = d\<lparr>db_members := filter (\<lambda>m. \<not> (mb_tenant m = t \<and> mb_list m = l \<and> List.member targets (mb_contact m))) (db_members d)\<rparr>"

text \<open>The contacts whose membership of list \<open>l\<close> a request changes.\<close>

definition switched :: "string \<Rightarrow> string \<Rightarrow> string list \<Rightarrow> bool \<Rightarrow> db \<Rightarrow> string list" where
  "switched t l is add d = (if add then filter (\<lambda>c. \<not> is_member l c d) (live_among t is d)
     else map mb_contact (filter (\<lambda>m. mb_tenant m = t \<and> mb_list m = l \<and> List.member (live_among t is d) (mb_contact m)) (db_members d)))"

definition switch_effect :: "string \<Rightarrow> string \<Rightarrow> string list \<Rightarrow> bool \<Rightarrow> int \<Rightarrow> db \<Rightarrow> db" where
  "switch_effect t l is add now d = (if add then with_members t l now (switched t l is True d) d
     else without_members t l (live_among t is d) d)"

lemma changeMembers_eq: "changeMembers t i is add w =
    (case find_list t i (w_db w) of
       None \<Rightarrow> (Inl listNotFound, w)
     | Some l \<Rightarrow> (Inr \<lparr>cm_changed = length (switched t (cl_id l) is add (w_db w)),
           cm_not_found = filter (\<lambda>i. \<not> List.member (live_among t is (w_db w)) (lower i)) is\<rparr>,
         snd (flush (snd (upserted t (touched (switched t (cl_id l) is add (w_db w)))
           (w\<lparr>w_db := switch_effect t (cl_id l) is add (w_now w) (w_db w)\<rparr>))))))"
  by (cases add)
     (simp_all add: changeMembers_def transaction_def assertList_def bindM_def add_members_def drop_members_def upserted_eq flush_def
       switched_def switch_effect_def with_members_def without_members_def Let_def split: option.split)

lemma touched_keys: "fst ` set (touched is) = set is"
proof -
  have "fst ` set (put_all kvs m) = fst ` set kvs \<union> fst ` set m" for kvs m :: "(string \<times> string list) list"
    by (induction kvs m rule: put_all.induct) auto
  then show ?thesis by (force simp: touched_def)
qed

lemma touched_empty: "touched is = [] \<longleftrightarrow> is = []"
  by (metis image_is_empty set_empty touched_keys)

lemma live_among_mem: "c \<in> set (live_among t is d) \<Longrightarrow> \<exists>x \<in> set (live_contacts t d). ct_id x = c"
  by (auto simp: live_among_def)

text \<open>The events of a change: one per contact, with the contact's lists after it.\<close>

lemma upserted_touched:
  assumes "\<forall>c \<in> set cs. \<exists>x \<in> set (db_contacts (w_db w)). ct_tenant x = t \<and> ct_id x = c"
  shows "\<exists>new. db_outbox (w_db (snd (upserted t (touched cs) w))) = db_outbox (w_db w) @ new \<and>
    set (map (\<lambda>r. ev_contact_id (ob_envelope r)) new) = Some ` set cs \<and>
    (\<forall>r \<in> set new. ev_type (ob_envelope r) = ''contacts.upserted'' \<and> (\<exists>x. ev_contact_id (ob_envelope r) = Some (ct_id x) \<and>
        ev_data (ob_envelope r) = snapshot t [] (w_db w) x))"
proof -
  define es where "es = upsertedEvents t (touched cs) (w_db w)"
  define new where "new = event_rows (w_ids w) (w_next w) (w_now w) t ''contacts.upserted'' es"
  have "touched cs = [] \<Longrightarrow> es = []" by (simp add: es_def upsertedEvents_def)
  then have "db_outbox (w_db (snd (upserted t (touched cs) w))) = db_outbox (w_db w) @ new"
    by (auto simp: upserted_eq add_events_def new_def es_def)
  moreover have "set (map fst es) = set cs"
    unfolding es_def upsertedEvents_contacts touched_keys using assms by auto
  then have "set (map (\<lambda>r. ev_contact_id (ob_envelope r)) new) = Some ` set cs"
    unfolding new_def event_rows_contacts by (metis list.set_map map_map comp_def image_image)
  moreover have "ev_type (ob_envelope r) = ''contacts.upserted'' \<and> (\<exists>x. ev_contact_id (ob_envelope r) = Some (ct_id x) \<and>
        ev_data (ob_envelope r) = snapshot t [] (w_db w) x)" if "r \<in> set new" for r
  proof -
    obtain c v where r: "(c, v) \<in> set es" "ev_type (ob_envelope r) = ''contacts.upserted''" "ev_contact_id (ob_envelope r) = Some c" "ev_data (ob_envelope r) = v"
      using event_rows_props[OF \<open>r \<in> set new\<close>[unfolded new_def]] by (elim exE conjE)
    obtain y where y: "c = ct_id y" "v = snapshot t (case map_of (touched cs) (ct_id y) of Some ks \<Rightarrow> ks | None \<Rightarrow> []) (w_db w) y"
      using upsertedEvents_mem[OF r(1)[unfolded es_def]] by blast
    have "map_of (touched cs) k = Some ks \<Longrightarrow> ks = []" for k ks
      by (auto simp: touched_def map_of_put_all dest: map_of_SomeD split: option.splits)
    then have "v = snapshot t [] (w_db w) y" using y(2) by (auto split: option.splits)
    then show ?thesis using r(2-4) y(1) by blast
  qed
  ultimately show ?thesis by blast
qed

lemma switched_live:
  assumes "c \<in> set (switched t l is add d)"
  shows "\<exists>x \<in> set (db_contacts d). ct_tenant x = t \<and> ct_id x = c"
proof -
  have "c \<in> set (live_among t is d)" using assms by (auto simp: switched_def split: if_splits)
  then show ?thesis using live_among_mem unfolding Bex_def live_contacts_set by blast
qed

lemma with_pairs: "map (\<lambda>m. (mb_list m, mb_contact m)) (db_members (with_members t l now new d)) =
    map (\<lambda>m. (mb_list m, mb_contact m)) (db_members d) @ map (Pair l) new"
  by (simp add: with_members_def)

lemma is_member_with: "is_member k c (with_members t l now new d) \<longleftrightarrow> is_member k c d \<or> (k = l \<and> c \<in> set new)"
  unfolding is_member_iff set_map[symmetric] with_pairs by auto

lemma switched_add: "c \<in> set (switched t l is True d) \<longleftrightarrow> c \<in> set (live_among t is d) \<and> \<not> is_member l c d"
  by (auto simp: switched_def)

lemma switch_members:
  assumes "members_ok d" "l \<in> set (db_lists d)" "cl_tenant l = t"
  shows "is_member k c (switch_effect t (cl_id l) is add now d) \<longleftrightarrow>
    (if k = cl_id l \<and> c \<in> set (live_among t is d) then add else is_member k c d)"
proof (cases add)
  case True
  then show ?thesis by (auto simp: switch_effect_def is_member_with switched_add)
next
  case False
  have ten: "m \<in> set (db_members d) \<Longrightarrow> mb_list m = cl_id l \<Longrightarrow> mb_tenant m = t" for m
    using assms by (auto simp: members_ok_def)
  show ?thesis
    unfolding is_member_iff using False by (auto simp: switch_effect_def without_members_def image_iff dest: ten)
qed

lemma switch_ok:
  assumes "members_ok d" "l \<in> set (db_lists d)" "cl_tenant l = t" "distinct (map ct_id (live_contacts t d))"
  shows "members_ok (switch_effect t (cl_id l) is add now d)"
proof (cases add)
  case True
  define new where "new = switched t (cl_id l) is True d"
  have "distinct (live_among t is d)"
    unfolding live_among_def using assms(4) by (rule distinct_map_filter)
  then have n: "distinct new" by (simp add: new_def switched_def)
  have k: "k = l" if "k \<in> set (db_lists d)" "cl_id k = cl_id l" for k
    using assms(1,2) that by (auto simp: members_ok_def dest: inj_onD distinct_map[THEN iffD1, THEN conjunct2])
  have "distinct (map (\<lambda>m. (mb_list m, mb_contact m)) (db_members (with_members t (cl_id l) now new d)))"
    unfolding with_pairs using assms(1) n
    by (auto simp: members_ok_def distinct_map[of "Pair (cl_id l)"] inj_on_def new_def switched_add is_member_iff image_iff) metis
  then show ?thesis
    using assms(1,3) True k by (auto simp: switch_effect_def members_ok_def new_def with_members_def)
next
  case False
  then show ?thesis
    using assms(1) by (auto simp: switch_effect_def without_members_def members_ok_def distinct_map_filter)
qed

end
