(* ===== verification/Contact_Lists_Api.thy ===== *)
theory Contact_Lists_Api
  imports Contact_Lists Auth_Lib
begin

text \<open>
  \<open>services/core/src/modules/lists/lists.controller.ts\<close>: the public, admin and internal
  endpoints over the lists service, with the schemas of their bodies; and the properties of lists.
  The issue texts of rejected bodies are not modelled.
\<close>

section \<open>Bodies\<close>

definition PUBLIC_MAX :: nat where
  "PUBLIC_MAX = 1000"

definition INTERNAL_MAX :: nat where
  "INTERNAL_MAX = 10000"

definition parseKeyId :: "json option \<Rightarrow> string option" where
  "parseKeyId v = (case v of
      Some (JStr s) \<Rightarrow> if is_key_id s then Some s else None
    | Some (JNum n) \<Rightarrow> if is_int_num n \<and> is_key_id (num_string n) then Some (num_string n) else None
    | _ \<Rightarrow> None)"

definition parseListName :: "json option \<Rightarrow> string option" where
  "parseListName v = (case v of Some (JStr s) \<Rightarrow> if 1 \<le> length s \<and> length s \<le> 200 then Some s else None | _ \<Rightarrow> None)"

definition parseStr :: "json \<Rightarrow> string option" where
  "parseStr v = (case v of JStr s \<Rightarrow> Some s | _ \<Rightarrow> None)"

definition parseUuid :: "json \<Rightarrow> string option" where
  "parseUuid v = (case v of JStr s \<Rightarrow> if is_uuid s then Some s else None | _ \<Rightarrow> None)"

text \<open>\<open>z.string().max(1000).nullable().optional()\<close>: outer None for a failure, then whether it is sent.\<close>

definition parseDescription :: "json option \<Rightarrow> bool option" where
  "parseDescription v = (case v of None \<Rightarrow> Some False | Some JNull \<Rightarrow> Some True
     | Some (JStr s) \<Rightarrow> if length s \<le> 1000 then Some True else None | _ \<Rightarrow> None)"

definition invalidBody :: exn where
  "invalidBody = PublicApi 1001 [] 400"

definition parsePublic :: "(json \<Rightarrow> 'a option) \<Rightarrow> json \<Rightarrow> exn + 'a" where
  "parsePublic schema body =
    (if (case obj_get body ''external_ids'' of Some (JArr ids) \<Rightarrow> PUBLIC_MAX < length ids | _ \<Rightarrow> False)
     then Inl (PublicApi 1002 ''at most 1000 external_ids per request'' 400)
     else case schema body of None \<Rightarrow> Inl invalidBody | Some b \<Rightarrow> Inr b)"

definition bounded :: "nat \<Rightarrow> 'a list option \<Rightarrow> 'a list option" where
  "bounded n xs = (case xs of Some ys \<Rightarrow> if 1 \<le> length ys \<and> length ys \<le> n then Some ys else None | None \<Rightarrow> None)"

record public_members =
  pm_key_id :: string
  pm_external_ids :: "string list"

record public_list =
  pl_name :: string
  pl_key_id :: "string option"
  pl_external_ids :: "string list option"

definition publicMembers :: "json \<Rightarrow> public_members option" where
  "publicMembers v = (case v of
      JObj kvs \<Rightarrow> (case (parseKeyId (map_of kvs ''key_id''), parseArray parseStr (map_of kvs ''external_ids'')) of
          (Some k, Some ids) \<Rightarrow> if 1 \<le> length ids then Some \<lparr>pm_key_id = k, pm_external_ids = ids\<rparr> else None
        | _ \<Rightarrow> None)
    | _ \<Rightarrow> None)"

definition publicCreate :: "json \<Rightarrow> public_list option" where
  "publicCreate v = (case v of
      JObj kvs \<Rightarrow> (case (parseListName (map_of kvs ''name''), optional parseKeyId (map_of kvs ''key_id''),
            optional (parseArray parseStr) (map_of kvs ''external_ids'')) of
          (Some n, Some k, Some ids) \<Rightarrow> Some \<lparr>pl_name = n, pl_key_id = k, pl_external_ids = ids\<rparr>
        | _ \<Rightarrow> None)
    | _ \<Rightarrow> None)"

definition listInput :: "json \<Rightarrow> string option" where
  "listInput v = (case v of
      JObj kvs \<Rightarrow> if parseDescription (map_of kvs ''description'') = None then None else parseListName (map_of kvs ''name'')
    | _ \<Rightarrow> None)"

definition listUpdate :: "json \<Rightarrow> string option option" where
  "listUpdate v = (case v of
      JObj kvs \<Rightarrow> (case (optional parseListName (map_of kvs ''name''), parseDescription (map_of kvs ''description'')) of
          (Some n, Some sent) \<Rightarrow> if n \<noteq> None \<or> sent then Some n else None
        | _ \<Rightarrow> None)
    | _ \<Rightarrow> None)"

definition contactIds :: "json \<Rightarrow> string list option" where
  "contactIds v = (case v of JObj kvs \<Rightarrow> bounded INTERNAL_MAX (parseArray parseUuid (map_of kvs ''contact_ids'')) | _ \<Rightarrow> None)"

record internal_members =
  im_tenant :: string
  im_key_id :: string
  im_key_values :: "string list"

definition internalMembers :: "json \<Rightarrow> internal_members option" where
  "internalMembers v = (case v of
      JObj kvs \<Rightarrow> (case (map_of kvs ''tenant_id'', parseKeyId (map_of kvs ''key_id''),
            bounded INTERNAL_MAX (parseArray parseStr (map_of kvs ''key_values''))) of
          (Some t, Some k, Some ks) \<Rightarrow> (case parseUuid t of Some u \<Rightarrow> Some \<lparr>im_tenant = u, im_key_id = k, im_key_values = ks\<rparr> | None \<Rightarrow> None)
        | _ \<Rightarrow> None)
    | _ \<Rightarrow> None)"

section \<open>Endpoints\<close>

definition listTenantOf :: "principal \<Rightarrow> exn + string" where
  "listTenantOf = tenantOf ''operator principals cannot use tenant lists''"

text \<open>
  \<open>GET /api/v3/contactlist\<close>: the \<open>do ... while\<close> over the pages, with fuel; None when it runs
  out of it.
\<close>

definition summary :: "list_dto \<Rightarrow> string \<times> string \<times> string" where
  "summary l = (ld_id l, ld_name l, ld_created_at l)"

fun publicLists :: "nat \<Rightarrow> string \<Rightarrow> string option \<Rightarrow> world \<Rightarrow> ((exn + (string \<times> string \<times> string) list) \<times> world) option" where
  "publicLists 0 t cursor w = None"
| "publicLists (Suc n) t cursor w =
    (case list_lists t ((''limit'', JStr ''200'') # (case cursor of None \<Rightarrow> [] | Some c \<Rightarrow> [(''cursor'', JStr c)])) w of
       (Inl e, w') \<Rightarrow> Some (Inl e, w')
     | (Inr p, w') \<Rightarrow> (case cp_next p of
           None \<Rightarrow> Some (Inr (map summary (cp_items p)), w')
         | Some c \<Rightarrow> map_option (\<lambda>(r, w''). (map_sum id (\<lambda>rest. map summary (cp_items p) @ rest) r, w'')) (publicLists n t (Some c) w')))"

definition publicConflict :: "exn \<Rightarrow> exn" where
  "publicConflict e = (case e of HttpExc s m \<Rightarrow> if s = 409 then PublicApi 2012 m 400 else e | _ \<Rightarrow> e)"

definition publicCreateList :: "principal \<Rightarrow> json \<Rightarrow> (string \<times> key_error list) act" where
  "publicCreateList p body =
    bindM (liftE (parsePublic publicCreate body)) (\<lambda>b.
    let ids = (case pl_external_ids b of None \<Rightarrow> [] | Some xs \<Rightarrow> xs) in
    if ids \<noteq> [] \<and> pl_key_id b = None then throwM (PublicApi 1001 ''key_id is required with external_ids'' 400)
    else bindM (liftE (listTenantOf p)) (\<lambda>t.
      bindM (mapErrM publicConflict (createList t (pl_name b))) (\<lambda>l.
      bindM (if ids \<noteq> [] then bindM (byKeys t (ld_id l) (the (pl_key_id b)) ids True) (\<lambda>r. retM (snd r)) else retM []) (\<lambda>errs.
        retM (ld_id l, errs)))))"

definition publicAdd :: "principal \<Rightarrow> string \<Rightarrow> json \<Rightarrow> (nat \<times> key_error list) act" where
  "publicAdd p i body = bindM (liftE (parsePublic publicMembers body)) (\<lambda>b.
     bindM (liftE (listTenantOf p)) (\<lambda>t. byKeys t i (pm_key_id b) (pm_external_ids b) True))"

definition publicRemove :: "principal \<Rightarrow> string \<Rightarrow> json \<Rightarrow> (nat \<times> key_error list) act" where
  "publicRemove p i body = bindM (liftE (parsePublic publicMembers body)) (\<lambda>b.
     bindM (liftE (listTenantOf p)) (\<lambda>t. byKeys t i (pm_key_id b) (pm_external_ids b) False))"

definition publicCount :: "principal \<Rightarrow> string \<Rightarrow> nat act" where
  "publicCount p i = bindM (liftE (listTenantOf p)) (\<lambda>t. countMembers t i)"

definition adminCreateList :: "principal \<Rightarrow> json \<Rightarrow> list_dto act" where
  "adminCreateList p body = bindM (liftE (listTenantOf p)) (\<lambda>t. bindM (liftE (parseBody listInput body)) (\<lambda>n. createList t n))"

definition adminUpdateList :: "principal \<Rightarrow> string \<Rightarrow> json \<Rightarrow> list_dto act" where
  "adminUpdateList p i body = bindM (liftE (listTenantOf p)) (\<lambda>t. bindM (liftE (parseBody listUpdate body)) (\<lambda>n. renameList t i n))"

definition adminRemoveList :: "principal \<Rightarrow> string \<Rightarrow> unit act" where
  "adminRemoveList p i = bindM (liftE (listTenantOf p)) (\<lambda>t. removeList t i)"

definition adminChangeMembers :: "principal \<Rightarrow> string \<Rightarrow> json \<Rightarrow> bool \<Rightarrow> changed_members act" where
  "adminChangeMembers p i body add = bindM (liftE (listTenantOf p)) (\<lambda>t. bindM (liftE (parseBody contactIds body)) (\<lambda>is.
     if add then addContacts t i is else removeContacts t i is))"

definition internalAdd :: "principal \<Rightarrow> string \<Rightarrow> json \<Rightarrow> (nat \<times> key_error list) act" where
  "internalAdd p i body = bindM (liftE (parseBody internalMembers body)) (\<lambda>b.
     if pr_tenant p \<noteq> None \<and> pr_tenant p \<noteq> Some [] \<and> pr_tenant p \<noteq> Some (im_tenant b)
     then throwM (HttpExc 403 ''tenant_id does not match the service token'')
     else byKeys (im_tenant b) i (im_key_id b) (im_key_values b) True)"

section \<open>The public list\<close>

definition canonical_lists :: "string \<Rightarrow> db \<Rightarrow> bool" where
  "canonical_lists t d \<longleftrightarrow> (\<forall>l \<in> set (lists_in t d). uuid_text (cl_id l)) \<and> distinct (map cl_id (lists_in t d))"

lemma limit_200: "parseCursorQuery ((''limit'', JStr ''200'') # cur) 50 200 = Inr \<lparr>cq_cursor = (case map_of cur ''cursor'' of Some (JStr c) \<Rightarrow> if 0 < length c then Some c else None | _ \<Rightarrow> None), cq_limit = 200\<rparr>"
proof -
  have "js_number ''200'' = Some (int_num 200)" "trim ''200'' \<noteq> []" by code_simp+
  then show ?thesis by (simp add: parseCursorQuery_def parseLimit_def is_int_num_def)
qed

lemma encodeCursor_nonempty: "encodeCursor [i] \<noteq> []"
proof
  assume "encodeCursor [i] = []"
  then have "decodeCursor [] 1 = Inr [i]" using decode_encode[of "[i]" 1] by simp
  moreover have "decodeCursor [] 1 = Inl (HttpExc 400 ''invalid cursor'')"
    by (simp add: decodeCursor_def b64_decode_def parse_strings_def)
  ultimately show False by simp
qed

abbreviation pages :: "string \<Rightarrow> db \<Rightarrow> string option \<Rightarrow> clist list \<times> string option" where
  "pages t d \<equiv> keyset.page cl_id (\<lambda>after. past_id after (id_order (lists_in t d))) 200"

lemma list_lists_page:
  assumes "\<And>i. c = Some i \<Longrightarrow> uuid_text i"
  shows "list_lists t ((''limit'', JStr ''200'') # (case map_option (\<lambda>i. encodeCursor [i]) c of None \<Rightarrow> [] | Some x \<Rightarrow> [(''cursor'', JStr x)])) w =
    (Inr (buildCursorPage (map (toListDto t (w_db w)) (fst (pages t (w_db w) c))) (map_option (\<lambda>i. encodeCursor [i]) (snd (pages t (w_db w) c)))), w)"
proof -
  have parts: "decodeParts (map_option (\<lambda>i. encodeCursor [i]) c) (Suc 0) = Inr (map_option (\<lambda>i. [i]) c)"
    by (cases c) (simp_all add: decodeParts_def decode_encode)
  have cast: "castId (map_option (\<lambda>i. [i]) c) = Inr c"
    using assms by (cases c) (auto simp: castId_def as_uuid_def uuid_text_def)
  have m: "matching_lists t (search_of ((''limit'', JStr ''200'') # (case map_option (\<lambda>i. encodeCursor [i]) c of None \<Rightarrow> [] | Some x \<Rightarrow> [(''cursor'', JStr x)]))) d = lists_in t d" for d
    by (cases c) (simp_all add: search_of_def matching_lists_def)
  have q: "parseCursorQuery ((''limit'', JStr ''200'') # (case map_option (\<lambda>i. encodeCursor [i]) c of None \<Rightarrow> [] | Some x \<Rightarrow> [(''cursor'', JStr x)])) 50 200 =
      Inr \<lparr>cq_cursor = map_option (\<lambda>i. encodeCursor [i]) c, cq_limit = 200\<rparr>"
    unfolding limit_200 by (cases c) (simp_all add: encodeCursor_nonempty)
  show ?thesis unfolding list_lists_def m q by (simp add: bindM_def parts cast list_page_eq)
qed

lemma publicLists_crawl:
  assumes can: "canonical_lists t (w_db w)" and "\<And>i. c = Some i \<Longrightarrow> uuid_text i"
  shows "publicLists n t (map_option (\<lambda>i. encodeCursor [i]) c) w =
    map_option (\<lambda>ls. (Inr (map (\<lambda>l. summary (toListDto t (w_db w) l)) ls), w)) (crawl (pages t (w_db w)) n c)"
  using assms(2)
proof (induction n arbitrary: c)
  case (Suc n)
  obtain ls nx where p: "pages t (w_db w) c = (ls, nx)" by (cases "pages t (w_db w) c")
  have nx: "uuid_text i" if "nx = Some i" for i
  proof -
    have sub: "set (past_id c (id_order (lists_in t (w_db w)))) \<subseteq> set (lists_in t (w_db w))"
      by (auto simp: past_id_def id_order_def split: option.splits)
    have "i = cl_id (last (take 200 (past_id c (id_order (lists_in t (w_db w))))))" "200 < length (past_id c (id_order (lists_in t (w_db w))))"
      using p that by (auto simp: list_pages.page_def page_next_fetch[of 200, simplified] split: if_splits)
    moreover from this(2) have "last (take 200 (past_id c (id_order (lists_in t (w_db w))))) \<in> set (past_id c (id_order (lists_in t (w_db w))))"
      by (metis in_set_takeD last_in_set length_greater_0_conv less_trans not_less_zero take_eq_Nil zero_less_numeral list.size(3))
    ultimately show ?thesis using can sub unfolding canonical_lists_def by blast
  qed
  show ?case
  proof (cases nx)
    case None
    then show ?thesis using list_lists_page[OF Suc.prems] by (simp add: p buildCursorPage_def)
  next
    case (Some i)
    have "publicLists n t (Some (encodeCursor [i])) w = map_option (\<lambda>ls. (Inr (map (\<lambda>l. summary (toListDto t (w_db w) l)) ls), w)) (crawl (pages t (w_db w)) n (Some i))"
      using Suc.IH[of "Some i"] nx Some by simp
    then show ?thesis
      using list_lists_page[OF Suc.prems] Some
      by (simp add: p buildCursorPage_def option.map_comp) (simp add: comp_def)
  qed
qed simp

lemma switched_set:
  assumes "\<And>m. m \<in> set (db_members d) \<Longrightarrow> mb_list m = l \<Longrightarrow> mb_tenant m = t"
  shows "set (switched t l is add d) = {c \<in> set (live_among t is d). is_member l c d \<noteq> add}"
proof (cases add)
  case True
  then show ?thesis using switched_add by auto
next
  case False
  have "m \<in> set (db_members d) \<Longrightarrow> mb_list m = l \<Longrightarrow> mb_tenant m = t" for m by (rule assms)
  then show ?thesis using False by (auto simp: switched_def is_member_iff image_iff)
qed

lemma byKeys_Inl: "byKeys t i k ks add w = (Inl e, w') \<Longrightarrow> db_lists (w_db w') = db_lists (w_db w)"
proof -
  assume a: "byKeys t i k ks add w = (Inl e, w')"
  have g: "getList t i w = (r, v) \<Longrightarrow> v = w" for r v by (auto simp: getList_def bindM_def split: option.splits)
  have r: "resolve t k ks v = (x, u) \<Longrightarrow> w_db u = w_db v" for v x u
    using keeps_outcome[OF reads_resolve] by (simp add: same_db_def)
  have c: "changeMembers t i is add v = (Inl e, u) \<Longrightarrow> u = v" for v u e "is"
    by (auto simp: changeMembers_eq split: option.splits)
  from a show ?thesis unfolding byKeys_def bindM_Inl bindM_Inr
    by (auto dest!: g r c)
qed

lemma createList_Inr:
  assumes "createList t name w = (Inr l, w')"
  shows "\<exists>x \<in> set (lists_in t (w_db w')). cl_name x = name"
proof -
  obtain i w1 where i: "insertList t name w = (Inr i, w1)" and g: "getList t i w1 = (Inr l, w')"
    using assms by (auto simp: createList_def bindM_Inr mapErrM_Inr)
  have "w' = w1" using g by (auto simp: getList_def bindM_Inr split: option.splits)
  moreover have "\<lparr>cl_id = i, cl_tenant = t, cl_name = name, cl_createdAt = w_now w, cl_updatedAt = w_now w\<rparr> \<in> set (lists_in t (w_db w1))"
    using i by (auto simp: insertList_def bindM_Inr lists_in_def split: if_splits)
  ultimately show ?thesis by force
qed

section \<open>A tenant with a list\<close>

definition demo_list_id :: string where
  "demo_list_id = ''aaaaaaaa-aaaa-7aaa-8aaa-aaaaaaaaaaaa''"

definition demo_contact_id :: string where
  "demo_contact_id = ''cccccccc-cccc-7ccc-8ccc-cccccccccccc''"

definition demo_lists :: world where
  "demo_lists = demo_world ((demo_db [demo_contact demo_contact_id [(''3'', JStr ''a'')]] [])\<lparr>
     db_lists := [\<lparr>cl_id = demo_list_id, cl_tenant = ''t'', cl_name = ''News'', cl_createdAt = 0, cl_updatedAt = 0\<rparr>]\<rparr>)"

lemma demo_find: "find_list ''t'' demo_list_id (w_db demo_lists) = Some \<lparr>cl_id = demo_list_id, cl_tenant = ''t'', cl_name = ''News'', cl_createdAt = 0, cl_updatedAt = 0\<rparr>"
  by code_simp

lemma demo_members_ok: "members_ok (w_db demo_lists)" and demo_lists_constraints: "constraints (w_db demo_lists)"
  by (simp_all add: members_ok_def demo_lists_def demo_world_def demo_db_def constraints_def pairwise_clash_free_def)

lemma demo_canonical: "canonical_lists ''t'' (w_db demo_lists)"
proof -
  have "uuid_text demo_list_id" by code_simp
  then show ?thesis by (simp add: canonical_lists_def lists_in_def demo_lists_def demo_world_def demo_db_def)
qed

section \<open>Properties\<close>

text \<open>C16. The public list of lists ends, after at most one page more than there are lists, and
  returns every list of the tenant exactly once, in id order: following the encoded cursors skips
  none and repeats none.\<close>

theorem public_lists_enumerate:
  assumes "canonical_lists t (w_db w)"
  shows "publicLists (Suc (length (lists_in t (w_db w)))) t None w =
    Some (Inr (map (\<lambda>l. summary (toListDto t (w_db w) l)) (sort_key cl_id (lists_in t (w_db w)))), w)"
proof -
  have d: "distinct (map cl_id (id_order (lists_in t (w_db w))))"
    using assms by (simp add: canonical_lists_def id_order_def distinct_map inj_on_def)
  have "crawl (pages t (w_db w)) (Suc (length (lists_in t (w_db w)))) None = Some (id_order (lists_in t (w_db w)))"
    by (rule list_pages.crawl_all[OF d]) (simp_all add: id_order_def)
  then show ?thesis
    using publicLists_crawl[OF assms, of None] by (simp add: id_order_def)
qed

lemma demo_lists_in: "lists_in ''t'' (w_db demo_lists) = [\<lparr>cl_id = demo_list_id, cl_tenant = ''t'', cl_name = ''News'', cl_createdAt = 0, cl_updatedAt = 0\<rparr>]"
  by (simp add: lists_in_def demo_lists_def demo_world_def demo_db_def)

lemma public_lists_enumerate_witness:
  "publicLists (Suc (Suc 0)) ''t'' None demo_lists = Some (Inr [(demo_list_id, ''News'', iso_string 0)], demo_lists)"
  using public_lists_enumerate[OF demo_canonical] unfolding demo_lists_in
  by (simp add: summary_def toListDto_def del: publicLists.simps)

text \<open>A cursor decodes to the parts it was made of, and to nothing else: with another number of
  parts expected it is rejected as invalid.\<close>

theorem cursor_round_trip: "decodeCursor (encodeCursor parts) n =
    (if length parts = n then Inr parts else Inl (HttpExc 400 ''invalid cursor''))"
  by (rule decode_encode)

text \<open>Searching lists by name finds exactly the names that contain the text, without regard to
  case: the wild cards of \<open>LIKE\<close> in the text stand for themselves.\<close>

theorem list_search_is_substring: "ilike name (like_pattern q) \<longleftrightarrow> (\<exists>a b. lower name = a @ lower q @ b)"
  by (simp add: ilike_contains contains_def)

text \<open>Adding contacts to a list makes members of exactly the live contacts named that were not,
  and removing them ends exactly those memberships; no other membership changes. The request
  reports how many changed and which ids name no live contact, and leaves an event for each
  contact whose lists changed, which carries the contact's lists after the change. On an unknown
  list nothing happens.\<close>

theorem membership_changes:
  assumes "changeMembers t i is add w = (r, w')" and "members_ok (w_db w)" and "constraints (w_db w)"
  shows "case find_list t i (w_db w) of
      None \<Rightarrow> r = Inl (HttpExc 404 ''list not found'') \<and> w' = w
    | Some l \<Rightarrow> members_ok (w_db w') \<and>
        (\<forall>k c. is_member k c (w_db w') \<longleftrightarrow> (if k = cl_id l \<and> c \<in> set (live_among t is (w_db w)) then add else is_member k c (w_db w))) \<and>
        (\<exists>cs. r = Inr \<lparr>cm_changed = length cs, cm_not_found = filter (\<lambda>i. lower i \<notin> set (live_among t is (w_db w))) is\<rparr> \<and>
           set cs = {c \<in> set (live_among t is (w_db w)). is_member (cl_id l) c (w_db w) \<noteq> add} \<and>
           (\<exists>new. db_outbox (w_db w') = db_outbox (w_db w) @ new \<and> set (map (\<lambda>e. ev_contact_id (ob_envelope e)) new) = Some ` set cs \<and>
             (\<forall>e \<in> set new. \<exists>x. ev_contact_id (ob_envelope e) = Some (ct_id x) \<and> ev_data (ob_envelope e) = snapshot t [] (w_db w') x)))"
proof (cases "find_list t i (w_db w)")
  case None
  then show ?thesis using assms(1) by (simp add: changeMembers_eq listNotFound_def)
next
  case (Some l)
  let ?cs = "switched t (cl_id l) is add (w_db w)" and ?w = "w\<lparr>w_db := switch_effect t (cl_id l) is add (w_now w) (w_db w)\<rparr>"
  have l: "l \<in> set (db_lists (w_db w))" "cl_tenant l = t" using find_list_Some[OF Some] by auto
  have w': "w' = snd (flush (snd (upserted t (touched ?cs) ?w)))" and
    r: "r = Inr \<lparr>cm_changed = length ?cs, cm_not_found = filter (\<lambda>i. lower i \<notin> set (live_among t is (w_db w))) is\<rparr>"
    using assms(1) Some by (auto simp: changeMembers_eq)
  have same: "db_members (w_db w') = db_members (w_db ?w)" "db_lists (w_db w') = db_lists (w_db ?w)" "db_contacts (w_db w') = db_contacts (w_db ?w)"
    "db_outbox (w_db w') = db_outbox (w_db (snd (upserted t (touched ?cs) ?w)))"
    by (simp_all add: w' flush_def upserted_eq)
  have ids: "distinct (map ct_id (live_contacts t (w_db w)))"
    using assms(3) unfolding live_contacts_def constraints_def by (intro distinct_live_ids pairwise_clash_free_filter) simp
  have ok: "members_ok (w_db w')"
    using switch_ok[OF assms(2) l ids, of "is" add "w_now w"] same by (simp add: members_ok_def)
  have mem: "is_member k c (w_db w') \<longleftrightarrow> (if k = cl_id l \<and> c \<in> set (live_among t is (w_db w)) then add else is_member k c (w_db w))" for k c
    using switch_members[OF assms(2) l, of k c "is" add "w_now w"] same by (simp add: is_member_def)
  have ten: "m \<in> set (db_members (w_db w)) \<Longrightarrow> mb_list m = cl_id l \<Longrightarrow> mb_tenant m = t" for m
    using assms(2) l by (auto simp: members_ok_def)
  have cs: "set ?cs = {c \<in> set (live_among t is (w_db w)). is_member (cl_id l) c (w_db w) \<noteq> add}"
    by (rule switched_set) (rule ten)
  have live: "\<forall>c \<in> set ?cs. \<exists>x \<in> set (db_contacts (w_db ?w)). ct_tenant x = t \<and> ct_id x = c"
    using switched_live by (simp add: switch_effect_def with_members_def without_members_def)
  have ob: "db_outbox (w_db ?w) = db_outbox (w_db w)" by (simp add: switch_effect_def with_members_def without_members_def)
  have snap: "snapshot t [] (w_db ?w) x = snapshot t [] (w_db w') x" for x
    using same(1) by (intro snapshot_cong) simp
  have "\<exists>new. db_outbox (w_db w') = db_outbox (w_db w) @ new \<and> set (map (\<lambda>e. ev_contact_id (ob_envelope e)) new) = Some ` set ?cs \<and>
      (\<forall>e \<in> set new. \<exists>x. ev_contact_id (ob_envelope e) = Some (ct_id x) \<and> ev_data (ob_envelope e) = snapshot t [] (w_db w') x)"
  proof -
    obtain new where "db_outbox (w_db (snd (upserted t (touched ?cs) ?w))) = db_outbox (w_db ?w) @ new"
      "set (map (\<lambda>r. ev_contact_id (ob_envelope r)) new) = Some ` set ?cs"
      "\<forall>r \<in> set new. ev_type (ob_envelope r) = ''contacts.upserted'' \<and> (\<exists>x. ev_contact_id (ob_envelope r) = Some (ct_id x) \<and>
        ev_data (ob_envelope r) = snapshot t [] (w_db ?w) x)"
      using upserted_touched[OF live] by (elim exE conjE)
    then show ?thesis unfolding same(4) ob snap by (intro exI[of _ new] conjI ballI) auto
  qed
  note ev = this
  show ?thesis unfolding Some option.case
  proof (intro conjI exI[of _ ?cs] allI)
    show "members_ok (w_db w')" by (rule ok)
    show "is_member k c (w_db w') \<longleftrightarrow> (if k = cl_id l \<and> c \<in> set (live_among t is (w_db w)) then add else is_member k c (w_db w))" for k c
      by (rule mem)
  qed (rule r cs ev)+
qed

lemma membership_changes_witness: "is_member demo_list_id demo_contact_id (w_db (snd (changeMembers ''t'' demo_list_id [demo_contact_id] True demo_lists)))"
proof -
  have "demo_contact_id \<in> set (live_among ''t'' [demo_contact_id] (w_db demo_lists))" by code_simp
  with membership_changes[OF prod.collapse[symmetric] demo_members_ok demo_lists_constraints, of "''t''" demo_list_id "[demo_contact_id]" True]
  show ?thesis unfolding demo_find by (simp del: split_paired_All)
qed

text \<open>Creating a list through the public API with members is not one step: when adding them
  fails (an unknown key field, say) the request fails with that error, and the list is there.\<close>

theorem failed_public_create_leaves_the_list:
  assumes "parsePublic publicCreate body = Inr b" and "pl_external_ids b = Some ids" and "ids \<noteq> []" and "pl_key_id b = Some k"
    and "listTenantOf p = Inr t" and "createList t (pl_name b) w = (Inr l, w1)" and "byKeys t (ld_id l) k ids True w1 = (Inl e, w2)"
  shows "publicCreateList p body w = (Inl e, w2) \<and> (\<exists>x \<in> set (lists_in t (w_db w2)). cl_name x = pl_name b)"
proof
  show "publicCreateList p body w = (Inl e, w2)"
    using assms by (simp add: publicCreateList_def bindM_def mapErrM_def Let_def)
  have "\<exists>x \<in> set (lists_in t (w_db w1)). cl_name x = pl_name b"
    using createList_Inr[OF assms(6)] .
  then show "\<exists>x \<in> set (lists_in t (w_db w2)). cl_name x = pl_name b"
    using byKeys_Inl[OF assms(7)] by (simp add: lists_in_def)
qed

definition demo_public_list :: public_list where
  "demo_public_list = \<lparr>pl_name = ''VIP'', pl_key_id = Some ''9'', pl_external_ids = Some [''x'']\<rparr>"

definition demo_user :: principal where
  "demo_user = \<lparr>pr_sub = ''u'', pr_typ = TUser, pr_tenant = Some ''t'', pr_perms = Some [], pr_scopes = None, pr_iat = 0, pr_exp = 0\<rparr>"

lemma demo_created: "\<not> isl (fst (createList ''t'' ''VIP'' (demo_lists\<lparr>w_ids := \<lambda>_. demo_contact_id\<rparr>)))"
  by code_simp

lemma createList_same:
  assumes "createList t name w = (Inr l, w')"
  shows "db_fields (w_db w') = db_fields (w_db w) \<and> w_cache w' = w_cache w"
proof -
  obtain i w1 where i: "insertList t name w = (Inr i, w1)" and g: "getList t i w1 = (Inr l, w')"
    using assms by (auto simp: createList_def bindM_Inr mapErrM_Inr)
  have "w' = w1" using g by (auto simp: getList_def bindM_Inr split: option.splits)
  then show ?thesis using i by (auto simp: insertList_def bindM_Inr split: if_splits)
qed

lemma failed_public_create_leaves_the_list_witness:
  "\<exists>e w2. publicCreateList demo_user (JObj [(''name'', JStr ''VIP''), (''key_id'', JStr ''9''), (''external_ids'', JArr [JStr ''x''])])
     (demo_lists\<lparr>w_ids := \<lambda>_. demo_contact_id\<rparr>) = (Inl e, w2) \<and> (\<exists>x \<in> set (lists_in ''t'' (w_db w2)). cl_name x = ''VIP'')"
proof -
  let ?w = "demo_lists\<lparr>w_ids := \<lambda>_. demo_contact_id\<rparr>"
  have 1: "parsePublic publicCreate (JObj [(''name'', JStr ''VIP''), (''key_id'', JStr ''9''), (''external_ids'', JArr [JStr ''x''])]) = Inr demo_public_list"
    by code_simp
  obtain l w1 where 2: "createList ''t'' ''VIP'' ?w = (Inr l, w1)" using Inr_pair[OF demo_created] by blast
  have w1: "live_fields ''t'' (w_db w1) = live_fields ''t'' (w_db demo_lists)" "w_cache w1 = []"
    using createList_same[OF 2] by (simp_all add: live_fields_def) (simp_all add: demo_lists_def demo_world_def)
  have f: "field_of (live_fields ''t'' (w_db demo_lists)) (digits_int ''9'') = None" "is_digits ''9''" by code_simp+
  have 3: "\<exists>e w2. byKeys ''t'' (ld_id l) ''9'' [''x''] True w1 = (Inl e, w2)"
  proof (cases "getList ''t'' (ld_id l) w1")
    case (Pair r v)
    show ?thesis
    proof (cases r)
      case (Inl e)
      then show ?thesis using Pair by (simp add: byKeys_def)
    next
      case (Inr x)
      then have "v = w1" using Pair by (auto simp: getList_def split: option.splits)
      then show ?thesis
        using Pair Inr w1 f by (simp add: byKeys_def bindM_def resolve_def assertKey_def registryFields_def Let_def)
    qed
  qed
  then obtain e w2 where 3: "byKeys ''t'' (ld_id l) ''9'' [''x''] True w1 = (Inl e, w2)" by blast
  have "listTenantOf demo_user = Inr ''t''" by (simp add: listTenantOf_def tenantOf_def demo_user_def)
  from failed_public_create_leaves_the_list[OF 1 _ _ _ this, of "[''x'']" "''9''" ?w l w1 e w2] 2 3 show ?thesis
    by (auto simp: demo_public_list_def)
qed

end
