(* ===== verification/Relational.thy ===== *)
theory Relational
  imports Contact_Lists_Api
begin

text \<open>
  \<open>services/core/src/modules/relational\<close>: the tables a tenant hangs off its contacts, and their
  rows. A row's identity is its table, contact and key; a batch writes the rows that are valid and
  reports the others by their index.
\<close>

section \<open>Schemas (\<open>dto.ts\<close>)\<close>

record table_input =
  ti_name :: string
  ti_key_field :: string
  ti_columns :: "column list"

record table_update =
  tu_name :: "string option"
  tu_add_columns :: "column list option"

record row_input =
  ri_key_value :: string
  ri_row_key :: string
  ri_data :: object

record rows_request =
  rq_key_id :: string
  rq_rows :: "row_input list"

definition parseOptionId :: "json \<Rightarrow> int option" where
  "parseOptionId v = (case v of
      JObj kvs \<Rightarrow> (case map_of kvs ''id'' of Some (JNum n) \<Rightarrow> if is_int_num n \<and> 1 \<le> mant n then Some (mant n) else None | _ \<Rightarrow> None)
    | _ \<Rightarrow> None)"

definition parseColumn :: "json \<Rightarrow> column option" where
  "parseColumn v = (case v of
      JObj kvs \<Rightarrow> (case (parseApiName (map_of kvs ''name''), parseType (map_of kvs ''type''), optional (parseArray parseOptionId) (map_of kvs ''choices'')) of
          (Some n, Some t, Some c) \<Rightarrow> Some \<lparr>cn_name = n, cn_type = t, cn_choices = c\<rparr>
        | _ \<Rightarrow> None)
    | _ \<Rightarrow> None)"

definition uniqueNames :: "column list \<Rightarrow> bool" where
  "uniqueNames cols \<longleftrightarrow> length (uniq (map cn_name cols)) = length cols"

definition tableCreateSchema :: "json \<Rightarrow> table_input option" where
  "tableCreateSchema v = (case v of
      JObj kvs \<Rightarrow> (case (parseApiName (map_of kvs ''name''), map_of kvs ''key_field'', bounded 100 (parseArray parseColumn (map_of kvs ''columns''))) of
          (Some n, Some (JStr k), Some cs) \<Rightarrow>
            if uniqueNames cs \<and> list_ex (\<lambda>c. cn_name c = k) cs then Some \<lparr>ti_name = n, ti_key_field = k, ti_columns = cs\<rparr> else None
        | _ \<Rightarrow> None)
    | _ \<Rightarrow> None)"

definition atLeastOne :: "'a list option \<Rightarrow> 'a list option" where
  "atLeastOne xs = (case xs of Some ys \<Rightarrow> if ys \<noteq> [] then Some ys else None | None \<Rightarrow> None)"

definition tableUpdateSchema :: "json \<Rightarrow> table_update option" where
  "tableUpdateSchema v = (case v of
      JObj kvs \<Rightarrow> (case (optional parseApiName (map_of kvs ''name''), optional (\<lambda>x. atLeastOne (parseArray parseColumn x)) (map_of kvs ''add_columns'')) of
          (Some n, Some cs) \<Rightarrow> if n = None \<and> cs = None then None else Some \<lparr>tu_name = n, tu_add_columns = cs\<rparr>
        | _ \<Rightarrow> None)
    | _ \<Rightarrow> None)"

definition parseRow :: "json \<Rightarrow> row_input option" where
  "parseRow v = (case v of
      JObj kvs \<Rightarrow> (case (map_of kvs ''key_value'', map_of kvs ''row_key'', map_of kvs ''data'') of
          (Some (JStr k), Some (JStr r), Some (JObj d)) \<Rightarrow> if 1 \<le> length r then Some \<lparr>ri_key_value = k, ri_row_key = r, ri_data = d\<rparr> else None
        | _ \<Rightarrow> None)
    | _ \<Rightarrow> None)"

definition rowsRequestSchema :: "json \<Rightarrow> rows_request option" where
  "rowsRequestSchema v = (case v of
      JObj kvs \<Rightarrow> (case ((case map_of kvs ''key_id'' of Some (JStr s) \<Rightarrow> Some s | Some (JNum n) \<Rightarrow> Some (num_string n) | _ \<Rightarrow> None),
            atLeastOne (parseArray parseRow (map_of kvs ''rows''))) of
          (Some k, Some rs) \<Rightarrow> Some \<lparr>rq_key_id = k, rq_rows = rs\<rparr>
        | _ \<Rightarrow> None)
    | _ \<Rightarrow> None)"

definition internalRowsRequestSchema :: "json \<Rightarrow> (string \<times> rows_request) option" where
  "internalRowsRequestSchema v = (case (rowsRequestSchema v, obj_get v ''tenant_id'') of
      (Some r, Some t) \<Rightarrow> map_option (\<lambda>u. (u, r)) (parseUuid t) | _ \<Rightarrow> None)"

section \<open>Tables (\<open>relational.service.ts\<close>)\<close>

definition MAX_ROWS :: nat where
  "MAX_ROWS = 1000"

definition tableNameInUse :: "string \<Rightarrow> exn" where
  "tableNameInUse name = HttpExc 409 (''relational table '' @ name @ '' already exists'')"

definition tableNotFound :: "string \<Rightarrow> exn" where
  "tableNotFound i = PublicApi 2017 (''relational table '' @ i @ '' does not exist'') 404"

definition tables_in :: "string \<Rightarrow> db \<Rightarrow> rtable list" where
  "tables_in t d = filter (\<lambda>r. tb_tenant r = t) (db_tables d)"

definition listTables :: "string \<Rightarrow> nat \<Rightarrow> string option \<Rightarrow> (rtable list \<times> string option) act" where
  "listTables t limit cursor = readDb (\<lambda>d.
     let rows = take (Suc limit) (filter (\<lambda>r. case cursor of Some c \<Rightarrow> (if is_uuid c then lower c < tb_id r else True) | None \<Rightarrow> True)
           (sort_key tb_id (tables_in t d)))
     in (take limit rows, if limit < length rows then Some (tb_id (rows ! (limit - 1))) else None))"

definition find_table :: "string \<Rightarrow> string \<Rightarrow> db \<Rightarrow> rtable option" where
  "find_table t i d = (if is_uuid i then find (\<lambda>r. uuid_eq (tb_id r) i) (tables_in t d) else None)"

definition getTable :: "string \<Rightarrow> string \<Rightarrow> rtable act" where
  "getTable t i = bindM (readDb (find_table t i)) (\<lambda>r. case r of None \<Rightarrow> throwM (tableNotFound i) | Some r \<Rightarrow> retM r)"

text \<open>The primary key and \<open>relational_tables_tenant_id_name_key\<close>.\<close>

definition table_clash :: "rtable \<Rightarrow> rtable \<Rightarrow> bool" where
  "table_clash r s \<longleftrightarrow> tb_id r = tb_id s \<or> (tb_tenant r = tb_tenant s \<and> tb_name r = tb_name s)"

definition onTableClash :: "string \<Rightarrow> exn \<Rightarrow> exn" where
  "onTableClash name e = (if e = UniqueViolation then tableNameInUse name else e)"

definition insertTable :: "rtable \<Rightarrow> rtable act" where
  "insertTable r = bindM (readDb db_tables) (\<lambda>rs. if list_ex (table_clash r) rs then throwM UniqueViolation
     else bindM (onDb (\<lambda>d. d\<lparr>db_tables := db_tables d @ [r]\<rparr>)) (\<lambda>_. retM r))"

definition createTable :: "string \<Rightarrow> table_input \<Rightarrow> rtable act" where
  "createTable t input = mapErrM (onTableClash (ti_name input)) (bindM fresh_id (\<lambda>i. bindM (getM w_now) (\<lambda>now.
     insertTable \<lparr>tb_id = i, tb_tenant = t, tb_name = ti_name input, tb_keyField = ti_key_field input,
       tb_columns = ti_columns input, tb_createdAt = now, tb_updatedAt = now\<rparr>)))"

definition storeTable :: "rtable \<Rightarrow> rtable act" where
  "storeTable r = bindM (readDb db_tables) (\<lambda>rs.
     if \<not> list_ex (\<lambda>s. tb_id s = tb_id r \<and> tb_tenant s = tb_tenant r) rs then throwM (PlainError ''record not found'')
     else if list_ex (\<lambda>s. tb_id s \<noteq> tb_id r \<and> table_clash r s) rs then throwM UniqueViolation
     else bindM (onDb (\<lambda>d. d\<lparr>db_tables := map (\<lambda>s. if tb_id s = tb_id r \<and> tb_tenant s = tb_tenant r then r else s) (db_tables d)\<rparr>)) (\<lambda>_. retM r))"

definition column_taken :: "column list \<Rightarrow> column list \<Rightarrow> bool" where
  "column_taken columns added \<longleftrightarrow> list_ex (\<lambda>c. List.member (map cn_name columns) (cn_name c)) added \<or> \<not> distinct (map cn_name added)"

text \<open>
  \<open>update\<close> reads the table and writes all its columns in separate statements: \<open>other\<close> is what
  other requests do in between.
\<close>

definition updateTable :: "(db \<Rightarrow> db) \<Rightarrow> string \<Rightarrow> string \<Rightarrow> table_update \<Rightarrow> rtable act" where
  "updateTable other t i input =
    bindM (getTable t i) (\<lambda>table.
    let added = (case tu_add_columns input of None \<Rightarrow> [] | Some cs \<Rightarrow> cs) in
    if column_taken (tb_columns table) added then throwM (HttpExc 409 ''column already exists'')
    else bindM (onDb other) (\<lambda>_. bindM (getM w_now) (\<lambda>now.
      bindM (readDb (find_table t i)) (\<lambda>now_row.
      mapErrM (onTableClash (case tu_name input of None \<Rightarrow> [] | Some n \<Rightarrow> n))
        (case now_row of None \<Rightarrow> throwM (PlainError ''record not found'')
         | Some r \<Rightarrow> storeTable (r\<lparr>tb_name := (case tu_name input of None \<Rightarrow> tb_name r | Some n \<Rightarrow> n),
             tb_columns := tb_columns table @ added, tb_updatedAt := now\<rparr>))))))"

definition drop_table :: "string \<Rightarrow> string \<Rightarrow> db \<Rightarrow> db" where
  "drop_table t i d = d\<lparr>db_tables := filter (\<lambda>r. \<not> (tb_tenant r = t \<and> tb_id r = i)) (db_tables d),
     db_rows := filter (\<lambda>r. \<not> (rr_tenant r = t \<and> rr_table r = i)) (db_rows d)\<rparr>"

definition removeTable :: "string \<Rightarrow> string \<Rightarrow> unit act" where
  "removeTable t i = bindM (getTable t i) (\<lambda>r. onDb (drop_table t (tb_id r)))"

definition rowsOf :: "string \<Rightarrow> string \<Rightarrow> string \<Rightarrow> nat \<Rightarrow> string option \<Rightarrow> (rrow list \<times> string option) act" where
  "rowsOf t contactId tableId limit cursor = bindM (getTable t tableId) (\<lambda>table. readDb (\<lambda>d.
     let rows = (if is_uuid contactId then take (Suc limit) (filter (\<lambda>r. case cursor of None \<Rightarrow> True | Some c \<Rightarrow> c = [] \<or> c < rr_key r)
           (sort_key rr_key (filter (\<lambda>r. rr_tenant r = t \<and> rr_table r = tb_id table \<and> uuid_eq (rr_contact r) contactId) (db_rows d)))) else [])
     in (take limit rows, if limit < length rows then Some (rr_key (rows ! (limit - 1))) else None)))"

section \<open>Batches of rows (\<open>upsertRows\<close>)\<close>

record valid_row =
  vr_contact :: string
  vr_key :: string
  vr_data :: object

fun rowData :: "column list \<Rightarrow> object \<Rightarrow> object \<Rightarrow> (int \<times> string) + object" where
  "rowData cols [] acc = Inr acc"
| "rowData cols ((name, raw) # kvs) acc =
    (case find (\<lambda>c. cn_name c = name) cols of
       None \<Rightarrow> Inl (2011, ''column '' @ name @ '' does not exist'')
     | Some c \<Rightarrow> (case normalizeValue (cn_type c) (case cn_choices c of None \<Rightarrow> [] | Some is \<Rightarrow> is) raw of
           Inl (_, text) \<Rightarrow> Inl (2010, ''column '' @ name @ '': '' @ text)
         | Inr v \<Rightarrow> rowData cols kvs (if v = JNull then acc else alist_put name v acc)))"

definition row_error :: "nat \<Rightarrow> row_input \<Rightarrow> int \<times> string \<Rightarrow> key_error" where
  "row_error i r e = \<lparr>ke_index = i, ke_key = ri_key_value r, ke_code = fst e, ke_text = snd e\<rparr>"

definition row_id :: "string \<Rightarrow> string \<Rightarrow> string" where
  "row_id contactId key = contactId @ [CHR 0x00] @ key"

definition checkRow :: "column list \<Rightarrow> (string \<times> string) list \<Rightarrow> (string \<times> valid_row) list \<Rightarrow> row_input \<Rightarrow> (int \<times> string) + valid_row" where
  "checkRow cols contacts valid r =
    (case map_of contacts (ri_key_value r) of
       None \<Rightarrow> Inl (2008, ''contact '' @ ri_key_value r @ '' not found'')
     | Some c \<Rightarrow> if c = [] then Inl (2008, ''contact '' @ ri_key_value r @ '' not found'')
        else (case rowData cols (ri_data r) [] of
          Inl e \<Rightarrow> Inl e
        | Inr dat \<Rightarrow> if map_of valid (row_id c (ri_row_key r)) \<noteq> None
            then Inl (2014, ''row_key '' @ ri_row_key r @ '' is duplicated for the contact in this request'')
            else Inr \<lparr>vr_contact = c, vr_key = ri_row_key r, vr_data = dat\<rparr>))"

fun checkRows :: "column list \<Rightarrow> (string \<times> string) list \<Rightarrow> nat \<Rightarrow> row_input list \<Rightarrow> key_error list \<Rightarrow> (string \<times> valid_row) list \<Rightarrow>
    key_error list \<times> (string \<times> valid_row) list" where
  "checkRows cols contacts i [] errs valid = (errs, valid)"
| "checkRows cols contacts i (r # rs) errs valid =
    (case checkRow cols contacts valid r of
       Inl e \<Rightarrow> checkRows cols contacts (Suc i) rs (errs @ [row_error i r e]) valid
     | Inr v \<Rightarrow> checkRows cols contacts (Suc i) rs errs (valid @ [(row_id (vr_contact v) (vr_key v), v)]))"

definition is_row :: "string \<Rightarrow> string \<Rightarrow> valid_row \<Rightarrow> rrow \<Rightarrow> bool" where
  "is_row t tableId v r \<longleftrightarrow> rr_tenant r = t \<and> rr_table r = tableId \<and> rr_contact r = vr_contact v \<and> rr_key r = vr_key v"

definition upsert_row :: "string \<Rightarrow> string \<Rightarrow> int \<Rightarrow> valid_row \<Rightarrow> rrow list \<Rightarrow> rrow list" where
  "upsert_row t tableId now v rs =
    (if list_ex (is_row t tableId v) rs then map (\<lambda>r. if is_row t tableId v r then r\<lparr>rr_data := vr_data v, rr_updatedAt := now\<rparr> else r) rs
     else rs @ [\<lparr>rr_table = tableId, rr_contact = vr_contact v, rr_key = vr_key v, rr_tenant = t, rr_data = vr_data v, rr_updatedAt = now\<rparr>])"

definition upsert_rows :: "string \<Rightarrow> string \<Rightarrow> int \<Rightarrow> valid_row list \<Rightarrow> rrow list \<Rightarrow> rrow list" where
  "upsert_rows t tableId now vs rs = fold (upsert_row t tableId now) vs rs"

definition upsertRows :: "string \<Rightarrow> string \<Rightarrow> string \<Rightarrow> row_input list \<Rightarrow> (nat \<times> key_error list) act" where
  "upsertRows t tableId keyId rows =
    bindM (getTable t tableId) (\<lambda>table.
    bindM (resolve t keyId (map ri_key_value rows)) (\<lambda>contacts.
    let (errs, valid) = checkRows (tb_columns table) contacts 0 rows [] [] in
    bindM (getM w_now) (\<lambda>now.
    bindM (if valid \<noteq> [] then transaction (onDb (\<lambda>d. d\<lparr>db_rows := upsert_rows t (tb_id table) now (map snd valid) (db_rows d)\<rparr>)) else retM ()) (\<lambda>_.
      retM (length valid, errs)))))"

section \<open>Endpoints (\<open>relational.controller.ts\<close>)\<close>

definition relTenantOf :: "principal \<Rightarrow> exn + string" where
  "relTenantOf = tenantOf ''operator principals cannot manage tenant relational data''"

text \<open>
  \<open>Math.min(200, Math.max(1, Number(limit) || 50))\<close>, as a number that may have a fraction
  (which Prisma then refuses).
\<close>

definition pageSize :: "string option \<Rightarrow> jsnum" where
  "pageSize limit = (case limit of None \<Rightarrow> int_num 50
     | Some s \<Rightarrow> if List.member [''Infinity'', ''+Infinity''] (trim s) then int_num 200
         else if trim s = ''-Infinity'' then int_num 1
         else (case js_number s of None \<Rightarrow> int_num 50
           | Some n \<Rightarrow> if mant n = 0 then int_num 50 else if mant n < 10 ^ scale n then int_num 1
               else if 200 * 10 ^ scale n < mant n then int_num 200 else n))"

definition tooMany :: "row_input list \<Rightarrow> exn + unit" where
  "tooMany rows = (if MAX_ROWS < length rows then Inl (PublicApi 1002 ''at most 1000 rows per request'' 400) else Inr ())"

definition createTableEndpoint :: "principal \<Rightarrow> json \<Rightarrow> rtable act" where
  "createTableEndpoint p body = bindM (liftE (relTenantOf p)) (\<lambda>t. bindM (liftE (parseBody tableCreateSchema body)) (\<lambda>b. createTable t b))"

definition updateTableEndpoint :: "(db \<Rightarrow> db) \<Rightarrow> principal \<Rightarrow> string \<Rightarrow> json \<Rightarrow> rtable act" where
  "updateTableEndpoint other p i body = bindM (liftE (relTenantOf p)) (\<lambda>t. bindM (liftE (parseBody tableUpdateSchema body)) (\<lambda>b. updateTable other t i b))"

definition removeTableEndpoint :: "principal \<Rightarrow> string \<Rightarrow> unit act" where
  "removeTableEndpoint p i = bindM (liftE (relTenantOf p)) (\<lambda>t. removeTable t i)"

definition publicUpsert :: "principal \<Rightarrow> string \<Rightarrow> json \<Rightarrow> (nat \<times> key_error list) act" where
  "publicUpsert p tableId body = bindM (liftE (parseBody rowsRequestSchema body)) (\<lambda>b. bindM (liftE (tooMany (rq_rows b))) (\<lambda>_.
     bindM (liftE (relTenantOf p)) (\<lambda>t. upsertRows t tableId (rq_key_id b) (rq_rows b))))"

definition internalUpsert :: "string \<Rightarrow> json \<Rightarrow> (nat \<times> key_error list) act" where
  "internalUpsert tableId body = bindM (liftE (parseBody internalRowsRequestSchema body)) (\<lambda>(t, b). bindM (liftE (tooMany (rq_rows b))) (\<lambda>_.
     upsertRows t tableId (rq_key_id b) (rq_rows b)))"

section \<open>Batches as updates of a map\<close>

text \<open>What each row of a request comes to, and the map from contact and key to the data a table holds.\<close>

fun verdicts :: "column list \<Rightarrow> (string \<times> string) list \<Rightarrow> (string \<times> valid_row) list \<Rightarrow> row_input list \<Rightarrow> ((int \<times> string) + valid_row) list" where
  "verdicts cols contacts valid [] = []"
| "verdicts cols contacts valid (r # rs) = (case checkRow cols contacts valid r of
      Inl e \<Rightarrow> Inl e # verdicts cols contacts valid rs
    | Inr v \<Rightarrow> Inr v # verdicts cols contacts (valid @ [(row_id (vr_contact v) (vr_key v), v)]) rs)"

fun errors_from :: "nat \<Rightarrow> row_input list \<Rightarrow> ((int \<times> string) + valid_row) list \<Rightarrow> key_error list" where
  "errors_from i (r # rs) (Inl e # vs) = row_error i r e # errors_from (Suc i) rs vs"
| "errors_from i (r # rs) (Inr v # vs) = errors_from (Suc i) rs vs"
| "errors_from i _ _ = []"

fun rights :: "('a + 'b) list \<Rightarrow> 'b list" where
  "rights [] = []"
| "rights (Inl e # vs) = rights vs"
| "rights (Inr v # vs) = v # rights vs"

definition keyed_row :: "valid_row \<Rightarrow> string \<times> valid_row" where
  "keyed_row v = (row_id (vr_contact v) (vr_key v), v)"

definition row_at :: "string \<Rightarrow> string \<Rightarrow> rrow list \<Rightarrow> string \<times> string \<Rightarrow> object option" where
  "row_at t tab rs k = map_option rr_data (find (\<lambda>r. rr_tenant r = t \<and> rr_table r = tab \<and> (rr_contact r, rr_key r) = k) rs)"

definition row_place :: "valid_row \<Rightarrow> string \<times> string" where
  "row_place v = (vr_contact v, vr_key v)"

lemma length_verdicts: "length (verdicts cols contacts valid rs) = length rs"
  by (induction rs arbitrary: valid) (simp_all split: sum.split)

lemma checkRows_verdicts: "checkRows cols contacts i rs errs valid =
    (errs @ errors_from i rs (verdicts cols contacts valid rs), valid @ map keyed_row (rights (verdicts cols contacts valid rs)))"
  by (induction rs arbitrary: i errs valid) (simp_all add: keyed_row_def split: sum.split)

lemma checkRow_Inr: "checkRow cols contacts valid r = Inr v \<Longrightarrow>
    map_of contacts (ri_key_value r) = Some (vr_contact v) \<and> vr_key v = ri_row_key r \<and>
    rowData cols (ri_data r) [] = Inr (vr_data v) \<and> map_of valid (row_id (vr_contact v) (vr_key v)) = None"
  by (auto simp: checkRow_def split: option.splits if_splits sum.splits)

lemma verdicts_Inr: "j < length rs \<Longrightarrow> verdicts cols contacts valid rs ! j = Inr v \<Longrightarrow>
    map_of contacts (ri_key_value (rs ! j)) = Some (vr_contact v) \<and> vr_key v = ri_row_key (rs ! j) \<and>
    rowData cols (ri_data (rs ! j)) [] = Inr (vr_data v)"
proof (induction rs arbitrary: j valid)
  case (Cons r rs)
  then show ?case
    by (cases j) (auto split: sum.splits dest: checkRow_Inr)
qed simp

lemma keys_snoc: "map_of (xs @ [(k, v)]) y = None \<longleftrightarrow> map_of xs y = None \<and> y \<noteq> k"
  by (auto simp: map_of_eq_None_iff)

lemma verdicts_distinct:
  "distinct (map (\<lambda>v. row_id (vr_contact v) (vr_key v)) (rights (verdicts cols contacts valid rs))) \<and>
   (\<forall>v \<in> set (rights (verdicts cols contacts valid rs)). map_of valid (row_id (vr_contact v) (vr_key v)) = None)"
proof (induction rs arbitrary: valid)
  case (Cons r rs)
  show ?case
  proof (cases "checkRow cols contacts valid r")
    case (Inl e)
    then show ?thesis using Cons.IH by simp
  next
    case (Inr v)
    have n: "map_of valid (row_id (vr_contact v) (vr_key v)) = None" using checkRow_Inr[OF Inr] by blast
    show ?thesis
      using Cons.IH[of "valid @ [(row_id (vr_contact v) (vr_key v), v)]"] n Inr
      unfolding keys_snoc by (simp add: image_iff) (metis)
  qed
qed simp

lemma places_distinct: "distinct (map (\<lambda>v. row_id (vr_contact v) (vr_key v)) vs) \<Longrightarrow> distinct (map row_place vs)"
  by (induction vs) (auto simp: row_place_def image_iff)

lemma map_of_rev_distinct: "distinct (map fst xs) \<Longrightarrow> map_of (rev xs) = map_of xs"
proof (induction xs)
  case (Cons x xs)
  have "map_of xs (fst x) = None" using Cons.prems by (auto simp: map_of_eq_None_iff)
  then show ?case using Cons by (cases x) (auto simp: map_add_def fun_eq_iff split: option.split)
qed simp

lemma rights_mem: "v \<in> set (rights vs) \<longleftrightarrow> Inr v \<in> set vs"
  by (induction vs rule: rights.induct) auto

lemma errors_from_index: "length vs = length rs \<Longrightarrow> map ke_index (errors_from i rs vs) = map ((+) i) (filter (\<lambda>j. isl (vs ! j)) [0..<length rs])"
proof (induction i rs vs rule: errors_from.induct)
  case (1 i r rs e vs)
  have "filter (\<lambda>j. isl ((Inl e # vs) ! j)) [0..<Suc (length rs)] = 0 # map Suc (filter (\<lambda>j. isl (vs ! j)) [0..<length rs])"
    by (simp add: upt_conv_Cons filter_map comp_def flip: map_Suc_upt del: upt_Suc)
  then show ?case using 1 by (simp add: row_error_def comp_def del: upt_Suc)
next
  case (2 i r rs v vs)
  have "filter (\<lambda>j. isl ((Inr v # vs) ! j)) [0..<Suc (length rs)] = map Suc (filter (\<lambda>j. isl (vs ! j)) [0..<length rs])"
    by (simp add: upt_conv_Cons filter_map comp_def flip: map_Suc_upt del: upt_Suc)
  then show ?case using 2 by (simp add: comp_def del: upt_Suc)
qed auto

lemma errors_from_mem: "length vs = length rs \<Longrightarrow> j < length rs \<Longrightarrow> vs ! j = Inl e \<Longrightarrow> row_error (i + j) (rs ! j) e \<in> set (errors_from i rs vs)"
proof (induction i rs vs arbitrary: j rule: errors_from.induct)
  case (1 i r rs e vs)
  show ?case
  proof (cases j)
    case (Suc k)
    then show ?thesis using 1(1)[of k] 1(2-) by simp
  qed (use 1 in simp)
next
  case (2 i r rs v vs)
  show ?case
  proof (cases j)
    case (Suc k)
    then show ?thesis using 2(1)[of k] 2(2-) by simp
  qed (use 2 in simp)
qed auto

text \<open>One upsert updates one entry of the map, and a batch all of its own.\<close>

lemma find_map_same: "(\<And>r. P (f r) \<longleftrightarrow> P r) \<Longrightarrow> find P (map f rs) = map_option f (find P rs)"
  by (induction rs) auto

lemma row_at_upsert: "row_at t tab (upsert_row t tab now v rs) = (row_at t tab rs)(row_place v \<mapsto> vr_data v)"
proof
  fix k
  let ?P = "\<lambda>r. rr_tenant r = t \<and> rr_table r = tab \<and> (rr_contact r, rr_key r) = k"
  let ?f = "\<lambda>r. if is_row t tab v r then r\<lparr>rr_data := vr_data v, rr_updatedAt := now\<rparr> else r"
  have iff: "is_row t tab v r \<longleftrightarrow> rr_tenant r = t \<and> rr_table r = tab \<and> (rr_contact r, rr_key r) = row_place v" for r
    by (auto simp: is_row_def row_place_def)
  have m: "find ?P (map ?f rs) = map_option ?f (find ?P rs)" by (rule find_map_same) simp
  show "row_at t tab (upsert_row t tab now v rs) k = ((row_at t tab rs)(row_place v \<mapsto> vr_data v)) k"
  proof (cases "list_ex (is_row t tab v) rs")
    case True
    have "row_at t tab (upsert_row t tab now v rs) k = map_option (rr_data \<circ> ?f) (find ?P rs)"
      using True by (simp add: row_at_def upsert_row_def m option.map_comp)
    moreover have "find ?P rs \<noteq> None" if "k = row_place v"
      using True that by (auto simp: find_None_set list_ex_iff iff)
    moreover have "is_row t tab v r \<longleftrightarrow> k = row_place v" if "find ?P rs = Some r" for r
      using find_Some_set[OF that] by (auto simp: iff)
    ultimately show ?thesis by (cases "find ?P rs") (auto simp: row_at_def)
  next
    case False
    have "find P (rs @ [x]) = (case find P rs of None \<Rightarrow> if P x then Some x else None | Some y \<Rightarrow> Some y)" for P and x :: rrow
      by (induction rs) auto
    moreover have "find ?P rs = None" if "k = row_place v"
      using False that by (auto simp: find_None_set list_ex_iff iff)
    ultimately show ?thesis
      using False by (auto simp: row_at_def upsert_row_def row_place_def split: option.splits)
  qed
qed

lemma row_at_upserts: "row_at t tab (upsert_rows t tab now vs rs) = (row_at t tab rs) ++ map_of (rev (map (\<lambda>v. (row_place v, vr_data v)) vs))"
  unfolding upsert_rows_def
  by (induction vs arbitrary: rs) (simp_all add: row_at_upsert)

lemma upsert_row_others: "filter (\<lambda>r. rr_tenant r \<noteq> t \<or> rr_table r \<noteq> tab) (upsert_row t tab now v rs) = filter (\<lambda>r. rr_tenant r \<noteq> t \<or> rr_table r \<noteq> tab) rs"
proof -
  have "filter (\<lambda>r. \<not> (rr_tenant r = t \<and> rr_table r = tab)) (map f rs) = filter (\<lambda>r. \<not> (rr_tenant r = t \<and> rr_table r = tab)) rs"
    if "\<And>r. rr_tenant (f r) = rr_tenant r \<and> rr_table (f r) = rr_table r \<and> (rr_tenant r = t \<and> rr_table r = tab \<or> f r = r)" for f
    using that by (induction rs) auto
  from this[of "\<lambda>r. if is_row t tab v r then r\<lparr>rr_data := vr_data v, rr_updatedAt := now\<rparr> else r"]
  show ?thesis by (simp add: upsert_row_def is_row_def)
qed

lemma upsert_rows_others: "filter (\<lambda>r. rr_tenant r \<noteq> t \<or> rr_table r \<noteq> tab) (upsert_rows t tab now vs rs) = filter (\<lambda>r. rr_tenant r \<noteq> t \<or> rr_table r \<noteq> tab) rs"
  unfolding upsert_rows_def by (induction vs arbitrary: rs) (simp_all add: upsert_row_others del: disj_not1)

lemma resolve_now: "resolve t keyId vs w = (r, w') \<Longrightarrow> w_now w' = w_now w"
  by (auto simp: resolve_def assertKey_def bindM_def registryFields_def Let_def split: prod.splits sum.splits option.splits if_splits)

lemma upsertRows_Inr:
  assumes "upsertRows t i keyId rows w = (Inr (n, errs), w')"
  shows "\<exists>tb. find_table t i (w_db w) = Some tb \<and>
    (let vs = verdicts (tb_columns tb) (resolveKeys t keyId (map ri_key_value rows) (w_db w)) [] rows in
     errs = errors_from 0 rows vs \<and> n = length (rights vs) \<and>
     w_db w' = (w_db w)\<lparr>db_rows := upsert_rows t (tb_id tb) (w_now w) (rights vs) (db_rows (w_db w))\<rparr>)"
proof -
  obtain tb where tb: "find_table t i (w_db w) = Some tb" and
    r: "bindM (resolve t keyId (map ri_key_value rows)) (\<lambda>contacts.
      let (errs, valid) = checkRows (tb_columns tb) contacts 0 rows [] [] in
      bindM (getM w_now) (\<lambda>now.
      bindM (if valid \<noteq> [] then transaction (onDb (\<lambda>d. d\<lparr>db_rows := upsert_rows t (tb_id tb) now (map snd valid) (db_rows d)\<rparr>)) else retM ()) (\<lambda>_.
        retM (length valid, errs)))) w = (Inr (n, errs), w')"
    using assms by (auto simp: upsertRows_def getTable_def bindM_Inr split: option.splits)
  obtain found w1 where f: "resolve t keyId (map ri_key_value rows) w = (Inr found, w1)"
    using r by (auto simp: bindM_Inr simp del: resolve_def)
  have db: "w_db w1 = w_db w" "found = resolveKeys t keyId (map ri_key_value rows) (w_db w)"
    using resolve_Inr[OF f] by auto
  have now: "w_now w1 = w_now w" using resolve_now[OF f] .
  have id: "snd \<circ> keyed_row = id" by (simp add: fun_eq_iff keyed_row_def)
  show ?thesis
    using r tb db now by (auto simp: f checkRows_verdicts Let_def bindM_Inr transaction_Inr id upsert_rows_def split: if_splits)
qed

section \<open>Properties\<close>


definition demo_table_id :: string where
  "demo_table_id = ''dddddddd-dddd-7ddd-8ddd-dddddddddddd''"

definition demo_tables :: world where
  "demo_tables = demo_world ((demo_db [demo_contact demo_contact_id [(''3'', JStr ''a'')]] [])\<lparr>
     db_tables := [\<lparr>tb_id = demo_table_id, tb_tenant = ''t'', tb_name = ''orders'', tb_keyField = ''total'',
       tb_columns = [\<lparr>cn_name = ''total'', cn_type = FNumber, cn_choices = None\<rparr>], tb_createdAt = 0, tb_updatedAt = 0\<rparr>]\<rparr>)"

definition demo_rows :: "row_input list" where
  "demo_rows = [\<lparr>ri_key_value = ''a'', ri_row_key = ''o1'', ri_data = [(''total'', JNum (int_num 7))]\<rparr>,
     \<lparr>ri_key_value = ''b'', ri_row_key = ''o2'', ri_data = []\<rparr>]"

lemma demo_upsert: "\<not> isl (fst (upsertRows ''t'' demo_table_id ''3'' demo_rows demo_tables)) \<and>
    map ke_index (snd (projr (fst (upsertRows ''t'' demo_table_id ''3'' demo_rows demo_tables)))) = [1]"
  by code_simp


text \<open>Adding columns is not safe against itself: of two requests that each add a column to a table,
  both read the columns before either writes, the second to write wins. It succeeds, and the
  column the first added, though its request had succeeded, is gone.\<close>

theorem added_column_is_lost:
  assumes "find_table t i (w_db w) = Some tb" and "db_tables (w_db w) = [tb]" and "tb_tenant tb = t"
    and "other = (\<lambda>d. d\<lparr>db_tables := [tb\<lparr>tb_columns := tb_columns tb @ [c1]\<rparr>]\<rparr>)"
    and "\<not> column_taken (tb_columns tb) [c1, c2]"
  shows "\<exists>w'. updateTable other t i \<lparr>tu_name = None, tu_add_columns = Some [c2]\<rparr> w =
      (Inr (tb\<lparr>tb_columns := tb_columns tb @ [c2], tb_updatedAt := w_now w\<rparr>), w') \<and>
    (\<forall>r \<in> set (db_tables (w_db w')). \<not> List.member (map cn_name (tb_columns r)) (cn_name c1))"
proof -
  have "is_uuid i" "uuid_eq (tb_id tb) i" using assms(1,2) by (auto simp: find_table_def tables_in_def split: if_splits)
  then have "find_table t i (other (w_db w)) = Some (tb\<lparr>tb_columns := tb_columns tb @ [c1]\<rparr>)"
    using assms(3) unfolding assms(4) by (simp add: find_table_def tables_in_def)
  then show ?thesis
    using assms by (auto simp: updateTable_def getTable_def bindM_def mapErrM_def storeTable_def Let_def column_taken_def)
qed

lemma added_column_is_lost_witness:
  "\<exists>w'. updateTable (\<lambda>d. d\<lparr>db_tables := [(hd (db_tables (w_db demo_tables)))\<lparr>tb_columns :=
        tb_columns (hd (db_tables (w_db demo_tables))) @ [\<lparr>cn_name = ''x'', cn_type = FText, cn_choices = None\<rparr>]\<rparr>]\<rparr>)
      ''t'' demo_table_id \<lparr>tu_name = None, tu_add_columns = Some [\<lparr>cn_name = ''y'', cn_type = FText, cn_choices = None\<rparr>]\<rparr> demo_tables =
      (Inr ((hd (db_tables (w_db demo_tables)))\<lparr>tb_columns := tb_columns (hd (db_tables (w_db demo_tables))) @ [\<lparr>cn_name = ''y'', cn_type = FText, cn_choices = None\<rparr>], tb_updatedAt := 0\<rparr>), w') \<and>
    (\<forall>r \<in> set (db_tables (w_db w')). \<not> List.member (map cn_name (tb_columns r)) ''x'')"
proof -
  have 1: "find_table ''t'' demo_table_id (w_db demo_tables) = Some (hd (db_tables (w_db demo_tables)))" by code_simp
  have 2: "db_tables (w_db demo_tables) = [hd (db_tables (w_db demo_tables))]" "w_now demo_tables = 0"
    by (simp_all add: demo_tables_def demo_world_def)
  have 3: "tb_tenant (hd (db_tables (w_db demo_tables))) = ''t''" by code_simp
  have 4: "\<not> column_taken (tb_columns (hd (db_tables (w_db demo_tables)))) [\<lparr>cn_name = ''x'', cn_type = FText, cn_choices = None\<rparr>, \<lparr>cn_name = ''y'', cn_type = FText, cn_choices = None\<rparr>]"
    by code_simp
  show ?thesis using added_column_is_lost[OF 1 2(1) 3 refl 4] unfolding 2(2) by simp
qed

end
