(* ===== verification/Consents.thy ===== *)
theory Consents
  imports Contact_Lists_Api
begin

text \<open>
  \<open>services/core/src/modules/consents\<close>: the consent history. Every change of the fields 31, 32
  and 33, by whatever write, appends a row and an event in the write's own transaction, through
  the hook the service registers with the write engine. An explicit change hands its source, text
  and actor to the hook; \<open>AsyncLocalStorage\<close> becomes the hook's first argument.
\<close>

section \<open>Channels and inputs\<close>

definition consent_field :: "channel \<Rightarrow> string" where
  "consent_field ch = (case ch of CEmail \<Rightarrow> ''31'' | CSms \<Rightarrow> ''32'' | CPush \<Rightarrow> ''33'')"

definition channel_of :: "string \<Rightarrow> channel option" where
  "channel_of f = (if f = ''31'' then Some CEmail else if f = ''32'' then Some CSms else if f = ''33'' then Some CPush else None)"

record consent_input =
  csi_channel :: channel
  csi_value :: json
  csi_source :: string
  csi_text :: "string option"
  csi_actor :: "string option"

definition channel_name :: "channel \<Rightarrow> string" where
  "channel_name ch = (case ch of CEmail \<Rightarrow> ''email'' | CSms \<Rightarrow> ''sms'' | CPush \<Rightarrow> ''push'')"

section \<open>The write hook (\<open>record\<close>)\<close>

definition value_at :: "object \<Rightarrow> string \<Rightarrow> json" where
  "value_at data f = (case map_of data f of None \<Rightarrow> JNull | Some v \<Rightarrow> v)"

text \<open>A row before the database gives it its id and its time.\<close>

record consent_draft =
  cd_contact :: string
  cd_channel :: channel
  cd_value :: json
  cd_source :: string
  cd_text :: "string option"
  cd_actor :: "string option"

definition draft :: "consent_input option \<Rightarrow> change \<Rightarrow> channel \<Rightarrow> consent_draft" where
  "draft explicit c ch =
    (let e = (case explicit of Some x \<Rightarrow> if csi_channel x = ch then Some x else None | None \<Rightarrow> None) in
     \<lparr>cd_contact = chg_contactId c, cd_channel = ch, cd_value = value_at (chg_after c) (consent_field ch),
      cd_source = (case e of Some x \<Rightarrow> csi_source x | None \<Rightarrow> chg_source c),
      cd_text = Option.bind e csi_text, cd_actor = Option.bind e csi_actor\<rparr>)"

definition drafts_of :: "consent_input option \<Rightarrow> change \<Rightarrow> consent_draft list" where
  "drafts_of explicit c = map (\<lambda>f. draft explicit c (the (channel_of f))) (filter (\<lambda>f. channel_of f \<noteq> None) (chg_changed c))"

definition consent_row :: "string \<Rightarrow> int \<Rightarrow> string \<Rightarrow> consent_draft \<Rightarrow> consent" where
  "consent_row t now i r = \<lparr>cs_id = i, cs_tenant = t, cs_contact = cd_contact r, cs_channel = cd_channel r, cs_value = cd_value r,
     cs_source = cd_source r, cs_text = cd_text r, cs_actor = cd_actor r, cs_changedAt = now\<rparr>"

fun insertConsents :: "string \<Rightarrow> consent_draft list \<Rightarrow> unit act" where
  "insertConsents t [] = retM ()"
| "insertConsents t (r # rs) = bindM fresh_id (\<lambda>i. bindM (getM w_now) (\<lambda>now.
     bindM (onDb (\<lambda>d. d\<lparr>db_consents := db_consents d @ [consent_row t now i r]\<rparr>)) (\<lambda>_. insertConsents t rs)))"

definition json_opt :: "string option \<Rightarrow> json" where
  "json_opt v = (case v of None \<Rightarrow> JNull | Some s \<Rightarrow> JStr s)"

definition consent_event :: "consent_draft \<Rightarrow> string \<times> json" where
  "consent_event r = (cd_contact r, JObj [(''channel'', JStr (channel_name (cd_channel r))), (''value'', cd_value r),
     (''source'', JStr (cd_source r)), (''text'', json_opt (cd_text r))])"

definition recordHook :: "consent_input option \<Rightarrow> hook" where
  "recordHook explicit t changes =
    (let rows = concat (map (drafts_of explicit) changes) in
     if rows = [] then retM ()
     else bindM (insertConsents t rows) (\<lambda>_. outboxInsert t ''consent.changed'' (map consent_event rows)))"

section \<open>Setting a consent (\<open>set\<close>)\<close>

definition setConsent :: "(nat \<Rightarrow> db \<Rightarrow> db) \<Rightarrow> string \<Rightarrow> string \<Rightarrow> consent_input \<Rightarrow> unit act" where
  "setConsent others t contactId input =
    bindM (writeContacts [recordHook (Some input)] others t ''id'' Update
        [[(consent_field (csi_channel input), csi_value input), (''id'', JStr contactId)]] (csi_source input)) (\<lambda>rs.
      case rs of [] \<Rightarrow> throwM (PlainError ''TypeError'')
      | r # _ \<Rightarrow> (case ir_error r of None \<Rightarrow> retM ()
          | Some e \<Rightarrow> if ie_code e = 2008 then throwM (HttpExc 404 ''contact not found'') else throwM (PlainError (ie_text e))))"

section \<open>History (\<open>history\<close>)\<close>

definition newest_consents :: "consent list \<Rightarrow> consent list" where
  "newest_consents rs = rev (sort_key (\<lambda>r. (cs_changedAt r, cs_id r)) rs)"

definition consents_of :: "string \<Rightarrow> string \<Rightarrow> channel option \<Rightarrow> db \<Rightarrow> consent list" where
  "consents_of t contactId ch d = filter (\<lambda>r. cs_tenant r = t \<and> uuid_eq (cs_contact r) contactId \<and>
     (case ch of None \<Rightarrow> True | Some c \<Rightarrow> cs_channel r = c)) (db_consents d)"

text \<open>\<open>cursor?.split('_')\<close>, and the filter when both parts are there.\<close>

definition historyCursor :: "string option \<Rightarrow> exn + (int \<times> string) option" where
  "historyCursor cursor = (case cursor of None \<Rightarrow> Inr None
    | Some c \<Rightarrow> (case split_on (CHR ''_'') c of
        at # i # _ \<Rightarrow> if at = [] \<or> i = [] then Inr None
          else (case parse_iso at of None \<Rightarrow> Inl (PlainError ''Invalid Date'')
            | Some ms \<Rightarrow> map_sum id (\<lambda>u. Some (ms, u)) (as_uuid i))
      | _ \<Rightarrow> Inr None))"

record consent_dto =
  cto_id :: string
  cto_channel :: channel
  cto_value :: json
  cto_source :: string
  cto_text :: "string option"
  cto_actor_type :: string
  cto_actor_id :: "string option"
  cto_changed_at :: string

definition toConsentDto :: "consent \<Rightarrow> consent_dto" where
  "toConsentDto r =
    (let actor = (case cs_actor r of Some a \<Rightarrow> a | None \<Rightarrow> []); parts = split_on (CHR '':'') actor; typ = hd parts in
     \<lparr>cto_id = cs_id r, cto_channel = cs_channel r, cto_value = cs_value r, cto_source = cs_source r, cto_text = cs_text r,
      cto_actor_type = (if actor = [] then ''service'' else if typ = ''client'' then ''api_client'' else typ),
      cto_actor_id = (if actor = [] then None else Some (join_with '':'' (tl parts))),
      cto_changed_at = iso_string (cs_changedAt r)\<rparr>)"

definition history :: "string \<Rightarrow> string \<Rightarrow> channel option \<Rightarrow> nat \<Rightarrow> string option \<Rightarrow> (consent_dto list \<times> string option) act" where
  "history t contactId ch limit cursor =
    bindM (liftE (as_uuid contactId)) (\<lambda>cid.
    bindM (readDb (\<lambda>d. list_ex (\<lambda>c. uuid_eq (ct_id c) contactId) (live_contacts t d))) (\<lambda>known.
    if \<not> known then throwM (HttpExc 404 ''contact not found'')
    else bindM (liftE (historyCursor cursor)) (\<lambda>after.
      readDb (\<lambda>d. let rows = take (Suc limit) (filter (\<lambda>r. case after of None \<Rightarrow> True | Some k \<Rightarrow> (cs_changedAt r, cs_id r) < k)
            (newest_consents (consents_of t contactId ch d)));
          page = take limit rows in
        (map toConsentDto page,
         if limit < length rows \<and> page \<noteq> [] then Some (iso_string (cs_changedAt (last page)) @ ''_'' @ cs_id (last page)) else None)))))"

section \<open>Endpoints (\<open>consents.controller.ts\<close>)\<close>

definition parseChannel :: "json option \<Rightarrow> channel option" where
  "parseChannel v = (case v of
      Some (JStr s) \<Rightarrow> find (\<lambda>c. channel_name c = s) [CEmail, CSms, CPush] | _ \<Rightarrow> None)"

definition parseConsentValue :: "json option \<Rightarrow> json option" where
  "parseConsentValue v = (case v of
      Some JNull \<Rightarrow> Some JNull
    | Some (JNum n) \<Rightarrow> if n = int_num 1 \<or> n = int_num 2 then Some (JNum n) else None
    | _ \<Rightarrow> None)"

definition parseSource :: "json option \<Rightarrow> string option" where
  "parseSource v = (case v of Some (JStr s) \<Rightarrow> if 1 \<le> length s \<and> length s \<le> 100 then Some s else None | _ \<Rightarrow> None)"

definition parseConsentText :: "json option \<Rightarrow> string option option" where
  "parseConsentText v = (case v of None \<Rightarrow> Some None
     | Some (JStr s) \<Rightarrow> if length s \<le> 5000 then Some (Some s) else None | _ \<Rightarrow> None)"

definition consentBody :: "object \<Rightarrow> consent_input option" where
  "consentBody kvs =
    (case (parseChannel (map_of kvs ''channel''), parseConsentValue (map_of kvs ''value''), parseSource (map_of kvs ''source''), parseConsentText (map_of kvs ''text'')) of
       (Some c, Some v, Some s, Some x) \<Rightarrow> Some \<lparr>csi_channel = c, csi_value = v, csi_source = s, csi_text = x, csi_actor = None\<rparr>
     | _ \<Rightarrow> None)"

definition adminBody :: "json \<Rightarrow> consent_input option" where
  "adminBody v = (case v of JObj kvs \<Rightarrow> consentBody kvs | _ \<Rightarrow> None)"

definition parseKeyValue :: "json option \<Rightarrow> string option" where
  "parseKeyValue v = (case v of Some (JStr s) \<Rightarrow> Some s | Some (JNum n) \<Rightarrow> Some (num_string n) | _ \<Rightarrow> None)"

definition publicBody :: "json \<Rightarrow> (string \<times> string \<times> consent_input) option" where
  "publicBody v = (case v of
      JObj kvs \<Rightarrow> (case (parseKeyId (map_of kvs ''key_id''), parseKeyValue (map_of kvs ''key_value''), consentBody kvs) of
          (Some k, Some x, Some i) \<Rightarrow> Some (k, x, i) | _ \<Rightarrow> None)
    | _ \<Rightarrow> None)"

definition typ_name :: "principal_typ \<Rightarrow> string" where
  "typ_name ty = (case ty of TUser \<Rightarrow> ''user'' | TClient \<Rightarrow> ''client'' | TService \<Rightarrow> ''service'')"

definition actorOf :: "principal \<Rightarrow> string" where
  "actorOf p = typ_name (pr_typ p) @ '':'' @ pr_sub p"

definition consentTenantOf :: "principal \<Rightarrow> exn + string" where
  "consentTenantOf = tenantOf ''operator principals cannot write tenant contacts''"

definition contactNotFound :: exn where
  "contactNotFound = PublicApi 2008 ''contact not found'' 404"

definition publicNotFound :: "exn \<Rightarrow> exn" where
  "publicNotFound e = (case e of HttpExc s _ \<Rightarrow> if s = 404 then contactNotFound else e | _ \<Rightarrow> e)"

definition parseConsentBody :: "json \<Rightarrow> exn + string \<times> string \<times> consent_input" where
  "parseConsentBody body = (case publicBody body of None \<Rightarrow> Inl invalidBody | Some b \<Rightarrow> Inr b)"

definition publicSetConsent :: "(nat \<Rightarrow> db \<Rightarrow> db) \<Rightarrow> principal \<Rightarrow> json \<Rightarrow> string act" where
  "publicSetConsent others p body =
    bindM (liftE (parseConsentBody body)) (\<lambda>(keyId, keyValue, input).
    bindM (liftE (consentTenantOf p)) (\<lambda>t.
    bindM (if keyId = ''id'' then retM (Some keyValue)
           else bindM (resolve t keyId [keyValue]) (\<lambda>found. retM (map_of found keyValue))) (\<lambda>i.
      case i of None \<Rightarrow> throwM contactNotFound
      | Some cid \<Rightarrow> if cid = [] then throwM contactNotFound
         else bindM (mapErrM publicNotFound (setConsent others t cid (input\<lparr>csi_actor := Some (actorOf p)\<rparr>))) (\<lambda>_. retM cid))))"

definition adminRecordConsent :: "(nat \<Rightarrow> db \<Rightarrow> db) \<Rightarrow> principal \<Rightarrow> string \<Rightarrow> json \<Rightarrow> consent_dto option act" where
  "adminRecordConsent others p i body =
    bindM (liftE (parseBody adminBody body)) (\<lambda>b.
    bindM (liftE (consentTenantOf p)) (\<lambda>t.
    bindM (setConsent others t i (b\<lparr>csi_actor := Some (actorOf p)\<rparr>)) (\<lambda>_.
    bindM (history t i (Some (csi_channel b)) 1 None) (\<lambda>(items, _). retM (case items of [] \<Rightarrow> None | x # _ \<Rightarrow> Some x)))))"

section \<open>What a write changes\<close>

definition field_in :: "string \<Rightarrow> db \<Rightarrow> string \<Rightarrow> string \<Rightarrow> json option" where
  "field_in t d i f = (case find (\<lambda>c. ct_id c = i) (live_contacts t d) of None \<Rightarrow> None | Some c \<Rightarrow> map_of (ct_data c) f)"

lemma live_ids_distinct: "constraints d \<Longrightarrow> distinct (map ct_id (live_contacts t d))"
  unfolding live_contacts_def constraints_def by (intro distinct_live_ids pairwise_clash_free_filter) simp

lemma field_in_live:
  assumes "constraints d" "c \<in> set (live_contacts t d)"
  shows "field_in t d (ct_id c) f = map_of (ct_data c) f"
proof -
  have "find (\<lambda>x. ct_id x = ct_id c) (live_contacts t d) = Some c"
    using find_Some_set[of "\<lambda>x. ct_id x = ct_id c" "live_contacts t d"] find_None_set[of "\<lambda>x. ct_id x = ct_id c" "live_contacts t d"]
      assms(2) live_ids_distinct[OF assms(1), of t]
    by (cases "find (\<lambda>x. ct_id x = ct_id c) (live_contacts t d)") (auto simp: distinct_map dest: inj_onD)
  then show ?thesis by (simp add: field_in_def)
qed

lemma field_in_none: "\<forall>c \<in> set (live_contacts t d). ct_id c \<noteq> i \<Longrightarrow> field_in t d i f = None"
  by (cases "find (\<lambda>c. ct_id c = i) (live_contacts t d)") (auto simp: field_in_def dest: find_Some_set)

lemma updated_change:
  assumes b: "committed t source defs slots w slots' w' b" and d: "constraints (w_db w)" and so: "\<forall>s \<in> set slots. set_ok defs s"
    and u: "u \<in> set (bt_upd b)"
  shows "\<exists>c \<in> set (live_contacts t (w_db w)). ct_id c = chg_contactId u \<and>
    (\<forall>f. f \<in> set (chg_changed u) \<longleftrightarrow> map_of (ct_data c) f \<noteq> map_of (chg_after u) f) \<and> distinct (chg_changed u)"
proof -
  obtain s where s: "s \<in> set slots" "to_update s" "u = update_change source (bt_rows b) s"
    using b u by (auto simp: committed_def)
  obtain c where c: "c \<in> set (live_contacts t (w_db w))" "ct_id c = slot_id s" "old_data (bt_rows b) s = Some (ct_data c)"
    using committed_update[OF b d s(1,2)] by blast
  have o': "distinct (map fst (sl_set s))" using so s(1) by (simp add: set_ok_def)
  have "map_of (ct_data c) f = map_of (mergeData (ct_data c) (sl_set s)) f \<longleftrightarrow> f \<notin> set (changedKeys (ct_data c) (sl_set s))" for f
    using not_changed[OF o', of f "ct_data c"] by (auto simp: changedKeys_iff)
  moreover have "distinct (changedKeys (ct_data c) (sl_set s))" unfolding changedKeys_def by (rule distinct_filter[OF o'])
  ultimately show ?thesis
    using c s(3) update_change_simps[OF c(3)] by (intro bexI[OF _ c(1)]) auto
qed

lemma inserted_change:
  assumes b: "committed t source defs slots w slots' w' b" and so: "\<forall>s \<in> set slots. set_ok defs s" and n: "n \<in> set (bt_ins b)"
  shows "(\<forall>f. f \<in> set (chg_changed n) \<longleftrightarrow> map_of (chg_after n) f \<noteq> None) \<and> distinct (chg_changed n)"
proof -
  obtain s where s: "s \<in> set slots" "n = insert_change source s" using b n by (auto simp: committed_def)
  have "distinct (map fst (sl_set s))" using so s(1) by (simp add: set_ok_def)
  then show ?thesis
    by (auto simp: s(2) insert_change_def Let_def map_of_eq_None_iff intro: distinct_map_filter)
qed

lemma change_fields:
  assumes b: "committed t source defs slots w slots' w' b" and d: "constraints (w_db w)" "constraints (w_db w')"
    and so: "\<forall>s \<in> set slots. set_ok defs s" and c: "c \<in> set (bt_upd b @ bt_ins b)"
  shows "field_in t (w_db w') (chg_contactId c) f = map_of (chg_after c) f"
    and "f \<in> set (chg_changed c) \<longleftrightarrow> field_in t (w_db w) (chg_contactId c) f \<noteq> field_in t (w_db w') (chg_contactId c) f"
    and "distinct (chg_changed c)"
proof -
  note di = committed_upd_distinct[OF b d(1)] and new = committed_ids_distinct(2)[OF b d]
  have "field_in t (w_db w') (chg_contactId c) f = map_of (chg_after c) f \<and>
      (f \<in> set (chg_changed c) \<longleftrightarrow> field_in t (w_db w) (chg_contactId c) f \<noteq> map_of (chg_after c) f) \<and> distinct (chg_changed c)"
  proof (cases "c \<in> set (bt_upd b)")
    case True
    obtain x where x: "x \<in> set (live_contacts t (w_db w))" "ct_id x = chg_contactId c"
      "\<forall>f. f \<in> set (chg_changed c) \<longleftrightarrow> map_of (ct_data x) f \<noteq> map_of (chg_after c) f" "distinct (chg_changed c)"
      using updated_change[OF b d(1) so True] by blast
    have "write_rows t (w_now w) (bt_upd b) x \<in> set (live_contacts t (w_db w'))" using committed_live[OF b] x(1) by blast
    from field_in_live[OF d(2) this] have "field_in t (w_db w') (chg_contactId c) f = map_of (chg_after c) f"
      using write_rows_hit[OF True di x(2)] x(1,2) by (simp add: live_contacts_set)
    then show ?thesis using x field_in_live[OF d(1) x(1)] by simp
  next
    case False
    then have i: "c \<in> set (bt_ins b)" using c by simp
    have "new_contact t (w_now w) c \<in> set (live_contacts t (w_db w'))" using committed_live[OF b] i by blast
    from field_in_live[OF d(2) this] have "field_in t (w_db w') (chg_contactId c) f = map_of (chg_after c) f"
      by (simp add: new_contact_def)
    moreover have "field_in t (w_db w) (chg_contactId c) f = None" using new i by (intro field_in_none) blast
    ultimately show ?thesis using inserted_change[OF b so i] by auto
  qed
  then show "field_in t (w_db w') (chg_contactId c) f = map_of (chg_after c) f"
    "f \<in> set (chg_changed c) \<longleftrightarrow> field_in t (w_db w) (chg_contactId c) f \<noteq> field_in t (w_db w') (chg_contactId c) f"
    "distinct (chg_changed c)" by auto
qed

lemma unchanged_fields:
  assumes b: "committed t source defs slots w slots' w' b" and d: "constraints (w_db w)" "constraints (w_db w')"
    and i: "\<forall>c \<in> set (bt_upd b @ bt_ins b). chg_contactId c \<noteq> i"
  shows "field_in t (w_db w') i f = field_in t (w_db w) i f"
proof (cases "\<exists>x \<in> set (live_contacts t (w_db w)). ct_id x = i")
  case True
  then obtain x where x: "x \<in> set (live_contacts t (w_db w))" "ct_id x = i" by blast
  have e: "write_rows t (w_now w) (bt_upd b) x = x" using i x(2) by (intro write_rows_other) auto
  have "write_rows t (w_now w) (bt_upd b) x \<in> set (live_contacts t (w_db w'))" using committed_live[OF b] x(1) by blast
  then have "x \<in> set (live_contacts t (w_db w'))" unfolding e .
  then show ?thesis using field_in_live[OF d(1) x(1)] field_in_live[OF d(2)] x(2) by metis
next
  case False
  have "\<forall>x \<in> set (live_contacts t (w_db w')). ct_id x \<noteq> i"
  proof
    fix x assume "x \<in> set (live_contacts t (w_db w'))"
    then consider y where "y \<in> set (live_contacts t (w_db w))" "x = write_rows t (w_now w) (bt_upd b) y" | n where "n \<in> set (bt_ins b)" "x = new_contact t (w_now w) n"
      using committed_live[OF b] by blast
    then show "ct_id x \<noteq> i" using False i by cases (auto simp: new_contact_def)
  qed
  then show ?thesis using False by (simp add: field_in_none)
qed

section \<open>What the hook leaves\<close>

fun consent_rows :: "(nat \<Rightarrow> string) \<Rightarrow> nat \<Rightarrow> int \<Rightarrow> string \<Rightarrow> consent_draft list \<Rightarrow> consent list" where
  "consent_rows ids n now t [] = []"
| "consent_rows ids n now t (r # rs) = consent_row t now (ids n) r # consent_rows ids (Suc n) now t rs"

definition draft_in :: "consent \<Rightarrow> consent_draft" where
  "draft_in r = \<lparr>cd_contact = cs_contact r, cd_channel = cs_channel r, cd_value = cs_value r, cd_source = cs_source r,
     cd_text = cs_text r, cd_actor = cs_actor r\<rparr>"

definition add_consents :: "string \<Rightarrow> consent_draft list \<Rightarrow> world \<Rightarrow> world" where
  "add_consents t rs w = w\<lparr>w_db := (w_db w)\<lparr>db_consents := db_consents (w_db w) @ consent_rows (w_ids w) (w_next w) (w_now w) t rs\<rparr>,
     w_next := w_next w + length rs\<rparr>"

lemma insertConsents_eq [simp]: "insertConsents t rs w = (Inr (), add_consents t rs w)"
  by (induction rs arbitrary: w) (simp_all add: add_consents_def)

lemma consent_rows_drafts: "map draft_in (consent_rows ids n now t rs) = rs"
  by (induction rs arbitrary: n) (simp_all add: draft_in_def consent_row_def)

lemma consent_rows_tenant: "\<forall>r \<in> set (consent_rows ids n now t rs). cs_tenant r = t"
  by (induction rs arbitrary: n) (simp_all add: consent_row_def)

definition drafts :: "consent_input option \<Rightarrow> change list \<Rightarrow> consent_draft list" where
  "drafts e chs = concat (map (drafts_of e) chs)"

lemma recordHook_eq: "recordHook e t chs w = (Inr (), if drafts e chs = [] then w
    else add_events t ''consent.changed'' (map consent_event (drafts e chs)) (add_consents t (drafts e chs) w))"
  by (simp add: recordHook_def drafts_def Let_def)

lemma recordHook_ok: "hooks_ok [recordHook e]"
proof -
  have "r \<in> set (event_rows ids n now t ''consent.changed'' es) \<Longrightarrow> ev_type (ob_envelope r) = ''consent.changed''" for r ids n now t es
    by (induction es arbitrary: n) (auto simp: outbox_row_of_def buildEnvelope_def Let_def)
  then have "same_contacts w (snd (recordHook e t chs w))" for t chs w
    by (auto simp: recordHook_eq same_contacts_def add_events_def add_consents_def)
  then show ?thesis by (simp add: hooks_ok_def keeps_def recordHook_eq drafts_def)
qed

lemma channel_of_field [simp]: "channel_of f = Some ch \<longleftrightarrow> f = consent_field ch"
  by (cases ch) (auto simp: channel_of_def consent_field_def)

lemma channel_of_consent [simp]: "channel_of (consent_field ch) = Some ch"
  by simp

lemma consent_field_inj: "consent_field a = consent_field b \<longleftrightarrow> a = b"
  by (cases a; cases b) (auto simp: consent_field_def)

lemma draft_channels: "r \<in> set (drafts_of e c) \<longleftrightarrow> (\<exists>ch. consent_field ch \<in> set (chg_changed c) \<and> r = draft e c ch)"
proof
  assume "r \<in> set (drafts_of e c)"
  then show "\<exists>ch. consent_field ch \<in> set (chg_changed c) \<and> r = draft e c ch" by (auto simp: drafts_of_def)
next
  assume "\<exists>ch. consent_field ch \<in> set (chg_changed c) \<and> r = draft e c ch"
  then obtain ch where "consent_field ch \<in> set (chg_changed c)" "r = draft e c ch" by blast
  then show "r \<in> set (drafts_of e c)" unfolding drafts_of_def by (auto intro!: image_eqI[of _ _ "consent_field ch"])
qed

lemma drafts_mem: "r \<in> set (drafts e chs) \<longleftrightarrow> (\<exists>c \<in> set chs. \<exists>ch. consent_field ch \<in> set (chg_changed c) \<and> r = draft e c ch)"
  by (auto simp: drafts_def draft_channels)

lemma draft_simps [simp]: "cd_contact (draft e c ch) = chg_contactId c" "cd_channel (draft e c ch) = ch"
  "cd_value (draft e c ch) = value_at (chg_after c) (consent_field ch)"
  by (simp_all add: draft_def Let_def)

definition draft_place :: "consent_draft \<Rightarrow> string \<times> channel" where
  "draft_place r = (cd_contact r, cd_channel r)"

lemma drafts_distinct:
  assumes "distinct (map chg_contactId chs)" "\<forall>c \<in> set chs. distinct (chg_changed c)"
  shows "distinct (map draft_place (drafts e chs))"
  using assms
proof (induction chs)
  case (Cons c chs)
  have "inj_on (\<lambda>f. (chg_contactId c, the (channel_of f))) (set (filter (\<lambda>f. channel_of f \<noteq> None) (chg_changed c)))"
    by (rule inj_onI) auto
  then have "distinct (map draft_place (drafts_of e c))"
    using Cons.prems(2) by (simp add: drafts_of_def draft_place_def comp_def distinct_map)
  moreover have "draft_place ` set (drafts_of e c) \<inter> draft_place ` set (drafts e chs) = {}"
    using Cons.prems(1) by (auto simp: drafts_mem draft_channels draft_place_def)
  ultimately show ?case using Cons by (simp add: drafts_def)
qed (simp add: drafts_def)

lemma event_rows_consents: "map (\<lambda>o'. (ev_type (ob_envelope o'), ev_contact_id (ob_envelope o'), ev_data (ob_envelope o')))
     (event_rows ids n now t typ es) = map (\<lambda>(c, v). (typ, Some c, v)) es"
  by (induction es arbitrary: n) (auto simp: outbox_row_of_def buildEnvelope_def Let_def)

lemma commit_consents:
  assumes c: "commit [recordHook e] t source defs slots w = (Inr slots', w')" and d: "constraints (w_db w)" and so: "\<forall>s \<in> set slots. set_ok defs s"
  shows "\<exists>b ids n now ev up. committed t source defs slots w slots' w' b \<and> constraints (w_db w') \<and>
    db_consents (w_db w') = db_consents (w_db w) @ consent_rows ids n now t (drafts e (bt_upd b @ bt_ins b)) \<and>
    db_outbox (w_db w') = db_outbox (w_db w) @ ev @ up \<and>
    map (\<lambda>o'. (ev_type (ob_envelope o'), ev_contact_id (ob_envelope o'), ev_data (ob_envelope o'))) ev =
      map (\<lambda>r. (''consent.changed'', Some (fst (consent_event r)), snd (consent_event r))) (drafts e (bt_upd b @ bt_ins b))"
proof -
  obtain b w3 w4 where b: "committed t source defs slots w slots' w' b" and o3: "db_outbox (w_db w3) = db_outbox (w_db w)" and
    c3: "db_consents (w_db w3) = db_consents (w_db w)" and h: "runHooks [recordHook e] t (bt_upd b @ bt_ins b) w3 = (Inr (), w4)" and
    up: "upserted t (changedMap (bt_upd b @ bt_ins b)) w4 = (Inr (), w')" and d': "constraints (w_db w')"
    using commit_committed[OF c d recordHook_ok] by blast
  define D where "D = drafts e (bt_upd b @ bt_ins b)"
  have w4: "w4 = (if D = [] then w3 else add_events t ''consent.changed'' (map consent_event D) (add_consents t D w3))"
    using h by (simp add: runHooks_def bindM_def recordHook_eq D_def split: if_splits)
  have cs: "db_consents (w_db w4) = db_consents (w_db w) @ consent_rows (w_ids w3) (w_next w3) (w_now w3) t D"
    using c3 by (simp add: w4 add_consents_def)
  obtain ev where ev: "db_outbox (w_db w4) = db_outbox (w_db w) @ ev" "map (\<lambda>o'. (ev_type (ob_envelope o'), ev_contact_id (ob_envelope o'), ev_data (ob_envelope o'))) ev =
      map (\<lambda>r. (''consent.changed'', Some (fst (consent_event r)), snd (consent_event r))) D"
  proof (cases "D = []")
    case False
    then have "db_outbox (w_db w4) = db_outbox (w_db w) @ event_rows (w_ids w3) (w_next w3 + length D) (w_now w3) t ''consent.changed'' (map consent_event D)"
      using o3 by (simp add: w4 add_events_def add_consents_def)
    then show ?thesis using that event_rows_consents by (simp add: comp_def case_prod_beta)
  qed (use o3 w4 that in simp)
  show ?thesis
    unfolding D_def[symmetric]
    by (rule exI[of _ b], rule exI[of _ "w_ids w3"], rule exI[of _ "w_next w3"], rule exI[of _ "w_now w3"], rule exI[of _ ev],
        rule exI[of _ "event_rows (w_ids w4) (w_next w4) (w_now w4) t ''contacts.upserted''
          (if changedMap (bt_upd b @ bt_ins b) = [] then [] else upsertedEvents t (changedMap (bt_upd b @ bt_ins b)) (w_db w4))"])
       (use b d' cs ev up in \<open>auto simp: D_def upserted_eq add_events_def\<close>)
qed

text \<open>The new rows, against the fields before and after.\<close>

lemma draft_rows:
  assumes b: "committed t source defs slots w slots' w' b" and d: "constraints (w_db w)" "constraints (w_db w')"
    and so: "\<forall>s \<in> set slots. set_ok defs s"
  shows "distinct (map draft_place (drafts e (bt_upd b @ bt_ins b)))"
    and "(i, ch) \<in> draft_place ` set (drafts e (bt_upd b @ bt_ins b)) \<longleftrightarrow>
      field_in t (w_db w) i (consent_field ch) \<noteq> field_in t (w_db w') i (consent_field ch)"
    and "r \<in> set (drafts e (bt_upd b @ bt_ins b)) \<Longrightarrow>
      cd_value r = (case field_in t (w_db w') (cd_contact r) (consent_field (cd_channel r)) of None \<Rightarrow> JNull | Some v \<Rightarrow> v)"
proof -
  let ?chs = "bt_upd b @ bt_ins b"
  note F = change_fields[OF b d so]
  show "distinct (map draft_place (drafts e ?chs))"
    using F(3) by (intro drafts_distinct committed_ids_distinct(1)[OF b d]) blast
  show "(i, ch) \<in> draft_place ` set (drafts e ?chs) \<longleftrightarrow>
      field_in t (w_db w) i (consent_field ch) \<noteq> field_in t (w_db w') i (consent_field ch)" (is "?l \<longleftrightarrow> ?r")
  proof -
    have "?l \<longleftrightarrow> (\<exists>c \<in> set ?chs. chg_contactId c = i \<and> consent_field ch \<in> set (chg_changed c))"
      unfolding image_iff Bex_def drafts_mem draft_place_def by (metis draft_simps(1,2) prod.inject)
    also have "\<dots> \<longleftrightarrow> ?r"
    proof (cases "\<exists>c \<in> set ?chs. chg_contactId c = i")
      case True
      then show ?thesis using F(2) by metis
    next
      case False
      then show ?thesis using unchanged_fields[OF b d, of i "consent_field ch"] by metis
    qed
    finally show ?thesis .
  qed
  show "cd_value r = (case field_in t (w_db w') (cd_contact r) (consent_field (cd_channel r)) of None \<Rightarrow> JNull | Some v \<Rightarrow> v)"
    if r: "r \<in> set (drafts e ?chs)"
  proof -
    obtain c ch where "c \<in> set ?chs" "r = draft e c ch" using r unfolding drafts_mem by blast
    then show ?thesis using F(1) by (simp add: value_at_def)
  qed
qed

lemma new_row_origin:
  assumes "draft_in r = draft e c ch"
  shows "case e of Some x \<Rightarrow> csi_channel x = cs_channel r \<longrightarrow> cs_source r = csi_source x \<and> cs_text r = csi_text x \<and> cs_actor r = csi_actor x
     | None \<Rightarrow> cs_source r = chg_source c \<and> cs_text r = None \<and> cs_actor r = None"
  using assms[THEN arg_cong, of cd_source] assms[THEN arg_cong, of cd_text] assms[THEN arg_cong, of cd_actor] assms[THEN arg_cong, of cd_channel]
  by (simp add: draft_in_def draft_def Let_def split: option.split)

section \<open>Properties\<close>

definition row_place_of :: "consent \<Rightarrow> string \<times> channel" where
  "row_place_of r = (cs_contact r, cs_channel r)"


text \<open>The value a history ends with, and what it means that the fields agree with the history.\<close>

definition history_of :: "string \<Rightarrow> string \<Rightarrow> channel \<Rightarrow> db \<Rightarrow> consent list" where
  "history_of t i ch d = filter (\<lambda>r. cs_tenant r = t \<and> row_place_of r = (i, ch)) (db_consents d)"

definition latest :: "string \<Rightarrow> string \<Rightarrow> channel \<Rightarrow> db \<Rightarrow> json" where
  "latest t i ch d = (if history_of t i ch d = [] then JNull else cs_value (last (history_of t i ch d)))"

definition consents_agree :: "string \<Rightarrow> db \<Rightarrow> bool" where
  "consents_agree t d \<longleftrightarrow> (\<forall>x \<in> set (live_contacts t d). \<forall>ch. latest t (ct_id x) ch d = value_at (ct_data x) (consent_field ch))"

definition new_to_history :: "slot list \<Rightarrow> db \<Rightarrow> bool" where
  "new_to_history slots d \<longleftrightarrow> (\<forall>s \<in> set slots. to_insert s \<longrightarrow> (\<forall>r \<in> set (db_consents d). cs_contact r \<noteq> slot_id s))"

lemma filter_one:
  assumes "distinct (map f xs)" "x \<in> set xs"
  shows "filter (\<lambda>y. f y = f x) xs = [x]"
  using assms by (induction xs) (auto simp: filter_empty_conv, metis (mono_tags, lifting) filter_False image_eqI)

lemma latest_append:
  assumes "db_consents d' = db_consents d @ new" "\<forall>r \<in> set new. cs_tenant r = t" "distinct (map row_place_of new)"
  shows "r \<in> set new \<Longrightarrow> latest t (cs_contact r) (cs_channel r) d' = cs_value r"
    and "(i, ch) \<notin> row_place_of ` set new \<Longrightarrow> latest t i ch d' = latest t i ch d"
proof -
  assume r: "r \<in> set new"
  have "filter (\<lambda>y. cs_tenant y = t \<and> row_place_of y = (cs_contact r, cs_channel r)) new = filter (\<lambda>y. row_place_of y = row_place_of r) new"
    using assms(2) by (intro filter_cong) (auto simp: row_place_of_def)
  then have "history_of t (cs_contact r) (cs_channel r) d' = history_of t (cs_contact r) (cs_channel r) d @ [r]"
    using filter_one[OF assms(3) r] by (simp add: history_of_def assms(1))
  then show "latest t (cs_contact r) (cs_channel r) d' = cs_value r" by (simp add: latest_def)
next
  assume "(i, ch) \<notin> row_place_of ` set new"
  then have "history_of t i ch d' = history_of t i ch d" by (auto simp: history_of_def assms(1) filter_empty_conv image_iff)
  then show "latest t i ch d' = latest t i ch d" by (simp add: latest_def)
qed

text \<open>A contact and channel without a new row: nothing to agree on has changed.\<close>

lemma agree_unchanged:
  assumes b: "committed t source defs slots w slots' w' b" and d: "constraints (w_db w)" "constraints (w_db w')"
    and a: "consents_agree t (w_db w)" "new_to_history slots (w_db w)" and x: "x \<in> set (live_contacts t (w_db w'))"
    and f: "field_in t (w_db w) (ct_id x) (consent_field ch) = field_in t (w_db w') (ct_id x) (consent_field ch)"
  shows "latest t (ct_id x) ch (w_db w) = value_at (ct_data x) (consent_field ch)"
proof (cases "\<exists>y \<in> set (live_contacts t (w_db w)). ct_id y = ct_id x")
  case True
  then obtain y where y: "y \<in> set (live_contacts t (w_db w))" "ct_id y = ct_id x" by blast
  then show ?thesis
    using a(1) f field_in_live[OF d(1) y(1)] field_in_live[OF d(2) x] by (force simp: consents_agree_def value_at_def)
next
  case False
  then obtain n where n: "n \<in> set (bt_ins b)" "x = new_contact t (w_now w) n" using committed_live[OF b] x by auto
  obtain s where s: "s \<in> set slots" "to_insert s" "n = insert_change source s" using b n(1) by (auto simp: committed_def)
  then have "history_of t (ct_id x) ch (w_db w) = []"
    using a(2) n(2) by (auto simp: new_to_history_def history_of_def row_place_of_def filter_empty_conv new_contact_def)
  moreover have "value_at (ct_data x) (consent_field ch) = JNull"
    using f field_in_none[of t "w_db w" "ct_id x"] False field_in_live[OF d(2) x] by (simp add: value_at_def)
  ultimately show ?thesis by (simp add: latest_def)
qed

text \<open>The history and the contacts agree, and stay in agreement: if the last row of every live
  contact's history has the value its field holds (no row: no value), so it is after a batch,
  provided the ids of the contacts it creates are new to the history too.\<close>

theorem history_agrees_with_the_fields:
  assumes "prepare t keyId mode items v = (Inr (defs, slots), v')"
    and "commit [recordHook e] t source defs slots w = (Inr slots', w')" and "constraints (w_db w)" and "consents_agree t (w_db w)"
    and "new_to_history slots (w_db w)"
  shows "consents_agree t (w_db w')"
proof -
  have so: "\<forall>s \<in> set slots. set_ok defs s" by (rule prepare_set_ok[OF assms(1)])
  obtain b ids n now where b: "committed t source defs slots w slots' w' b" and d': "constraints (w_db w')" and
    cs: "db_consents (w_db w') = db_consents (w_db w) @ consent_rows ids n now t (drafts e (bt_upd b @ bt_ins b))"
    using commit_consents[OF assms(2,3) so] by blast
  define new where "new = consent_rows ids n now t (drafts e (bt_upd b @ bt_ins b))"
  have D: "drafts e (bt_upd b @ bt_ins b) = map draft_in new" by (simp add: new_def consent_rows_drafts)
  have place: "draft_place \<circ> draft_in = row_place_of" by (simp add: fun_eq_iff draft_place_def draft_in_def row_place_of_def)
  have ten: "\<forall>r \<in> set new. cs_tenant r = t" using consent_rows_tenant by (simp add: new_def)
  note R = draft_rows[OF b assms(3) d' so, where e = e, unfolded D] and A = latest_append[OF cs[folded new_def] ten]
  have distinct: "distinct (map row_place_of new)" using R(1) by (simp add: place)
  have "latest t (ct_id x) ch (w_db w') = value_at (ct_data x) (consent_field ch)" if x: "x \<in> set (live_contacts t (w_db w'))" for x ch
  proof (cases "(ct_id x, ch) \<in> row_place_of ` set new")
    case True
    then obtain r where r: "r \<in> set new" "cs_contact r = ct_id x" "cs_channel r = ch" by (auto simp: row_place_of_def)
    have "draft_in r \<in> set (map draft_in new)" using r(1) by simp
    from R(3)[OF this] have "cs_value r = value_at (ct_data x) (consent_field ch)"
      using r(2,3) field_in_live[OF d' x] by (simp add: draft_in_def value_at_def)
    then show ?thesis using A(1)[OF distinct r(1)] r(2,3) by simp
  next
    case False
    then have "field_in t (w_db w) (ct_id x) (consent_field ch) = field_in t (w_db w') (ct_id x) (consent_field ch)"
      using R(2) by (simp add: image_image place[symmetric, unfolded comp_def])
    from agree_unchanged[OF b assms(3) d' assms(4,5) x this] show ?thesis using A(2)[OF distinct False] by simp
  qed
  then show ?thesis by (simp add: consents_agree_def)
qed

section \<open>A contact that opts in\<close>

definition demo_consent_defs :: "field_def list" where
  "demo_consent_defs = [(demo_field 31 ''optin'' False)\<lparr>fd_type := FSingle, fd_choices := [\<lparr>ch_id = 1, ch_api_name = ''yes'', ch_labels = JNull\<rparr>]\<rparr>]"

definition demo_consents :: world where
  "demo_consents = demo_world ((demo_db [demo_contact demo_contact_id [(''3'', JStr ''a'')]] [])\<lparr>db_fields := demo_consent_defs\<rparr>)"

definition demo_input :: consent_input where
  "demo_input = \<lparr>csi_channel = CEmail, csi_value = JNum (int_num 1), csi_source = ''form'', csi_text = Some ''ok'', csi_actor = None\<rparr>"

definition demo_consent_items :: "object list" where
  "demo_consent_items = [[(''31'', JNum (int_num 1)), (''id'', JStr demo_contact_id)]]"

definition demo_consent_slot :: slot where
  "demo_consent_slot = \<lparr>sl_r = \<lparr>ir_index = 0, ir_key = Some demo_contact_id, ir_id = Some demo_contact_id, ir_created = False, ir_changed = [], ir_error = None\<rparr>,
     sl_item = hd demo_consent_items, sl_pending = True, sl_set = [(''31'', JNum (int_num 1))]\<rparr>"

lemma demo_consent_prepare: "prepare ''t'' ''id'' Update demo_consent_items demo_consents =
    (Inr (demo_consent_defs, [demo_consent_slot]), snd (prepare ''t'' ''id'' Update demo_consent_items demo_consents))"
proof -
  have "\<not> isl (fst (prepare ''t'' ''id'' Update demo_consent_items demo_consents)) \<and>
      projr (fst (prepare ''t'' ''id'' Update demo_consent_items demo_consents)) = (demo_consent_defs, [demo_consent_slot])"
    by code_simp
  then show ?thesis by (metis prod.collapse sum.collapse(2))
qed

text \<open>The transaction, stage by stage.\<close>

definition demo_change :: change where
  "demo_change = \<lparr>chg_contactId = demo_contact_id, chg_created = False, chg_before = [(''3'', JStr ''a'')],
     chg_after = [(''3'', JStr ''a''), (''31'', JNum (int_num 1))], chg_changed = [''31''], chg_source = ''form''\<rparr>"

definition demo_consent_marked :: slot where
  "demo_consent_marked = set_changed [''31''] demo_consent_slot"

definition demo_updated :: world where
  "demo_updated = demo_world ((demo_db [(demo_contact demo_contact_id [(''3'', JStr ''a''), (''31'', JNum (int_num 1))])\<lparr>ct_version := 2\<rparr>] [])\<lparr>db_fields := demo_consent_defs\<rparr>)"

definition demo_after :: world where
  "demo_after = snd (upserted ''t'' [(demo_contact_id, [''31''])] (snd (recordHook (Some demo_input) ''t'' [demo_change] demo_updated)))"

lemma demo_stage_update: "updateStage ''t'' ''form'' [demo_consent_slot] demo_consents = (Inr ([demo_consent_marked], [demo_change]), demo_updated)"
proof -
  have 1: "filter to_update [demo_consent_slot] = [demo_consent_slot]" by code_simp
  have 2: "rows_of ''t'' [slot_id demo_consent_slot] (w_db demo_consents) = [demo_contact demo_contact_id [(''3'', JStr ''a'')]]" by code_simp
  have 3: "old_data [demo_contact demo_contact_id [(''3'', JStr ''a'')]] demo_consent_slot = Some [(''3'', JStr ''a'')]" by code_simp
  have 4: "update_change ''form'' [demo_contact demo_contact_id [(''3'', JStr ''a'')]] demo_consent_slot = demo_change" by code_simp
  have 6: "to_update demo_consent_slot" by code_simp
  show ?thesis
    by (simp add: updateStage_def 1 2 3 4 6 Let_def)
       (simp add: demo_consents_def demo_world_def demo_db_def pairwise_clash_free_def write_row_def demo_change_def demo_consent_marked_def demo_updated_def demo_contact_def)
qed

lemma demo_consent_commit: "\<exists>r. commit [recordHook (Some demo_input)] ''t'' ''form'' demo_consent_defs [demo_consent_slot] demo_consents = (Inr r, demo_after)"
proof -
  have i: "filter to_insert [demo_consent_marked] = []" by code_simp
  have 1: "insertStage ''t'' ''form'' [demo_consent_marked] demo_updated = (Inr ([demo_consent_marked], []), demo_updated)"
    by (simp only: insertStage_def Let_def i) simp
  have k: "filter (is_custom_unique demo_consent_defs) [''31''] = []" by code_simp
  have u: "demo_updated\<lparr>w_db := (w_db demo_updated)\<lparr>db_uniques := []\<rparr>\<rparr> = demo_updated" "db_uniques (w_db demo_updated) = []"
    by (simp_all add: demo_updated_def demo_world_def demo_db_def)
  have k2: "concat (map (cleared_of demo_consent_defs) [demo_change]) = []" "concat (map (values_of ''t'' demo_consent_defs) [demo_change]) = []"
    using k by (simp_all add: cleared_of_def values_of_def demo_change_def)
  have 2: "syncUniqueValues ''t'' demo_consent_defs [demo_change] demo_updated = (Inr (), demo_updated)"
    unfolding syncUniqueValues_def k2 Let_def using u by (simp add: clearUniques_def)
  have m: "changedMap [demo_change] = [(demo_contact_id, [''31''])]" by code_simp
  have h: "runHooks [recordHook (Some demo_input)] ''t'' [demo_change] demo_updated = (Inr (), snd (recordHook (Some demo_input) ''t'' [demo_change] demo_updated))"
    by (simp add: runHooks_def recordHook_eq)
  show ?thesis
    unfolding commit_def transaction_def
    by (simp add: demo_stage_update 1 2 h m upserted_eq demo_after_def Let_def)
qed

lemma demo_consent_constraints: "constraints (w_db demo_consents)"
  by (simp add: demo_consents_def demo_world_def demo_db_def constraints_def pairwise_clash_free_def)

lemma demo_after_contacts: "live_contacts ''t'' (w_db demo_after) = live_contacts ''t'' (w_db demo_updated)"
  by (simp add: demo_after_def upserted_eq recordHook_eq live_contacts_def add_consents_def)

lemma demo_consent_fields: "field_in ''t'' (w_db demo_consents) demo_contact_id ''31'' = None"
    "field_in ''t'' (w_db demo_after) demo_contact_id ''31'' = Some (JNum (int_num 1))"
  unfolding field_in_def demo_after_contacts
  by (simp_all add: demo_updated_def demo_consents_def demo_world_def demo_db_def live_contacts_def demo_contact_def live_def)


lemma history_agrees_with_the_fields_witness: "consents_agree ''t'' (w_db demo_after)"
proof -
  obtain r where r: "commit [recordHook (Some demo_input)] ''t'' ''form'' demo_consent_defs [demo_consent_slot] demo_consents = (Inr r, demo_after)"
    using demo_consent_commit by blast
  have "value_at [(''3'', JStr ''a'')] (consent_field ch) = JNull" for ch by (cases ch) (simp_all add: value_at_def consent_field_def)
  then have "consents_agree ''t'' (w_db demo_consents)"
    by (simp add: consents_agree_def latest_def history_of_def demo_consents_def demo_world_def demo_db_def live_contacts_def demo_contact_def)
  moreover have "new_to_history [demo_consent_slot] (w_db demo_consents)"
    by (simp add: new_to_history_def demo_consents_def demo_world_def demo_db_def)
  ultimately show ?thesis by (rule history_agrees_with_the_fields[OF demo_consent_prepare r demo_consent_constraints])
qed

end
