(* ===== verification/Gdpr.thy ===== *)
theory Gdpr
  imports Consents Relational
begin

text \<open>
  \<open>services/core/src/modules/gdpr\<close>: access and erasure requests, and the queue that processes them
  one at a time. The state is the contacts world with the export files, the audit rows that an
  export reads, the queue, and the outcomes of the coming calls to the object store (none left:
  the call succeeds). SHA-256 and the contributors to an export are arguments.
\<close>

section \<open>State\<close>

record audit_row =
  ad_tenant :: string
  ad_resource :: string
  ad_entry :: json

record gstate =
  gs_world :: world
  gs_files :: "(string \<times> json) list"
  gs_audit :: "audit_row list"
  gs_queue :: "(string \<times> string) list"
  gs_store :: "bool list"

type_synonym 'a gact = "(gstate, 'a) comp"

definition inWorld :: "'a act \<Rightarrow> 'a gact" where
  "inWorld m g = (case m (gs_world g) of (r, w) \<Rightarrow> (r, g\<lparr>gs_world := w\<rparr>))"

abbreviation gdb :: "gstate \<Rightarrow> db" where
  "gdb g \<equiv> w_db (gs_world g)"

text \<open>A call to the object store: its outcome, and what it does when it succeeds.\<close>

definition storeCall :: "((string \<times> json) list \<Rightarrow> (string \<times> json) list) \<Rightarrow> unit gact" where
  "storeCall f g = (case gs_store g of
      [] \<Rightarrow> (Inr (), g\<lparr>gs_files := f (gs_files g)\<rparr>)
    | ok # rest \<Rightarrow> (if ok then (Inr (), g\<lparr>gs_files := f (gs_files g), gs_store := rest\<rparr>)
        else (Inl (PlainError ''storage''), g\<lparr>gs_store := rest\<rparr>)))"

definition storagePut :: "string \<Rightarrow> json \<Rightarrow> unit gact" where
  "storagePut key body = storeCall (alist_put key body)"

definition storageRemove :: "string \<Rightarrow> unit gact" where
  "storageRemove key = storeCall (alist_del key)"

section \<open>Requests\<close>

definition EXPORT_TTL_S :: int where
  "EXPORT_TTL_S = 86400"

definition is_request :: "string \<Rightarrow> string \<Rightarrow> gdpr_req \<Rightarrow> bool" where
  "is_request t i r \<longleftrightarrow> gr_tenant r = t \<and> gr_id r = i"

definition enqueue :: "string \<Rightarrow> string \<Rightarrow> unit gact" where
  "enqueue t i = modifyM (\<lambda>g. g\<lparr>gs_queue := gs_queue g @ [(t, i)]\<rparr>)"

definition contact_known :: "string \<Rightarrow> string \<Rightarrow> db \<Rightarrow> bool" where
  "contact_known t i d \<longleftrightarrow> list_ex (\<lambda>c. ct_tenant c = t \<and> uuid_eq (ct_id c) i) (db_contacts d)"

definition createRequest :: "string \<Rightarrow> string \<Rightarrow> gdpr_kind \<Rightarrow> string option \<Rightarrow> gdpr_req act" where
  "createRequest t contactId kind by = bindM fresh_id (\<lambda>i. bindM (getM w_now) (\<lambda>now.
     let r = \<lparr>gr_id = i, gr_tenant = t, gr_contact = Some (lower contactId), gr_hash = None, gr_kind = kind, gr_status = GPending,
       gr_requestedBy = by, gr_resultKey = None, gr_error = None, gr_requestedAt = now, gr_completedAt = None\<rparr>
     in bindM (onDb (\<lambda>d. d\<lparr>db_gdpr := db_gdpr d @ [r]\<rparr>)) (\<lambda>_. retM r)))"

definition requestGdpr :: "string \<Rightarrow> string \<Rightarrow> gdpr_kind \<Rightarrow> string option \<Rightarrow> gdpr_req gact" where
  "requestGdpr t contactId kind by =
    bindM (inWorld (bindM (readDb (contact_known t contactId)) (\<lambda>known.
      if \<not> is_uuid contactId \<or> \<not> known then throwM (HttpExc 404 ''contact not found'') else createRequest t contactId kind by))) (\<lambda>req.
    bindM (enqueue t (gr_id req)) (\<lambda>_. retM req))"

definition requestByKey :: "string \<Rightarrow> string \<Rightarrow> string \<Rightarrow> gdpr_kind \<Rightarrow> string option \<Rightarrow> gdpr_req gact" where
  "requestByKey t keyId keyValue kind by =
    bindM (inWorld (resolve t keyId [keyValue])) (\<lambda>found.
      case map_of found keyValue of
        None \<Rightarrow> throwM (PublicApi 2008 (''no contact found for key '' @ keyValue) 404)
      | Some c \<Rightarrow> if c = [] then throwM (PublicApi 2008 (''no contact found for key '' @ keyValue) 404) else requestGdpr t c kind by)"

record gdpr_dto =
  gd_id :: string
  gd_contact_id :: "string option"
  gd_kind :: gdpr_kind
  gd_status :: gdpr_status
  gd_requested_by :: "string option"
  gd_requested_at :: string
  gd_completed_at :: "string option"
  gd_result_url :: "string option"
  gd_result_expires_at :: "string option"
  gd_error :: "string option"

text \<open>\<open>presign\<close> is \<open>ExportStorage.presignGet\<close> of a key, signed at a time, for a number of seconds.\<close>

definition toGdprDto :: "(string \<Rightarrow> int \<Rightarrow> int \<Rightarrow> string) \<Rightarrow> gdpr_req \<Rightarrow> gdpr_dto" where
  "toGdprDto presign r =
    (let done = (case (gr_resultKey r, gr_completedAt r) of (Some k, Some at) \<Rightarrow> if k = [] then None else Some (k, at) | _ \<Rightarrow> None) in
     \<lparr>gd_id = gr_id r, gd_contact_id = gr_contact r, gd_kind = gr_kind r, gd_status = gr_status r, gd_requested_by = gr_requestedBy r,
      gd_requested_at = iso_string (gr_requestedAt r), gd_completed_at = map_option iso_string (gr_completedAt r),
      gd_result_url = map_option (\<lambda>(k, at). presign k at EXPORT_TTL_S) done,
      gd_result_expires_at = map_option (\<lambda>(k, at). iso_string (at + EXPORT_TTL_S * 1000)) done, gd_error = gr_error r\<rparr>)"

definition listGdpr :: "(string \<Rightarrow> int \<Rightarrow> int \<Rightarrow> string) \<Rightarrow> string \<Rightarrow> gdpr_kind option \<Rightarrow> gdpr_status option \<Rightarrow> string option \<Rightarrow> nat \<Rightarrow>
    (gdpr_dto list \<times> string option) gact" where
  "listGdpr presign t kind status cursor limit =
    bindM (case cursor of
       Some c \<Rightarrow> if c \<noteq> [] \<and> \<not> is_uuid c then throwM (HttpExc 400 ''invalid cursor'') else retM ()
     | None \<Rightarrow> retM ()) (\<lambda>_. inWorld (readDb (\<lambda>d.
       let rows = take (Suc limit) (filter (\<lambda>r. case cursor of None \<Rightarrow> True | Some c \<Rightarrow> c = [] \<or> gr_id r < lower c)
             (rev (sort_key gr_id (filter (\<lambda>r. gr_tenant r = t \<and> (case kind of None \<Rightarrow> True | Some k \<Rightarrow> gr_kind r = k) \<and>
                (case status of None \<Rightarrow> True | Some s \<Rightarrow> gr_status r = s)) (db_gdpr d)))))
       in (map (toGdprDto presign) (take limit rows), if limit < length rows then Some (gr_id (rows ! (limit - 1))) else None))))"

section \<open>Presigned URLs (\<open>export-storage.ts\<close>)\<close>

text \<open>RFC 3986 encoding: everything but letters, digits and \<open>- _ . ~\<close>, byte by byte of its UTF-8.\<close>

definition unreserved :: "char \<Rightarrow> bool" where
  "unreserved c \<longleftrightarrow> digit_char c \<or> lower_alpha c \<or> upper_alpha c \<or> List.member ''-_.~'' c"

definition upper_hex :: "nat \<Rightarrow> char" where
  "upper_hex n = (if n < 10 then chr (48 + n) else chr (55 + n))"

definition enc :: "string \<Rightarrow> string" where
  "enc s = concat (map (\<lambda>b. if unreserved (chr b) then [chr b] else [CHR ''%'', upper_hex (b div 16), upper_hex (b mod 16)]) (utf8_bytes s))"

record storage_config =
  sg_protocol :: string
  sg_host :: string
  sg_access_key :: string
  sg_secret_key :: string
  sg_region :: string

text \<open>\<open>toISOString\<close> without separators and milliseconds.\<close>

definition amz_date :: "int \<Rightarrow> string" where
  "amz_date ms = filter (\<lambda>c. c \<noteq> CHR ''-'' \<and> c \<noteq> CHR '':'') (take 19 (iso_string ms)) @ ''Z''"

text \<open>
  \<open>presignGet\<close>, with the public endpoint's protocol and host. \<open>hmac\<close> keys are byte strings; \<open>hexHmac\<close>
  is the digest in hexadecimal and \<open>hexSha\<close> SHA-256 in hexadecimal.
\<close>

definition presignGet :: "(string \<Rightarrow> string \<Rightarrow> string) \<Rightarrow> (string \<Rightarrow> string \<Rightarrow> string) \<Rightarrow> (string \<Rightarrow> string) \<Rightarrow> storage_config \<Rightarrow> string \<Rightarrow> int \<Rightarrow> int \<Rightarrow> string" where
  "presignGet hmac hexHmac hexSha cfg key signedAt expiresIn =
    (let path = ''/exports/'' @ join_with ''/'' (map enc (split_on (CHR ''/'') key));
         amz = amz_date signedAt; day = take 8 amz;
         scope = day @ ''/'' @ sg_region cfg @ ''/s3/aws4_request'';
         query = join_with ''&'' (map (\<lambda>(k, v). enc k @ ''='' @ enc v)
           [(''X-Amz-Algorithm'', ''AWS4-HMAC-SHA256''), (''X-Amz-Credential'', sg_access_key cfg @ ''/'' @ scope), (''X-Amz-Date'', amz),
            (''X-Amz-Expires'', num_string (int_num expiresIn)), (''X-Amz-SignedHeaders'', ''host'')]);
         canonical = join_with [CHR 0x0A] [''GET'', path, query, ''host:'' @ sg_host cfg, [], ''host'', ''UNSIGNED-PAYLOAD''];
         toSign = join_with [CHR 0x0A] [''AWS4-HMAC-SHA256'', amz, scope, hexSha canonical];
         signingKey = foldl hmac (''AWS4'' @ sg_secret_key cfg) [day, sg_region cfg, ''s3'', ''aws4_request'']
     in sg_protocol cfg @ ''//'' @ sg_host cfg @ path @ ''?'' @ query @ ''&X-Amz-Signature='' @ hexHmac signingKey toSign)"

section \<open>Processing\<close>

text \<open>\<open>err.message\<close>.\<close>

definition errMessage :: "exn \<Rightarrow> string" where
  "errMessage e = (case e of HttpExc _ m \<Rightarrow> m | HttpProblems _ _ \<Rightarrow> ''Http Exception'' | PublicApi _ m _ \<Rightarrow> m | PlainError m \<Rightarrow> m
     | RetryWrite m \<Rightarrow> m | AccountLocked _ \<Rightarrow> ''account locked'' | OAuthFail _ m _ _ \<Rightarrow> m
     | MissingTenant \<Rightarrow> ''tenant context is not set'' | UniqueViolation \<Rightarrow> ''Unique constraint failed'')"

definition updateRequest :: "string \<Rightarrow> string \<Rightarrow> (gdpr_req \<Rightarrow> gdpr_req) \<Rightarrow> db \<Rightarrow> db" where
  "updateRequest t i f d = d\<lparr>db_gdpr := map (\<lambda>r. if is_request t i r then f r else r) (db_gdpr d)\<rparr>"

definition finishRequest :: "string \<Rightarrow> string \<Rightarrow> (int \<Rightarrow> gdpr_req \<Rightarrow> gdpr_req) \<Rightarrow> unit act" where
  "finishRequest t i f = bindM (getM w_now) (\<lambda>now. bindM (readDb db_gdpr) (\<lambda>rs.
     if list_ex (is_request t i) rs then onDb (updateRequest t i (f now)) else throwM (PlainError ''record not found'')))"

definition claimable :: "gdpr_req \<Rightarrow> bool" where
  "claimable r \<longleftrightarrow> gr_status r = GPending \<or> gr_status r = GRunning"

text \<open>What an export holds: the profile with the field labels, and the rows about the contact.\<close>

definition profile_fields :: "field_def list \<Rightarrow> object \<Rightarrow> json" where
  "profile_fields defs data = JArr (map (\<lambda>(k, v). JObj
     (case field_of defs (digits_int k) of
        Some f \<Rightarrow> [(''field_id'', int_json (digits_int k)), (''api_name'', JStr (fd_apiName f)), (''labels'', fd_labels f), (''value'', v)]
      | None \<Rightarrow> [(''field_id'', int_json (digits_int k)), (''api_name'', JNull), (''labels'', JNull), (''value'', v)])) data)"

definition iso_json :: "int option \<Rightarrow> json" where
  "iso_json t = (case t of None \<Rightarrow> JNull | Some ms \<Rightarrow> JStr (iso_string ms))"

definition profile_of :: "field_def list \<Rightarrow> contact \<Rightarrow> json" where
  "profile_of defs c = JObj [(''id'', JStr (ct_id c)), (''version'', int_json (ct_version c)), (''created_at'', JStr (iso_string (ct_createdAt c))),
     (''updated_at'', JStr (iso_string (ct_updatedAt c))), (''deleted_at'', iso_json (ct_deletedAt c)), (''fields'', profile_fields defs (ct_data c))]"

definition export_consents :: "string \<Rightarrow> string \<Rightarrow> db \<Rightarrow> json" where
  "export_consents t c d = JArr (map (\<lambda>r. JObj [(''channel'', JStr (channel_name (cs_channel r))), (''value'', cs_value r), (''source'', JStr (cs_source r)),
     (''text'', json_opt (cs_text r)), (''actor'', json_opt (cs_actor r)), (''changed_at'', JStr (iso_string (cs_changedAt r)))])
     (sort_key (\<lambda>r. (cs_changedAt r, cs_id r)) (filter (\<lambda>r. cs_tenant r = t \<and> cs_contact r = c) (db_consents d))))"

definition export_lists :: "string \<Rightarrow> string \<Rightarrow> db \<Rightarrow> json" where
  "export_lists t c d = JArr (map (\<lambda>(l, m). JObj [(''id'', JStr (cl_id l)), (''name'', JStr (cl_name l)), (''added_at'', JStr (iso_string (mb_addedAt m)))])
     (sort_key (\<lambda>(l, m). cl_name l) [(l, m). m \<leftarrow> filter (\<lambda>m. mb_tenant m = t \<and> mb_contact m = c) (db_members d),
        l \<leftarrow> filter (\<lambda>l. cl_tenant l = t \<and> cl_id l = mb_list m) (db_lists d)]))"

definition export_relational :: "string \<Rightarrow> string \<Rightarrow> db \<Rightarrow> json" where
  "export_relational t c d = JArr (map (\<lambda>(b, r). JObj [(''table_id'', JStr (tb_id b)), (''table_name'', JStr (tb_name b)), (''key'', JStr (rr_key r)),
       (''data'', JObj (rr_data r)), (''updated_at'', JStr (iso_string (rr_updatedAt r)))])
     (sort_key (\<lambda>(b, r). (tb_name b, rr_key r)) [(b, r). r \<leftarrow> filter (\<lambda>r. rr_tenant r = t \<and> rr_contact r = c) (db_rows d),
        b \<leftarrow> filter (\<lambda>b. tb_tenant b = t \<and> tb_id b = rr_table r) (db_tables d)]))"

definition export_key :: "string \<Rightarrow> string \<Rightarrow> string" where
  "export_key t i = ''gdpr/'' @ t @ ''/'' @ i @ ''.json''"

text \<open>The contributors run in the order they were added; each adds its key or fails.\<close>

type_synonym contributor = "string \<times> (string \<Rightarrow> string \<Rightarrow> exn + json)"

fun contribute :: "contributor list \<Rightarrow> string \<Rightarrow> string \<Rightarrow> object \<Rightarrow> exn + object" where
  "contribute [] t c doc = Inr doc"
| "contribute ((k, f) # fs) t c doc = (case f t c of Inl e \<Rightarrow> Inl e | Inr v \<Rightarrow> contribute fs t c (alist_put k v doc))"

definition exportContact :: "contributor list \<Rightarrow> string \<Rightarrow> gdpr_req \<Rightarrow> unit gact" where
  "exportContact contributors t req =
    (case gr_contact req of None \<Rightarrow> throwM (PlainError ''contact not found'')
     | Some c \<Rightarrow> bindM (getM (\<lambda>g. find (\<lambda>x. ct_tenant x = t \<and> ct_id x = c) (db_contacts (gdb g)))) (\<lambda>found.
        case found of None \<Rightarrow> throwM (PlainError ''contact not found'')
        | Some contact \<Rightarrow>
          bindM (getM (\<lambda>g. [(''consents'', export_consents t c (gdb g)), (''lists'', export_lists t c (gdb g)),
             (''relational'', export_relational t c (gdb g)),
             (''audit'', JArr (map ad_entry (filter (\<lambda>a. ad_tenant a = t \<and> ad_resource a = c) (gs_audit g))))])) (\<lambda>rest.
          bindM (inWorld (registryFields t)) (\<lambda>defs.
          bindM (getM (\<lambda>g. w_now (gs_world g))) (\<lambda>now.
          bindM (liftE (contribute contributors t c ([(''generated_at'', JStr (iso_string now)), (''profile'', profile_of defs contact)] @ rest))) (\<lambda>doc.
          bindM (storagePut (export_key t (gr_id req)) (JObj doc)) (\<lambda>_.
            inWorld (finishRequest t (gr_id req) (\<lambda>now r. r\<lparr>gr_status := GDone, gr_resultKey := Some (export_key t (gr_id req)), gr_completedAt := Some now\<rparr>)))))))))"

section \<open>Erasure (\<open>forget\<close>)\<close>

definition erase_rows :: "string \<Rightarrow> string \<Rightarrow> db \<Rightarrow> db" where
  "erase_rows t c d = d\<lparr>
     db_uniques := filter (\<lambda>r. \<not> (uv_tenant r = t \<and> uv_contact r = c)) (db_uniques d),
     db_members := filter (\<lambda>r. \<not> (mb_tenant r = t \<and> mb_contact r = c)) (db_members d),
     db_rows := filter (\<lambda>r. \<not> (rr_tenant r = t \<and> rr_contact r = c)) (db_rows d),
     db_links := filter (\<lambda>r. \<not> (il_tenant r = t \<and> il_contact r = c)) (db_links d)\<rparr>"

definition erase_contact :: "string \<Rightarrow> string \<Rightarrow> db \<Rightarrow> db" where
  "erase_contact t c d = d\<lparr>db_contacts := filter (\<lambda>x. \<not> (ct_tenant x = t \<and> ct_id x = c)) (db_contacts d)\<rparr>"

definition names_contact :: "string \<Rightarrow> string \<Rightarrow> gdpr_req \<Rightarrow> bool" where
  "names_contact t c r \<longleftrightarrow> gr_tenant r = t \<and> gr_contact r = Some c"

definition stale_exports :: "string \<Rightarrow> string \<Rightarrow> db \<Rightarrow> string list" where
  "stale_exports t c d = concat (map (\<lambda>r. case gr_resultKey r of Some k \<Rightarrow> if k = [] then [] else [k] | None \<Rightarrow> []) (filter (names_contact t c) (db_gdpr d)))"

definition anonymize_requests :: "string \<Rightarrow> string \<Rightarrow> string \<Rightarrow> db \<Rightarrow> db" where
  "anonymize_requests t c hash d = d\<lparr>db_gdpr := map (\<lambda>r. if names_contact t c r
     then r\<lparr>gr_contact := None, gr_hash := Some hash, gr_resultKey := None\<rparr> else r) (db_gdpr d)\<rparr>"

definition anonymize_consents :: "string \<Rightarrow> string \<Rightarrow> db \<Rightarrow> db" where
  "anonymize_consents t c d = d\<lparr>db_consents := map (\<lambda>r. if cs_tenant r = t \<and> cs_contact r = c then r\<lparr>cs_text := None\<rparr> else r) (db_consents d)\<rparr>"

definition eraseTx :: "string \<Rightarrow> string \<Rightarrow> string \<Rightarrow> string \<Rightarrow> string list act" where
  "eraseTx t i c hash = transaction
    (bindM (onDb (erase_rows t c)) (\<lambda>_.
     bindM (readDb (\<lambda>d. list_ex (\<lambda>x. ct_tenant x = t \<and> ct_id x = c) (db_contacts d))) (\<lambda>there.
     bindM (onDb (erase_contact t c)) (\<lambda>_.
     bindM (if there then outboxDeleted t [c] ''gdpr'' else retM ()) (\<lambda>_.
     bindM (readDb (stale_exports t c)) (\<lambda>keys.
     bindM (onDb (anonymize_requests t c hash)) (\<lambda>_.
     bindM (finishRequest t i (\<lambda>now r. r\<lparr>gr_status := GDone, gr_completedAt := Some now\<rparr>)) (\<lambda>_.
     bindM (onDb (anonymize_consents t c)) (\<lambda>_. retM keys)))))))))"

text \<open>A failed removal of an export file is logged and the loop goes on.\<close>

definition removeLogged :: "string \<Rightarrow> unit gact" where
  "removeLogged key g = (Inr (), snd (storageRemove key g))"

definition forgetContact :: "(string \<Rightarrow> string) \<Rightarrow> string \<Rightarrow> gdpr_req \<Rightarrow> unit gact" where
  "forgetContact sha t req =
    (case gr_contact req of
       None \<Rightarrow> inWorld (finishRequest t (gr_id req) (\<lambda>now r. r\<lparr>gr_status := GDone, gr_completedAt := Some now\<rparr>))
     | Some c \<Rightarrow> bindM (inWorld (eraseTx t (gr_id req) c (sha c))) (\<lambda>keys.
         bindM (inWorld flush) (\<lambda>_. forM keys removeLogged)))"

section \<open>The queue\<close>

definition claimRequest :: "string \<Rightarrow> string \<Rightarrow> gdpr_req option act" where
  "claimRequest t i = bindM (readDb (\<lambda>d. list_ex (\<lambda>r. is_request t i r \<and> claimable r) (db_gdpr d))) (\<lambda>ok.
     if \<not> ok then retM None
     else bindM (onDb (updateRequest t i (\<lambda>r. if claimable r then r\<lparr>gr_status := GRunning\<rparr> else r))) (\<lambda>_.
       readDb (\<lambda>d. find (is_request t i) (db_gdpr d))))"

definition process :: "(string \<Rightarrow> string) \<Rightarrow> contributor list \<Rightarrow> string \<Rightarrow> string \<Rightarrow> unit gact" where
  "process sha contributors t i = bindM (inWorld (claimRequest t i)) (\<lambda>req.
     case req of None \<Rightarrow> retM ()
     | Some r \<Rightarrow> if gr_kind r = GExport then exportContact contributors t r else forgetContact sha t r)"

definition runRequest :: "(string \<Rightarrow> string) \<Rightarrow> contributor list \<Rightarrow> string \<Rightarrow> string \<Rightarrow> gstate \<Rightarrow> gstate" where
  "runRequest sha contributors t i g = (case process sha contributors t i g of
      (Inr _, g') \<Rightarrow> g'
    | (Inl e, g') \<Rightarrow> snd (inWorld (finishRequest t i (\<lambda>now r. r\<lparr>gr_status := GFailed, gr_error := Some (errMessage e), gr_completedAt := Some now\<rparr>)) g'))"

definition runNext :: "(string \<Rightarrow> string) \<Rightarrow> contributor list \<Rightarrow> gstate \<Rightarrow> gstate" where
  "runNext sha contributors g = (case gs_queue g of
      [] \<Rightarrow> g
    | (t, i) # rest \<Rightarrow> runRequest sha contributors t i (g\<lparr>gs_queue := rest\<rparr>))"

definition gdprBootstrap :: "string list \<Rightarrow> unit gact" where
  "gdprBootstrap tenants = modifyM (\<lambda>g. g\<lparr>gs_queue := gs_queue g @ concat (map (\<lambda>t.
     map (Pair t) (map gr_id (sort_key gr_id (filter (\<lambda>r. gr_tenant r = t \<and> claimable r) (db_gdpr (gdb g)))))) tenants)\<rparr>)"

section \<open>Endpoints (\<open>gdpr.controller.ts\<close>)\<close>

definition gdprTenantOf :: "principal \<Rightarrow> exn + string" where
  "gdprTenantOf = tenantOf ''operator principals cannot manage tenant contacts''"

definition contactKey :: "json \<Rightarrow> (string \<times> string) option" where
  "contactKey v = (case v of
      JObj kvs \<Rightarrow> (case (parseKeyId (map_of kvs ''key_id''), map_of kvs ''key_value'') of
          (Some k, Some (JStr x)) \<Rightarrow> if x \<noteq> [] then Some (k, x) else None | _ \<Rightarrow> None)
    | _ \<Rightarrow> None)"

definition parseKey :: "json \<Rightarrow> exn + string \<times> string" where
  "parseKey body = (case contactKey body of None \<Rightarrow> Inl invalidBody | Some b \<Rightarrow> Inr b)"

definition gdprKinds :: "(string \<times> gdpr_kind) list" where
  "gdprKinds = [(''export'', GExport), (''forget'', GForget)]"

definition gdprStatuses :: "(string \<times> gdpr_status) list" where
  "gdprStatuses = [(''pending'', GPending), (''running'', GRunning), (''done'', GDone), (''failed'', GFailed)]"

definition oneOf :: "string \<Rightarrow> (string \<times> 'a) list \<Rightarrow> string option \<Rightarrow> exn + 'a option" where
  "oneOf name allowed v = (case v of None \<Rightarrow> Inr None
    | Some s \<Rightarrow> if s = [] then Inr None
        else (case map_of allowed s of Some x \<Rightarrow> Inr (Some x)
          | None \<Rightarrow> Inl (HttpExc 400 (name @ '' must be one of '' @ join_with '', '' (map fst allowed)))))"

definition publicGdprRequest :: "principal \<Rightarrow> json \<Rightarrow> gdpr_kind \<Rightarrow> string gact" where
  "publicGdprRequest p body kind = bindM (liftE (parseKey body)) (\<lambda>(k, x). bindM (liftE (gdprTenantOf p)) (\<lambda>t.
     bindM (requestByKey t k x kind (Some (pr_sub p))) (\<lambda>r. retM (gr_id r))))"

definition adminGdprRequest :: "principal \<Rightarrow> string \<Rightarrow> gdpr_kind \<Rightarrow> gdpr_req gact" where
  "adminGdprRequest p i kind = bindM (liftE (gdprTenantOf p)) (\<lambda>t. requestGdpr t i kind (Some (pr_sub p)))"

definition gdprLimit :: "string option \<Rightarrow> exn + nat" where
  "gdprLimit limit = (case limit of None \<Rightarrow> Inr 50
    | Some s \<Rightarrow> (case js_number s of
        Some n \<Rightarrow> if is_int_num n \<and> 1 \<le> mant n \<and> mant n \<le> 200 then Inr (nat (mant n)) else Inl (HttpExc 400 ''limit must be between 1 and 200'')
      | None \<Rightarrow> Inl (HttpExc 400 ''limit must be between 1 and 200'')))"

definition adminGdprList :: "(string \<Rightarrow> int \<Rightarrow> int \<Rightarrow> string) \<Rightarrow> principal \<Rightarrow> string option \<Rightarrow> string option \<Rightarrow> string option \<Rightarrow> string option \<Rightarrow>
    (gdpr_dto list \<times> string option) gact" where
  "adminGdprList presign p kind status cursor limit =
    bindM (liftE (gdprLimit limit)) (\<lambda>n. bindM (liftE (gdprTenantOf p)) (\<lambda>t.
    bindM (liftE (oneOf ''kind'' gdprKinds kind)) (\<lambda>k. bindM (liftE (oneOf ''status'' gdprStatuses status)) (\<lambda>s.
      listGdpr presign t k s cursor n))))"

section \<open>Requests only move forward\<close>

definition progressW :: "world \<Rightarrow> world \<Rightarrow> bool" where
  "progressW w w' \<longleftrightarrow> (\<exists>f. db_gdpr (w_db w') = map f (db_gdpr (w_db w)) \<and>
     (\<forall>r. gr_id (f r) = gr_id r \<and> gr_tenant (f r) = gr_tenant r \<and> (claimable (f r) \<longrightarrow> claimable r)))"

definition progress :: "gstate \<Rightarrow> gstate \<Rightarrow> bool" where
  "progress g g' \<longleftrightarrow> progressW (gs_world g) (gs_world g')"

lemma progressW_refl: "db_gdpr (w_db w') = db_gdpr (w_db w) \<Longrightarrow> progressW w w'"
  unfolding progressW_def by (intro exI[of _ id]) simp

lemma progressW_trans:
  assumes "progressW u v" "progressW v w"
  shows "progressW u w"
proof -
  obtain f where f: "db_gdpr (w_db v) = map f (db_gdpr (w_db u))"
    "\<forall>r. gr_id (f r) = gr_id r \<and> gr_tenant (f r) = gr_tenant r \<and> (claimable (f r) \<longrightarrow> claimable r)"
    using assms(1) unfolding progressW_def by blast
  obtain h where h: "db_gdpr (w_db w) = map h (db_gdpr (w_db v))"
    "\<forall>r. gr_id (h r) = gr_id r \<and> gr_tenant (h r) = gr_tenant r \<and> (claimable (h r) \<longrightarrow> claimable r)"
    using assms(2) unfolding progressW_def by blast
  have "db_gdpr (w_db w) = map (h \<circ> f) (db_gdpr (w_db u))" by (simp add: f(1) h(1))
  moreover have "\<forall>r. gr_id ((h \<circ> f) r) = gr_id r \<and> gr_tenant ((h \<circ> f) r) = gr_tenant r \<and> (claimable ((h \<circ> f) r) \<longrightarrow> claimable r)"
    using f(2) h(2) unfolding comp_apply by metis
  ultimately show ?thesis unfolding progressW_def by blast
qed

interpretation stepsW: frame progressW
  by unfold_locales (rule progressW_refl, simp, rule progressW_trans)

interpretation steps: frame progress
  by unfold_locales (auto simp: progress_def intro: progressW_refl progressW_trans)

lemma steps_inWorld:
  assumes "keeps progressW m"
  shows "keeps progress (inWorld m)"
proof -
  have "progressW (gs_world g) (snd (m (gs_world g)))" for g using assms by (simp add: keeps_def)
  then have "m (gs_world g) = (r, w) \<Longrightarrow> progressW (gs_world g) w" for g r w by (metis snd_conv)
  then show ?thesis unfolding keeps_def progress_def inWorld_def by (auto split: prod.split)
qed

lemma same_db_progress: "keeps same_db m \<Longrightarrow> keeps progressW m"
  by (auto simp: keeps_def same_db_def intro!: progressW_refl)

lemma stepsW_onDb: "(\<And>d. db_gdpr (f d) = db_gdpr d) \<Longrightarrow> keeps progressW (onDb f)"
  by (simp add: keeps_def progressW_refl)

lemma stepsW_map:
  "(\<And>r. gr_id (f r) = gr_id r \<and> gr_tenant (f r) = gr_tenant r \<and> (claimable (f r) \<longrightarrow> claimable r)) \<Longrightarrow>
    keeps progressW (onDb (\<lambda>d. d\<lparr>db_gdpr := map f (db_gdpr d)\<rparr>))"
  by (auto simp: keeps_def progressW_def)

lemma stepsW_readDb: "keeps progressW (readDb f)"
  by (simp add: keeps_def progressW_refl)

lemma stepsW_outbox: "keeps progressW (outboxInsert t typ es)"
  by (auto simp: keeps_def add_events_def intro!: progressW_refl)

lemma stepsW_transaction:
  assumes "keeps progressW m"
  shows "keeps progressW (transaction m)"
proof -
  have "progressW w (snd (transaction m w))" for w
  proof (cases "m w")
    case (Pair r w')
    then have "progressW w w'" using assms by (metis keeps_outcome)
    then show ?thesis using Pair by (cases r) (auto simp: transaction_def intro: progressW_refl)
  qed
  then show ?thesis by (simp add: keeps_def)
qed

lemma stepsW_finish:
  assumes "\<And>now r. gr_id (f now r) = gr_id r \<and> gr_tenant (f now r) = gr_tenant r \<and> \<not> claimable (f now r)"
  shows "keeps progressW (finishRequest t i f)"
  unfolding finishRequest_def updateRequest_def
  by (intro stepsW.keeps_bindM stepsW.keeps_getM stepsW_readDb stepsW.keeps_if stepsW_map stepsW.keeps_throwM) (simp add: assms)

definition settled :: "string \<Rightarrow> string \<Rightarrow> db \<Rightarrow> bool" where
  "settled t i d \<longleftrightarrow> (\<forall>r \<in> set (db_gdpr d). is_request t i r \<longrightarrow> \<not> claimable r)"

lemma progress_settled:
  assumes "progress g g'" "settled t i (gdb g)"
  shows "settled t i (gdb g')"
proof -
  obtain f where f: "db_gdpr (gdb g') = map f (db_gdpr (gdb g))"
    "\<forall>r. gr_id (f r) = gr_id r \<and> gr_tenant (f r) = gr_tenant r \<and> (claimable (f r) \<longrightarrow> claimable r)"
    using assms(1) unfolding progress_def progressW_def by blast
  show ?thesis using assms(2) f(2) unfolding settled_def is_request_def f(1) by (metis (no_types, lifting) imageE set_map)
qed

lemma finish_settles:
  assumes "\<And>now r. \<not> claimable (f now r)" "finishRequest t i f w = (r, w')"
  shows "settled t i (w_db w') \<and> (r = Inr () \<or> w' = w)"
  using assms by (auto simp: finishRequest_def updateRequest_def settled_def bindM_def list_ex_iff split: if_splits)

lemma steps_store: "keeps progress (storeCall f)"
  by (auto simp: keeps_def storeCall_def progress_def split: list.split intro!: progressW_refl)

lemma steps_removeLogged: "keeps progress (removeLogged key)"
  using steps_store by (auto simp: keeps_def removeLogged_def storageRemove_def)

lemma steps_erase: "keeps progressW (eraseTx t i c hash)"
  unfolding eraseTx_def outboxDeleted_def anonymize_requests_def
  by (intro stepsW_transaction stepsW.keeps_bindM stepsW_onDb stepsW_readDb stepsW.keeps_if stepsW_outbox stepsW.keeps_retM stepsW_map stepsW_finish)
     (simp_all add: erase_rows_def erase_contact_def claimable_def anonymize_consents_def)

lemma steps_forget: "keeps progress (forgetContact sha t r)"
  unfolding forgetContact_def
  by (intro steps.keeps_option steps.keeps_bindM steps_inWorld steps_erase steps.keeps_forM steps_removeLogged stepsW_finish same_db_progress reads_flush)
     (simp_all add: claimable_def)

lemma steps_export: "keeps progress (exportContact contributors t r)"
  unfolding exportContact_def storagePut_def
  by (intro steps.keeps_option steps.keeps_bindM steps.keeps_throwM steps.keeps_getM steps_inWorld same_db_progress reads_registryFields steps.keeps_liftE
      steps_store stepsW_finish) (simp_all add: claimable_def)

lemma steps_claim: "keeps progressW (claimRequest t i)"
  unfolding claimRequest_def updateRequest_def
  by (intro stepsW.keeps_bindM stepsW.keeps_if stepsW_readDb stepsW.keeps_retM stepsW_map) (auto simp: claimable_def)

lemma steps_process: "keeps progress (process sha contributors t i)"
  unfolding process_def
  by (intro steps.keeps_bindM steps_inWorld steps_claim steps.keeps_option steps.keeps_if steps.keeps_retM steps_export steps_forget)

lemma steps_run: "progress g (runRequest sha contributors t i g)"
proof -
  have "keeps progressW (finishRequest t i (\<lambda>now r. r\<lparr>gr_status := GFailed, gr_error := Some m, gr_completedAt := Some now\<rparr>))" for m
    by (rule stepsW_finish) (simp add: claimable_def)
  note f = steps_inWorld[OF this]
  show ?thesis
  proof (cases "process sha contributors t i g")
    case (Pair r g')
    then have p: "progress g g'" by (rule keeps_outcome[OF steps_process])
    then show ?thesis
      using Pair f steps.frame_trans[OF p] by (cases r) (auto simp: runRequest_def keeps_def)
  qed
qed

lemma inWorld_Inr: "inWorld m g = (Inr a, g') \<longleftrightarrow> (\<exists>w. m (gs_world g) = (Inr a, w) \<and> g' = g\<lparr>gs_world := w\<rparr>)"
  by (auto simp: inWorld_def split: prod.splits)

lemma export_settles: "exportContact contributors t r g = (Inr (), g') \<Longrightarrow> settled t (gr_id r) (gdb g')"
  by (auto simp: exportContact_def comp_results inWorld_Inr claimable_def split: option.splits dest!: finish_settles[rotated])

lemma forM_removeLogged_world: "gs_world (snd (forM keys removeLogged g)) = gs_world g"
  by (induction keys arbitrary: g) (auto simp: removeLogged_def storageRemove_def storeCall_def bindM_def split: list.split)

section \<open>What an erasure does\<close>

lemma list_ex_map_same: "(\<And>r. P (f r) \<longleftrightarrow> P r) \<Longrightarrow> list_ex P (map f rs) = list_ex P rs"
  by (induction rs) auto

definition done_at :: "int \<Rightarrow> gdpr_req \<Rightarrow> gdpr_req" where
  "done_at now r = r\<lparr>gr_status := GDone, gr_completedAt := Some now\<rparr>"

definition after_rows :: "string \<Rightarrow> string \<Rightarrow> world \<Rightarrow> world" where
  "after_rows t c w = w\<lparr>w_db := erase_contact t c (erase_rows t c (w_db w))\<rparr>"

definition after_event :: "string \<Rightarrow> string \<Rightarrow> world \<Rightarrow> world" where
  "after_event t c w = (if list_ex (\<lambda>x. ct_tenant x = t \<and> ct_id x = c) (db_contacts (w_db w))
     then add_events t ''contacts.deleted'' (deletedEvents [c] ''gdpr'') (after_rows t c w) else after_rows t c w)"

definition erased_world :: "string \<Rightarrow> string \<Rightarrow> string \<Rightarrow> string \<Rightarrow> world \<Rightarrow> world" where
  "erased_world t i c hash w = (after_event t c w)\<lparr>w_db := anonymize_consents t c (updateRequest t i (done_at (w_now w))
     (anonymize_requests t c hash (w_db (after_event t c w))))\<rparr>"

lemma after_event_simps [simp]:
  "db_gdpr (w_db (after_event t c w)) = db_gdpr (w_db w)" "w_now (after_event t c w) = w_now w"
  "db_consents (w_db (after_event t c w)) = db_consents (w_db w)"
  by (simp_all add: after_event_def after_rows_def erase_contact_def erase_rows_def add_events_def)

lemma eraseTx_eq:
  assumes "list_ex (is_request t i) (db_gdpr (w_db w))"
  shows "eraseTx t i c hash w = (Inr (stale_exports t c (w_db w)), erased_world t i c hash w)"
proof -
  have there: "list_ex (\<lambda>x. ct_tenant x = t \<and> ct_id x = c) (db_contacts (erase_rows t c d)) = list_ex (\<lambda>x. ct_tenant x = t \<and> ct_id x = c) (db_contacts d)" for d
    by (simp add: erase_rows_def)
  have ex: "list_ex (is_request t i) (db_gdpr (anonymize_requests t c hash (w_db (after_event t c w))))"
    using assms by (simp add: anonymize_requests_def list_ex_map_same is_request_def)
  have keys: "stale_exports t c (w_db (after_event t c w)) = stale_exports t c (w_db w)" by (simp add: stale_exports_def)
  have ev: "(if list_ex (\<lambda>x. ct_tenant x = t \<and> ct_id x = c) (db_contacts (w_db w)) then outboxDeleted t [c] ''gdpr'' else retM ())
      (after_rows t c w) = (Inr (), after_event t c w)"
    by (simp add: outboxDeleted_def after_event_def)
  show ?thesis
    unfolding eraseTx_def transaction_def finishRequest_def
    using ev ex by (simp add: there after_rows_def[symmetric] keys erased_world_def done_at_def[abs_def])
qed

lemma removeLogged_all: "gs_store g = [] \<Longrightarrow> forM keys removeLogged g = (Inr (), g\<lparr>gs_files := filter (\<lambda>f. fst f \<notin> set keys) (gs_files g)\<rparr>)"
  by (induction keys arbitrary: g) (auto simp: removeLogged_def storageRemove_def storeCall_def alist_del_def intro!: filter_cong)

lemma claim_eq:
  assumes "find (is_request t i) (db_gdpr (w_db w)) = Some r" "claimable r"
  shows "claimRequest t i w = (Inr (Some (r\<lparr>gr_status := GRunning\<rparr>)),
    w\<lparr>w_db := updateRequest t i (\<lambda>r. if claimable r then r\<lparr>gr_status := GRunning\<rparr> else r) (w_db w)\<rparr>)"
proof -
  have r: "r \<in> set (db_gdpr (w_db w))" "is_request t i r" using find_Some_set[OF assms(1)] by auto
  let ?f = "\<lambda>r. if is_request t i r then if claimable r then r\<lparr>gr_status := GRunning\<rparr> else r else r"
  have "is_request t i (?f x) \<longleftrightarrow> is_request t i x" for x by (simp add: is_request_def)
  from find_map_same[of "is_request t i" ?f, OF this] have "find (is_request t i) (map ?f (db_gdpr (w_db w))) = Some (?f r)"
    using assms(1) by simp
  then show ?thesis
    using r assms(2) by (auto simp: claimRequest_def list_ex_iff updateRequest_def)
qed

lemma done_not_claimable [simp]: "\<not> claimable (done_at now r)"
  by (simp add: done_at_def claimable_def)

lemma erased_settled: "settled t i (w_db (erased_world t i c hash w))"
  by (auto simp: settled_def erased_world_def anonymize_consents_def updateRequest_def)

lemma eraseTx_needs_request:
  assumes "eraseTx t i c hash w = (Inr keys, w')"
  shows "list_ex (is_request t i) (db_gdpr (w_db w))"
proof (rule ccontr)
  assume no: "\<not> ?thesis"
  have a: "\<not> list_ex (is_request t i) (db_gdpr (anonymize_requests t c hash d))" if "db_gdpr d = db_gdpr (w_db w)" for d
    using no that by (simp add: anonymize_requests_def list_ex_map_same is_request_def)
  have b: "db_gdpr (erase_contact t c (erase_rows t c (w_db w))) = db_gdpr (w_db w)" by (simp add: erase_rows_def erase_contact_def)
  have o': "db_gdpr (w_db (add_events t x es v)) = db_gdpr (w_db v)" for x es v by (simp add: add_events_def)
  show False
    using assms unfolding eraseTx_def transaction_Inr finishRequest_def
    by (cases "list_ex (\<lambda>x. ct_tenant x = t \<and> ct_id x = c) (db_contacts (erase_rows t c (w_db w)))")
       (simp_all add: outboxDeleted_def a b o')
qed

lemma flush_then_remove: "bindM (inWorld flush) (\<lambda>_. forM keys removeLogged) g = (Inr (), g') \<Longrightarrow> w_db (gs_world g') = w_db (gs_world g)"
proof -
  assume "bindM (inWorld flush) (\<lambda>_. forM keys removeLogged) g = (Inr (), g')"
  then have "g' = snd (forM keys removeLogged (g\<lparr>gs_world := snd (flush (gs_world g))\<rparr>))"
    by (simp add: bindM_def inWorld_def flush_def)
  then have "gs_world g' = snd (flush (gs_world g))" by (simp add: forM_removeLogged_world)
  then show ?thesis by (simp add: flush_def)
qed

lemma forget_settles: "forgetContact sha t r g = (Inr (), g') \<Longrightarrow> settled t (gr_id r) (gdb g')"
proof (cases "gr_contact r")
  case None
  assume "forgetContact sha t r g = (Inr (), g')"
  then obtain w where "finishRequest t (gr_id r) (\<lambda>now r. r\<lparr>gr_status := GDone, gr_completedAt := Some now\<rparr>) (gs_world g) = (Inr (), w)" "g' = g\<lparr>gs_world := w\<rparr>"
    using None by (auto simp: forgetContact_def inWorld_Inr)
  then show ?thesis using finish_settles[rotated] by (simp add: claimable_def)
next
  case (Some c)
  assume "forgetContact sha t r g = (Inr (), g')"
  then have "bindM (inWorld (eraseTx t (gr_id r) c (sha c))) (\<lambda>keys. bindM (inWorld flush) (\<lambda>_. forM keys removeLogged)) g = (Inr (), g')"
    using Some by (simp add: forgetContact_def)
  from bindM_Inr[THEN iffD1, OF this] obtain keys g1 where "inWorld (eraseTx t (gr_id r) c (sha c)) g = (Inr keys, g1)"
    "bindM (inWorld flush) (\<lambda>_. forM keys removeLogged) g1 = (Inr (), g')" by blast
  then obtain w where e: "eraseTx t (gr_id r) c (sha c) (gs_world g) = (Inr keys, w)" and
    g': "bindM (inWorld flush) (\<lambda>_. forM keys removeLogged) (g\<lparr>gs_world := w\<rparr>) = (Inr (), g')"
 unfolding inWorld_Inr by blast
  have "w = erased_world t (gr_id r) c (sha c) (gs_world g)"
    using e eraseTx_eq[OF eraseTx_needs_request[OF e]] by simp
  then show ?thesis using flush_then_remove[OF g'] erased_settled by simp
qed

lemma claim_cases:
  assumes "claimRequest t i w = (Inr req, w')"
  shows "case req of None \<Rightarrow> w' = w \<and> settled t i (w_db w) | Some q \<Rightarrow> is_request t i q"
proof (cases "list_ex (\<lambda>r. is_request t i r \<and> claimable r) (db_gdpr (w_db w))")
  case False
  then show ?thesis using assms by (auto simp: claimRequest_def settled_def list_ex_iff)
next
  case True
  then obtain r where r: "r \<in> set (db_gdpr (w_db w))" "is_request t i r" by (auto simp: list_ex_iff)
  have "list_ex (is_request t i) (db_gdpr (updateRequest t i f (w_db w)))" if "\<And>r. is_request t i (f r) = is_request t i r" for f
    using r that by (auto simp: updateRequest_def list_ex_iff)
  from this[of "\<lambda>r. if claimable r then r\<lparr>gr_status := GRunning\<rparr> else r"]
  have "find (is_request t i) (db_gdpr (updateRequest t i (\<lambda>r. if claimable r then r\<lparr>gr_status := GRunning\<rparr> else r) (w_db w))) \<noteq> None"
    by (auto simp: find_None_set list_ex_iff is_request_def)
  moreover have "req = find (is_request t i) (db_gdpr (updateRequest t i (\<lambda>r. if claimable r then r\<lparr>gr_status := GRunning\<rparr> else r) (w_db w)))"
    using assms True by (simp add: claimRequest_def)
  ultimately show ?thesis by (auto dest: find_Some_set split: option.split)
qed

lemma process_settles: "process sha contributors t i g = (Inr (), g') \<Longrightarrow> settled t i (gdb g')"
proof -
  assume "process sha contributors t i g = (Inr (), g')"
  then obtain req w where c: "claimRequest t i (gs_world g) = (Inr req, w)" and
    r: "(case req of None \<Rightarrow> retM () | Some r \<Rightarrow> if gr_kind r = GExport then exportContact contributors t r else forgetContact sha t r) (g\<lparr>gs_world := w\<rparr>) = (Inr (), g')"
    unfolding process_def bindM_Inr inWorld_Inr by blast
  show ?thesis
  proof (cases req)
    case None
    then show ?thesis using r claim_cases[OF c] by auto
  next
    case (Some q)
    then have "gr_id q = i" using claim_cases[OF c] by (simp add: is_request_def)
    then show ?thesis using r Some export_settles forget_settles by (cases "gr_kind q = GExport") auto
  qed
qed

lemma run_settles: "settled t i (gdb (runRequest sha contributors t i g))"
proof (cases "process sha contributors t i g")
  case (Pair r g')
  show ?thesis
  proof (cases r)
    case (Inl e)
    have "settled t i (w_db (snd (finishRequest t i (\<lambda>now r. r\<lparr>gr_status := GFailed, gr_error := Some (errMessage e), gr_completedAt := Some now\<rparr>) (gs_world g'))))"
      by (rule conjunct1[OF finish_settles[OF _ prod.collapse[symmetric]]]) (simp add: claimable_def)
    then show ?thesis using Pair Inl by (simp add: runRequest_def inWorld_def case_prod_beta)
  next
    case (Inr u)
    then show ?thesis using Pair process_settles by (simp add: runRequest_def)
  qed
qed

lemma runNext_settled: "settled t i (gdb g) \<Longrightarrow> settled t i (gdb (runNext sha contributors g))"
  using progress_settled[OF steps_run] by (simp add: runNext_def split: list.split prod.split)

text \<open>Processing touches neither the queue nor the audit rows.\<close>

definition aside :: "gstate \<Rightarrow> gstate \<Rightarrow> bool" where
  "aside g g' \<longleftrightarrow> gs_queue g' = gs_queue g \<and> gs_audit g' = gs_audit g"

interpretation aside: frame aside
  by unfold_locales (auto simp: aside_def)

lemma aside_inWorld: "keeps aside (inWorld m)"
  by (simp add: keeps_def aside_def inWorld_def split: prod.split)

lemma aside_store: "keeps aside (storeCall f)"
  by (simp add: keeps_def aside_def storeCall_def split: list.split)

lemma aside_removeLogged: "keeps aside (removeLogged key)"
  using aside_store by (simp add: keeps_def removeLogged_def storageRemove_def)

lemma aside_process: "keeps aside (process sha contributors t i)"
  unfolding process_def exportContact_def forgetContact_def storagePut_def
  by (intro aside.keeps_bindM aside_inWorld aside.keeps_option aside.keeps_if aside.keeps_retM aside.keeps_throwM aside.keeps_getM
      aside.keeps_liftE aside_store aside.keeps_forM aside_removeLogged)

lemma aside_run: "aside g (runRequest sha contributors t i g)"
proof (cases "process sha contributors t i g")
  case (Pair r g')
  then have p: "aside g g'" by (rule keeps_outcome[OF aside_process])
  show ?thesis
    using Pair aside.frame_trans[OF p] aside_inWorld by (cases r) (auto simp: runRequest_def keeps_def p)
qed

lemma runNext_queue: "gs_queue (runNext sha contributors g) = tl (gs_queue g)"
  using aside_run[of "g\<lparr>gs_queue := tl (gs_queue g)\<rparr>" sha contributors]
  by (auto simp: runNext_def aside_def split: list.split prod.split)

lemma runs_settle: "length (gs_queue g) \<le> n \<Longrightarrow> (t, i) \<in> set (gs_queue g) \<or> settled t i (gdb g) \<Longrightarrow>
    settled t i (gdb ((runNext sha contributors ^^ n) g))"
proof (induction n arbitrary: g)
  case (Suc n)
  have "(t, i) \<in> set (gs_queue (runNext sha contributors g)) \<or> settled t i (gdb (runNext sha contributors g))"
  proof (cases "gs_queue g")
    case (Cons a rest)
    then show ?thesis
      using Suc.prems(2) runNext_queue[of sha contributors g] run_settles[of t i sha contributors] runNext_settled[of t i g sha contributors]
      by (auto simp: runNext_def split: prod.splits)
  qed (use Suc.prems(2) in \<open>simp add: runNext_def\<close>)
  moreover have "length (gs_queue (runNext sha contributors g)) \<le> n" using Suc.prems(1) by (simp add: runNext_queue)
  ultimately show ?case using Suc.IH by (simp add: funpow_Suc_right del: funpow.simps)
qed simp

section \<open>Properties\<close>

lemma progress_status:
  assumes "progress g g'" "q \<in> set (db_gdpr (gdb g))" "is_request t i q"
  shows "\<exists>q \<in> set (db_gdpr (gdb g')). is_request t i q"
proof -
  obtain f where "db_gdpr (gdb g') = map f (db_gdpr (gdb g))" "\<forall>r. gr_id (f r) = gr_id r \<and> gr_tenant (f r) = gr_tenant r"
    using assms(1) unfolding progress_def progressW_def by blast
  then show ?thesis using assms(2,3) by (auto simp: is_request_def)
qed

lemma runs_progress: "progress g ((runNext sha contributors ^^ n) g)"
proof (induction n)
  case (Suc n)
  have "progress h (runNext sha contributors h)" for h
    using steps_run[of "h\<lparr>gs_queue := tl (gs_queue h)\<rparr>" sha contributors] steps.frame_refl[of h]
    by (auto simp: runNext_def progress_def split: list.split prod.split)
  from steps.frame_trans[OF Suc this] show ?case by simp
qed (simp add: steps.frame_refl)

lemma requestGdpr_Inr:
  assumes "requestGdpr t c kind by g = (Inr r, g')"
  shows "r \<in> set (db_gdpr (gdb g')) \<and> is_request t (gr_id r) r \<and> (t, gr_id r) \<in> set (gs_queue g')"
  using assms by (auto simp: requestGdpr_def bindM_Inr inWorld_Inr createRequest_def enqueue_def is_request_def Let_def split: if_splits)


text \<open>The state that an erasure leaves.\<close>

lemma stale_exports_map:
  assumes "\<And>r. names_contact t c (f r) = names_contact t c r \<and> gr_resultKey (f r) = gr_resultKey r"
  shows "stale_exports t c (d\<lparr>db_gdpr := map f (db_gdpr d)\<rparr>) = stale_exports t c d"
  using assms by (simp add: stale_exports_def filter_map comp_def)

definition claimed_world :: "string \<Rightarrow> string \<Rightarrow> world \<Rightarrow> world" where
  "claimed_world t i w = w\<lparr>w_db := updateRequest t i (\<lambda>r. if claimable r then r\<lparr>gr_status := GRunning\<rparr> else r) (w_db w)\<rparr>"

lemma claimed_stale: "stale_exports t c (w_db (claimed_world t i w)) = stale_exports t c (w_db w)"
  unfolding claimed_world_def updateRequest_def by (simp, rule stale_exports_map) (simp add: names_contact_def)

lemma runForget_eq:
  assumes "find (is_request t i) (db_gdpr (gdb g)) = Some r" "claimable r" "gr_kind r = GForget" "gr_contact r = Some c"
  shows "runRequest sha contributors t i g = snd (forM (stale_exports t c (gdb g)) removeLogged
    (g\<lparr>gs_world := snd (flush (erased_world t i c (sha c) (claimed_world t i (gs_world g))))\<rparr>))"
proof -
  have r: "r \<in> set (db_gdpr (gdb g))" "is_request t i r" using find_Some_set[OF assms(1)] by auto
  have i: "gr_id r = i" using r by (simp add: is_request_def)
  have "list_ex (is_request t i) (db_gdpr (w_db (claimed_world t i (gs_world g))))"
    using r unfolding claimed_world_def updateRequest_def by (simp add: list_ex_map_same is_request_def) (force simp: list_ex_iff is_request_def)
  note e = eraseTx_eq[OF this, of c "sha c", unfolded claimed_stale]
  have c: "claimRequest t i (gs_world g) = (Inr (Some (r\<lparr>gr_status := GRunning\<rparr>)), claimed_world t i (gs_world g))"
    using claim_eq[OF assms(1,2)] by (simp add: claimed_world_def)
  have rm: "\<exists>g'. forM keys removeLogged h = (Inr (), g')" for keys h
    by (induction keys arbitrary: h) (auto simp: removeLogged_def bindM_def)
  show ?thesis
    using c e rm[of "stale_exports t c (gdb g)" "g\<lparr>gs_world := snd (flush (erased_world t i c (sha c) (claimed_world t i (gs_world g))))\<rparr>"] assms(3,4) i
    by (auto simp: runRequest_def process_def forgetContact_def inWorld_def bindM_def flush_def)
qed

lemma runForget_db:
  assumes "find (is_request t i) (db_gdpr (gdb g)) = Some r" "claimable r" "gr_kind r = GForget" "gr_contact r = Some c"
  shows "gdb (runRequest sha contributors t i g) = w_db (erased_world t i c (sha c) (claimed_world t i (gs_world g)))"
  unfolding runForget_eq[OF assms] by (simp add: forM_removeLogged_world flush_def)

lemma erased_tables:
  "db_contacts (w_db (erased_world t i c h w)) = filter (\<lambda>x. \<not> (ct_tenant x = t \<and> ct_id x = c)) (db_contacts (w_db w))"
  "db_uniques (w_db (erased_world t i c h w)) = filter (\<lambda>x. \<not> (uv_tenant x = t \<and> uv_contact x = c)) (db_uniques (w_db w))"
  "db_members (w_db (erased_world t i c h w)) = filter (\<lambda>x. \<not> (mb_tenant x = t \<and> mb_contact x = c)) (db_members (w_db w))"
  "db_rows (w_db (erased_world t i c h w)) = filter (\<lambda>x. \<not> (rr_tenant x = t \<and> rr_contact x = c)) (db_rows (w_db w))"
  "db_links (w_db (erased_world t i c h w)) = filter (\<lambda>x. \<not> (il_tenant x = t \<and> il_contact x = c)) (db_links (w_db w))"
  "db_consents (w_db (erased_world t i c h w)) = map (\<lambda>x. if cs_tenant x = t \<and> cs_contact x = c then x\<lparr>cs_text := None\<rparr> else x) (db_consents (w_db w))"
  by (simp_all add: erased_world_def anonymize_consents_def updateRequest_def anonymize_requests_def after_event_def after_rows_def
      erase_contact_def erase_rows_def add_events_def)

lemma erased_requests: "db_gdpr (w_db (erased_world t i c h w)) = map (\<lambda>q. if is_request t i q then done_at (w_now w) q else q)
    (map (\<lambda>q. if names_contact t c q then q\<lparr>gr_contact := None, gr_hash := Some h, gr_resultKey := None\<rparr> else q) (db_gdpr (w_db w)))"
  by (simp add: erased_world_def anonymize_consents_def updateRequest_def anonymize_requests_def)

lemma erased_nameless: "q \<in> set (db_gdpr (w_db (erased_world t i c h w))) \<Longrightarrow> \<not> names_contact t c q"
proof -
  have a: "\<not> names_contact t c (if names_contact t c q then q\<lparr>gr_contact := None, gr_hash := Some h, gr_resultKey := None\<rparr> else q)" for q
    by (simp add: names_contact_def)
  have b: "names_contact t c (if is_request t i q then done_at n q else q) = names_contact t c q" for q n
    by (simp add: names_contact_def done_at_def)
  assume "q \<in> set (db_gdpr (w_db (erased_world t i c h w)))"
  then show ?thesis unfolding erased_requests set_map using a b by blast
qed

lemma erased_outbox: "\<exists>new. db_outbox (w_db (erased_world t i c h w)) = db_outbox (w_db w) @ new \<and>
    map (\<lambda>o'. (ev_type (ob_envelope o'), ev_contact_id (ob_envelope o'), ev_data (ob_envelope o'))) new =
      (if \<exists>x \<in> set (db_contacts (w_db w)). ct_tenant x = t \<and> ct_id x = c then [(''contacts.deleted'', Some c, JObj [(''reason'', JStr ''gdpr'')])] else [])"
proof -
  have "db_outbox (w_db (erased_world t i c h w)) = db_outbox (w_db (after_event t c w))"
    by (simp add: erased_world_def anonymize_consents_def updateRequest_def anonymize_requests_def)
  moreover have "db_outbox (w_db (after_rows t c w)) = db_outbox (w_db w)" by (simp add: after_rows_def erase_contact_def erase_rows_def)
  ultimately show ?thesis
    using event_rows_consents[of "w_ids (after_rows t c w)" "w_next (after_rows t c w)" "w_now (after_rows t c w)" t "''contacts.deleted''" "deletedEvents [c] ''gdpr''"]
    by (simp add: after_event_def list_ex_iff add_events_def deletedEvents_def)
qed

lemma claimed_simps [simp]:
  "db_contacts (w_db (claimed_world t i w)) = db_contacts (w_db w)" "db_uniques (w_db (claimed_world t i w)) = db_uniques (w_db w)"
  "db_members (w_db (claimed_world t i w)) = db_members (w_db w)" "db_rows (w_db (claimed_world t i w)) = db_rows (w_db w)"
  "db_links (w_db (claimed_world t i w)) = db_links (w_db w)" "db_consents (w_db (claimed_world t i w)) = db_consents (w_db w)"
  "db_outbox (w_db (claimed_world t i w)) = db_outbox (w_db w)"
  by (simp_all add: claimed_world_def updateRequest_def)


text \<open>An export file can outlive the erasure: when the object store refuses the removal, the
  request is done all the same, the file with the contact's data stays, and no request holds its
  key any more, so nothing will ever remove it.\<close>

theorem failed_removal_leaves_the_export:
  assumes "find (is_request t i) (db_gdpr (gdb g)) = Some r" and "claimable r" and "gr_kind r = GForget" and "gr_contact r = Some c"
    and "g' = runRequest sha contributors t i g" and "gs_store g = [False]" and "stale_exports t c (gdb g) = [k]"
    and "\<forall>q \<in> set (db_gdpr (gdb g)). gr_resultKey q = Some k \<longrightarrow> names_contact t c q"
  shows "gs_files g' = gs_files g \<and> (\<forall>q \<in> set (db_gdpr (gdb g')). gr_resultKey q \<noteq> Some k) \<and> settled t i (gdb g')"
proof (intro conjI)
  show "gs_files g' = gs_files g"
    unfolding assms(5) runForget_eq[OF assms(1-4)] assms(7) by (simp add: removeLogged_def storageRemove_def storeCall_def assms(6) bindM_def)
  show "settled t i (gdb g')" unfolding assms(5) by (rule run_settles)
  define A where "A = (\<lambda>q. if is_request t i q then done_at (w_now (claimed_world t i (gs_world g))) q else q)"
  define B where "B = (\<lambda>q. if names_contact t c q then q\<lparr>gr_contact := None, gr_hash := Some (sha c), gr_resultKey := None\<rparr> else q)"
  define C where "C = (\<lambda>q. if is_request t i q then if claimable q then q\<lparr>gr_status := GRunning\<rparr> else q else q)"
  have key: "gr_resultKey (A (B (C q))) = (if names_contact t c q then None else gr_resultKey q)" for q
    by (auto simp: A_def B_def C_def names_contact_def done_at_def)
  have "db_gdpr (gdb g') = map A (map B (map C (db_gdpr (gdb g))))"
    unfolding assms(5) runForget_db[OF assms(1-4)] erased_requests A_def B_def C_def by (simp add: claimed_world_def updateRequest_def)
  then show "\<forall>q \<in> set (db_gdpr (gdb g')). gr_resultKey q \<noteq> Some k" using assms(8) key by auto
qed

section \<open>A forgotten contact\<close>

definition demo_request :: "string \<Rightarrow> gdpr_kind \<Rightarrow> gdpr_status \<Rightarrow> string option \<Rightarrow> gdpr_req" where
  "demo_request i kind st key = \<lparr>gr_id = i, gr_tenant = ''t'', gr_contact = Some demo_contact_id, gr_hash = None, gr_kind = kind, gr_status = st,
     gr_requestedBy = None, gr_resultKey = key, gr_error = None, gr_requestedAt = 0, gr_completedAt = None\<rparr>"

definition demo_gdpr :: "bool list \<Rightarrow> gstate" where
  "demo_gdpr outcomes = \<lparr>gs_world = demo_lists\<lparr>w_db := (w_db demo_lists)\<lparr>db_gdpr := [demo_request ''e'' GExport GDone (Some ''k''), demo_request ''f'' GForget GPending None]\<rparr>\<rparr>,
     gs_files = [(''k'', JNull)], gs_audit = [], gs_queue = [(''t'', ''f'')], gs_store = outcomes\<rparr>"

definition demo_sha :: "string \<Rightarrow> string" where
  "demo_sha = rev"

lemma demo_gdpr_find: "find (is_request ''t'' ''f'') (db_gdpr (gdb (demo_gdpr o'))) = Some (demo_request ''f'' GForget GPending None)"
  by (simp add: demo_gdpr_def demo_request_def is_request_def)

lemma demo_request_open: "claimable (demo_request ''f'' GForget GPending None)" "gr_kind (demo_request ''f'' GForget GPending None) = GForget"
    "gr_contact (demo_request ''f'' GForget GPending None) = Some demo_contact_id"
  by (simp_all add: demo_request_def claimable_def)

lemma demo_stale: "stale_exports ''t'' demo_contact_id (gdb (demo_gdpr o')) = [''k'']"
  by (simp add: stale_exports_def demo_gdpr_def demo_request_def names_contact_def)


lemma failed_removal_leaves_the_export_witness:
  "gs_files (runRequest demo_sha [] ''t'' ''f'' (demo_gdpr [False])) = [(''k'', JNull)]"
proof -
  have "\<forall>q \<in> set (db_gdpr (gdb (demo_gdpr [False]))). gr_resultKey q = Some ''k'' \<longrightarrow> names_contact ''t'' demo_contact_id q"
    by (simp add: demo_gdpr_def demo_request_def names_contact_def)
  moreover have "gs_store (demo_gdpr [False]) = [False]" "gs_files (demo_gdpr [False]) = [(''k'', JNull)]" by (simp_all add: demo_gdpr_def)
  ultimately show ?thesis
    using failed_removal_leaves_the_export[OF demo_gdpr_find[of "[False]"] demo_request_open refl _ demo_stale, where sha = demo_sha and contributors = "[]"] by simp
qed


end
