(* ===== verification/Contacts_Query.thy ===== *)
theory Contacts_Query
  imports Contact_Lists_Api
begin

text \<open>
  \<open>services/core/src/modules/contacts-query\<close>: reads over the contacts. A filter becomes a condition on a
  contact's data, true when Postgres evaluates the SQL to TRUE. The order of text under the
  database's collation is an argument (\<open>coll\<close>), as is the tenant's locale, which is identity's.
\<close>

section \<open>Parameters\<close>

definition DEFAULT_FIELDS :: "int list" where
  "DEFAULT_FIELDS = [1, 2, 3, 4]"

definition field_ids_message :: exn where
  "field_ids_message = HttpExc 400 ''fields must be up to 500 comma-separated field IDs''"

definition parseFieldIds :: "string option \<Rightarrow> int list option \<Rightarrow> exn + int list" where
  "parseFieldIds raw fallback =
    (if raw = None \<or> raw = Some [] then (case fallback of Some f \<Rightarrow> Inr f | None \<Rightarrow> Inl (HttpExc 400 ''fields is required''))
     else let parts = split_on (CHR '','') (the raw) in
       if list_ex (\<lambda>s. \<not> is_field_key (trim s)) parts \<or> 500 < length parts then Inl field_ids_message
       else Inr (uniq (map (\<lambda>s. digits_int (trim s)) parts)))"

definition inTenant :: "string option \<Rightarrow> exn + string" where
  "inTenant tenantId = (case tenantId of Some t \<Rightarrow> if is_uuid t then Inr t else Inl (HttpExc 400 ''tenant_id must be a UUID'')
     | None \<Rightarrow> Inl (HttpExc 400 ''tenant_id must be a UUID''))"

text \<open>
  \<open>pickFields\<close> passes two arguments per field to \<open>jsonb_build_object\<close>; Postgres refuses a call with
  more than 100 (\<open>FUNC_MAX_ARGS\<close>).
\<close>

definition FUNC_MAX_ARGS :: nat where
  "FUNC_MAX_ARGS = 100"

definition pickFields :: "int list \<Rightarrow> object \<Rightarrow> object" where
  "pickFields ids data = filter (\<lambda>kv. snd kv \<noteq> JNull) (pick data (map show_int ids))"

definition checkArgs :: "int list \<Rightarrow> unit act" where
  "checkArgs ids = (if FUNC_MAX_ARGS < 2 * length ids then throwM (PlainError ''cannot pass more than 100 arguments to a function'') else retM ())"

section \<open>Data by key and by id\<close>

definition row_with :: "string \<Rightarrow> string \<Rightarrow> db \<Rightarrow> contact option" where
  "row_with t i d = find (\<lambda>c. ct_id c = i) (live_contacts t d)"

definition data_row :: "int list \<Rightarrow> string \<Rightarrow> object \<Rightarrow> object" where
  "data_row ids i f = (''id'', JStr i) # map (\<lambda>n. (show_int n, case map_of f (show_int n) of None \<Rightarrow> JNull | Some v \<Rightarrow> v)) ids"

definition get_one :: "string \<Rightarrow> int list \<Rightarrow> (string \<times> string) list \<Rightarrow> db \<Rightarrow> nat \<Rightarrow> string \<Rightarrow> key_error + object" where
  "get_one t ids found d i key =
    (case Option.bind (map_of found key) (\<lambda>c. row_with t c d) of
       None \<Rightarrow> Inl \<lparr>ke_index = i, ke_key = key, ke_code = 2008, ke_text = ''no contact found for key '' @ key\<rparr>
     | Some c \<Rightarrow> Inr (data_row ids (ct_id c) (pickFields ids (ct_data c))))"

fun get_all :: "string \<Rightarrow> int list \<Rightarrow> (string \<times> string) list \<Rightarrow> db \<Rightarrow> nat \<Rightarrow> string list \<Rightarrow> object list \<times> key_error list" where
  "get_all t ids found d i [] = ([], [])"
| "get_all t ids found d i (k # ks) = (let (rs, es) = get_all t ids found d (Suc i) ks in
     case get_one t ids found d i k of Inl e \<Rightarrow> (rs, e # es) | Inr r \<Rightarrow> (r # rs, es))"

definition getData :: "string \<Rightarrow> string \<Rightarrow> string list \<Rightarrow> int list \<Rightarrow> (object list \<times> key_error list) act" where
  "getData t keyId keyValues ids =
    bindM (registryFields t) (\<lambda>defs.
      case find (\<lambda>f. field_of defs f = None) ids of
        Some f \<Rightarrow> throwM (PublicApi 2011 (''field '' @ show_int f @ '' does not exist'') 400)
      | None \<Rightarrow> bindM (resolve t keyId keyValues) (\<lambda>found.
          bindM (if found = [] then retM () else checkArgs ids) (\<lambda>_.
            readDb (\<lambda>d. get_all t ids found d 0 keyValues))))"

definition lookup :: "string \<Rightarrow> string list \<Rightarrow> int list \<Rightarrow> (string \<times> object) list act" where
  "lookup t wanted ids = bindM (checkArgs ids) (\<lambda>_. readDb (\<lambda>d.
     map (\<lambda>c. (ct_id c, pickFields ids (ct_data c))) (filter (\<lambda>c. list_ex (uuid_eq (ct_id c)) wanted) (live_contacts t d))))"

section \<open>Filters (\<open>filterSql\<close>)\<close>

datatype op = OpEq | OpNeq | OpContains | OpStartsWith | OpGt | OpGte | OpLt | OpLte | OpEmpty | OpNotEmpty

definition OPS :: "(string \<times> op) list" where
  "OPS = [(''eq'', OpEq), (''neq'', OpNeq), (''contains'', OpContains), (''starts_with'', OpStartsWith), (''gt'', OpGt), (''gte'', OpGte),
     (''lt'', OpLt), (''lte'', OpLte), (''empty'', OpEmpty), (''not_empty'', OpNotEmpty)]"

definition op_name :: "op \<Rightarrow> string" where
  "op_name o' = fst (the (find (\<lambda>p. snd p = o') OPS))"

definition type_name :: "field_type \<Rightarrow> string" where
  "type_name ty = (case ty of FText \<Rightarrow> ''text'' | FNumber \<Rightarrow> ''number'' | FDate \<Rightarrow> ''date'' | FBoolean \<Rightarrow> ''boolean''
     | FSingle \<Rightarrow> ''single_choice'' | FMulti \<Rightarrow> ''multi_choice'')"

text \<open>A comparison operator, on the order \<open>lt\<close>.\<close>

definition compare :: "('a \<Rightarrow> 'a \<Rightarrow> bool) \<Rightarrow> op \<Rightarrow> ('a \<Rightarrow> 'a \<Rightarrow> bool) option" where
  "compare lt o' = (case o' of
      OpGt \<Rightarrow> Some (\<lambda>x y. lt y x) | OpGte \<Rightarrow> Some (\<lambda>x y. lt y x \<or> x = y)
    | OpLt \<Rightarrow> Some lt | OpLte \<Rightarrow> Some (\<lambda>x y. lt x y \<or> x = y) | _ \<Rightarrow> None)"

definition num_less :: "jsnum \<Rightarrow> jsnum \<Rightarrow> bool" where
  "num_less a b \<longleftrightarrow> mant a * 10 ^ scale b < mant b * 10 ^ scale a"

text \<open>\<open>data ->> k\<close>; an array is its JSON text.\<close>

definition text_at :: "object \<Rightarrow> string \<Rightarrow> string option" where
  "text_at data k = (case map_of data k of
      Some (JArr vs) \<Rightarrow> Some (''['' @ join_with '', '' (map js_string vs) @ '']'') | v \<Rightarrow> json_text v)"

definition textFilter :: "(string \<Rightarrow> string \<Rightarrow> bool) \<Rightarrow> exn \<Rightarrow> field_type \<Rightarrow> string \<Rightarrow> op \<Rightarrow> string \<Rightarrow> exn + (object \<Rightarrow> bool)" where
  "textFilter coll bad ty k o' value =
    (if o' = OpEq then Inr (\<lambda>data. text_at data k = Some value)
     else if o' = OpNeq then Inr (\<lambda>data. text_at data k \<noteq> Some value)
     else if o' = OpContains \<and> ty = FText then Inr (\<lambda>data. case text_at data k of None \<Rightarrow> False | Some s \<Rightarrow> ilike s (like_pattern value))
     else if o' = OpStartsWith then Inr (\<lambda>data. case text_at data k of None \<Rightarrow> False | Some s \<Rightarrow> ilike s (like_escape value @ ''%''))
     else case compare coll o' of Some c \<Rightarrow> Inr (\<lambda>data. case text_at data k of None \<Rightarrow> False | Some s \<Rightarrow> c s value) | None \<Rightarrow> Inl bad)"

definition numberFilter :: "exn \<Rightarrow> string \<Rightarrow> op \<Rightarrow> string \<Rightarrow> exn + (object \<Rightarrow> bool)" where
  "numberFilter bad k o' value =
    (case js_number value of
       None \<Rightarrow> Inl (HttpExc 400 (''filter value for field '' @ k @ '' must be a number''))
     | Some n \<Rightarrow> if trim value = [] then Inl (HttpExc 400 (''filter value for field '' @ k @ '' must be a number''))
        else (let cmp = (if o' = OpEq then Some (=) else if o' = OpNeq then Some (\<noteq>) else compare num_less o') in
          case cmp of Some c \<Rightarrow> Inr (\<lambda>data. case map_of data k of Some (JNum m) \<Rightarrow> c m n | _ \<Rightarrow> False) | None \<Rightarrow> Inl bad))"

definition booleanFilter :: "exn \<Rightarrow> string \<Rightarrow> op \<Rightarrow> string \<Rightarrow> exn + (object \<Rightarrow> bool)" where
  "booleanFilter bad k o' value =
    (if o' \<noteq> OpEq \<and> o' \<noteq> OpNeq then Inl bad
     else Inr (\<lambda>data. case map_of data k of None \<Rightarrow> False
       | Some v \<Rightarrow> (v = JBool (value = ''true'' \<or> value = ''1'')) = (o' = OpEq)))"

definition choiceFilter :: "exn \<Rightarrow> choice list \<Rightarrow> string \<Rightarrow> op \<Rightarrow> string \<Rightarrow> exn + (object \<Rightarrow> bool)" where
  "choiceFilter bad choices k o' value =
    (if o' \<noteq> OpEq \<and> o' \<noteq> OpNeq then Inl bad
     else case find (\<lambda>c. show_int (ch_id c) = value \<or> ch_api_name c = value) choices of
       None \<Rightarrow> Inl (HttpExc 400 (''unknown option '' @ value @ '' for field '' @ k))
     | Some c \<Rightarrow> Inr (\<lambda>data. (case map_of data k of
          Some (JArr vs) \<Rightarrow> List.member vs (int_json (ch_id c)) | Some v \<Rightarrow> v = int_json (ch_id c) | None \<Rightarrow> False) = (o' = OpEq)))"

text \<open>\<open>^([1-9]\d*):([a-z_]+):(.*)$\<close>: field, operator and value, split at the first two colons.\<close>

definition parseFilter :: "string \<Rightarrow> (string \<times> op \<times> string) option" where
  "parseFilter raw = (case index_of (CHR '':'') raw of None \<Rightarrow> None
    | Some i \<Rightarrow> let k = take i raw; rest = drop (Suc i) raw in
       (case index_of (CHR '':'') rest of None \<Rightarrow> None
        | Some j \<Rightarrow> if is_field_key k then map_option (\<lambda>o'. (k, o', drop (Suc j) rest)) (map_of OPS (take j rest)) else None))"

definition filterSql :: "(string \<Rightarrow> string \<Rightarrow> bool) \<Rightarrow> field_def list \<Rightarrow> string \<Rightarrow> exn + (object \<Rightarrow> bool)" where
  "filterSql coll defs raw =
    (case parseFilter raw of
       None \<Rightarrow> Inl (HttpExc 400 (''invalid filter: '' @ raw))
     | Some (f, o', value) \<Rightarrow>
        (case field_of defs (digits_int f) of
           None \<Rightarrow> Inl (HttpExc 400 (''filter on unknown field '' @ f))
         | Some def \<Rightarrow>
            let k = show_int (fd_fieldId def);
                bad = HttpExc 400 (''operator '' @ op_name o' @ '' is not valid for '' @ type_name (fd_type def) @ '' field '' @ k) in
            if o' = OpEmpty then Inr (\<lambda>data. text_at data k = None \<or> text_at data k = Some [])
            else if o' = OpNotEmpty then Inr (\<lambda>data. text_at data k \<noteq> None \<and> text_at data k \<noteq> Some [])
            else (case fd_type def of
                FText \<Rightarrow> textFilter coll bad FText k o' value
              | FDate \<Rightarrow> textFilter coll bad FDate k o' value
              | FNumber \<Rightarrow> numberFilter bad k o' value
              | FBoolean \<Rightarrow> booleanFilter bad k o' value
              | _ \<Rightarrow> choiceFilter bad (fd_choices def) k o' value)))"

section \<open>Search\<close>

record search_params =
  sp_q :: "string option"
  sp_filters :: "string list"
  sp_fields :: "int list"
  sp_cursor :: "string option"
  sp_limit :: nat

record contact_dto =
  co_id :: string
  co_fields :: object
  co_version :: int
  co_created_at :: string
  co_updated_at :: string

definition toContactDto :: "object \<Rightarrow> contact \<Rightarrow> contact_dto" where
  "toContactDto f c = \<lparr>co_id = ct_id c, co_fields = f, co_version = ct_version c, co_created_at = iso_string (ct_createdAt c),
     co_updated_at = iso_string (ct_updatedAt c)\<rparr>"

definition matches_q :: "string \<Rightarrow> object \<Rightarrow> bool" where
  "matches_q q data \<longleftrightarrow> (let pat = like_escape q @ ''%'' in
     (case email_norm data of None \<Rightarrow> False | Some s \<Rightarrow> like (lower pat) s) \<or>
     (case text_at data ''1'' of None \<Rightarrow> False | Some s \<Rightarrow> ilike s pat) \<or> (case text_at data ''2'' of None \<Rightarrow> False | Some s \<Rightarrow> ilike s pat) \<or>
     (case external_id data of None \<Rightarrow> False | Some s \<Rightarrow> like pat s))"

fun filterAll :: "(string \<Rightarrow> string \<Rightarrow> bool) \<Rightarrow> field_def list \<Rightarrow> string list \<Rightarrow> exn + (object \<Rightarrow> bool)" where
  "filterAll coll defs [] = Inr (\<lambda>_. True)"
| "filterAll coll defs (r # rs) = (case filterSql coll defs r of Inl e \<Rightarrow> Inl e
     | Inr p \<Rightarrow> map_sum id (\<lambda>q data. p data \<and> q data) (filterAll coll defs rs))"

text \<open>The cursor: \<open>Date.parse\<close> is read on the text that \<open>encodeCursor\<close> writes.\<close>

definition encodeSearchCursor :: "int \<Rightarrow> string \<Rightarrow> string" where
  "encodeSearchCursor ts i = encodeCursor [iso_string ts, i]"

definition decodeSearchCursor :: "string \<Rightarrow> exn + (int \<times> string)" where
  "decodeSearchCursor c = (case decodeCursor c 2 of
      Inl e \<Rightarrow> Inl e
    | Inr ps \<Rightarrow> (case parse_iso (ps ! 0) of None \<Rightarrow> Inl (HttpExc 400 ''invalid cursor'')
        | Some ts \<Rightarrow> if is_uuid (ps ! 1) then Inr (ts, lower (ps ! 1)) else Inl (HttpExc 400 ''invalid cursor'')))"

definition newest_contacts :: "contact list \<Rightarrow> contact list" where
  "newest_contacts cs = rev (sort_key (\<lambda>c. (ct_updatedAt c, ct_id c)) cs)"

definition contacts_before :: "(int \<times> string) option \<Rightarrow> contact list \<Rightarrow> contact list" where
  "contacts_before k cs = (case k of None \<Rightarrow> cs | Some c \<Rightarrow> filter (\<lambda>x. (ct_updatedAt x, ct_id x) < c) cs)"

definition matching :: "string \<Rightarrow> string option \<Rightarrow> (object \<Rightarrow> bool) \<Rightarrow> db \<Rightarrow> contact list" where
  "matching t q p d = filter (\<lambda>c. (case q of None \<Rightarrow> True | Some s \<Rightarrow> s = [] \<or> matches_q s (ct_data c)) \<and> p (ct_data c)) (live_contacts t d)"

definition searchFilter :: "(string \<Rightarrow> string \<Rightarrow> bool) \<Rightarrow> string \<Rightarrow> string list \<Rightarrow> (object \<Rightarrow> bool) act" where
  "searchFilter coll t filters = (if filters = [] then retM (\<lambda>_. True)
     else bindM (registryFields t) (\<lambda>defs. liftE (filterAll coll defs filters)))"

definition search :: "(string \<Rightarrow> string \<Rightarrow> bool) \<Rightarrow> string \<Rightarrow> search_params \<Rightarrow> (contact_dto list \<times> string option) act" where
  "search coll t p =
    bindM (searchFilter coll t (sp_filters p)) (\<lambda>cond.
    bindM (liftE (case sp_cursor p of None \<Rightarrow> Inr None | Some c \<Rightarrow> if c = [] then Inr None else map_sum id Some (decodeSearchCursor c))) (\<lambda>after.
    bindM (checkArgs (sp_fields p)) (\<lambda>_.
      readDb (\<lambda>d. let rows = take (Suc (sp_limit p)) (contacts_before after (newest_contacts (matching t (sp_q p) cond d)));
          page = take (sp_limit p) rows in
        (map (\<lambda>c. toContactDto (pickFields (sp_fields p) (ct_data c)) c) page,
         if sp_limit p < length rows \<and> page \<noteq> [] then Some (encodeSearchCursor (ct_updatedAt (last page)) (ct_id (last page))) else None)))))"

section \<open>Profile\<close>

definition profile :: "(string \<Rightarrow> string option) \<Rightarrow> string \<Rightarrow> string \<Rightarrow>
    (contact_dto \<times> (string \<times> json option) list \<times> (string \<times> json) list \<times> (string \<times> string) list) act" where
  "profile defaultLocale t i =
    (if \<not> is_uuid i then throwM (HttpExc 404 ''contact not found'')
     else bindM (readDb (\<lambda>d. find (\<lambda>c. uuid_eq (ct_id c) i) (live_contacts t d))) (\<lambda>row.
       case row of None \<Rightarrow> throwM (HttpExc 404 ''contact not found'')
       | Some c \<Rightarrow> bindM (registryFields t) (\<lambda>defs. readDb (\<lambda>d.
           let locale = (case defaultLocale t of Some l \<Rightarrow> l | None \<Rightarrow> ''es'');
               labels = map (\<lambda>f. (show_int (fd_fieldId f), obj_get (fd_labels f) locale)) defs;
               consents = map (\<lambda>(ch, k). (ch, case map_of (ct_data c) k of Some (JNum n) \<Rightarrow> JNum n | _ \<Rightarrow> JNull)) [(''email'', ''31''), (''sms'', ''32''), (''push'', ''33'')];
               lists = map (\<lambda>l. (cl_id l, cl_name l)) (sort_key cl_name (filter (\<lambda>l. is_member (cl_id l) (ct_id c) d) (lists_in t d)))
           in (toContactDto (ct_data c) c, labels, consents, lists)))))"

section \<open>Stream (\<open>contact-stream.service.ts\<close>)\<close>

definition BATCH :: nat where
  "BATCH = 500"

definition stream_rows :: "string \<Rightarrow> string option \<Rightarrow> db \<Rightarrow> contact list" where
  "stream_rows t listId d = sort_key ct_id (filter (\<lambda>c. case listId of None \<Rightarrow> True
     | Some l \<Rightarrow> l = [] \<or> list_ex (\<lambda>m. mb_contact m = ct_id c \<and> uuid_eq (mb_list m) l \<and> mb_tenant m = t) (db_members d)) (live_contacts t d))"

definition stream_line :: "int list \<Rightarrow> contact \<Rightarrow> json" where
  "stream_line ids c = JObj [(''id'', JStr (ct_id c)), (''fields'', JObj (pickFields ids (ct_data c)))]"

text \<open>The loop over \<open>FETCH\<close>: \<open>closed n\<close> tells whether the reader is gone at the n-th fetch.\<close>

function fetchLoop :: "(nat \<Rightarrow> bool) \<Rightarrow> nat \<Rightarrow> 'a list \<Rightarrow> 'a list list" where
  "fetchLoop closed n rows = (if take BATCH rows = [] \<or> closed n then [] else take BATCH rows # fetchLoop closed (Suc n) (drop BATCH rows))"
  by auto

termination fetchLoop
  by (relation "measure (\<lambda>(_, _, rows). length rows)") (auto simp: BATCH_def)

declare fetchLoop.simps [simp del]

definition stream :: "(nat \<Rightarrow> bool) \<Rightarrow> string \<Rightarrow> int list \<Rightarrow> string option \<Rightarrow> json list list act" where
  "stream closed t ids listId = bindM (checkArgs ids) (\<lambda>_. readDb (\<lambda>d. fetchLoop closed 0 (map (stream_line ids) (stream_rows t listId d))))"

definition listExists :: "string \<Rightarrow> string \<Rightarrow> bool act" where
  "listExists t l = readDb (\<lambda>d. list_ex (\<lambda>x. uuid_eq (cl_id x) l) (lists_in t d))"

section \<open>Endpoints (\<open>contacts-query.controller.ts\<close>)\<close>

definition queryTenantOf :: "principal \<Rightarrow> exn + string" where
  "queryTenantOf = tenantOf ''operator principals cannot read tenant contacts''"

record getdata_body =
  gb_keyId :: string
  gb_keyValues :: "string list"
  gb_fields :: "int list"

definition parseFieldKey :: "json \<Rightarrow> int option" where
  "parseFieldKey v = (case v of JStr s \<Rightarrow> if is_field_key s then Some (digits_int s) else None | _ \<Rightarrow> None)"

definition getDataSchema :: "json \<Rightarrow> getdata_body option" where
  "getDataSchema v = (case v of
      JObj kvs \<Rightarrow> (case (map_of kvs ''keyId'', bounded 1000 (parseArray parseStr (map_of kvs ''keyValues'')), bounded 500 (parseArray parseFieldKey (map_of kvs ''fields''))) of
          (Some (JStr k), Some vs, Some fs) \<Rightarrow> if k = ''id'' \<or> is_digits k then Some \<lparr>gb_keyId = k, gb_keyValues = vs, gb_fields = fs\<rparr> else None
        | _ \<Rightarrow> None)
    | _ \<Rightarrow> None)"

definition publicGetData :: "principal \<Rightarrow> json \<Rightarrow> (object list \<times> key_error list) act" where
  "publicGetData p body = bindM (liftE (parseBody getDataSchema body)) (\<lambda>b. bindM (liftE (queryTenantOf p)) (\<lambda>t0. bindM (liftE (inTenant (Some t0))) (\<lambda>t.
     getData t (gb_keyId b) (gb_keyValues b) (uniq (gb_fields b)))))"

definition queryLimit :: "string option \<Rightarrow> exn + nat" where
  "queryLimit limit = (case limit of None \<Rightarrow> Inr 50
    | Some s \<Rightarrow> (case js_number s of
        Some n \<Rightarrow> if is_int_num n \<and> 1 \<le> mant n \<and> mant n \<le> 200 then Inr (nat (mant n)) else Inl (HttpExc 400 ''limit must be between 1 and 200'')
      | None \<Rightarrow> Inl (HttpExc 400 ''limit must be between 1 and 200'')))"

definition adminSearch :: "(string \<Rightarrow> string \<Rightarrow> bool) \<Rightarrow> principal \<Rightarrow> string option \<Rightarrow> string list \<Rightarrow> string option \<Rightarrow> string option \<Rightarrow> string option \<Rightarrow>
    (contact_dto list \<times> string option) act" where
  "adminSearch coll p q filters wanted cursor limit =
    (if 10 < length filters then throwM (HttpExc 400 ''at most 10 filters'')
     else bindM (liftE (queryLimit limit)) (\<lambda>n. bindM (liftE (parseFieldIds wanted (Some DEFAULT_FIELDS))) (\<lambda>ids.
       bindM (liftE (queryTenantOf p)) (\<lambda>t0. bindM (liftE (inTenant (Some t0))) (\<lambda>t.
         search coll t \<lparr>sp_q = q, sp_filters = filters, sp_fields = ids, sp_cursor = cursor, sp_limit = n\<rparr>)))))"

definition lookupSchema :: "json \<Rightarrow> (string \<times> string list \<times> int list) option" where
  "lookupSchema v = (case v of
      JObj kvs \<Rightarrow> (case (Option.bind (map_of kvs ''tenant_id'') parseUuid, bounded 5000 (parseArray parseUuid (map_of kvs ''contact_ids'')),
            bounded 500 (parseArray (\<lambda>x. case x of JNum n \<Rightarrow> if is_int_num n \<and> 1 \<le> mant n then Some (mant n) else None | _ \<Rightarrow> None) (map_of kvs ''field_ids''))) of
          (Some t, Some cs, Some fs) \<Rightarrow> Some (t, cs, fs) | _ \<Rightarrow> None)
    | _ \<Rightarrow> None)"

definition internalLookup :: "json \<Rightarrow> (string \<times> object) list act" where
  "internalLookup body = bindM (liftE (parseBody lookupSchema body)) (\<lambda>(t0, cs, fs). bindM (liftE (inTenant (Some t0))) (\<lambda>t. lookup t cs (uniq fs)))"

text \<open>The stream's response: before the headers an error is one, after them it cuts the connection.\<close>

datatype 'a response = Complete 'a | Cut

definition internalStream :: "(nat \<Rightarrow> bool) \<Rightarrow> string option \<Rightarrow> string option \<Rightarrow> string option \<Rightarrow> json list list response act" where
  "internalStream closed tenantId wanted listId =
    bindM (liftE (parseFieldIds wanted None)) (\<lambda>ids.
    if (case listId of None \<Rightarrow> False | Some l \<Rightarrow> \<not> is_uuid l) then throwM (HttpExc 400 ''list_id must be a UUID'')
    else bindM (liftE (inTenant tenantId)) (\<lambda>t.
      bindM (case listId of None \<Rightarrow> retM True | Some l \<Rightarrow> listExists t l) (\<lambda>known.
      if \<not> known then throwM (HttpExc 404 ''list not found'')
      else catchA (bindM (stream closed t ids listId) (\<lambda>chunks. retM (Complete chunks))) (\<lambda>_. retM Cut))))"

section \<open>Properties\<close>

lemma fetchLoop_all: "concat (fetchLoop (\<lambda>_. False) n rows) = rows"
proof (induction "\<lambda>_ :: nat. False" n rows rule: fetchLoop.induct)
  case (1 n rows)
  then show ?case by (subst fetchLoop.simps) (auto simp: BATCH_def)
qed

lemma fetchLoop_chunks: "c \<in> set (fetchLoop closed n rows) \<Longrightarrow> c \<noteq> [] \<and> length c \<le> BATCH"
proof (induction closed n rows rule: fetchLoop.induct)
  case (1 closed n rows)
  then show ?case by (subst (asm) (2) fetchLoop.simps) (auto split: if_splits)
qed

lemma fetchLoop_prefix: "\<exists>rest. concat (fetchLoop closed n rows) @ rest = rows"
proof (induction closed n rows rule: fetchLoop.induct)
  case (1 closed n rows)
  show ?case
  proof (cases "take BATCH rows = [] \<or> closed n")
    case True
    then show ?thesis by (subst fetchLoop.simps) auto
  next
    case False
    then obtain rest where "concat (fetchLoop closed (Suc n) (drop BATCH rows)) @ rest = drop BATCH rows" using 1 by blast
    then have "concat (fetchLoop closed n rows) @ rest = rows"
      using False by (subst fetchLoop.simps) (simp only: if_False concat.simps append.assoc append_take_drop_id)
    then show ?thesis by blast
  qed
qed



text \<open>The API accepts up to 500 fields, but a request for more than 50 fields that are all known fails
  as soon as one of its keys is found: the statement has two arguments per field and Postgres
  takes at most 100.\<close>

theorem many_fields_fail:
  assumes "registryFields t w = (Inr defs, w1)" and "\<forall>f \<in> set ids. field_of defs f \<noteq> None" and "resolve t keyId keys w1 = (Inr found, w2)"
    and "found \<noteq> []" and "50 < length ids"
  shows "getData t keyId keys ids w = (Inl (PlainError ''cannot pass more than 100 arguments to a function''), w2)"
proof -
  have "find (\<lambda>f. field_of defs f = None) ids = None" using assms(2) by (simp add: find_None_set)
  then show ?thesis using assms by (simp add: getData_def checkArgs_def FUNC_MAX_ARGS_def)
qed

definition demo_wide :: world where
  "demo_wide = demo_lists\<lparr>w_db := (w_db demo_lists)\<lparr>db_fields := map (\<lambda>n. demo_field n ''f'' True) [1..51]\<rparr>\<rparr>"

lemma many_fields_fail_witness: "\<exists>w2. getData ''t'' ''3'' [''a''] [1..51] demo_wide = (Inl (PlainError ''cannot pass more than 100 arguments to a function''), w2)"
proof -
  let ?defs = "map (\<lambda>n. demo_field n ''f'' True) [1..51]"
  have l: "live_fields ''t'' (w_db demo_wide) = ?defs"
    unfolding live_fields_def demo_wide_def by (simp add: demo_field_def filter_map comp_def sort_key_id_if_sorted)
  obtain w1 where r: "registryFields ''t'' demo_wide = (Inr ?defs, w1)" and c: "w_cache w1 = [(''t'', ?defs)]" and db: "w_db w1 = w_db demo_wide"
    by (simp add: registryFields_def demo_wide_def demo_lists_def demo_world_def Let_def l[unfolded demo_wide_def demo_lists_def demo_world_def, simplified])
  have known: "field_of ?defs f \<noteq> None" if "f \<in> set [1..51]" for f
    using that by (auto simp: field_of_def find_None_set demo_field_def)
  obtain f where f: "field_of ?defs 3 = Some f" using known[of 3] by fastforce
  then have u: "fd_unique f" by (auto simp: field_of_def demo_field_def dest!: find_Some_set)
  have d: "is_digits ''3''" "digits_int ''3'' = 3" by code_simp+
  have "resolveKeys ''t'' ''3'' [''a''] (w_db demo_lists) = [(''a'', demo_contact_id)]" by code_simp
  moreover have "live_contacts ''t'' (d\<lparr>db_fields := x\<rparr>) = live_contacts ''t'' d" for d x by (simp add: live_contacts_def)
  then have "keyRows ''t'' ''3'' ks (d\<lparr>db_fields := x\<rparr>) = keyRows ''t'' ''3'' ks d" for ks d x by (simp add: keyRows_def)
  then have "resolveKeys ''t'' ''3'' [''a''] (w_db demo_wide) = resolveKeys ''t'' ''3'' [''a''] (w_db demo_lists)"
    by (simp add: demo_wide_def resolveKeys_def cong: if_cong)
  ultimately have "resolve ''t'' ''3'' [''a''] w1 = (Inr [(''a'', demo_contact_id)], w1)"
    using c f u d db by (simp add: resolve_def assertKey_def registryFields_def bindM_def)
  from many_fields_fail[OF r _ this] known show ?thesis by simp
qed

end
