(* ===== verification/Keyring.thy ===== *)
theory Keyring
  imports Cursor_Codec
begin

text \<open>
  The master key ring of \<open>packages/ts-common/src/keyring\<close>: parsing the key list of the
  environment, deriving tenant keys, and sealing secrets. Bytes are numbers below 256.
  \<open>node:crypto\<close> is outside the sources: HKDF-SHA256 is the parameter \<open>hkdf key info\<close>, AES-256-GCM
  the parameters \<open>gcm key nonce plaintext\<close>, which gives ciphertext and tag, and
  \<open>gcm_open key nonce ciphertext tag\<close>, None when the tag does not fit.
\<close>

type_synonym bytes = "nat list"

definition KEY_SIZE :: nat where
  "KEY_SIZE = 32"

definition VERSION :: string where
  "VERSION = ''v1''"

record keyring =
  kr_keys :: "(string \<times> bytes) list"
  kr_active :: string

definition in_quotes :: "string \<Rightarrow> string" where
  "in_quotes s = chr 34 # s @ [chr 34]"

definition unknownKid :: "string \<Rightarrow> exn" where
  "unknownKid kid = PlainError (''keyring: unknown kid '' @ in_quotes kid)"

definition malformedEnvelope :: exn where
  "malformedEnvelope = PlainError ''keyring: malformed envelope''"

section \<open>Building the ring\<close>

definition kid_separator :: "char \<Rightarrow> bool" where
  "kid_separator c \<longleftrightarrow> List.member ''.,: '' c"

fun checkKeys :: "(string \<times> bytes) list \<Rightarrow> exn + unit" where
  "checkKeys [] = Inr ()"
| "checkKeys ((kid, key) # ks) =
    (if kid = [] \<or> list_ex kid_separator kid then Inl (PlainError (''keyring: invalid kid '' @ in_quotes kid))
     else if length key \<noteq> KEY_SIZE then
       Inl (PlainError (''keyring: key '' @ in_quotes kid @ '' is '' @ show_nat (length key) @ '' bytes, want '' @ show_nat KEY_SIZE))
     else checkKeys ks)"

definition newKeyring :: "(string \<times> bytes) list \<Rightarrow> string \<Rightarrow> exn + keyring" where
  "newKeyring ks active =
    (if active = [] then Inl (PlainError ''keyring: OE_MASTER_KEY_ID is empty'')
     else case checkKeys ks of Inl e \<Rightarrow> Inl e
     | Inr _ \<Rightarrow> if map_of ks active = None then Inl (PlainError (''keyring: active kid '' @ in_quotes active @ '' is not in the ring''))
         else Inr \<lparr>kr_keys = ks, kr_active = active\<rparr>)"

text \<open>\<open>toString('base64')\<close>, which pads and has two other letters than base64url.\<close>

definition std_char :: "char \<Rightarrow> char" where
  "std_char c = (if c = CHR ''-'' then CHR ''+'' else if c = CHR ''_'' then CHR ''/'' else c)"

definition base64 :: "bytes \<Rightarrow> string" where
  "base64 bs = map std_char (b64_encode bs) @ replicate ((3 - length bs mod 3) mod 3) CHR ''=''"

definition parseEntry :: "string \<Rightarrow> (string \<times> bytes) list \<Rightarrow> exn + (string \<times> bytes)" where
  "parseEntry entry ks =
    (let trimmed = trim entry in
     case index_of CHR '':'' trimmed of
       None \<Rightarrow> Inl (PlainError (''keyring: entry '' @ in_quotes entry @ '' is not kid:base64''))
     | Some i \<Rightarrow>
         (let kid = take i trimmed; b64 = drop (Suc i) trimmed; key = b64_decode b64 in
          if base64 key \<noteq> b64 then Inl (PlainError (''keyring: key '' @ in_quotes kid @ '' is not valid base64''))
          else if map_of ks kid \<noteq> None then Inl (PlainError (''keyring: duplicate kid '' @ in_quotes kid))
          else Inr (kid, key)))"

fun parseEntries :: "string list \<Rightarrow> (string \<times> bytes) list \<Rightarrow> exn + (string \<times> bytes) list" where
  "parseEntries [] ks = Inr ks"
| "parseEntries (e # es) ks = (case parseEntry e ks of Inl err \<Rightarrow> Inl err | Inr k \<Rightarrow> parseEntries es (ks @ [k]))"

definition parseKeyring :: "string \<Rightarrow> string \<Rightarrow> exn + keyring" where
  "parseKeyring spec active =
    (if trim spec = [] then Inl (PlainError ''keyring: OE_MASTER_KEYS is empty'')
     else case parseEntries (split_on CHR '','' spec) [] of Inl e \<Rightarrow> Inl e | Inr ks \<Rightarrow> newKeyring ks active)"

definition fromEnv :: "(string \<Rightarrow> string option) \<Rightarrow> exn + keyring" where
  "fromEnv env = parseKeyring (case env ''OE_MASTER_KEYS'' of None \<Rightarrow> [] | Some s \<Rightarrow> s) (case env ''OE_MASTER_KEY_ID'' of None \<Rightarrow> [] | Some s \<Rightarrow> s)"

section \<open>Keys and envelopes\<close>

definition key_of :: "keyring \<Rightarrow> string \<Rightarrow> bytes" where
  "key_of r kid = (case map_of (kr_keys r) kid of None \<Rightarrow> [] | Some k \<Rightarrow> k)"

definition derive :: "(bytes \<Rightarrow> string \<Rightarrow> bytes) \<Rightarrow> keyring \<Rightarrow> string \<Rightarrow> string \<Rightarrow> exn + bytes" where
  "derive hkdf r purpose tenantId =
    (if \<not> is_uuid tenantId then Inl (PlainError (''keyring: tenant id '' @ in_quotes tenantId @ '' is not a uuid''))
     else Inr (hkdf (key_of r (kr_active r)) (''oe/'' @ purpose @ ''/'' @ lower tenantId)))"

definition seal :: "(bytes \<Rightarrow> string \<Rightarrow> bytes) \<Rightarrow> (bytes \<Rightarrow> bytes \<Rightarrow> bytes \<Rightarrow> bytes \<times> bytes) \<Rightarrow> keyring \<Rightarrow> string \<Rightarrow> bytes \<Rightarrow> bytes \<Rightarrow> string" where
  "seal hkdf gcm r purpose plaintext nonce =
    (case gcm (hkdf (key_of r (kr_active r)) (''oe-seal/'' @ purpose)) nonce plaintext of (ct, tag) \<Rightarrow>
       join_with ''.'' [VERSION, kr_active r, b64_encode nonce, b64_encode (ct @ tag)])"

definition fromB64url :: "string \<Rightarrow> exn + bytes" where
  "fromB64url s = (let b = b64_decode s in if b64_encode b = s then Inr b else Inl malformedEnvelope)"

definition open_sealed :: "(bytes \<Rightarrow> string \<Rightarrow> bytes) \<Rightarrow> (bytes \<Rightarrow> bytes \<Rightarrow> bytes \<Rightarrow> bytes \<Rightarrow> bytes option) \<Rightarrow> keyring \<Rightarrow> string \<Rightarrow> string \<Rightarrow> exn + bytes" where
  "open_sealed hkdf gcm_open r purpose sealed =
    (case split_on CHR ''.'' sealed of
       [version, kid, n, c] \<Rightarrow>
         if version \<noteq> VERSION then Inl malformedEnvelope
         else (case map_of (kr_keys r) kid of None \<Rightarrow> Inl (unknownKid kid)
         | Some key \<Rightarrow> (case fromB64url n of Inl e \<Rightarrow> Inl e
         | Inr nonce \<Rightarrow> (case fromB64url c of Inl e \<Rightarrow> Inl e
         | Inr ct \<Rightarrow>
             if length nonce \<noteq> 12 \<or> length ct < 16 then Inl malformedEnvelope
             else (case gcm_open (hkdf key (''oe-seal/'' @ purpose)) nonce (take (length ct - 16) ct) (drop (length ct - 16) ct) of
               None \<Rightarrow> Inl (PlainError ''keyring: decryption failed'') | Some p \<Rightarrow> Inr p))))
     | _ \<Rightarrow> Inl malformedEnvelope)"

section \<open>Lemmas\<close>

lemma checkKeys_kid: "checkKeys ks = Inr () \<Longrightarrow> (kid, key) \<in> set ks \<Longrightarrow> \<not> list_ex kid_separator kid \<and> length key = KEY_SIZE"
  by (induction ks rule: checkKeys.induct) (auto split: if_splits)

lemma newKeyring_active:
  assumes "newKeyring ks a = Inr r"
  shows "kr_active r = a \<and> kr_keys r = ks \<and> CHR ''.'' \<notin> set a \<and> (\<exists>key. map_of ks a = Some key)"
proof -
  from assms have r: "checkKeys ks = Inr ()" "map_of ks a \<noteq> None" "r = \<lparr>kr_keys = ks, kr_active = a\<rparr>"
    by (auto simp: newKeyring_def split: if_splits sum.splits)
  then obtain key where key: "map_of ks a = Some key" by blast
  from checkKeys_kid[OF r(1) map_of_SomeD[OF key]] have "CHR ''.'' \<notin> set a" by (auto simp: list_ex_iff kid_separator_def)
  then show ?thesis using r key by simp
qed

lemma split_on_id: "c \<notin> set s \<Longrightarrow> split_on c s = [s]"
  by (induction s rule: split_on.induct) auto

lemma split_on_append: "d \<notin> set w \<Longrightarrow> split_on d (w @ d # s) = w # split_on d s"
  by (induction w) auto

lemma split_on_join: "ws \<noteq> [] \<Longrightarrow> \<forall>w \<in> set ws. d \<notin> set w \<Longrightarrow> split_on d (join_with [d] ws) = ws"
proof (induction ws rule: induct_list012)
  case (3 w v ws)
  then show ?case by (simp add: split_on_append)
qed (simp_all add: split_on_id)

lemma b64_no_dot: "\<forall>b \<in> set bs. b < 256 \<Longrightarrow> CHR ''.'' \<notin> set (b64_encode bs)"
proof
  assume bs: "\<forall>b \<in> set bs. b < 256" and "CHR ''.'' \<in> set (b64_encode bs)"
  then obtain v where v: "v \<in> set (b64_sextets bs)" "b64_char v = CHR ''.''" by (auto simp: b64_encode_def)
  from b64_val_char[OF b64_sextets_less[OF bs v(1)]] show False
    by (simp add: v(2) b64_val_def upper_alpha_def lower_alpha_def digit_char_def code_def)
qed

lemma fromB64url_encode: "\<forall>b \<in> set bs. b < 256 \<Longrightarrow> fromB64url (b64_encode bs) = Inr bs"
  by (simp add: fromB64url_def Let_def b64_roundtrip)

lemma split_envelope:
  assumes "CHR ''.'' \<notin> set kid" and "\<forall>b \<in> set n. b < 256" and "\<forall>b \<in> set c. b < 256"
  shows "split_on CHR ''.'' (join_with ''.'' [VERSION, kid, b64_encode n, b64_encode c]) = [VERSION, kid, b64_encode n, b64_encode c]"
  using assms b64_no_dot by (intro split_on_join) (auto simp: VERSION_def)

section \<open>Properties\<close>

text \<open>What the code relies on of AES-256-GCM: a tag of 16 bytes, bytes for bytes, and decryption of
  what was encrypted under the same key and nonce.\<close>

definition gcm_ok :: "(bytes \<Rightarrow> bytes \<Rightarrow> bytes \<Rightarrow> bytes \<times> bytes) \<Rightarrow> (bytes \<Rightarrow> bytes \<Rightarrow> bytes \<Rightarrow> bytes \<Rightarrow> bytes option) \<Rightarrow> bytes \<Rightarrow> bytes \<Rightarrow> bytes \<Rightarrow> bool" where
  "gcm_ok gcm gcm_open key nonce p \<longleftrightarrow> (case gcm key nonce p of (ct, tag) \<Rightarrow>
     length tag = 16 \<and> list_all (\<lambda>b. b < 256) (ct @ tag) \<and> gcm_open key nonce ct tag = Some p)"

text \<open>C22. A sealed secret opens again, also after the active key was rotated: in a ring that still has
  the key the value was sealed with, under the same kid, opening gives the plaintext back; in a
  ring that has dropped the kid it says which kid is unknown. A value whose kid, nonce or
  ciphertext was cut off is refused as malformed.\<close>

theorem sealed_values_open:
  assumes "newKeyring ks a = Inr old" and "newKeyring ks' a' = Inr new"
    and "gcm_ok gcm gcm_open (hkdf (key_of old a) (''oe-seal/'' @ purpose)) nonce p"
    and "length nonce = 12" and "list_all (\<lambda>b. b < 256) nonce" and "sealed = seal hkdf gcm old purpose p nonce"
  shows "(map_of ks' a = map_of ks a \<longrightarrow> open_sealed hkdf gcm_open new purpose sealed = Inr p) \<and>
    (map_of ks' a = None \<longrightarrow> open_sealed hkdf gcm_open new purpose sealed = Inl (unknownKid a)) \<and>
    (\<forall>n < length (split_on CHR ''.'' sealed). open_sealed hkdf gcm_open new purpose
       (join_with ''.'' (take n (split_on CHR ''.'' sealed))) = Inl malformedEnvelope)"
proof -
  obtain ct tag where g: "gcm (hkdf (key_of old a) (''oe-seal/'' @ purpose)) nonce p = (ct, tag)" by fastforce
  with assms(3) have ok: "length tag = 16" "\<forall>b \<in> set (ct @ tag). b < 256"
    "gcm_open (hkdf (key_of old a) (''oe-seal/'' @ purpose)) nonce ct tag = Some p"
    by (simp_all add: gcm_ok_def list_all_iff)
  note o = newKeyring_active[OF assms(1)] and n = newKeyring_active[OF assms(2)]
  have nonce: "\<forall>b \<in> set nonce. b < 256" using assms(5) by (simp add: list_all_iff)
  have dots: "CHR ''.'' \<notin> set a" using o by blast
  define parts where "parts = [VERSION, a, b64_encode nonce, b64_encode (ct @ tag)]"
  have sealed: "sealed = join_with ''.'' parts"
    using o g by (simp add: assms(6) seal_def parts_def)
  have sp: "split_on CHR ''.'' sealed = parts"
    unfolding sealed parts_def by (rule split_envelope[OF dots nonce ok(2)])
  have key: "key_of old a = key" if "map_of ks a = Some key" for key
    using o that by (simp add: key_of_def)
  have opens: "open_sealed hkdf gcm_open new purpose sealed = Inr p" if "map_of ks' a = map_of ks a"
    using that o n key ok fromB64url_encode[OF nonce] fromB64url_encode[OF ok(2)] assms(4)
    unfolding open_sealed_def sp parts_def by auto
  have unknown: "open_sealed hkdf gcm_open new purpose sealed = Inl (unknownKid a)" if "map_of ks' a = None"
    using that n unfolding open_sealed_def sp parts_def by simp
  have dotfree: "\<forall>w \<in> set parts. CHR ''.'' \<notin> set w"
    using dots b64_no_dot[OF nonce] b64_no_dot[OF ok(2)] by (simp add: parts_def VERSION_def)
  have cut: "open_sealed hkdf gcm_open new purpose (join_with ''.'' (take i parts)) = Inl malformedEnvelope" if "i < length parts" for i
  proof (cases "i = 0")
    case True
    then show ?thesis by (simp add: open_sealed_def)
  next
    case False
    then have "split_on CHR ''.'' (join_with ''.'' (take i parts)) = take i parts"
      using dotfree that by (intro split_on_join) (auto dest: in_set_takeD)
    moreover have "i = 1 \<or> i = 2 \<or> i = 3" using False that by (auto simp: parts_def)
    ultimately show ?thesis by (auto simp: open_sealed_def parts_def)
  qed
  show ?thesis using opens unknown cut unfolding sp by auto
qed

lemma sealed_values_open_witness:
  "open_sealed (\<lambda>k i. k) (\<lambda>k n c t. Some c) \<lparr>kr_keys = [(''k2'', replicate 32 2), (''k1'', replicate 32 1)], kr_active = ''k2''\<rparr> ''dkim''
     (seal (\<lambda>k i. k) (\<lambda>k n p. (p, replicate 16 0)) \<lparr>kr_keys = [(''k1'', replicate 32 1)], kr_active = ''k1''\<rparr> ''dkim'' [7, 8] (replicate 12 0)) = Inr [7, 8]"
proof -
  have 1: "newKeyring [(''k1'', replicate 32 1)] ''k1'' = Inr \<lparr>kr_keys = [(''k1'', replicate 32 1)], kr_active = ''k1''\<rparr>"
    by (simp add: newKeyring_def KEY_SIZE_def kid_separator_def)
  have 2: "newKeyring [(''k2'', replicate 32 2), (''k1'', replicate 32 1)] ''k2'' =
      Inr \<lparr>kr_keys = [(''k2'', replicate 32 2), (''k1'', replicate 32 1)], kr_active = ''k2''\<rparr>"
    by (simp add: newKeyring_def KEY_SIZE_def kid_separator_def)
  have 3: "gcm_ok (\<lambda>k n p. (p, replicate 16 0)) (\<lambda>k n c t. Some c) key (replicate 12 0) [7, 8]" for key
    by (simp add: gcm_ok_def list_all_iff)
  show ?thesis
    using sealed_values_open[OF 1 2 3, where hkdf = "\<lambda>k i. k" and purpose = "''dkim''" and sealed = "seal (\<lambda>k i. k) (\<lambda>k n p. (p, replicate 16 0)) \<lparr>kr_keys = [(''k1'', replicate 32 1)], kr_active = ''k1''\<rparr> ''dkim'' [7, 8] (replicate 12 0)"]
    by (simp add: list_all_iff)
qed

end
