(* ===== verification/Identity_Db.thy ===== *)
theory Identity_Db
  imports Auth_Lib Http_Lib Cursor_Codec "HOL-Library.List_Lexorder" "HOL-Library.Char_ord"
begin

text \<open>
  The identity schema (\<open>services/core/prisma/schema/identity.prisma\<close>): one record per model, the
  tables as lists in row order, and the world the identity services run in. A query made inside
  \<open>TenantContext.run t\<close> sees the rows whose tenant is \<open>t\<close> (row level security); one made under
  \<open>withSystemScope\<close> sees every row.
\<close>

section \<open>Rows\<close>

datatype user_status = UInvited | UActive | UDisabled

record user =
  us_id :: string
  us_tenant :: "string option"
  us_email :: string
  us_name :: "string option"
  us_passwordHash :: "string option"
  us_mfaSecret :: "string option"
  us_mfaEnabled :: bool
  us_locale :: string
  us_status :: user_status
  us_failedLogins :: nat
  us_lockedUntil :: "int option"
  us_lastLoginAt :: "int option"
  us_createdAt :: int

record role =
  ro_id :: string
  ro_tenant :: "string option"
  ro_name :: string
  ro_isDefault :: bool
  ro_createdAt :: int

record grant =
  gt_role :: string
  gt_tenant :: "string option"
  gt_module :: string
  gt_action :: string

record user_role =
  ur_user :: string
  ur_role :: string
  ur_tenant :: "string option"

record api_client =
  ac_id :: string
  ac_tenant :: string
  ac_clientId :: string
  ac_name :: string
  ac_secretHash :: string
  ac_scopes :: "string list"
  ac_revokedAt :: "int option"
  ac_lastUsedAt :: "int option"
  ac_createdAt :: int

record refresh_token =
  rf_id :: string
  rf_tenant :: "string option"
  rf_user :: string
  rf_family :: string
  rf_hash :: string
  rf_expiresAt :: int
  rf_rotatedAt :: "int option"
  rf_revokedAt :: "int option"

record invitation =
  iv_id :: string
  iv_tenant :: string
  iv_user :: "string option"
  iv_email :: string
  iv_hash :: string
  iv_roleIds :: "string list"
  iv_invitedBy :: "string option"
  iv_expiresAt :: int
  iv_acceptedAt :: "int option"

record recovery_code =
  rc_user :: string
  rc_tenant :: "string option"
  rc_hash :: string
  rc_usedAt :: "int option"

record tenant =
  tn_id :: string
  tn_name :: string
  tn_timezone :: string
  tn_locale :: string
  tn_limits :: json
  tn_suspended :: bool
  tn_createdAt :: int

record audit_row =
  au_id :: string
  au_tenant :: "string option"
  au_actorType :: string
  au_actorId :: string
  au_action :: string
  au_resourceType :: string
  au_resourceId :: "string option"
  au_diff :: "json option"
  au_ip :: "string option"
  au_at :: int

record idb =
  id_tenants :: "tenant list"
  id_users :: "user list"
  id_roles :: "role list"
  id_grants :: "grant list"
  id_userRoles :: "user_role list"
  id_clients :: "api_client list"
  id_tokens :: "refresh_token list"
  id_invitations :: "invitation list"
  id_codes :: "recovery_code list"
  id_audit :: "audit_row list"

text \<open>
  \<open>iw_rand\<close> gives the values still to be drawn at random: row ids, \<open>randomUUID()\<close> and the
  encoded \<open>randomBytes\<close> of secrets. \<open>iw_mails\<close> are the mails sent, \<open>iw_events\<close> the events published
  with the tenant they are for.
\<close>

record iworld =
  iw_db :: idb
  iw_rand :: "nat \<Rightarrow> string"
  iw_next :: nat
  iw_now :: int
  iw_mails :: "(string \<times> string) list"
  iw_events :: "(string \<times> string \<times> json) list"

type_synonym 'a iact = "(iworld, 'a) comp"

section \<open>Statements\<close>

definition draw :: "string iact" where
  "draw w = (Inr (iw_rand w (iw_next w)), w\<lparr>iw_next := Suc (iw_next w)\<rparr>)"

definition readI :: "(idb \<Rightarrow> 'a) \<Rightarrow> 'a iact" where
  "readI f = getM (\<lambda>w. f (iw_db w))"

definition onI :: "(idb \<Rightarrow> idb) \<Rightarrow> unit iact" where
  "onI f = modifyM (\<lambda>w. w\<lparr>iw_db := f (iw_db w)\<rparr>)"

text \<open>A transaction that throws leaves the database as it was; what was drawn stays drawn.\<close>

definition transactionI :: "'a iact \<Rightarrow> 'a iact" where
  "transactionI m w = (case m w of (Inl e, w') \<Rightarrow> (Inl e, w'\<lparr>iw_db := iw_db w\<rparr>) | (Inr a, w') \<Rightarrow> (Inr a, w'))"

text \<open>\<open>user.update\<close> with a \<open>where\<close> of one id: Prisma throws when no row matches.\<close>

definition notFoundError :: exn where
  "notFoundError = PlainError ''P2025: record not found''"

definition find_user :: "string \<Rightarrow> idb \<Rightarrow> user option" where
  "find_user i d = find (\<lambda>u. us_id u = i) (id_users d)"

definition updateUserRow :: "string \<Rightarrow> (user \<Rightarrow> user) \<Rightarrow> unit iact" where
  "updateUserRow i f = bindM (readI (find_user i)) (\<lambda>u. case u of None \<Rightarrow> throwM notFoundError
     | Some _ \<Rightarrow> onI (\<lambda>d. d\<lparr>id_users := map (\<lambda>u. if us_id u = i then f u else u) (id_users d)\<rparr>))"

definition findUserOrThrow :: "string \<Rightarrow> user iact" where
  "findUserOrThrow i = bindM (readI (find_user i)) (\<lambda>u. case u of None \<Rightarrow> throwM notFoundError | Some u \<Rightarrow> retM u)"

definition tenant_of :: "user \<Rightarrow> idb \<Rightarrow> tenant option" where
  "tenant_of u d = find (\<lambda>t. Some (tn_id t) = us_tenant u) (id_tenants d)"

definition roles_of :: "string \<Rightarrow> idb \<Rightarrow> string list" where
  "roles_of i d = map ur_role (filter (\<lambda>r. ur_user r = i) (id_userRoles d))"

definition grant_name :: "grant \<Rightarrow> string" where
  "grant_name g = gt_module g @ '':'' @ gt_action g"

definition grants_of :: "string \<Rightarrow> idb \<Rightarrow> grant list" where
  "grants_of i d = filter (\<lambda>g. List.member (roles_of i d) (gt_role g)) (id_grants d)"

text \<open>The cursors of the identity lists: one id in base64url.\<close>

definition encodeIdCursor :: "string \<Rightarrow> string" where
  "encodeIdCursor i = b64_encode (utf8_bytes i)"

definition decodeIdCursor :: "string \<Rightarrow> string option" where
  "decodeIdCursor c = utf8_text (b64_decode c)"

lemma id_cursor_roundtrip: "decodeIdCursor (encodeIdCursor i) = Some i"
  by (simp add: decodeIdCursor_def encodeIdCursor_def b64_roundtrip utf8_bytes_less utf8_roundtrip)

section \<open>Lemmas\<close>

lemma draw_apply [simp]: "draw w = (Inr (iw_rand w (iw_next w)), w\<lparr>iw_next := Suc (iw_next w)\<rparr>)"
  by (simp add: draw_def)

lemma readI_apply [simp]: "readI f w = (Inr (f (iw_db w)), w)"
  by (simp add: readI_def)

lemma onI_apply [simp]: "onI f w = (Inr (), w\<lparr>iw_db := f (iw_db w)\<rparr>)"
  by (simp add: onI_def)

lemma bindM_readI [simp]: "bindM (readI f) g w = g (f (iw_db w)) w"
  by (simp add: bindM_def)

lemma transactionI_Inr: "transactionI m w = (Inr a, w') \<longleftrightarrow> m w = (Inr a, w')"
  by (auto simp: transactionI_def split: prod.splits sum.splits)

lemma transactionI_Inl: "transactionI m w = (Inl e, w') \<longleftrightarrow> (\<exists>v. m w = (Inl e, v) \<and> w' = v\<lparr>iw_db := iw_db w\<rparr>)"
  by (auto simp: transactionI_def split: prod.splits sum.splits)

lemmas icomp_results = comp_results transactionI_Inr transactionI_Inl

lemma find_user_id: "find_user i d = Some u \<Longrightarrow> us_id u = i \<and> u \<in> set (id_users d)"
  by (auto simp: find_user_def find_Some_iff)

lemma updateUserRow_Inr: "updateUserRow i f w = (Inr x, w') \<longleftrightarrow>
    find_user i (iw_db w) \<noteq> None \<and> w' = w\<lparr>iw_db := (iw_db w)\<lparr>id_users := map (\<lambda>u. if us_id u = i then f u else u) (id_users (iw_db w))\<rparr>\<rparr>"
  by (auto simp: updateUserRow_def split: option.splits)

lemma updateUserRow_Inl: "updateUserRow i f w = (Inl e, w') \<longleftrightarrow> find_user i (iw_db w) = None \<and> e = notFoundError \<and> w' = w"
  by (auto simp: updateUserRow_def split: option.splits)

lemma findUserOrThrow_Inr: "findUserOrThrow i w = (Inr u, w') \<longleftrightarrow> find_user i (iw_db w) = Some u \<and> w' = w"
  by (auto simp: findUserOrThrow_def split: option.splits)

lemma findUserOrThrow_Inl: "findUserOrThrow i w = (Inl e, w') \<longleftrightarrow> find_user i (iw_db w) = None \<and> e = notFoundError \<and> w' = w"
  by (auto simp: findUserOrThrow_def split: option.splits)

lemma find_user_map:
  assumes "\<And>u. us_id (f u) = us_id u"
  shows "find_user i (d\<lparr>id_users := map f (id_users d)\<rparr>) = map_option f (find_user i d)"
proof -
  have "find (\<lambda>u. us_id u = i) (map f us) = map_option f (find (\<lambda>u. us_id u = i) us)" for us
    using assms by (induction us) auto
  then show ?thesis by (simp add: find_user_def)
qed

end
