(* ===== verification/Roles.thy ===== *)
theory Roles
  imports Identity_Db Contact_Lists_Api
begin

text \<open>
  The permission catalog (\<open>identity-shared/permissions.ts\<close>), the default roles of a new tenant
  (\<open>tenants/default-roles.ts\<close>) and the roles service with its schemas and controller
  (\<open>modules/roles\<close>). A role carries a list of (module, action) pairs.
\<close>

type_synonym permission = "string \<times> string"

section \<open>The catalog\<close>

definition PERMISSION_MODULES :: "string list" where
  "PERMISSION_MODULES = [''platform'', ''identity'', ''contacts'', ''events'', ''segments'', ''email'', ''campaigns'', ''automation'',
     ''predict'', ''channels'', ''analytics'', ''loyalty'', ''integrations'']"

definition PERMISSION_ACTIONS :: "string list" where
  "PERMISSION_ACTIONS = [''view'', ''edit'', ''launch'', ''admin'']"

section \<open>Statements on roles\<close>

text \<open>A path parameter that is no UUID makes Postgres refuse the query; ids compare as UUIDs.\<close>

definition castI :: "string \<Rightarrow> string iact" where
  "castI i = liftE (as_uuid i)"

definition roles_in :: "string \<Rightarrow> idb \<Rightarrow> role list" where
  "roles_in t d = filter (\<lambda>r. ro_tenant r = Some t) (id_roles d)"

definition find_role :: "string \<Rightarrow> string \<Rightarrow> idb \<Rightarrow> role option" where
  "find_role t i d = find (\<lambda>r. ro_id r = i) (roles_in t d)"

text \<open>The primary key and \<open>roles_tenant_id_name_key\<close>.\<close>

definition role_name_taken :: "string \<Rightarrow> string \<Rightarrow> string \<Rightarrow> idb \<Rightarrow> bool" where
  "role_name_taken t i name d \<longleftrightarrow> list_ex (\<lambda>r. ro_tenant r = Some t \<and> ro_name r = name \<and> ro_id r \<noteq> i) (id_roles d)"

definition insertRole :: "string \<Rightarrow> string \<Rightarrow> bool \<Rightarrow> string iact" where
  "insertRole t name isDefault = bindM draw (\<lambda>i. bindM (getM iw_now) (\<lambda>now.
     bindM (readI (\<lambda>d. role_name_taken t i name d \<or> list_ex (\<lambda>r. ro_id r = i) (id_roles d))) (\<lambda>bad.
     if bad then throwM UniqueViolation
     else bindM (onI (\<lambda>d. d\<lparr>id_roles := id_roles d @
            [\<lparr>ro_id = i, ro_tenant = Some t, ro_name = name, ro_isDefault = isDefault, ro_createdAt = now\<rparr>]\<rparr>)) (\<lambda>_. retM i))))"

definition grant_row :: "string \<Rightarrow> string \<Rightarrow> permission \<Rightarrow> grant" where
  "grant_row t i p = \<lparr>gt_role = i, gt_tenant = Some t, gt_module = fst p, gt_action = snd p\<rparr>"

text \<open>The primary key \<open>(role_id, module, action)\<close> admits no grant twice.\<close>

definition insertGrants :: "string \<Rightarrow> string \<Rightarrow> permission list \<Rightarrow> unit iact" where
  "insertGrants t i ps = bindM (readI (\<lambda>d. \<not> distinct ps \<or>
       list_ex (\<lambda>g. gt_role g = i \<and> List.member ps (gt_module g, gt_action g)) (id_grants d))) (\<lambda>bad.
     if bad then throwM UniqueViolation else onI (\<lambda>d. d\<lparr>id_grants := id_grants d @ map (grant_row t i) ps\<rparr>))"

definition dropGrants :: "string \<Rightarrow> string \<Rightarrow> idb \<Rightarrow> idb" where
  "dropGrants t i d = d\<lparr>id_grants := filter (\<lambda>g. \<not> (gt_tenant g = Some t \<and> gt_role g = i)) (id_grants d)\<rparr>"

section \<open>Default roles (\<open>default-roles.ts\<close>)\<close>

definition MARKETING_MODULES :: "string list" where
  "MARKETING_MODULES = filter (\<lambda>m. m \<noteq> ''platform'' \<and> m \<noteq> ''identity'') PERMISSION_MODULES"

definition ADMIN_PERMISSIONS :: "permission list" where
  "ADMIN_PERMISSIONS = concat (map (\<lambda>m. map (\<lambda>a. (m, a)) PERMISSION_ACTIONS) PERMISSION_MODULES)"

definition MARKETER_PERMISSIONS :: "permission list" where
  "MARKETER_PERMISSIONS = concat (map (\<lambda>m. map (\<lambda>a. (m, a)) [''view'', ''edit'', ''launch'']) MARKETING_MODULES)"

definition VIEWER_PERMISSIONS :: "permission list" where
  "VIEWER_PERMISSIONS = map (\<lambda>m. (m, ''view'')) MARKETING_MODULES"

definition DEFAULT_TENANT_ROLES :: "(string \<times> permission list) list" where
  "DEFAULT_TENANT_ROLES = [(''Admin'', ADMIN_PERMISSIONS), (''Marketer'', MARKETER_PERMISSIONS), (''Viewer'', VIEWER_PERMISSIONS)]"

fun createRoles :: "string \<Rightarrow> (string \<times> permission list) list \<Rightarrow> string \<Rightarrow> string iact" where
  "createRoles t [] adminRoleId = retM adminRoleId"
| "createRoles t ((name, ps) # specs) adminRoleId =
    bindM (insertRole t name True) (\<lambda>i.
    bindM (insertGrants t i ps) (\<lambda>_.
      createRoles t specs (if name = ''Admin'' then i else adminRoleId)))"

definition createDefaultTenantRoles :: "string \<Rightarrow> string iact" where
  "createDefaultTenantRoles t = createRoles t DEFAULT_TENANT_ROLES []"

section \<open>Schemas (\<open>dto.ts\<close>)\<close>

record role_input =
  rn_name :: string
  rn_permissions :: "permission list"

record role_update =
  rp_name :: "string option"
  rp_permissions :: "permission list option"

definition parsePermission :: "json \<Rightarrow> permission option" where
  "parsePermission v = (case (obj_get v ''module'', obj_get v ''action'') of
      (Some (JStr m), Some (JStr a)) \<Rightarrow>
        if List.member PERMISSION_MODULES m \<and> List.member PERMISSION_ACTIONS a then Some (m, a) else None
    | _ \<Rightarrow> None)"

definition parseSized :: "nat \<Rightarrow> nat \<Rightarrow> json option \<Rightarrow> string option" where
  "parseSized lo hi v = (case v of Some (JStr s) \<Rightarrow> if lo \<le> length s \<and> length s \<le> hi then Some s else None | _ \<Rightarrow> None)"

definition roleInputSchema :: "json \<Rightarrow> role_input option" where
  "roleInputSchema v = (case (parseSized 1 100 (obj_get v ''name''), parseArray parsePermission (obj_get v ''permissions'')) of
      (Some n, Some ps) \<Rightarrow> Some \<lparr>rn_name = n, rn_permissions = ps\<rparr>
    | _ \<Rightarrow> None)"

definition roleUpdateSchema :: "json \<Rightarrow> role_update option" where
  "roleUpdateSchema v = (case v of JObj _ \<Rightarrow>
      (case (optional (parseSized 1 100) (obj_get v ''name''), optional (parseArray parsePermission) (obj_get v ''permissions'')) of
        (Some n, Some ps) \<Rightarrow> if n = None \<and> ps = None then None else Some \<lparr>rp_name = n, rp_permissions = ps\<rparr>
      | _ \<Rightarrow> None)
    | _ \<Rightarrow> None)"

text \<open>\<open>parseBody\<close>: a 400 whose problems are zod's issues, a parameter.\<close>

definition parseBodyWith :: "(string \<times> string) list \<Rightarrow> 'a option \<Rightarrow> exn + 'a" where
  "parseBodyWith issues r = (case r of None \<Rightarrow> Inl (HttpProblems 400 issues) | Some x \<Rightarrow> Inr x)"

section \<open>The service (\<open>roles.service.ts\<close>)\<close>

record role_dto =
  rd_id :: string
  rd_name :: string
  rd_permissions :: "permission list"
  rd_created_at :: string

definition toRoleDto :: "idb \<Rightarrow> role \<Rightarrow> role_dto" where
  "toRoleDto d r = \<lparr>rd_id = ro_id r, rd_name = ro_name r,
     rd_permissions = map (\<lambda>g. (gt_module g, gt_action g)) (filter (\<lambda>g. gt_role g = ro_id r) (id_grants d)),
     rd_created_at = iso_string (ro_createdAt r)\<rparr>"

text \<open>\<open>id > cursor\<close>, for a cursor that reads as a UUID.\<close>

definition castCursor :: "string option \<Rightarrow> exn + string option" where
  "castCursor c = (case c of None \<Rightarrow> Inr None
     | Some s \<Rightarrow> (case decodeIdCursor s of None \<Rightarrow> Inl (PlainError ''invalid input syntax for type uuid'')
         | Some i \<Rightarrow> map_sum id Some (as_uuid i)))"

definition id_after :: "string option \<Rightarrow> ('r \<Rightarrow> string) \<Rightarrow> 'r list \<Rightarrow> 'r list" where
  "id_after c key rs = (case c of None \<Rightarrow> sort_key key rs | Some i \<Rightarrow> filter (\<lambda>r. i < key r) (sort_key key rs))"

definition idPage :: "('r \<Rightarrow> string) \<Rightarrow> (idb \<Rightarrow> 'r \<Rightarrow> 'd) \<Rightarrow> (idb \<Rightarrow> 'r list) \<Rightarrow> query \<Rightarrow> 'd cursor_page iact" where
  "idPage key dto rows q =
    bindM (liftE (parseCursorQuery q 50 200)) (\<lambda>cq.
    bindM (liftE (castCursor (cq_cursor cq))) (\<lambda>after.
      readI (\<lambda>d. let limit = nat (cq_limit cq); fetched = take (Suc limit) (id_after after key (rows d)) in
        buildCursorPage (map (dto d) (page_rows limit fetched)) (page_next limit (\<lambda>r. encodeIdCursor (key r)) fetched))))"

definition listRoles :: "string \<Rightarrow> query \<Rightarrow> role_dto cursor_page iact" where
  "listRoles t q = idPage ro_id toRoleDto (roles_in t) q"

definition roleNameTaken :: "exn \<Rightarrow> exn" where
  "roleNameTaken e = (if e = UniqueViolation then HttpExc 409 ''a role with this name already exists'' else e)"

definition roleOrThrow :: "string \<Rightarrow> string \<Rightarrow> role iact" where
  "roleOrThrow t i = bindM (readI (find_role t i)) (\<lambda>r. case r of None \<Rightarrow> throwM notFoundError | Some r \<Rightarrow> retM r)"

definition createRole :: "string \<Rightarrow> role_input \<Rightarrow> role_dto iact" where
  "createRole t input =
    bindM (mapErrM roleNameTaken (transactionI (
      bindM (insertRole t (rn_name input) False) (\<lambda>i.
      bindM (whenM (rn_permissions input \<noteq> []) (insertGrants t i (rn_permissions input))) (\<lambda>_.
        roleOrThrow t i))))) (\<lambda>role.
    readI (\<lambda>d. toRoleDto d role))"

definition renameRole :: "string \<Rightarrow> string \<Rightarrow> string option \<Rightarrow> role iact" where
  "renameRole t i name =
    (case name of None \<Rightarrow> roleOrThrow t i
     | Some n \<Rightarrow> bindM (readI (role_name_taken t i n)) (\<lambda>bad.
         if bad then throwM UniqueViolation
         else bindM (onI (\<lambda>d. d\<lparr>id_roles := map (\<lambda>r. if ro_tenant r = Some t \<and> ro_id r = i then r\<lparr>ro_name := n\<rparr> else r) (id_roles d)\<rparr>))
           (\<lambda>_. roleOrThrow t i)))"

definition updateRole :: "string \<Rightarrow> string \<Rightarrow> role_update \<Rightarrow> role_dto iact" where
  "updateRole t rawId input =
    bindM (castI rawId) (\<lambda>i.
    bindM (readI (find_role t i)) (\<lambda>found. case found of
      None \<Rightarrow> throwM (HttpExc 404 ''role not found'')
    | Some _ \<Rightarrow>
        bindM (mapErrM roleNameTaken (transactionI (
          bindM (case rp_permissions input of None \<Rightarrow> retM ()
            | Some ps \<Rightarrow> bindM (onI (dropGrants t i)) (\<lambda>_. whenM (ps \<noteq> []) (insertGrants t i ps))) (\<lambda>_.
          renameRole t i (rp_name input))))) (\<lambda>role.
        readI (\<lambda>d. toRoleDto d role))))"

text \<open>Deleting a role deletes its grants and assignments with it (\<open>ON DELETE CASCADE\<close>).\<close>

definition drop_role :: "string \<Rightarrow> string \<Rightarrow> idb \<Rightarrow> idb" where
  "drop_role t i d = d\<lparr>id_roles := filter (\<lambda>r. \<not> (ro_tenant r = Some t \<and> ro_id r = i)) (id_roles d),
     id_grants := filter (\<lambda>g. gt_role g \<noteq> i) (id_grants d), id_userRoles := filter (\<lambda>u. ur_role u \<noteq> i) (id_userRoles d)\<rparr>"

definition removeRole :: "string \<Rightarrow> string \<Rightarrow> unit iact" where
  "removeRole t rawId =
    bindM (castI rawId) (\<lambda>i.
    bindM (readI (find_role t i)) (\<lambda>found. case found of
      None \<Rightarrow> throwM (HttpExc 404 ''role not found'')
    | Some r \<Rightarrow>
        if ro_isDefault r then throwM (HttpExc 409 ''default roles cannot be deleted'')
        else bindM (readI (\<lambda>d. list_ex (\<lambda>u. ur_tenant u = Some t \<and> ur_role u = i) (id_userRoles d))) (\<lambda>assigned.
          if assigned then throwM (HttpExc 409 ''role is assigned to users'') else onI (drop_role t i))))"

section \<open>The controller (\<open>roles.controller.ts\<close>)\<close>

definition roleTenantOf :: "principal \<Rightarrow> string iact" where
  "roleTenantOf p = liftE (tenantOf ''operator principals cannot manage tenant roles'' p)"

definition listRolesEndpoint :: "principal \<Rightarrow> query \<Rightarrow> role_dto cursor_page iact" where
  "listRolesEndpoint p q = bindM (roleTenantOf p) (\<lambda>t. listRoles t q)"

definition createRoleEndpoint :: "(string \<times> string) list \<Rightarrow> principal \<Rightarrow> json \<Rightarrow> role_dto iact" where
  "createRoleEndpoint issues p body = bindM (roleTenantOf p) (\<lambda>t.
     bindM (liftE (parseBodyWith issues (roleInputSchema body))) (\<lambda>input. createRole t input))"

definition updateRoleEndpoint :: "(string \<times> string) list \<Rightarrow> principal \<Rightarrow> string \<Rightarrow> json \<Rightarrow> role_dto iact" where
  "updateRoleEndpoint issues p i body = bindM (roleTenantOf p) (\<lambda>t.
     bindM (liftE (parseBodyWith issues (roleUpdateSchema body))) (\<lambda>input. updateRole t i input))"

definition removeRoleEndpoint :: "principal \<Rightarrow> string \<Rightarrow> unit iact" where
  "removeRoleEndpoint p i = bindM (roleTenantOf p) (\<lambda>t. removeRole t i)"

section \<open>Lemmas\<close>

lemma castI_Inr [simp]: "castI i w = (Inr j, w') \<longleftrightarrow> is_uuid i \<and> j = lower i \<and> w' = w"
  by (auto simp: castI_def as_uuid_def)

lemma roleOrThrow_Inr: "roleOrThrow t i w = (Inr r, w') \<longleftrightarrow> find_role t i (iw_db w) = Some r \<and> w' = w"
  by (auto simp: roleOrThrow_def split: option.splits)

text \<open>The pages of an identity list keep the keyset contract.\<close>

interpretation id_pages: keyset key "(<)" "\<lambda>after. id_after after key rs" "sort_key key rs" for key :: "'r \<Rightarrow> string" and rs
proof
  show "sorted_wrt (\<lambda>a b. \<not> key b < key a) (sort_key key rs)"
    using sorted_sort_key[of key rs] by (simp add: sorted_map not_less)
qed (auto simp: id_after_def)

end
