(* ===== verification/Users.thy ===== *)
theory Users
  imports Roles
begin

text \<open>
  The users and invitations services with their schemas, mapper, password denylist and
  controllers (\<open>services/core/src/modules/users\<close>). The hash functions are parameters: \<open>sha\<close> is
  SHA-256 in hex and \<open>argon\<close> the Argon2 hash (its salt a random draw); zod's e-mail check is the
  parameter \<open>isEmail\<close>.
\<close>

section \<open>Passwords (\<open>common-passwords.ts\<close>)\<close>

definition COMMON :: "string list" where
  "COMMON = [''123456789012'', ''1234567890123'', ''12345678901234'', ''password1234'', ''password12345'', ''passw0rd1234'',
     ''qwertyuiop123'', ''qwertyuiop1234'', ''qwertyqwerty'', ''letmein123456'', ''letmein12345'', ''iloveyou1234'',
     ''iloveyou12345'', ''trustno12345'', ''welcome123456'', ''welcome12345'', ''admin12345678'', ''administrator'',
     ''changeme12345'', ''football12345'', ''baseball12345'', ''superman12345'', ''princess12345'', ''sunshine12345'',
     ''monkey1234567'', ''dragon1234567'', ''shadow1234567'', ''master1234567'', ''freedom123456'', ''whatever12345'',
     ''starwars12345'', ''summer12345678'', ''winter12345678'', ''autumn12345678'', ''hunter12345678'', ''1qaz2wsx3edc'',
     ''zaq12wsx3edc4'', ''q1w2e3r4t5y6'', ''1q2w3e4r5t6y'', ''abcdefghijkl'', ''abc123abc123'', ''correcthorse'',
     ''correcthorsebattery'', ''p@ssw0rd12345'']"

fun each_next :: "(nat \<Rightarrow> nat \<Rightarrow> bool) \<Rightarrow> nat list \<Rightarrow> bool" where
  "each_next P (a # b # cs) = (P a b \<and> each_next P (b # cs))"
| "each_next P _ = True"

definition isSequential :: "string \<Rightarrow> bool" where
  "isSequential p = (if \<not> is_digits p then False
     else let codes = map code p in each_next (\<lambda>a b. b = a + 1) codes \<or> each_next (\<lambda>a b. a = b + 1) codes)"

definition isSingleCharacter :: "string \<Rightarrow> bool" where
  "isSingleCharacter p \<longleftrightarrow> 0 < length p \<and> list_all (\<lambda>c. c = hd p) p"

definition isCommonPassword :: "string \<Rightarrow> bool" where
  "isCommonPassword p \<longleftrightarrow> List.member COMMON (lower p) \<or> isSequential p \<or> isSingleCharacter (lower p)"

section \<open>Mapper (\<open>user.mapper.ts\<close>)\<close>

record user_dto =
  ud_id :: string
  ud_tenant_id :: "string option"
  ud_email :: string
  ud_name :: "string option"
  ud_locale :: string
  ud_status :: string
  ud_mfa_enabled :: bool
  ud_role_ids :: "string list"
  ud_created_at :: string
  ud_last_login_at :: "string option"

definition status_name :: "user_status \<Rightarrow> string" where
  "status_name s = (case s of UInvited \<Rightarrow> ''invited'' | UActive \<Rightarrow> ''active'' | UDisabled \<Rightarrow> ''disabled'')"

definition toUserDto :: "int \<Rightarrow> idb \<Rightarrow> user \<Rightarrow> user_dto" where
  "toUserDto now d u =
    (let locked = (case us_lockedUntil u of None \<Rightarrow> False | Some l \<Rightarrow> now < l) in
     \<lparr>ud_id = us_id u, ud_tenant_id = us_tenant u, ud_email = us_email u, ud_name = us_name u, ud_locale = us_locale u,
      ud_status = (if locked then ''locked'' else status_name (us_status u)), ud_mfa_enabled = us_mfaEnabled u,
      ud_role_ids = roles_of (us_id u) d, ud_created_at = iso_string (us_createdAt u),
      ud_last_login_at = map_option iso_string (us_lastLoginAt u)\<rparr>)"

section \<open>Schemas (\<open>dto.ts\<close>)\<close>

record invite_input =
  ii_email :: string
  ii_role_ids :: "string list"
  ii_locale :: "string option"

record accept_input =
  ai_name :: string
  ai_password :: string

record user_update =
  uu_name :: "string option"
  uu_role_ids :: "string list option"
  uu_status :: "user_status option"

definition LOCALES :: "string list" where
  "LOCALES = [''es'', ''pt'', ''en'']"

definition parseEnum :: "string list \<Rightarrow> json option \<Rightarrow> string option" where
  "parseEnum ws v = (case v of Some (JStr s) \<Rightarrow> if List.member ws s then Some s else None | _ \<Rightarrow> None)"

definition parseEmail :: "(string \<Rightarrow> bool) \<Rightarrow> json option \<Rightarrow> string option" where
  "parseEmail isEmail v = (case v of Some (JStr s) \<Rightarrow> if isEmail s then Some s else None | _ \<Rightarrow> None)"

definition inviteUserSchema :: "(string \<Rightarrow> bool) \<Rightarrow> json \<Rightarrow> invite_input option" where
  "inviteUserSchema isEmail v = (case (parseEmail isEmail (obj_get v ''email''), parseArray parseUuid (obj_get v ''role_ids''),
        optional (parseEnum LOCALES) (obj_get v ''locale'')) of
      (Some e, Some rs, Some l) \<Rightarrow> if 1 \<le> length rs then Some \<lparr>ii_email = e, ii_role_ids = rs, ii_locale = l\<rparr> else None
    | _ \<Rightarrow> None)"

definition acceptInvitationSchema :: "json \<Rightarrow> accept_input option" where
  "acceptInvitationSchema v = (case (parseSized 1 200 (obj_get v ''name''), parseSized 12 128 (obj_get v ''password'')) of
      (Some n, Some p) \<Rightarrow> Some \<lparr>ai_name = n, ai_password = p\<rparr> | _ \<Rightarrow> None)"

definition parseStatus :: "json option \<Rightarrow> user_status option" where
  "parseStatus v = (case v of Some (JStr s) \<Rightarrow> if s = ''active'' then Some UActive else if s = ''disabled'' then Some UDisabled else None
     | _ \<Rightarrow> None)"

definition updateUserSchema :: "json \<Rightarrow> user_update option" where
  "updateUserSchema v = (case v of JObj _ \<Rightarrow>
      (case (optional (parseSized 1 200) (obj_get v ''name''), optional (parseArray parseUuid) (obj_get v ''role_ids''),
          optional parseStatus (obj_get v ''status'')) of
        (Some n, Some rs, Some s) \<Rightarrow> if n = None \<and> rs = None \<and> s = None then None
          else Some \<lparr>uu_name = n, uu_role_ids = rs, uu_status = s\<rparr>
      | _ \<Rightarrow> None)
    | _ \<Rightarrow> None)"

section \<open>Users (\<open>users.service.ts\<close>)\<close>

definition ADMIN_ROLE_NAME :: string where
  "ADMIN_ROLE_NAME = ''Admin''"

definition users_in :: "string \<Rightarrow> idb \<Rightarrow> user list" where
  "users_in t d = filter (\<lambda>u. us_tenant u = Some t) (id_users d)"

definition user_in :: "string \<Rightarrow> string \<Rightarrow> idb \<Rightarrow> user option" where
  "user_in t i d = find (\<lambda>u. us_id u = i) (users_in t d)"

definition email_filter :: "query \<Rightarrow> user \<Rightarrow> bool" where
  "email_filter q u = (case map_of q ''email'' of Some (JStr e) \<Rightarrow> 0 < length e \<longrightarrow> contains (lower (us_email u)) (lower e) | _ \<Rightarrow> True)"

definition listUsers :: "string \<Rightarrow> query \<Rightarrow> user_dto cursor_page iact" where
  "listUsers t q = bindM (getM iw_now) (\<lambda>now. idPage us_id (toUserDto now) (\<lambda>d. filter (email_filter q) (users_in t d)) q)"

definition admin_role :: "string \<Rightarrow> idb \<Rightarrow> role option" where
  "admin_role t d = find (\<lambda>r. ro_isDefault r \<and> ro_name r = ADMIN_ROLE_NAME) (roles_in t d)"

definition hasAdminRole :: "string \<Rightarrow> string list \<Rightarrow> idb \<Rightarrow> bool" where
  "hasAdminRole t rs d = (if rs = [] then False else case admin_role t d of None \<Rightarrow> False | Some r \<Rightarrow> List.member rs (ro_id r))"

definition active_user :: "string \<Rightarrow> string \<Rightarrow> idb \<Rightarrow> bool" where
  "active_user t i d \<longleftrightarrow> list_ex (\<lambda>u. us_id u = i \<and> us_status u = UActive) (users_in t d)"

definition assertNotLastAdmin :: "string \<Rightarrow> string \<Rightarrow> unit iact" where
  "assertNotLastAdmin t i = bindM (readI (admin_role t)) (\<lambda>r. case r of
      None \<Rightarrow> retM ()
    | Some r \<Rightarrow> bindM (readI (\<lambda>d. length (filter (\<lambda>x. ur_tenant x = Some t \<and> ur_role x = ro_id r \<and> ur_user x \<noteq> i \<and> active_user t (ur_user x) d) (id_userRoles d))))
        (\<lambda>otherActiveAdmins. if otherActiveAdmins = 0 then throwM (HttpExc 409 ''cannot remove the last Admin of the tenant'') else retM ()))"

definition assertRolesBelongToTenant :: "string \<Rightarrow> string list \<Rightarrow> unit iact" where
  "assertRolesBelongToTenant t rs = (if rs = [] then retM ()
     else bindM (readI (\<lambda>d. length (filter (\<lambda>r. list_ex (uuid_eq (ro_id r)) rs) (roles_in t d)))) (\<lambda>count.
       if count \<noteq> length rs then throwM (HttpExc 404 ''one or more roles not found'') else retM ()))"

definition user_role_row :: "string \<Rightarrow> string \<Rightarrow> string \<Rightarrow> user_role" where
  "user_role_row t i r = \<lparr>ur_user = i, ur_role = lower r, ur_tenant = Some t\<rparr>"

text \<open>The primary key \<open>(user_id, role_id)\<close>.\<close>

definition assignRoles :: "string \<Rightarrow> string \<Rightarrow> string list \<Rightarrow> unit iact" where
  "assignRoles t i rs = bindM (readI (\<lambda>d. \<not> distinct (map lower rs) \<or>
       list_ex (\<lambda>x. ur_user x = i \<and> List.member (map lower rs) (ur_role x)) (id_userRoles d))) (\<lambda>bad.
     if bad then throwM UniqueViolation else onI (\<lambda>d. d\<lparr>id_userRoles := id_userRoles d @ map (user_role_row t i) rs\<rparr>))"

definition drop_assignments :: "string \<Rightarrow> string \<Rightarrow> idb \<Rightarrow> idb" where
  "drop_assignments t i d = d\<lparr>id_userRoles := filter (\<lambda>x. \<not> (ur_tenant x = Some t \<and> ur_user x = i)) (id_userRoles d)\<rparr>"

definition patch_user :: "user_update \<Rightarrow> user \<Rightarrow> user" where
  "patch_user input u =
    (let u1 = (case uu_name input of None \<Rightarrow> u | Some n \<Rightarrow> u\<lparr>us_name := Some n\<rparr>) in
     case uu_status input of None \<Rightarrow> u1
     | Some s \<Rightarrow> if s = UActive then u1\<lparr>us_status := s, us_failedLogins := 0, us_lockedUntil := None\<rparr> else u1\<lparr>us_status := s\<rparr>)"

definition updateUserIn :: "string \<Rightarrow> string \<Rightarrow> (user \<Rightarrow> user) \<Rightarrow> user iact" where
  "updateUserIn t i f = bindM (readI (user_in t i)) (\<lambda>u. case u of None \<Rightarrow> throwM notFoundError
     | Some u \<Rightarrow> bindM (onI (\<lambda>d. d\<lparr>id_users := map (\<lambda>u. if us_tenant u = Some t \<and> us_id u = i then f u else u) (id_users d)\<rparr>))
         (\<lambda>_. retM (f u)))"

definition storeUser :: "string \<Rightarrow> string \<Rightarrow> user_update \<Rightarrow> user iact" where
  "storeUser t i input = transactionI (
     bindM (case uu_role_ids input of None \<Rightarrow> retM ()
       | Some rs \<Rightarrow> bindM (onI (drop_assignments t i)) (\<lambda>_. whenM (0 < length rs) (assignRoles t i rs))) (\<lambda>_.
     updateUserIn t i (patch_user input)))"

text \<open>
  The checks run before the transaction that stores the change. \<open>between\<close> is what other requests
  do to the database in the meantime; it is the identity for a request that runs alone.
\<close>

definition updateUser :: "(idb \<Rightarrow> idb) \<Rightarrow> string \<Rightarrow> string \<Rightarrow> user_update \<Rightarrow> user_dto iact" where
  "updateUser between t rawId input =
    bindM (castI rawId) (\<lambda>i.
    bindM (readI (user_in t i)) (\<lambda>found. case found of
      None \<Rightarrow> throwM (HttpExc 404 ''user not found'')
    | Some user \<Rightarrow>
        bindM (case uu_role_ids input of None \<Rightarrow> retM () | Some rs \<Rightarrow> assertRolesBelongToTenant t rs) (\<lambda>_.
        bindM (readI (\<lambda>d. hasAdminRole t (roles_of i d) d)) (\<lambda>currentlyAdmin.
        bindM (readI (\<lambda>d. case uu_role_ids input of None \<Rightarrow> False | Some rs \<Rightarrow> \<not> hasAdminRole t rs d)) (\<lambda>losesRole.
        bindM (whenM (currentlyAdmin \<and> (losesRole \<or> uu_status input = Some UDisabled)) (assertNotLastAdmin t i)) (\<lambda>_.
        bindM (onI between) (\<lambda>_.
        bindM (storeUser t i input) (\<lambda>updated.
        bindM (getM iw_now) (\<lambda>now.
          readI (\<lambda>d. toUserDto now d updated))))))))))"

text \<open>Deleting a user deletes what belongs to it (\<open>ON DELETE CASCADE\<close>).\<close>

definition drop_user :: "string \<Rightarrow> string \<Rightarrow> idb \<Rightarrow> idb" where
  "drop_user t i d = d\<lparr>id_users := filter (\<lambda>u. \<not> (us_tenant u = Some t \<and> us_id u = i)) (id_users d),
     id_userRoles := filter (\<lambda>x. ur_user x \<noteq> i) (id_userRoles d), id_tokens := filter (\<lambda>x. rf_user x \<noteq> i) (id_tokens d),
     id_invitations := filter (\<lambda>x. iv_user x \<noteq> Some i) (id_invitations d), id_codes := filter (\<lambda>x. rc_user x \<noteq> i) (id_codes d)\<rparr>"

definition removeUser :: "string \<Rightarrow> string \<Rightarrow> unit iact" where
  "removeUser t rawId =
    bindM (castI rawId) (\<lambda>i.
    bindM (readI (user_in t i)) (\<lambda>found. case found of
      None \<Rightarrow> throwM (HttpExc 404 ''user not found'')
    | Some user \<Rightarrow>
        bindM (readI (\<lambda>d. hasAdminRole t (roles_of i d) d)) (\<lambda>admin.
        bindM (whenM admin (assertNotLastAdmin t i)) (\<lambda>_. onI (drop_user t i)))))"

end
