(* ===== verification/Invitations.thy ===== *)
theory Invitations
  imports Users
begin

text \<open>
  \<open>invitations.service.ts\<close>, \<open>mailer.ts\<close> and the users and invitations controllers. A mail is the
  address and the link sent to it; \<open>smtp\<close> says whether the transport takes it.
\<close>

section \<open>Tokens\<close>

definition INVITATION_TTL_MS :: int where
  "INVITATION_TTL_MS = 7 * 24 * 60 * 60 * 1000"

record invitation_dto =
  id_id :: string
  id_user_id :: string
  id_email :: string
  id_expires_at :: string

definition splitToken :: "string \<Rightarrow> exn + (string \<times> string)" where
  "splitToken token =
    (let split = (case index_of CHR ''.'' token of None \<Rightarrow> ([], []) | Some i \<Rightarrow> if 0 < i then (take i token, drop (Suc i) token) else ([], [])) in
     if \<not> is_uuid (fst split) \<or> length (snd split) = 0 then Inl (HttpExc 404 ''invitation not found'') else Inr split)"

section \<open>Mail (\<open>mailer.ts\<close>)\<close>

definition sendInvite :: "bool \<Rightarrow> string \<Rightarrow> string \<Rightarrow> string \<Rightarrow> string \<Rightarrow> unit iact" where
  "sendInvite smtp base to token locale =
    (let link = base @ ''/'' @ locale @ ''/invite/'' @ token in
     if smtp then modifyM (\<lambda>w. w\<lparr>iw_mails := iw_mails w @ [(to, link)]\<rparr>) else throwM (PlainError ''mail not accepted''))"

section \<open>Inviting\<close>

definition alreadyExists :: exn where
  "alreadyExists = HttpExc 409 ''a user with this email already exists in this tenant''"

text \<open>The primary key and \<open>users_tenant_id_email_key\<close>.\<close>

definition email_taken :: "string \<Rightarrow> string \<Rightarrow> idb \<Rightarrow> bool" where
  "email_taken t e d \<longleftrightarrow> list_ex (\<lambda>u. lower (us_email u) = lower e) (users_in t d)"

definition new_user :: "string \<Rightarrow> string \<Rightarrow> string \<Rightarrow> string \<Rightarrow> user_status \<Rightarrow> string option \<Rightarrow> int \<Rightarrow> user" where
  "new_user i t e locale status hash now = \<lparr>us_id = i, us_tenant = Some t, us_email = e, us_name = None, us_passwordHash = hash,
     us_mfaSecret = None, us_mfaEnabled = False, us_locale = locale, us_status = status, us_failedLogins = 0,
     us_lockedUntil = None, us_lastLoginAt = None, us_createdAt = now\<rparr>"

definition insertUser :: "string \<Rightarrow> string \<Rightarrow> string \<Rightarrow> user_status \<Rightarrow> string option \<Rightarrow> string iact" where
  "insertUser t e locale status hash = bindM draw (\<lambda>i. bindM (getM iw_now) (\<lambda>now.
     bindM (readI (\<lambda>d. email_taken t e d \<or> list_ex (\<lambda>u. us_id u = i) (id_users d))) (\<lambda>bad.
     if bad then throwM UniqueViolation
     else bindM (onI (\<lambda>d. d\<lparr>id_users := id_users d @ [new_user i t e locale status hash now]\<rparr>)) (\<lambda>_. retM i))))"

text \<open>The primary key and \<open>invitations_token_hash_key\<close>.\<close>

definition insertInvitation :: "invitation \<Rightarrow> invitation iact" where
  "insertInvitation row = bindM draw (\<lambda>i.
     bindM (readI (\<lambda>d. list_ex (\<lambda>v. iv_id v = i \<or> iv_hash v = iv_hash row) (id_invitations d))) (\<lambda>bad.
     if bad then throwM UniqueViolation
     else bindM (onI (\<lambda>d. d\<lparr>id_invitations := id_invitations d @ [row\<lparr>iv_id := i\<rparr>]\<rparr>)) (\<lambda>_. retM (row\<lparr>iv_id := i\<rparr>))))"

definition storeInvitation :: "(string \<Rightarrow> string) \<Rightarrow> string \<Rightarrow> string \<Rightarrow> invite_input \<Rightarrow> string \<Rightarrow> string \<Rightarrow> invitation iact" where
  "storeInvitation sha t invitedBy input rawToken locale = transactionI (
     bindM (insertUser t (ii_email input) locale UInvited None) (\<lambda>i.
     bindM (assignRoles t i (ii_role_ids input)) (\<lambda>_.
     bindM (getM iw_now) (\<lambda>now.
       insertInvitation \<lparr>iv_id = [], iv_tenant = t, iv_user = Some i, iv_email = ii_email input, iv_hash = sha rawToken,
         iv_roleIds = ii_role_ids input, iv_invitedBy = Some invitedBy, iv_expiresAt = now + INVITATION_TTL_MS, iv_acceptedAt = None\<rparr>))))"

definition emailRace :: "exn \<Rightarrow> exn" where
  "emailRace e = (if e = UniqueViolation then alreadyExists else e)"

definition invite :: "(string \<Rightarrow> string) \<Rightarrow> bool \<Rightarrow> string \<Rightarrow> string \<Rightarrow> string \<Rightarrow> invite_input \<Rightarrow> invitation_dto iact" where
  "invite sha smtp base t invitedBy input =
    bindM (readI (\<lambda>d. length (filter (\<lambda>r. list_ex (uuid_eq (ro_id r)) (ii_role_ids input)) (roles_in t d)))) (\<lambda>roleCount.
    if roleCount \<noteq> length (ii_role_ids input) then throwM (HttpExc 404 ''one or more roles not found'')
    else bindM (readI (email_taken t (ii_email input))) (\<lambda>existing.
    if existing then throwM alreadyExists
    else bindM draw (\<lambda>rawToken.
      let locale = (case ii_locale input of None \<Rightarrow> ''es'' | Some l \<Rightarrow> l) in
      bindM (mapErrM emailRace (storeInvitation sha t invitedBy input rawToken locale)) (\<lambda>v.
      bindM (sendInvite smtp base (ii_email input) (t @ ''.'' @ rawToken) locale) (\<lambda>_.
        retM \<lparr>id_id = iv_id v, id_user_id = (case iv_user v of None \<Rightarrow> [] | Some i \<Rightarrow> i), id_email = iv_email v,
          id_expires_at = iso_string (iv_expiresAt v)\<rparr>)))))"

section \<open>Accepting\<close>

definition find_invitation :: "string \<Rightarrow> string \<Rightarrow> idb \<Rightarrow> invitation option" where
  "find_invitation t h d = find (\<lambda>v. iv_tenant v = t \<and> iv_hash v = h) (id_invitations d)"

definition accept_row :: "accept_input \<Rightarrow> string \<Rightarrow> user \<Rightarrow> user" where
  "accept_row input hash u = u\<lparr>us_name := Some (ai_name input), us_passwordHash := Some hash, us_status := UActive\<rparr>"

definition storeAcceptance :: "string \<Rightarrow> invitation \<Rightarrow> accept_input \<Rightarrow> string \<Rightarrow> user iact" where
  "storeAcceptance t v input hash = transactionI (
     bindM (getM iw_now) (\<lambda>now.
     bindM (onI (\<lambda>d. d\<lparr>id_invitations := map (\<lambda>x. if iv_tenant x = t \<and> iv_id x = iv_id v then x\<lparr>iv_acceptedAt := Some now\<rparr> else x) (id_invitations d)\<rparr>)) (\<lambda>_.
       updateUserIn t (case iv_user v of None \<Rightarrow> [] | Some i \<Rightarrow> i) (accept_row input hash))))"

definition tooCommon :: exn where
  "tooCommon = HttpProblems 400 [(''/password'', ''this password is too common'')]"

definition accept :: "(string \<Rightarrow> string) \<Rightarrow> (string \<Rightarrow> string \<Rightarrow> string) \<Rightarrow> string \<Rightarrow> accept_input \<Rightarrow> user_dto iact" where
  "accept sha argon compositeToken input =
    bindM (liftE (splitToken compositeToken)) (\<lambda>(rawTenant, rawToken).
    let t = lower rawTenant in
    bindM (readI (find_invitation t (sha rawToken))) (\<lambda>found. case found of
      None \<Rightarrow> throwM (HttpExc 404 ''invitation not found'')
    | Some v \<Rightarrow>
        if iv_acceptedAt v \<noteq> None then throwM (HttpExc 410 ''invitation already used'')
        else bindM (getM iw_now) (\<lambda>now.
        if iv_expiresAt v < now then throwM (HttpExc 410 ''invitation expired'')
        else if isCommonPassword (ai_password input) then throwM tooCommon
        else bindM draw (\<lambda>salt.
        bindM (storeAcceptance t v input (argon salt (ai_password input))) (\<lambda>user.
          readI (\<lambda>d. toUserDto now d user))))))"

section \<open>Controllers\<close>

definition userTenantOf :: "principal \<Rightarrow> string iact" where
  "userTenantOf p = liftE (tenantOf ''operator principals cannot manage tenant users'' p)"

definition listUsersEndpoint :: "principal \<Rightarrow> query \<Rightarrow> user_dto cursor_page iact" where
  "listUsersEndpoint p q = bindM (userTenantOf p) (\<lambda>t. listUsers t q)"

definition inviteEndpoint :: "(string \<Rightarrow> bool) \<Rightarrow> (string \<Rightarrow> string) \<Rightarrow> bool \<Rightarrow> string \<Rightarrow> (string \<times> string) list \<Rightarrow> principal \<Rightarrow> json \<Rightarrow> invitation_dto iact" where
  "inviteEndpoint isEmail sha smtp base issues p body =
    bindM (liftE (parseBodyWith issues (inviteUserSchema isEmail body))) (\<lambda>input.
    bindM (userTenantOf p) (\<lambda>t. invite sha smtp base t (pr_sub p) input))"

definition updateUserEndpoint :: "(idb \<Rightarrow> idb) \<Rightarrow> (string \<times> string) list \<Rightarrow> principal \<Rightarrow> string \<Rightarrow> json \<Rightarrow> user_dto iact" where
  "updateUserEndpoint between issues p i body =
    bindM (liftE (parseBodyWith issues (updateUserSchema body))) (\<lambda>input.
    bindM (userTenantOf p) (\<lambda>t. updateUser between t i input))"

definition removeUserEndpoint :: "principal \<Rightarrow> string \<Rightarrow> unit iact" where
  "removeUserEndpoint p i = bindM (userTenantOf p) (\<lambda>t. removeUser t i)"

definition acceptEndpoint :: "(string \<Rightarrow> string) \<Rightarrow> (string \<Rightarrow> string \<Rightarrow> string) \<Rightarrow> (string \<times> string) list \<Rightarrow> string \<Rightarrow> json \<Rightarrow> user_dto iact" where
  "acceptEndpoint sha argon issues token body =
    bindM (liftE (parseBodyWith issues (acceptInvitationSchema body))) (\<lambda>input. accept sha argon token input)"

end
