(* ===== verification/Identity_Properties.thy ===== *)
theory Identity_Properties
  imports Invitations
begin

text \<open>
  What the roles, users and invitations services keep and deliver: an active Admin of the tenant,
  and invitations that work once. \<open>tenant_step\<close> is a request of one tenant handled to its end,
  whatever its outcome.
\<close>

section \<open>An Admin\<close>

text \<open>An active user of the tenant holds its default role \<open>Admin\<close>.\<close>

definition holds_admin :: "string \<Rightarrow> string \<Rightarrow> idb \<Rightarrow> user_role \<Rightarrow> bool" where
  "holds_admin t a d x \<longleftrightarrow> ur_tenant x = Some t \<and> ur_role x = a \<and> active_user t (ur_user x) d"

definition has_admin :: "string \<Rightarrow> idb \<Rightarrow> bool" where
  "has_admin t d \<longleftrightarrow> (\<exists>r. admin_role t d = Some r \<and> lower (ro_id r) = ro_id r \<and>
     list_ex (holds_admin t (ro_id r) d) (id_userRoles d))"

definition admin_kept :: "string \<Rightarrow> iworld \<Rightarrow> iworld \<Rightarrow> bool" where
  "admin_kept t w w' \<longleftrightarrow> (has_admin t (iw_db w) \<longrightarrow> has_admin t (iw_db w'))"

interpretation admins: frame "admin_kept t" for t
  by unfold_locales (auto simp: admin_kept_def)

lemma keeps_draw [keepsI]: "keeps (admin_kept t) draw"
  by (simp add: keeps_def admin_kept_def)

lemma keeps_readI [keepsI]: "keeps (admin_kept t) (readI f)"
  by (simp add: keeps_def admin_kept_def)

lemma keeps_transactionI [keepsI]: "keeps (admin_kept t) m \<Longrightarrow> keeps (admin_kept t) (transactionI m)"
  by (auto simp: keeps_def admin_kept_def transactionI_def split: prod.split sum.split)

text \<open>A change that keeps the Admin role, the assignments and the active users keeps the Admin.\<close>

lemma keeps_onI:
  assumes "\<And>d r. admin_role t d = Some r \<Longrightarrow> admin_role t (f d) = Some r"
    and "\<And>d. set (id_userRoles d) \<subseteq> set (id_userRoles (f d))" and "\<And>d i. active_user t i d \<Longrightarrow> active_user t i (f d)"
  shows "keeps (admin_kept t) (onI f)"
  using assms unfolding keeps_def admin_kept_def has_admin_def holds_admin_def list_ex_iff by (simp, blast)

lemma admin_role_append: "admin_role t d = Some r \<Longrightarrow> admin_role t (d\<lparr>id_roles := id_roles d @ rs\<rparr>) = Some r"
proof -
  have "find P xs = Some r \<Longrightarrow> find P (xs @ ys) = Some r" for P and xs ys :: "role list"
    by (induction xs) auto
  then show "admin_role t d = Some r \<Longrightarrow> ?thesis" by (simp add: admin_role_def roles_in_def)
qed

lemma admin_role_frame [simp]:
  "admin_role t (d\<lparr>id_userRoles := x\<rparr>) = admin_role t d" "admin_role t (d\<lparr>id_users := y\<rparr>) = admin_role t d"
  by (simp_all add: admin_role_def roles_in_def)

lemma active_user_append: "active_user t i d \<Longrightarrow> active_user t i (d\<lparr>id_users := id_users d @ us\<rparr>)"
  by (simp add: active_user_def users_in_def)

lemma active_user_frame [simp]:
  "active_user t i (d\<lparr>id_userRoles := x\<rparr>) = active_user t i d" "active_user t i (d\<lparr>id_roles := y\<rparr>) = active_user t i d"
  by (simp_all add: active_user_def users_in_def)

lemma keeps_onI_frame:
  assumes "\<And>d. id_roles (f d) = id_roles d \<and> id_userRoles (f d) = id_userRoles d \<and> id_users (f d) = id_users d"
  shows "keeps (admin_kept t) (onI f)"
  using assms by (intro keeps_onI) (simp_all add: admin_role_def roles_in_def active_user_def users_in_def)

lemma keeps_insertRole [keepsI]: "keeps (admin_kept t) (insertRole t' n b)"
  unfolding insertRole_def
  by (intro keepsI keeps_onI) (auto intro: admin_role_append)

lemma keeps_insertGrants [keepsI]: "keeps (admin_kept t) (insertGrants t' i ps)"
  unfolding insertGrants_def by (intro keepsI keeps_onI_frame) auto

lemma keeps_roleOrThrow [keepsI]: "keeps (admin_kept t) (roleOrThrow t' i)"
  unfolding roleOrThrow_def by (intro keepsI)

lemma createRole_keeps: "keeps (admin_kept t) (createRole t' input)"
  unfolding createRole_def by (intro keepsI)

lemma keeps_assignRoles [keepsI]: "keeps (admin_kept t) (assignRoles t' i rs)"
  unfolding assignRoles_def by (intro keepsI keeps_onI) auto

lemma keeps_insertUser [keepsI]: "keeps (admin_kept t) (insertUser t' e l s h)"
  unfolding insertUser_def by (intro keepsI keeps_onI) (auto intro: active_user_append)

lemma keeps_insertInvitation [keepsI]: "keeps (admin_kept t) (insertInvitation v)"
  unfolding insertInvitation_def by (intro keepsI keeps_onI_frame) auto

lemma keeps_sendInvite [keepsI]: "keeps (admin_kept t) (sendInvite s b to tok l)"
  by (auto simp: sendInvite_def Let_def keeps_def admin_kept_def)

lemma invite_keeps: "keeps (admin_kept t) (invite sha smtp base t' by' input)"
  unfolding invite_def storeInvitation_def Let_def by (intro keepsI)

text \<open>Accepting turns users active, never the other way.\<close>

lemma active_user_map:
  assumes "active_user t i d" and "\<And>u. us_id (f u) = us_id u \<and> us_tenant (f u) = us_tenant u \<and> (us_status u = UActive \<longrightarrow> us_status (f u) = UActive)"
  shows "active_user t i (d\<lparr>id_users := map f (id_users d)\<rparr>)"
  using assms by (auto simp: active_user_def users_in_def list_ex_iff)

lemma keeps_updateUserIn:
  assumes "\<And>u. us_id (f u) = us_id u \<and> us_tenant (f u) = us_tenant u \<and> (us_status u = UActive \<longrightarrow> us_status (f u) = UActive)"
  shows "keeps (admin_kept t) (updateUserIn t' i f)"
  unfolding updateUserIn_def
  by (intro keepsI keeps_onI) (auto intro!: active_user_map, use assms in auto)

lemma keeps_prod [keepsI]: "(\<And>a b. keeps R (f a b)) \<Longrightarrow> keeps R (case p of (a, b) \<Rightarrow> f a b)"
  by (cases p) simp

lemma accept_keeps: "keeps (admin_kept t) (accept sha argon token input)"
  unfolding accept_def storeAcceptance_def Let_def
  by (intro keepsI keeps_onI_frame keeps_updateUserIn) (simp_all add: accept_row_def)

lemma holds_admin_frame [simp]:
  "holds_admin t a (d\<lparr>id_userRoles := x\<rparr>) = holds_admin t a d" "holds_admin t a (d\<lparr>id_roles := y\<rparr>) = holds_admin t a d"
  by (simp_all add: holds_admin_def fun_eq_iff)

lemma castI_bind: "bindM (castI i) f w = (if is_uuid i then f (lower i) w else (Inl (PlainError ''invalid input syntax for type uuid''), w))"
  by (simp add: castI_def as_uuid_def bindM_def)

text \<open>Changing a role keeps the Admin role if it is not the one that is given another name.\<close>

lemma find_role_renamed:
  assumes "find P xs = Some r" and "\<And>x. P (f x) \<longleftrightarrow> P x"
  shows "find P (map f xs) = Some (f r)"
  using assms(1) by (induction xs) (auto simp: assms(2) split: if_splits)

definition rename_in :: "string \<Rightarrow> string \<Rightarrow> string \<Rightarrow> role \<Rightarrow> role" where
  "rename_in t i n r = (if ro_tenant r = Some t \<and> ro_id r = i then r\<lparr>ro_name := n\<rparr> else r)"

lemma admin_role_renamed:
  assumes "admin_role t d = Some r" and "\<not> role_name_taken t i n d" and "ro_id r = i \<Longrightarrow> n = ADMIN_ROLE_NAME"
  shows "\<exists>r'. admin_role t (d\<lparr>id_roles := map (rename_in t i n) (id_roles d)\<rparr>) = Some r' \<and> ro_id r' = ro_id r"
proof -
  have r: "r \<in> set (id_roles d)" "ro_tenant r = Some t" "ro_isDefault r" "ro_name r = ADMIN_ROLE_NAME"
    using assms(1) by (auto simp: admin_role_def roles_in_def find_Some_iff dest: nth_mem)
  have other: "ro_id x \<noteq> i \<Longrightarrow> x \<in> set (id_roles d) \<Longrightarrow> ro_tenant x = Some t \<Longrightarrow> ro_name x \<noteq> n" for x
    using assms(2) by (auto simp: role_name_taken_def list_ex_iff)
  define P where "P = (\<lambda>x :: role. ro_tenant x = Some t \<and> ro_isDefault x \<and> ro_name x = ADMIN_ROLE_NAME)"
  have adm: "admin_role t e = find P (id_roles e)" for e
  proof -
    have "find Q (filter R xs) = find (\<lambda>x. R x \<and> Q x) xs" for Q R and xs :: "role list"
      by (induction xs) auto
    then show ?thesis by (simp add: admin_role_def roles_in_def P_def)
  qed
  have "\<exists>r'. find P (map (rename_in t i n) xs) = Some r' \<and> ro_id r' = ro_id r" if "find P xs = Some r" "set xs \<subseteq> set (id_roles d)" for xs
    using that
  proof (induction xs)
    case (Cons x xs)
    show ?case
    proof (cases "P x")
      case True
      then have "x = r" using Cons.prems by simp
      then have "P (rename_in t i n x)" using assms(3) True by (auto simp: P_def rename_in_def)
      then show ?thesis using \<open>x = r\<close> by (simp add: rename_in_def)
    next
      case False
      then have "P (rename_in t i n x) \<Longrightarrow> ro_id x = ro_id r"
        using assms(3) r other[of r] by (cases "ro_id x = ro_id r") (auto simp: P_def rename_in_def split: if_splits)
      then show ?thesis using Cons False by (auto simp: rename_in_def)
    qed
  qed simp
  then show ?thesis using assms(1) by (simp add: adm)
qed

lemma renameRole_keeps:
  assumes "has_admin t (iw_db w)" and "\<And>r n. admin_role t (iw_db w) = Some r \<Longrightarrow> ro_id r = i \<Longrightarrow> name = Some n \<Longrightarrow> n = ADMIN_ROLE_NAME"
  shows "has_admin t (iw_db (snd (renameRole t i name w)))"
proof -
  have thr: "has_admin t (iw_db v) \<Longrightarrow> has_admin t (iw_db (snd (roleOrThrow t i v)))" for v
    by (simp add: roleOrThrow_def split: option.split)
  show ?thesis
  proof (cases name)
    case None
    then show ?thesis using thr[OF assms(1)] by (simp add: renameRole_def)
  next
    case (Some n)
    show ?thesis
    proof (cases "role_name_taken t i n (iw_db w)")
      case True
      then show ?thesis using assms(1) by (simp add: renameRole_def Some)
    next
      case False
      let ?d = "(iw_db w)\<lparr>id_roles := map (rename_in t i n) (id_roles (iw_db w))\<rparr>"
      obtain r where r: "admin_role t (iw_db w) = Some r" "lower (ro_id r) = ro_id r" "list_ex (holds_admin t (ro_id r) (iw_db w)) (id_userRoles (iw_db w))"
        using assms(1) by (auto simp: has_admin_def)
      obtain r' where "admin_role t ?d = Some r'" "ro_id r' = ro_id r"
        using admin_role_renamed[OF r(1) False] assms(2)[OF r(1) _ Some] by blast
      then have "has_admin t ?d" using r(2,3) by (simp add: has_admin_def)
      then show ?thesis using thr[of "w\<lparr>iw_db := ?d\<rparr>"] False by (simp add: renameRole_def Some rename_in_def[abs_def])
    qed
  qed
qed

lemma updateRole_keeps:
  assumes "has_admin t (iw_db w)"
    and "\<And>r n. admin_role t (iw_db w) = Some r \<Longrightarrow> ro_id r = lower i \<Longrightarrow> rp_name input = Some n \<Longrightarrow> n = ADMIN_ROLE_NAME"
  shows "has_admin t (iw_db (snd (updateRole t i input w)))"
proof -
  define perms where "perms = (case rp_permissions input of None \<Rightarrow> retM ()
    | Some ps \<Rightarrow> bindM (onI (dropGrants t (lower i))) (\<lambda>_. whenM (ps \<noteq> []) (insertGrants t (lower i) ps)))"
  have same: "id_roles (iw_db v') = id_roles (iw_db v) \<and> id_userRoles (iw_db v') = id_userRoles (iw_db v) \<and> id_users (iw_db v') = id_users (iw_db v)"
    if "perms v = (x, v')" for v x v'
    using that by (auto simp: perms_def whenM_def insertGrants_def dropGrants_def bindM_def split: option.splits if_splits)
  have eqs: "admin_role t d' = admin_role t d \<and> has_admin t d' = has_admin t d"
    if "id_roles d' = id_roles d \<and> id_userRoles d' = id_userRoles d \<and> id_users d' = id_users d" for d d'
    using that by (simp add: has_admin_def holds_admin_def[abs_def] admin_role_def roles_in_def active_user_def users_in_def)
  have body: "has_admin t (iw_db (snd (bindM perms (\<lambda>_. renameRole t (lower i) (rp_name input)) w)))"
  proof (cases "perms w")
    case (Pair x v)
    have v: "admin_role t (iw_db v) = admin_role t (iw_db w)" "has_admin t (iw_db v)" using eqs[OF same[OF Pair]] assms(1) by auto
    have "has_admin t (iw_db (snd (renameRole t (lower i) (rp_name input) v)))"
      by (rule renameRole_keeps[OF v(2)]) (use assms(2) v(1) in auto)
    then show ?thesis using v(2) Pair by (cases x) simp_all
  qed
  have tx: "has_admin t (iw_db (snd (transactionI m w)))" if "has_admin t (iw_db (snd (m w)))" for m :: "role iact"
    using that assms(1) by (auto simp: transactionI_def split: prod.split sum.split)
  have "has_admin t (iw_db (snd (bindM (mapErrM roleNameTaken (transactionI m)) (\<lambda>role. readI (\<lambda>d. toRoleDto d role)) w)))"
    if "has_admin t (iw_db (snd (m w)))" for m :: "role iact"
    using tx[of m, OF that] by (cases "transactionI m w"; cases "fst (transactionI m w)") (auto simp: bindM_def mapErrM_def)
  from this[of "bindM perms (\<lambda>_. renameRole t (lower i) (rp_name input))", OF body] show ?thesis
    using assms(1) by (auto simp: updateRole_def castI_bind perms_def split: option.split)
qed

lemma removeRole_keeps: "has_admin t (iw_db w) \<Longrightarrow> has_admin t (iw_db (snd (removeRole t i w)))"
proof -
  assume h: "has_admin t (iw_db w)"
  then obtain r x where r: "admin_role t (iw_db w) = Some r" "x \<in> set (id_userRoles (iw_db w))" "holds_admin t (ro_id r) (iw_db w) x" "lower (ro_id r) = ro_id r"
    by (auto simp: has_admin_def list_ex_iff)
  show ?thesis
  proof (cases "is_uuid i \<and> \<not> list_ex (\<lambda>u. ur_tenant u = Some t \<and> ur_role u = lower i) (id_userRoles (iw_db w))")
    case True
    then have i: "ro_id r \<noteq> lower i" using r(2,3) by (auto simp: list_ex_iff holds_admin_def)
    have fil: "find P xs = Some r \<Longrightarrow> Q r \<Longrightarrow> find P (filter Q xs) = Some r" for P Q and xs :: "role list"
      by (induction xs) (auto split: if_splits)
    have "admin_role t (drop_role t (lower i) (iw_db w)) = Some r"
      using r(1) i fil[of "\<lambda>r. ro_isDefault r \<and> ro_name r = ADMIN_ROLE_NAME" "filter (\<lambda>r. ro_tenant r = Some t) (id_roles (iw_db w))" "\<lambda>r. \<not> (ro_tenant r = Some t \<and> ro_id r = lower i)"]
      by (simp add: admin_role_def roles_in_def drop_role_def conj_commute)
    moreover have "holds_admin t (ro_id r) (drop_role t (lower i) (iw_db w)) x" "x \<in> set (id_userRoles (drop_role t (lower i) (iw_db w)))"
      using r i by (auto simp: holds_admin_def drop_role_def active_user_def users_in_def)
    ultimately have "has_admin t (drop_role t (lower i) (iw_db w))" using r(4) by (auto simp: has_admin_def list_ex_iff)
    then show ?thesis using True h by (auto simp: removeRole_def castI_bind split: option.split)
  next
    case False
    then show ?thesis using h by (auto simp: removeRole_def castI_bind split: option.split)
  qed
qed

text \<open>Changing or deleting a user: another active Admin is left, or this one stays one.\<close>

definition stored :: "string \<Rightarrow> string \<Rightarrow> user_update \<Rightarrow> idb \<Rightarrow> idb" where
  "stored t i input d = d\<lparr>
     id_userRoles := (case uu_role_ids input of None \<Rightarrow> id_userRoles d
       | Some rs \<Rightarrow> filter (\<lambda>x. \<not> (ur_tenant x = Some t \<and> ur_user x = i)) (id_userRoles d) @ map (user_role_row t i) rs),
     id_users := map (\<lambda>u. if us_tenant u = Some t \<and> us_id u = i then patch_user input u else u) (id_users d)\<rparr>"

lemma storeUser_outcome: "storeUser t i input w = (r, w') \<Longrightarrow> (case r of Inl _ \<Rightarrow> w' = w | Inr _ \<Rightarrow> w' = w\<lparr>iw_db := stored t i input (iw_db w)\<rparr>)"
  by (auto simp: storeUser_def stored_def transactionI_def updateUserIn_def assignRoles_def drop_assignments_def whenM_def bindM_def
      split: option.splits if_splits prod.splits sum.splits)

lemma patch_user_keys [simp]: "us_id (patch_user input u) = us_id u" "us_tenant (patch_user input u) = us_tenant u"
  by (simp_all add: patch_user_def Let_def split: option.split)

lemma patch_user_status: "us_status (patch_user input u) = (case uu_status input of None \<Rightarrow> us_status u | Some s \<Rightarrow> s)"
  by (simp add: patch_user_def Let_def split: option.split)

lemma has_adminI:
  "admin_role t d = Some r \<Longrightarrow> lower (ro_id r) = ro_id r \<Longrightarrow> x \<in> set (id_userRoles d) \<Longrightarrow> holds_admin t (ro_id r) d x \<Longrightarrow> has_admin t d"
  by (auto simp: has_admin_def list_ex_iff)

lemma stored_keeps:
  assumes "admin_role t d = Some r" and "lower (ro_id r) = ro_id r" and "x \<in> set (id_userRoles d)" and "holds_admin t (ro_id r) d x"
    and "ur_user x \<noteq> i \<or> (case uu_role_ids input of None \<Rightarrow> True | Some rs \<Rightarrow> ro_id r \<in> set rs) \<and> (case uu_status input of None \<Rightarrow> True | Some s \<Rightarrow> s = UActive)"
  shows "has_admin t (stored t i input d)"
proof -
  have adm: "admin_role t (stored t i input d) = Some r" using assms(1) by (simp add: stored_def)
  have act: "active_user t (ur_user x) (stored t i input d)"
  proof -
    obtain u where u: "u \<in> set (id_users d)" "us_tenant u = Some t" "us_id u = ur_user x" "us_status u = UActive"
      using assms(4) by (auto simp: holds_admin_def active_user_def users_in_def list_ex_iff)
    let ?u = "if us_tenant u = Some t \<and> us_id u = i then patch_user input u else u"
    have "?u \<in> set (id_users (stored t i input d))" using u(1) by (auto simp: stored_def)
    moreover have "us_tenant ?u = Some t" "us_id ?u = ur_user x" "us_status ?u = UActive"
      using u(2-4) assms(5) by (auto simp: patch_user_status split: option.splits)
    ultimately show ?thesis unfolding active_user_def users_in_def list_ex_iff by auto
  qed
  have x: "ur_tenant x = Some t" "ur_role x = ro_id r" using assms(4) by (auto simp: holds_admin_def)
  obtain y where "y \<in> set (id_userRoles (stored t i input d))" "ur_user y = ur_user x" "ur_tenant y = Some t" "ur_role y = ro_id r"
  proof (cases "ur_user x = i \<and> uu_role_ids input \<noteq> None")
    case True
    then obtain rs where rs: "uu_role_ids input = Some rs" "ro_id r \<in> set rs" using assms(5) by auto
    show ?thesis
      by (rule that[of "user_role_row t i (ro_id r)"]) (use rs True assms(2) in \<open>force simp: stored_def user_role_row_def\<close>)+
  next
    case False
    then show ?thesis using assms(3) x by (intro that[of x]) (auto simp: stored_def split: option.split)
  qed
  then show ?thesis using has_adminI[OF adm assms(2)] act by (auto simp: holds_admin_def)
qed

lemma assertNotLastAdmin_other:
  assumes "assertNotLastAdmin t i w = (Inr (), w')" and "admin_role t (iw_db w) = Some r"
  shows "w' = w \<and> (\<exists>x \<in> set (id_userRoles (iw_db w)). holds_admin t (ro_id r) (iw_db w) x \<and> ur_user x \<noteq> i)"
proof -
  have "w' = w" and "filter (\<lambda>x. ur_tenant x = Some t \<and> ur_role x = ro_id r \<and> ur_user x \<noteq> i \<and> active_user t (ur_user x) (iw_db w)) (id_userRoles (iw_db w)) \<noteq> []"
    using assms by (auto simp: assertNotLastAdmin_def split: if_splits)
  then show ?thesis by (fastforce simp: filter_empty_conv holds_admin_def)
qed

lemma admin_assigned:
  assumes "admin_role t d = Some r" and "x \<in> set (id_userRoles d)" and "holds_admin t (ro_id r) d x" and "ur_user x = i"
  shows "hasAdminRole t (roles_of i d) d"
proof -
  have "ro_id r \<in> set (roles_of i d)" using assms by (force simp: roles_of_def holds_admin_def)
  then show ?thesis using assms(1) by (auto simp: hasAdminRole_def)
qed

lemma checks_read:
  "assertRolesBelongToTenant t rs w = (x, w') \<Longrightarrow> w' = w" "assertNotLastAdmin t i w = (x, w') \<Longrightarrow> w' = w"
  by (auto simp: assertRolesBelongToTenant_def assertNotLastAdmin_def split: option.splits if_splits)

definition admin_guard :: "string \<Rightarrow> string \<Rightarrow> user_update \<Rightarrow> idb \<Rightarrow> bool" where
  "admin_guard t i input d \<longleftrightarrow> hasAdminRole t (roles_of i d) d \<and>
     ((case uu_role_ids input of None \<Rightarrow> False | Some rs \<Rightarrow> \<not> hasAdminRole t rs d) \<or> uu_status input = Some UDisabled)"

lemma updateUser_outcome:
  "updateUser id t rawId input w = (x, w') \<Longrightarrow> w' = w \<or>
    (admin_guard t (lower rawId) input (iw_db w) \<longrightarrow> assertNotLastAdmin t (lower rawId) w = (Inr (), w)) \<and>
    w' = w\<lparr>iw_db := stored t (lower rawId) input (iw_db w)\<rparr>"
proof -
  let ?i = "lower rawId"
  let ?roles = "case uu_role_ids input of None \<Rightarrow> retM () | Some rs \<Rightarrow> assertRolesBelongToTenant t rs"
  let ?guard = "whenM (admin_guard t ?i input (iw_db w)) (assertNotLastAdmin t ?i)"
  obtain c where c: "?roles w = (c, w)"
    using checks_read(1) by (cases "uu_role_ids input"; cases "?roles w") auto
  obtain g where g: "?guard w = (g, w)"
    using checks_read(2) by (cases "?guard w") (auto simp: whenM_def split: if_splits)
  obtain s v where s: "storeUser t ?i input w = (s, v)" by fastforce
  assume u: "updateUser id t rawId input w = (x, w')"
  have "w' = w" if "\<not> is_uuid rawId \<or> user_in t ?i (iw_db w) = None \<or> (\<exists>e. c = Inl e) \<or> (\<exists>e. g = Inl e)"
  proof (cases "\<not> is_uuid rawId \<or> user_in t ?i (iw_db w) = None")
    case True
    then show ?thesis using u by (auto simp: updateUser_def castI_bind split: if_splits)
  next
    case False
    then show ?thesis using u that c g[unfolded admin_guard_def]
      by (cases c) (auto simp: updateUser_def castI_bind split: if_splits)
  qed
  moreover have "w' = v" if "is_uuid rawId" "user_in t ?i (iw_db w) \<noteq> None" "c = Inr ()" "g = Inr ()"
    using u that c g[unfolded admin_guard_def] s
    by (cases s) (auto simp: updateUser_def castI_bind split: if_splits)
  moreover have "admin_guard t ?i input (iw_db w) \<longrightarrow> assertNotLastAdmin t ?i w = (Inr (), w)" if "g = Inr ()"
    using g that by (simp add: whenM_def split: if_splits)
  moreover have "v = w \<or> v = w\<lparr>iw_db := stored t ?i input (iw_db w)\<rparr>"
    using storeUser_outcome[OF s] by (cases s) auto
  ultimately show ?thesis by (cases c; cases g; cases "is_uuid rawId"; cases "user_in t ?i (iw_db w)") auto
qed

lemma updateUser_keeps:
  assumes "has_admin t (iw_db w)" and "uu_status input \<noteq> Some UInvited"
  shows "has_admin t (iw_db (snd (updateUser id t rawId input w)))"
proof (rule ccontr)
  assume no: "\<not> ?thesis"
  obtain r x where r: "admin_role t (iw_db w) = Some r" "lower (ro_id r) = ro_id r" "x \<in> set (id_userRoles (iw_db w))" "holds_admin t (ro_id r) (iw_db w) x"
    using assms(1) by (auto simp: has_admin_def list_ex_iff)
  let ?i = "lower rawId"
  let ?loses = "case uu_role_ids input of None \<Rightarrow> False | Some rs \<Rightarrow> \<not> hasAdminRole t rs (iw_db w)"
  have guard: "admin_guard t ?i input (iw_db w) \<longrightarrow> assertNotLastAdmin t ?i w = (Inr (), w)" and st: "\<not> has_admin t (stored t ?i input (iw_db w))"
    using no assms(1) updateUser_outcome[of t rawId input w] by (cases "updateUser id t rawId input w"; force)+
  have rs: "ro_id r \<in> set rs" if "hasAdminRole t rs (iw_db w)" for rs
    using that r(1) by (auto simp: hasAdminRole_def split: if_splits)
  show False
  proof (cases "ur_user x = ?i \<and> (?loses \<or> uu_status input = Some UDisabled)")
    case True
    then have "hasAdminRole t (roles_of ?i (iw_db w)) (iw_db w)" using admin_assigned[OF r(1,3,4)] by simp
    then have "assertNotLastAdmin t ?i w = (Inr (), w)" using guard True by (simp add: admin_guard_def)
    then obtain y where "y \<in> set (id_userRoles (iw_db w))" "holds_admin t (ro_id r) (iw_db w) y" "ur_user y \<noteq> ?i"
      using assertNotLastAdmin_other[OF _ r(1)] by blast
    then show False using stored_keeps[OF r(1,2), of y] st by blast
  next
    case False
    have "(case uu_status input of None \<Rightarrow> True | Some s \<Rightarrow> s = UActive)" if "uu_status input \<noteq> Some UDisabled"
      using that assms(2) by (cases "uu_status input"; cases "the (uu_status input)") auto
    then have "ur_user x \<noteq> ?i \<or> (case uu_role_ids input of None \<Rightarrow> True | Some rs \<Rightarrow> ro_id r \<in> set rs) \<and> (case uu_status input of None \<Rightarrow> True | Some s \<Rightarrow> s = UActive)"
      using False rs by (auto split: option.splits)
    then show False using stored_keeps[OF r(1-4), of ?i input] st by blast
  qed
qed

lemma removeUser_keeps:
  assumes "has_admin t (iw_db w)"
  shows "has_admin t (iw_db (snd (removeUser t rawId w)))"
proof (rule ccontr)
  assume no: "\<not> ?thesis"
  obtain r x where r: "admin_role t (iw_db w) = Some r" "lower (ro_id r) = ro_id r" "x \<in> set (id_userRoles (iw_db w))" "holds_admin t (ro_id r) (iw_db w) x"
    using assms by (auto simp: has_admin_def list_ex_iff)
  let ?i = "lower rawId"
  let ?guard = "whenM (hasAdminRole t (roles_of ?i (iw_db w)) (iw_db w)) (assertNotLastAdmin t ?i)"
  obtain g where g: "?guard w = (g, w)"
    using checks_read(2) by (cases "?guard w") (auto simp: whenM_def split: if_splits)
  have guard: "fst (?guard w) = Inr ()" and st: "\<not> has_admin t (drop_user t ?i (iw_db w))"
    using no assms g by (cases g; auto simp: removeUser_def castI_bind split: option.splits if_splits)+
  have drop: "has_admin t (drop_user t ?i (iw_db w))" if "y \<in> set (id_userRoles (iw_db w))" "holds_admin t (ro_id r) (iw_db w) y" "ur_user y \<noteq> ?i" for y
    using that r(1,2) by (intro has_adminI[of t _ r y]) (auto simp: drop_user_def admin_role_def roles_in_def holds_admin_def active_user_def users_in_def list_ex_iff)
  show False
  proof (cases "ur_user x = ?i")
    case True
    then have "fst (assertNotLastAdmin t ?i w) = Inr ()" using admin_assigned[OF r(1,3,4)] guard by (simp add: whenM_def)
    then show False using assertNotLastAdmin_other[OF _ r(1)] drop st by (metis prod.collapse)
  next
    case False
    then show False using drop[OF r(3,4)] st by blast
  qed
qed

section \<open>Requests of a tenant\<close>

inductive tenant_step :: "string \<Rightarrow> iworld \<Rightarrow> iworld \<Rightarrow> bool" for t where
  patch: "uu_status input \<noteq> Some UInvited \<Longrightarrow> tenant_step t w (snd (updateUser id t i input w))"
| remove: "tenant_step t w (snd (removeUser t i w))"
| invitation: "tenant_step t w (snd (invite sha smtp base t by' input w))"
| acceptance: "tenant_step t w (snd (accept sha argon token ainput w))"
| create_role: "tenant_step t w (snd (createRole t rinput w))"
| change_role: "(\<And>r. admin_role t (iw_db w) = Some r \<Longrightarrow> ro_id r = lower i \<Longrightarrow> rp_name update \<in> {None, Some ADMIN_ROLE_NAME}) \<Longrightarrow>
    tenant_step t w (snd (updateRole t i update w))"
| remove_role: "tenant_step t w (snd (removeRole t i w))"
| time: "tenant_step t w (w\<lparr>iw_now := now\<rparr>)"

lemma tenant_step_keeps: "tenant_step t w w' \<Longrightarrow> has_admin t (iw_db w) \<Longrightarrow> has_admin t (iw_db w')"
proof (induction rule: tenant_step.induct)
  case (change_role w i update)
  then show ?case by (intro updateRole_keeps) auto
next
  case (invitation w sha smtp base by' input)
  then show ?case using invite_keeps by (metis admin_kept_def keeps_def)
next
  case (acceptance w sha argon token ainput)
  then show ?case using accept_keeps by (metis admin_kept_def keeps_def)
next
  case (create_role w rinput)
  then show ?case using createRole_keeps by (metis admin_kept_def keeps_def)
qed (auto intro: updateUser_keeps removeUser_keeps removeRole_keeps)

section \<open>Properties\<close>


definition disable :: user_update where
  "disable = \<lparr>uu_name = None, uu_role_ids = None, uu_status = Some UDisabled\<rparr>"

lemma disable_simps [simp]: "uu_role_ids disable = None" "uu_status disable = Some UDisabled"
  by (simp_all add: disable_def)

lemma disable_succeeds:
  assumes "is_uuid i" and "lower i = i" and "user_in t i (iw_db w) \<noteq> None" and "user_in t i (between (iw_db w)) \<noteq> None"
    and "admin_role t (iw_db w) = Some r" and "x \<in> set (id_userRoles (iw_db w))" and "holds_admin t (ro_id r) (iw_db w) x" and "ur_user x \<noteq> i"
  shows "\<exists>dto. updateUser between t i disable w = (Inr dto, w\<lparr>iw_db := stored t i disable (between (iw_db w))\<rparr>)"
proof -
  have "assertNotLastAdmin t i w = (Inr (), w)"
    using assms(5-8) by (auto simp: assertNotLastAdmin_def filter_empty_conv holds_admin_def)
  then have g: "whenM c (assertNotLastAdmin t i) w = (Inr (), w)" for c by (simp add: whenM_def)
  obtain u where "user_in t i (between (iw_db w)) = Some u" using assms(4) by blast
  then have "storeUser t i disable (w\<lparr>iw_db := between (iw_db w)\<rparr>) =
      (Inr (patch_user disable u), w\<lparr>iw_db := stored t i disable (between (iw_db w))\<rparr>)"
    by (simp add: storeUser_def transactionI_def updateUserIn_def stored_def)
  moreover obtain v where "user_in t i (iw_db w) = Some v" using assms(3) by blast
  ultimately show ?thesis using assms(1,2) g by (simp add: updateUser_def castI_bind)
qed

lemma user_in_stored: "user_in t j (stored t i input d) = None \<longleftrightarrow> user_in t j d = None"
proof -
  define f where "f = (\<lambda>u. if us_tenant u = Some t \<and> us_id u = i then patch_user input u else u)"
  have f: "us_tenant (f u) = us_tenant u" "us_id (f u) = us_id u" for u by (simp_all add: f_def)
  have "user_in t j e = None \<longleftrightarrow> list_all (\<lambda>u. \<not> (us_tenant u = Some t \<and> us_id u = j)) (id_users e)" for e
    by (auto simp: user_in_def users_in_def find_None_iff list_all_iff)
  then show ?thesis by (simp add: stored_def f_def[symmetric] list.pred_map comp_def f)
qed

text \<open>The check for the last Admin runs outside the transaction it guards: when a tenant has two active
  Admins and each is disabled by a request of its own, the second handled between the check and
  the transaction of the first, both requests succeed and no active Admin is left.\<close>

theorem concurrent_demotions_leave_no_admin:
  assumes "admin_role t (iw_db w) = Some r" and "set (filter (holds_admin t (ro_id r) (iw_db w)) (id_userRoles (iw_db w))) = {x, y}"
    and "ur_user x \<noteq> ur_user y" and "list_all (\<lambda>i. is_uuid i \<and> lower i = i) [ur_user x, ur_user y]"
    and "between = (\<lambda>d. iw_db (snd (updateUser id t (ur_user y) disable (w\<lparr>iw_db := d\<rparr>))))"
  shows "(\<exists>dto w1. updateUser id t (ur_user y) disable w = (Inr dto, w1)) \<and>
    (\<exists>dto w1. updateUser between t (ur_user x) disable w = (Inr dto, w1) \<and> \<not> has_admin t (iw_db w1))"
proof -
  let ?d = "iw_db w"
  have x: "x \<in> set (id_userRoles ?d)" "holds_admin t (ro_id r) ?d x" and y: "y \<in> set (id_userRoles ?d)" "holds_admin t (ro_id r) ?d y"
    using assms(2) by auto
  have known: "user_in t (ur_user z) ?d \<noteq> None" if "holds_admin t (ro_id r) ?d z" for z
    using that by (auto simp: holds_admin_def active_user_def user_in_def find_None_iff list_ex_iff)
  obtain dto where b: "updateUser id t (ur_user y) disable w = (Inr dto, w\<lparr>iw_db := stored t (ur_user y) disable ?d\<rparr>)"
    using disable_succeeds[of "ur_user y" t w id r x] known[OF y(2)] assms(1,3,4) x by auto
  then have between: "between ?d = stored t (ur_user y) disable ?d" by (simp add: assms(5))
  obtain dto' where a: "updateUser between t (ur_user x) disable w =
      (Inr dto', w\<lparr>iw_db := stored t (ur_user x) disable (stored t (ur_user y) disable ?d)\<rparr>)"
    using disable_succeeds[of "ur_user x" t w between r y] known[OF x(2)] assms(1,3,4) y by (auto simp: between user_in_stored)
  let ?e = "stored t (ur_user x) disable (stored t (ur_user y) disable ?d)"
  have adm: "admin_role t ?e = Some r" using assms(1) by (simp add: stored_def)
  have "\<not> holds_admin t (ro_id r) ?e z" if z: "z \<in> set (id_userRoles ?e)" for z
  proof
    assume h: "holds_admin t (ro_id r) ?e z"
    then have "ur_user z \<noteq> ur_user x" "ur_user z \<noteq> ur_user y" "active_user t (ur_user z) ?d"
      by (auto simp: holds_admin_def active_user_def users_in_def stored_def list_ex_iff patch_user_status split: if_splits)
    moreover have "z \<in> set (id_userRoles ?d)" using z by (simp add: stored_def)
    ultimately have "z \<in> {x, y}" using h unfolding assms(2)[symmetric] by (simp add: holds_admin_def)
    then show False using \<open>ur_user z \<noteq> ur_user x\<close> \<open>ur_user z \<noteq> ur_user y\<close> by auto
  qed
  then have "\<not> has_admin t ?e" using adm by (auto simp: has_admin_def list_ex_iff)
  then show ?thesis using a b by auto
qed

section \<open>A tenant with two Admins\<close>

definition demo_tenant_id :: string where
  "demo_tenant_id = ''11111111-1111-4111-8111-111111111111''"

definition demo_admin_role :: string where
  "demo_admin_role = ''22222222-2222-4222-8222-222222222222''"

definition demo_uid :: "char \<Rightarrow> string" where
  "demo_uid c = replicate 8 c @ ''-0000-4000-8000-000000000000''"

definition demo_user :: "char \<Rightarrow> user" where
  "demo_user c = \<lparr>us_id = demo_uid c, us_tenant = Some demo_tenant_id, us_email = c # ''@x.org'', us_name = None, us_passwordHash = Some ''secret'',
     us_mfaSecret = None, us_mfaEnabled = False, us_locale = ''es'', us_status = UActive, us_failedLogins = 0,
     us_lockedUntil = None, us_lastLoginAt = None, us_createdAt = 0\<rparr>"

definition demo_assignment :: "char \<Rightarrow> user_role" where
  "demo_assignment c = \<lparr>ur_user = demo_uid c, ur_role = demo_admin_role, ur_tenant = Some demo_tenant_id\<rparr>"

definition demo_idb :: idb where
  "demo_idb = \<lparr>id_tenants = [\<lparr>tn_id = demo_tenant_id, tn_name = ''X'', tn_timezone = ''UTC'', tn_locale = ''es'', tn_limits = JObj [], tn_suspended = False, tn_createdAt = 0\<rparr>],
     id_users = [demo_user CHR ''a'', demo_user CHR ''b''],
     id_roles = [\<lparr>ro_id = demo_admin_role, ro_tenant = Some demo_tenant_id, ro_name = ''Admin'', ro_isDefault = True, ro_createdAt = 0\<rparr>],
     id_grants = [], id_userRoles = [demo_assignment CHR ''a'', demo_assignment CHR ''b''], id_clients = [], id_tokens = [], id_invitations = [], id_codes = [], id_audit = []\<rparr>"

definition demo_iworld :: iworld where
  "demo_iworld = \<lparr>iw_db = demo_idb, iw_rand = (\<lambda>n. ''r'' @ show_nat n), iw_next = 0, iw_now = 0, iw_mails = [], iw_events = []\<rparr>"

lemma has_admin_code [code]: "has_admin t d = (case admin_role t d of None \<Rightarrow> False
    | Some r \<Rightarrow> lower (ro_id r) = ro_id r \<and> list_ex (holds_admin t (ro_id r) d) (id_userRoles d))"
  by (simp add: has_admin_def split: option.split)

lemma demo_has_admin: "has_admin demo_tenant_id (iw_db demo_iworld)"
  by code_simp


lemma concurrent_demotions_leave_no_admin_witness:
  "\<exists>between dto w1. updateUser between demo_tenant_id (demo_uid CHR ''a'') disable demo_iworld = (Inr dto, w1) \<and> \<not> has_admin demo_tenant_id (iw_db w1)"
proof -
  have 1: "admin_role demo_tenant_id (iw_db demo_iworld) = Some (hd (id_roles demo_idb))" by code_simp
  have 2: "filter (holds_admin demo_tenant_id (ro_id (hd (id_roles demo_idb))) (iw_db demo_iworld)) (id_userRoles (iw_db demo_iworld)) =
      [demo_assignment CHR ''a'', demo_assignment CHR ''b'']" by code_simp
  have 3: "ur_user (demo_assignment CHR ''a'') \<noteq> ur_user (demo_assignment CHR ''b'')"
    "list_all (\<lambda>i. is_uuid i \<and> lower i = i) [ur_user (demo_assignment CHR ''a''), ur_user (demo_assignment CHR ''b'')]" by code_simp+
  have 4: "ur_user (demo_assignment CHR ''a'') = demo_uid CHR ''a''" by (simp add: demo_assignment_def)
  show ?thesis
    using concurrent_demotions_leave_no_admin[OF 1 _ 3 refl] 2 unfolding 4 by fastforce
qed

end
