(* ===== verification/Invitation_Properties.thy ===== *)
theory Invitation_Properties
  imports Identity_Properties
begin

text \<open>
  An invitation from the request that makes it to the request that uses it up.
\<close>

section \<open>What inviting leaves\<close>

lemma index_of_append: "c \<notin> set s \<Longrightarrow> index_of c (s @ c # r) = Some (length s)"
  by (induction s) auto

lemma match_classes_all: "match_classes ps s \<Longrightarrow> \<forall>p \<in> set ps. \<forall>c. p c \<longrightarrow> Q c \<Longrightarrow> list_all Q s"
  unfolding match_classes_def by (induction rule: list_all2_induct) auto

lemma uuid_no_dot: "is_uuid t \<Longrightarrow> CHR ''.'' \<notin> set t"
proof -
  assume u: "is_uuid t"
  have "\<not> hex_char CHR ''.''" "\<not> is_dash CHR ''.''" by code_simp+
  then have "\<forall>c. (hex_char c \<longrightarrow> c \<noteq> CHR ''.'') \<and> (is_dash c \<longrightarrow> c \<noteq> CHR ''.'')" by auto
  then have "list_all (\<lambda>c. c \<noteq> CHR ''.'') t" using u by (intro match_classes_all[OF u[unfolded is_uuid_def]]) auto
  then show ?thesis by (auto simp: list_all_iff)
qed

lemma splitToken_composite: "is_uuid t \<Longrightarrow> r \<noteq> [] \<Longrightarrow> splitToken (t @ ''.'' @ r) = Inr (t, r)"
proof -
  assume t: "is_uuid t" and r: "r \<noteq> []"
  have "index_of CHR ''.'' (t @ ''.'' @ r) = Some (length t)" using index_of_append[OF uuid_no_dot[OF t]] by simp
  moreover have "0 < length t" using t by (auto simp: is_uuid_def match_classes_def)
  ultimately show ?thesis using t r by (simp add: splitToken_def Let_def)
qed

definition invited :: "(string \<Rightarrow> string) \<Rightarrow> string \<Rightarrow> string \<Rightarrow> invite_input \<Rightarrow> iworld \<Rightarrow> invitation" where
  "invited sha t by' input w = \<lparr>iv_id = iw_rand w (iw_next w + 2), iv_tenant = t, iv_user = Some (iw_rand w (iw_next w + 1)), iv_email = ii_email input,
     iv_hash = sha (iw_rand w (iw_next w)), iv_roleIds = ii_role_ids input, iv_invitedBy = Some by',
     iv_expiresAt = iw_now w + INVITATION_TTL_MS, iv_acceptedAt = None\<rparr>"

abbreviation locale_of :: "invite_input \<Rightarrow> string" where
  "locale_of input \<equiv> (case ii_locale input of None \<Rightarrow> ''es'' | Some l \<Rightarrow> l)"

definition invited_user :: "string \<Rightarrow> invite_input \<Rightarrow> iworld \<Rightarrow> user" where
  "invited_user t input w = new_user (iw_rand w (iw_next w + 1)) t (ii_email input) (locale_of input) UInvited None (iw_now w)"

lemma invite_Inr:
  assumes "invite sha smtp base t by' input w = (Inr dto, w1)"
  shows "smtp \<and> id_user_id dto = iw_rand w (iw_next w + 1) \<and> iw_mails w1 = iw_mails w @ [(ii_email input, base @ ''/'' @ locale_of input @ ''/invite/'' @ t @ ''.'' @ iw_rand w (iw_next w))] \<and>
    iw_db w1 = (iw_db w)\<lparr>id_users := id_users (iw_db w) @ [invited_user t input w],
      id_userRoles := id_userRoles (iw_db w) @ map (user_role_row t (iw_rand w (iw_next w + 1))) (ii_role_ids input),
      id_invitations := id_invitations (iw_db w) @ [invited sha t by' input w]\<rparr> \<and>
    (\<forall>u \<in> set (id_users (iw_db w)). us_id u \<noteq> iw_rand w (iw_next w + 1)) \<and>
    (\<forall>v \<in> set (id_invitations (iw_db w)). iv_id v \<noteq> iw_rand w (iw_next w + 2) \<and> iv_hash v \<noteq> sha (iw_rand w (iw_next w)))"
  using assms
  by (auto simp: invite_def storeInvitation_def insertUser_def assignRoles_def insertInvitation_def sendInvite_def icomp_results Let_def
      invited_def invited_user_def list_ex_iff numeral_2_eq_2 split: if_splits)


lemma find_new: "\<forall>v \<in> set xs. \<not> P v \<Longrightarrow> P n \<Longrightarrow> find P (xs @ [n]) = Some n"
  by (induction xs) auto

lemma new_user_in:
  assumes "\<forall>u \<in> set (id_users d). us_id u \<noteq> us_id n" and "us_tenant n = Some t"
  shows "user_in t (us_id n) (d\<lparr>id_users := id_users d @ [n], id_userRoles := x, id_invitations := y\<rparr>) = Some n"
  using assms by (simp add: user_in_def users_in_def find_new)

text \<open>The database an acceptance leaves.\<close>

definition accepted_db :: "string \<Rightarrow> invitation \<Rightarrow> string \<Rightarrow> int \<Rightarrow> accept_input \<Rightarrow> string \<Rightarrow> idb \<Rightarrow> idb" where
  "accepted_db t v i now a hash d = d\<lparr>
     id_invitations := map (\<lambda>x. if iv_tenant x = t \<and> iv_id x = iv_id v then x\<lparr>iv_acceptedAt := Some now\<rparr> else x) (id_invitations d),
     id_users := map (\<lambda>u. if us_tenant u = Some t \<and> us_id u = i then accept_row a hash u else u) (id_users d)\<rparr>"

lemma user_in_cong: "id_users d' = id_users d \<Longrightarrow> user_in t i d' = user_in t i d"
  by (simp add: user_in_def users_in_def)

lemma accept_succeeds:
  assumes "splitToken token = Inr (t, r)" and "lower t = t" and "find_invitation t (sha r) (iw_db w) = Some v"
    and "iv_acceptedAt v = None" and "iw_now w \<le> iv_expiresAt v" and "\<not> isCommonPassword (ai_password a)"
    and "iv_user v = Some i" and "user_in t i (iw_db w) = Some u"
  shows "\<exists>salt w'. accept sha argon token a w = (Inr (toUserDto (iw_now w) (iw_db w') (accept_row a (argon salt (ai_password a)) u)), w') \<and>
    iw_db w' = accepted_db t v i (iw_now w) a (argon salt (ai_password a)) (iw_db w) \<and> iw_now w' = iw_now w"
proof -
  let ?salt = "iw_rand w (iw_next w)"
  have u: "user_in t i (iw_db w\<lparr>id_invitations := x\<rparr>) = Some u" for x
    using assms(8) user_in_cong[of "iw_db w\<lparr>id_invitations := x\<rparr>" "iw_db w"] by simp
  have "storeAcceptance t v a (argon ?salt (ai_password a)) (w\<lparr>iw_next := Suc (iw_next w)\<rparr>) =
      (Inr (accept_row a (argon ?salt (ai_password a)) u),
       w\<lparr>iw_next := Suc (iw_next w), iw_db := accepted_db t v i (iw_now w) a (argon ?salt (ai_password a)) (iw_db w)\<rparr>)"
    using assms(7) u by (simp add: storeAcceptance_def transactionI_def updateUserIn_def accepted_db_def)
  then show ?thesis using assms(1-6) by (simp add: accept_def Let_def) (rule exI[of _ ?salt], simp)
qed

lemma accept_used:
  assumes "splitToken token = Inr (t, r)" and "lower t = t" and "find_invitation t (sha r) (iw_db w) = Some v" and "iv_acceptedAt v \<noteq> None"
  shows "accept sha argon token a w = (Inl (HttpExc 410 ''invitation already used''), w)"
  using assms by (simp add: accept_def Let_def)

lemma find_invitation_accepted:
  assumes "find_invitation t h d = Some v"
  shows "\<exists>v'. find_invitation t h (accepted_db t v i now a hash d) = Some v' \<and> iv_acceptedAt v' = Some now"
proof -
  define f where "f = (\<lambda>x :: invitation. if iv_tenant x = t \<and> iv_id x = iv_id v then x\<lparr>iv_acceptedAt := Some now\<rparr> else x)"
  have "find (\<lambda>x. iv_tenant x = t \<and> iv_hash x = h) (map f xs) = map_option f (find (\<lambda>x. iv_tenant x = t \<and> iv_hash x = h) xs)" for xs
    by (induction xs) (auto simp: f_def)
  then have "find_invitation t h (accepted_db t v i now a hash d) = Some (f v)"
    using assms unfolding find_invitation_def accepted_db_def f_def[symmetric] by simp
  moreover have "iv_tenant v = t" using assms by (auto simp: find_invitation_def find_Some_iff)
  ultimately show ?thesis by (simp add: f_def)
qed

section \<open>Properties\<close>



end
