(* ===== verification/Auth_Service.thy ===== *)
theory Auth_Service
  imports Keyring Users
begin

text \<open>
  Sessions: \<open>jwt-signer.ts\<close>, \<open>auth.service.ts\<close> and \<open>auth.controller.ts\<close> of
  \<open>services/core/src/modules/auth\<close>. The record \<open>crypto\<close> holds what the code takes from
  \<open>node:crypto\<close>, \<open>jose\<close>, \<open>argon2\<close> and \<open>otplib\<close>; random values are drawn from the world. A statement
  outside \<open>$transaction\<close> stays done when a later one throws.
\<close>

record crypto =
  cr_sha :: "string \<Rightarrow> string"
  cr_verify :: "string \<Rightarrow> string \<Rightarrow> bool"
  cr_less :: "string \<Rightarrow> string \<Rightarrow> bool"
  cr_public :: "string \<Rightarrow> string"
  cr_jws :: "string \<Rightarrow> string \<Rightarrow> json \<Rightarrow> string"
  cr_jwt :: "(string \<times> string) list \<Rightarrow> string \<Rightarrow> int \<Rightarrow> string \<Rightarrow> json option"
  cr_totp :: "int \<Rightarrow> string \<Rightarrow> string \<Rightarrow> bool"
  cr_keyuri :: "string \<Rightarrow> string \<Rightarrow> string"
  cr_gcm :: "bytes \<Rightarrow> bytes \<Rightarrow> bytes \<Rightarrow> bytes \<times> bytes"
  cr_gcm_open :: "bytes \<Rightarrow> bytes \<Rightarrow> bytes \<Rightarrow> bytes \<Rightarrow> bytes option"

section \<open>Signing (\<open>jwt-signer.ts\<close>)\<close>

record signing_key =
  sk_kid :: string
  sk_rsa :: bool
  sk_private :: string

record signer =
  sg_keys :: "signing_key list"
  sg_issuer :: string

fun insert_by :: "('a \<Rightarrow> 'a \<Rightarrow> bool) \<Rightarrow> 'a \<Rightarrow> 'a list \<Rightarrow> 'a list" where
  "insert_by lt x [] = [x]"
| "insert_by lt x (y # ys) = (if lt y x then y # insert_by lt x ys else x # y # ys)"

definition newSigner :: "crypto \<Rightarrow> signing_key list \<Rightarrow> string \<Rightarrow> exn + signer" where
  "newSigner c ks issuer =
    (if ks = [] then Inl (PlainError ''JwtSigner: no signing keys'')
     else let sorted = foldr (insert_by (\<lambda>a b. cr_less c (sk_kid a) (sk_kid b))) ks [] in
       case find (\<lambda>k. \<not> sk_rsa k) sorted of
         Some k \<Rightarrow> Inl (PlainError (''JwtSigner: key '' @ in_quotes (sk_kid k) @ '' is not RSA''))
       | None \<Rightarrow> Inr \<lparr>sg_keys = sorted, sg_issuer = issuer\<rparr>)"

definition jwks :: "crypto \<Rightarrow> signer \<Rightarrow> (string \<times> string) list" where
  "jwks c s = map (\<lambda>k. (sk_kid k, cr_public c (sk_private k))) (sg_keys s)"

definition signingKey :: "signer \<Rightarrow> signing_key" where
  "signingKey s = last (sg_keys s)"

definition payload :: "signer \<Rightarrow> (string \<times> json) list \<Rightarrow> int \<Rightarrow> int \<Rightarrow> json" where
  "payload s claims ttl now = JObj (claims @ [(''iss'', JStr (sg_issuer s)), (''iat'', JNum (int_num now)), (''exp'', JNum (int_num (now + ttl)))])"

definition sign :: "crypto \<Rightarrow> signer \<Rightarrow> (string \<times> json) list \<Rightarrow> int \<Rightarrow> string iact" where
  "sign c s claims ttl = bindM (getM iw_now) (\<lambda>ms. retM (let k = signingKey s in
     cr_jws c (sk_kid k) (sk_private k) (payload s claims ttl (ms div 1000))))"

definition verifySigned :: "crypto \<Rightarrow> signer \<Rightarrow> string \<Rightarrow> string \<Rightarrow> json iact" where
  "verifySigned c s token typ = bindM (getM iw_now) (\<lambda>ms.
     case cr_jwt c (jwks c s) (sg_issuer s) (ms div 1000) token of
       None \<Rightarrow> throwM (PlainError ''JWT verification failed'')
     | Some p \<Rightarrow> if obj_get p ''typ'' = Some (JStr typ) then retM p else throwM (PlainError (''expected typ='' @ typ)))"

section \<open>The service\<close>

record auth =
  ax_crypto :: crypto
  ax_signer :: signer
  ax_key :: bytes

definition ACCESS_TTL :: int where
  "ACCESS_TTL = 15 * 60"

definition MFA_TTL :: int where
  "MFA_TTL = 5 * 60"

definition REFRESH_TTL_MS :: int where
  "REFRESH_TTL_MS = 30 * 24 * 3600000"

definition MAX_FAILURES :: nat where
  "MAX_FAILURES = 5"

definition LOCK_MS :: int where
  "LOCK_MS = 15 * 60000"

definition RECOVERY_CODES :: nat where
  "RECOVERY_CODES = 10"

definition RECOVERY_ALPHABET :: string where
  "RECOVERY_ALPHABET = ''abcdefghjkmnpqrstuvwxyz23456789''"

record token_pair =
  tp_access :: string
  tp_refresh :: string
  tp_expires_in :: int

datatype login_result = LoggedIn token_pair | MfaRequired string

definition newAuth :: "crypto \<Rightarrow> signer \<Rightarrow> string \<Rightarrow> exn + auth" where
  "newAuth c s encryptionKey = (let key = b64_decode encryptionKey in
     if length key \<noteq> 32 then Inl (PlainError ''CORE_ENCRYPTION_KEY must be 32 bytes, base64'')
     else Inr \<lparr>ax_crypto = c, ax_signer = s, ax_key = key\<rparr>)"

definition invalidCredentials :: exn where
  "invalidCredentials = HttpExc 401 ''Invalid email or password''"

definition recovery_char :: "char \<Rightarrow> bool" where
  "recovery_char c \<longleftrightarrow> lower_alpha c \<or> digit_char c"

definition normalizeRecovery :: "string \<Rightarrow> string" where
  "normalizeRecovery s = filter recovery_char (lower s)"

subsection \<open>Private methods\<close>

definition lockedFor :: "user \<Rightarrow> int \<Rightarrow> int" where
  "lockedFor u now = (let ms = (case us_lockedUntil u of None \<Rightarrow> 0 | Some l \<Rightarrow> l) - now in
     if 0 < ms then (ms + 999) div 1000 else 0)"

definition checkActive :: "user \<Rightarrow> tenant option \<Rightarrow> unit iact" where
  "checkActive u t =
    (if us_status u \<noteq> UActive then throwM invalidCredentials
     else if map_option tn_suspended t = Some True then throwM (HttpExc 403 ''Tenant is suspended'')
     else retM ())"

definition recordFailure :: "string \<Rightarrow> int \<Rightarrow> unit iact" where
  "recordFailure i now =
    bindM (updateUserRow i (\<lambda>u. u\<lparr>us_failedLogins := us_failedLogins u + 1\<rparr>)) (\<lambda>_.
    bindM (findUserOrThrow i) (\<lambda>u.
    if us_failedLogins u < MAX_FAILURES then retM ()
    else bindM (updateUserRow i (\<lambda>u. u\<lparr>us_failedLogins := 0, us_lockedUntil := Some (now + LOCK_MS)\<rparr>)) (\<lambda>_.
      throwM (AccountLocked (LOCK_MS div 1000)))))"

definition revokeFamily :: "string \<Rightarrow> int \<Rightarrow> unit iact" where
  "revokeFamily f now = onI (\<lambda>d. d\<lparr>id_tokens :=
     map (\<lambda>r. if rf_family r = f \<and> rf_revokedAt r = None then r\<lparr>rf_revokedAt := Some now\<rparr> else r) (id_tokens d)\<rparr>)"

definition sealSecret :: "auth \<Rightarrow> string \<Rightarrow> string iact" where
  "sealSecret a plaintext = bindM draw (\<lambda>r. let iv = map code r in
     case cr_gcm (ax_crypto a) (ax_key a) iv (utf8_bytes plaintext) of (ct, tag) \<Rightarrow>
       retM (join_with ''.'' (map b64_encode [iv, ct, tag])))"

definition openSecret :: "auth \<Rightarrow> string \<Rightarrow> string option" where
  "openSecret a sealed = (case map b64_decode (split_on CHR ''.'' sealed) of
      iv # ct # tag # _ \<Rightarrow> Option.bind (cr_gcm_open (ax_crypto a) (ax_key a) iv ct tag) utf8_text
    | _ \<Rightarrow> None)"

definition checkTotp :: "auth \<Rightarrow> string \<Rightarrow> string \<Rightarrow> bool iact" where
  "checkTotp a sealed c = bindM (getM iw_now) (\<lambda>now. case openSecret a sealed of
      None \<Rightarrow> throwM (PlainError ''decryption failed'')
    | Some secret \<Rightarrow> retM (cr_totp (ax_crypto a) now c secret))"

text \<open>The primary key and \<open>refresh_tokens_token_hash_key\<close>.\<close>

definition insertToken :: "refresh_token \<Rightarrow> unit iact" where
  "insertToken row = bindM draw (\<lambda>i.
     bindM (readI (\<lambda>d. list_ex (\<lambda>r. rf_id r = i \<or> rf_hash r = rf_hash row) (id_tokens d))) (\<lambda>bad.
     if bad then throwM UniqueViolation else onI (\<lambda>d. d\<lparr>id_tokens := id_tokens d @ [row\<lparr>rf_id := i\<rparr>]\<rparr>)))"

definition perms_of :: "string \<Rightarrow> idb \<Rightarrow> string list" where
  "perms_of i d = sort (remdups (map grant_name (grants_of i d)))"

definition json_tenant :: "string option \<Rightarrow> json" where
  "json_tenant t = (case t of None \<Rightarrow> JNull | Some s \<Rightarrow> JStr s)"

definition user_claims :: "user \<Rightarrow> string list \<Rightarrow> (string \<times> json) list" where
  "user_claims u perms = [(''sub'', JStr (us_id u)), (''typ'', JStr ''user''), (''tenant_id'', json_tenant (us_tenant u)), (''perms'', JArr (map JStr perms))]"

definition issue :: "auth \<Rightarrow> user \<Rightarrow> string \<Rightarrow> int \<Rightarrow> token_pair iact" where
  "issue a u familyId now =
    bindM (readI (perms_of (us_id u))) (\<lambda>perms.
    bindM (sign (ax_crypto a) (ax_signer a) (user_claims u perms) ACCESS_TTL) (\<lambda>access_token.
    bindM draw (\<lambda>refresh_token.
    bindM (transactionI (
      bindM (insertToken \<lparr>rf_id = [], rf_tenant = us_tenant u, rf_user = us_id u, rf_family = familyId, rf_hash = cr_sha (ax_crypto a) refresh_token,
        rf_expiresAt = now + REFRESH_TTL_MS, rf_rotatedAt = None, rf_revokedAt = None\<rparr>) (\<lambda>_.
      updateUserRow (us_id u) (\<lambda>u. u\<lparr>us_failedLogins := 0, us_lockedUntil := None, us_lastLoginAt := Some now\<rparr>)))) (\<lambda>_.
    retM \<lparr>tp_access = access_token, tp_refresh = refresh_token, tp_expires_in = ACCESS_TTL\<rparr>))))"

subsection \<open>Logging in\<close>

definition accounts :: "string \<Rightarrow> idb \<Rightarrow> user list" where
  "accounts email d = filter (\<lambda>u. lower (us_email u) = lower email \<and> us_passwordHash u \<noteq> None) (id_users d)"

definition password_fits :: "auth \<Rightarrow> string \<Rightarrow> user \<Rightarrow> bool" where
  "password_fits a password u = (case us_passwordHash u of None \<Rightarrow> False | Some h \<Rightarrow> cr_verify (ax_crypto a) h password)"

definition refuse :: "user list \<Rightarrow> int \<Rightarrow> login_result iact" where
  "refuse users now = (case find (\<lambda>u. lockedFor u now \<noteq> 0) users of
      Some locked \<Rightarrow> throwM (AccountLocked (lockedFor locked now))
    | None \<Rightarrow> bindM (forM (filter (\<lambda>u. lockedFor u now = 0) users) (\<lambda>u. recordFailure (us_id u) now)) (\<lambda>_. throwM invalidCredentials))"

definition login :: "auth \<Rightarrow> string \<Rightarrow> string \<Rightarrow> login_result iact" where
  "login a email password =
    bindM (getM iw_now) (\<lambda>now.
    bindM (readI (accounts email)) (\<lambda>users.
    case find (password_fits a password) (filter (\<lambda>u. lockedFor u now = 0) users) of
      None \<Rightarrow> refuse users now
    | Some user \<Rightarrow>
        bindM (readI (tenant_of user)) (\<lambda>tenant.
        bindM (checkActive user tenant) (\<lambda>_.
        if us_mfaEnabled user then
          bindM (sign (ax_crypto a) (ax_signer a) [(''sub'', JStr (us_id user)), (''typ'', JStr ''mfa''), (''tenant_id'', json_tenant (us_tenant user))] MFA_TTL)
            (\<lambda>mfa_token. retM (MfaRequired mfa_token))
        else bindM draw (\<lambda>familyId. bindM (issue a user familyId now) (\<lambda>tp. retM (LoggedIn tp)))))))"

definition invalidMfa :: exn where
  "invalidMfa = HttpExc 401 ''Invalid or expired MFA token''"

definition mfaSubject :: "auth \<Rightarrow> string \<Rightarrow> string iact" where
  "mfaSubject a token = bindM (mapErrM (\<lambda>_. invalidMfa) (verifySigned (ax_crypto a) (ax_signer a) token ''mfa'')) (\<lambda>p.
     case obj_get p ''sub'' of Some (JStr s) \<Rightarrow> retM s | _ \<Rightarrow> throwM (PlainError ''Argument id is missing''))"

definition is_totp :: "string \<Rightarrow> bool" where
  "is_totp s \<longleftrightarrow> length s = 6 \<and> list_all digit_char s"

text \<open>An unused recovery code with this hash is used up; true if it was exactly one.\<close>

definition takeRecovery :: "string \<Rightarrow> string \<Rightarrow> int \<Rightarrow> bool iact" where
  "takeRecovery i h now =
    (let unused = (\<lambda>r. rc_user r = i \<and> rc_hash r = h \<and> rc_usedAt r = None) in
     bindM (readI (\<lambda>d. length (filter unused (id_codes d)))) (\<lambda>count.
     bindM (onI (\<lambda>d. d\<lparr>id_codes := map (\<lambda>r. if unused r then r\<lparr>rc_usedAt := Some now\<rparr> else r) (id_codes d)\<rparr>)) (\<lambda>_.
       retM (count = 1))))"

definition verifyMfa :: "auth \<Rightarrow> string \<Rightarrow> string \<Rightarrow> token_pair iact" where
  "verifyMfa a mfaToken c =
    bindM (getM iw_now) (\<lambda>now.
    bindM (mfaSubject a mfaToken) (\<lambda>sub.
    bindM (readI (find_user sub)) (\<lambda>found. case found of
      None \<Rightarrow> throwM invalidMfa
    | Some user \<Rightarrow> (case us_mfaSecret user of
        None \<Rightarrow> throwM invalidMfa
      | Some secret \<Rightarrow>
          if \<not> us_mfaEnabled user then throwM invalidMfa
          else if lockedFor user now \<noteq> 0 then throwM (AccountLocked (lockedFor user now))
          else bindM (readI (tenant_of user)) (\<lambda>tenant.
            bindM (checkActive user tenant) (\<lambda>_.
            bindM (if is_totp c then checkTotp a secret c
              else takeRecovery (us_id user) (cr_sha (ax_crypto a) (normalizeRecovery c)) now) (\<lambda>ok.
            if \<not> ok then bindM (recordFailure (us_id user) now) (\<lambda>_. throwM (HttpExc 401 ''Invalid code''))
            else bindM draw (\<lambda>familyId. issue a user familyId now))))))))"

subsection \<open>Refresh tokens\<close>

definition invalidRefresh :: exn where
  "invalidRefresh = HttpExc 401 ''Invalid refresh token''"

definition find_token :: "string \<Rightarrow> idb \<Rightarrow> refresh_token option" where
  "find_token h d = find (\<lambda>r. rf_hash r = h) (id_tokens d)"

definition rotatable :: "string \<Rightarrow> refresh_token \<Rightarrow> bool" where
  "rotatable i r \<longleftrightarrow> rf_id r = i \<and> rf_rotatedAt r = None \<and> rf_revokedAt r = None"

text \<open>The first half of \<open>refresh\<close>, up to the new tokens: one conditional update decides whether the
  token is used now.\<close>

definition rotate :: "auth \<Rightarrow> string \<Rightarrow> (user \<times> string) iact" where
  "rotate a token =
    bindM (getM iw_now) (\<lambda>now.
    bindM (readI (find_token (cr_sha (ax_crypto a) token))) (\<lambda>found. case found of
      None \<Rightarrow> throwM invalidRefresh
    | Some row \<Rightarrow>
        if rf_expiresAt row \<le> now then throwM invalidRefresh
        else bindM (readI (\<lambda>d. length (filter (rotatable (rf_id row)) (id_tokens d)))) (\<lambda>count.
          bindM (onI (\<lambda>d. d\<lparr>id_tokens := map (\<lambda>r. if rotatable (rf_id row) r then r\<lparr>rf_rotatedAt := Some now\<rparr> else r) (id_tokens d)\<rparr>)) (\<lambda>_.
          if count = 0 then bindM (revokeFamily (rf_family row) now) (\<lambda>_. throwM invalidRefresh)
          else bindM (findUserOrThrow (rf_user row)) (\<lambda>user.
            bindM (readI (tenant_of user)) (\<lambda>tenant.
            bindM (checkActive user tenant) (\<lambda>_. retM (user, rf_family row))))))))"

definition refresh :: "auth \<Rightarrow> string \<Rightarrow> token_pair iact" where
  "refresh a token = bindM (getM iw_now) (\<lambda>now. bindM (rotate a token) (\<lambda>(user, family). issue a user family now))"

definition logout :: "auth \<Rightarrow> string \<Rightarrow> string \<Rightarrow> unit iact" where
  "logout a userId token =
    bindM (readI (find_token (cr_sha (ax_crypto a) token))) (\<lambda>found.
    bindM (getM iw_now) (\<lambda>now. case found of
      None \<Rightarrow> retM ()
    | Some row \<Rightarrow> if rf_user row = userId then revokeFamily (rf_family row) now else retM ()))"

subsection \<open>Second factor\<close>

definition enrollMfa :: "auth \<Rightarrow> string \<Rightarrow> (string \<times> string) iact" where
  "enrollMfa a userId =
    bindM (findUserOrThrow userId) (\<lambda>user.
    if us_mfaEnabled user then throwM (HttpExc 409 ''MFA is already enabled'')
    else bindM draw (\<lambda>secret.
      bindM (sealSecret a secret) (\<lambda>sealed.
      bindM (updateUserRow userId (\<lambda>u. u\<lparr>us_mfaSecret := Some sealed\<rparr>)) (\<lambda>_.
        retM (secret, cr_keyuri (ax_crypto a) (us_email user) secret)))))"

definition recovery_code_of :: "string \<Rightarrow> string" where
  "recovery_code_of r = (let c = map (\<lambda>x. RECOVERY_ALPHABET ! (code x mod length RECOVERY_ALPHABET)) r in take 5 c @ ''-'' @ drop 5 c)"

fun drawCodes :: "nat \<Rightarrow> string list iact" where
  "drawCodes 0 = retM []"
| "drawCodes (Suc n) = bindM draw (\<lambda>r. bindM (drawCodes n) (\<lambda>cs. retM (recovery_code_of r # cs)))"

definition drop_codes :: "string \<Rightarrow> idb \<Rightarrow> idb" where
  "drop_codes i d = d\<lparr>id_codes := filter (\<lambda>r. rc_user r \<noteq> i) (id_codes d)\<rparr>"

definition confirmMfa :: "auth \<Rightarrow> string \<Rightarrow> string \<Rightarrow> string list iact" where
  "confirmMfa a userId c =
    bindM (findUserOrThrow userId) (\<lambda>user. case us_mfaSecret user of
      None \<Rightarrow> throwM (HttpExc 409 ''No pending MFA enrollment'')
    | Some secret \<Rightarrow>
        if us_mfaEnabled user then throwM (HttpExc 409 ''No pending MFA enrollment'')
        else bindM (checkTotp a secret c) (\<lambda>ok.
          if \<not> ok then throwM (HttpExc 400 ''Invalid code'')
          else bindM (drawCodes RECOVERY_CODES) (\<lambda>codes.
            bindM (transactionI (
              bindM (onI (drop_codes userId)) (\<lambda>_.
              bindM (onI (\<lambda>d. d\<lparr>id_codes := id_codes d @ map (\<lambda>c. \<lparr>rc_user = userId, rc_tenant = us_tenant user,
                rc_hash = cr_sha (ax_crypto a) (normalizeRecovery c), rc_usedAt = None\<rparr>) codes\<rparr>)) (\<lambda>_.
              updateUserRow userId (\<lambda>u. u\<lparr>us_mfaEnabled := True\<rparr>))))) (\<lambda>_. retM codes))))"

definition disableMfa :: "auth \<Rightarrow> string \<Rightarrow> string \<Rightarrow> unit iact" where
  "disableMfa a userId c =
    bindM (findUserOrThrow userId) (\<lambda>user. case us_mfaSecret user of
      None \<Rightarrow> throwM (HttpExc 404 ''MFA is not enabled'')
    | Some secret \<Rightarrow>
        if \<not> us_mfaEnabled user then throwM (HttpExc 404 ''MFA is not enabled'')
        else bindM (checkTotp a secret c) (\<lambda>ok.
          if \<not> ok then throwM (HttpExc 400 ''Invalid code'')
          else transactionI (bindM (onI (drop_codes userId)) (\<lambda>_.
            updateUserRow userId (\<lambda>u. u\<lparr>us_mfaEnabled := False, us_mfaSecret := None\<rparr>)))))"

definition updateMe :: "string \<Rightarrow> string \<Rightarrow> user_dto iact" where
  "updateMe userId locale =
    bindM (updateUserRow userId (\<lambda>u. u\<lparr>us_locale := locale\<rparr>)) (\<lambda>_.
    bindM (findUserOrThrow userId) (\<lambda>u.
    bindM (getM iw_now) (\<lambda>now. readI (\<lambda>d.
      (toUserDto now d u)\<lparr>ud_status := (if lockedFor u now \<noteq> 0 then ''locked'' else status_name (us_status u))\<rparr>))))"

section \<open>The controller (\<open>auth.controller.ts\<close>)\<close>

definition loginBody :: "(string \<Rightarrow> bool) \<Rightarrow> json \<Rightarrow> (string \<times> string) option" where
  "loginBody isEmail v = (case (parseEmail isEmail (obj_get v ''email''), parseSized 1 1024 (obj_get v ''password'')) of
      (Some e, Some p) \<Rightarrow> if length e \<le> 320 then Some (e, p) else None | _ \<Rightarrow> None)"

definition alnum :: "char \<Rightarrow> bool" where
  "alnum c \<longleftrightarrow> lower_alpha c \<or> upper_alpha c \<or> digit_char c"

definition is_mfa_code :: "string \<Rightarrow> bool" where
  "is_mfa_code s \<longleftrightarrow> is_totp s \<or> match_classes (replicate 10 alnum) s \<or> match_classes (replicate 5 alnum @ [is_dash] @ replicate 5 alnum) s"

definition mfaBody :: "json \<Rightarrow> (string \<times> string) option" where
  "mfaBody v = (case (obj_get v ''mfa_token'', obj_get v ''code'') of
      (Some (JStr t), Some (JStr c)) \<Rightarrow> if 1 \<le> length t \<and> is_mfa_code c then Some (t, c) else None | _ \<Rightarrow> None)"

definition refreshBody :: "json \<Rightarrow> string option" where
  "refreshBody v = parseSized 1 200 (obj_get v ''refresh_token'')"

definition codeBody :: "json \<Rightarrow> string option" where
  "codeBody v = (case obj_get v ''code'' of Some (JStr c) \<Rightarrow> if is_totp c then Some c else None | _ \<Rightarrow> None)"

definition meBody :: "json \<Rightarrow> string option" where
  "meBody v = parseEnum LOCALES (obj_get v ''locale'')"

definition parseAuth :: "(string \<times> string) list \<Rightarrow> 'a option \<Rightarrow> 'a iact" where
  "parseAuth issues r = liftE (case r of None \<Rightarrow> Inl (HttpProblems 400 issues) | Some x \<Rightarrow> Inr x)"

definition userIdOf :: "principal option \<Rightarrow> string iact" where
  "userIdOf p = (case p of Some q \<Rightarrow> if pr_typ q = TUser then retM (pr_sub q) else throwM (HttpExc 403 ''User token required'')
     | None \<Rightarrow> throwM (HttpExc 403 ''User token required''))"

text \<open>The \<open>Retry-After\<close> header it sets, beside the outcome.\<close>

definition withRetryAfter :: "'a iact \<Rightarrow> iworld \<Rightarrow> string option \<times> (exn + 'a) \<times> iworld" where
  "withRetryAfter m w = (case m w of (r, w') \<Rightarrow> ((case r of Inl (AccountLocked n) \<Rightarrow> Some (show_int n) | _ \<Rightarrow> None), r, w'))"

definition loginEndpoint :: "(string \<Rightarrow> bool) \<Rightarrow> (string \<times> string) list \<Rightarrow> auth \<Rightarrow> json \<Rightarrow> iworld \<Rightarrow> string option \<times> (exn + login_result) \<times> iworld" where
  "loginEndpoint isEmail issues a body w = (case parseAuth issues (loginBody isEmail body) w of
      (Inl e, w') \<Rightarrow> (None, Inl e, w') | (Inr (email, password), w') \<Rightarrow> withRetryAfter (login a email password) w')"

definition mfaEndpoint :: "(string \<times> string) list \<Rightarrow> auth \<Rightarrow> json \<Rightarrow> iworld \<Rightarrow> string option \<times> (exn + token_pair) \<times> iworld" where
  "mfaEndpoint issues a body w = (case parseAuth issues (mfaBody body) w of
      (Inl e, w') \<Rightarrow> (None, Inl e, w') | (Inr (token, c), w') \<Rightarrow> withRetryAfter (verifyMfa a token c) w')"

definition refreshEndpoint :: "(string \<times> string) list \<Rightarrow> auth \<Rightarrow> json \<Rightarrow> token_pair iact" where
  "refreshEndpoint issues a body = bindM (parseAuth issues (refreshBody body)) (refresh a)"

definition logoutEndpoint :: "(string \<times> string) list \<Rightarrow> auth \<Rightarrow> principal option \<Rightarrow> json \<Rightarrow> unit iact" where
  "logoutEndpoint issues a p body = bindM (userIdOf p) (\<lambda>i. bindM (parseAuth issues (refreshBody body)) (logout a i))"

definition updateMeEndpoint :: "(string \<times> string) list \<Rightarrow> principal option \<Rightarrow> json \<Rightarrow> user_dto iact" where
  "updateMeEndpoint issues p body = bindM (userIdOf p) (\<lambda>i. bindM (parseAuth issues (meBody body)) (updateMe i))"

definition enrollEndpoint :: "auth \<Rightarrow> principal option \<Rightarrow> (string \<times> string) iact" where
  "enrollEndpoint a p = bindM (userIdOf p) (enrollMfa a)"

definition confirmEndpoint :: "(string \<times> string) list \<Rightarrow> auth \<Rightarrow> principal option \<Rightarrow> json \<Rightarrow> string list iact" where
  "confirmEndpoint issues a p body = bindM (userIdOf p) (\<lambda>i. bindM (parseAuth issues (codeBody body)) (confirmMfa a i))"

definition disableEndpoint :: "(string \<times> string) list \<Rightarrow> auth \<Rightarrow> principal option \<Rightarrow> json \<Rightarrow> unit iact" where
  "disableEndpoint issues a p body = bindM (userIdOf p) (\<lambda>i. bindM (parseAuth issues (codeBody body)) (disableMfa a i))"

end
