(* ===== verification/Auth_Sessions.thy ===== *)
theory Auth_Sessions
  imports Auth_Service Identity_Properties
begin

text \<open>
  The sessions over time. A session is a family of refresh tokens; \<open>session_step\<close> is one atomic
  stretch of a request, so that requests interleave: a refresh is the rotation of its token, then
  the issue of the next one, with other requests in between.
\<close>

definition live_token :: "refresh_token \<Rightarrow> bool" where
  "live_token r \<longleftrightarrow> rf_rotatedAt r = None \<and> rf_revokedAt r = None"

definition live_in :: "string \<Rightarrow> idb \<Rightarrow> refresh_token list" where
  "live_in f d = filter (\<lambda>r. rf_family r = f \<and> live_token r) (id_tokens d)"

text \<open>\<open>ss_due\<close>: the users and families that a handled request has still to issue tokens for.\<close>

record sessions =
  ss_world :: iworld
  ss_due :: "(user \<times> string) list"

inductive session_step :: "auth \<Rightarrow> sessions \<Rightarrow> sessions \<Rightarrow> bool" for a where
  opened: "session_step a s \<lparr>ss_world = (ss_world s)\<lparr>iw_next := Suc (iw_next (ss_world s))\<rparr>,
      ss_due = (u, iw_rand (ss_world s) (iw_next (ss_world s))) # ss_due s\<rparr>"
| rotated: "rotate a token (ss_world s) = (Inr (u, f), w') \<Longrightarrow> session_step a s \<lparr>ss_world = w', ss_due = (u, f) # ss_due s\<rparr>"
| refused: "rotate a token (ss_world s) = (Inl e, w') \<Longrightarrow> session_step a s (s\<lparr>ss_world := w'\<rparr>)"
| issued: "(u, f) \<in> set (ss_due s) \<Longrightarrow> issue a u f now (ss_world s) = (x, w') \<Longrightarrow>
    session_step a s \<lparr>ss_world = w', ss_due = remove1 (u, f) (ss_due s)\<rparr>"
| ended: "logout a i token (ss_world s) = (x, w') \<Longrightarrow> session_step a s (s\<lparr>ss_world := w'\<rparr>)"
| other: "id_tokens (iw_db w') = filter keep (id_tokens (iw_db (ss_world s))) \<Longrightarrow> iw_rand w' = iw_rand (ss_world s) \<Longrightarrow>
    iw_next (ss_world s) \<le> iw_next w' \<Longrightarrow> session_step a s (s\<lparr>ss_world := w'\<rparr>)"

section \<open>The invariant\<close>

definition due_in :: "string \<Rightarrow> sessions \<Rightarrow> (user \<times> string) list" where
  "due_in f s = filter (\<lambda>p. snd p = f) (ss_due s)"

definition drawn :: "iworld \<Rightarrow> string set" where
  "drawn w = iw_rand w ` {..<iw_next w}"

definition session_inv :: "sessions \<Rightarrow> bool" where
  "session_inv s \<longleftrightarrow> inj (iw_rand (ss_world s)) \<and> distinct (map rf_id (id_tokens (iw_db (ss_world s)))) \<and>
     rf_family ` set (id_tokens (iw_db (ss_world s))) \<union> snd ` set (ss_due s) \<subseteq> drawn (ss_world s) \<and>
     (\<forall>f. length (live_in f (iw_db (ss_world s))) + length (due_in f s) \<le> 1)"

lemma drawn_mono: "iw_rand w' = iw_rand w \<Longrightarrow> iw_next w \<le> iw_next w' \<Longrightarrow> drawn w \<subseteq> drawn w'"
  by (auto simp: drawn_def)

lemma fresh_not_drawn: "inj (iw_rand w) \<Longrightarrow> iw_rand w (iw_next w) \<notin> drawn w"
  by (auto simp: drawn_def dest: injD)

text \<open>What a change that only ends tokens keeps.\<close>

definition ends :: "(refresh_token \<Rightarrow> refresh_token) \<Rightarrow> bool" where
  "ends g \<longleftrightarrow> (\<forall>r. rf_id (g r) = rf_id r \<and> rf_family (g r) = rf_family r \<and> rf_hash (g r) = rf_hash r \<and> rf_user (g r) = rf_user r \<and>
     rf_expiresAt (g r) = rf_expiresAt r \<and> (live_token (g r) \<longrightarrow> live_token r) \<and> (rf_rotatedAt r \<noteq> None \<longrightarrow> rf_rotatedAt (g r) \<noteq> None))"

lemma ends_live: "ends g \<Longrightarrow> length (filter (\<lambda>r. rf_family r = f \<and> live_token r) (map g rs)) \<le> length (filter (\<lambda>r. rf_family r = f \<and> live_token r) rs)"
  by (induction rs) (auto simp: ends_def)

lemma ends_ids: "ends g \<Longrightarrow> map rf_id (map g rs) = map rf_id rs" "ends g \<Longrightarrow> rf_family ` set (map g rs) = rf_family ` set rs"
  by (auto simp: ends_def image_iff)

definition revoking :: "string \<Rightarrow> int \<Rightarrow> refresh_token \<Rightarrow> refresh_token" where
  "revoking f now r = (if rf_family r = f \<and> rf_revokedAt r = None then r\<lparr>rf_revokedAt := Some now\<rparr> else r)"

definition rotating :: "string \<Rightarrow> int \<Rightarrow> refresh_token \<Rightarrow> refresh_token" where
  "rotating i now r = (if rotatable i r then r\<lparr>rf_rotatedAt := Some now\<rparr> else r)"

lemma ends_revoking: "ends (revoking f now)" and ends_rotating: "ends (rotating i now)"
  by (auto simp: ends_def revoking_def rotating_def live_token_def rotatable_def)

lemma revokeFamily_apply: "revokeFamily f now w = (Inr (), w\<lparr>iw_db := (iw_db w)\<lparr>id_tokens := map (revoking f now) (id_tokens (iw_db w))\<rparr>\<rparr>)"
  by (simp add: revokeFamily_def revoking_def[abs_def])

lemma revoked_dead: "filter (\<lambda>r. rf_family r = f \<and> live_token r) (map (revoking f now) rs) = []"
  by (induction rs) (auto simp: revoking_def live_token_def)

text \<open>The outcomes of \<open>rotate\<close>.\<close>

definition rotated_world :: "string \<Rightarrow> iworld \<Rightarrow> iworld" where
  "rotated_world i w = w\<lparr>iw_db := (iw_db w)\<lparr>id_tokens := map (rotating i (iw_now w)) (id_tokens (iw_db w))\<rparr>\<rparr>"

lemma checkActive_state: "checkActive u t w = (x, w') \<Longrightarrow> w' = w"
  by (auto simp: checkActive_def split: if_splits)

lemma rotate_cases:
  assumes "rotate a token w = (x, w')"
  obtains (unknown) "w' = w" "x = Inl invalidRefresh"
      "\<forall>row. find_token (cr_sha (ax_crypto a) token) (iw_db w) = Some row \<longrightarrow> rf_expiresAt row \<le> iw_now w"
  | (replayed) row where "find_token (cr_sha (ax_crypto a) token) (iw_db w) = Some row" "x = Inl invalidRefresh" "iw_now w < rf_expiresAt row"
      "filter (rotatable (rf_id row)) (id_tokens (iw_db w)) = []"
      "w' = w\<lparr>iw_db := (iw_db w)\<lparr>id_tokens := map (revoking (rf_family row) (iw_now w)) (id_tokens (iw_db w))\<rparr>\<rparr>"
  | (used) row where "find_token (cr_sha (ax_crypto a) token) (iw_db w) = Some row" "filter (rotatable (rf_id row)) (id_tokens (iw_db w)) \<noteq> []"
      "iw_now w < rf_expiresAt row" "w' = rotated_world (rf_id row) w" "\<And>u f. x = Inr (u, f) \<Longrightarrow> f = rf_family row \<and> us_id u = rf_user row"
proof (cases "find_token (cr_sha (ax_crypto a) token) (iw_db w)")
  case None
  then show ?thesis using assms unknown by (simp add: rotate_def)
next
  case (Some row)
  show ?thesis
  proof (cases "rf_expiresAt row \<le> iw_now w")
    case True
    then show ?thesis using assms unknown Some by (simp add: rotate_def)
  next
    case False
    show ?thesis
    proof (cases "filter (rotatable (rf_id row)) (id_tokens (iw_db w)) = []")
      case True
      then have "map (rotating (rf_id row) (iw_now w)) (id_tokens (iw_db w)) = id_tokens (iw_db w)"
        by (intro map_idI) (auto simp: rotating_def filter_empty_conv)
      then show ?thesis using assms Some False True
        by (intro replayed[of row]) (auto simp: rotate_def revokeFamily_apply rotating_def[symmetric])
    next
      case ne: False
      then have *: "w' = rotated_world (rf_id row) w \<and> (\<forall>u f. x = Inr (u, f) \<longrightarrow> f = rf_family row \<and> us_id u = rf_user row)"
        using assms Some False
        by (cases x) (auto simp: rotate_def rotated_world_def rotating_def[symmetric] icomp_results findUserOrThrow_Inr findUserOrThrow_Inl
            dest: checkActive_state find_user_id)
      show ?thesis by (rule used[OF Some ne]) (use * False in auto)
    qed
  qed
qed

text \<open>The outcome of \<open>issue\<close>: nothing, or one live token more and the sign-in noted.\<close>

definition fresh_token :: "auth \<Rightarrow> user \<Rightarrow> string \<Rightarrow> int \<Rightarrow> iworld \<Rightarrow> refresh_token" where
  "fresh_token a u f now w = \<lparr>rf_id = iw_rand w (Suc (iw_next w)), rf_tenant = us_tenant u, rf_user = us_id u, rf_family = f,
     rf_hash = cr_sha (ax_crypto a) (iw_rand w (iw_next w)), rf_expiresAt = now + REFRESH_TTL_MS, rf_rotatedAt = None, rf_revokedAt = None\<rparr>"

definition signed_in :: "string \<Rightarrow> int \<Rightarrow> user \<Rightarrow> user" where
  "signed_in i now u = (if us_id u = i then u\<lparr>us_failedLogins := 0, us_lockedUntil := None, us_lastLoginAt := Some now\<rparr> else u)"

lemma sign_apply: "sign c s claims ttl w = (Inr (cr_jws c (sk_kid (signingKey s)) (sk_private (signingKey s)) (payload s claims ttl (iw_now w div 1000))), w)"
  by (simp add: sign_def Let_def)

lemma insertToken_Inr: "insertToken row w = (Inr (), w') \<longleftrightarrow>
    (\<forall>r \<in> set (id_tokens (iw_db w)). rf_id r \<noteq> iw_rand w (iw_next w) \<and> rf_hash r \<noteq> rf_hash row) \<and>
    w' = w\<lparr>iw_next := Suc (iw_next w), iw_db := (iw_db w)\<lparr>id_tokens := id_tokens (iw_db w) @ [row\<lparr>rf_id := iw_rand w (iw_next w)\<rparr>]\<rparr>\<rparr>"
  by (auto simp: insertToken_def list_ex_iff)

lemma insertToken_Inl: "insertToken row w = (Inl e, w') \<Longrightarrow> w' = w\<lparr>iw_next := Suc (iw_next w)\<rparr>"
  by (auto simp: insertToken_def split: if_splits)

lemma issue_Inr:
  assumes "issue a u f now w = (Inr tp, w')"
  shows "w' = w\<lparr>iw_next := iw_next w + 2, iw_db := (iw_db w)\<lparr>id_tokens := id_tokens (iw_db w) @ [fresh_token a u f now w],
      id_users := map (signed_in (us_id u) now) (id_users (iw_db w))\<rparr>\<rparr> \<and>
    (\<forall>r \<in> set (id_tokens (iw_db w)). rf_id r \<noteq> rf_id (fresh_token a u f now w) \<and> rf_hash r \<noteq> rf_hash (fresh_token a u f now w)) \<and>
    tp = \<lparr>tp_access = cr_jws (ax_crypto a) (sk_kid (signingKey (ax_signer a))) (sk_private (signingKey (ax_signer a)))
        (payload (ax_signer a) (user_claims u (perms_of (us_id u) (iw_db w))) ACCESS_TTL (iw_now w div 1000)),
      tp_refresh = iw_rand w (iw_next w), tp_expires_in = ACCESS_TTL\<rparr>"
  using assms
  by (auto simp: issue_def sign_apply icomp_results insertToken_Inr updateUserRow_Inr fresh_token_def signed_in_def[abs_def])

lemma issue_Inl: "issue a u f now w = (Inl e, w') \<Longrightarrow> iw_db w' = iw_db w \<and> iw_rand w' = iw_rand w \<and> iw_next w \<le> iw_next w'"
  by (auto simp: issue_def sign_apply icomp_results insertToken_Inr updateUserRow_Inl dest!: insertToken_Inl)

section \<open>Every step keeps the invariant\<close>

lemma inv_ending:
  assumes "session_inv s" and "id_tokens (iw_db w') = map g (filter keep (id_tokens (iw_db (ss_world s))))" and "ends g"
    and "iw_rand w' = iw_rand (ss_world s)" and "iw_next (ss_world s) \<le> iw_next w'"
  shows "session_inv (s\<lparr>ss_world := w'\<rparr>)"
proof -
  let ?rs = "id_tokens (iw_db (ss_world s))"
  have less: "length (live_in f (iw_db w')) \<le> length (live_in f (iw_db (ss_world s)))" for f
  proof -
    have "length (filter P (filter keep rs)) \<le> length (filter P rs)" for P and rs :: "refresh_token list"
      by (induction rs) auto
    then show ?thesis unfolding live_in_def assms(2) using ends_live[OF assms(3)] order_trans by blast
  qed
  have "length (live_in f (iw_db w')) + length (due_in f s) \<le> 1" for f
    using less[of f] assms(1) unfolding session_inv_def by (meson add_le_mono1 order_trans)
  moreover have "distinct (map rf_id (id_tokens (iw_db w')))"
    using assms(1) unfolding assms(2) ends_ids(1)[OF assms(3)] session_inv_def by (simp add: distinct_map_filter)
  moreover have "rf_family ` set (id_tokens (iw_db w')) \<subseteq> rf_family ` set ?rs"
    unfolding assms(2) ends_ids(2)[OF assms(3)] by auto
  moreover have "rf_family ` set ?rs \<union> snd ` set (ss_due s) \<subseteq> drawn w'" "inj (iw_rand w')"
    using assms(1,4) drawn_mono[OF assms(4,5)] by (auto simp: session_inv_def)
  ultimately show ?thesis unfolding session_inv_def due_in_def by (simp add: subset_trans)
qed

lemma inv_world: "session_inv s \<Longrightarrow> id_tokens (iw_db w') = id_tokens (iw_db (ss_world s)) \<Longrightarrow> iw_rand w' = iw_rand (ss_world s) \<Longrightarrow>
    iw_next (ss_world s) \<le> iw_next w' \<Longrightarrow> session_inv (s\<lparr>ss_world := w'\<rparr>)"
  using inv_ending[of s w' id "\<lambda>_. True"] by (simp add: ends_def)

lemma inv_opened:
  assumes "session_inv s"
  shows "session_inv \<lparr>ss_world = (ss_world s)\<lparr>iw_next := Suc (iw_next (ss_world s))\<rparr>, ss_due = (u, iw_rand (ss_world s) (iw_next (ss_world s))) # ss_due s\<rparr>"
proof -
  let ?f = "iw_rand (ss_world s) (iw_next (ss_world s))"
  have f: "?f \<notin> drawn (ss_world s)" using assms fresh_not_drawn by (simp add: session_inv_def)
  then have "live_in ?f (iw_db (ss_world s)) = []" "due_in ?f s = []"
    using assms by (auto simp: session_inv_def live_in_def due_in_def filter_empty_conv)
  then have "length (live_in g (iw_db (ss_world s))) + length (filter (\<lambda>p. snd p = g) ((u, ?f) # ss_due s)) \<le> 1" for g
    using assms by (cases "g = ?f") (auto simp: session_inv_def due_in_def)
  moreover have "drawn ((ss_world s)\<lparr>iw_next := Suc (iw_next (ss_world s))\<rparr>) = insert ?f (drawn (ss_world s))"
    by (auto simp: drawn_def lessThan_Suc)
  ultimately show ?thesis using assms by (auto simp: session_inv_def due_in_def)
qed

lemma rotating_live:
  assumes "distinct (map rf_id rs)" and "row \<in> set rs" and "filter (rotatable (rf_id row)) rs \<noteq> []"
  shows "length (filter (\<lambda>r. rf_family r = f \<and> live_token r) rs) =
    length (filter (\<lambda>r. rf_family r = f \<and> live_token r) (map (rotating (rf_id row) now) rs)) + (if f = rf_family row then 1 else 0)"
  using assms
proof (induction rs)
  case (Cons r rs)
  have other: "map (rotating (rf_id row) now) rs = rs" if "rf_id r = rf_id row"
  proof (rule map_idI)
    fix x assume "x \<in> set rs"
    then have "rf_id x \<noteq> rf_id row" using Cons.prems(1) that by (auto simp: image_iff)
    then show "rotating (rf_id row) now x = x" by (simp add: rotating_def rotatable_def)
  qed
  show ?case
  proof (cases "rf_id r = rf_id row")
    case True
    then have "r = row" using Cons.prems(1,2) by (force simp: image_iff)
    moreover have "filter (rotatable (rf_id row)) rs = []"
      using Cons.prems(1) True by (auto simp: filter_empty_conv rotatable_def image_iff)
    ultimately have "rotatable (rf_id row) row" using Cons.prems(3) by (auto split: if_splits)
    then have "live_token r" "\<not> live_token (rotating (rf_id row) now r)"
      using \<open>r = row\<close> by (auto simp: rotating_def rotatable_def live_token_def)
    then show ?thesis using \<open>r = row\<close> unfolding list.map other[OF True] by simp
  next
    case False
    then have "rotating (rf_id row) now r = r" "\<not> rotatable (rf_id row) r" by (auto simp: rotating_def rotatable_def)
    then show ?thesis using Cons False by auto
  qed
qed simp

lemma find_token_row: "find_token h d = Some row \<Longrightarrow> row \<in> set (id_tokens d) \<and> rf_hash row = h"
  by (auto simp: find_token_def find_Some_iff)

lemma inv_rotated:
  assumes "session_inv s" and "rotate a token (ss_world s) = (Inr (u, f), w')"
  shows "session_inv \<lparr>ss_world = w', ss_due = (u, f) # ss_due s\<rparr>"
  using assms(2)
proof (cases rule: rotate_cases)
  case (used row)
  have f: "f = rf_family row" using used(5) by blast
  note w' = used(4)[unfolded rotated_world_def]
  let ?rs = "id_tokens (iw_db (ss_world s))"
  have row: "row \<in> set ?rs" using find_token_row[OF used(1)] by simp
  have d: "distinct (map rf_id ?rs)" using assms(1) by (simp add: session_inv_def)
  have "length (live_in g (iw_db w')) + length (filter (\<lambda>p. snd p = g) ((u, f) # ss_due s)) \<le> 1" for g
  proof -
    have "length (live_in g (iw_db (ss_world s))) = length (live_in g (iw_db w')) + (if g = f then 1 else 0)"
      using rotating_live[OF d row used(2), of g "iw_now (ss_world s)"] by (simp only: live_in_def w' f) simp
    moreover have "length (live_in g (iw_db (ss_world s))) + length (due_in g s) \<le> 1" using assms(1) by (simp add: session_inv_def)
    ultimately show ?thesis by (cases "g = f") (simp_all add: due_in_def)
  qed
  moreover have "session_inv (s\<lparr>ss_world := w'\<rparr>)"
    by (rule inv_ending[OF assms(1), of _ "rotating (rf_id row) (iw_now (ss_world s))" "\<lambda>_. True"]) (simp_all add: w' ends_rotating)
  moreover have "f \<in> drawn w'" using row assms(1) unfolding f w' by (auto simp: session_inv_def drawn_def)
  ultimately show ?thesis by (auto simp: session_inv_def due_in_def)
qed auto

lemma inv_refused:
  assumes "session_inv s" and "rotate a token (ss_world s) = (x, w')"
  shows "session_inv (s\<lparr>ss_world := w'\<rparr>)"
  using assms(2)
proof (cases rule: rotate_cases)
  case (replayed row)
  then show ?thesis by (intro inv_ending[OF assms(1), of _ "revoking (rf_family row) (iw_now (ss_world s))" "\<lambda>_. True"]) (simp_all add: ends_revoking)
next
  case (used row)
  then show ?thesis by (intro inv_ending[OF assms(1), of _ "rotating (rf_id row) (iw_now (ss_world s))" "\<lambda>_. True"]) (simp_all add: rotated_world_def ends_rotating)
qed (use assms(1) in simp)

lemma inv_issued:
  assumes "session_inv s" and "(u, f) \<in> set (ss_due s)" and "issue a u f now (ss_world s) = (x, w')"
  shows "session_inv \<lparr>ss_world = w', ss_due = remove1 (u, f) (ss_due s)\<rparr>"
proof -
  have due: "length (filter (\<lambda>p. snd p = g) (remove1 (u, f) (ss_due s))) = length (due_in g s) - (if g = f then 1 else 0)" for g
  proof -
    have "length (filter P (remove1 q xs)) = length (filter P xs) - (if P q then 1 else 0)" if "q \<in> set xs" for P q and xs :: "(user \<times> string) list"
    proof -
      have "0 < length (filter P xs)" if "P q" using that \<open>q \<in> set xs\<close> by (auto simp: filter_empty_conv)
      then show ?thesis by (cases "P q") (simp_all add: filter_remove1 length_remove1 that)
    qed
    from this[OF assms(2), of "\<lambda>p. snd p = g"] show ?thesis unfolding due_in_def by (cases "g = f") simp_all
  qed
  have pos: "0 < length (due_in f s)" using assms(2) by (force simp: due_in_def filter_empty_conv)
  have sub: "set (remove1 (u, f) (ss_due s)) \<subseteq> set (ss_due s)" by (rule set_remove1_subset)
  show ?thesis
  proof (cases x)
    case (Inl e)
    note w' = issue_Inl[OF assms(3)[unfolded Inl]]
    have "session_inv (s\<lparr>ss_world := w'\<rparr>)" using w' by (intro inv_world[OF assms(1)]) auto
    then have i: "session_inv (s\<lparr>ss_world := w'\<rparr>)" .
    have "length (live_in g (iw_db w')) + length (filter (\<lambda>p. snd p = g) (remove1 (u, f) (ss_due s))) \<le> 1" for g
    proof -
      have "length (live_in g (iw_db w')) + length (due_in g s) \<le> 1" using i by (simp add: session_inv_def due_in_def)
      then show ?thesis using due[of g] by (simp split: if_splits)
    qed
    moreover have "snd ` set (remove1 (u, f) (ss_due s)) \<subseteq> drawn w'" 
      using i by (intro subset_trans[OF image_mono[OF sub]]) (simp add: session_inv_def)
    ultimately show ?thesis using i by (simp add: session_inv_def due_in_def)
  next
    case (Inr tp)
    note I = issue_Inr[OF assms(3)[unfolded Inr]]
    have live: "live_in g (iw_db w') = live_in g (iw_db (ss_world s)) @ (if g = f then [fresh_token a u f now (ss_world s)] else [])" for g
      using I by (simp add: live_in_def) (simp add: fresh_token_def live_token_def)
    have "length (live_in g (iw_db w')) + length (filter (\<lambda>p. snd p = g) (remove1 (u, f) (ss_due s))) \<le> 1" for g
    proof -
      have "length (live_in g (iw_db (ss_world s))) + length (due_in g s) \<le> 1" using assms(1) by (simp add: session_inv_def)
      moreover have "length (live_in f (iw_db (ss_world s))) = 0 \<and> length (due_in f s) = 1" if "g = f"
        using calculation pos unfolding that by linarith
      ultimately show ?thesis unfolding live due by (cases "g = f") simp_all
    qed
    moreover have "distinct (map rf_id (id_tokens (iw_db w')))"
      using assms(1) I by (auto simp: session_inv_def)
    moreover have "rf_family ` set (id_tokens (iw_db w')) \<union> snd ` set (remove1 (u, f) (ss_due s)) \<subseteq> drawn w'"
    proof -
      have d: "drawn (ss_world s) \<subseteq> drawn w'" using I by (intro drawn_mono) auto
      have r: "rf_family ` set (id_tokens (iw_db w')) = insert f (rf_family ` set (id_tokens (iw_db (ss_world s))))"
        using I by (simp add: fresh_token_def)
      have f: "f \<in> snd ` set (ss_due s)" using assms(2) by force
      have k: "rf_family ` set (id_tokens (iw_db (ss_world s))) \<subseteq> drawn (ss_world s)" "snd ` set (ss_due s) \<subseteq> drawn (ss_world s)"
        using assms(1) by (simp_all add: session_inv_def)
      have "snd ` set (remove1 (u, f) (ss_due s)) \<subseteq> drawn w'"
        by (rule subset_trans[OF image_mono[OF sub] subset_trans[OF k(2) d]])
      moreover have "rf_family ` set (id_tokens (iw_db w')) \<subseteq> drawn w'"
        unfolding r using subset_trans[OF k(1) d] subsetD[OF subset_trans[OF k(2) d] f] by simp
      ultimately show ?thesis by (rule Un_least[rotated])
    qed
    moreover have "inj (iw_rand w')" using assms(1) I by (simp add: session_inv_def)
    ultimately show ?thesis by (simp add: session_inv_def due_in_def)
  qed
qed

lemma logout_state: "logout a i token w = (x, w') \<Longrightarrow> w' = w \<or> (\<exists>f. w' = w\<lparr>iw_db := (iw_db w)\<lparr>id_tokens := map (revoking f (iw_now w)) (id_tokens (iw_db w))\<rparr>\<rparr>)"
  by (auto simp: logout_def revokeFamily_apply split: option.splits if_splits)

lemma session_step_inv: "session_step a s s' \<Longrightarrow> session_inv s \<Longrightarrow> session_inv s'"
proof (induction rule: session_step.induct)
  case (ended i token s x w')
  from logout_state[OF ended(1)] show ?case
  proof (elim disjE exE)
    fix f assume "w' = (ss_world s)\<lparr>iw_db := (iw_db (ss_world s))\<lparr>id_tokens := map (revoking f (iw_now (ss_world s))) (id_tokens (iw_db (ss_world s)))\<rparr>\<rparr>"
    then show ?thesis using ended(2) by (intro inv_ending[of s w' "revoking f (iw_now (ss_world s))" "\<lambda>_. True"]) (simp_all add: ends_revoking)
  qed (use ended(2) in simp)
next
  case (other w' keep s)
  then show ?case by (intro inv_ending[of s w' id keep]) (simp_all add: ends_def)
qed (auto intro: inv_opened inv_rotated inv_refused inv_issued)

section \<open>Properties\<close>

text \<open>No session and no token yet.\<close>

definition no_sessions :: "sessions \<Rightarrow> bool" where
  "no_sessions s \<longleftrightarrow> id_tokens (iw_db (ss_world s)) = [] \<and> ss_due s = []"

text \<open>C25. One live refresh token per session: however logins, refreshes, log-outs and any other requests
  interleave, also a refresh that another request overtakes between the rotation of its token and
  the issue of the next, a family never has two tokens that are neither rotated nor revoked, nor
  one beside a request that will still issue one.\<close>

theorem one_live_token_per_session:
  assumes "(session_step a)\<^sup>*\<^sup>* s s'" and "no_sessions s" and "inj (iw_rand (ss_world s))"
  shows "length (live_in f (iw_db (ss_world s'))) + length (due_in f s') \<le> 1"
proof -
  have "session_inv s" using assms(2,3) by (simp add: session_inv_def no_sessions_def live_in_def due_in_def)
  with assms(1) have "session_inv s'" by (induction rule: rtranclp_induct) (auto intro: session_step_inv)
  then show ?thesis by (simp add: session_inv_def)
qed

lemma find_token_map:
  assumes "ends g" and "find_token h d = Some row"
  shows "find_token h (d\<lparr>id_tokens := map g (id_tokens d) @ rs\<rparr>) = Some (g row)"
proof -
  have "find (\<lambda>r. rf_hash r = h) (map g xs @ rs) = Some (g row)" if "find (\<lambda>r. rf_hash r = h) xs = Some row" for xs
    using that assms(1) by (induction xs) (auto simp: ends_def split: if_splits)
  then show ?thesis using assms(2) by (simp add: find_token_def)
qed

lemma distinct_ids_row: "distinct (map rf_id rs) \<Longrightarrow> r \<in> set rs \<Longrightarrow> row \<in> set rs \<Longrightarrow> rf_id r = rf_id row \<Longrightarrow> r = row"
  by (simp add: distinct_map inj_on_def)

lemma rotatable_row:
  assumes "distinct (map rf_id (id_tokens d))" and "find_token h d = Some row" and "filter (rotatable (rf_id row)) (id_tokens d) \<noteq> []"
  shows "live_token row" and "rotating (rf_id row) now row = row\<lparr>rf_rotatedAt := Some now\<rparr>"
proof -
  obtain r where "r \<in> set (id_tokens d)" "rotatable (rf_id row) r" using assms(3) by (auto simp: filter_empty_conv)
  then have "rotatable (rf_id row) row"
    using distinct_ids_row[OF assms(1)] find_token_row[OF assms(2)] by (metis rotatable_def)
  then show "live_token row" "rotating (rf_id row) now row = row\<lparr>rf_rotatedAt := Some now\<rparr>"
    by (simp_all add: rotatable_def live_token_def rotating_def)
qed

lemma replay_refused:
  assumes "distinct (map rf_id (id_tokens (iw_db w)))" and "find_token (cr_sha (ax_crypto a) token) (iw_db w) = Some row"
    and "rf_rotatedAt row \<noteq> None" and "iw_now w < rf_expiresAt row"
  shows "\<exists>w'. refresh a token w = (Inl invalidRefresh, w') \<and> live_in (rf_family row) (iw_db w') = []"
proof -
  obtain x w' where r: "rotate a token w = (x, w')" by fastforce
  from r have "x = Inl invalidRefresh \<and> live_in (rf_family row) (iw_db w') = []"
  proof (cases rule: rotate_cases)
    case (replayed row')
    then show ?thesis using assms(2) revoked_dead by (simp add: live_in_def)
  next
    case (used row')
    then show ?thesis using rotatable_row(1)[OF assms(1,2)] assms(2,3) by (simp add: live_token_def)
  qed (use assms in auto)
  then show ?thesis using r by (simp add: refresh_def)
qed


text \<open>Reuse detection can be overtaken: of two requests with the same refresh token, the second is
  refused and revokes the session between the rotation and the issue of the first, which then
  issues all the same. The session the code meant to end goes on with a live token.\<close>

theorem revoked_session_lives_on:
  assumes "distinct (map rf_id (id_tokens (iw_db w)))"
    and "rotate a token w = (Inr (u, f), w1)" and "refresh a token w1 = (Inl e, w2)" and "issue a u f now w2 = (Inr tp, w3)"
  shows "e = invalidRefresh \<and> live_in f (iw_db w2) = [] \<and>
    (\<exists>r. live_in f (iw_db w3) = [r] \<and> rf_hash r = cr_sha (ax_crypto a) (tp_refresh tp))"
  using assms(2)
proof (cases rule: rotate_cases)
  case (used row)
  have f: "f = rf_family row" using used(5) by blast
  have d: "distinct (map rf_id (id_tokens (iw_db w1)))"
    using assms(1) ends_ids(1)[OF ends_rotating] by (simp add: used(4) rotated_world_def del: map_map)
  have "find_token (cr_sha (ax_crypto a) token) (iw_db w1) = Some (row\<lparr>rf_rotatedAt := Some (iw_now w)\<rparr>)"
    using find_token_map[OF ends_rotating used(1), of "rf_id row" "iw_now w" "[]"] rotatable_row(2)[OF assms(1) used(1,2), of "iw_now w"]
    by (simp add: used(4) rotated_world_def)
  moreover have "iw_now w1 < rf_expiresAt (row\<lparr>rf_rotatedAt := Some (iw_now w)\<rparr>)" using used(3,4) by (simp add: rotated_world_def)
  ultimately obtain w' where r: "refresh a token w1 = (Inl invalidRefresh, w')" "live_in f (iw_db w') = []"
    using replay_refused[OF d, of a token "row\<lparr>rf_rotatedAt := Some (iw_now w)\<rparr>"] unfolding f by auto
  then have e: "e = invalidRefresh" "w2 = w'" using assms(3) by auto
  have "live_in f (iw_db w3) = live_in f (iw_db w2) @ [fresh_token a u f now w2]"
    using issue_Inr[OF assms(4)] by (simp add: live_in_def) (simp add: fresh_token_def live_token_def)
  then show ?thesis using r(2) issue_Inr[OF assms(4)] unfolding e by (simp add: fresh_token_def)
qed simp_all

section \<open>A session\<close>

text \<open>Parameters a witness can evaluate: hashes and signatures that only mark their input.\<close>

definition demo_crypto :: crypto where
  "demo_crypto = \<lparr>cr_sha = id, cr_verify = (=), cr_less = (<), cr_public = id,
     cr_jws = (\<lambda>kid key p. kid @ ''.'' @ js_string p), cr_jwt = (\<lambda>ks i now t. None), cr_totp = (\<lambda>now c s. c = s), cr_keyuri = (\<lambda>e s. s),
     cr_gcm = (\<lambda>k n p. (p, replicate 16 0)), cr_gcm_open = (\<lambda>k n c t. Some c)\<rparr>"

definition demo_auth :: auth where
  "demo_auth = \<lparr>ax_crypto = demo_crypto, ax_signer = \<lparr>sg_keys = [\<lparr>sk_kid = ''k1'', sk_rsa = True, sk_private = ''p''\<rparr>], sg_issuer = ''oe''\<rparr>, ax_key = replicate 32 0\<rparr>"

definition demo_session :: "int option \<Rightarrow> refresh_token" where
  "demo_session rotated = \<lparr>rf_id = ''t1'', rf_tenant = Some demo_tenant_id, rf_user = demo_uid CHR ''a'', rf_family = ''f'', rf_hash = ''secret token'',
     rf_expiresAt = 1000, rf_rotatedAt = rotated, rf_revokedAt = None\<rparr>"

definition demo_signed_in :: "int option \<Rightarrow> iworld" where
  "demo_signed_in rotated = demo_iworld\<lparr>iw_db := demo_idb\<lparr>id_tokens := [demo_session rotated]\<rparr>\<rparr>"

lemma one_live_token_per_session_witness:
  "length (live_in ''f'' demo_idb) \<le> 1"
proof -
  let ?s = "\<lparr>ss_world = demo_iworld\<lparr>iw_rand := \<lambda>n. replicate n CHR ''r''\<rparr>, ss_due = []\<rparr>"
  have "no_sessions ?s" by (simp add: no_sessions_def demo_iworld_def demo_idb_def)
  moreover have "inj (iw_rand (ss_world ?s))"
  proof (rule injI)
    fix m n assume "iw_rand (ss_world ?s) m = iw_rand (ss_world ?s) n"
    then have "replicate m CHR ''r'' = replicate n CHR ''r''" by simp
    from arg_cong[OF this, of length] show "m = n" by simp
  qed
  ultimately show ?thesis
    using one_live_token_per_session[where a = demo_auth and s = ?s and s' = ?s and f = "''f''"] by (simp add: demo_iworld_def)
qed

lemma demo_distinct: "distinct (map rf_id (id_tokens (iw_db (demo_signed_in r))))"
  by (simp add: demo_signed_in_def)


lemma revoked_session_lives_on_witness:
  "\<exists>u w1 w2 tp w3 r. rotate demo_auth ''secret token'' (demo_signed_in None) = (Inr (u, ''f''), w1) \<and>
     refresh demo_auth ''secret token'' w1 = (Inl invalidRefresh, w2) \<and> live_in ''f'' (iw_db w2) = [] \<and>
     issue demo_auth u ''f'' 0 w2 = (Inr tp, w3) \<and> live_in ''f'' (iw_db w3) = [r]"
proof -
  let ?w = "demo_signed_in None"
  let ?r = "rotate demo_auth ''secret token'' ?w"
  let ?s = "refresh demo_auth ''secret token'' (snd ?r)"
  let ?u = "demo_user CHR ''a''"
  have 1: "fst ?r = Inr (?u, ''f'')" by code_simp
  have 2: "isl (fst ?s)" by code_simp
  have 3: "\<not> isl (fst (issue demo_auth ?u ''f'' 0 (snd ?s)))" by code_simp
  obtain e where s: "?s = (Inl e, snd ?s)" using 2 by (metis isl_def prod.collapse)
  obtain tp where i: "issue demo_auth ?u ''f'' 0 (snd ?s) = (Inr tp, snd (issue demo_auth ?u ''f'' 0 (snd ?s)))"
    using 3 by (metis isl_def obj_sumE prod.collapse)
  have r: "?r = (Inr (?u, ''f''), snd ?r)" using 1 by (metis prod.collapse)
  from revoked_session_lives_on[OF demo_distinct r s i] r s i show ?thesis by metis
qed

end
