(* ===== verification/Auth_Lockout.thy ===== *)
theory Auth_Lockout
  imports Auth_Sessions
begin

text \<open>
  Failed logins, and what an access token is good for at the guard.
\<close>

section \<open>One account\<close>

definition failed_once :: "string \<Rightarrow> int \<Rightarrow> user \<Rightarrow> user" where
  "failed_once i now u = (if us_id u \<noteq> i then u
     else if us_failedLogins u + 1 < MAX_FAILURES then u\<lparr>us_failedLogins := us_failedLogins u + 1\<rparr>
     else u\<lparr>us_failedLogins := 0, us_lockedUntil := Some (now + LOCK_MS)\<rparr>)"

lemma find_user_row: "distinct (map us_id (id_users d)) \<Longrightarrow> u \<in> set (id_users d) \<Longrightarrow> find_user (us_id u) d = Some u"
proof -
  have "distinct (map us_id us) \<Longrightarrow> u \<in> set us \<Longrightarrow> find (\<lambda>v. us_id v = us_id u) us = Some u" for us :: "user list"
    by (induction us) (auto simp: image_iff)
  then show "distinct (map us_id (id_users d)) \<Longrightarrow> u \<in> set (id_users d) \<Longrightarrow> ?thesis" by (simp add: find_user_def)
qed

lemma updateUserRow_found: "find_user i (iw_db w) = Some u \<Longrightarrow> updateUserRow i f w =
    (Inr (), w\<lparr>iw_db := (iw_db w)\<lparr>id_users := map (\<lambda>u. if us_id u = i then f u else u) (id_users (iw_db w))\<rparr>\<rparr>)"
  by (simp add: updateUserRow_def)

lemma findUserOrThrow_found: "find_user i (iw_db w) = Some u \<Longrightarrow> findUserOrThrow i w = (Inr u, w)"
  by (simp add: findUserOrThrow_def)

text \<open>A failure counts, and the fifth locks.\<close>

lemma recordFailure_row:
  assumes "find_user i (iw_db w) = Some u"
  shows "recordFailure i now w =
    ((if us_failedLogins u + 1 < MAX_FAILURES then Inr () else Inl (AccountLocked 900)),
     w\<lparr>iw_db := (iw_db w)\<lparr>id_users := map (\<lambda>v. if us_id v = i then
        (if us_failedLogins u + 1 < MAX_FAILURES then v\<lparr>us_failedLogins := us_failedLogins v + 1\<rparr>
         else v\<lparr>us_failedLogins := 0, us_lockedUntil := Some (now + LOCK_MS)\<rparr>) else v) (id_users (iw_db w))\<rparr>\<rparr>)"
proof -
  let ?f = "\<lambda>u :: user. u\<lparr>us_failedLogins := us_failedLogins u + 1\<rparr>"
  define g where "g = (\<lambda>v :: user. if us_id v = i then ?f v else v)"
  let ?w = "w\<lparr>iw_db := (iw_db w)\<lparr>id_users := map g (id_users (iw_db w))\<rparr>\<rparr>"
  have one: "updateUserRow i ?f w = (Inr (), ?w)"
    by (simp only: updateUserRow_found[OF assms] g_def)
  have "us_id u = i" using find_user_id[OF assms] by simp
  then have "find_user i (iw_db ?w) = Some (?f u)"
    using find_user_map[of g i "iw_db w"] assms by (simp add: g_def)
  note two = findUserOrThrow_found[OF this] and three = updateUserRow_found[OF this]
  show ?thesis
  proof (cases "us_failedLogins u + 1 < MAX_FAILURES")
    case True
    then show ?thesis unfolding recordFailure_def by (simp add: one[simplified] two[simplified]) (simp add: g_def)
  next
    case False
    then show ?thesis unfolding recordFailure_def
      by (simp add: one[simplified] two[simplified] three[simplified])
        (auto simp: g_def LOCK_MS_def)
  qed
qed

lemma recordFailure_once:
  assumes "distinct (map us_id (id_users (iw_db w)))" and "u \<in> set (id_users (iw_db w))"
  shows "recordFailure (us_id u) now w =
    ((if us_failedLogins u + 1 < MAX_FAILURES then Inr () else Inl (AccountLocked 900)),
     w\<lparr>iw_db := (iw_db w)\<lparr>id_users := map (failed_once (us_id u) now) (id_users (iw_db w))\<rparr>\<rparr>)"
proof -
  have "v = u" if "v \<in> set (id_users (iw_db w))" "us_id v = us_id u" for v
    using assms that by (auto simp: distinct_map inj_on_def)
  then have "map (\<lambda>v. if us_id v = us_id u then
        (if us_failedLogins u + 1 < MAX_FAILURES then v\<lparr>us_failedLogins := us_failedLogins v + 1\<rparr>
         else v\<lparr>us_failedLogins := 0, us_lockedUntil := Some (now + LOCK_MS)\<rparr>) else v) (id_users (iw_db w)) =
      map (failed_once (us_id u) now) (id_users (iw_db w))"
    by (intro map_cong) (auto simp: failed_once_def)
  then show ?thesis unfolding recordFailure_row[OF find_user_row[OF assms]] by simp
qed

definition count_failures :: "user \<Rightarrow> nat \<Rightarrow> user" where
  "count_failures u n = u\<lparr>us_failedLogins := n\<rparr>"

lemma login_refuses:
  assumes "accounts email (iw_db w) = [u]" and "distinct (map us_id (id_users (iw_db w)))" and "lockedFor u (iw_now w) = 0"
    and "\<not> password_fits a password u"
  shows "login a email password w = (Inl (if us_failedLogins u + 1 < MAX_FAILURES then invalidCredentials else AccountLocked 900),
    w\<lparr>iw_db := (iw_db w)\<lparr>id_users := map (failed_once (us_id u) (iw_now w)) (id_users (iw_db w))\<rparr>\<rparr>)"
proof -
  have "u \<in> set (id_users (iw_db w))" using assms(1) by (auto simp: accounts_def filter_eq_Cons_iff)
  from recordFailure_once[OF assms(2) this] show ?thesis
    using assms by (simp add: login_def refuse_def bindM_def)
qed

lemma login_locked:
  assumes "accounts email (iw_db w) = [u]" and "lockedFor u (iw_now w) \<noteq> 0"
  shows "login a email password w = (Inl (AccountLocked (lockedFor u (iw_now w))), w)"
  using assms by (simp add: login_def refuse_def)

lemma failed_once_keys [simp]: "us_id (failed_once i now u) = us_id u" "us_email (failed_once i now u) = us_email u"
  "us_passwordHash (failed_once i now u) = us_passwordHash u"
  by (simp_all add: failed_once_def)

lemma accounts_failed: "accounts email (d\<lparr>id_users := map (failed_once i now) (id_users d)\<rparr>) = map (failed_once i now) (accounts email d)"
  by (simp add: accounts_def filter_map comp_def)

definition one_account :: "auth \<Rightarrow> string \<Rightarrow> string \<Rightarrow> nat \<Rightarrow> iworld \<Rightarrow> bool" where
  "one_account a email password n w \<longleftrightarrow> distinct (map us_id (id_users (iw_db w))) \<and>
     (\<exists>u. accounts email (iw_db w) = [u] \<and> us_failedLogins u = n \<and> lockedFor u (iw_now w) = 0 \<and> \<not> password_fits a password u)"

lemma failed_login_counts:
  assumes "one_account a email password n w" and "n + 1 < MAX_FAILURES"
  shows "fst (login a email password w) = Inl invalidCredentials \<and> one_account a email password (n + 1) (snd (login a email password w)) \<and>
    iw_now (snd (login a email password w)) = iw_now w"
proof -
  obtain u where u: "accounts email (iw_db w) = [u]" "us_failedLogins u = n" "lockedFor u (iw_now w) = 0" "\<not> password_fits a password u"
    and d: "distinct (map us_id (id_users (iw_db w)))" using assms(1) by (auto simp: one_account_def)
  note L = login_refuses[OF u(1) d u(3,4)]
  have "accounts email (iw_db (snd (login a email password w))) = [failed_once (us_id u) (iw_now w) u]"
    unfolding L by (simp add: accounts_failed u(1))
  moreover have "failed_once (us_id u) (iw_now w) u = u\<lparr>us_failedLogins := n + 1\<rparr>" using assms(2) u(2) by (simp add: failed_once_def)
  ultimately have "accounts email (iw_db (snd (login a email password w))) = [u\<lparr>us_failedLogins := n + 1\<rparr>]" by simp
  then show ?thesis using d u assms(2) unfolding one_account_def
    by (auto simp: L comp_def lockedFor_def password_fits_def)
qed

section \<open>Properties\<close>


text \<open>A locked account shields the others of its address: when one account of an e-mail is locked and a
  second, in another tenant, is not, a wrong password for the second is answered as locked and
  counted nowhere, so it can be guessed without limit; the right one is let through.\<close>

theorem locked_account_shields_another:
  assumes "accounts email (iw_db w) = us" and "find (\<lambda>v. lockedFor v (iw_now w) \<noteq> 0) us = Some v"
    and "filter (\<lambda>v. lockedFor v (iw_now w) = 0) us = [u]"
  shows "(\<not> password_fits a password u \<longrightarrow> login a email password w = (Inl (AccountLocked (lockedFor v (iw_now w))), w)) \<and>
    (password_fits a password u \<and> us_status u = UActive \<and> tenant_of u (iw_db w) = None \<and> us_mfaEnabled u \<longrightarrow>
      (\<exists>token. login a email password w = (Inr (MfaRequired token), w)))"
  using assms by (simp add: login_def refuse_def checkActive_def sign_apply)

section \<open>Two accounts\<close>

definition demo_accounts :: "int option \<Rightarrow> iworld" where
  "demo_accounts locked = demo_iworld\<lparr>iw_db := demo_idb\<lparr>id_tenants := [], id_users := [(demo_user CHR ''a'')\<lparr>us_lockedUntil := locked\<rparr>,
     (demo_user CHR ''b'')\<lparr>us_email := ''a@x.org'', us_tenant := None, us_mfaEnabled := True\<rparr>]\<rparr>\<rparr>"


lemma locked_account_shields_another_witness:
  "login demo_auth ''a@x.org'' ''guess'' (demo_accounts (Some 5000)) = (Inl (AccountLocked 5), demo_accounts (Some 5000)) \<and>
   (\<exists>token. login demo_auth ''a@x.org'' ''secret'' (demo_accounts (Some 5000)) = (Inr (MfaRequired token), demo_accounts (Some 5000)))"
proof -
  let ?w = "demo_accounts (Some 5000)"
  let ?a = "(demo_user CHR ''a'')\<lparr>us_lockedUntil := Some 5000\<rparr>"
  let ?b = "(demo_user CHR ''b'')\<lparr>us_email := ''a@x.org'', us_tenant := None, us_mfaEnabled := True\<rparr>"
  have 1: "accounts ''a@x.org'' (iw_db ?w) = [?a, ?b]" by code_simp
  have locks: "lockedFor ?a 0 = 5" "lockedFor ?b 0 = 0" "iw_now ?w = 0"
    by (simp_all add: lockedFor_def demo_user_def demo_accounts_def demo_iworld_def)
  have fits: "\<not> password_fits demo_auth ''guess'' ?b" "password_fits demo_auth ''secret'' ?b" "us_status ?b = UActive" "us_mfaEnabled ?b"
    by (simp_all add: password_fits_def demo_user_def demo_auth_def demo_crypto_def)
  have 2: "tenant_of ?b (iw_db ?w) = None" by (simp add: tenant_of_def demo_accounts_def)
  from locked_account_shields_another[OF 1, of ?a ?b demo_auth] locks fits 2 show ?thesis by simp
qed

end
