(* ===== verification/Tenants.thy ===== *)
theory Tenants
  imports Invitations Http_Lib
begin

text \<open>
  Tenants, managed by platform operators under \<open>withSystemScope\<close>: \<open>tenants.schemas.ts\<close>,
  \<open>tenants.service.ts\<close> and \<open>tenants.controller.ts\<close> of \<open>services/core/src/modules/tenants\<close>, and
  the bootstrap of the first operator, \<open>services/core/src/cli/create-operator.ts\<close>. The time-zone names
  \<open>Intl\<close> knows and the e-mail syntax check are parameters.
\<close>

section \<open>Schemas\<close>

definition strict :: "string list \<Rightarrow> json \<Rightarrow> bool" where
  "strict ks v = (case v of JObj kvs \<Rightarrow> list_all (\<lambda>p. List.member ks (fst p)) kvs | _ \<Rightarrow> False)"

definition limit_keys :: "string list" where
  "limit_keys = [''max_contacts'', ''max_emails_per_month'', ''max_users'', ''max_api_requests_per_minute'']"

definition is_limit :: "json \<Rightarrow> bool" where
  "is_limit v = (case v of JNull \<Rightarrow> True | JNum n \<Rightarrow> is_int_num n \<and> 0 \<le> mant n | _ \<Rightarrow> False)"

text \<open>The parsed object has its members in the order of the schema.\<close>

definition limitsSchema :: "json \<Rightarrow> json option" where
  "limitsSchema v = (case v of JObj kvs \<Rightarrow>
      if strict limit_keys v \<and> list_all (\<lambda>p. is_limit (snd p)) kvs
      then Some (JObj (concat (map (\<lambda>k. case map_of kvs k of None \<Rightarrow> [] | Some x \<Rightarrow> [(k, x)]) limit_keys))) else None
    | _ \<Rightarrow> None)"

definition parseLimits :: "json option \<Rightarrow> json option" where
  "parseLimits v = Option.bind v limitsSchema"

definition timezoneSchema :: "(string \<Rightarrow> bool) \<Rightarrow> json option \<Rightarrow> string option" where
  "timezoneSchema isTimeZone v = (case v of Some (JStr s) \<Rightarrow> if 1 \<le> length s \<and> isTimeZone s then Some s else None | _ \<Rightarrow> None)"

record admin_input =
  an_email :: string
  an_password :: string

record tenant_create =
  tc_name :: string
  tc_timezone :: string
  tc_locale :: string
  tc_limits :: "json option"
  tc_admin :: "admin_input option"

record tenant_update =
  tu_name :: "string option"
  tu_timezone :: "string option"
  tu_locale :: "string option"
  tu_limits :: "json option"
  tu_suspended :: "bool option"

definition parseAdmin :: "(string \<Rightarrow> bool) \<Rightarrow> json option \<Rightarrow> admin_input option" where
  "parseAdmin isEmail v = (case v of
      Some (JObj kvs) \<Rightarrow> if \<not> strict [''email'', ''password''] (JObj kvs) then None
        else (case (parseEmail (\<lambda>s. isEmail s \<and> length s \<le> 320) (map_of kvs ''email''), parseSized 12 128 (map_of kvs ''password'')) of
          (Some e, Some p) \<Rightarrow> Some \<lparr>an_email = e, an_password = p\<rparr> | _ \<Rightarrow> None)
    | _ \<Rightarrow> None)"

definition tenantCreateSchema :: "(string \<Rightarrow> bool) \<Rightarrow> (string \<Rightarrow> bool) \<Rightarrow> json \<Rightarrow> tenant_create option" where
  "tenantCreateSchema isTimeZone isEmail v =
    (if \<not> strict [''name'', ''timezone'', ''default_locale'', ''limits'', ''admin''] v then None
     else case (parseSized 1 200 (obj_get v ''name''), timezoneSchema isTimeZone (obj_get v ''timezone''), parseEnum LOCALES (obj_get v ''default_locale''),
         optional parseLimits (obj_get v ''limits''), optional (parseAdmin isEmail) (obj_get v ''admin'')) of
       (Some n, Some z, Some l, Some ls, Some a) \<Rightarrow> Some \<lparr>tc_name = n, tc_timezone = z, tc_locale = l, tc_limits = ls, tc_admin = a\<rparr>
     | _ \<Rightarrow> None)"

definition parseTenantStatus :: "json option \<Rightarrow> bool option" where
  "parseTenantStatus v = map_option (\<lambda>s. s = ''suspended'') (parseEnum [''active'', ''suspended''] v)"

definition tenantUpdateSchema :: "(string \<Rightarrow> bool) \<Rightarrow> json \<Rightarrow> tenant_update option" where
  "tenantUpdateSchema isTimeZone v =
    (if \<not> strict [''name'', ''timezone'', ''default_locale'', ''limits'', ''status''] v \<or> v = JObj [] then None
     else case (optional (parseSized 1 200) (obj_get v ''name''), optional (timezoneSchema isTimeZone) (obj_get v ''timezone''),
         optional (parseEnum LOCALES) (obj_get v ''default_locale''), optional parseLimits (obj_get v ''limits''),
         optional parseTenantStatus (obj_get v ''status'')) of
       (Some n, Some z, Some l, Some ls, Some s) \<Rightarrow> Some \<lparr>tu_name = n, tu_timezone = z, tu_locale = l, tu_limits = ls, tu_suspended = s\<rparr>
     | _ \<Rightarrow> None)"

section \<open>The service\<close>

record tenant_dto =
  te_id :: string
  te_name :: string
  te_timezone :: string
  te_default_locale :: string
  te_limits :: json
  te_status :: string
  te_created_at :: string

definition toTenantDto :: "tenant \<Rightarrow> tenant_dto" where
  "toTenantDto t = \<lparr>te_id = tn_id t, te_name = tn_name t, te_timezone = tn_timezone t, te_default_locale = tn_locale t,
     te_limits = (if tn_limits t = JNull then JObj [] else tn_limits t), te_status = (if tn_suspended t then ''suspended'' else ''active''),
     te_created_at = iso_string (tn_createdAt t)\<rparr>"

text \<open>Prisma's \<open>cursor\<close>: the rows from the one with that id on, none when it is gone.\<close>

definition from_cursor :: "string option \<Rightarrow> tenant list \<Rightarrow> tenant list" where
  "from_cursor c ts = (case c of None \<Rightarrow> ts | Some i \<Rightarrow> drop 1 (dropWhile (\<lambda>t. tn_id t \<noteq> i) ts))"

definition listTenants :: "string option \<Rightarrow> nat \<Rightarrow> (tenant_dto list \<times> string option) iact" where
  "listTenants cursor limit =
    bindM (case cursor of None \<Rightarrow> retM None | Some c \<Rightarrow> bindM (castI c) (\<lambda>i. retM (Some i))) (\<lambda>after.
    readI (\<lambda>d. let rows = take (Suc limit) (from_cursor after (sort_key tn_id (id_tenants d)))
      in (map toTenantDto (page_rows limit rows), page_next limit tn_id rows)))"

definition tenantNotFound :: exn where
  "tenantNotFound = HttpExc 404 ''Tenant not found''"

definition find_tenant :: "string \<Rightarrow> idb \<Rightarrow> tenant option" where
  "find_tenant i d = find (\<lambda>t. tn_id t = i) (id_tenants d)"

definition tenantOrThrow :: "string \<Rightarrow> tenant iact" where
  "tenantOrThrow i = (if \<not> is_uuid i then throwM tenantNotFound
     else bindM (readI (find_tenant (lower i))) (\<lambda>t. case t of None \<Rightarrow> throwM tenantNotFound | Some t \<Rightarrow> retM t))"

definition getTenantDto :: "string \<Rightarrow> tenant_dto iact" where
  "getTenantDto i = bindM (tenantOrThrow i) (\<lambda>t. retM (toTenantDto t))"

definition insertTenant :: "tenant_create \<Rightarrow> tenant iact" where
  "insertTenant input = bindM draw (\<lambda>i. bindM (getM iw_now) (\<lambda>now.
     let row = \<lparr>tn_id = i, tn_name = tc_name input, tn_timezone = tc_timezone input, tn_locale = tc_locale input,
           tn_limits = (case tc_limits input of None \<Rightarrow> JObj [] | Some l \<Rightarrow> l), tn_suspended = False, tn_createdAt = now\<rparr>
     in bindM (readI (\<lambda>d. list_ex (\<lambda>t. tn_id t = i) (id_tenants d))) (\<lambda>bad.
       if bad then throwM UniqueViolation
       else bindM (onI (\<lambda>d. d\<lparr>id_tenants := id_tenants d @ [row]\<rparr>)) (\<lambda>_. retM row))))"

definition insertAdmin :: "string \<Rightarrow> string \<Rightarrow> admin_input \<Rightarrow> string \<Rightarrow> string \<Rightarrow> unit iact" where
  "insertAdmin t locale adm hash adminRoleId =
    bindM (insertUser t (an_email adm) locale UActive (Some hash)) (\<lambda>u.
      onI (\<lambda>d. d\<lparr>id_userRoles := id_userRoles d @ [\<lparr>ur_user = u, ur_role = adminRoleId, ur_tenant = Some t\<rparr>]\<rparr>))"

definition storeTenant :: "tenant_create \<Rightarrow> string option \<Rightarrow> tenant iact" where
  "storeTenant input hash = transactionI (
     bindM (insertTenant input) (\<lambda>row.
     bindM (createDefaultTenantRoles (tn_id row)) (\<lambda>adminRoleId.
     bindM (case (tc_admin input, hash) of (Some a, Some h) \<Rightarrow> insertAdmin (tn_id row) (tc_locale input) a h adminRoleId | _ \<Rightarrow> retM ()) (\<lambda>_.
       retM row))))"

definition tenant_json :: "tenant_dto \<Rightarrow> json" where
  "tenant_json t = JObj [(''id'', JStr (te_id t)), (''name'', JStr (te_name t)), (''timezone'', JStr (te_timezone t)),
     (''default_locale'', JStr (te_default_locale t)), (''limits'', te_limits t), (''status'', JStr (te_status t)), (''created_at'', JStr (te_created_at t))]"

definition publishTenant :: "bool \<Rightarrow> tenant_dto \<Rightarrow> unit iact" where
  "publishTenant nats t = (if nats then modifyM (\<lambda>w. w\<lparr>iw_events := iw_events w @ [(''system.tenant.created'', te_id t, tenant_json t)]\<rparr>)
     else throwM (PlainError ''publish failed''))"

definition createTenant :: "(string \<Rightarrow> string \<Rightarrow> string) \<Rightarrow> bool \<Rightarrow> tenant_create \<Rightarrow> tenant_dto iact" where
  "createTenant argon nats input =
    (if (case tc_admin input of None \<Rightarrow> False | Some a \<Rightarrow> isCommonPassword (an_password a))
     then throwM (HttpProblems 400 [(''/admin/password'', ''this password is too common'')])
     else bindM (case tc_admin input of None \<Rightarrow> retM None | Some a \<Rightarrow> bindM draw (\<lambda>salt. retM (Some (argon salt (an_password a))))) (\<lambda>hash.
       bindM (storeTenant input hash) (\<lambda>row.
       let dto = toTenantDto row in bindM (publishTenant nats dto) (\<lambda>_. retM dto))))"

definition updated_tenant :: "tenant_update \<Rightarrow> tenant \<Rightarrow> tenant" where
  "updated_tenant input t = t\<lparr>
     tn_name := (case tu_name input of None \<Rightarrow> tn_name t | Some x \<Rightarrow> x),
     tn_timezone := (case tu_timezone input of None \<Rightarrow> tn_timezone t | Some x \<Rightarrow> x),
     tn_locale := (case tu_locale input of None \<Rightarrow> tn_locale t | Some x \<Rightarrow> x),
     tn_limits := (case tu_limits input of None \<Rightarrow> tn_limits t | Some x \<Rightarrow> x),
     tn_suspended := (case tu_suspended input of None \<Rightarrow> tn_suspended t | Some x \<Rightarrow> x)\<rparr>"

definition updateTenant :: "string \<Rightarrow> tenant_update \<Rightarrow> tenant_dto iact" where
  "updateTenant i input =
    bindM (tenantOrThrow i) (\<lambda>t.
    bindM (onI (\<lambda>d. d\<lparr>id_tenants := map (\<lambda>x. if tn_id x = tn_id t then updated_tenant input x else x) (id_tenants d)\<rparr>)) (\<lambda>_.
    bindM (readI (find_tenant (tn_id t))) (\<lambda>found. case found of None \<Rightarrow> throwM notFoundError | Some x \<Rightarrow> retM (toTenantDto x))))"

definition assertActive :: "string \<Rightarrow> unit iact" where
  "assertActive i = bindM (tenantOrThrow i) (\<lambda>t. if tn_suspended t then throwM (HttpExc 403 ''Tenant is suspended'') else retM ())"

section \<open>The controller\<close>

definition listTenantsEndpoint :: "query \<Rightarrow> tenant_dto cursor_page iact" where
  "listTenantsEndpoint q = bindM (liftE (parseCursorQuery q 50 200)) (\<lambda>cq.
     bindM (listTenants (cq_cursor cq) (nat (cq_limit cq))) (\<lambda>(items, next). retM (buildCursorPage items next)))"

definition createTenantEndpoint :: "(string \<Rightarrow> bool) \<Rightarrow> (string \<Rightarrow> bool) \<Rightarrow> (string \<times> string) list \<Rightarrow> (string \<Rightarrow> string \<Rightarrow> string) \<Rightarrow> bool \<Rightarrow> json \<Rightarrow> tenant_dto iact" where
  "createTenantEndpoint isTimeZone isEmail issues argon nats body =
    bindM (liftE (parseBodyWith issues (tenantCreateSchema isTimeZone isEmail body))) (\<lambda>input. createTenant argon nats input)"

definition updateTenantEndpoint :: "(string \<Rightarrow> bool) \<Rightarrow> (string \<times> string) list \<Rightarrow> string \<Rightarrow> json \<Rightarrow> tenant_dto iact" where
  "updateTenantEndpoint isTimeZone issues i body =
    bindM (liftE (parseBodyWith issues (tenantUpdateSchema isTimeZone body))) (\<lambda>input. updateTenant i input)"

section \<open>The first operator (\<open>create-operator.ts\<close>)\<close>

definition OPERATOR_ROLE_NAME :: string where
  "OPERATOR_ROLE_NAME = ''Operator''"

definition OPERATOR_PERMISSIONS :: "permission list" where
  "OPERATOR_PERMISSIONS = [(''tenants'', ''view''), (''tenants'', ''admin'')]"

definition find_operator :: "string \<Rightarrow> idb \<Rightarrow> user option" where
  "find_operator email d = find (\<lambda>u. us_tenant u = None \<and> lower (us_email u) = lower email) (id_users d)"

definition insertOperator :: "string \<Rightarrow> string \<Rightarrow> string iact" where
  "insertOperator email hash = bindM draw (\<lambda>i. bindM (getM iw_now) (\<lambda>now.
     bindM (readI (\<lambda>d. list_ex (\<lambda>u. us_id u = i) (id_users d))) (\<lambda>bad.
     if bad then throwM UniqueViolation
     else bindM (onI (\<lambda>d. d\<lparr>id_users := id_users d @ [(new_user i [] email ''es'' UActive (Some hash) now)\<lparr>us_tenant := None\<rparr>]\<rparr>)) (\<lambda>_. retM i))))"

definition find_operator_role :: "idb \<Rightarrow> role option" where
  "find_operator_role d = find (\<lambda>r. ro_tenant r = None \<and> ro_name r = OPERATOR_ROLE_NAME) (id_roles d)"

definition operatorRole :: "string iact" where
  "operatorRole = bindM (readI find_operator_role) (\<lambda>r. case r of
      Some r \<Rightarrow> retM (ro_id r)
    | None \<Rightarrow> bindM draw (\<lambda>i. bindM (getM iw_now) (\<lambda>now.
        bindM (readI (\<lambda>d. list_ex (\<lambda>r. ro_id r = i) (id_roles d))) (\<lambda>bad.
        if bad then throwM UniqueViolation
        else bindM (onI (\<lambda>d. d\<lparr>id_roles := id_roles d @ [\<lparr>ro_id = i, ro_tenant = None, ro_name = OPERATOR_ROLE_NAME, ro_isDefault = True, ro_createdAt = now\<rparr>],
            id_grants := id_grants d @ map (\<lambda>p. \<lparr>gt_role = i, gt_tenant = None, gt_module = fst p, gt_action = snd p\<rparr>) OPERATOR_PERMISSIONS\<rparr>))
          (\<lambda>_. retM i)))))"

definition createOperator :: "(string \<Rightarrow> string \<Rightarrow> string) \<Rightarrow> string \<Rightarrow> string \<Rightarrow> (bool \<times> string) iact" where
  "createOperator argon email password = transactionI (
     bindM (readI (find_operator email)) (\<lambda>existing. case existing of
       Some u \<Rightarrow> retM (False, us_id u)
     | None \<Rightarrow> bindM draw (\<lambda>salt.
         bindM (insertOperator email (argon salt password)) (\<lambda>u.
         bindM operatorRole (\<lambda>r.
         bindM (onI (\<lambda>d. d\<lparr>id_userRoles := id_userRoles d @ [\<lparr>ur_user = u, ur_role = r, ur_tenant = None\<rparr>]\<rparr>)) (\<lambda>_.
           retM (True, u)))))))"

end
