(* ===== verification/Api_Clients.thy ===== *)
theory Api_Clients
  imports Auth_Service
begin

text \<open>
  API clients of a tenant: \<open>api-clients.service.ts\<close> and \<open>api-clients.controller.ts\<close> of
  \<open>services/core/src/modules/api-clients\<close>. A client's secret exists in clear only in the answer to
  its creation; the table keeps its hash. The pipe \<open>ParseUUIDPipe\<close> of NestJS and Argon2 are
  parameters, and \<open>nats\<close> says whether the broker takes a publication.
\<close>

section \<open>Schema\<close>

definition CATALOG :: "string list" where
  "CATALOG = concat (map (\<lambda>m. map (\<lambda>a. m @ '':'' @ a) PERMISSION_ACTIONS) PERMISSION_MODULES)"

record client_input =
  ci_name :: string
  ci_scopes :: "string list"

definition parseScope :: "json option \<Rightarrow> string option" where
  "parseScope v = (case v of Some (JStr s) \<Rightarrow> if List.member CATALOG s then Some s else None | _ \<Rightarrow> None)"

definition apiClientInput :: "json \<Rightarrow> client_input option" where
  "apiClientInput v = (case (parseSized 1 100 (obj_get v ''name''), parseArray (\<lambda>x. parseScope (Some x)) (obj_get v ''scopes'')) of
      (Some n, Some ss) \<Rightarrow> if 1 \<le> length ss \<and> distinct ss then Some \<lparr>ci_name = n, ci_scopes = ss\<rparr> else None
    | _ \<Rightarrow> None)"

section \<open>The service\<close>

definition API_CLIENT_REVOKED :: string where
  "API_CLIENT_REVOKED = ''system.api_client.revoked''"

record client_dto =
  cd_id :: string
  cd_client_id :: string
  cd_name :: string
  cd_scopes :: "string list"
  cd_status :: string
  cd_created_at :: string
  cd_revoked_at :: "string option"
  cd_last_used_at :: "string option"

definition toClientDto :: "api_client \<Rightarrow> client_dto" where
  "toClientDto c = \<lparr>cd_id = ac_id c, cd_client_id = ac_clientId c, cd_name = ac_name c, cd_scopes = ac_scopes c,
     cd_status = (if ac_revokedAt c = None then ''active'' else ''revoked''), cd_created_at = iso_string (ac_createdAt c),
     cd_revoked_at = map_option iso_string (ac_revokedAt c), cd_last_used_at = map_option iso_string (ac_lastUsedAt c)\<rparr>"

definition clients_in :: "string \<Rightarrow> idb \<Rightarrow> api_client list" where
  "clients_in t d = filter (\<lambda>c. ac_tenant c = t) (id_clients d)"

definition listClients :: "string \<Rightarrow> query \<Rightarrow> client_dto cursor_page iact" where
  "listClients t q = idPage ac_id (\<lambda>_. toClientDto) (clients_in t) q"

text \<open>The primary key and \<open>api_clients_client_id_key\<close>.\<close>

definition insertClient :: "api_client \<Rightarrow> unit iact" where
  "insertClient c = bindM (readI (\<lambda>d. list_ex (\<lambda>x. ac_id x = ac_id c \<or> ac_clientId x = ac_clientId c) (id_clients d))) (\<lambda>bad.
     if bad then throwM UniqueViolation else onI (\<lambda>d. d\<lparr>id_clients := id_clients d @ [c]\<rparr>))"

definition createClient :: "(string \<Rightarrow> string \<Rightarrow> string) \<Rightarrow> string \<Rightarrow> client_input \<Rightarrow> (client_dto \<times> string) iact" where
  "createClient argon t input =
    bindM draw (\<lambda>secret. bindM draw (\<lambda>public. bindM draw (\<lambda>salt. bindM draw (\<lambda>i. bindM (getM iw_now) (\<lambda>now.
    let row = \<lparr>ac_id = i, ac_tenant = t, ac_clientId = ''oec_'' @ public, ac_name = ci_name input, ac_secretHash = argon salt secret,
          ac_scopes = ci_scopes input, ac_revokedAt = None, ac_lastUsedAt = None, ac_createdAt = now\<rparr>
    in bindM (insertClient row) (\<lambda>_. retM (toClientDto row, secret)))))))"

definition revoked_row :: "string \<Rightarrow> string \<Rightarrow> int \<Rightarrow> api_client \<Rightarrow> api_client" where
  "revoked_row t i now c = (if ac_tenant c = t \<and> ac_id c = i \<and> ac_revokedAt c = None then c\<lparr>ac_revokedAt := Some now\<rparr> else c)"

definition publishI :: "bool \<Rightarrow> string \<Rightarrow> string \<Rightarrow> json \<Rightarrow> unit iact" where
  "publishI nats subject t data =
    (if nats then modifyM (\<lambda>w. w\<lparr>iw_events := iw_events w @ [(subject, t, data)]\<rparr>) else throwM (PlainError ''publish failed''))"

definition revokeClient :: "bool \<Rightarrow> string \<Rightarrow> string \<Rightarrow> client_dto iact" where
  "revokeClient nats t rawId =
    bindM (castI rawId) (\<lambda>i.
    bindM (getM iw_now) (\<lambda>now.
    bindM (onI (\<lambda>d. d\<lparr>id_clients := map (revoked_row t i now) (id_clients d)\<rparr>)) (\<lambda>_.
    bindM (readI (\<lambda>d. find (\<lambda>c. ac_id c = i) (clients_in t d))) (\<lambda>found. case found of
      None \<Rightarrow> throwM (HttpExc 404 ''API client not found'')
    | Some row \<Rightarrow>
        bindM (publishI nats API_CLIENT_REVOKED t (JObj [(''client_id'', JStr (ac_clientId row)),
          (''revoked_at'', JStr (iso_string (the (ac_revokedAt row))))])) (\<lambda>_. retM (toClientDto row))))))"

section \<open>The controller\<close>

definition clientTenantOf :: "principal \<Rightarrow> string iact" where
  "clientTenantOf p = liftE (tenantOf ''operator principals cannot manage tenant API clients'' p)"

definition listClientsEndpoint :: "principal \<Rightarrow> query \<Rightarrow> client_dto cursor_page iact" where
  "listClientsEndpoint p q = bindM (clientTenantOf p) (\<lambda>t. listClients t q)"

definition createClientEndpoint :: "(string \<Rightarrow> string \<Rightarrow> string) \<Rightarrow> (string \<times> string) list \<Rightarrow> principal \<Rightarrow> json \<Rightarrow> (client_dto \<times> string) iact" where
  "createClientEndpoint argon issues p body = bindM (clientTenantOf p) (\<lambda>t.
     bindM (liftE (parseBodyWith issues (apiClientInput body))) (\<lambda>input. createClient argon t input))"

definition revokeClientEndpoint :: "(string \<Rightarrow> bool) \<Rightarrow> bool \<Rightarrow> principal \<Rightarrow> string \<Rightarrow> client_dto iact" where
  "revokeClientEndpoint uuidPipe nats p i =
    (if uuidPipe i then bindM (clientTenantOf p) (\<lambda>t. revokeClient nats t i)
     else throwM (HttpExc 400 ''Validation failed (uuid is expected)''))"

section \<open>Lemmas\<close>

lemma parseScope_permission: "parseScope v = Some s \<Longrightarrow> is_permission s"
proof -
  assume "parseScope v = Some s"
  then have "s \<in> set CATALOG" by (auto simp: parseScope_def split: option.splits json.splits if_splits)
  moreover have "list_all is_permission CATALOG" by code_simp
  ultimately show ?thesis by (simp add: list_all_iff)
qed

lemma parseAll_parsed: "parseAll f vs = Some ss \<Longrightarrow> (\<And>v s. f v = Some s \<Longrightarrow> P s) \<Longrightarrow> list_all P ss"
  by (induction vs arbitrary: ss) (auto split: option.splits)

lemma apiClientInput_valid:
  assumes "apiClientInput v = Some input"
  shows "list_all is_permission (ci_scopes input)" and "ci_scopes input \<noteq> []" and "distinct (ci_scopes input)"
proof -
  obtain n ss where i: "input = \<lparr>ci_name = n, ci_scopes = ss\<rparr>" and "1 \<le> length ss" and d: "distinct ss"
      and p: "parseArray (\<lambda>x. parseScope (Some x)) (obj_get v ''scopes'') = Some ss"
    using assms by (auto simp: apiClientInput_def split: option.splits if_splits)
  from p obtain vs where "parseAll (\<lambda>x. parseScope (Some x)) vs = Some ss"
    by (auto simp: parseArray_def split: option.splits json.splits)
  then show "list_all is_permission (ci_scopes input)"
    unfolding i by (auto intro: parseAll_parsed parseScope_permission)
  show "ci_scopes input \<noteq> []" "distinct (ci_scopes input)" using i d \<open>1 \<le> length ss\<close> by auto
qed

lemma revoked_row_simps [simp]: "ac_id (revoked_row t i now c) = ac_id c" "ac_tenant (revoked_row t i now c) = ac_tenant c"
    "ac_clientId (revoked_row t i now c) = ac_clientId c" "ac_scopes (revoked_row t i now c) = ac_scopes c"
  by (simp_all add: revoked_row_def)

lemma revoked_row_revoked: "ac_tenant c = t \<Longrightarrow> ac_id c = i \<Longrightarrow> ac_revokedAt (revoked_row t i now c) \<noteq> None"
  by (simp add: revoked_row_def)

text \<open>A revocation that answers has ended the client, and its event has been published.\<close>

lemma revokeClient_Inr:
  assumes "revokeClient nats t i w = (Inr dto, w1)"
  shows "\<exists>c \<in> set (id_clients (iw_db w)). ac_tenant c = t \<and> ac_id c = lower i \<and>
      id_clients (iw_db w1) = map (revoked_row t (lower i) (iw_now w)) (id_clients (iw_db w)) \<and>
      dto = toClientDto (revoked_row t (lower i) (iw_now w) c) \<and> iw_now w1 = iw_now w"
proof -
  have i: "castI i w = (Inr (lower i), w)"
    using assms by (auto simp: revokeClient_def bindM_def castI_def as_uuid_def split: if_splits)
  let ?f = "revoked_row t (lower i) (iw_now w)"
  have fl: "filter (\<lambda>c. ac_tenant c = t) (map ?f cs) = map ?f (filter (\<lambda>c. ac_tenant c = t) cs)" for cs
    by (simp add: filter_map comp_def)
  from assms obtain row where row: "find (\<lambda>c. ac_id c = lower i) (map ?f (clients_in t (iw_db w))) = Some row"
      and out: "dto = toClientDto row" "iw_now w1 = iw_now w" "id_clients (iw_db w1) = map ?f (id_clients (iw_db w))"
    by (auto simp: revokeClient_def bindM_Inr i publishI_def clients_in_def fl split: option.splits if_splits)
  from find_Some_set[OF row] obtain c where "c \<in> set (clients_in t (iw_db w))" "row = ?f c" "ac_id c = lower i" by auto
  then show ?thesis using out by (auto simp: clients_in_def)
qed

end
