(* ===== verification/OAuth.thy ===== *)
theory OAuth
  imports Api_Clients
begin

text \<open>
  The token endpoints for machines: \<open>oauth.service.ts\<close> and \<open>oauth.controller.ts\<close> of
  \<open>services/core/src/modules/oauth\<close>. The service keeps a count of failed attempts per client id in
  memory beside the database.
\<close>

section \<open>State\<close>

record failure =
  fl_count :: nat
  fl_resetAt :: int

record oworld =
  ow_world :: iworld
  ow_failures :: "(string \<times> failure) list"

type_synonym 'a oact = "(oworld, 'a) comp"

definition inI :: "'a iact \<Rightarrow> 'a oact" where
  "inI m w = (case m (ow_world w) of (r, v) \<Rightarrow> (r, w\<lparr>ow_world := v\<rparr>))"

section \<open>Options and constants\<close>

definition CLIENT_TOKEN_TTL :: int where
  "CLIENT_TOKEN_TTL = 3600"

definition SERVICE_TOKEN_TTL :: int where
  "SERVICE_TOKEN_TTL = 900"

definition REVOCATION_WINDOW_MS :: int where
  "REVOCATION_WINDOW_MS = (CLIENT_TOKEN_TTL + 60) * 1000"

definition OAUTH_MAX_FAILURES :: nat where
  "OAUTH_MAX_FAILURES = 10"

definition FAILURE_WINDOW_MS :: int where
  "FAILURE_WINDOW_MS = 60000"

record service_entry =
  se_secret :: string
  se_scopes :: "string list"

record oauth =
  oa_crypto :: crypto
  oa_signer :: signer
  oa_services :: "(string \<times> service_entry) list"

definition parseOAuthPermission :: "json \<Rightarrow> string option" where
  "parseOAuthPermission v = (case v of JStr s \<Rightarrow> if is_permission s then Some s else None | _ \<Rightarrow> None)"

definition parseService :: "json \<Rightarrow> service_entry option" where
  "parseService v = (case (obj_get v ''secret'', defaulting [] (parseArray parseOAuthPermission) (obj_get v ''scopes'')) of
      (Some (JStr s), Some ss) \<Rightarrow> if 32 \<le> length s then Some \<lparr>se_secret = s, se_scopes = ss\<rparr> else None
    | _ \<Rightarrow> None)"

text \<open>\<open>z.record\<close>: every key at least one character, every value an entry.\<close>

fun parseServiceEntries :: "(string \<times> json) list \<Rightarrow> (string \<times> service_entry) list option" where
  "parseServiceEntries [] = Some []"
| "parseServiceEntries ((k, v) # kvs) = (case (parseService v, parseServiceEntries kvs) of
      (Some e, Some es) \<Rightarrow> if k \<noteq> [] then Some ((k, e) # es) else None
    | _ \<Rightarrow> None)"

text \<open>The constructor, given the JSON value of the credentials file.\<close>

definition newOAuth :: "crypto \<Rightarrow> signer \<Rightarrow> json \<Rightarrow> exn + oauth" where
  "newOAuth c s file = (case file of
      JObj kvs \<Rightarrow> (case parseServiceEntries kvs of
        Some es \<Rightarrow> Inr \<lparr>oa_crypto = c, oa_signer = s, oa_services = es\<rparr>
      | None \<Rightarrow> Inl (PlainError ''ZodError''))
    | _ \<Rightarrow> Inl (PlainError ''ZodError''))"

record token_response =
  tk_access :: string
  tk_expires_in :: int
  tk_scope :: "string option"

definition invalidClient :: exn where
  "invalidClient = OAuthFail 401 ''invalid_client'' ''Client authentication failed'' None"

section \<open>Client credentials\<close>

text \<open>\<open>recordFailure\<close>: a map above 10000 entries first forgets the windows that have ended.\<close>

definition forget_ended :: "int \<Rightarrow> (string \<times> failure) list \<Rightarrow> (string \<times> failure) list" where
  "forget_ended now fs = (if 10000 < length fs then filter (\<lambda>p. now < fl_resetAt (snd p)) fs else fs)"

definition count_failure :: "string \<Rightarrow> int \<Rightarrow> (string \<times> failure) list \<Rightarrow> (string \<times> failure) list" where
  "count_failure i now fs0 = (let fs = forget_ended now fs0; fresh = \<lparr>fl_count = 1, fl_resetAt = now + FAILURE_WINDOW_MS\<rparr> in
     case map_of fs i of
       None \<Rightarrow> alist_put i fresh fs
     | Some f \<Rightarrow> alist_put i (if fl_resetAt f \<le> now then fresh else f\<lparr>fl_count := fl_count f + 1\<rparr>) fs)"

definition recordClientFailure :: "string \<Rightarrow> int \<Rightarrow> unit oact" where
  "recordClientFailure i now = modifyM (\<lambda>w. w\<lparr>ow_failures := count_failure i now (ow_failures w)\<rparr>)"

definition throttle :: "string \<Rightarrow> int \<Rightarrow> (string \<times> failure) list \<Rightarrow> exn + unit" where
  "throttle i now fs = (case map_of fs i of
      None \<Rightarrow> Inr ()
    | Some f \<Rightarrow> if now < fl_resetAt f \<and> OAUTH_MAX_FAILURES \<le> fl_count f
        then Inl (OAuthFail 429 ''invalid_client'' ''Too many failed attempts'' (Some ((fl_resetAt f - now + 999) div 1000)))
        else Inr ())"

definition find_client :: "string \<Rightarrow> idb \<Rightarrow> api_client option" where
  "find_client i d = find (\<lambda>c. ac_clientId c = i) (id_clients d)"

definition client_suspended :: "api_client \<Rightarrow> idb \<Rightarrow> bool" where
  "client_suspended c d \<longleftrightarrow> map_option tn_suspended (find (\<lambda>t. tn_id t = ac_tenant c) (id_tenants d)) = Some True"

text \<open>\<open>scope\<close> narrows the client's scopes; blank or omitted it grants all of them.\<close>

definition narrowScopes :: "string list \<Rightarrow> string option \<Rightarrow> exn + string list" where
  "narrowScopes scopes scope = (case scope of
      None \<Rightarrow> Inr scopes
    | Some s \<Rightarrow>
        let requested = uniq (filter (\<lambda>x. x \<noteq> []) (split_on CHR '' '' s));
            extra = filter (\<lambda>x. \<not> List.member scopes x) requested
        in if extra \<noteq> [] then Inl (OAuthFail 400 ''invalid_scope'' (''Scope not granted: '' @ join_with '' '' extra) None)
           else Inr (if requested \<noteq> [] then requested else scopes))"

definition client_claims :: "string \<Rightarrow> string \<Rightarrow> string list \<Rightarrow> (string \<times> json) list" where
  "client_claims i t scopes = [(''sub'', JStr i), (''typ'', JStr ''client''), (''tenant_id'', JStr t), (''scopes'', JArr (map JStr scopes))]"

definition used_row :: "string \<Rightarrow> int \<Rightarrow> api_client \<Rightarrow> api_client" where
  "used_row i now c = (if ac_id c = i then c\<lparr>ac_lastUsedAt := Some now\<rparr> else c)"

definition grantToken :: "oauth \<Rightarrow> api_client \<Rightarrow> string \<Rightarrow> string list \<Rightarrow> int \<Rightarrow> token_response oact" where
  "grantToken a row i scopes now =
    bindM (modifyM (\<lambda>w. w\<lparr>ow_failures := alist_del i (ow_failures w)\<rparr>)) (\<lambda>_.
    bindM (inI (onI (\<lambda>d. d\<lparr>id_clients := map (used_row (ac_id row) now) (id_clients d)\<rparr>))) (\<lambda>_.
    bindM (inI (sign (oa_crypto a) (oa_signer a) (client_claims i (ac_tenant row) scopes) CLIENT_TOKEN_TTL)) (\<lambda>token.
      retM \<lparr>tk_access = token, tk_expires_in = CLIENT_TOKEN_TTL, tk_scope = Some (join_with '' '' scopes)\<rparr>)))"

definition clientToken :: "oauth \<Rightarrow> string \<Rightarrow> string \<Rightarrow> string option \<Rightarrow> token_response oact" where
  "clientToken a i secret scope =
    bindM (getM (\<lambda>w. iw_now (ow_world w))) (\<lambda>now.
    bindM (getM (\<lambda>w. throttle i now (ow_failures w))) (\<lambda>ok. bindM (liftE ok) (\<lambda>_.
    bindM (inI (readI (find_client i))) (\<lambda>found.
    let refused = bindM (recordClientFailure i now) (\<lambda>_. throwM invalidClient)
    in case found of
      None \<Rightarrow> refused
    | Some row \<Rightarrow>
        if \<not> cr_verify (oa_crypto a) (ac_secretHash row) secret then refused
        else bindM (inI (readI (client_suspended row))) (\<lambda>suspended.
        if ac_revokedAt row \<noteq> None \<or> suspended then throwM invalidClient
        else bindM (liftE (narrowScopes (ac_scopes row) scope)) (\<lambda>scopes. grantToken a row i scopes now))))))"

section \<open>Service tokens\<close>

definition service_claims :: "string \<Rightarrow> string list \<Rightarrow> (string \<times> json) list" where
  "service_claims i scopes = [(''sub'', JStr i), (''typ'', JStr ''service''), (''tenant_id'', JNull), (''scopes'', JArr (map JStr scopes))]"

definition serviceToken :: "oauth \<Rightarrow> string \<Rightarrow> string \<Rightarrow> token_response option oact" where
  "serviceToken a service secret =
    (case map_of (oa_services a) service of
       None \<Rightarrow> bindM (inI draw) (\<lambda>_. retM None)
     | Some e \<Rightarrow>
         if cr_sha (oa_crypto a) (se_secret e) \<noteq> cr_sha (oa_crypto a) secret then retM None
         else bindM (inI (sign (oa_crypto a) (oa_signer a) (service_claims service (se_scopes e)) SERVICE_TOKEN_TTL)) (\<lambda>token.
           retM (Some \<lparr>tk_access = token, tk_expires_in = SERVICE_TOKEN_TTL, tk_scope = None\<rparr>)))"

section \<open>Revocation\<close>

definition revoked_since :: "int \<Rightarrow> idb \<Rightarrow> (string \<times> int) list" where
  "revoked_since since d = sort_key snd (concat (map (\<lambda>c. case ac_revokedAt c of
       None \<Rightarrow> [] | Some r \<Rightarrow> if since < r then [(ac_clientId c, r)] else []) (id_clients d)))"

definition revocations :: "(int \<times> (string \<times> string) list) oact" where
  "revocations = bindM (getM (\<lambda>w. iw_now (ow_world w) - REVOCATION_WINDOW_MS)) (\<lambda>since.
     bindM (inI (readI (revoked_since since))) (\<lambda>rows.
       retM (CLIENT_TOKEN_TTL, map (\<lambda>(i, r). (i, iso_string r)) rows)))"

definition isRevoked :: "string \<Rightarrow> idb \<Rightarrow> bool" where
  "isRevoked i d \<longleftrightarrow> (case find_client i d of None \<Rightarrow> True | Some c \<Rightarrow> ac_revokedAt c \<noteq> None)"

section \<open>The controller\<close>

record token_form =
  tf_grant :: "string option"
  tf_id :: "string option"
  tf_secret :: "string option"
  tf_scope :: "string option"

definition tokenBody :: "json \<Rightarrow> token_form option" where
  "tokenBody v = (case v of JObj _ \<Rightarrow>
      (case (optional (parseSized 0 100) (obj_get v ''grant_type''), optional (parseSized 1 200) (obj_get v ''client_id''),
          optional (parseSized 1 200) (obj_get v ''client_secret''), optional (parseSized 0 2000) (obj_get v ''scope'')) of
        (Some g, Some i, Some s, Some sc) \<Rightarrow> Some \<lparr>tf_grant = g, tf_id = i, tf_secret = s, tf_scope = sc\<rparr>
      | _ \<Rightarrow> None)
    | _ \<Rightarrow> None)"

definition serviceBody :: "json \<Rightarrow> (string \<times> string) option" where
  "serviceBody v = (case (parseSized 1 200 (obj_get v ''client_id''), parseSized 1 200 (obj_get v ''client_secret'')) of
      (Some i, Some s) \<Rightarrow> Some (i, s) | _ \<Rightarrow> None)"

text \<open>
  \<open>decodeURIComponent\<close> of a text without \<open>+\<close>: every \<open>%\<close> takes two hexadecimal digits, and the
  bytes have to be UTF-8; text outside Latin-1 is kept as its bytes, as \<open>toString('utf8')\<close> below.
\<close>

fun percent_bytes :: "string \<Rightarrow> bytes option" where
  "percent_bytes [] = Some []"
| "percent_bytes (c # s) =
    (if c = CHR ''%'' then (case s of
        a # b # s' \<Rightarrow> if hex_char a \<and> hex_char b then map_option ((#) (16 * radix_val a + radix_val b)) (percent_bytes s') else None
      | _ \<Rightarrow> None)
     else map_option ((@) (utf8_bytes [c])) (percent_bytes s))"

definition cont_byte :: "nat \<Rightarrow> bool" where
  "cont_byte b \<longleftrightarrow> 128 \<le> b \<and> b < 192"

fun utf8_valid :: "bytes \<Rightarrow> bool" where
  "utf8_valid [] = True"
| "utf8_valid (a # bs) =
    (if a < 128 then utf8_valid bs
     else case bs of
       b # cs \<Rightarrow>
         if 194 \<le> a \<and> a < 224 then cont_byte b \<and> utf8_valid cs
         else (case cs of
           c # ds \<Rightarrow>
             if 224 \<le> a \<and> a < 240 then cont_byte b \<and> cont_byte c \<and> (a = 224 \<longrightarrow> 160 \<le> b) \<and> (a = 237 \<longrightarrow> b < 160) \<and> utf8_valid ds
             else (case ds of
               d # es \<Rightarrow> 240 \<le> a \<and> a < 245 \<and> cont_byte b \<and> cont_byte c \<and> cont_byte d \<and> (a = 240 \<longrightarrow> 144 \<le> b) \<and> (a = 244 \<longrightarrow> b < 144) \<and> utf8_valid es
             | [] \<Rightarrow> False)
         | [] \<Rightarrow> False)
     | [] \<Rightarrow> False)"

definition bytes_text :: "bytes \<Rightarrow> string" where
  "bytes_text bs = (case utf8_text bs of Some s \<Rightarrow> s | None \<Rightarrow> map chr bs)"

definition decodeURIComponent :: "string \<Rightarrow> string option" where
  "decodeURIComponent s = Option.bind (percent_bytes s) (\<lambda>bs. if utf8_valid bs then Some (bytes_text bs) else None)"

definition form_decode :: "string \<Rightarrow> string option" where
  "form_decode s = decodeURIComponent (map (\<lambda>c. if c = CHR ''+'' then CHR '' '' else c) s)"

definition basicCredentials :: "string \<Rightarrow> (string \<times> string) option" where
  "basicCredentials header = (case split_on CHR '' '' header of
      scheme # value # _ \<Rightarrow>
        if lower scheme \<noteq> ''basic'' \<or> value = [] then None
        else let decoded = bytes_text (b64_decode value) in
          (case index_of CHR '':'' decoded of
             None \<Rightarrow> None
           | Some n \<Rightarrow> (case (form_decode (take n decoded), form_decode (drop (Suc n) decoded)) of
               (Some i, Some s) \<Rightarrow> Some (i, s) | _ \<Rightarrow> None))
    | _ \<Rightarrow> None)"

text \<open>The checks of \<open>token\<close> before the service is called: the client id, the secret and the scope.\<close>

definition given :: "string option \<Rightarrow> string option" where
  "given v = (if v = Some [] then None else v)"

definition badRequest :: "string \<Rightarrow> exn" where
  "badRequest d = OAuthFail 400 ''invalid_request'' d None"

definition invalidClientWith :: "string \<Rightarrow> exn" where
  "invalidClientWith d = OAuthFail 401 ''invalid_client'' d None"

definition tokenRequest :: "string option \<Rightarrow> string option \<Rightarrow> json \<Rightarrow> exn + string \<times> string \<times> string option" where
  "tokenRequest contentType authorization body =
    (case tokenBody (if body = JNull then JObj [] else body) of
       None \<Rightarrow> Inl (badRequest ''Expected an application/x-www-form-urlencoded body'')
     | Some form \<Rightarrow>
         if \<not> (case contentType of None \<Rightarrow> False | Some ct \<Rightarrow> starts_with ct ''application/x-www-form-urlencoded'')
         then Inl (badRequest ''Expected an application/x-www-form-urlencoded body'')
         else if given (tf_grant form) = None then Inl (badRequest ''grant_type is required'')
         else if tf_grant form \<noteq> Some ''client_credentials''
           then Inl (OAuthFail 400 ''unsupported_grant_type'' ''Only client_credentials is supported'' None)
         else let basic = Option.bind (given authorization) basicCredentials in
           if given authorization \<noteq> None \<and> basic = None then Inl (invalidClientWith ''Malformed Basic credentials'')
           else if basic \<noteq> None \<and> (given (tf_id form) \<noteq> None \<or> given (tf_secret form) \<noteq> None)
             then Inl (badRequest ''Send client credentials either via Basic or in the body, not both'')
           else (case (case basic of Some (i, s) \<Rightarrow> (given (Some i), given (Some s)) | None \<Rightarrow> (given (tf_id form), given (tf_secret form))) of
               (Some i, Some s) \<Rightarrow>
                 if 200 < length i \<or> 200 < length s then Inl (invalidClientWith ''Client credentials are required'')
                 else Inr (i, s, tf_scope form)
             | _ \<Rightarrow> Inl (invalidClientWith ''Client credentials are required'')))"

record token_reply =
  tr_status :: nat
  tr_headers :: "(string \<times> string) list"
  tr_body :: json

definition token_json :: "token_response \<Rightarrow> json" where
  "token_json t = JObj ([(''access_token'', JStr (tk_access t)), (''token_type'', JStr ''Bearer''), (''expires_in'', JNum (int_num (tk_expires_in t)))]
     @ (case tk_scope t of None \<Rightarrow> [] | Some s \<Rightarrow> [(''scope'', JStr s)]))"

definition no_store :: "(string \<times> string) list" where
  "no_store = [(''Cache-Control'', ''no-store''), (''Pragma'', ''no-cache'')]"

definition errorReply :: "nat \<Rightarrow> string \<Rightarrow> string \<Rightarrow> int option \<Rightarrow> token_reply" where
  "errorReply status err d retryAfter = \<lparr>tr_status = status,
     tr_headers = no_store @ (if status = 401 then [(''WWW-Authenticate'', ''Basic realm='' @ in_quotes ''open-emarsys'')] else [])
       @ (case retryAfter of None \<Rightarrow> [] | Some r \<Rightarrow> if r = 0 then [] else [(''Retry-After'', show_int r)]),
     tr_body = JObj [(''error'', JStr err), (''error_description'', JStr d)]\<rparr>"

definition tokenEndpoint :: "oauth \<Rightarrow> string option \<Rightarrow> string option \<Rightarrow> json \<Rightarrow> token_reply oact" where
  "tokenEndpoint a contentType authorization body w =
    (case bindM (liftE (tokenRequest contentType authorization body)) (\<lambda>(i, s, scope). clientToken a i s scope) w of
       (Inr t, w') \<Rightarrow> (Inr \<lparr>tr_status = 200, tr_headers = no_store, tr_body = token_json t\<rparr>, w')
     | (Inl (OAuthFail status err d r), w') \<Rightarrow> (Inr (errorReply status err d r), w')
     | (Inl e, w') \<Rightarrow> (Inl e, w'))"

definition serviceTokenEndpoint :: "oauth \<Rightarrow> json \<Rightarrow> token_response oact" where
  "serviceTokenEndpoint a body = (case serviceBody body of
      None \<Rightarrow> throwM (HttpExc 400 ''client_id and client_secret are required'')
    | Some (i, s) \<Rightarrow> bindM (serviceToken a i s) (\<lambda>t. case t of
        None \<Rightarrow> throwM (HttpExc 401 ''Invalid service credentials'')
      | Some t \<Rightarrow> retM t))"

end
