(* ===== verification/Access_Tokens.thy ===== *)
theory Access_Tokens
  imports Auth_Lockout
begin

text \<open>
  From the roles of a user to the guard of another request: the claims \<open>issue\<close> signs are the
  claims \<open>verifier.ts\<close> parses, and the guard decides by the user's grants.
\<close>

text \<open>What the code relies on of \<open>jose\<close>: a token signed with a key of the set verifies, until it expires.\<close>

definition jose_ok :: "crypto \<Rightarrow> signer \<Rightarrow> int \<Rightarrow> string \<Rightarrow> bool" where
  "jose_ok c s now token \<longleftrightarrow> (\<forall>claims ttl t0. now < t0 + ttl \<and>
       token = cr_jws c (sk_kid (signingKey s)) (sk_private (signingKey s)) (payload s claims ttl t0) \<longrightarrow>
     cr_jwt c (jwks c s) (sg_issuer s) now token = Some (payload s claims ttl t0))"

lemma parsePermissions_strings: "list_all is_permission ps \<Longrightarrow> parsePermissions (map JStr ps) = Some ps"
  by (induction ps) auto

definition user_principal :: "user \<Rightarrow> string list \<Rightarrow> int \<Rightarrow> int \<Rightarrow> principal" where
  "user_principal u perms iat ex = \<lparr>pr_sub = us_id u, pr_typ = TUser, pr_tenant = us_tenant u, pr_perms = Some perms, pr_scopes = None,
     pr_iat = iat, pr_exp = ex\<rparr>"

lemma parse_user_claims:
  assumes "us_id u \<noteq> []" and "\<forall>t. us_tenant u = Some t \<longrightarrow> is_uuid t" and "list_all is_permission perms"
  shows "parseClaims (payload s (user_claims u perms) ttl now) = Inr (user_principal u perms now (now + ttl))"
proof -
  have "1 \<le> length (us_id u)" using assms(1) by (simp add: Suc_le_eq)
  moreover have "parseTenantId (Some (json_tenant (us_tenant u))) = Some (us_tenant u)"
    using assms(2) by (auto simp: parseTenantId_def json_tenant_def split: option.split)
  moreover have "parseOptPermissions (Some (JArr (map JStr perms))) = Some (Some perms)"
    using parsePermissions_strings[OF assms(3)] by (simp add: parseOptPermissions_def)
  ultimately show ?thesis
    by (simp add: parseClaims_def payload_def user_claims_def obj_get_def parseSub_def parseTyp_def parseOptPermissions_def parseInt_def
        is_int_num_def Let_def grants_fit_def user_principal_def)
qed

lemma canActivate_bearer:
  assumes "token \<noteq> []" and "CHR '' '' \<notin> set token" and "\<not> rt_public route"
  shows "canActivate verify route (Some (''Bearer '' @ token)) = (case verify token of
      Inl e \<Rightarrow> Inl (HttpExc 401 ''Invalid or expired token'')
    | Inr p \<Rightarrow> if rt_internal route \<noteq> (pr_typ p = TService)
          then Inl (HttpExc 403 (if rt_internal route then ''Service token required'' else ''Service tokens are only valid on internal routes''))
        else if set (rt_required route) \<subseteq> set (grantsOf p) then Inr (Some p)
        else Inl (HttpExc 403 (''Missing permission: '' @ join_with '', '' (filter (\<lambda>g. \<not> List.member (grantsOf p) g) (rt_required route)))))"
proof -
  have "split_on CHR '' '' (''Bearer '' @ token) = [''Bearer'', token]" using split_on_id[OF assms(2)] by simp
  moreover have "lower ''Bearer'' = ''bearer''" by code_simp
  ultimately have "bearerToken (Some (''Bearer '' @ token)) = Some token" using assms(1) by (simp add: bearerToken_def Let_def)
  then show ?thesis
    using assms(3) by (cases "verify token") (auto simp: canActivate_def missingGrants_empty missingGrants_def filter_empty_conv)
qed

text \<open>C28. A user's access token admits exactly what its roles grant: until it expires, after 15 minutes, the
  guard of a route that is not public lets the token through if the roles the user had when it
  was issued grant every permission the route requires, with the user and its tenant as the
  principal, and otherwise answers 403 naming what is missing; internal routes refuse it.\<close>

theorem access_token_admits_what_roles_grant:
  assumes "issue a u f now w = (Inr tp, w1)" and "jose_ok (ax_crypto a) (ax_signer a) later (tp_access tp)" and "later < iw_now w div 1000 + 15 * 60"
    and "us_id u \<noteq> []" and "\<forall>t. us_tenant u = Some t \<longrightarrow> is_uuid t"
    and "\<forall>g \<in> set (grants_of (us_id u) (iw_db w)). is_permission (grant_name g)"
    and "tp_access tp \<noteq> []" and "CHR '' '' \<notin> set (tp_access tp)" and "\<not> rt_public route"
    and "granted = perms_of (us_id u) (iw_db w)"
  shows "canActivate (verifyToken (cr_jwt (ax_crypto a) (jwks (ax_crypto a) (ax_signer a)) (sg_issuer (ax_signer a)) later)) route (Some (''Bearer '' @ tp_access tp)) =
      (if rt_internal route then Inl (HttpExc 403 ''Service token required'')
       else if set (rt_required route) \<subseteq> set granted
         then Inr (Some (user_principal u granted (iw_now w div 1000) (iw_now w div 1000 + 15 * 60)))
       else Inl (HttpExc 403 (''Missing permission: '' @ join_with '', '' (filter (\<lambda>g. \<not> List.member granted g) (rt_required route))))) \<and>
    set granted = grant_name ` set (grants_of (us_id u) (iw_db w)) \<and> distinct granted"
proof -
  let ?p = "user_principal u granted (iw_now w div 1000) (iw_now w div 1000 + ACCESS_TTL)"
  have set: "set granted = grant_name ` set (grants_of (us_id u) (iw_db w))" "distinct granted"
    by (simp_all add: assms(10) perms_of_def)
  have "list_all is_permission granted" using assms(6) by (auto simp: list_all_iff set)
  then have claims: "parseClaims (payload (ax_signer a) (user_claims u granted) ACCESS_TTL (iw_now w div 1000)) = Inr ?p"
    by (rule parse_user_claims[OF assms(4,5)])
  have "verifyToken (cr_jwt (ax_crypto a) (jwks (ax_crypto a) (ax_signer a)) (sg_issuer (ax_signer a)) later) (tp_access tp) = Inr ?p"
    using issue_Inr[OF assms(1)] assms(2,3) claims by (simp add: verifyToken_def jose_ok_def ACCESS_TTL_def assms(10))
  then show ?thesis
    using set unfolding canActivate_bearer[OF assms(7-9)] by (simp add: user_principal_def grantsOf_def ACCESS_TTL_def)
qed

section \<open>A marketer\<close>

definition demo_marketer :: iworld where
  "demo_marketer = demo_iworld\<lparr>iw_db := demo_idb\<lparr>id_grants := [grant_row demo_tenant_id demo_admin_role (''contacts'', ''edit''), grant_row demo_tenant_id demo_admin_role (''contacts'', ''view'')]\<rparr>\<rparr>"

text \<open>Signing that can be read back: the token is a mark, and verification knows what it marked.\<close>

definition demo_signing :: "json \<Rightarrow> auth" where
  "demo_signing p = demo_auth\<lparr>ax_crypto := demo_crypto\<lparr>cr_jws := (\<lambda>kid key q. if q = p then ''token'' else ''x''), cr_jwt := (\<lambda>ks i now t. if t = ''token'' then Some p else None)\<rparr>\<rparr>"

definition demo_claims :: json where
  "demo_claims = payload (ax_signer demo_auth) (user_claims (demo_user CHR ''a'') [''contacts:edit'', ''contacts:view'']) 900 0"

lemma access_token_admits_what_roles_grant_witness:
  "\<exists>tp w1 p. issue (demo_signing demo_claims) (demo_user CHR ''a'') ''f'' 0 demo_marketer = (Inr tp, w1) \<and>
     canActivate (verifyToken (cr_jwt (ax_crypto (demo_signing demo_claims)) [(''k1'', ''p'')] ''oe'' 899)) \<lparr>rt_public = False, rt_internal = False, rt_required = [''contacts:edit'']\<rparr> (Some (''Bearer '' @ tp_access tp)) = Inr (Some p) \<and>
     pr_sub p = demo_uid CHR ''a'' \<and> pr_perms p = Some [''contacts:edit'', ''contacts:view'']"
proof -
  let ?a = "demo_signing demo_claims"
  let ?u = "demo_user CHR ''a''"
  have perms: "perms_of (us_id ?u) (iw_db demo_marketer) = [''contacts:edit'', ''contacts:view'']" by code_simp
  have sg: "ax_signer (demo_signing q) = ax_signer demo_auth" for q by (simp add: demo_signing_def)
  have "id_tokens (iw_db demo_marketer) = []" "find_user (us_id ?u) (iw_db demo_marketer) = Some ?u"
    by (simp_all add: demo_marketer_def demo_idb_def find_user_def)
  then have "\<not> isl (fst (issue ?a ?u ''f'' 0 demo_marketer))"
    by (simp add: issue_def sign_apply insertToken_def transactionI_def updateUserRow_def find_user_def)
  then obtain tp w1 where i: "issue ?a ?u ''f'' 0 demo_marketer = (Inr tp, w1)"
    by (metis isl_def obj_sumE prod.collapse)
  have now: "iw_now demo_marketer = 0" by (simp add: demo_marketer_def demo_iworld_def)
  have "payload (ax_signer ?a) (user_claims ?u (perms_of (us_id ?u) (iw_db demo_marketer))) ACCESS_TTL (iw_now demo_marketer div 1000) = demo_claims"
    by (simp add: perms now demo_claims_def ACCESS_TTL_def sg)
  then have tok: "tp_access tp = ''token''" using issue_Inr[OF i] by (simp add: demo_signing_def)
  have jose: "jose_ok (ax_crypto ?a) (ax_signer ?a) 899 (tp_access tp)"
    unfolding jose_ok_def tok by (auto simp: demo_signing_def split: if_splits)
  have keys: "jwks (ax_crypto ?a) (ax_signer ?a) = [(''k1'', ''p'')]" "sg_issuer (ax_signer ?a) = ''oe''"
    by (simp_all add: jwks_def demo_signing_def demo_auth_def demo_crypto_def)
  have user: "us_id ?u \<noteq> []" "\<forall>t. us_tenant ?u = Some t \<longrightarrow> is_uuid t" "\<forall>g \<in> set (grants_of (us_id ?u) (iw_db demo_marketer)). is_permission (grant_name g)"
  proof -
    have "is_uuid demo_tenant_id" "list_all (\<lambda>g. is_permission (grant_name g)) (grants_of (us_id ?u) (iw_db demo_marketer))" by code_simp+
    then show "us_id ?u \<noteq> []" "\<forall>t. us_tenant ?u = Some t \<longrightarrow> is_uuid t" "\<forall>g \<in> set (grants_of (us_id ?u) (iw_db demo_marketer)). is_permission (grant_name g)"
      by (simp_all add: demo_user_def demo_uid_def list_all_iff)
  qed
  have late: "(899 :: int) < iw_now demo_marketer div 1000 + 15 * 60" by (simp add: now)
  have token: "tp_access tp \<noteq> []" "CHR '' '' \<notin> set (tp_access tp)" by (simp_all add: tok)
  let ?route = "\<lparr>rt_public = False, rt_internal = False, rt_required = [''contacts:edit'']\<rparr>"
  have "canActivate (verifyToken (cr_jwt (ax_crypto ?a) [(''k1'', ''p'')] ''oe'' 899)) ?route (Some (''Bearer '' @ tp_access tp)) =
      Inr (Some (user_principal ?u [''contacts:edit'', ''contacts:view''] 0 900))"
    using access_token_admits_what_roles_grant[OF i jose late user token, of ?route "[''contacts:edit'', ''contacts:view'']"] perms
    by (simp add: keys now)
  then show ?thesis using i by (intro exI conjI) (auto simp: user_principal_def demo_user_def)
qed

end
