(* ===== verification/OAuth_Properties.thy ===== *)
theory OAuth_Properties
  imports OAuth Access_Tokens
begin

text \<open>
  What a client token admits and for how long: the scopes it carries, the throttle on wrong
  secrets, and what a revocation reaches.
\<close>

section \<open>Steps\<close>

lemma inI_apply [simp]: "inI m w = (fst (m (ow_world w)), w\<lparr>ow_world := snd (m (ow_world w))\<rparr>)"
  by (simp add: inI_def split: prod.split)

lemma sign_at [simp]: "sign c s claims ttl w = (Inr (cr_jws c (sk_kid (signingKey s)) (sk_private (signingKey s)) (payload s claims ttl (iw_now w div 1000))), w)"
  by (simp add: sign_def Let_def)

lemma grantToken_apply: "grantToken a row i scopes now w =
    (Inr \<lparr>tk_access = cr_jws (oa_crypto a) (sk_kid (signingKey (oa_signer a))) (sk_private (signingKey (oa_signer a)))
            (payload (oa_signer a) (client_claims i (ac_tenant row) scopes) CLIENT_TOKEN_TTL (iw_now (ow_world w) div 1000)),
          tk_expires_in = CLIENT_TOKEN_TTL, tk_scope = Some (join_with '' '' scopes)\<rparr>,
     w\<lparr>ow_failures := alist_del i (ow_failures w),
       ow_world := (ow_world w)\<lparr>iw_db := (iw_db (ow_world w))\<lparr>id_clients := map (used_row (ac_id row) now) (id_clients (iw_db (ow_world w)))\<rparr>\<rparr>\<rparr>)"
  by (simp add: grantToken_def bindM_def)

definition wrong_secret :: "oauth \<Rightarrow> string \<Rightarrow> string \<Rightarrow> idb \<Rightarrow> bool" where
  "wrong_secret a i secret d \<longleftrightarrow> (case find_client i d of None \<Rightarrow> True | Some row \<Rightarrow> \<not> cr_verify (oa_crypto a) (ac_secretHash row) secret)"

lemma clientToken_eq: "clientToken a i secret scope w =
    (let v = ow_world w; now = iw_now v; d = iw_db v in case throttle i now (ow_failures w) of
       Inl e \<Rightarrow> (Inl e, w)
     | Inr _ \<Rightarrow> if wrong_secret a i secret d then (Inl invalidClient, w\<lparr>ow_failures := count_failure i now (ow_failures w)\<rparr>)
       else let row = the (find_client i d) in
         if ac_revokedAt row \<noteq> None \<or> client_suspended row d then (Inl invalidClient, w)
         else (case narrowScopes (ac_scopes row) scope of Inl e \<Rightarrow> (Inl e, w) | Inr scopes \<Rightarrow> grantToken a row i scopes now w))"
  by (auto simp: clientToken_def wrong_secret_def bindM_def recordClientFailure_def Let_def split: sum.split option.split)

lemma clientToken_Inr:
  assumes "clientToken a i secret scope w = (Inr t, w1)"
  obtains row scopes where "find_client i (iw_db (ow_world w)) = Some row" and "cr_verify (oa_crypto a) (ac_secretHash row) secret"
    and "ac_revokedAt row = None" and "\<not> client_suspended row (iw_db (ow_world w))" and "narrowScopes (ac_scopes row) scope = Inr scopes"
    and "grantToken a row i scopes (iw_now (ow_world w)) w = (Inr t, w1)"
  using assms by (auto simp: clientToken_eq Let_def wrong_secret_def split: sum.splits if_splits option.splits)

lemma narrowScopes_subset: "narrowScopes ss scope = Inr r \<Longrightarrow> set r \<subseteq> set ss"
  by (auto simp: narrowScopes_def Let_def filter_empty_conv split: option.splits if_splits)

section \<open>What a client token admits\<close>

definition client_principal :: "api_client \<Rightarrow> string list \<Rightarrow> int \<Rightarrow> int \<Rightarrow> principal" where
  "client_principal c scopes iat ex = \<lparr>pr_sub = ac_clientId c, pr_typ = TClient, pr_tenant = Some (ac_tenant c), pr_perms = None,
     pr_scopes = Some scopes, pr_iat = iat, pr_exp = ex\<rparr>"

lemma parse_client_claims:
  assumes "ac_clientId c \<noteq> []" and "is_uuid (ac_tenant c)" and "list_all is_permission scopes"
  shows "parseClaims (payload s (client_claims (ac_clientId c) (ac_tenant c) scopes) ttl now) = Inr (client_principal c scopes now (now + ttl))"
proof -
  have "1 \<le> length (ac_clientId c)" using assms(1) by (simp add: Suc_le_eq)
  moreover have "parseOptPermissions (Some (JArr (map JStr scopes))) = Some (Some scopes)"
    using parsePermissions_strings[OF assms(3)] by (simp add: parseOptPermissions_def)
  ultimately show ?thesis using assms(2)
    by (simp add: parseClaims_def payload_def client_claims_def obj_get_def parseSub_def parseTyp_def parseTenantId_def parseOptPermissions_def
        parseInt_def is_int_num_def Let_def grants_fit_def client_principal_def)
qed

text \<open>C29. A client token carries the granted scopes and no others, and the guard of core takes it only while
  the client is not revoked: a token is issued for the right secret of a live client of a tenant
  that is not suspended, with the scopes asked for (all of them when none are), each held by the
  client; a route that is not public then lets it through, as the client's principal, exactly if it
  is not internal and its permissions are among those scopes, and once the client is revoked or
  gone answers 401.\<close>

theorem client_token_admits_its_scopes:
  assumes "clientToken a i secret scope w = (Inr t, w1)" and "jose_ok (oa_crypto a) (oa_signer a) later (tk_access t)"
    and "later < iw_now (ow_world w) div 1000 + 3600" and "i \<noteq> []"
    and "\<forall>c \<in> set (id_clients (iw_db (ow_world w))). is_uuid (ac_tenant c) \<and> list_all is_permission (ac_scopes c)"
    and "tk_access t \<noteq> []" and "CHR '' '' \<notin> set (tk_access t)" and "\<not> rt_public route"
  shows "\<exists>row granted. find_client i (iw_db (ow_world w)) = Some row \<and> cr_verify (oa_crypto a) (ac_secretHash row) secret \<and>
      ac_revokedAt row = None \<and> \<not> client_suspended row (iw_db (ow_world w)) \<and>
      narrowScopes (ac_scopes row) scope = Inr granted \<and> set granted \<subseteq> set (ac_scopes row) \<and>
      canActivate (verifyRevocationAware (verifyToken (cr_jwt (oa_crypto a) (jwks (oa_crypto a) (oa_signer a)) (sg_issuer (oa_signer a)) later)) (\<lambda>j. isRevoked j d))
          route (Some (''Bearer '' @ tk_access t)) =
        (if isRevoked i d then Inl (HttpExc 401 ''Invalid or expired token'')
         else if rt_internal route then Inl (HttpExc 403 ''Service token required'')
         else if set (rt_required route) \<subseteq> set granted
           then Inr (Some (client_principal row granted (iw_now (ow_world w) div 1000) (iw_now (ow_world w) div 1000 + 3600)))
         else Inl (HttpExc 403 (''Missing permission: '' @ join_with '', '' (filter (\<lambda>g. \<not> List.member granted g) (rt_required route)))))"
proof -
  let ?now = "iw_now (ow_world w)"
  from clientToken_Inr[OF assms(1)] obtain row scopes where row: "find_client i (iw_db (ow_world w)) = Some row"
      "cr_verify (oa_crypto a) (ac_secretHash row) secret" "ac_revokedAt row = None" "\<not> client_suspended row (iw_db (ow_world w))"
      and scopes: "narrowScopes (ac_scopes row) scope = Inr scopes" and g: "grantToken a row i scopes ?now w = (Inr t, w1)" .
  have i: "ac_clientId row = i" "row \<in> set (id_clients (iw_db (ow_world w)))"
    using find_Some_set[OF row(1)[unfolded find_client_def]] by simp_all
  have sub: "set scopes \<subseteq> set (ac_scopes row)" using narrowScopes_subset[OF scopes] .
  then have ok: "list_all is_permission scopes" "is_uuid (ac_tenant row)" using assms(5) i(2) by (auto simp: list_all_iff)
  let ?p = "client_principal row scopes (?now div 1000) (?now div 1000 + CLIENT_TOKEN_TTL)"
  have "parseClaims (payload (oa_signer a) (client_claims i (ac_tenant row) scopes) CLIENT_TOKEN_TTL (?now div 1000)) = Inr ?p"
    using parse_client_claims[OF _ ok(2,1)] assms(4) i(1) by blast
  then have v: "verifyToken (cr_jwt (oa_crypto a) (jwks (oa_crypto a) (oa_signer a)) (sg_issuer (oa_signer a)) later) (tk_access t) = Inr ?p"
    using g assms(2,3) by (auto simp: grantToken_apply verifyToken_def jose_ok_def CLIENT_TOKEN_TTL_def)
  show ?thesis
    using row scopes sub unfolding canActivate_bearer[OF assms(6-8)]
    by (intro exI[of _ row] exI[of _ scopes]) (simp add: verifyRevocationAware_def v client_principal_def grantsOf_def i(1) CLIENT_TOKEN_TTL_def)
qed

section \<open>Revocation\<close>

lemma find_client_map:
  assumes "\<And>c. ac_clientId (f c) = ac_clientId c"
  shows "find_client i (d\<lparr>id_clients := map f (id_clients d)\<rparr>) = map_option f (find_client i d)"
proof -
  have "find (\<lambda>c. ac_clientId c = i) (map f cs) = map_option f (find (\<lambda>c. ac_clientId c = i) cs)" for cs
    using assms by (induction cs) auto
  then show ?thesis by (simp add: find_client_def)
qed

lemma find_distinct: "distinct (map key xs) \<Longrightarrow> x \<in> set xs \<Longrightarrow> find (\<lambda>y. key y = key x) xs = Some x"
  by (induction xs) (auto simp: image_iff)

lemma revoked_since_mem: "(i, r) \<in> set (revoked_since since d) \<longleftrightarrow> (\<exists>c \<in> set (id_clients d). ac_clientId c = i \<and> ac_revokedAt c = Some r \<and> since < r)"
  by (force simp: revoked_since_def split: option.splits if_splits)

lemma window_covers:
  assumes "t0 \<le> r" and "now div 1000 < t0 div 1000 + 3600 + 60"
  shows "now - REVOCATION_WINDOW_MS < (r :: int)"
proof -
  have *: "now - 3660000 < r" if "n < m + 3600 + 60" "now < (n + 1) * 1000" "m * 1000 \<le> t0" for n m :: int
  proof -
    have "n + 1 \<le> m + 3660" using that(1) by simp
    then have "(n + 1) * 1000 \<le> (m + 3660) * 1000" by simp
    then show ?thesis using that(2,3) assms(1) by (simp add: algebra_simps)
  qed
  have "now < (now div 1000 + 1) * 1000" "t0 div 1000 * 1000 \<le> t0" by presburger+
  then show ?thesis using *[OF assms(2)] by (simp add: REVOCATION_WINDOW_MS_def CLIENT_TOKEN_TTL_def)
qed


section \<open>The throttle\<close>

type_synonym attempt = "int \<times> string \<times> string \<times> string option"

definition at_time :: "int \<Rightarrow> oworld \<Rightarrow> oworld" where
  "at_time now w = w\<lparr>ow_world := (ow_world w)\<lparr>iw_now := now\<rparr>\<rparr>"

definition after_attempt :: "oauth \<Rightarrow> attempt \<Rightarrow> oworld \<Rightarrow> oworld" where
  "after_attempt a = (\<lambda>(now, i, secret, scope) w. snd (clientToken a i secret scope (at_time now w)))"

definition attempts_of :: "string \<Rightarrow> attempt list \<Rightarrow> nat" where
  "attempts_of i rs = length (filter (\<lambda>(now, j, secret, scope). j = i) rs)"

definition secret_of :: "string \<Rightarrow> idb \<Rightarrow> string option" where
  "secret_of i d = map_option ac_secretHash (find_client i d)"

lemma wrong_secret_hash: "secret_of i d = secret_of i d' \<Longrightarrow> wrong_secret a i secret d \<longleftrightarrow> wrong_secret a i secret d'"
  by (auto simp: secret_of_def wrong_secret_def split: option.splits)

lemma grantToken_secret: "secret_of i (iw_db (ow_world (snd (grantToken a row j scopes now w)))) = secret_of i (iw_db (ow_world w))"
proof -
  have "find_client i ((iw_db (ow_world w))\<lparr>id_clients := map (used_row (ac_id row) now) (id_clients (iw_db (ow_world w)))\<rparr>) =
      map_option (used_row (ac_id row) now) (find_client i (iw_db (ow_world w)))"
    by (rule find_client_map) (simp add: used_row_def)
  then show ?thesis by (cases "find_client i (iw_db (ow_world w))") (simp_all add: grantToken_apply secret_of_def used_row_def)
qed

lemma after_attempt_secret: "secret_of i (iw_db (ow_world (after_attempt a r w))) = secret_of i (iw_db (ow_world w))"
  by (cases r) (auto simp: after_attempt_def at_time_def clientToken_eq Let_def grantToken_secret split: sum.split)

lemma after_attempt_wrong: "wrong_secret a i s (iw_db (ow_world (after_attempt a r w))) = wrong_secret a i s (iw_db (ow_world w))"
  by (rule wrong_secret_hash) (rule after_attempt_secret)

text \<open>The count of a window that is open, and the attempts that find it.\<close>

definition counted :: "string \<Rightarrow> int \<Rightarrow> nat \<Rightarrow> (string \<times> failure) list \<Rightarrow> bool" where
  "counted i reset k fs \<longleftrightarrow> map_of fs i = Some \<lparr>fl_count = k, fl_resetAt = reset\<rparr>"

lemma map_of_filter_kept: "map_of fs i = Some v \<Longrightarrow> distinct (map fst fs) \<Longrightarrow> P (i, v) \<Longrightarrow> map_of (filter P fs) i = Some v"
  by (induction fs) (auto split: if_splits dest: map_of_SomeD)

lemma map_of_filter_absent: "map_of fs i = None \<Longrightarrow> map_of (filter P fs) i = None"
  by (induction fs) (auto split: if_splits)

lemma forget_ended_counted: "counted i reset k fs \<Longrightarrow> distinct (map fst fs) \<Longrightarrow> now < reset \<Longrightarrow> counted i reset k (forget_ended now fs)"
  by (simp add: counted_def forget_ended_def map_of_filter_kept)

lemma distinct_forget [simp]: "distinct (map fst fs) \<Longrightarrow> distinct (map fst (forget_ended now fs))"
  by (induction fs) (auto simp: forget_ended_def distinct_map intro: inj_on_subset)

lemma distinct_count [simp]: "distinct (map fst fs) \<Longrightarrow> distinct (map fst (count_failure i now fs))"
  by (simp add: count_failure_def Let_def split: option.split)

lemma count_failure_other:
  assumes "i \<noteq> j" and "counted i reset k fs" and "distinct (map fst fs)" and "now < reset"
  shows "counted i reset k (count_failure j now fs)"
  using forget_ended_counted[OF assms(2-4)] assms(1) unfolding count_failure_def Let_def counted_def
  by (simp del: map_of_eq_Some_iff split: option.split)

lemma count_failure_same:
  assumes "counted i reset k fs" and "distinct (map fst fs)" and "now < reset"
  shows "counted i reset (Suc k) (count_failure i now fs)"
  using forget_ended_counted[OF assms] assms(3) unfolding count_failure_def Let_def counted_def
  by (simp del: map_of_eq_Some_iff)

lemma count_failure_first:
  assumes "map_of fs i = None" and "distinct (map fst fs)"
  shows "counted i (now + FAILURE_WINDOW_MS) 1 (count_failure i now fs)"
proof -
  have "map_of (forget_ended now fs) i = None"
    using assms(1) by (simp add: forget_ended_def map_of_filter_absent)
  then show ?thesis by (simp add: count_failure_def Let_def counted_def)
qed

text \<open>Attempts after the first: wrong ones are counted up to ten, the others leave the count alone.\<close>

lemma after_attempt_counted:
  assumes "counted i reset k (ow_failures w)" and "distinct (map fst (ow_failures w))" and "now < reset" and "k \<le> OAUTH_MAX_FAILURES"
    and "j = i \<longrightarrow> wrong_secret a i secret (iw_db (ow_world w))"
  shows "counted i reset (if j = i then min OAUTH_MAX_FAILURES (Suc k) else k) (ow_failures (after_attempt a (now, j, secret, scope) w)) \<and>
      distinct (map fst (ow_failures (after_attempt a (now, j, secret, scope) w)))"
proof (cases "j = i")
  case True
  have th: "throttle i now (ow_failures w) = (if OAUTH_MAX_FAILURES \<le> k
      then Inl (OAuthFail 429 ''invalid_client'' ''Too many failed attempts'' (Some ((reset - now + 999) div 1000))) else Inr ())"
    using assms(1,3) unfolding throttle_def counted_def by (simp del: map_of_eq_Some_iff)
  show ?thesis
  proof (cases "OAUTH_MAX_FAILURES \<le> k")
    case full: True
    then have "after_attempt a (now, j, secret, scope) w = at_time now w"
      using True by (simp add: after_attempt_def clientToken_eq at_time_def Let_def th)
    then show ?thesis using True full assms(1,2,4) by (simp add: at_time_def min_def)
  next
    case False
    then have "ow_failures (after_attempt a (now, j, secret, scope) w) = count_failure i now (ow_failures w)"
      using True assms(5) by (simp add: after_attempt_def clientToken_eq at_time_def Let_def th)
    moreover have "min OAUTH_MAX_FAILURES (Suc k) = Suc k" using False by simp
    ultimately show ?thesis using True count_failure_same[OF assms(1-3)] assms(2) by simp
  qed
next
  case False
  have del: "counted i reset k (alist_del j (ow_failures w))"
    using assms(1) False unfolding counted_def by (simp del: map_of_eq_Some_iff)
  have "ow_failures (after_attempt a (now, j, secret, scope) w) \<in> {ow_failures w, count_failure j now (ow_failures w), alist_del j (ow_failures w)}"
    by (simp add: after_attempt_def at_time_def clientToken_eq Let_def grantToken_apply split: sum.split)
  then show ?thesis using False assms(1,2) count_failure_other[OF _ assms(1-3), of j] del by auto
qed

lemma after_attempts_counted:
  assumes "counted i reset k (ow_failures w)" and "distinct (map fst (ow_failures w))" and "k \<le> OAUTH_MAX_FAILURES"
    and "\<forall>(now, j, secret, scope) \<in> set rs. now < reset \<and> (j = i \<longrightarrow> wrong_secret a i secret (iw_db (ow_world w)))"
  shows "counted i reset (min OAUTH_MAX_FAILURES (k + attempts_of i rs)) (ow_failures (fold (after_attempt a) rs w))"
  using assms
proof (induction rs arbitrary: k w)
  case Nil
  then show ?case by (simp add: attempts_of_def)
next
  case (Cons r rs)
  obtain now j secret scope where r: "r = (now, j, secret, scope)" by (cases r)
  let ?k = "if j = i then min OAUTH_MAX_FAILURES (Suc k) else k"
  have step: "counted i reset ?k (ow_failures (after_attempt a r w))" "distinct (map fst (ow_failures (after_attempt a r w)))"
    using after_attempt_counted[OF Cons.prems(1,2) _ Cons.prems(3), of now j a secret scope] Cons.prems(4) by (auto simp: r)
  have "\<forall>(now, j, secret, scope) \<in> set rs. now < reset \<and> (j = i \<longrightarrow> wrong_secret a i secret (iw_db (ow_world (after_attempt a r w))))"
    using Cons.prems(4) by (simp add: after_attempt_wrong)
  from Cons.IH[OF step _ this] have "counted i reset (min OAUTH_MAX_FAILURES (?k + attempts_of i rs)) (ow_failures (fold (after_attempt a) rs (after_attempt a r w)))"
    using Cons.prems(3) by simp
  moreover have "min OAUTH_MAX_FAILURES (?k + attempts_of i rs) = min OAUTH_MAX_FAILURES (k + attempts_of i (r # rs))"
    by (auto simp: attempts_of_def r min_def)
  ultimately show ?case by simp
qed

lemma unthrottled:
  assumes "throttle i (iw_now (ow_world w)) (ow_failures w) = Inr ()"
  shows "fst (clientToken a i secret scope w) = fst (clientToken a i secret scope (w\<lparr>ow_failures := []\<rparr>))"
proof -
  have "throttle i (iw_now (ow_world w)) [] = Inr ()" by (simp add: throttle_def)
  then show ?thesis using assms by (simp add: clientToken_eq Let_def grantToken_apply split: sum.split)
qed

text \<open>Ten wrong secrets close a client id for the rest of the minute: from the first wrong attempt at
  \<open>t0\<close> on, with attempts on other clients in between, the tenth within 60 seconds makes every later one
  before \<open>t0\<close> + 60 s answer 429, even with the right secret, with the seconds left as Retry-After; with
  fewer, or from then on, an attempt answers as if none had failed.\<close>

theorem ten_failures_throttle:
  assumes "map_of (ow_failures w) i = None" and "distinct (map fst (ow_failures w))"
    and "attempts = (t0, i, s0, scope0) # rs"
    and "\<forall>(now, j, secret, scope) \<in> set attempts. now < t0 + 60000 \<and> (j = i \<longrightarrow> wrong_secret a i secret (iw_db (ow_world w)))"
    and "w' = at_time now (fold (after_attempt a) attempts w)"
  shows "fst (clientToken a i secret scope w') =
      (if 10 \<le> attempts_of i attempts \<and> now < t0 + 60000
       then Inl (OAuthFail 429 ''invalid_client'' ''Too many failed attempts'' (Some ((t0 + 60000 - now + 999) div 1000)))
       else fst (clientToken a i secret scope (w'\<lparr>ow_failures := []\<rparr>)))"
proof -
  let ?w1 = "after_attempt a (t0, i, s0, scope0) w"
  have wrong: "wrong_secret a i s0 (iw_db (ow_world w))" using assms(3,4) by auto
  have th: "throttle i t0 (ow_failures w) = Inr ()" using assms(1) by (simp add: throttle_def)
  have f1: "ow_failures ?w1 = count_failure i t0 (ow_failures w)"
    by (simp add: after_attempt_def at_time_def clientToken_eq Let_def th wrong)
  have rest: "\<forall>(now, j, secret, scope) \<in> set rs. now < t0 + FAILURE_WINDOW_MS \<and> (j = i \<longrightarrow> wrong_secret a i secret (iw_db (ow_world ?w1)))"
    using assms(3,4) by (simp add: after_attempt_wrong FAILURE_WINDOW_MS_def)
  let ?n = "min OAUTH_MAX_FAILURES (1 + attempts_of i rs)"
  have "counted i (t0 + FAILURE_WINDOW_MS) ?n (ow_failures (fold (after_attempt a) rs ?w1))"
    using count_failure_first[OF assms(1,2), of t0] assms(2)
    by (intro after_attempts_counted) (use rest in \<open>simp_all add: f1 OAUTH_MAX_FAILURES_def\<close>)
  then have c: "counted i (t0 + 60000) ?n (ow_failures w')" by (simp add: assms(3,5) at_time_def FAILURE_WINDOW_MS_def)
  have now: "iw_now (ow_world w') = now" by (simp add: assms(5) at_time_def)
  have n: "OAUTH_MAX_FAILURES \<le> ?n \<longleftrightarrow> 10 \<le> attempts_of i attempts"
    by (simp add: assms(3) attempts_of_def OAUTH_MAX_FAILURES_def)
  have t: "throttle i now (ow_failures w') = (if 10 \<le> attempts_of i attempts \<and> now < t0 + 60000
      then Inl (OAuthFail 429 ''invalid_client'' ''Too many failed attempts'' (Some ((t0 + 60000 - now + 999) div 1000))) else Inr ())"
    using c n unfolding throttle_def counted_def by (auto simp del: map_of_eq_Some_iff)
  show ?thesis
  proof (cases "10 \<le> attempts_of i attempts \<and> now < t0 + 60000")
    case True
    then show ?thesis by (simp add: clientToken_eq[of a i secret scope w'] now t)
  next
    case False
    then have "throttle i now (ow_failures w') = Inr ()" using t by auto
    then show ?thesis using unthrottled[of i w'] unfolding now if_not_P[OF False] by blast
  qed
qed

section \<open>A client\<close>

definition demo_client :: api_client where
  "demo_client = \<lparr>ac_id = demo_uid CHR ''c'', ac_tenant = demo_tenant_id, ac_clientId = ''oec'', ac_name = ''erp'', ac_secretHash = ''h'',
     ac_scopes = [''contacts:view'', ''contacts:edit''], ac_revokedAt = None, ac_lastUsedAt = None, ac_createdAt = 0\<rparr>"

definition demo_oworld :: oworld where
  "demo_oworld = \<lparr>ow_world = demo_iworld\<lparr>iw_db := demo_idb\<lparr>id_clients := [demo_client]\<rparr>\<rparr>, ow_failures = []\<rparr>"

definition demo_oauth :: "json \<Rightarrow> oauth" where
  "demo_oauth p = \<lparr>oa_crypto = (ax_crypto (demo_signing p))\<lparr>cr_verify := (\<lambda>h s. s = ''secret'')\<rparr>, oa_signer = ax_signer demo_auth, oa_services = []\<rparr>"

definition demo_client_claims :: json where
  "demo_client_claims = payload (ax_signer demo_auth) (client_claims ''oec'' demo_tenant_id [''contacts:view'']) 3600 0"

lemma demo_client_facts:
  "find_client ''oec'' (iw_db (ow_world demo_oworld)) = Some demo_client" "iw_now (ow_world demo_oworld) = 0" "ow_failures demo_oworld = []"
  "\<not> client_suspended demo_client (iw_db (ow_world demo_oworld))" "id_clients (iw_db (ow_world demo_oworld)) = [demo_client]"
proof -
  show "\<not> client_suspended demo_client (iw_db (ow_world demo_oworld))" by code_simp
qed (simp_all add: demo_oworld_def demo_client_def find_client_def demo_iworld_def)

lemma client_token_admits_its_scopes_witness:
  "\<exists>t w1 row granted. clientToken (demo_oauth demo_client_claims) ''oec'' ''secret'' (Some ''contacts:view'') demo_oworld = (Inr t, w1) \<and>
     find_client ''oec'' (iw_db (ow_world demo_oworld)) = Some row \<and> granted = [''contacts:view''] \<and>
     canActivate (verifyRevocationAware (verifyToken (cr_jwt (oa_crypto (demo_oauth demo_client_claims)) (jwks (oa_crypto (demo_oauth demo_client_claims)) (ax_signer demo_auth)) (sg_issuer (ax_signer demo_auth)) 3599))
         (\<lambda>j. isRevoked j (iw_db (ow_world demo_oworld)))) \<lparr>rt_public = False, rt_internal = False, rt_required = [''contacts:view'']\<rparr> (Some (''Bearer '' @ tk_access t)) =
       Inr (Some (client_principal row granted 0 3600))"
proof -
  let ?a = "demo_oauth demo_client_claims"
  let ?r = "\<lparr>rt_public = False, rt_internal = False, rt_required = [''contacts:view'']\<rparr>"
  have a: "oa_signer ?a = ax_signer demo_auth" "cr_verify (oa_crypto ?a) h s = (s = ''secret'')"
      "cr_jws (oa_crypto ?a) k x q = (if q = demo_client_claims then ''token'' else ''x'')"
      "cr_jwt (oa_crypto ?a) ks j n y = (if y = ''token'' then Some demo_client_claims else None)" for h s k x q ks j n y
    by (simp_all add: demo_oauth_def demo_signing_def)
  have n: "narrowScopes (ac_scopes demo_client) (Some ''contacts:view'') = Inr [''contacts:view'']" by code_simp
  have c: "ac_revokedAt demo_client = None" "ac_scopes demo_client = [''contacts:view'', ''contacts:edit'']" "ac_tenant demo_client = demo_tenant_id"
    by (simp_all add: demo_client_def)
  have th: "throttle ''oec'' 0 [] = Inr ()" by (simp add: throttle_def)
  have "\<not> wrong_secret ?a ''oec'' ''secret'' (iw_db (ow_world demo_oworld))" by (simp add: wrong_secret_def demo_client_facts a)
  then have "clientToken ?a ''oec'' ''secret'' (Some ''contacts:view'') demo_oworld = grantToken ?a demo_client ''oec'' [''contacts:view''] 0 demo_oworld"
    using n by (simp add: clientToken_eq Let_def demo_client_facts th c)
  moreover have "payload (oa_signer ?a) (client_claims ''oec'' demo_tenant_id [''contacts:view'']) CLIENT_TOKEN_TTL 0 = demo_client_claims"
    unfolding a CLIENT_TOKEN_TTL_def unfolding demo_client_claims_def by (rule refl)
  ultimately obtain t w1 where t: "clientToken ?a ''oec'' ''secret'' (Some ''contacts:view'') demo_oworld = (Inr t, w1)" "tk_access t = ''token''"
    by (simp add: grantToken_apply demo_client_facts c a)
  have jose: "jose_ok (oa_crypto ?a) (oa_signer ?a) 3599 (tk_access t)" by (auto simp: jose_ok_def t(2) a split: if_splits)
  have "is_uuid demo_tenant_id" "list_all is_permission [''contacts:view'', ''contacts:edit'']" by code_simp+
  then have ok: "\<forall>c \<in> set (id_clients (iw_db (ow_world demo_oworld))). is_uuid (ac_tenant c) \<and> list_all is_permission (ac_scopes c)"
    by (simp add: demo_client_facts demo_client_def)
  from client_token_admits_its_scopes[OF t(1) jose _ _ ok, of ?r "iw_db (ow_world demo_oworld)"] show ?thesis
    using t n demo_client_facts c by (auto simp: a isRevoked_def)
qed


lemma ten_failures_throttle_witness:
  "fst (clientToken (demo_oauth JNull) ''oec'' ''secret'' None (at_time 1500 (fold (after_attempt (demo_oauth JNull)) (replicate 10 (0, ''oec'', ''bad'', None)) demo_oworld))) =
     Inl (OAuthFail 429 ''invalid_client'' ''Too many failed attempts'' (Some 59))"
proof -
  let ?a = "demo_oauth JNull"
  let ?rs = "replicate 10 (0, ''oec'', ''bad'', None) :: attempt list"
  have rs: "?rs = (0, ''oec'', ''bad'', None) # replicate 9 (0, ''oec'', ''bad'', None)" by (simp add: eval_nat_numeral)
  have bad: "wrong_secret ?a ''oec'' ''bad'' (iw_db (ow_world demo_oworld))"
    by (simp add: wrong_secret_def demo_client_facts demo_oauth_def)
  have n: "attempts_of ''oec'' ?rs = 10" by (simp add: attempts_of_def)
  from ten_failures_throttle[where w = demo_oworld, OF _ _ rs _ refl] show ?thesis
    using bad n by (simp add: demo_client_facts)
qed

end
