(* ===== verification/Tenant_Properties.thy ===== *)
theory Tenant_Properties
  imports Tenants OAuth_Properties
begin

text \<open>
  What suspending a tenant stops, and what a new tenant starts with.
\<close>

section \<open>Suspension\<close>

definition in_suspended :: "string \<Rightarrow> idb \<Rightarrow> bool" where
  "in_suspended t d \<longleftrightarrow> (\<exists>x. find_tenant t d = Some x \<and> tn_suspended x)"

lemma updateTenant_suspends:
  assumes "updateTenant i input w = (Inr dto, w1)" and "tu_suspended input = Some True"
  shows "in_suspended (lower i) (iw_db w1) \<and> te_status dto = ''suspended'' \<and> id_users (iw_db w1) = id_users (iw_db w)"
proof -
  let ?f = "\<lambda>x. if tn_id x = lower i then updated_tenant input x else x"
  obtain t where t: "find_tenant (lower i) (iw_db w) = Some t" and u: "is_uuid i"
    and rest: "bindM (onI (\<lambda>d. d\<lparr>id_tenants := map (\<lambda>x. if tn_id x = tn_id t then updated_tenant input x else x) (id_tenants d)\<rparr>)) (\<lambda>_.
      bindM (readI (find_tenant (tn_id t))) (\<lambda>found. case found of None \<Rightarrow> throwM notFoundError | Some x \<Rightarrow> retM (toTenantDto x))) w = (Inr dto, w1)"
    using assms(1) by (auto simp: updateTenant_def tenantOrThrow_def bindM_Inr split: if_splits option.splits)
  have i: "tn_id t = lower i" using find_Some_set[OF t[unfolded find_tenant_def]] by simp
  have "find (\<lambda>x. tn_id x = lower i) (map ?f ts) = map_option ?f (find (\<lambda>x. tn_id x = lower i) ts)" for ts
    by (induction ts) (auto simp: updated_tenant_def)
  then have f: "find_tenant (lower i) ((iw_db w)\<lparr>id_tenants := map ?f (id_tenants (iw_db w))\<rparr>) = Some (updated_tenant input t)"
    using t i by (simp add: find_tenant_def)
  then have "dto = toTenantDto (updated_tenant input t)" "iw_db w1 = (iw_db w)\<lparr>id_tenants := map ?f (id_tenants (iw_db w))\<rparr>"
    using rest by (auto simp: i bindM_def)
  then show ?thesis using f assms(2) by (simp add: in_suspended_def updated_tenant_def toTenantDto_def)
qed

lemma tenant_of_suspended: "in_suspended t d \<Longrightarrow> us_tenant u = Some t \<Longrightarrow> map_option tn_suspended (tenant_of u d) = Some True"
  by (auto simp: in_suspended_def find_tenant_def tenant_of_def)

lemma client_in_suspended: "in_suspended t d \<Longrightarrow> ac_tenant c = t \<Longrightarrow> client_suspended c d"
  by (auto simp: in_suspended_def find_tenant_def client_suspended_def)

text \<open>The check that login, the second factor and refresh make before they issue anything.\<close>

lemma checkActive_Inr: "checkActive u x w = (Inr r, w') \<longleftrightarrow> w' = w \<and> us_status u = UActive \<and> map_option tn_suspended x \<noteq> Some True"
  by (auto simp: checkActive_def)

definition may_enter :: "user \<Rightarrow> idb \<Rightarrow> bool" where
  "may_enter u d \<longleftrightarrow> us_status u = UActive \<and> map_option tn_suspended (tenant_of u d) \<noteq> Some True"

lemma login_Inr:
  assumes "login a email password w = (Inr r, w')"
  shows "\<exists>u \<in> set (accounts email (iw_db w)). password_fits a password u \<and> lockedFor u (iw_now w) = 0 \<and> may_enter u (iw_db w)"
proof -
  let ?us = "filter (\<lambda>u. lockedFor u (iw_now w) = 0) (accounts email (iw_db w))"
  show ?thesis
  proof (cases "find (password_fits a password) ?us")
    case None
    then have "refuse (accounts email (iw_db w)) (iw_now w) w = (Inr r, w')" using assms by (simp add: login_def)
    then show ?thesis by (auto simp: refuse_def bindM_Inr split: option.splits)
  next
    case (Some u)
    then have "may_enter u (iw_db w)" using assms by (auto simp: login_def bindM_Inr checkActive_Inr may_enter_def)
    then show ?thesis using find_Some_set[OF Some] by auto
  qed
qed

lemma verifyMfa_Inr:
  assumes "verifyMfa a mfaToken c w = (Inr r, w')"
  shows "\<exists>u sub w0. mfaSubject a mfaToken w = (Inr sub, w0) \<and> find_user sub (iw_db w0) = Some u \<and> may_enter u (iw_db w0)"
proof (cases "mfaSubject a mfaToken w")
  case (Pair x w0)
  then obtain sub where m: "mfaSubject a mfaToken w = (Inr sub, w0)"
    using assms by (cases x) (simp_all add: verifyMfa_def)
  have b: "bindM (mfaSubject a mfaToken) f w = f sub w0" for f :: "string \<Rightarrow> token_pair iact" using m by simp
  obtain u where u: "find_user sub (iw_db w0) = Some u"
    using assms by (cases "find_user sub (iw_db w0)") (simp_all add: verifyMfa_def b)
  have "may_enter u (iw_db w0)"
  proof (rule ccontr)
    assume "\<not> may_enter u (iw_db w0)"
    then have "\<exists>e. checkActive u (tenant_of u (iw_db w0)) w0 = (Inl e, w0)" by (auto simp: checkActive_def may_enter_def)
    then show False using assms
      by (auto simp: verifyMfa_def b u split: option.splits if_splits)
  qed
  then show ?thesis using m u by blast
qed

lemma mfaSubject_world: "snd (mfaSubject a mfaToken w) = w"
  by (auto simp: mfaSubject_def verifySigned_def bindM_def mapErrM_def split: option.split json.split)

lemma refresh_Inr:
  assumes "refresh a token w = (Inr r, w')"
  shows "\<exists>row u. find_token (cr_sha (ax_crypto a) token) (iw_db w) = Some row \<and> find_user (rf_user row) (iw_db w) = Some u \<and> may_enter u (iw_db w)"
  using assms
  by (auto simp: refresh_def rotate_def bindM_Inr checkActive_Inr may_enter_def findUserOrThrow_Inr find_user_def tenant_of_def split: option.splits if_splits)

text \<open>C32. Suspending a tenant stops the issue of tokens to it: after the suspension has answered, no login, no
  second factor and no refresh answers for a user of that tenant, and no client of it gets a token.\<close>

theorem suspended_tenants_get_no_tokens:
  assumes "updateTenant i input w = (Inr dto, w1)" and "tu_suspended input = Some True" and "t = lower i"
  shows "(login a email password w1 = (Inr r, w2) \<longrightarrow> (\<exists>u \<in> set (accounts email (iw_db w1)). password_fits a password u \<and> us_tenant u \<noteq> Some t)) \<and>
    (verifyMfa a mfaToken c w1 = (Inr tp, w3) \<longrightarrow> (\<exists>sub u. fst (mfaSubject a mfaToken w1) = Inr sub \<and> find_user sub (iw_db w1) = Some u \<and> us_tenant u \<noteq> Some t)) \<and>
    (refresh a token w1 = (Inr tp, w4) \<longrightarrow> (\<exists>row u. find_token (cr_sha (ax_crypto a) token) (iw_db w1) = Some row \<and>
       find_user (rf_user row) (iw_db w1) = Some u \<and> us_tenant u \<noteq> Some t)) \<and>
    (clientToken o' cid secret scope \<lparr>ow_world = w1, ow_failures = fs\<rparr> = (Inr tk, w5) \<longrightarrow>
       (\<exists>row. find_client cid (iw_db w1) = Some row \<and> ac_tenant row \<noteq> t))"
proof (intro conjI impI)
  have s: "in_suspended t (iw_db w1)" using updateTenant_suspends[OF assms(1,2)] assms(3) by simp
  then have enter: "may_enter u (iw_db w1) \<Longrightarrow> us_tenant u \<noteq> Some t" for u
    using tenant_of_suspended by (auto simp: may_enter_def)
  show "\<exists>u \<in> set (accounts email (iw_db w1)). password_fits a password u \<and> us_tenant u \<noteq> Some t" if "login a email password w1 = (Inr r, w2)"
    using login_Inr[OF that] enter by blast
  show "\<exists>sub u. fst (mfaSubject a mfaToken w1) = Inr sub \<and> find_user sub (iw_db w1) = Some u \<and> us_tenant u \<noteq> Some t"
    if v: "verifyMfa a mfaToken c w1 = (Inr tp, w3)"
  proof -
    from verifyMfa_Inr[OF v] obtain u sub w0 where m: "mfaSubject a mfaToken w1 = (Inr sub, w0)" "find_user sub (iw_db w0) = Some u" "may_enter u (iw_db w0)" by blast
    moreover have "w0 = w1" using mfaSubject_world[of a mfaToken w1] m(1) by simp
    ultimately show ?thesis using enter by auto
  qed
  show "\<exists>row u. find_token (cr_sha (ax_crypto a) token) (iw_db w1) = Some row \<and> find_user (rf_user row) (iw_db w1) = Some u \<and> us_tenant u \<noteq> Some t"
    if "refresh a token w1 = (Inr tp, w4)"
    using refresh_Inr[OF that] enter by blast
  show "\<exists>row. find_client cid (iw_db w1) = Some row \<and> ac_tenant row \<noteq> t"
    if k: "clientToken o' cid secret scope \<lparr>ow_world = w1, ow_failures = fs\<rparr> = (Inr tk, w5)"
  proof -
    from clientToken_Inr[OF k] obtain row where row: "find_client cid (iw_db w1) = Some row" "\<not> client_suspended row (iw_db w1)" by auto
    then show ?thesis using client_in_suspended[OF s] by blast
  qed
qed

section \<open>A suspension\<close>

lemma suspended_tenants_get_no_tokens_witness:
  "\<exists>dto w1. updateTenant demo_tenant_id \<lparr>tu_name = None, tu_timezone = None, tu_locale = None, tu_limits = None, tu_suspended = Some True\<rparr>
       (ow_world demo_oworld) = (Inr dto, w1) \<and>
     (\<forall>r w2. login (demo_signing JNull) ''a@x.org'' ''secret'' w1 \<noteq> (Inr r, w2)) \<and>
     (\<forall>tk w5. clientToken (demo_oauth JNull) ''oec'' ''secret'' None \<lparr>ow_world = w1, ow_failures = []\<rparr> \<noteq> (Inr tk, w5))"
proof -
  let ?input = "\<lparr>tu_name = None, tu_timezone = None, tu_locale = None, tu_limits = None, tu_suspended = Some True\<rparr>"
  have u: "is_uuid demo_tenant_id" "lower demo_tenant_id = demo_tenant_id" by code_simp+
  have "\<exists>dto w1. updateTenant demo_tenant_id ?input (ow_world demo_oworld) = (Inr dto, w1) \<and> id_users (iw_db w1) = [demo_user CHR ''a'', demo_user CHR ''b''] \<and>
      map ac_tenant (id_clients (iw_db w1)) = [demo_tenant_id]"
    by (simp add: updateTenant_def tenantOrThrow_def u find_tenant_def demo_oworld_def demo_iworld_def demo_idb_def demo_client_def updated_tenant_def bindM_def)
  then obtain dto w1 where up: "updateTenant demo_tenant_id ?input (ow_world demo_oworld) = (Inr dto, w1)"
      and d: "id_users (iw_db w1) = [demo_user CHR ''a'', demo_user CHR ''b'']" "map ac_tenant (id_clients (iw_db w1)) = [demo_tenant_id]" by (elim exE conjE)
  have susp: "tu_suspended ?input = Some True" by simp
  note no = suspended_tenants_get_no_tokens[OF up susp refl, unfolded u(2)]
  have users: "us_tenant u = Some demo_tenant_id" if "u \<in> set (accounts email (iw_db w1))" for u email
  proof -
    have "u \<in> set (id_users (iw_db w1))" using that by (simp add: accounts_def)
    then show ?thesis unfolding d(1) by (auto simp: demo_user_def)
  qed
  have clients: "ac_tenant c = demo_tenant_id" if "find_client i (iw_db w1) = Some c" for i c
    using find_Some_set[OF that[unfolded find_client_def]] d by (cases "id_clients (iw_db w1)") auto
  have "login (demo_signing JNull) ''a@x.org'' ''secret'' w1 \<noteq> (Inr r, w2)" for r w2
    using no users by blast
  moreover have "clientToken (demo_oauth JNull) ''oec'' ''secret'' None \<lparr>ow_world = w1, ow_failures = []\<rparr> \<noteq> (Inr tk, w5)" for tk w5
    using no clients by blast
  ultimately show ?thesis using up by blast
qed

end
