(* ===== verification/Json_Text.thy ===== *)
theory Json_Text
  imports Cursor_Codec
begin

text \<open>
  \<open>JSON.parse\<close>: the reader of a JSON text, with fuel for its nesting. Every recursive call comes
  after at least one character, so the length of the text is fuel enough. An object's later
  member replaces an earlier one of the same name.
\<close>

definition number_char :: "char \<Rightarrow> bool" where
  "number_char c \<longleftrightarrow> digit_char c \<or> c = CHR ''-'' \<or> c = CHR ''+'' \<or> c = CHR ''.'' \<or> c = CHR ''e'' \<or> c = CHR ''E''"

text \<open>\<open>-?(0|[1-9]\d*)(\.\d+)?([eE][+-]?\d+)?\<close>\<close>

definition json_exponent :: "string \<Rightarrow> bool" where
  "json_exponent s \<longleftrightarrow> (case s of [] \<Rightarrow> True
     | c # r \<Rightarrow> (c = CHR ''e'' \<or> c = CHR ''E'') \<and> is_digits (snd (split_sign r)))"

definition json_fraction :: "string \<Rightarrow> bool" where
  "json_fraction s \<longleftrightarrow> (case s of [] \<Rightarrow> True
     | c # r \<Rightarrow> if c = CHR ''.'' then takeWhile digit_char r \<noteq> [] \<and> json_exponent (dropWhile digit_char r) else json_exponent s)"

definition is_json_number :: "string \<Rightarrow> bool" where
  "is_json_number s = (let u = (case s of c # r \<Rightarrow> if c = CHR ''-'' then r else s | [] \<Rightarrow> []); i = takeWhile digit_char u in
     i \<noteq> [] \<and> (hd i = CHR ''0'' \<longrightarrow> length i = 1) \<and> json_fraction (dropWhile digit_char u))"

definition read_word :: "string \<Rightarrow> (json \<times> string) option" where
  "read_word s = (if starts_with s ''true'' then Some (JBool True, drop 4 s) else if starts_with s ''false'' then Some (JBool False, drop 5 s)
     else if starts_with s ''null'' then Some (JNull, drop 4 s)
     else let n = takeWhile number_char s in
       if is_json_number n then map_option (\<lambda>v. (JNum v, dropWhile number_char s)) (dec_literal n) else None)"

fun read_value :: "nat \<Rightarrow> string \<Rightarrow> (json \<times> string) option"
  and read_members :: "nat \<Rightarrow> (string \<times> json) list \<Rightarrow> string \<Rightarrow> (json \<times> string) option"
  and read_items :: "nat \<Rightarrow> json list \<Rightarrow> string \<Rightarrow> (json \<times> string) option" where
  "read_value 0 s = None"
| "read_value (Suc n) s = (case dropWhile json_ws s of [] \<Rightarrow> None
     | c # r \<Rightarrow>
        if code c = 34 then map_option (\<lambda>(w, t). (JStr w, t)) (read_string r)
        else if code c = 123 then (case dropWhile json_ws r of [] \<Rightarrow> None
            | d # t \<Rightarrow> if code d = 125 then Some (JObj [], t) else read_members n [] (d # t))
        else if code c = 91 then (case dropWhile json_ws r of [] \<Rightarrow> None
            | d # t \<Rightarrow> if code d = 93 then Some (JArr [], t) else read_items n [] (d # t))
        else read_word (c # r))"
| "read_members 0 kvs s = None"
| "read_members (Suc n) kvs s = (case dropWhile json_ws s of [] \<Rightarrow> None
     | c # r \<Rightarrow> if code c \<noteq> 34 then None else (case read_string r of None \<Rightarrow> None
        | Some (k, r1) \<Rightarrow> (case dropWhile json_ws r1 of [] \<Rightarrow> None
            | d # r2 \<Rightarrow> if code d \<noteq> 58 then None else (case read_value n r2 of None \<Rightarrow> None
                | Some (v, r3) \<Rightarrow> (case dropWhile json_ws r3 of [] \<Rightarrow> None
                    | e # r4 \<Rightarrow> if code e = 125 then Some (JObj (alist_put k v kvs), r4)
                        else if code e = 44 then read_members n (alist_put k v kvs) r4 else None)))))"
| "read_items 0 vs s = None"
| "read_items (Suc n) vs s = (case read_value n s of None \<Rightarrow> None
     | Some (v, r) \<Rightarrow> (case dropWhile json_ws r of [] \<Rightarrow> None
         | e # t \<Rightarrow> if code e = 93 then Some (JArr (vs @ [v]), t) else if code e = 44 then read_items n (vs @ [v]) t else None))"

definition parse_json :: "string \<Rightarrow> json option" where
  "parse_json s = (case read_value (Suc (length s)) s of Some (v, r) \<Rightarrow> if list_all json_ws r then Some v else None | None \<Rightarrow> None)"

text \<open>\<open>JSON.stringify\<close> of an object whose members are strings, and its reading.\<close>

fun member_texts :: "(string \<times> string) list \<Rightarrow> string" where
  "member_texts [] = []"
| "member_texts [(k, v)] = json_quote k @ '':'' @ json_quote v"
| "member_texts ((k, v) # m # ms) = json_quote k @ '':'' @ json_quote v @ '','' @ member_texts (m # ms)"

definition object_text :: "(string \<times> string) list \<Rightarrow> string" where
  "object_text ms = chr 123 # member_texts ms @ [chr 125]"

lemma code_json [simp]: "code (CHR '':'') = 58" "code (CHR '','') = 44"
  by (simp_all add: code_def)

lemma ws_json [simp]: "\<not> json_ws (CHR '':'')" "\<not> json_ws (CHR '','')" "\<not> json_ws (chr 34)" "\<not> json_ws (chr 123)" "\<not> json_ws (chr 125)"
  by (simp_all add: json_ws_def code_chr)

lemma read_quoted_value: "read_value (Suc n) (json_quote v @ r) = Some (JStr v, r)"
  by (subst read_value.simps) (simp add: json_quote_def code_chr read_quoted)

declare read_value.simps [simp del] read_members.simps [simp del] read_items.simps [simp del]

lemma read_member_step: "\<not> json_ws c \<Longrightarrow> read_members (Suc (Suc n)) kvs (json_quote k @ CHR '':'' # json_quote v @ c # r) =
    (if code c = 125 then Some (JObj (alist_put k (JStr v) kvs), r)
     else if code c = 44 then read_members (Suc n) (alist_put k (JStr v) kvs) r else None)"
  by (subst read_members.simps) (simp add: json_quote_def[of k] code_chr read_quoted read_quoted_value)

lemma read_member_texts:
  assumes "ms \<noteq> []"
  shows "Suc (length ms) \<le> n \<Longrightarrow> read_members n kvs (member_texts ms @ chr 125 # r) = Some (JObj (fold (\<lambda>(k, v). alist_put k (JStr v)) ms kvs), r)"
  using assms
proof (induction ms arbitrary: n kvs rule: member_texts.induct)
  case 1
  then show ?case by simp
next
  case (2 k v)
  then obtain m where n: "n = Suc (Suc m)" by (metis Suc_le_D Suc_le_mono length_Cons)
  show ?case unfolding n using read_member_step[of "chr 125" m kvs k v r] by (simp add: code_chr)
next
  case (3 k v m ms)
  then obtain j where n: "n = Suc (Suc j)" by (metis Suc_le_D Suc_le_mono length_Cons)
  have "read_members (Suc j) (alist_put k (JStr v) kvs) (member_texts (m # ms) @ chr 125 # r) =
      Some (JObj (fold (\<lambda>(k, v). alist_put k (JStr v)) (m # ms) (alist_put k (JStr v) kvs)), r)"
    using "3.prems" n by (intro "3.IH") simp_all
  then show ?case unfolding n using read_member_step[of "CHR '',''" j kvs k v "member_texts (m # ms) @ chr 125 # r"] by simp
qed

lemma length_member_texts: "length ms \<le> length (member_texts ms)"
  by (induction ms rule: member_texts.induct) (simp_all add: json_quote_def)

lemma parse_object_text:
  assumes "ms \<noteq> []"
  shows "parse_json (object_text ms) = Some (JObj (fold (\<lambda>(k, v). alist_put k (JStr v)) ms []))"
proof -
  obtain s where s: "member_texts ms = chr 34 # s"
    using assms by (cases ms rule: member_texts.cases) (auto simp: json_quote_def)
  have "read_members (length (object_text ms)) [] (member_texts ms @ chr 125 # []) = Some (JObj (fold (\<lambda>(k, v). alist_put k (JStr v)) ms []), [])"
    using length_member_texts[of ms] by (intro read_member_texts[OF assms]) (simp add: object_text_def)
  then have "read_members (length (object_text ms)) [] (chr 34 # s @ [chr 125]) = Some (JObj (fold (\<lambda>(k, v). alist_put k (JStr v)) ms []), [])"
    by (simp add: s)
  then have "read_value (Suc (length (object_text ms))) (object_text ms) = Some (JObj (fold (\<lambda>(k, v). alist_put k (JStr v)) ms []), [])"
    by (subst read_value.simps) (simp add: object_text_def s code_chr)
  then show ?thesis by (simp add: parse_json_def)
qed

end
