(* ===== verification/Audit_Trail.thy ===== *)
theory Audit_Trail
  imports Users Json_Text
begin

text \<open>
  The audit trail: the interceptor and the sinks of \<open>packages/ts-common/src/audit\<close>, and of
  \<open>services/core/src/modules/audit\<close> the redaction, the write, the consumer of audit events and
  the log's controller. \<open>new Date(text)\<close> accepts more forms than ISO 8601, so the reading of dates
  is the parameter \<open>date\<close>.
\<close>

section \<open>Entries (\<open>types.ts\<close>)\<close>

record audit_entry =
  ae_id :: "string option"
  ae_tenant :: "string option"
  ae_actor_type :: string
  ae_actor_id :: string
  ae_action :: string
  ae_resource_type :: string
  ae_resource_id :: "string option"
  ae_diff :: "json option"
  ae_at :: string

section \<open>The interceptor\<close>

definition WRITE_METHODS :: "string list" where
  "WRITE_METHODS = [''POST'', ''PUT'', ''PATCH'', ''DELETE'']"

definition AUDITED_PREFIXES :: "string list" where
  "AUDITED_PREFIXES = [''/admin/v1'', ''/api/v3'']"

record audit_request =
  aq_method :: string
  aq_url :: "string option"
  aq_originalUrl :: "string option"
  aq_param_id :: "string option"
  aq_body :: "json option"
  aq_principal :: "principal option"

definition actionOf :: "string \<Rightarrow> string" where
  "actionOf m = (if m = ''POST'' then ''create'' else if m = ''DELETE'' then ''delete'' else ''update'')"

definition resourceTypeOf :: "string \<Rightarrow> string option" where
  "resourceTypeOf path = (case find (starts_with path) AUDITED_PREFIXES of
      None \<Rightarrow> None
    | Some p \<Rightarrow> (case filter (\<lambda>s. s \<noteq> []) (split_on CHR ''/'' (hd (split_on CHR ''?'' (drop (length p) path)))) of
        [] \<Rightarrow> None | s # _ \<Rightarrow> Some s))"

definition unwrap :: "json \<Rightarrow> json" where
  "unwrap v = (case (obj_get v ''replyCode'', obj_get v ''data'') of (Some _, Some d) \<Rightarrow> d | _ \<Rightarrow> v)"

definition idOf :: "json \<Rightarrow> string option" where
  "idOf v = (case obj_get v ''id'' of Some (JStr s) \<Rightarrow> Some s | Some (JNum n) \<Rightarrow> Some (num_string n) | _ \<Rightarrow> None)"

definition typ_name :: "principal_typ \<Rightarrow> string" where
  "typ_name t = (case t of TUser \<Rightarrow> ''user'' | TClient \<Rightarrow> ''client'' | TService \<Rightarrow> ''service'')"

definition entry_of :: "audit_request \<Rightarrow> string \<Rightarrow> json \<Rightarrow> principal \<Rightarrow> int \<Rightarrow> audit_entry" where
  "entry_of q rtype response p now = \<lparr>ae_id = None, ae_tenant = pr_tenant p, ae_actor_type = typ_name (pr_typ p), ae_actor_id = pr_sub p,
     ae_action = rtype @ ''.'' @ actionOf (aq_method q), ae_resource_type = rtype,
     ae_resource_id = (case aq_param_id q of Some i \<Rightarrow> Some i | None \<Rightarrow> idOf (unwrap response)),
     ae_diff = (if aq_method q = ''DELETE'' then Some JNull else Some (case aq_body q of Some b \<Rightarrow> b | None \<Rightarrow> JNull)),
     ae_at = iso_string now\<rparr>"

text \<open>What \<open>intercept\<close> will record, if anything: the \<open>tap\<close> runs on a response only.\<close>

definition audited :: "audit_request \<Rightarrow> (string \<times> principal) option" where
  "audited q = (if \<not> List.member WRITE_METHODS (aq_method q) then None
     else (case (resourceTypeOf (case aq_originalUrl q of Some u \<Rightarrow> u | None \<Rightarrow> (case aq_url q of Some u \<Rightarrow> u | None \<Rightarrow> [])), aq_principal q) of
         (Some r, Some p) \<Rightarrow> Some (r, p)
       | _ \<Rightarrow> None))"

text \<open>\<open>sink\<close> is started and not awaited: its outcome does not reach the response.\<close>

definition intercept :: "(audit_entry \<Rightarrow> unit iact) \<Rightarrow> audit_request \<Rightarrow> json iact \<Rightarrow> json iact" where
  "intercept sink q handler w = (case handler w of
      (Inl e, w') \<Rightarrow> (Inl e, w')
    | (Inr response, w') \<Rightarrow> (case audited q of
        None \<Rightarrow> (Inr response, w')
      | Some (r, p) \<Rightarrow> (Inr response, snd (sink (entry_of q r response p (iw_now w')) w'))))"

section \<open>Redaction (\<open>redact.ts\<close>)\<close>

definition is_secret_word :: "string \<Rightarrow> bool" where
  "is_secret_word s \<longleftrightarrow> s = ''password'' \<or> s = ''secret'' \<or> s = ''token''"

definition isSensitiveKey :: "string \<Rightarrow> bool" where
  "isSensitiveKey key = (let k = lower key in
     is_secret_word k \<or> list_ex (\<lambda>w. starts_with k (w @ ''_'') \<or> ends_with k (''_'' @ w)) [''password'', ''secret'', ''token'']
     \<or> starts_with k ''mfa_'')"

fun redactDiff :: "json \<Rightarrow> json" where
  "redactDiff (JArr vs) = JArr (map redactDiff vs)"
| "redactDiff (JObj kvs) = JObj (map (\<lambda>(k, v). (k, if isSensitiveKey k then JStr ''[REDACTED]'' else redactDiff v)) kvs)"
| "redactDiff v = v"

section \<open>Writing (\<open>write-audit-entry.ts\<close>)\<close>

definition actor_types :: "string list" where
  "actor_types = [''user'', ''client'', ''service'']"

definition insertAudit :: "audit_row \<Rightarrow> unit iact" where
  "insertAudit r = bindM (readI (\<lambda>d. list_ex (\<lambda>x. au_id x = au_id r) (id_audit d))) (\<lambda>bad.
     if bad then throwM UniqueViolation else onI (\<lambda>d. d\<lparr>id_audit := id_audit d @ [r]\<rparr>))"

definition stored_diff :: "json option \<Rightarrow> json option" where
  "stored_diff v = (case v of None \<Rightarrow> None | Some JNull \<Rightarrow> None | Some x \<Rightarrow> Some (redactDiff x))"

definition uuidOrNull :: "string option \<Rightarrow> string option iact" where
  "uuidOrNull v = (case v of None \<Rightarrow> retM None | Some s \<Rightarrow> bindM (castI s) (\<lambda>u. retM (Some u)))"

definition createAudit :: "(string \<Rightarrow> int option) \<Rightarrow> audit_entry \<Rightarrow> unit iact" where
  "createAudit date e =
    (if \<not> List.member actor_types (ae_actor_type e) then throwM (PlainError ''PrismaClientValidationError'')
     else case date (ae_at e) of
       None \<Rightarrow> throwM (PlainError ''PrismaClientValidationError'')
     | Some at \<Rightarrow> bindM (case ae_id e of None \<Rightarrow> draw | Some i \<Rightarrow> castI i) (\<lambda>i.
         bindM (uuidOrNull (case ae_tenant e of Some [] \<Rightarrow> None | t \<Rightarrow> t)) (\<lambda>t.
           insertAudit \<lparr>au_id = i, au_tenant = t, au_actorType = ae_actor_type e, au_actorId = ae_actor_id e, au_action = ae_action e,
             au_resourceType = ae_resource_type e, au_resourceId = ae_resource_id e, au_diff = stored_diff (ae_diff e), au_ip = None, au_at = at\<rparr>)))"

definition writeAuditEntry :: "(string \<Rightarrow> int option) \<Rightarrow> audit_entry \<Rightarrow> bool iact" where
  "writeAuditEntry date e w = (case createAudit date e w of
      (Inr _, w') \<Rightarrow> (Inr True, w')
    | (Inl err, w') \<Rightarrow> if err = UniqueViolation then (Inr False, w') else (Inl err, w'))"

section \<open>Sinks and the consumer\<close>

text \<open>\<open>PostgresAuditSink\<close>, and core's subclass of it, which logs a failure.\<close>

definition postgresRecord :: "(string \<Rightarrow> int option) \<Rightarrow> audit_entry \<Rightarrow> unit iact" where
  "postgresRecord date e = bindM (writeAuditEntry date e) (\<lambda>_. retM ())"

definition coreRecord :: "(string \<Rightarrow> int option) \<Rightarrow> audit_entry \<Rightarrow> unit iact" where
  "coreRecord date e w = (Inr (), snd (postgresRecord date e w))"

definition optional_json :: "string option \<Rightarrow> json" where
  "optional_json v = (case v of None \<Rightarrow> JNull | Some s \<Rightarrow> JStr s)"

text \<open>\<open>NatsAuditSink\<close>, of the services that have no audit table; \<open>nats\<close> says whether the broker
  takes the event.\<close>

definition natsRecord :: "bool \<Rightarrow> audit_entry \<Rightarrow> unit iact" where
  "natsRecord nats e = (case ae_tenant e of
      None \<Rightarrow> throwM (PlainError ''NatsAuditSink: platform-operator audit entries (tenant_id null) need a direct AuditSink'')
    | Some [] \<Rightarrow> throwM (PlainError ''NatsAuditSink: platform-operator audit entries (tenant_id null) need a direct AuditSink'')
    | Some t \<Rightarrow> if nats then modifyM (\<lambda>w. w\<lparr>iw_events := iw_events w @ [(''system.audit.recorded'', t,
          JObj ([(''actor_type'', JStr (ae_actor_type e)), (''actor_id'', JStr (ae_actor_id e)), (''action'', JStr (ae_action e)),
            (''resource_type'', JStr (ae_resource_type e)), (''resource_id'', optional_json (ae_resource_id e))]
            @ (case ae_diff e of None \<Rightarrow> [] | Some v \<Rightarrow> [(''diff'', v)])))]\<rparr>)
        else throwM (PlainError ''publish failed''))"

text \<open>An audit event as the consumer gets it: the envelope's id, tenant and time, and its data.\<close>

record audit_event =
  ax_id :: string
  ax_tenant_id :: string
  ax_occurred_at :: string
  ax_actor_type :: string
  ax_actor_id :: string
  ax_action :: string
  ax_resource_type :: string
  ax_resource_id :: "string option"
  ax_diff :: "json option"

definition onAuditRecorded :: "(string \<Rightarrow> int option) \<Rightarrow> audit_event \<Rightarrow> unit iact" where
  "onAuditRecorded date ev = bindM (writeAuditEntry date \<lparr>ae_id = Some (ax_id ev), ae_tenant = Some (ax_tenant_id ev),
     ae_actor_type = ax_actor_type ev, ae_actor_id = ax_actor_id ev, ae_action = ax_action ev, ae_resource_type = ax_resource_type ev,
     ae_resource_id = ax_resource_id ev, ae_diff = ax_diff ev, ae_at = ax_occurred_at ev\<rparr>) (\<lambda>_. retM ())"

section \<open>The log (\<open>audit-log.controller.ts\<close>)\<close>

record audit_dto =
  da_id :: string
  da_occurred_at :: string
  da_tenant_id :: "string option"
  da_actor_type :: string
  da_actor_id :: string
  da_action :: string
  da_resource_type :: string
  da_resource_id :: "string option"
  da_ip :: "string option"
  da_changes :: "json option"

definition toAuditDto :: "audit_row \<Rightarrow> audit_dto" where
  "toAuditDto r = \<lparr>da_id = au_id r, da_occurred_at = iso_string (au_at r), da_tenant_id = au_tenant r, da_actor_type = au_actorType r,
     da_actor_id = au_actorId r, da_action = au_action r, da_resource_type = au_resourceType r, da_resource_id = au_resourceId r,
     da_ip = au_ip r, da_changes = au_diff r\<rparr>"

definition encodeRowCursor :: "string \<times> string \<Rightarrow> string" where
  "encodeRowCursor c = b64_encode (utf8_bytes (object_text [(''at'', fst c), (''id'', snd c)]))"

definition invalidCursor :: exn where
  "invalidCursor = HttpExc 400 ''invalid cursor''"

definition decodeRowCursor :: "string \<Rightarrow> exn + string \<times> string" where
  "decodeRowCursor raw = (case Option.bind (utf8_text (b64_decode raw)) parse_json of
      None \<Rightarrow> Inl invalidCursor
    | Some v \<Rightarrow> (case (obj_get v ''at'', obj_get v ''id'') of
        (Some (JStr at), Some (JStr i)) \<Rightarrow> Inr (at, i)
      | _ \<Rightarrow> Inl invalidCursor))"

definition parseDate :: "(string \<Rightarrow> int option) \<Rightarrow> json option \<Rightarrow> string \<Rightarrow> exn + int option" where
  "parseDate date raw field = (case raw of
      None \<Rightarrow> Inr None
    | Some (JStr s) \<Rightarrow> (case date s of None \<Rightarrow> Inl (HttpExc 400 (field @ '' must be a valid date-time'')) | Some d \<Rightarrow> Inr (Some d))
    | Some _ \<Rightarrow> Inl (HttpExc 400 (field @ '' must be a date-time string'')))"

definition string_param :: "query \<Rightarrow> string \<Rightarrow> string option" where
  "string_param q k = (case map_of q k of Some (JStr s) \<Rightarrow> if s = [] then None else Some s | _ \<Rightarrow> None)"

text \<open>Newest first; rows of one time by descending id.\<close>

definition audit_after :: "int \<times> string \<Rightarrow> int \<times> string \<Rightarrow> bool" where
  "audit_after a b \<longleftrightarrow> fst b < fst a \<or> (fst b = fst a \<and> snd b < snd a)"

definition audit_key :: "audit_row \<Rightarrow> int \<times> string" where
  "audit_key r = (au_at r, au_id r)"

definition newest_first :: "audit_row list \<Rightarrow> audit_row list" where
  "newest_first rs = rev (sort_key au_at (sort_key au_id rs))"

definition castRowCursor :: "(string \<Rightarrow> int option) \<Rightarrow> (string \<times> string) option \<Rightarrow> exn + (int \<times> string) option" where
  "castRowCursor date c = (case c of
      None \<Rightarrow> Inr None
    | Some (at, i) \<Rightarrow> (case date at of
        None \<Rightarrow> Inl (PlainError ''PrismaClientValidationError'')
      | Some ms \<Rightarrow> map_sum id (\<lambda>u. Some (ms, u)) (as_uuid i)))"

definition audit_matches :: "string \<Rightarrow> string option \<Rightarrow> string option \<Rightarrow> int option \<Rightarrow> int option \<Rightarrow> audit_row \<Rightarrow> bool" where
  "audit_matches t actor rtype from until r \<longleftrightarrow> au_tenant r = Some t \<and>
     (case actor of None \<Rightarrow> True | Some a \<Rightarrow> au_actorId r = a) \<and> (case rtype of None \<Rightarrow> True | Some x \<Rightarrow> au_resourceType r = x) \<and>
     (case from of None \<Rightarrow> True | Some f \<Rightarrow> f \<le> au_at r) \<and> (case until of None \<Rightarrow> True | Some u \<Rightarrow> au_at r < u)"

definition listAudit :: "(string \<Rightarrow> int option) \<Rightarrow> query \<Rightarrow> principal \<Rightarrow> audit_dto cursor_page iact" where
  "listAudit date q p =
    (case pr_tenant p of
       None \<Rightarrow> throwM (HttpExc 403 ''audit log requires a tenant-scoped admin'')
     | Some t \<Rightarrow>
         bindM (liftE (parseCursorQuery q 50 200)) (\<lambda>cq.
         bindM (liftE (parseDate date (map_of q ''from'') ''from'')) (\<lambda>from.
         bindM (liftE (parseDate date (map_of q ''to'') ''to'')) (\<lambda>until.
         bindM (liftE (case cq_cursor cq of None \<Rightarrow> Inr None | Some c \<Rightarrow> map_sum id Some (decodeRowCursor c))) (\<lambda>row.
         bindM (liftE (castRowCursor date row)) (\<lambda>after.
           readI (\<lambda>d. let limit = nat (cq_limit cq);
               rows = newest_first (filter (audit_matches t (string_param q ''actor_id'') (string_param q ''resource_type'') from until) (id_audit d));
               fetched = take (Suc limit) (case after of None \<Rightarrow> rows | Some c \<Rightarrow> filter (\<lambda>r. audit_after c (audit_key r)) rows)
             in buildCursorPage (map toAuditDto (page_rows limit fetched))
               (page_next limit (\<lambda>r. encodeRowCursor (iso_string (au_at r), au_id r)) fetched))))))))"

end
