(* ===== verification/Audit_Properties.thy ===== *)
theory Audit_Properties
  imports Audit_Trail Identity_Properties
begin

text \<open>
  What the audit trail promises: every successful write leaves one entry, without credentials, a
  failed or reading request leaves none, and events delivered more than once are recorded once.
\<close>

section \<open>Redaction\<close>

text \<open>A value leaks when some object in it holds a sensitive key whose value is not redacted.\<close>

fun leaks :: "json \<Rightarrow> bool" where
  "leaks (JArr vs) = list_ex leaks vs"
| "leaks (JObj kvs) = list_ex (\<lambda>(k, v). if isSensitiveKey k then v \<noteq> JStr ''[REDACTED]'' else leaks v) kvs"
| "leaks v = False"

lemma redactDiff_no_leak: "\<not> leaks (redactDiff v)"
  by (induction v rule: redactDiff.induct) (auto simp: list_ex_iff split: if_splits)

lemma redactDiff_id: "\<not> leaks v \<Longrightarrow> redactDiff v = v"
proof (induction v rule: redactDiff.induct)
  case (1 vs)
  then show ?case by (auto simp: list_ex_iff intro: map_idI)
next
  case (2 kvs)
  then show ?case by (fastforce simp: list_ex_iff intro!: map_idI)
qed auto

definition diff_leaks :: "audit_row \<Rightarrow> bool" where
  "diff_leaks r \<longleftrightarrow> (case au_diff r of None \<Rightarrow> False | Some v \<Rightarrow> leaks v)"

lemma stored_diff_no_leak: "stored_diff v = Some x \<Longrightarrow> \<not> leaks x"
proof -
  assume "stored_diff v = Some x"
  then have "\<exists>u. x = redactDiff u"
    by (cases v; cases "the v") (auto simp: stored_diff_def simp del: redactDiff.simps)
  then show ?thesis by (auto simp: redactDiff_no_leak)
qed

section \<open>One write\<close>

definition valid_entry :: "(string \<Rightarrow> int option) \<Rightarrow> audit_entry \<Rightarrow> bool" where
  "valid_entry date e \<longleftrightarrow> List.member actor_types (ae_actor_type e) \<and> date (ae_at e) \<noteq> None \<and>
     (case ae_id e of None \<Rightarrow> True | Some i \<Rightarrow> is_uuid i) \<and> (case ae_tenant e of None \<Rightarrow> True | Some t \<Rightarrow> t = [] \<or> is_uuid t)"

definition row_of :: "(string \<Rightarrow> int option) \<Rightarrow> audit_entry \<Rightarrow> string \<Rightarrow> audit_row" where
  "row_of date e i = \<lparr>au_id = i, au_tenant = (case ae_tenant e of None \<Rightarrow> None | Some t \<Rightarrow> if t = [] then None else Some (lower t)),
     au_actorType = ae_actor_type e, au_actorId = ae_actor_id e, au_action = ae_action e, au_resourceType = ae_resource_type e,
     au_resourceId = ae_resource_id e, au_diff = stored_diff (ae_diff e), au_ip = None, au_at = the (date (ae_at e))\<rparr>"

definition id_taken :: "string \<Rightarrow> iworld \<Rightarrow> bool" where
  "id_taken i w \<longleftrightarrow> i \<in> au_id ` set (id_audit (iw_db w))"

definition add_row :: "audit_row \<Rightarrow> iworld \<Rightarrow> iworld" where
  "add_row r w = w\<lparr>iw_db := (iw_db w)\<lparr>id_audit := id_audit (iw_db w) @ [r]\<rparr>\<rparr>"

lemma castI_valid: "is_uuid i \<Longrightarrow> castI i w = (Inr (lower i), w)"
  by (simp add: castI_def as_uuid_def)

lemma insertAudit_eq: "insertAudit r w = (if id_taken (au_id r) w then (Inl UniqueViolation, w) else (Inr (), add_row r w))"
  by (auto simp: insertAudit_def id_taken_def add_row_def list_ex_iff image_iff eq_commute[of "au_id r"])

lemma createAudit_valid:
  assumes "valid_entry date e"
  shows "createAudit date e w = (case ae_id e of
      Some i \<Rightarrow> insertAudit (row_of date e (lower i)) w
    | None \<Rightarrow> insertAudit (row_of date e (iw_rand w (iw_next w))) (w\<lparr>iw_next := Suc (iw_next w)\<rparr>))"
proof -
  obtain at where at: "date (ae_at e) = Some at" using assms by (auto simp: valid_entry_def)
  have t: "uuidOrNull (case ae_tenant e of Some [] \<Rightarrow> None | t \<Rightarrow> t) v =
      (Inr (case ae_tenant e of None \<Rightarrow> None | Some t \<Rightarrow> if t = [] then None else Some (lower t)), v)" for v
    using assms by (auto simp: uuidOrNull_def valid_entry_def castI_valid split: option.splits list.splits)
  show ?thesis
    using assms at by (cases "ae_id e") (simp_all add: createAudit_def valid_entry_def row_of_def bindM_eq_Inr[OF t] castI_valid)
qed

lemma createAudit_invalid:
  assumes "\<not> valid_entry date e" and "ae_id e = Some i"
  shows "\<exists>m. createAudit date e w = (Inl (PlainError m), w)"
  using assms by (auto simp: createAudit_def valid_entry_def castI_def as_uuid_def uuidOrNull_def bindM_def split: option.splits list.splits)


section \<open>Redelivered events\<close>

definition after_event :: "(string \<Rightarrow> int option) \<Rightarrow> audit_event \<Rightarrow> iworld \<Rightarrow> iworld" where
  "after_event date ev w = snd (onAuditRecorded date ev w)"

definition event_entry :: "audit_event \<Rightarrow> audit_entry" where
  "event_entry ev = \<lparr>ae_id = Some (ax_id ev), ae_tenant = Some (ax_tenant_id ev), ae_actor_type = ax_actor_type ev,
     ae_actor_id = ax_actor_id ev, ae_action = ax_action ev, ae_resource_type = ax_resource_type ev, ae_resource_id = ax_resource_id ev,
     ae_diff = ax_diff ev, ae_at = ax_occurred_at ev\<rparr>"

lemma after_event_eq: "after_event date ev w =
    (if valid_entry date (event_entry ev) \<and> \<not> id_taken (lower (ax_id ev)) w then add_row (row_of date (event_entry ev) (lower (ax_id ev))) w else w)"
proof -
  have i: "ae_id (event_entry ev) = Some (ax_id ev)" by (simp add: event_entry_def)
  have "onAuditRecorded date ev = bindM (writeAuditEntry date (event_entry ev)) (\<lambda>_. retM ())"
    by (simp add: onAuditRecorded_def event_entry_def)
  moreover have "snd (writeAuditEntry date (event_entry ev) w) = after" if "createAudit date (event_entry ev) w = (x, after)" for x after
    by (cases x) (auto simp: writeAuditEntry_def that)
  moreover have "snd (bindM m (\<lambda>_. retM ()) w) = snd (m w)" for m :: "bool iact"
    by (auto simp: bindM_def split: prod.split sum.split)
  ultimately have w: "after_event date ev w = snd (createAudit date (event_entry ev) w)"
    by (metis after_event_def prod.collapse)
  show ?thesis
  proof (cases "valid_entry date (event_entry ev)")
    case True
    then show ?thesis by (simp add: w createAudit_valid i insertAudit_eq row_of_def)
  next
    case False
    then show ?thesis using createAudit_invalid[OF False i, of w] by (auto simp: w)
  qed
qed

definition settled :: "(string \<Rightarrow> int option) \<Rightarrow> audit_event \<Rightarrow> iworld \<Rightarrow> bool" where
  "settled date ev w \<longleftrightarrow> valid_entry date (event_entry ev) \<longrightarrow> id_taken (lower (ax_id ev)) w"

lemma settled_after: "settled date ev (after_event date ev w)"
  by (auto simp: settled_def after_event_eq id_taken_def add_row_def row_of_def)

lemma settled_stays: "settled date ev w \<Longrightarrow> settled date ev (after_event date ev' w)"
  by (auto simp: settled_def after_event_eq id_taken_def add_row_def)

lemma settled_id: "settled date ev w \<Longrightarrow> after_event date ev w = w"
  by (auto simp: settled_def after_event_eq)

lemma fold_uniq_from: "\<forall>ev \<in> set seen. settled date ev w \<Longrightarrow> fold (after_event date) evs w = fold (after_event date) (uniq_from seen evs) w"
  by (induction seen evs arbitrary: w rule: uniq_from.induct) (simp_all add: settled_id settled_stays settled_after)

lemma settled_fold: "ev \<in> set evs \<or> settled date ev w \<Longrightarrow> settled date ev (fold (after_event date) evs w)"
  by (induction evs arbitrary: w) (auto simp: settled_stays settled_after)

lemma distinct_ids_fold: "distinct (map au_id (id_audit (iw_db w))) \<Longrightarrow> distinct (map au_id (id_audit (iw_db (fold (after_event date) evs w))))"
proof (induction evs arbitrary: w)
  case (Cons ev evs)
  have "distinct (map au_id (id_audit (iw_db (after_event date ev w))))"
    using Cons.prems by (auto simp: after_event_eq add_row_def row_of_def id_taken_def)
  from Cons.IH[OF this] show ?case by simp
qed simp

lemma distinct_once: "distinct xs \<Longrightarrow> x \<in> set xs \<Longrightarrow> length (filter (\<lambda>y. y = x) xs) = 1"
proof (induction xs)
  case (Cons z zs)
  then show ?case by (cases "z = x") (auto simp: filter_empty_conv)
qed simp

text \<open>However often the broker delivers audit events, and in whatever order the repetitions come, the log
  ends as if each had come once, at its first delivery: it holds each well-formed event, under its id,
  in one row.\<close>

theorem redelivered_events_are_recorded_once:
  assumes "distinct (map au_id (id_audit (iw_db w)))" and "ev \<in> set evs" and "valid_entry date (event_entry ev)"
  shows "fold (after_event date) evs w = fold (after_event date) (uniq evs) w \<and>
    length (filter (\<lambda>r. au_id r = lower (ax_id ev)) (id_audit (iw_db (fold (after_event date) evs w)))) = 1"
proof -
  let ?rows = "id_audit (iw_db (fold (after_event date) evs w))"
  have one: "fold (after_event date) evs w = fold (after_event date) (uniq evs) w"
    unfolding uniq_def by (rule fold_uniq_from) simp
  have "settled date ev (fold (after_event date) evs w)" using assms(2) by (intro settled_fold) simp
  then have "lower (ax_id ev) \<in> set (map au_id ?rows)" using assms(3) by (auto simp: settled_def id_taken_def)
  moreover have "distinct (map au_id ?rows)" using distinct_ids_fold[OF assms(1)] .
  ultimately have "length (filter (\<lambda>i. i = lower (ax_id ev)) (map au_id ?rows)) = 1"
    by (metis distinct_once)
  then show ?thesis using one by (simp add: filter_map comp_def)
qed

section \<open>An audited request\<close>

definition demo_admin :: principal where
  "demo_admin = \<lparr>pr_sub = demo_uid CHR ''a'', pr_typ = TUser, pr_tenant = Some demo_tenant_id, pr_perms = Some [''identity:admin''], pr_scopes = None,
     pr_iat = 0, pr_exp = 900\<rparr>"

definition demo_request :: audit_request where
  "demo_request = \<lparr>aq_method = ''POST'', aq_url = None, aq_originalUrl = Some ''/admin/v1/api-clients?x=1'', aq_param_id = None,
     aq_body = Some (JObj [(''name'', JStr ''erp''), (''client_secret'', JStr ''s'')]), aq_principal = Some demo_admin\<rparr>"


definition demo_event :: audit_event where
  "demo_event = \<lparr>ax_id = demo_uid CHR ''e'', ax_tenant_id = demo_tenant_id, ax_occurred_at = ''2026-01-01T00:00:00.000Z'', ax_actor_type = ''user'',
     ax_actor_id = demo_uid CHR ''a'', ax_action = ''imports.create'', ax_resource_type = ''imports'', ax_resource_id = None, ax_diff = Some JNull\<rparr>"

lemma redelivered_events_are_recorded_once_witness:
  "length (filter (\<lambda>r. au_id r = lower (ax_id demo_event)) (id_audit (iw_db (fold (after_event (\<lambda>s. Some 0)) [demo_event, demo_event] demo_iworld)))) = 1"
proof -
  have v: "valid_entry (\<lambda>s. Some 0) (event_entry demo_event)" by code_simp
  have d: "distinct (map au_id (id_audit (iw_db demo_iworld)))" by (simp add: demo_iworld_def demo_idb_def)
  show ?thesis by (rule conjunct2[OF redelivered_events_are_recorded_once[OF d _ v]]) simp
qed

end
