(* ===== verification/Contacts_Api.thy ===== *)
theory Contacts_Api
  imports Contacts_Write Contact_Lists_Api
begin

text \<open>
  The HTTP surface of the write engine and of the fields service:
  \<open>contacts-write/contacts-write.controller.ts\<close> and \<open>fields/fields.controller.ts\<close>. \<open>hooks\<close> and
  \<open>others\<close> are the engine's; \<open>ParseIntPipe\<close> of NestJS is the parameter \<open>intPipe\<close>. The issue
  texts of rejected bodies are not modelled. Ids and tenants of the path or body reach the database
  as UUIDs, hence their lower case here.
\<close>

section \<open>Bodies of contact writes\<close>

definition MAX_BATCH :: nat where
  "MAX_BATCH = 1000"

definition parseRecord :: "json \<Rightarrow> object option" where
  "parseRecord v = (case v of JObj kvs \<Rightarrow> Some kvs | _ \<Rightarrow> None)"

definition parseItems :: "json option \<Rightarrow> object list option" where
  "parseItems v = bounded MAX_BATCH (parseArray parseRecord v)"

definition fieldValues :: "json option \<Rightarrow> object option" where
  "fieldValues v = (case v of Some (JObj kvs) \<Rightarrow> if list_all (\<lambda>p. is_field_key (fst p)) kvs then Some kvs else None | _ \<Rightarrow> None)"

definition parseMode :: "json option \<Rightarrow> write_mode option" where
  "parseMode v = (case v of Some (JStr s) \<Rightarrow> map_of [(''create'', Create), (''update'', Update), (''upsert'', Upsert)] s | _ \<Rightarrow> None)"

definition parseSource :: "json option \<Rightarrow> string option" where
  "parseSource v = (case v of Some (JStr s) \<Rightarrow> if s \<noteq> [] then Some s else None | _ \<Rightarrow> None)"

record internal_batch =
  ib_tenant :: string
  ib_key_id :: string
  ib_mode :: write_mode
  ib_source :: string
  ib_contacts :: "object list"

record internal_fields =
  if_tenant :: string
  if_fields :: object
  if_source :: string

definition publicBatch :: "json \<Rightarrow> (string \<times> object list) option" where
  "publicBatch v = (case v of JObj kvs \<Rightarrow> (case (parseKeyId (map_of kvs ''key_id''), parseItems (map_of kvs ''contacts'')) of
      (Some k, Some cs) \<Rightarrow> Some (k, cs) | _ \<Rightarrow> None)
    | _ \<Rightarrow> None)"

definition internalBatch :: "json \<Rightarrow> internal_batch option" where
  "internalBatch v = (case v of JObj kvs \<Rightarrow> (case (Option.bind (map_of kvs ''tenant_id'') parseUuid, parseKeyId (map_of kvs ''key_id''),
        parseMode (map_of kvs ''mode''), defaulting ''import'' parseSource (map_of kvs ''source''), parseItems (map_of kvs ''contacts'')) of
      (Some t, Some k, Some m, Some s, Some cs) \<Rightarrow> Some \<lparr>ib_tenant = t, ib_key_id = k, ib_mode = m, ib_source = s, ib_contacts = cs\<rparr>
    | _ \<Rightarrow> None)
    | _ \<Rightarrow> None)"

definition internalFields :: "json \<Rightarrow> internal_fields option" where
  "internalFields v = (case v of JObj kvs \<Rightarrow> (case (Option.bind (map_of kvs ''tenant_id'') parseUuid, fieldValues (map_of kvs ''fields''),
        defaulting ''api'' parseSource (map_of kvs ''source'')) of
      (Some t, Some f, Some s) \<Rightarrow> Some \<lparr>if_tenant = t, if_fields = f, if_source = s\<rparr>
    | _ \<Rightarrow> None)
    | _ \<Rightarrow> None)"

definition contactWrite :: "json \<Rightarrow> object option" where
  "contactWrite v = (case v of JObj kvs \<Rightarrow> fieldValues (map_of kvs ''fields'') | _ \<Rightarrow> None)"

definition contactTenantOf :: "principal \<Rightarrow> exn + string" where
  "contactTenantOf = tenantOf ''operator principals cannot write tenant contacts''"

definition internalTenant :: "principal \<Rightarrow> string \<Rightarrow> exn + string" where
  "internalTenant p t = (if pr_tenant p \<noteq> None \<and> pr_tenant p \<noteq> Some [] \<and> pr_tenant p \<noteq> Some t
     then Inl (HttpExc 403 ''tenant_id does not match the service token'') else Inr t)"

definition itemHttpError :: "item_error \<Rightarrow> exn" where
  "itemHttpError e = (if ie_code e = 2008 then HttpExc 404 (ie_text e) else if ie_code e = 2012 then HttpExc 409 (ie_text e)
     else HttpProblems 400 [(case ie_field e of None \<Rightarrow> [] | Some f \<Rightarrow> if f = [] then [] else ''fields/'' @ f, ie_text e)])"

record contact_dto =
  dc_id :: string
  dc_fields :: object
  dc_version :: int
  dc_created_at :: string
  dc_updated_at :: string

definition toContactDto :: "contact \<Rightarrow> contact_dto" where
  "toContactDto c = \<lparr>dc_id = ct_id c, dc_fields = ct_data c, dc_version = ct_version c,
     dc_created_at = iso_string (ct_createdAt c), dc_updated_at = iso_string (ct_updatedAt c)\<rparr>"

record batch_error =
  be_index :: nat
  be_key :: "string option"
  be_code :: int
  be_text :: string

record batch_data =
  bd_ids :: "string list"
  bd_errors :: "batch_error list"

definition batch_errors :: "item_result \<Rightarrow> batch_error list" where
  "batch_errors r = (case ir_error r of None \<Rightarrow> []
     | Some e \<Rightarrow> [\<lparr>be_index = ir_index r, be_key = ir_key r, be_code = ie_code e, be_text = ie_text e\<rparr>])"

definition batchData :: "item_result list \<Rightarrow> batch_data" where
  "batchData rs = \<lparr>bd_ids = concat (map (\<lambda>r. case ir_id r of None \<Rightarrow> [] | Some i \<Rightarrow> if i = [] then [] else [i]) rs),
     bd_errors = concat (map batch_errors rs)\<rparr>"

definition parsePublicBatch :: "json \<Rightarrow> exn + (string \<times> object list)" where
  "parsePublicBatch body =
    (if (case obj_get body ''contacts'' of Some (JArr cs) \<Rightarrow> MAX_BATCH < length cs | _ \<Rightarrow> False)
     then Inl (PublicApi 1002 ''at most 1000 contacts per request'' 400)
     else case publicBatch body of None \<Rightarrow> Inl invalidBody | Some b \<Rightarrow> Inr b)"

section \<open>Endpoints of contact writes\<close>

definition publicRun :: "hook list \<Rightarrow> (nat \<Rightarrow> db \<Rightarrow> db) \<Rightarrow> principal \<Rightarrow> json \<Rightarrow> write_mode \<Rightarrow> batch_data act" where
  "publicRun hooks others p body mode =
    bindM (liftE (parsePublicBatch body)) (\<lambda>(k, cs).
    bindM (liftE (contactTenantOf p)) (\<lambda>t.
    bindM (writeContacts hooks others t k mode cs ''api'') (\<lambda>rs. retM (batchData rs))))"

definition publicCreateContacts :: "hook list \<Rightarrow> (nat \<Rightarrow> db \<Rightarrow> db) \<Rightarrow> principal \<Rightarrow> json \<Rightarrow> string option \<Rightarrow> batch_data act" where
  "publicCreateContacts hooks others p body upsert = publicRun hooks others p body (if upsert = Some ''1'' then Upsert else Create)"

definition publicUpdateContacts :: "hook list \<Rightarrow> (nat \<Rightarrow> db \<Rightarrow> db) \<Rightarrow> principal \<Rightarrow> json \<Rightarrow> string option \<Rightarrow> batch_data act" where
  "publicUpdateContacts hooks others p body upsert = publicRun hooks others p body (if upsert = Some ''1'' then Upsert else Update)"

definition publicRemoveContacts :: "principal \<Rightarrow> json \<Rightarrow> batch_data act" where
  "publicRemoveContacts p body =
    bindM (liftE (parsePublicBatch body)) (\<lambda>(k, cs).
    bindM (liftE (contactTenantOf p)) (\<lambda>t. bindM (deleteByKey t k cs) (\<lambda>rs. retM (batchData rs))))"

text \<open>\<open>if (r!.error) throw httpError(r!.error)\<close> on the single result.\<close>

definition orThrow :: "item_result list \<Rightarrow> item_result act" where
  "orThrow rs = (case rs of [] \<Rightarrow> throwM (PlainError ''TypeError'')
     | r # _ \<Rightarrow> (case ir_error r of Some e \<Rightarrow> throwM (itemHttpError e) | None \<Rightarrow> retM r))"

definition adminUpdateContact :: "hook list \<Rightarrow> (nat \<Rightarrow> db \<Rightarrow> db) \<Rightarrow> principal \<Rightarrow> string \<Rightarrow> json \<Rightarrow> contact_dto act" where
  "adminUpdateContact hooks others p i body =
    bindM (liftE (contactTenantOf p)) (\<lambda>t.
    bindM (liftE (parseBody contactWrite body)) (\<lambda>f.
    bindM (writeContacts hooks others t ''id'' Update [f @ [(''id'', JStr i)]] ''api'') (\<lambda>rs.
    bindM (orThrow rs) (\<lambda>_. bindM (getContact t (lower i)) (\<lambda>c. retM (toContactDto c))))))"

definition adminRemoveContact :: "principal \<Rightarrow> string \<Rightarrow> unit act" where
  "adminRemoveContact p i =
    bindM (liftE (contactTenantOf p)) (\<lambda>t.
    bindM (deleteByKey t ''id'' [[(''id'', JStr i)]]) (\<lambda>rs. bindM (orThrow rs) (\<lambda>_. retM ())))"

definition internalBatchUpsert :: "hook list \<Rightarrow> (nat \<Rightarrow> db \<Rightarrow> db) \<Rightarrow> principal \<Rightarrow> json \<Rightarrow> item_result list act" where
  "internalBatchUpsert hooks others p body =
    bindM (liftE (parseBody internalBatch body)) (\<lambda>b.
    bindM (liftE (internalTenant p (ib_tenant b))) (\<lambda>t. writeContacts hooks others (lower t) (ib_key_id b) (ib_mode b) (ib_contacts b) (ib_source b)))"

definition internalSetFields :: "hook list \<Rightarrow> (nat \<Rightarrow> db \<Rightarrow> db) \<Rightarrow> principal \<Rightarrow> string \<Rightarrow> json \<Rightarrow> (string \<times> int \<times> string list) act" where
  "internalSetFields hooks others p i body =
    bindM (liftE (parseBody internalFields body)) (\<lambda>b.
    bindM (liftE (internalTenant p (if_tenant b))) (\<lambda>t.
    bindM (writeContacts hooks others (lower t) ''id'' Update [if_fields b @ [(''id'', JStr i)]] (if_source b)) (\<lambda>rs.
    bindM (orThrow rs) (\<lambda>r. bindM (getContact (lower t) (lower i)) (\<lambda>c. retM (i, ct_version c, ir_changed r))))))"

section \<open>Endpoints of fields\<close>

definition fieldTenantOf :: "principal \<Rightarrow> exn + string" where
  "fieldTenantOf = tenantOf ''operator principals cannot manage tenant fields''"

definition parseIntPipe :: "(string \<Rightarrow> int option) \<Rightarrow> string \<Rightarrow> exn + int" where
  "parseIntPipe intPipe s = (case intPipe s of None \<Rightarrow> Inl (HttpExc 400 ''Validation failed (numeric string is expected)'') | Some n \<Rightarrow> Inr n)"

definition adminListFields :: "principal \<Rightarrow> string option \<Rightarrow> field_dto list act" where
  "adminListFields p includeDeleted = bindM (liftE (fieldTenantOf p)) (\<lambda>t.
     bindM (listFields t (includeDeleted = Some ''true'')) (\<lambda>fs. retM (map toFieldDto fs)))"

definition adminCreateField :: "principal \<Rightarrow> json \<Rightarrow> field_dto act" where
  "adminCreateField p body = bindM (liftE (fieldTenantOf p)) (\<lambda>t. bindM (liftE (parseBody fieldCreateSchema body)) (\<lambda>b.
     bindM (createField t b) (\<lambda>f. retM (toFieldDto f))))"

definition adminUpdateField :: "(string \<Rightarrow> int option) \<Rightarrow> principal \<Rightarrow> string \<Rightarrow> json \<Rightarrow> field_dto act" where
  "adminUpdateField intPipe p fieldId body = bindM (liftE (parseIntPipe intPipe fieldId)) (\<lambda>n.
     bindM (liftE (fieldTenantOf p)) (\<lambda>t. bindM (liftE (parseBody fieldUpdateSchema body)) (\<lambda>b.
     bindM (updateFieldDef t n b) (\<lambda>f. retM (toFieldDto f)))))"

definition adminRemoveField :: "(string \<Rightarrow> int option) \<Rightarrow> principal \<Rightarrow> string \<Rightarrow> unit act" where
  "adminRemoveField intPipe p fieldId = bindM (liftE (parseIntPipe intPipe fieldId)) (\<lambda>n.
     bindM (liftE (fieldTenantOf p)) (\<lambda>t. removeField t n))"

record public_field =
  pu_id :: int
  pu_name :: "json option"
  pu_application_type :: field_type
  pu_string_id :: string

definition publicField :: "field_def \<Rightarrow> string \<Rightarrow> public_field" where
  "publicField f locale = \<lparr>pu_id = fd_fieldId f, pu_name = obj_get (fd_labels f) locale, pu_application_type = fd_type f, pu_string_id = fd_apiName f\<rparr>"

definition publicListFields :: "(string \<Rightarrow> string option) \<Rightarrow> principal \<Rightarrow> public_field list act" where
  "publicListFields locales p = bindM (liftE (fieldTenantOf p)) (\<lambda>t.
     bindM (listFields t False) (\<lambda>fs. retM (map (\<lambda>f. publicField f (localeOf locales t)) fs)))"

definition same_labels :: "string \<Rightarrow> json" where
  "same_labels s = JObj [(''es'', JStr s), (''pt'', JStr s), (''en'', JStr s)]"

definition publicCreateField :: "(string \<Rightarrow> string option) \<Rightarrow> principal \<Rightarrow> json \<Rightarrow> public_field act" where
  "publicCreateField locales p body = bindM (liftE (fieldTenantOf p)) (\<lambda>t. bindM (liftE (parseBody publicFieldCreateSchema body)) (\<lambda>b.
     bindM (createField t \<lparr>fc_api_name = (case pf_string_id b of Some s \<Rightarrow> s | None \<Rightarrow> snakeCase (pf_name b)), fc_type = pf_type b,
         fc_labels = same_labels (pf_name b), fc_choices = map (\<lambda>c. \<lparr>ci_id = None, ci_api_name = snakeCase c, ci_labels = same_labels c\<rparr>) (pf_choices b),
         fc_unique = pf_unique b\<rparr>) (\<lambda>f.
       retM (publicField f (localeOf locales t)))))"

definition publicFieldChoices :: "(string \<Rightarrow> int option) \<Rightarrow> (string \<Rightarrow> string option) \<Rightarrow> principal \<Rightarrow> string \<Rightarrow> (int \<times> json option) list act" where
  "publicFieldChoices intPipe locales p i = bindM (liftE (parseIntPipe intPipe i)) (\<lambda>n.
     bindM (liftE (fieldTenantOf p)) (\<lambda>t.
     bindM (listFields t False) (\<lambda>fs. case find (\<lambda>f. fd_fieldId f = n) fs of
       None \<Rightarrow> throwM (PublicApi 2011 (''field '' @ show_int n @ '' does not exist'') 404)
     | Some f \<Rightarrow> if \<not> is_choice_type (fd_type f) then throwM (PublicApi 2010 (''field '' @ show_int n @ '' has no choices'') 400)
         else retM (map (\<lambda>c. (ch_id c, obj_get (ch_labels c) (localeOf locales t))) (fd_choices f)))))"

record internal_field =
  nf_field_id :: int
  nf_api_name :: string
  nf_type :: field_type
  nf_choices :: "(int \<times> json) list"

definition internalListFields :: "(string \<Rightarrow> string option) \<Rightarrow> principal \<Rightarrow> string option \<Rightarrow> (string \<times> internal_field list) act" where
  "internalListFields locales p tenantId = (case tenantId of
      None \<Rightarrow> throwM (HttpExc 400 ''tenant_id must be a UUID'')
    | Some t \<Rightarrow> if \<not> is_uuid t then throwM (HttpExc 400 ''tenant_id must be a UUID'')
        else bindM (liftE (internalTenant p t)) (\<lambda>t. bindM (listFields (lower t) False) (\<lambda>fs.
          retM (localeOf locales (lower t), map (\<lambda>f. \<lparr>nf_field_id = fd_fieldId f, nf_api_name = fd_apiName f, nf_type = fd_type f,
            nf_choices = map (\<lambda>c. (ch_id c, ch_labels c)) (fd_choices f)\<rparr>) fs))))"

end
