(* ===== verification/Web_Url.thy ===== *)
theory Web_Url
  imports Json_Text
begin

text \<open>
  What the web console uses of the URL library: resolving a reference that begins with a slash
  against an \<open>http\<close> base (\<open>new URL(ref, base)\<close>), \<open>encodeURIComponent\<close>, the form encoding of
  \<open>URLSearchParams\<close>, and \<open>atob\<close>. The reading of a host name (IDNA, ports, addresses) is the
  parameter \<open>host_of\<close>, which gives None for a name the library refuses.
\<close>

section \<open>Percent encoding\<close>

definition hex_upper :: "nat \<Rightarrow> char" where
  "hex_upper n = (if n < 10 then chr (48 + n) else chr (55 + n))"

definition percent_byte :: "nat \<Rightarrow> string" where
  "percent_byte b = [CHR ''%'', hex_upper (b div 16), hex_upper (b mod 16)]"

definition percent_encode :: "(char \<Rightarrow> bool) \<Rightarrow> string \<Rightarrow> string" where
  "percent_encode kept s = concat (map (\<lambda>c. if kept c then [c] else concat (map percent_byte (utf8_bytes [c]))) s)"

definition alnum_char :: "char \<Rightarrow> bool" where
  "alnum_char c \<longleftrightarrow> digit_char c \<or> lower_alpha c \<or> upper_alpha c"

text \<open>The bytes a path, a query and a fragment of an \<open>http\<close> URL keep.\<close>

definition path_kept :: "char \<Rightarrow> bool" where
  "path_kept c \<longleftrightarrow> 32 < code c \<and> code c < 127 \<and> c \<notin> set ''\"#<>?^`{}''"

definition query_kept :: "char \<Rightarrow> bool" where
  "query_kept c \<longleftrightarrow> 32 < code c \<and> code c < 127 \<and> c \<notin> {chr 34, CHR ''#'', CHR ''<'', CHR ''>'', chr 39}"

definition fragment_kept :: "char \<Rightarrow> bool" where
  "fragment_kept c \<longleftrightarrow> 32 < code c \<and> code c < 127 \<and> c \<notin> {chr 34, CHR ''<'', CHR ''>'', chr 96}"

definition encodeURIComponent :: "string \<Rightarrow> string" where
  "encodeURIComponent s = percent_encode (\<lambda>c. alnum_char c \<or> c \<in> {CHR ''-'', CHR ''_'', CHR ''.'', CHR ''!'', CHR ''~'', CHR ''*'', chr 39, CHR ''('', CHR '')''}) s"

section \<open>Resolving a reference\<close>

record url =
  url_host :: string
  url_pathname :: string
  url_search :: string
  url_hash :: string

definition slash_char :: "char \<Rightarrow> bool" where
  "slash_char c \<longleftrightarrow> c = CHR ''/'' \<or> code c = 92"

text \<open>Segments of one and of two dots, which the parser resolves; \<open>%2e\<close> is a dot.\<close>

definition single_dot :: "string \<Rightarrow> bool" where
  "single_dot s \<longleftrightarrow> lower s \<in> {''.'', ''%2e''}"

definition double_dot :: "string \<Rightarrow> bool" where
  "double_dot s \<longleftrightarrow> lower s \<in> {''..'', ''.%2e'', ''%2e.'', ''%2e%2e''}"

fun path_segments :: "string list \<Rightarrow> string list \<Rightarrow> string list" where
  "path_segments acc [] = acc"
| "path_segments acc [s] = (if double_dot s then butlast acc @ [[]] else if single_dot s then acc @ [[]]
     else acc @ [percent_encode path_kept s])"
| "path_segments acc (s # ss) = path_segments (if double_dot s then butlast acc else if single_dot s then acc
     else acc @ [percent_encode path_kept s]) ss"

fun split_slashes :: "string \<Rightarrow> string list" where
  "split_slashes [] = [[]]"
| "split_slashes (c # s) = (if slash_char c then [] # split_slashes s
     else (case split_slashes s of [] \<Rightarrow> [[c]] | w # ws \<Rightarrow> (c # w) # ws))"

definition path_text :: "string list \<Rightarrow> string" where
  "path_text ss = concat (map (\<lambda>s. CHR ''/'' # s) ss)"

text \<open>The path, query and fragment of a text; the path's leading slash is dropped before its
  segments are read.\<close>

definition path_end :: "char \<Rightarrow> bool" where
  "path_end c \<longleftrightarrow> c = CHR ''?'' \<or> c = CHR ''#''"

definition locator :: "string \<Rightarrow> string \<Rightarrow> url" where
  "locator host s = (let p = takeWhile (\<lambda>c. \<not> path_end c) s; t = dropWhile (\<lambda>c. \<not> path_end c) s;
       q = (case t of c # r \<Rightarrow> if c = CHR ''?'' then takeWhile (\<lambda>c. c \<noteq> CHR ''#'') r else [] | [] \<Rightarrow> []);
       f = (case dropWhile (\<lambda>c. c \<noteq> CHR ''#'') t of c # r \<Rightarrow> r | [] \<Rightarrow> []);
       body = (case p of c # r \<Rightarrow> if slash_char c then r else p | [] \<Rightarrow> [])
     in \<lparr>url_host = host, url_pathname = path_text (path_segments [] (split_slashes body)),
         url_search = (if q = [] then [] else CHR ''?'' # percent_encode query_kept q),
         url_hash = (if f = [] then [] else CHR ''#'' # percent_encode fragment_kept f)\<rparr>)"

text \<open>\<open>new URL(ref, base)\<close> for a reference that begins with a slash: two slashes begin a host
  name, one keeps the host of the base. Controls and spaces are stripped from both ends, tabs and line
  breaks dropped everywhere.\<close>

definition url_text :: "string \<Rightarrow> string" where
  "url_text s = filter (\<lambda>c. code c \<notin> {9, 10, 13}) (strip (\<lambda>c. code c \<le> 32) s)"

definition resolve_url :: "(string \<Rightarrow> string option) \<Rightarrow> string \<Rightarrow> string \<Rightarrow> url option" where
  "resolve_url host_of base ref = (case url_text ref of
      c # d # r \<Rightarrow> if slash_char c \<and> slash_char d then
          (let rest = dropWhile slash_char r; stop = (\<lambda>c. slash_char c \<or> path_end c) in
            map_option (\<lambda>h. locator h (dropWhile (\<lambda>c. \<not> stop c) rest)) (host_of (takeWhile (\<lambda>c. \<not> stop c) rest)))
        else Some (locator base (c # d # r))
    | s \<Rightarrow> Some (locator base s))"

definition url_ref :: "url \<Rightarrow> string" where
  "url_ref u = url_pathname u @ url_search u @ url_hash u"

section \<open>Form encoding\<close>

definition form_kept :: "char \<Rightarrow> bool" where
  "form_kept c \<longleftrightarrow> alnum_char c \<or> c \<in> {CHR ''*'', CHR ''-'', CHR ''.'', CHR ''_''}"

definition form_char :: "char \<Rightarrow> string" where
  "form_char c = (if c = CHR '' '' then ''+'' else if form_kept c then [c] else concat (map percent_byte (utf8_bytes [c])))"

definition form_encode :: "string \<Rightarrow> string" where
  "form_encode s = concat (map form_char s)"

fun form_bytes :: "string \<Rightarrow> nat list" where
  "form_bytes [] = []"
| "form_bytes (c # r) = (if c = CHR ''+'' then 32 # form_bytes r
     else case r of
       h # l # t \<Rightarrow> if c = CHR ''%'' \<and> hex_char h \<and> hex_char l then (radix_val h * 16 + radix_val l) # form_bytes t
         else utf8_bytes [c] @ form_bytes r
     | _ \<Rightarrow> utf8_bytes [c] @ form_bytes r)"

definition form_decode :: "string \<Rightarrow> string option" where
  "form_decode s = utf8_text (form_bytes s)"

text \<open>\<open>searchParams.get(k)\<close> on the search of a URL, and \<open>searchParams.set\<close> on an empty one. A
  value that decodes to units outside the model's strings is read as absent.\<close>

definition form_pair :: "string \<Rightarrow> string \<times> string" where
  "form_pair s = (takeWhile (\<lambda>c. c \<noteq> CHR ''='') s, drop 1 (dropWhile (\<lambda>c. c \<noteq> CHR ''='') s))"

definition search_get :: "string \<Rightarrow> string \<Rightarrow> string option" where
  "search_get search k = (case find (\<lambda>(a, v). form_decode a = Some k)
       (map form_pair (filter (\<lambda>s. s \<noteq> []) (split_on (CHR ''&'') (drop 1 search)))) of
     Some (a, v) \<Rightarrow> form_decode v | None \<Rightarrow> None)"

definition search_set :: "string \<Rightarrow> string \<Rightarrow> string" where
  "search_set k v = CHR ''?'' # form_encode k @ CHR ''='' # form_encode v"

section \<open>\<open>atob\<close>\<close>

definition atob :: "string \<Rightarrow> string option" where
  "atob s = (let t = filter (\<lambda>c. code c \<notin> {9, 10, 12, 13, 32}) s;
       u = (if length t mod 4 = 0 then (if ends_with t ''=='' then take (length t - 2) t else if ends_with t ''='' then take (length t - 1) t else t) else t)
     in if length u mod 4 = 1 \<or> list_ex (\<lambda>c. b64_val c = None \<or> c = CHR ''-'' \<or> c = CHR ''_'') u then None
        else Some (map chr (b64_decode u)))"

end
