(* ===== verification/Web_Session.thy ===== *)
theory Web_Session
  imports Web_Url Auth_Service
begin

text \<open>
  The session of the web console (\<open>apps/admin-web/src/lib/session\<close>, \<open>src/middleware.ts\<close> and the
  handlers under \<open>src/app/api\<close>): where to go next, the cookies, the double-submit check of
  writes, the page guard, and the handlers that exchange credentials with the core service or pass a
  call on to it. The core is an argument of the handlers: a computation over its own world that
  throws when the call itself fails. The locale routing of next-intl is an argument of the page
  guard: the place it redirects a path to, if any.
\<close>

section \<open>Requests and responses\<close>

definition ACCESS_COOKIE :: string where "ACCESS_COOKIE = ''oe_at''"
definition REFRESH_COOKIE :: string where "REFRESH_COOKIE = ''oe_rt''"
definition MFA_COOKIE :: string where "MFA_COOKIE = ''oe_mfa''"
definition CSRF_COOKIE :: string where "CSRF_COOKIE = ''oe_csrf''"
definition CSRF_HEADER :: string where "CSRF_HEADER = ''x-csrf-token''"
definition REFRESH_PATH :: string where "REFRESH_PATH = ''/api/auth''"
definition MFA_PATH :: string where "MFA_PATH = ''/api/auth/mfa''"

datatype auth_error = EInvalid | ELocked | ERateLimited | EExpired | ECsrf | EUnknown

datatype auth_result = AuthNext string | AuthMfa | AuthError auth_error "jsnum option"

record web_request =
  wr_method :: string
  wr_host :: string
  wr_path :: string
  wr_search :: string
  wr_headers :: "(string \<times> string) list"
  wr_cookies :: "(string \<times> string) list"

record set_cookie =
  ck_name :: string
  ck_value :: string
  ck_path :: string
  ck_httpOnly :: bool
  ck_secure :: bool
  ck_maxAge :: "int option"

datatype answer = Json auth_result nat | RedirectTo url | Page

record web_response =
  rs_answer :: answer
  rs_cookies :: "set_cookie list"

definition header :: "web_request \<Rightarrow> string \<Rightarrow> string option" where
  "header r k = map_of (wr_headers r) k"

text \<open>A cookie with a value that is not empty, as the code tests them.\<close>

definition cookie :: "web_request \<Rightarrow> string \<Rightarrow> string option" where
  "cookie r k = (case map_of (wr_cookies r) k of Some (c # v) \<Rightarrow> Some (c # v) | _ \<Rightarrow> None)"

section \<open>Where to go next\<close>

definition safeNext :: "(string \<Rightarrow> string option) \<Rightarrow> string option \<Rightarrow> string \<Rightarrow> exn + string" where
  "safeNext host_of nxt fallback = (case nxt of None \<Rightarrow> Inr fallback | Some n \<Rightarrow>
     if n = [] \<or> \<not> starts_with n ''/'' \<or> starts_with n ''//'' \<or> list_ex (\<lambda>c. code c = 92 \<or> code c < 32) n then Inr fallback
     else (case resolve_url host_of ''local.invalid'' n of
         None \<Rightarrow> Inl (PlainError ''Invalid URL'')
       | Some u \<Rightarrow> if url_host u \<noteq> ''local.invalid'' then Inr fallback else Inr (url_pathname u @ url_search u @ url_hash u)))"

definition LOCALE_SEGMENTS :: "string list" where
  "LOCALE_SEGMENTS = [''es'', ''pt'', ''en'']"

definition localeOf :: "string \<Rightarrow> string" where
  "localeOf path = (let parts = split_on (CHR ''/'') path; segment = (if 1 < length parts then parts ! 1 else [])
     in if segment \<in> set LOCALE_SEGMENTS then segment else ''es'')"

section \<open>Cookies\<close>

text \<open>\<open>secure\<close> is false only in development.\<close>

definition base_cookie :: "bool \<Rightarrow> string \<Rightarrow> string \<Rightarrow> string \<Rightarrow> int option \<Rightarrow> set_cookie" where
  "base_cookie secure name value path age =
     \<lparr>ck_name = name, ck_value = value, ck_path = path, ck_httpOnly = True, ck_secure = secure, ck_maxAge = age\<rparr>"

definition setTokens :: "bool \<Rightarrow> token_pair \<Rightarrow> set_cookie list" where
  "setTokens secure tokens =
    [base_cookie secure ACCESS_COOKIE (tp_access tokens) ''/'' None,
     base_cookie secure REFRESH_COOKIE (tp_refresh tokens) REFRESH_PATH None,
     base_cookie secure MFA_COOKIE [] MFA_PATH (Some 0)]"

definition setMfaToken :: "bool \<Rightarrow> string \<Rightarrow> set_cookie list" where
  "setMfaToken secure mfaToken = [base_cookie secure MFA_COOKIE mfaToken MFA_PATH (Some 300)]"

definition clearSession :: "bool \<Rightarrow> set_cookie list" where
  "clearSession secure =
    [base_cookie secure ACCESS_COOKIE [] ''/'' (Some 0),
     base_cookie secure REFRESH_COOKIE [] REFRESH_PATH (Some 0),
     base_cookie secure MFA_COOKIE [] MFA_PATH (Some 0)]"

text \<open>\<open>uuid\<close> is what \<open>crypto.randomUUID\<close> draws.\<close>

definition ensureCsrfCookie :: "bool \<Rightarrow> string \<Rightarrow> web_request \<Rightarrow> set_cookie list" where
  "ensureCsrfCookie secure uuid req = (if cookie req CSRF_COOKIE \<noteq> None then []
     else [(base_cookie secure CSRF_COOKIE uuid ''/'' None)\<lparr>ck_httpOnly := False\<rparr>])"

text \<open>\<open>origin_host\<close> is the host of an origin's text, None when it does not parse.\<close>

definition csrfOk :: "(string \<Rightarrow> string option) \<Rightarrow> web_request \<Rightarrow> bool" where
  "csrfOk origin_host req = (case (header req ''origin'', case header req ''x-forwarded-host'' of Some h \<Rightarrow> Some h | None \<Rightarrow> header req ''host'') of
     (Some origin, Some host) \<Rightarrow> origin \<noteq> [] \<and> host \<noteq> [] \<and> (case origin_host origin of None \<Rightarrow> False
       | Some originHost \<Rightarrow> originHost = host \<and> (case cookie req CSRF_COOKIE of None \<Rightarrow> False | Some c \<Rightarrow> header req CSRF_HEADER = Some c))
   | _ \<Rightarrow> False)"

section \<open>Tokens\<close>

text \<open>The \<open>exp\<close> of a token's payload, when the payload decodes to a JSON object with a number there.\<close>

definition payload_text :: "string \<Rightarrow> string option" where
  "payload_text jwt = (case split_on (CHR ''.'') jwt of
     _ # p # _ \<Rightarrow> atob (map (\<lambda>c. if c = CHR ''-'' then CHR ''+'' else if c = CHR ''_'' then CHR ''/'' else c) p)
   | _ \<Rightarrow> None)"

definition token_exp :: "string \<Rightarrow> jsnum option" where
  "token_exp jwt = (case payload_text jwt of None \<Rightarrow> None | Some t \<Rightarrow> (case parse_json t of None \<Rightarrow> None
     | Some v \<Rightarrow> (case obj_get v ''exp'' of Some (JNum e) \<Rightarrow> Some e | _ \<Rightarrow> None)))"

text \<open>\<open>exp - skew <= Date.now() / 1000\<close>, with both sides in thousandths.\<close>

definition tokenExpired :: "int \<Rightarrow> int \<Rightarrow> string \<Rightarrow> bool" where
  "tokenExpired skewSeconds now jwt = (case token_exp jwt of None \<Rightarrow> True
     | Some e \<Rightarrow> mant e * 1000 \<le> (now + skewSeconds * 1000) * 10 ^ scale e)"

section \<open>The page guard\<close>

definition PUBLIC_PAGES :: "string list" where
  "PUBLIC_PAGES = [''login'', ''mfa'', ''invite'']"

text \<open>\<open>new URL(path, req.url)\<close> for a path the code writes itself, and a \<open>next\<close> parameter.\<close>

definition own_url :: "web_request \<Rightarrow> string \<Rightarrow> url" where
  "own_url req path = \<lparr>url_host = wr_host req, url_pathname = path, url_search = [], url_hash = []\<rparr>"

definition with_next :: "string \<Rightarrow> url \<Rightarrow> url" where
  "with_next n u = u\<lparr>url_search := search_set ''next'' n\<rparr>"

definition page_segment :: "string \<Rightarrow> string option" where
  "page_segment path = (let parts = split_on (CHR ''/'') path in if 2 < length parts then Some (parts ! 2) else None)"

definition middleware :: "(string \<Rightarrow> url option) \<Rightarrow> bool \<Rightarrow> int \<Rightarrow> string \<Rightarrow> web_request \<Rightarrow> web_response" where
  "middleware intl secure now uuid req = (let cs = ensureCsrfCookie secure uuid req; pathname = wr_path req in
     case intl pathname of Some u \<Rightarrow> \<lparr>rs_answer = RedirectTo u, rs_cookies = cs\<rparr>
     | None \<Rightarrow>
       if (case page_segment pathname of Some p \<Rightarrow> p \<in> set PUBLIC_PAGES | None \<Rightarrow> False) then \<lparr>rs_answer = Page, rs_cookies = cs\<rparr>
       else let nxt = pathname @ wr_search req in
         case cookie req ACCESS_COOKIE of
           None \<Rightarrow> \<lparr>rs_answer = RedirectTo (with_next nxt (own_url req (''/'' @ localeOf pathname @ ''/login''))), rs_cookies = []\<rparr>
         | Some access \<Rightarrow>
             if tokenExpired 30 now access \<and> header req ''next-router-prefetch'' = None
             then \<lparr>rs_answer = RedirectTo (with_next nxt (own_url req ''/api/auth/refresh'')), rs_cookies = []\<rparr>
             else \<lparr>rs_answer = Page, rs_cookies = cs\<rparr>)"

text \<open>\<open>config.matcher\<close>: paths that begin with \<open>/api\<close>, \<open>/_next\<close> or \<open>/_vercel\<close>, or that have a dot, are
  not pages.\<close>

definition guarded :: "string \<Rightarrow> bool" where
  "guarded path \<longleftrightarrow> (case path of c # r \<Rightarrow> c = CHR ''/'' \<and> \<not> starts_with r ''api'' \<and> \<not> starts_with r ''_next'' \<and> \<not> starts_with r ''_vercel'' \<and>
     CHR ''.'' \<notin> set r | [] \<Rightarrow> False)"

section \<open>The handlers of \<open>/api/auth\<close>\<close>

text \<open>A reply of the core: \<open>up_data\<close> is there exactly when the status is a success.\<close>

record 'd core_reply =
  up_status :: nat
  up_retry :: "string option"
  up_data :: "'d option"

definition json :: "auth_result \<Rightarrow> nat \<Rightarrow> web_response" where
  "json body status = \<lparr>rs_answer = Json body status, rs_cookies = []\<rparr>"

text \<open>\<open>Number(header) || undefined\<close>\<close>

definition retryAfterOf :: "string option \<Rightarrow> jsnum option" where
  "retryAfterOf h = (case h of None \<Rightarrow> None | Some s \<Rightarrow> (case js_number s of Some n \<Rightarrow> if n = int_num 0 then None else Some n | None \<Rightarrow> None))"

definition authFailure :: "'d core_reply \<Rightarrow> web_response" where
  "authFailure r = (let retryAfter = retryAfterOf (up_retry r) in
     if up_status r = 400 \<or> up_status r = 401 then json (AuthError EInvalid None) 401
     else if up_status r = 423 then json (AuthError ELocked retryAfter) 423
     else if up_status r = 429 then json (AuthError ERateLimited retryAfter) 429
     else json (AuthError EUnknown None) 502)"

definition csrfRefused :: web_response where
  "csrfRefused = json (AuthError ECsrf None) 403"

text \<open>A text member of a body; \<open>None\<close> is a body that is not JSON.\<close>

definition text_member :: "json option \<Rightarrow> string \<Rightarrow> string option" where
  "text_member body k = (case body of Some v \<Rightarrow> (case obj_get v k of Some (JStr s) \<Rightarrow> Some s | _ \<Rightarrow> None) | None \<Rightarrow> None)"

text \<open>\<open>localeOf(`/${String(body?.locale)}`)\<close>\<close>

definition body_locale :: "json option \<Rightarrow> string" where
  "body_locale body = localeOf (CHR ''/'' # (case (case body of Some v \<Rightarrow> obj_get v ''locale'' | None \<Rightarrow> None) of Some l \<Rightarrow> js_string l | None \<Rightarrow> ''undefined''))"

record parsers =
  pa_host :: "string \<Rightarrow> string option"
  pa_origin :: "string \<Rightarrow> string option"
  pa_secure :: bool

definition sendTokens :: "parsers \<Rightarrow> json option \<Rightarrow> token_pair \<Rightarrow> ('w, web_response) comp" where
  "sendTokens ps body tokens =
    bindM (liftE (safeNext (pa_host ps) (text_member body ''next'') (''/'' @ body_locale body)))
      (\<lambda>nxt. retM ((json (AuthNext nxt) 200)\<lparr>rs_cookies := setTokens (pa_secure ps) tokens\<rparr>))"

definition loginRoute :: "parsers \<Rightarrow> (string \<Rightarrow> string \<Rightarrow> ('w, login_result core_reply) comp) \<Rightarrow> web_request \<Rightarrow> json option \<Rightarrow> ('w, web_response) comp" where
  "loginRoute ps core req body =
    (if \<not> csrfOk (pa_origin ps) req then retM csrfRefused
     else case (text_member body ''email'', text_member body ''password'') of
       (Some email, Some password) \<Rightarrow>
         bindM (core email password) (\<lambda>r. case up_data r of
           None \<Rightarrow> retM (authFailure r)
         | Some (MfaRequired mfaToken) \<Rightarrow> retM ((json AuthMfa 200)\<lparr>rs_cookies := setMfaToken (pa_secure ps) mfaToken\<rparr>)
         | Some (LoggedIn tokens) \<Rightarrow> sendTokens ps body tokens)
     | _ \<Rightarrow> retM (json (AuthError EInvalid None) 401))"

definition mfaRoute :: "parsers \<Rightarrow> (string \<Rightarrow> string \<Rightarrow> ('w, token_pair core_reply) comp) \<Rightarrow> web_request \<Rightarrow> json option \<Rightarrow> ('w, web_response) comp" where
  "mfaRoute ps core req body =
    (if \<not> csrfOk (pa_origin ps) req then retM csrfRefused
     else case cookie req MFA_COOKIE of
       None \<Rightarrow> retM (json (AuthError EExpired None) 401)
     | Some mfaToken \<Rightarrow> (case text_member body ''code'' of
         None \<Rightarrow> retM (json (AuthError EInvalid None) 401)
       | Some c \<Rightarrow> bindM (core mfaToken c) (\<lambda>r. case up_data r of
           None \<Rightarrow> retM (authFailure r)
         | Some tokens \<Rightarrow> sendTokens ps body tokens)))"

definition refreshRoute :: "parsers \<Rightarrow> (string \<Rightarrow> ('w, token_pair core_reply) comp) \<Rightarrow> web_request \<Rightarrow> ('w, web_response) comp" where
  "refreshRoute ps core req =
    bindM (liftE (safeNext (pa_host ps) (search_get (wr_search req) ''next'') ''/'')) (\<lambda>nxt.
    bindM (case cookie req REFRESH_COOKIE of
        Some token \<Rightarrow> bindM (core token) (\<lambda>r. retM (up_data r))
      | None \<Rightarrow> retM None) (\<lambda>data. case data of
        None \<Rightarrow> retM \<lparr>rs_answer = RedirectTo (with_next nxt (own_url req (''/'' @ localeOf nxt @ ''/login''))),
                     rs_cookies = clearSession (pa_secure ps)\<rparr>
      | Some tokens \<Rightarrow> (case resolve_url (pa_host ps) (wr_host req) nxt of
            None \<Rightarrow> throwM (PlainError ''Invalid URL'')
          | Some u \<Rightarrow> retM \<lparr>rs_answer = RedirectTo u, rs_cookies = setTokens (pa_secure ps) tokens\<rparr>)))"

text \<open>\<open>.catch(() => undefined)\<close> on the core's answer: the cookies are cleared either way.\<close>

definition bestEffort :: "('w, 'a) comp \<Rightarrow> ('w, unit) comp" where
  "bestEffort m w = (Inr (), snd (m w))"

definition logoutRoute :: "parsers \<Rightarrow> (string option \<Rightarrow> string \<Rightarrow> ('w, unit core_reply) comp) \<Rightarrow> web_request \<Rightarrow> json option \<Rightarrow> ('w, web_response) comp" where
  "logoutRoute ps core req body =
    (if \<not> csrfOk (pa_origin ps) req then retM csrfRefused
     else bindM (case cookie req REFRESH_COOKIE of
         Some token \<Rightarrow> bestEffort (core (cookie req ACCESS_COOKIE) token)
       | None \<Rightarrow> retM ()) (\<lambda>_.
       retM ((json (AuthNext (''/'' @ body_locale body @ ''/login'')) 200)\<lparr>rs_cookies := clearSession (pa_secure ps)\<rparr>)))"

section \<open>The proxy of \<open>/api/admin\<close>\<close>

record upstream_call =
  uc_method :: string
  uc_url :: string
  uc_headers :: "(string \<times> string) list"
  uc_body :: "string option"

record raw_reply =
  rr_status :: nat
  rr_headers :: "(string \<times> string) list"
  rr_body :: string

definition SAFE :: "string set" where
  "SAFE = {''GET'', ''HEAD''}"

definition kept_header :: "(string \<times> string) list \<Rightarrow> string \<Rightarrow> (string \<times> string) list" where
  "kept_header hs k = (case map_of hs k of Some (c # v) \<Rightarrow> [(k, c # v)] | _ \<Rightarrow> [])"

definition upstreamCall :: "string \<Rightarrow> web_request \<Rightarrow> string list \<Rightarrow> string \<Rightarrow> upstream_call" where
  "upstreamCall upstream req path body =
    \<lparr>uc_method = wr_method req, uc_url = upstream @ ''/'' @ join_with ''/'' (map encodeURIComponent path) @ wr_search req,
     uc_headers = kept_header (wr_headers req) ''content-type'' @
       (case cookie req ACCESS_COOKIE of Some token \<Rightarrow> [(''authorization'', ''Bearer '' @ token)] | None \<Rightarrow> []),
     uc_body = (if wr_method req \<in> SAFE then None else Some body)\<rparr>"

datatype proxy_answer = Refused nat | PassedOn raw_reply

definition proxy :: "(string \<Rightarrow> string option) \<Rightarrow> string \<Rightarrow> (upstream_call \<Rightarrow> ('w, raw_reply) comp) \<Rightarrow> web_request \<Rightarrow> string list \<Rightarrow> string \<Rightarrow> ('w, proxy_answer) comp" where
  "proxy origin_host upstream fetch req path body =
    (if wr_method req \<notin> SAFE \<and> \<not> csrfOk origin_host req then retM (Refused 403)
     else bindM (fetch (upstreamCall upstream req path body)) (\<lambda>r.
       retM (PassedOn \<lparr>rr_status = rr_status r,
         rr_headers = concat (map (kept_header (rr_headers r)) [''content-type'', ''retry-after'']), rr_body = rr_body r\<rparr>)))"

section \<open>The forms\<close>

text \<open>\<open>postAuth\<close>: the CSRF token is read from \<open>document.cookie\<close>, and a call that fails or answers
  with something else than JSON is an unknown error.\<close>

definition csrfToken :: "string list \<Rightarrow> string" where
  "csrfToken cookies = (case find (\<lambda>c. starts_with c (CSRF_COOKIE @ ''='')) cookies of
     Some c \<Rightarrow> drop (length CSRF_COOKIE + 1) c | None \<Rightarrow> [])"

definition postAuth :: "(string \<Rightarrow> string \<Rightarrow> 'b \<Rightarrow> 'w \<Rightarrow> auth_result option \<times> 'w) \<Rightarrow> string list \<Rightarrow> string \<Rightarrow> 'b \<Rightarrow> 'w \<Rightarrow> auth_result \<times> 'w" where
  "postAuth fetch cookies address body w = (case fetch address (csrfToken cookies) body w of
     (r, w') \<Rightarrow> (case r of Some x \<Rightarrow> x | None \<Rightarrow> AuthError EUnknown None, w'))"

datatype message = Message string | MinutesMessage int

definition error_name :: "auth_error \<Rightarrow> string" where
  "error_name e = (case e of EInvalid \<Rightarrow> ''invalid'' | ELocked \<Rightarrow> ''locked'' | ERateLimited \<Rightarrow> ''rate_limited''
     | EExpired \<Rightarrow> ''expired'' | ECsrf \<Rightarrow> ''csrf'' | EUnknown \<Rightarrow> ''unknown'')"

text \<open>\<open>Math.ceil(n / 60)\<close> of a decimal.\<close>

definition ceil_minutes :: "jsnum \<Rightarrow> int" where
  "ceil_minutes n = - ((- mant n) div (60 * 10 ^ scale n))"

definition errorMessage :: "auth_error \<Rightarrow> jsnum option \<Rightarrow> string \<Rightarrow> message" where
  "errorMessage e retryAfter invalidKey = (case e of
     EInvalid \<Rightarrow> Message invalidKey
   | ELocked \<Rightarrow> MinutesMessage (ceil_minutes (case retryAfter of Some n \<Rightarrow> n | None \<Rightarrow> int_num 900))
   | _ \<Rightarrow> Message (''errors.'' @ error_name e))"

end
