(* ===== verification/Web_Url_Facts.thy ===== *)
theory Web_Url_Facts
  imports Web_Url
begin

text \<open>
  Facts about the URL library: the form encoding reads back, and a resolved reference resolves to
  itself unless its path begins with two slashes.
\<close>

section \<open>Codes\<close>

lemma punct_codes [simp]: "code (CHR ''%'') = 37" "code (CHR ''/'') = 47" "code (CHR ''?'') = 63" "code (CHR ''#'') = 35"
    "code (CHR ''+'') = 43" "code (CHR ''='') = 61" "code (CHR ''&'') = 38" "code (CHR '' '') = 32" "code (CHR ''.'') = 46" "code (CHR ''*'') = 42"
    "code (CHR ''_'') = 95" "code (CHR ''-'') = 45"
  by (simp_all add: code_def)

lemma code_hex_upper: "n < 16 \<Longrightarrow> code (hex_upper n) = (if n < 10 then 48 + n else 55 + n)"
  by (simp add: hex_upper_def code_chr)

lemma hex_upper_val: "n < 16 \<Longrightarrow> hex_char (hex_upper n) \<and> radix_val (hex_upper n) = n"
  by (auto simp: hex_char_def digit_char_def radix_val_def code_hex_upper digit_val_def lower_alpha_def upper_alpha_def)

lemma hex_upper_chars: "n < 16 \<Longrightarrow> digit_char (hex_upper n) \<or> (65 \<le> code (hex_upper n) \<and> code (hex_upper n) \<le> 70)"
  by (cases "n < 10") (simp_all add: code_hex_upper digit_char_def)

lemma percent_byte_chars: "b < 256 \<Longrightarrow> c \<in> set (percent_byte b) \<Longrightarrow> c = CHR ''%'' \<or> digit_char c \<or> (65 \<le> code c \<and> code c \<le> 70)"
  using hex_upper_chars[of "b div 16"] hex_upper_chars[of "b mod 16"] by (auto simp: percent_byte_def)

lemma percent_encode_simps [simp]: "percent_encode k [] = []"
    "percent_encode k (c # s) = (if k c then [c] else concat (map percent_byte (utf8_bytes [c]))) @ percent_encode k s"
  by (simp_all add: percent_encode_def)

lemma percent_encode_set: "c \<in> set (percent_encode k s) \<Longrightarrow> (c \<in> set s \<and> k c) \<or> c = CHR ''%'' \<or> digit_char c \<or> (65 \<le> code c \<and> code c \<le> 70)"
proof (induction s)
  case (Cons d s)
  then show ?case using percent_byte_chars utf8_bytes_less by (auto split: if_splits)
qed simp

lemma percent_encode_chars: "c \<in> set (percent_encode k s) \<Longrightarrow> k c \<or> c = CHR ''%'' \<or> digit_char c \<or> (65 \<le> code c \<and> code c \<le> 70)"
  using percent_encode_set by blast

lemma percent_encode_id: "list_all k s \<Longrightarrow> percent_encode k s = s"
  by (induction s) auto

text \<open>The three kept sets hold the percent sign and every digit, so encoding twice is encoding once.\<close>

definition keeps_codes :: "(char \<Rightarrow> bool) \<Rightarrow> bool" where
  "keeps_codes k \<longleftrightarrow> (\<forall>c. c = CHR ''%'' \<or> digit_char c \<or> (65 \<le> code c \<and> code c \<le> 70) \<longrightarrow> k c)"

lemma keeps: "keeps_codes path_kept" "keeps_codes query_kept" "keeps_codes fragment_kept"
  by (auto simp: keeps_codes_def path_kept_def query_kept_def fragment_kept_def digit_char_def code_inj code_chr) (simp_all add: code_def)

lemma percent_encode_kept: "keeps_codes k \<Longrightarrow> list_all k (percent_encode k s)"
  using percent_encode_chars[of _ k s] by (auto simp: keeps_codes_def list_all_iff)

lemma percent_encode_twice: "keeps_codes k \<Longrightarrow> percent_encode k (percent_encode k s) = percent_encode k s"
  by (rule percent_encode_id[OF percent_encode_kept])

section \<open>Form encoding reads back\<close>

lemma form_bytes_percent: "b < 256 \<Longrightarrow> form_bytes (percent_byte b @ r) = b # form_bytes r"
  using hex_upper_val[of "b div 16"] hex_upper_val[of "b mod 16"] by (simp add: percent_byte_def)

lemma form_bytes_bytes: "(\<forall>b \<in> set bs. b < 256) \<Longrightarrow> form_bytes (concat (map percent_byte bs) @ r) = bs @ form_bytes r"
  by (induction bs) (simp_all add: form_bytes_percent)

lemma form_bytes_kept: "form_kept c \<Longrightarrow> form_bytes (c # r) = utf8_bytes [c] @ form_bytes r"
proof -
  assume "form_kept c"
  then have "c \<noteq> CHR ''+''" "c \<noteq> CHR ''%''"
    by (auto simp: form_kept_def alnum_char_def digit_char_def lower_alpha_def upper_alpha_def)
  then show ?thesis by (auto split: list.splits)
qed

lemma form_bytes_char: "form_bytes (form_char c @ r) = utf8_bytes [c] @ form_bytes r"
proof (cases "c = CHR '' ''")
  case True
  then show ?thesis by (simp add: form_char_def utf8_bytes_def)
next
  case False
  then show ?thesis
    using form_bytes_kept[of c r] form_bytes_bytes[of "utf8_bytes [c]" r] utf8_bytes_less by (auto simp: form_char_def)
qed

lemma utf8_bytes_Cons: "utf8_bytes (c # s) = utf8_bytes [c] @ utf8_bytes s"
  by (simp add: utf8_bytes_def)

lemma form_bytes_encode: "form_bytes (form_encode s) = utf8_bytes s"
proof (induction s)
  case Nil
  then show ?case by (simp add: form_encode_def utf8_bytes_def)
next
  case (Cons c s)
  then show ?case using form_bytes_char[of c "form_encode s"] by (simp add: form_encode_def utf8_bytes_Cons[of c s])
qed

lemma form_round_trip: "form_decode (form_encode s) = Some s"
  by (simp add: form_decode_def form_bytes_encode utf8_roundtrip)

lemma form_encode_chars: "c \<in> set (form_encode s) \<Longrightarrow> c \<notin> {CHR ''&'', CHR ''='', CHR ''#'', CHR ''?''}"
proof -
  assume "c \<in> set (form_encode s)"
  then obtain d where d: "c \<in> set (form_char d)" by (auto simp: form_encode_def)
  then have "c = CHR ''+'' \<or> form_kept c \<or> c = CHR ''%'' \<or> digit_char c \<or> (65 \<le> code c \<and> code c \<le> 70)"
    using percent_byte_chars utf8_bytes_less by (auto simp: form_char_def split: if_splits)
  then show ?thesis by (auto simp: form_kept_def alnum_char_def digit_char_def lower_alpha_def upper_alpha_def)
qed

lemma split_on_none: "d \<notin> set s \<Longrightarrow> split_on d s = [s]"
  by (induction s) auto

lemma takeWhile_until: "d \<notin> set s \<Longrightarrow> takeWhile (\<lambda>c. c \<noteq> d) (s @ d # r) = s" "d \<notin> set s \<Longrightarrow> dropWhile (\<lambda>c. c \<noteq> d) (s @ d # r) = d # r"
  by (induction s) auto

lemma search_round_trip: "search_get (search_set k v) k = Some v"
proof -
  have no: "CHR ''='' \<notin> set (form_encode k)" "CHR ''&'' \<notin> set (form_encode k @ CHR ''='' # form_encode v)"
    using form_encode_chars[of "CHR ''=''" k] form_encode_chars[of "CHR ''&''" k] form_encode_chars[of "CHR ''&''" v] by auto
  show ?thesis
    using split_on_none[OF no(2)] takeWhile_until[OF no(1), of "form_encode v"] by (simp add: search_get_def search_set_def form_pair_def form_round_trip)
qed

section \<open>Resolving a resolved reference\<close>

text \<open>A segment the parser leaves alone.\<close>

definition plain_segment :: "string \<Rightarrow> bool" where
  "plain_segment s \<longleftrightarrow> list_all path_kept s \<and> list_all (\<lambda>c. \<not> slash_char c) s \<and> \<not> single_dot s \<and> \<not> double_dot s"

definition no_slash :: "string \<Rightarrow> bool" where
  "no_slash s \<longleftrightarrow> list_all (\<lambda>c. \<not> slash_char c) s"

text \<open>Texts built of dots, plain or encoded, are not the encoding of anything else.\<close>

fun dotty :: "string \<Rightarrow> bool" where
  "dotty [] \<longleftrightarrow> True"
| "dotty (c # r) \<longleftrightarrow> (if c = CHR ''.'' then dotty r else c = CHR ''%'' \<and> (case r of h # l # t \<Rightarrow> h = CHR ''2'' \<and> lower_char l = CHR ''e'' \<and> dotty t | _ \<Rightarrow> False))"

lemma lower_char_dots: "lower_char c = CHR ''.'' \<longleftrightarrow> c = CHR ''.''" "lower_char c = CHR ''%'' \<longleftrightarrow> c = CHR ''%''" "lower_char c = CHR ''2'' \<longleftrightarrow> c = CHR ''2''"
proof -
  have *: "lower_char c = d \<longleftrightarrow> c = d" if "code d < 65" for d
  proof (cases "upper_alpha c \<or> (192 \<le> code c \<and> code c \<le> 222 \<and> code c \<noteq> 215)")
    case True
    then have "code (lower_char c) \<ge> 97" "code c \<ge> 65" by (auto simp: lower_char_def upper_alpha_def code_chr)
    then show ?thesis using that by auto
  qed (auto simp: lower_char_def)
  show "lower_char c = CHR ''.'' \<longleftrightarrow> c = CHR ''.''" "lower_char c = CHR ''%'' \<longleftrightarrow> c = CHR ''%''" "lower_char c = CHR ''2'' \<longleftrightarrow> c = CHR ''2''"
    by (intro *; simp add: code_def)+
qed

lemma dots_dotty: "single_dot s \<Longrightarrow> dotty s" "double_dot s \<Longrightarrow> dotty s"
  by (auto simp: single_dot_def double_dot_def lower_def map_eq_Cons_conv lower_char_dots)

lemma percent_byte_2e: "b < 256 \<Longrightarrow> b \<noteq> 46 \<Longrightarrow> \<not> dotty (percent_byte b @ r)"
proof
  assume b: "b < 256" "b \<noteq> 46" and d: "dotty (percent_byte b @ r)"
  have h: "hex_upper (b div 16) = CHR ''2''" "lower_char (hex_upper (b mod 16)) = CHR ''e''" using d by (auto simp: percent_byte_def)
  have 1: "b div 16 = 2"
  proof -
    have m: "b div 16 < 16" using b(1) by simp
    have "code (hex_upper (b div 16)) = 50" unfolding h(1) by (simp add: code_def)
    then show ?thesis using code_hex_upper[OF m] by (simp split: if_splits)
  qed
  have c: "code (CHR ''e'') = 101" by (simp add: code_def)
  have 2: "b mod 16 = 14"
  proof -
    have m: "b mod 16 < 16" by simp
    have "code (lower_char (hex_upper (b mod 16))) = (if b mod 16 < 10 then 48 + b mod 16 else 87 + b mod 16)"
      using code_hex_upper[OF m] m by (auto simp: lower_char_def upper_alpha_def code_chr)
    then show ?thesis using h(2) c m by (auto split: if_splits)
  qed
  have "b = b div 16 * 16 + b mod 16" by simp
  then show False using 1 2 b(2) by simp
qed

lemma percent_encode_first: "percent_encode k s = x # z \<Longrightarrow> x \<noteq> CHR ''%'' \<Longrightarrow> \<exists>r. s = x # r \<and> k x \<and> percent_encode k r = z"
  by (cases s) (auto simp: utf8_bytes_def percent_byte_def split: if_splits)

lemma dotty_encoded: "dotty (percent_encode path_kept s) \<Longrightarrow> list_all path_kept s"
proof (induction "length s" arbitrary: s rule: less_induct)
  case less
  show ?case
  proof (cases s)
    case (Cons c r)
    show ?thesis
    proof (cases "path_kept c")
      case False
      then have "\<exists>b bs. utf8_bytes [c] = b # bs \<and> b < 256 \<and> b \<noteq> 46"
        using code_less[of c] by (auto simp: utf8_bytes_def path_kept_def code_inj code_chr) (auto simp: code_def)
      then show ?thesis using less.prems False Cons percent_byte_2e by auto
    next
      case kept: True
      show ?thesis
      proof (cases "c = CHR ''.''")
        case True
        then show ?thesis using less Cons kept by auto
      next
        case False
        then obtain l t where e: "percent_encode path_kept r = CHR ''2'' # l # t" "lower_char l = CHR ''e''" "dotty t" and c: "c = CHR ''%''"
          using less.prems Cons kept by (auto split: list.splits if_splits)
        obtain r1 where r: "r = CHR ''2'' # r1" "percent_encode path_kept r1 = l # t"
          using percent_encode_first[OF e(1)] by auto
        obtain r2 where r1: "r1 = l # r2" "percent_encode path_kept r2 = t" "path_kept l"
          using percent_encode_first[OF r(2)] e(2) lower_char_dots(2)[of l] by auto
        have "list_all path_kept r2" using less.hyps[of r2] e(3) r1(2) Cons r(1) r1(1) by simp
        then show ?thesis using kept Cons r(1) r1(1,3) percent_encode_first[OF e(1)] by auto
      qed
    qed
  qed simp
qed

lemma plain_encoded: "no_slash s \<Longrightarrow> \<not> single_dot s \<Longrightarrow> \<not> double_dot s \<Longrightarrow> plain_segment (percent_encode path_kept s)"
proof -
  assume s: "no_slash s" "\<not> single_dot s" "\<not> double_dot s"
  have "\<not> single_dot (percent_encode path_kept s)" "\<not> double_dot (percent_encode path_kept s)"
    using s(2,3) dots_dotty dotty_encoded[of s] percent_encode_id[of path_kept s] by metis+
  moreover have "list_all (\<lambda>c. \<not> slash_char c) (percent_encode path_kept s)"
    using s(1) percent_encode_set[of _ path_kept s] by (fastforce simp: no_slash_def list_all_iff slash_char_def digit_char_def)
  ultimately show ?thesis using percent_encode_kept[OF keeps(1)] by (simp add: plain_segment_def)
qed

lemma plain_empty: "plain_segment []"
  by (simp add: plain_segment_def single_dot_def double_dot_def lower_def)

lemma path_segments_plain: "list_all plain_segment acc \<Longrightarrow> list_all no_slash ss \<Longrightarrow> list_all plain_segment (path_segments acc ss)"
proof (induction acc ss rule: path_segments.induct)
  case (2 acc s)
  then show ?case by (auto simp: list_all_iff plain_empty dest: in_set_butlastD intro: plain_encoded)
next
  case (3 acc s v va)
  have "list_all plain_segment (butlast acc)" using 3(2) by (auto simp: list_all_iff dest: in_set_butlastD)
  then show ?case using 3 by (simp add: plain_encoded)
qed simp

lemma path_segments_ne: "ss \<noteq> [] \<Longrightarrow> path_segments acc ss \<noteq> []"
  by (induction acc ss rule: path_segments.induct) auto

lemma path_segments_fixed: "list_all plain_segment ss \<Longrightarrow> path_segments acc ss = acc @ ss"
  by (induction acc ss rule: path_segments.induct) (auto simp: plain_segment_def percent_encode_id)

lemma split_slashes_parts: "list_all no_slash (split_slashes s)" "split_slashes s \<noteq> []"
  by (induction s) (auto simp: no_slash_def split: list.splits)

lemma split_slashes_word: "no_slash s \<Longrightarrow> split_slashes s = [s]" "no_slash s \<Longrightarrow> split_slashes (s @ CHR ''/'' # t) = s # split_slashes t"
  using split_slashes_parts(2) by (induction s) (auto simp: no_slash_def slash_char_def split: list.splits)

lemma split_path_text: "ss \<noteq> [] \<Longrightarrow> list_all no_slash ss \<Longrightarrow> split_slashes (tl (path_text ss)) = ss"
proof (induction ss)
  case (Cons s ss)
  then show ?case
    by (cases ss) (simp_all add: path_text_def split_slashes_word)
qed simp

definition query_part :: "string \<Rightarrow> bool" where
  "query_part s \<longleftrightarrow> s = [] \<or> (\<exists>q. q \<noteq> [] \<and> s = CHR ''?'' # q \<and> list_all query_kept q)"

definition fragment_part :: "string \<Rightarrow> bool" where
  "fragment_part s \<longleftrightarrow> s = [] \<or> (\<exists>f. f \<noteq> [] \<and> s = CHR ''#'' # f \<and> list_all fragment_kept f)"

lemma path_segments_encoded: "list_all (\<lambda>s. \<not> single_dot s \<and> \<not> double_dot s) ss \<Longrightarrow> path_segments acc ss = acc @ map (percent_encode path_kept) ss"
  by (induction acc ss rule: path_segments.induct) auto

lemma percent_encode_Nil: "percent_encode k s = [] \<longleftrightarrow> s = []"
  by (cases s) (auto simp: utf8_bytes_def percent_byte_def)

text \<open>The three parts of a resolved reference, and their reading back.\<close>

lemma locator_parts:
  obtains ss where "url_pathname (locator h s) = path_text ss" "ss \<noteq> []" "list_all plain_segment ss"
    "query_part (url_search (locator h s))"
    "fragment_part (url_hash (locator h s))"
    "url_host (locator h s) = h"
proof
  let ?b = "(case takeWhile (\<lambda>c. \<not> path_end c) s of c # r \<Rightarrow> if slash_char c then r else takeWhile (\<lambda>c. \<not> path_end c) s | [] \<Rightarrow> [])"
  show "url_pathname (locator h s) = path_text (path_segments [] (split_slashes ?b))" by (simp add: locator_def Let_def)
  show "path_segments [] (split_slashes ?b) \<noteq> []" by (rule path_segments_ne[OF split_slashes_parts(2)])
  show "list_all plain_segment (path_segments [] (split_slashes ?b))" by (rule path_segments_plain) (simp_all add: split_slashes_parts(1))
  have enc: "percent_encode k q \<noteq> []" if "q \<noteq> []" for k q
    using that by (cases q) (auto simp: utf8_bytes_def percent_byte_def)
  show "query_part (url_search (locator h s))"
    by (simp add: query_part_def locator_def Let_def enc percent_encode_kept[OF keeps(2)])
  show "fragment_part (url_hash (locator h s))"
    by (simp add: fragment_part_def locator_def Let_def enc percent_encode_kept[OF keeps(3)])
  show "url_host (locator h s) = h" by (simp add: locator_def Let_def)
qed

lemma path_text_chars: "list_all plain_segment ss \<Longrightarrow> c \<in> set (path_text ss) \<Longrightarrow> path_kept c"
proof -
  have "path_kept (CHR ''/'')" by (simp add: path_kept_def)
  then show "list_all plain_segment ss \<Longrightarrow> c \<in> set (path_text ss) \<Longrightarrow> path_kept c"
    by (auto simp: path_text_def plain_segment_def list_all_iff split: if_splits)
qed

lemma path_kept_end: "path_kept c \<Longrightarrow> \<not> path_end c"
  by (auto simp: path_kept_def path_end_def)

lemma takeWhile_path: "\<forall>c \<in> set p. \<not> path_end c \<Longrightarrow> t = [] \<or> path_end (hd t) \<Longrightarrow>
    takeWhile (\<lambda>c. \<not> path_end c) (p @ t) = p \<and> dropWhile (\<lambda>c. \<not> path_end c) (p @ t) = t"
  by (induction p) (auto simp: takeWhile_eq_Nil_iff dropWhile_eq_self_iff)

lemma query_part_cases:
  assumes "query_part s"
  obtains "s = []" | q where "s = CHR ''?'' # q" "q \<noteq> []" "list_all query_kept q"
  using assms by (force simp: query_part_def)

lemma fragment_part_cases:
  assumes "fragment_part s"
  obtains "s = []" | q where "s = CHR ''#'' # q" "q \<noteq> []" "list_all fragment_kept q"
  using assms by (force simp: fragment_part_def)

lemma query_part_hash: "query_part q \<Longrightarrow> c \<in> set q \<Longrightarrow> c \<noteq> CHR ''#''"
proof -
  have "\<not> query_kept (CHR ''#'')" by (simp add: query_kept_def)
  then show "query_part q \<Longrightarrow> c \<in> set q \<Longrightarrow> c \<noteq> CHR ''#''" by (elim query_part_cases) (auto simp: list_all_iff)
qed

lemma query_part_rest:
  assumes q: "query_part q" and f: "fragment_part f"
  shows "(case q @ f of c # r \<Rightarrow> if c = CHR ''?'' then takeWhile (\<lambda>c. c \<noteq> CHR ''#'') r else [] | [] \<Rightarrow> []) = drop 1 q"
    and "(case dropWhile (\<lambda>c. c \<noteq> CHR ''#'') (q @ f) of c # r \<Rightarrow> r | [] \<Rightarrow> []) = drop 1 f"
proof -
  have tw: "takeWhile (\<lambda>c. c \<noteq> CHR ''#'') (w @ f) = w" "dropWhile (\<lambda>c. c \<noteq> CHR ''#'') (w @ f) = f" if "\<forall>c \<in> set w. c \<noteq> CHR ''#''" for w
    using f that by (elim fragment_part_cases; simp add: takeWhile_append2 dropWhile_append2)+
  have nq: "\<forall>c \<in> set q. c \<noteq> CHR ''#''" using query_part_hash[OF q] by blast
  then have n1: "\<forall>c \<in> set (drop 1 q). c \<noteq> CHR ''#''" by (auto dest: in_set_dropD)
  show "(case q @ f of c # r \<Rightarrow> if c = CHR ''?'' then takeWhile (\<lambda>c. c \<noteq> CHR ''#'') r else [] | [] \<Rightarrow> []) = drop 1 q"
  proof (cases q)
    case Nil
    then show ?thesis using f by (elim fragment_part_cases) simp_all
  next
    case (Cons c r)
    then show ?thesis using q tw(1)[OF n1] by (elim query_part_cases) simp_all
  qed
  show "(case dropWhile (\<lambda>c. c \<noteq> CHR ''#'') (q @ f) of c # r \<Rightarrow> r | [] \<Rightarrow> []) = drop 1 f"
    unfolding tw(2)[OF nq] using f by (elim fragment_part_cases) simp_all
qed

lemma locator_of_parts:
  assumes p: "ss \<noteq> []" "list_all plain_segment ss" and q: "query_part q" and f: "fragment_part f"
  shows "locator b (path_text ss @ q @ f) = \<lparr>url_host = b, url_pathname = path_text ss, url_search = q, url_hash = f\<rparr>"
proof -
  have hd: "q @ f = [] \<or> path_end (hd (q @ f))" using q f by (elim query_part_cases fragment_part_cases) (simp_all add: path_end_def)
  have "\<forall>c \<in> set (path_text ss). \<not> path_end c" using path_text_chars[OF p(2)] path_kept_end by blast
  note tw = takeWhile_path[OF this hd]
  have body: "(case path_text ss of c # r \<Rightarrow> if slash_char c then r else path_text ss | [] \<Rightarrow> []) = tl (path_text ss)"
    using p(1) by (cases ss) (simp_all add: path_text_def slash_char_def)
  have "list_all no_slash ss" using p(2) by (auto simp: plain_segment_def no_slash_def list_all_iff)
  then have segs: "path_segments [] (split_slashes (tl (path_text ss))) = ss"
    using split_path_text[OF p(1)] path_segments_fixed[OF p(2)] by simp
  have eq: "(if drop 1 q = [] then [] else CHR ''?'' # percent_encode query_kept (drop 1 q)) = q"
    "(if drop 1 f = [] then [] else CHR ''#'' # percent_encode fragment_kept (drop 1 f)) = f"
    using q f by (elim query_part_cases fragment_part_cases; simp add: percent_encode_id)+
  show ?thesis
    unfolding locator_def Let_def conjunct1[OF tw] conjunct2[OF tw] query_part_rest[OF q f] body segs eq ..
qed

lemma locator_fixed: "locator b (url_ref (locator h s)) = (locator h s)\<lparr>url_host := b\<rparr>"
proof (rule locator_parts[of h s])
  fix ss assume p: "url_pathname (locator h s) = path_text ss" "ss \<noteq> []" "list_all plain_segment ss"
    and q: "query_part (url_search (locator h s))" and f: "fragment_part (url_hash (locator h s))"
  show ?thesis
    unfolding url_ref_def p(1) locator_of_parts[OF p(2,3) q f] by (rule url.equality) (simp_all add: p(1))
qed

lemma url_text_kept: "list_all (\<lambda>c. 32 < code c) s \<Longrightarrow> url_text s = s"
proof -
  assume s: "list_all (\<lambda>c. 32 < code c) s"
  have "dropWhile (\<lambda>c. code c \<le> 32) t = t" if "list_all (\<lambda>c. 32 < code c) t" for t
    using that by (cases t) auto
  then have "strip (\<lambda>c. code c \<le> 32) s = s" using s by (simp add: strip_def list_all_iff)
  then show ?thesis using s by (auto simp: url_text_def list_all_iff filter_id_conv)
qed

lemma resolve_parts:
  assumes p: "ss \<noteq> []" "list_all plain_segment ss" and q: "query_part q" and f: "fragment_part f"
    and two: "\<not> starts_with (path_text ss) ''//''"
  shows "resolve_url host_of b (path_text ss @ q @ f) = Some \<lparr>url_host = b, url_pathname = path_text ss, url_search = q, url_hash = f\<rparr>"
proof -
  have "list_all (\<lambda>c. 32 < code c) (path_text ss)" using path_text_chars[OF p(2)] by (auto simp: list_all_iff path_kept_def)
  then have t: "url_text (path_text ss @ q @ f) = path_text ss @ q @ f"
    using q f by (intro url_text_kept) (elim query_part_cases fragment_part_cases, auto simp: list_all_iff query_kept_def fragment_kept_def)
  obtain r where r: "path_text ss = CHR ''/'' # r" using p(1) by (cases ss) (auto simp: path_text_def)
  have no: "\<not> slash_char d" if "r = d # r'" for d r'
  proof
    assume d: "slash_char d"
    have "d \<noteq> CHR ''/''" using two that r by (auto simp: starts_with_def)
    moreover have "d \<in> set (path_text ss)" unfolding r that by simp
    ultimately have "d \<in> \<Union> (set ` set ss)" by (auto simp: path_text_def split: if_splits)
    then show False using d p(2) by (auto simp: plain_segment_def list_all_iff)
  qed
  show ?thesis
  proof (cases r)
    case Nil
    then show ?thesis using q f t locator_of_parts[OF p q f, of b] unfolding resolve_url_def r Nil
      by (elim query_part_cases fragment_part_cases) (simp_all add: slash_char_def)
  next
    case (Cons d r')
    then show ?thesis using no[OF Cons] t locator_of_parts[OF p q f, of b] unfolding resolve_url_def r Cons by simp
  qed
qed

lemma resolve_url_fixed:
  assumes "\<not> starts_with (url_pathname (locator h s)) ''//''"
  shows "resolve_url host_of b (url_ref (locator h s)) = Some ((locator h s)\<lparr>url_host := b\<rparr>)"
proof (rule locator_parts[of h s])
  fix ss assume p: "url_pathname (locator h s) = path_text ss" "ss \<noteq> []" "list_all plain_segment ss"
    and q: "query_part (url_search (locator h s))" and f: "fragment_part (url_hash (locator h s))"
  have "\<not> starts_with (path_text ss) ''//''" using assms by (simp add: p(1))
  note R = resolve_parts[OF p(2,3) q f this]
  show ?thesis unfolding url_ref_def p(1) R by (rule arg_cong[of _ _ Some], rule url.equality) (simp_all add: p(1))
qed

end
