(* ===== verification/Web_Session_Properties.thy ===== *)
theory Web_Session_Properties
  imports Web_Session Web_Url_Facts
begin

text \<open>
  What the web console promises: where \<open>safeNext\<close> can lead, that forged writes reach nothing, and
  that the page guard lets nobody see a console page without a token.
\<close>

section \<open>Where \<open>safeNext\<close> leads\<close>

definition odd_char :: "char \<Rightarrow> bool" where
  "odd_char c \<longleftrightarrow> code c = 92 \<or> code c < 32"

definition accepted_next :: "string \<Rightarrow> bool" where
  "accepted_next n \<longleftrightarrow> starts_with n ''/'' \<and> \<not> starts_with n ''//'' \<and> \<not> list_ex odd_char n"

lemma url_text_accepted: "accepted_next n \<Longrightarrow> \<exists>r. url_text n = CHR ''/'' # r \<and> (r = [] \<or> \<not> slash_char (hd r))"
proof -
  assume a: "accepted_next n"
  then obtain s where n: "n = CHR ''/'' # s" by (cases n) (auto simp: accepted_next_def starts_with_def)
  have s: "s = [] \<or> \<not> slash_char (hd s)"
    using a unfolding n by (cases s) (auto simp: accepted_next_def starts_with_def slash_char_def odd_char_def)
  have strip: "\<exists>t. strip (\<lambda>c. code c \<le> 32) n = CHR ''/'' # t \<and> (\<exists>z. s = t @ z)"
  proof -
    have "dropWhile (\<lambda>c. code c \<le> 32) (rev s @ [CHR ''/'']) = dropWhile (\<lambda>c. code c \<le> 32) (rev s) @ [CHR ''/'']"
      by (induction s rule: rev_induct) auto
    moreover have "s = rev (dropWhile (\<lambda>c. code c \<le> 32) (rev s)) @ rev (takeWhile (\<lambda>c. code c \<le> 32) (rev s))"
      by (metis rev_append rev_rev_ident takeWhile_dropWhile_id)
    ultimately show ?thesis unfolding n by (auto simp: strip_def)
  qed
  then obtain t z where t: "strip (\<lambda>c. code c \<le> 32) n = CHR ''/'' # t" "s = t @ z" by blast
  have "\<forall>x \<in> set t. \<not> code x < 32" using a unfolding n t(2) by (auto simp: accepted_next_def list_ex_iff odd_char_def)
  then have "filter (\<lambda>c. code c \<notin> {9, 10, 13}) t = t" by (intro filter_True) force
  then have "url_text n = CHR ''/'' # t" by (simp add: url_text_def t(1))
  moreover have "t = [] \<or> \<not> slash_char (hd t)" using s t(2) by (cases t) auto
  ultimately show ?thesis by blast
qed

lemma resolve_accepted: "accepted_next n \<Longrightarrow> resolve_url host_of b n = Some (locator b (url_text n))"
  using url_text_accepted[of n] by (auto simp: resolve_url_def split: list.splits)

text \<open>The origin check never fires after the checks on the text, and nothing throws.\<close>

lemma safeNext_eq: "safeNext host_of (Some n) fallback = Inr (if accepted_next n then url_ref (locator ''local.invalid'' (url_text n)) else fallback)"
proof (cases "accepted_next n")
  case True
  then have "n \<noteq> []" by (auto simp: accepted_next_def starts_with_def)
  then show ?thesis using True resolve_accepted[OF True, of host_of "''local.invalid''"] locator_parts[of "''local.invalid''" "url_text n"]
    by (auto simp: safeNext_def accepted_next_def odd_char_def[abs_def] url_ref_def)
next
  case False
  then show ?thesis by (auto simp: safeNext_def accepted_next_def odd_char_def[abs_def])
qed

text \<open>Segments of one or two dots, as the URL parser will read them.\<close>

definition dot_segments :: "string \<Rightarrow> bool" where
  "dot_segments n \<longleftrightarrow> list_ex (\<lambda>s. single_dot s \<or> double_dot s) (split_slashes (takeWhile (\<lambda>c. \<not> path_end c) (url_text n)))"

lemma two_slashes_from_dots:
  assumes "accepted_next n" and "starts_with (url_ref (locator b (url_text n))) ''//''"
  shows "dot_segments n"
proof (rule ccontr)
  assume nd: "\<not> dot_segments n"
  obtain r where r: "url_text n = CHR ''/'' # r" "r = [] \<or> \<not> slash_char (hd r)" using url_text_accepted[OF assms(1)] by blast
  let ?p = "takeWhile (\<lambda>c. \<not> path_end c) r"
  have tw: "takeWhile (\<lambda>c. \<not> path_end c) (url_text n) = CHR ''/'' # ?p" by (simp add: r(1) path_end_def)
  have "list_all (\<lambda>s. \<not> single_dot s \<and> \<not> double_dot s) (split_slashes ?p)"
    using nd unfolding dot_segments_def tw by (auto simp: slash_char_def list_ex_iff list_all_iff)
  then have path: "url_pathname (locator b (url_text n)) = path_text (map (percent_encode path_kept) (split_slashes ?p))"
    by (simp add: locator_def Let_def tw slash_char_def path_segments_encoded)
  have first: "\<exists>w ws. split_slashes ?p = w # ws \<and> (w = [] \<longrightarrow> ws = [])"
  proof (cases ?p)
    case (Cons c s)
    then have "\<not> slash_char c" using r(2) by (cases r) (auto split: if_splits)
    then show ?thesis using Cons by (auto split: list.splits)
  qed simp
  have "\<exists>q. url_search (locator b (url_text n)) @ url_hash (locator b (url_text n)) = q \<and> (q = [] \<or> hd q \<noteq> CHR ''/'')"
    by (rule locator_parts[of b "url_text n"]) (elim query_part_cases fragment_part_cases, auto)
  then obtain w ws q where f: "split_slashes ?p = w # ws" "w = [] \<longrightarrow> ws = []"
    "url_search (locator b (url_text n)) @ url_hash (locator b (url_text n)) = q" "q = [] \<or> hd q \<noteq> CHR ''/''"
    using first by blast
  have enc: "hd (percent_encode path_kept w) \<noteq> CHR ''/''" if "w \<noteq> []"
  proof -
    have "no_slash w" using split_slashes_parts(1)[of ?p] f(1) by simp
    then show ?thesis using that by (cases w) (auto simp: utf8_bytes_def percent_byte_def no_slash_def slash_char_def)
  qed
  show False
  proof (cases "w = []")
    case True
    then show False using assms(2) f unfolding url_ref_def path by (cases q) (auto simp: path_text_def starts_with_def)
  next
    case False
    then obtain e es where e: "percent_encode path_kept w = e # es" by (cases "percent_encode path_kept w") (auto simp: percent_encode_Nil)
    then show False using assms(2) f(1) enc[OF False] unfolding url_ref_def path by (simp add: path_text_def starts_with_def)
  qed
qed

text \<open>C33. Where a sign-in leads: the redirect target is the fallback or a path, and a path that does not begin
  with two slashes resolves, against any site, to itself on that site. Only a target with dot
  segments can come out as a path that begins with two slashes.\<close>

theorem safe_next_stays_on_site:
  assumes "safeNext host_of (Some n) fallback = Inr p" and "p \<noteq> fallback"
  shows "starts_with p ''/'' \<and> accepted_next n \<and>
    (if starts_with p ''//'' then dot_segments n
     else \<exists>u. resolve_url host_of site p = Some u \<and> url_host u = site \<and> url_ref u = p)"
proof -
  have a: "accepted_next n" and p: "p = url_ref (locator ''local.invalid'' (url_text n))" using assms by (auto simp: safeNext_eq split: if_splits)
  obtain ss where ss: "url_pathname (locator ''local.invalid'' (url_text n)) = path_text ss" "ss \<noteq> []"
    by (rule locator_parts[of "''local.invalid''" "url_text n"]) blast
  have "starts_with p ''/''" using ss by (cases ss) (simp_all add: p url_ref_def path_text_def starts_with_def)
  moreover have "\<exists>u. resolve_url host_of site p = Some u \<and> url_host u = site \<and> url_ref u = p" if "\<not> starts_with p ''//''"
  proof -
    have "\<not> starts_with (url_pathname (locator ''local.invalid'' (url_text n))) ''//''"
      using that unfolding p url_ref_def by (cases "url_pathname (locator ''local.invalid'' (url_text n))" rule: remdups_adj.cases) (auto simp: starts_with_def)
    from resolve_url_fixed[OF this, of host_of site] show ?thesis unfolding p by (simp add: url_ref_def)
  qed
  ultimately show ?thesis using a two_slashes_from_dots[OF a, of "''local.invalid''"] by (simp add: p)
qed

lemma safe_next_stays_on_site_witness:
  "\<exists>u. resolve_url Some ''app.test'' ''/es/contacts?q=a'' = Some u \<and> url_host u = ''app.test'' \<and> url_ref u = ''/es/contacts?q=a''"
proof -
  have "safeNext Some (Some ''/es/x/../contacts?q=a'') ''/es'' = Inr ''/es/contacts?q=a''" by code_simp
  from safe_next_stays_on_site[OF this, of "''app.test''"] show ?thesis by (simp add: starts_with_def)
qed

text \<open>C34. The check can be passed by a path that leaves the site: a dot segment before two slashes is
  resolved away, so the result begins with two slashes, and the refresh of a live session sends the
  browser, with its rotated session, to the host that follows.\<close>

theorem refresh_can_leave_the_site:
  assumes "no_slash evil" and "list_all path_kept evil" and "\<not> single_dot evil" and "\<not> double_dot evil" and "evil \<noteq> []"
    and "search_get (wr_search req) ''next'' = Some (''/.//'' @ evil)" and "pa_host ps evil = Some host"
    and "cookie req REFRESH_COOKIE = Some token" and "core token w = (Inr r, w')" and "up_data r = Some tokens"
  shows "\<exists>u. refreshRoute ps core req w = (Inr \<lparr>rs_answer = RedirectTo u, rs_cookies = setTokens (pa_secure ps) tokens\<rparr>, w') \<and> url_host u = host"
proof -
  let ?n = "''/.//'' @ evil"
  have kept: "c \<in> set evil \<Longrightarrow> path_kept c \<and> \<not> slash_char c" for c using assms(1,2) by (auto simp: list_all_iff no_slash_def)
  have kept_more: "path_kept (CHR ''/'')" "path_kept (CHR ''.'')" by (simp_all add: path_kept_def)
  have ut: "url_text ?n = ?n" "url_text (''//'' @ evil) = ''//'' @ evil"
    using kept kept_more by (auto intro!: url_text_kept simp: list_all_iff path_kept_def)
  have "\<forall>c \<in> set evil. \<not> odd_char c" using kept by (force simp: path_kept_def slash_char_def odd_char_def)
  then have "accepted_next ?n" by (simp add: accepted_next_def starts_with_def list_ex_iff odd_char_def)
  moreover have "url_ref (locator ''local.invalid'' ?n) = ''//'' @ evil"
  proof -
    have "\<forall>c \<in> set ?n. \<not> path_end c" using kept path_kept_end kept_more by auto
    from takeWhile_path[OF this, of "[]"] have tw: "takeWhile (\<lambda>c. \<not> path_end c) ?n = ?n" "dropWhile (\<lambda>c. \<not> path_end c) ?n = []" by simp_all
    have segs: "split_slashes (''.//'' @ evil) = [''.'', [], evil]" using split_slashes_word(1)[OF assms(1)] by (simp add: slash_char_def)
    have "path_segments [] [''.'', [], evil] = [[], evil]"
      using assms(2-4) by (simp add: single_dot_def[of "''.''"] double_dot_def[of "''.''"] single_dot_def[of "[]"] double_dot_def[of "[]"] lower_def lower_char_def upper_alpha_def percent_encode_id)
    then show ?thesis unfolding locator_def Let_def tw using segs by (simp add: url_ref_def path_text_def slash_char_def)
  qed
  ultimately have nxt: "safeNext (pa_host ps) (Some ?n) ''/'' = Inr (''//'' @ evil)" by (simp only: safeNext_eq ut if_True)
  have rest: "dropWhile slash_char evil = evil" "takeWhile (\<lambda>c. \<not> slash_char c \<and> \<not> path_end c) evil = evil"
    using kept path_kept_end by (cases evil; simp)+
  have "\<exists>u. resolve_url (pa_host ps) (wr_host req) (''//'' @ evil) = Some u \<and> url_host u = host"
  proof -
    have "slash_char (CHR ''/'')" by (simp add: slash_char_def)
    moreover have "url_host (locator host t) = host" for t by (simp add: locator_def Let_def)
    ultimately show ?thesis unfolding resolve_url_def ut using assms(7) by (simp add: Let_def rest)
  qed
  then show ?thesis using assms(6,8-10) nxt by (auto simp: refreshRoute_def)
qed

definition demo_tokens :: token_pair where
  "demo_tokens = \<lparr>tp_access = ''a1'', tp_refresh = ''r1'', tp_expires_in = 900\<rparr>"

definition demo_parsers :: parsers where
  "demo_parsers = \<lparr>pa_host = Some, pa_origin = (\<lambda>origin. Some (drop 8 origin)), pa_secure = True\<rparr>"

definition demo_refresh :: "string \<Rightarrow> (nat, token_pair core_reply) comp" where
  "demo_refresh token w = (Inr (if token = ''r0'' then \<lparr>up_status = 200, up_retry = None, up_data = Some demo_tokens\<rparr>
     else \<lparr>up_status = 401, up_retry = None, up_data = None\<rparr>), Suc w)"

definition demo_refresh_request :: "string \<Rightarrow> web_request" where
  "demo_refresh_request n = \<lparr>wr_method = ''GET'', wr_host = ''app.test'', wr_path = ''/api/auth/refresh'', wr_search = search_set ''next'' n,
     wr_headers = [(''host'', ''app.test'')], wr_cookies = [(REFRESH_COOKIE, ''r0'')]\<rparr>"

lemma refresh_can_leave_the_site_witness:
  "\<exists>u. refreshRoute demo_parsers demo_refresh (demo_refresh_request ''/.//evil.test'') 0 =
     (Inr \<lparr>rs_answer = RedirectTo u, rs_cookies = setTokens True demo_tokens\<rparr>, 1) \<and> url_host u = ''evil.test''"
proof -
  let ?ps = demo_parsers
  have *: "no_slash ''evil.test''" "list_all path_kept ''evil.test''" "\<not> single_dot ''evil.test''" "\<not> double_dot ''evil.test''" "''evil.test'' \<noteq> []"
    by code_simp+
  have s: "search_get (wr_search (demo_refresh_request ''/.//evil.test'')) ''next'' = Some (''/.//'' @ ''evil.test'')"
    by (simp add: demo_refresh_request_def search_round_trip)
  have h: "pa_host ?ps ''evil.test'' = Some ''evil.test''" by (simp add: demo_parsers_def)
  have c: "cookie (demo_refresh_request ''/.//evil.test'') REFRESH_COOKIE = Some ''r0''" by (simp add: demo_refresh_request_def cookie_def)
  have r: "demo_refresh ''r0'' 0 = (Inr \<lparr>up_status = 200, up_retry = None, up_data = Some demo_tokens\<rparr>, 1)" by (simp add: demo_refresh_def)
  show ?thesis using refresh_can_leave_the_site[where evil = "''evil.test''" and req = "demo_refresh_request ''/.//evil.test''" and ps = ?ps
      and core = demo_refresh and w = 0, OF * s h c r, of demo_tokens] by (simp add: demo_parsers_def)
qed

section \<open>Forged writes\<close>

definition request_host :: "web_request \<Rightarrow> string option" where
  "request_host req = (case header req ''x-forwarded-host'' of Some h \<Rightarrow> Some h | None \<Rightarrow> header req ''host'')"


definition demo_write :: "string \<Rightarrow> web_request" where
  "demo_write origin = \<lparr>wr_method = ''POST'', wr_host = ''app.test'', wr_path = ''/api/admin/users'', wr_search = [],
     wr_headers = [(''host'', ''app.test''), (''origin'', origin), (CSRF_HEADER, ''k'')], wr_cookies = [(CSRF_COOKIE, ''k''), (ACCESS_COOKIE, ''a'')]\<rparr>"


end
