(* ===== verification/Web_Browser.thy ===== *)
theory Web_Browser
  imports Web_Session_Properties Auth_Sessions
begin

text \<open>
  The console, the core service and a browser together. The browser is the environment: a jar of
  cookies by name and path, which sends a cookie to the paths below its own, stores what a
  response sets, drops what comes with an age of zero, and follows redirects.
\<close>

section \<open>The core behind the refresh handler\<close>

definition status_of :: "exn \<Rightarrow> nat" where
  "status_of e = (case e of HttpExc n _ \<Rightarrow> n | HttpProblems n _ \<Rightarrow> n | AccountLocked _ \<Rightarrow> 423 | _ \<Rightarrow> 500)"

definition coreRefresh :: "(string \<times> string) list \<Rightarrow> auth \<Rightarrow> string \<Rightarrow> (iworld, token_pair core_reply) comp" where
  "coreRefresh issues a token w = (case refreshEndpoint issues a (JObj [(''refresh_token'', JStr token)]) w of
     (Inr tp, w') \<Rightarrow> (Inr \<lparr>up_status = 200, up_retry = None, up_data = Some tp\<rparr>, w')
   | (Inl e, w') \<Rightarrow> (Inr \<lparr>up_status = status_of e, up_retry = None, up_data = None\<rparr>, w'))"

section \<open>The browser\<close>

type_synonym jar = "string \<times> string \<Rightarrow> string option"

definition cookie_places :: "(string \<times> string) list" where
  "cookie_places = [(ACCESS_COOKIE, ''/''), (REFRESH_COOKIE, REFRESH_PATH), (MFA_COOKIE, MFA_PATH), (CSRF_COOKIE, ''/'')]"

definition path_match :: "string \<Rightarrow> string \<Rightarrow> bool" where
  "path_match place path \<longleftrightarrow> path = place \<or> starts_with path place \<and> (ends_with place ''/'' \<or> starts_with (drop (length place) path) ''/'')"

definition sent :: "jar \<Rightarrow> string \<Rightarrow> (string \<times> string) list" where
  "sent jar path = concat (map (\<lambda>(n, p). if path_match p path then (case jar (n, p) of Some v \<Rightarrow> [(n, v)] | None \<Rightarrow> []) else []) cookie_places)"

definition keep :: "set_cookie \<Rightarrow> jar \<Rightarrow> jar" where
  "keep c jar = jar((ck_name c, ck_path c) := if ck_maxAge c = Some 0 then None else Some (ck_value c))"

definition page_request :: "jar \<Rightarrow> url \<Rightarrow> web_request" where
  "page_request jar u = \<lparr>wr_method = ''GET'', wr_host = url_host u, wr_path = url_pathname u, wr_search = url_search u,
     wr_headers = [(''host'', url_host u)], wr_cookies = sent jar (url_pathname u)\<rparr>"

record console =
  cn_parsers :: parsers
  cn_intl :: "string \<Rightarrow> url option"
  cn_uuid :: string
  cn_issues :: "(string \<times> string) list"
  cn_auth :: auth

definition serve :: "console \<Rightarrow> web_request \<Rightarrow> (iworld, web_response) comp" where
  "serve c req = (if wr_path req = ''/api/auth/refresh'' then refreshRoute (cn_parsers c) (coreRefresh (cn_issues c) (cn_auth c)) req
     else if guarded (wr_path req) then bindM (getM iw_now) (\<lambda>now. retM (middleware (cn_intl c) (pa_secure (cn_parsers c)) now (cn_uuid c) req))
     else throwM (HttpExc 404 ''Not Found''))"

fun browse :: "console \<Rightarrow> nat \<Rightarrow> jar \<Rightarrow> url \<Rightarrow> iworld \<Rightarrow> (url \<times> jar \<times> iworld) option" where
  "browse c 0 jar u w = None"
| "browse c (Suc n) jar u w = (case serve c (page_request jar u) w of
     (Inl e, w') \<Rightarrow> None
   | (Inr resp, w') \<Rightarrow> (let jar' = fold keep (rs_cookies resp) jar in case rs_answer resp of
       RedirectTo u' \<Rightarrow> if url_host u' = url_host u then browse c n jar' u' w' else Some (u', jar', w')
     | _ \<Rightarrow> Some (u, jar', w')))"

section \<open>What the console sets\<close>

lemma map_of_stored: "map_of ((case v of Some x \<Rightarrow> [(n, x)] | None \<Rightarrow> []) @ r) k = (if k = n \<and> v \<noteq> None then v else map_of r k)"
  by (cases v) auto

lemma map_of_sent: "map_of ((if b then l else []) @ r) k = (if b then map_of (l @ r) k else map_of r k)"
  by simp

lemmas sent_parts = sent_def cookie_places_def list.map concat.simps prod.case map_of_sent map_of_stored

lemma sent_access [simp]: "map_of (sent jar p) ACCESS_COOKIE = (if path_match ''/'' p then jar (ACCESS_COOKIE, ''/'') else None)"
  by (simp only: sent_parts) (simp add: ACCESS_COOKIE_def REFRESH_COOKIE_def MFA_COOKIE_def CSRF_COOKIE_def)

lemma sent_refresh [simp]: "map_of (sent jar p) REFRESH_COOKIE = (if path_match REFRESH_PATH p then jar (REFRESH_COOKIE, REFRESH_PATH) else None)"
  by (simp only: sent_parts) (simp add: ACCESS_COOKIE_def REFRESH_COOKIE_def MFA_COOKIE_def CSRF_COOKIE_def)

lemma match_root [simp]: "path_match ''/'' (CHR ''/'' # p)"
  by (simp add: path_match_def starts_with_def ends_with_def)

lemma match_refresh [simp]: "path_match ''/'' ''/api/auth/refresh''" "path_match REFRESH_PATH ''/api/auth/refresh''"
  by (simp_all add: path_match_def starts_with_def ends_with_def REFRESH_PATH_def)

lemma coreRefresh_apply: "token \<noteq> [] \<Longrightarrow> length token \<le> 200 \<Longrightarrow> coreRefresh issues a token w = (case refresh a token w of
     (Inr tp, w') \<Rightarrow> (Inr \<lparr>up_status = 200, up_retry = None, up_data = Some tp\<rparr>, w')
   | (Inl e, w') \<Rightarrow> (Inr \<lparr>up_status = status_of e, up_retry = None, up_data = None\<rparr>, w'))"
  by (cases token) (simp_all add: coreRefresh_def refreshEndpoint_def refreshBody_def parseAuth_def parseSized_def obj_get_def)

section \<open>An expired session\<close>

text \<open>A page of the console, as the browser asks for it.\<close>

definition console_page :: "console \<Rightarrow> url \<Rightarrow> bool" where
  "console_page c u \<longleftrightarrow> (\<exists>h s. u = (locator h s)\<lparr>url_hash := []\<rparr>) \<and> \<not> starts_with (url_pathname u) ''//'' \<and> list_all (\<lambda>x. code x \<noteq> 92) (url_search u) \<and>
     guarded (url_pathname u) \<and> cn_intl c (url_pathname u) = None \<and>
     (\<forall>p. page_segment (url_pathname u) = Some p \<longrightarrow> p \<notin> set PUBLIC_PAGES)"

lemma console_page_ref:
  assumes "console_page c u"
  shows "accepted_next (url_pathname u @ url_search u)" and "url_ref (locator b (url_text (url_pathname u @ url_search u))) = url_pathname u @ url_search u"
    and "resolve_url host_of (url_host u) (url_pathname u @ url_search u) = Some u" and "\<exists>p. url_pathname u = CHR ''/'' # p"
proof -
  obtain h s where u: "u = (locator h s)\<lparr>url_hash := []\<rparr>" and two: "\<not> starts_with (url_pathname u) ''//''"
    and bs: "list_all (\<lambda>x. code x \<noteq> 92) (url_search u)" using assms by (auto simp: console_page_def)
  obtain ss where p: "url_pathname u = path_text ss" "ss \<noteq> []" "list_all plain_segment ss" and q: "query_part (url_search u)"
  proof (rule locator_parts[of h s])
    fix ss assume "url_pathname (locator h s) = path_text ss" "ss \<noteq> []" "list_all plain_segment ss" "query_part (url_search (locator h s))"
    then show ?thesis by (intro that[of ss]) (simp_all add: u)
  qed
  have f: "fragment_part []" by (simp add: fragment_part_def)
  have "\<not> starts_with (path_text ss) ''//''" using two p(1) by simp
  note res = resolve_parts[OF p(2,3) q f this]
  have R: "resolve_url ho b (url_pathname u @ url_search u) = Some (u\<lparr>url_host := b\<rparr>)" for ho b
  proof -
    have "\<lparr>url_host = b, url_pathname = path_text ss, url_search = url_search u, url_hash = []\<rparr> = u\<lparr>url_host := b\<rparr>" for b
      by (rule url.equality) (simp_all add: p(1)[symmetric], simp_all add: u)
    then show ?thesis using res[of ho b] by (simp add: p(1))
  qed
  show "resolve_url host_of (url_host u) (url_pathname u @ url_search u) = Some u" using R[of host_of "url_host u"] by simp
  show path: "\<exists>p. url_pathname u = CHR ''/'' # p" using p by (cases ss) (simp_all add: path_text_def)
  have "\<not> odd_char x" if "x \<in> set (path_text ss)" for x
  proof -
    have "\<forall>s \<in> set ss. \<forall>c \<in> set s. code c \<noteq> 92" using p(3) by (simp add: list_all_iff plain_segment_def slash_char_def)
    then have "code x \<noteq> 92" using that by (auto simp: path_text_def split: if_splits)
    then show ?thesis using path_text_chars[OF p(3) that] by (simp add: odd_char_def path_kept_def)
  qed
  moreover have "\<not> odd_char x" if "x \<in> set (url_search u)" for x
  proof -
    have "\<forall>c. query_kept c \<longrightarrow> 32 < code c" by (simp add: query_kept_def)
    then have "32 < code x" using that q by (elim query_part_cases) (auto simp: list_all_iff)
    then show ?thesis using that bs by (simp add: list_all_iff odd_char_def)
  qed
  ultimately have odd: "\<not> list_ex odd_char (url_pathname u @ url_search u)" by (auto simp: list_ex_iff p(1))
  have two': "\<not> starts_with (url_pathname u @ url_search u) ''//''"
  proof -
    obtain r where r: "path_text ss = CHR ''/'' # r" using path p(1) by auto
    have "url_search u = [] \<or> hd (url_search u) = CHR ''?''" using q by (elim query_part_cases) simp_all
    then show ?thesis using two unfolding p(1) r by (cases r; cases "url_search u") (auto simp: starts_with_def)
  qed
  show acc: "accepted_next (url_pathname u @ url_search u)"
    using odd two' path by (auto simp: accepted_next_def starts_with_def)
  from resolve_accepted[OF this, of Some b] R[of Some b]
  have "locator b (url_text (url_pathname u @ url_search u)) = u\<lparr>url_host := b\<rparr>" by simp
  moreover have "url_hash u = []" by (simp add: u)
  ultimately show "url_ref (locator b (url_text (url_pathname u @ url_search u))) = url_pathname u @ url_search u"
    by (simp add: url_ref_def)
qed

lemma console_page_next: "console_page c u \<Longrightarrow> safeNext host_of (Some (url_pathname u @ url_search u)) fallback = Inr (url_pathname u @ url_search u)"
  using console_page_ref(1)[of c u] console_page_ref(2)[of c u "''local.invalid''"] by (simp add: safeNext_eq)

definition after_page :: "console \<Rightarrow> jar \<Rightarrow> url \<Rightarrow> jar" where
  "after_page c jar u = fold keep (ensureCsrfCookie (pa_secure (cn_parsers c)) (cn_uuid c) (page_request jar u)) jar"

lemma cookie_page: "cookie (page_request jar u) k = (case map_of (sent jar (url_pathname u)) k of Some (x # v) \<Rightarrow> Some (x # v) | _ \<Rightarrow> None)"
  by (simp add: cookie_def page_request_def)

lemma header_page: "header (page_request jar u) ''next-router-prefetch'' = None"
  by (simp add: header_def page_request_def)

lemma not_refresh_page: "console_page c u \<Longrightarrow> url_pathname u \<noteq> ''/api/auth/refresh''"
  by (auto simp: console_page_def guarded_def starts_with_def)

text \<open>A console page by a browser whose access token is alive, and by one whose token has expired.\<close>

lemma serve_live:
  assumes "console_page c u" and "jar (ACCESS_COOKIE, ''/'') = Some t" and "t \<noteq> []" and "\<not> tokenExpired 30 (iw_now w) t"
  shows "browse c (Suc n) jar u w = Some (u, after_page c jar u, w)"
proof -
  obtain p where p: "url_pathname u = CHR ''/'' # p" using console_page_ref(4)[OF assms(1)] by blast
  have k: "cookie (page_request jar u) ACCESS_COOKIE = Some t" using assms(2,3) by (cases t) (simp_all add: cookie_page p)
  have m: "middleware (cn_intl c) (pa_secure (cn_parsers c)) (iw_now w) (cn_uuid c) (page_request jar u) =
      \<lparr>rs_answer = Page, rs_cookies = ensureCsrfCookie (pa_secure (cn_parsers c)) (cn_uuid c) (page_request jar u)\<rparr>"
    using assms(1,4) k unfolding middleware_def Let_def by (simp add: console_page_def page_request_def split: option.splits)
  have g: "guarded (url_pathname u)" using assms(1) by (simp add: console_page_def)
  have "serve c (page_request jar u) w = (Inr (middleware (cn_intl c) (pa_secure (cn_parsers c)) (iw_now w) (cn_uuid c) (page_request jar u)), w)"
    using g not_refresh_page[OF assms(1)] by (simp add: serve_def) (simp add: page_request_def bindM_def)
  then show ?thesis unfolding m by (simp add: after_page_def Let_def)
qed

definition refresh_url :: "url \<Rightarrow> url" where
  "refresh_url u = \<lparr>url_host = url_host u, url_pathname = ''/api/auth/refresh'', url_search = search_set ''next'' (url_pathname u @ url_search u), url_hash = []\<rparr>"

lemma serve_expired:
  assumes "console_page c u" and "jar (ACCESS_COOKIE, ''/'') = Some t" and "t \<noteq> []" and "tokenExpired 30 (iw_now w) t"
  shows "browse c (Suc n) jar u w = browse c n jar (refresh_url u) w"
proof -
  obtain p where p: "url_pathname u = CHR ''/'' # p" using console_page_ref(4)[OF assms(1)] by blast
  have k: "cookie (page_request jar u) ACCESS_COOKIE = Some t" using assms(2,3) by (cases t) (simp_all add: cookie_page p)
  have m: "middleware (cn_intl c) (pa_secure (cn_parsers c)) (iw_now w) (cn_uuid c) (page_request jar u) =
      \<lparr>rs_answer = RedirectTo (refresh_url u), rs_cookies = []\<rparr>"
    using assms(1,4) k header_page[of jar u] unfolding middleware_def Let_def
    by (simp add: console_page_def with_next_def own_url_def refresh_url_def) (simp add: page_request_def with_next_def own_url_def split: option.splits)
  have g: "guarded (url_pathname u)" using assms(1) by (simp add: console_page_def)
  have "serve c (page_request jar u) w = (Inr (middleware (cn_intl c) (pa_secure (cn_parsers c)) (iw_now w) (cn_uuid c) (page_request jar u)), w)"
    using g not_refresh_page[OF assms(1)] by (simp add: serve_def) (simp add: page_request_def bindM_def)
  then show ?thesis unfolding m by (simp add: refresh_url_def Let_def)
qed

definition login_url :: "url \<Rightarrow> url" where
  "login_url u = with_next (url_pathname u @ url_search u) \<lparr>url_host = url_host u, url_pathname = ''/'' @ localeOf (url_pathname u @ url_search u) @ ''/login'', url_search = [], url_hash = []\<rparr>"

lemma serve_refresh:
  assumes "console_page c u" and "jar (REFRESH_COOKIE, REFRESH_PATH) = Some token" and "token \<noteq> []" and "length token \<le> 200"
  shows "browse c (Suc n) jar (refresh_url u) w = (case refresh (cn_auth c) token w of
      (Inr tp, w') \<Rightarrow> browse c n (fold keep (setTokens (pa_secure (cn_parsers c)) tp) jar) u w'
    | (Inl e, w') \<Rightarrow> browse c n (fold keep (clearSession (pa_secure (cn_parsers c))) jar) (login_url u) w')"
proof -
  let ?r = "page_request jar (refresh_url u)"
  have h: "url_host (refresh_url u) = url_host u" "wr_host ?r = url_host u" by (simp_all add: refresh_url_def page_request_def)
  have k: "cookie ?r REFRESH_COOKIE = Some token" using assms(2,3) by (cases token) (simp_all add: cookie_page refresh_url_def)
  have q: "search_get (wr_search ?r) ''next'' = Some (url_pathname u @ url_search u)"
    by (simp add: page_request_def refresh_url_def search_round_trip)
  have s: "serve c ?r = refreshRoute (cn_parsers c) (coreRefresh (cn_issues c) (cn_auth c)) ?r"
    by (simp add: serve_def) (simp add: page_request_def refresh_url_def)
  obtain x w' where x: "refresh (cn_auth c) token w = (x, w')" by fastforce
  show ?thesis
  proof (cases x)
    case (Inl e)
    have "serve c ?r w = (Inr \<lparr>rs_answer = RedirectTo (login_url u), rs_cookies = clearSession (pa_secure (cn_parsers c))\<rparr>, w')"
      using x Inl unfolding s refreshRoute_def q k console_page_next[OF assms(1)]
      by (simp add: coreRefresh_apply[OF assms(3,4)] bindM_def login_url_def own_url_def h(2))
    then show ?thesis using x Inl h(1) by (simp add: login_url_def with_next_def Let_def)
  next
    case (Inr tp)
    have "serve c ?r w = (Inr \<lparr>rs_answer = RedirectTo u, rs_cookies = setTokens (pa_secure (cn_parsers c)) tp\<rparr>, w')"
      using x Inr console_page_ref(3)[OF assms(1)] unfolding s refreshRoute_def q k console_page_next[OF assms(1)]
      by (simp add: coreRefresh_apply[OF assms(3,4)] bindM_def h(2))
    then show ?thesis using x Inr h(1) by (simp add: Let_def)
  qed
qed

lemma after_page_session: "after_page c jar u (ACCESS_COOKIE, ''/'') = jar (ACCESS_COOKIE, ''/'')" "after_page c jar u (REFRESH_COOKIE, REFRESH_PATH) = jar (REFRESH_COOKIE, REFRESH_PATH)"
  by (simp_all add: after_page_def ensureCsrfCookie_def keep_def base_cookie_def CSRF_COOKIE_def ACCESS_COOKIE_def REFRESH_COOKIE_def)

lemma stored_session: "fold keep (setTokens b tp) jar (ACCESS_COOKIE, ''/'') = Some (tp_access tp)" "fold keep (setTokens b tp) jar (REFRESH_COOKIE, REFRESH_PATH) = Some (tp_refresh tp)"
    "fold keep (clearSession b) jar (ACCESS_COOKIE, ''/'') = None" "fold keep (clearSession b) jar (REFRESH_COOKIE, REFRESH_PATH) = None"
  by (simp_all add: setTokens_def clearSession_def keep_def base_cookie_def ACCESS_COOKIE_def REFRESH_COOKIE_def MFA_COOKIE_def)

lemma login_page: "guarded (url_pathname (login_url u))" "page_segment (url_pathname (login_url u)) = Some ''login''"
    "url_pathname (login_url u) \<noteq> ''/api/auth/refresh''"
proof -
  have "localeOf (url_pathname u @ url_search u) = ''es'' \<or> localeOf (url_pathname u @ url_search u) = ''pt'' \<or> localeOf (url_pathname u @ url_search u) = ''en''"
    by (auto simp: localeOf_def Let_def LOCALE_SEGMENTS_def)
  then show "guarded (url_pathname (login_url u))" "page_segment (url_pathname (login_url u)) = Some ''login''"
    "url_pathname (login_url u) \<noteq> ''/api/auth/refresh''"
    by (elim disjE; simp add: login_url_def with_next_def guarded_def starts_with_def page_segment_def)+
qed

lemma serve_login:
  assumes "cn_intl c (url_pathname (login_url u)) = None"
  shows "browse c (Suc n) jar (login_url u) w = Some (login_url u, after_page c jar (login_url u), w)"
proof -
  let ?r = "page_request jar (login_url u)"
  have p: "wr_path ?r = url_pathname (login_url u)" by (simp add: page_request_def)
  have "serve c ?r w = (Inr \<lparr>rs_answer = Page, rs_cookies = ensureCsrfCookie (pa_secure (cn_parsers c)) (cn_uuid c) ?r\<rparr>, w)"
    unfolding serve_def p using login_page[of u] assms
    by (simp add: bindM_def middleware_def Let_def p PUBLIC_PAGES_def)
  then show ?thesis by (simp add: after_page_def Let_def)
qed

text \<open>The access token a refresh issues carries its time of expiry, when the signing library writes a
  payload into the token the way the page guard reads it.\<close>

definition readable_exp :: "auth \<Rightarrow> int \<Rightarrow> bool" where
  "readable_exp a s \<longleftrightarrow> (\<forall>kid key p. obj_get p ''exp'' = Some (JNum (int_num (s + ACCESS_TTL))) \<longrightarrow>
     token_exp (cr_jws (ax_crypto a) kid key p) = Some (int_num (s + ACCESS_TTL)))"

lemma refresh_token_alive:
  assumes "refresh a token w = (Inr tp, w')" and "readable_exp a (iw_now w div 1000)"
  shows "tp_access tp \<noteq> []" and "\<not> tokenExpired 30 (iw_now w') (tp_access tp)"
proof -
  obtain u f w1 where r: "rotate a token w = (Inr (u, f), w1)" and i: "issue a u f (iw_now w) w1 = (Inr tp, w')"
    using assms(1) by (auto simp: refresh_def bindM_Inr)
  have n: "iw_now w1 = iw_now w" using r by (cases rule: rotate_cases) (simp_all add: rotated_world_def)
  have exp: "obj_get (payload (ax_signer a) (user_claims u ps) ACCESS_TTL s) ''exp'' = Some (JNum (int_num (s + ACCESS_TTL)))" for ps s
    by (simp add: payload_def user_claims_def obj_get_def)
  have e: "token_exp (tp_access tp) = Some (int_num (iw_now w div 1000 + ACCESS_TTL))"
    using issue_Inr[OF i] assms(2) exp by (simp add: readable_exp_def n)
  have "iw_now w' = iw_now w" using issue_Inr[OF i] n by simp
  moreover have "iw_now w + 30000 < (iw_now w div 1000 + ACCESS_TTL) * 1000" by (simp add: ACCESS_TTL_def)
  ultimately show "\<not> tokenExpired 30 (iw_now w') (tp_access tp)" by (simp add: tokenExpired_def e)
  have "token_exp [] = None" by (simp add: token_exp_def payload_text_def)
  then show "tp_access tp \<noteq> []" using e by auto
qed

text \<open>C36. A page asked for with an expired access token comes back within two redirects: when the core
  accepts the browser's refresh token the browser is on the page it asked for, holding the new
  pair; when the core refuses it, on the sign-in page of the page's locale, which knows the page,
  and holding neither token. \<open>readable_exp\<close> is the compact form of a signed token.\<close>

theorem expired_session_returns_to_its_page:
  assumes "console_page c u" and "cn_intl c (url_pathname (login_url u)) = None" and "readable_exp (cn_auth c) (iw_now w div 1000)"
    and "jar (ACCESS_COOKIE, ''/'') = Some old" and "old \<noteq> []" and "tokenExpired 30 (iw_now w) old"
    and "jar (REFRESH_COOKIE, REFRESH_PATH) = Some token" and "token \<noteq> []" and "length token \<le> 200"
  shows "case refresh (cn_auth c) token w of
      (Inr tp, w') \<Rightarrow> \<exists>jar'. browse c 3 jar u w = Some (u, jar', w') \<and> jar' (ACCESS_COOKIE, ''/'') = Some (tp_access tp) \<and>
           jar' (REFRESH_COOKIE, REFRESH_PATH) = Some (tp_refresh tp)
    | (Inl e, w') \<Rightarrow> \<exists>jar'. browse c 3 jar u w = Some (login_url u, jar', w') \<and>
        search_get (url_search (login_url u)) ''next'' = Some (url_pathname u @ url_search u) \<and>
        jar' (ACCESS_COOKIE, ''/'') = None \<and> jar' (REFRESH_COOKIE, REFRESH_PATH) = None"
proof -
  have three: "browse c 3 jar u w = browse c (Suc (Suc (Suc 0))) jar u w" by (simp add: numeral_3_eq_3)
  note steps = three serve_expired[where jar = jar, OF assms(1,4-6)] serve_refresh[where jar = jar, OF assms(1,7-9)]
  obtain x w' where x: "refresh (cn_auth c) token w = (x, w')" by fastforce
  show ?thesis
  proof (cases x)
    case (Inl e)
    then show ?thesis unfolding steps x
      by (simp add: serve_login[OF assms(2)] after_page_session stored_session del: browse.simps) (simp add: login_url_def with_next_def search_round_trip)
  next
    case (Inr tp)
    then have "refresh (cn_auth c) token w = (Inr tp, w')" using x by simp
    note alive = refresh_token_alive[OF this assms(3)]
    show ?thesis using alive Inr unfolding steps x
      by (auto simp: serve_live[OF assms(1)] after_page_session stored_session simp del: browse.simps)
  qed
qed

definition web_crypto :: crypto where
  "web_crypto = demo_crypto\<lparr>cr_jws := \<lambda>kid key p. ''h.'' @ b64_encode (utf8_bytes (''{'' @ json_quote ''exp'' @ '':'' @ (case obj_get p ''exp'' of Some v \<Rightarrow> js_string v | None \<Rightarrow> []) @ ''}'')) @ ''.s''\<rparr>"

definition demo_console :: console where
  "demo_console = \<lparr>cn_parsers = demo_parsers, cn_intl = (\<lambda>p. None), cn_uuid = ''u'', cn_issues = [], cn_auth = demo_auth\<lparr>ax_crypto := web_crypto\<rparr>\<rparr>"

definition demo_page :: url where
  "demo_page = \<lparr>url_host = ''app.test'', url_pathname = ''/es/contacts'', url_search = ''?q=a'', url_hash = []\<rparr>"

definition demo_jar :: jar where
  "demo_jar = (\<lambda>_. None)((ACCESS_COOKIE, ''/'') := Some ''old'', (REFRESH_COOKIE, REFRESH_PATH) := Some ''secret token'')"

lemma demo_console_page: "console_page demo_console demo_page"
proof -
  have "demo_page = (locator ''app.test'' ''/es/contacts?q=a'')\<lparr>url_hash := []\<rparr>" by code_simp
  moreover have "guarded ''/es/contacts''" "page_segment ''/es/contacts'' = Some ''contacts''" by code_simp+
  moreover have f: "url_pathname demo_page = ''/es/contacts''" "url_search demo_page = ''?q=a''" by (simp_all add: demo_page_def)
  ultimately have ex: "\<exists>h s. demo_page = (locator h s)\<lparr>url_hash := []\<rparr>" and g: "guarded ''/es/contacts''" "page_segment ''/es/contacts'' = Some ''contacts''"
    by blast+
  show ?thesis unfolding console_page_def f by (intro conjI ex) (simp_all add: g demo_console_def starts_with_def code_def PUBLIC_PAGES_def)
qed

lemma expired_session_returns_to_its_page_witness:
  "(\<exists>t w' jar'. browse demo_console 3 demo_jar demo_page (demo_signed_in None) = Some (demo_page, jar', w') \<and> jar' (ACCESS_COOKIE, ''/'') = Some t) \<and>
   (\<exists>w' jar'. browse demo_console 3 demo_jar demo_page (demo_signed_in (Some 0)) = Some (login_url demo_page, jar', w') \<and> jar' (ACCESS_COOKIE, ''/'') = None)"
proof -
  let ?c = demo_console
  have i: "cn_intl ?c (url_pathname (login_url demo_page)) = None" by (simp add: demo_console_def)
  have j: "demo_jar (ACCESS_COOKIE, ''/'') = Some ''old''" "''old'' \<noteq> []" by (simp_all add: demo_jar_def ACCESS_COOKIE_def REFRESH_COOKIE_def)
  have k: "demo_jar (REFRESH_COOKIE, REFRESH_PATH) = Some ''secret token''" "''secret token'' \<noteq> []" "length ''secret token'' \<le> 200" by (simp_all add: demo_jar_def)
  have o: "tokenExpired 30 (iw_now (demo_signed_in r)) ''old''" for r by (simp add: tokenExpired_def token_exp_def payload_text_def)
  have r: "readable_exp (cn_auth ?c) (iw_now (demo_signed_in r) div 1000)" for r
  proof -
    have t: "token_exp (''h.'' @ b64_encode (utf8_bytes (''{'' @ json_quote ''exp'' @ '':'' @ js_string (JNum (int_num 900)) @ ''}'')) @ ''.s'') = Some (int_num 900)" by code_simp
    have n: "iw_now (demo_signed_in r) div 1000 + ACCESS_TTL = 900" by (simp add: demo_signed_in_def demo_iworld_def ACCESS_TTL_def)
    show ?thesis unfolding readable_exp_def n using t by (simp add: demo_console_def web_crypto_def)
  qed
  have "\<not> isl (fst (refresh (cn_auth ?c) ''secret token'' (demo_signed_in None)))" "isl (fst (refresh (cn_auth ?c) ''secret token'' (demo_signed_in (Some 0))))"
    by code_simp+
  then obtain tp w1 e w2 where "refresh (cn_auth ?c) ''secret token'' (demo_signed_in None) = (Inr tp, w1)"
    "refresh (cn_auth ?c) ''secret token'' (demo_signed_in (Some 0)) = (Inl e, w2)" by (metis isl_def obj_sumE prod.collapse)
  then show ?thesis
    using expired_session_returns_to_its_page[where jar = demo_jar, OF demo_console_page i r[of None] j o k]
      expired_session_returns_to_its_page[where jar = demo_jar, OF demo_console_page i r[of "Some 0"] j o k] by auto
qed

end
