(* ===== verification/Console_Nav.thy ===== *)
theory Console_Nav
  imports Web_Session Tenants Api_Clients
begin

text \<open>
  The navigation of the web console (\<open>apps/admin-web/src/nav\<close>, the sidebar and the shell around every
  console page), its own copy of the permission catalog, the scopes it offers for API clients, the
  permissions a contact page reads from the session token, and the texts it picks for failures. Icons and rendering are not modelled.
\<close>

section \<open>Navigation\<close>

record nav_item =
  nv_labelKey :: string
  nv_href :: string
  nv_permission :: "string option"

definition contacts_nav :: "nav_item list" where
  "contacts_nav =
    [\<lparr>nv_labelKey = ''contacts-fields.nav.contacts'', nv_href = ''/contacts'', nv_permission = Some ''contacts:view''\<rparr>,
     \<lparr>nv_labelKey = ''contacts-fields.nav.fields'', nv_href = ''/contacts/fields'', nv_permission = Some ''contacts:view''\<rparr>,
     \<lparr>nv_labelKey = ''contacts-fields.nav.lists'', nv_href = ''/contacts/lists'', nv_permission = Some ''contacts:view''\<rparr>,
     \<lparr>nv_labelKey = ''contacts-fields.nav.import'', nv_href = ''/contacts/import'', nv_permission = Some ''contacts:view''\<rparr>,
     \<lparr>nv_labelKey = ''contacts-fields.nav.exports'', nv_href = ''/contacts/exports'', nv_permission = Some ''contacts:view''\<rparr>,
     \<lparr>nv_labelKey = ''contacts-fields.nav.relational'', nv_href = ''/contacts/relational'', nv_permission = Some ''contacts:view''\<rparr>]"

definition developer_nav :: "nav_item list" where
  "developer_nav =
    [\<lparr>nv_labelKey = ''developer.credentials.navLabel'', nv_href = ''/developer/credentials'', nv_permission = Some ''api_clients:view''\<rparr>,
     \<lparr>nv_labelKey = ''developer.audit.navLabel'', nv_href = ''/developer/audit'', nv_permission = Some ''audit_log:view''\<rparr>]"

definition platform_nav :: "nav_item list" where
  "platform_nav = [\<lparr>nv_labelKey = ''nav.tenants'', nv_href = ''/platform/tenants'', nv_permission = Some ''platform:admin''\<rparr>]"

definition settings_nav :: "nav_item list" where
  "settings_nav =
    [\<lparr>nv_labelKey = ''settings.nav.users'', nv_href = ''/settings/users'', nv_permission = Some ''users:view''\<rparr>,
     \<lparr>nv_labelKey = ''settings.nav.roles'', nv_href = ''/settings/roles'', nv_permission = Some ''roles:view''\<rparr>]"

text \<open>The aggregation \<open>scripts/codegen/nav.mjs\<close> writes: the features' entries by file name.\<close>

definition navItems :: "nav_item list" where
  "navItems = contacts_nav @ developer_nav @ platform_nav @ settings_nav"

definition filterNavByPermission :: "nav_item list \<Rightarrow> string list option \<Rightarrow> nav_item list" where
  "filterNavByPermission items granted = (case granted of None \<Rightarrow> items
     | Some ps \<Rightarrow> filter (\<lambda>i. case nv_permission i of None \<Rightarrow> True | Some p \<Rightarrow> List.member ps p) items)"

text \<open>The outer option of \<open>permissions\<close> is a property that is not passed, the inner one \<open>null\<close>.\<close>

definition sidebar :: "string list option option \<Rightarrow> nav_item list" where
  "sidebar permissions = filterNavByPermission navItems (case permissions of None \<Rightarrow> Some [] | Some g \<Rightarrow> g)"

definition consoleShell :: "nav_item list" where
  "consoleShell = sidebar None"

section \<open>Permissions\<close>

definition console_modules :: "string list" where
  "console_modules = [''platform'', ''identity'', ''contacts'', ''events'', ''segments'', ''email'', ''campaigns'', ''automation'',
     ''predict'', ''channels'', ''analytics'', ''loyalty'', ''integrations'']"

definition console_actions :: "string list" where
  "console_actions = [''view'', ''edit'', ''launch'', ''admin'']"

definition DEFAULT_ROLE_NAMES :: "string list" where
  "DEFAULT_ROLE_NAMES = [''Admin'', ''Marketer'', ''Viewer'']"

definition isDefaultRole :: "string \<Rightarrow> bool" where
  "isDefaultRole name = List.member DEFAULT_ROLE_NAMES name"

definition permissionKey :: "string \<Rightarrow> string \<Rightarrow> string" where
  "permissionKey m a = m @ '':'' @ a"

definition AVAILABLE_SCOPES :: "string list" where
  "AVAILABLE_SCOPES = [''contacts:view'', ''contacts:edit'', ''segments:view'', ''campaigns:view'', ''campaigns:launch'',
     ''automation:view'', ''automation:edit'', ''jobs:view'']"

text \<open>The permissions of the session token, as the contact page reads them: the \<open>perms\<close> array of the payload, unchecked.\<close>

definition permissionsOf :: "string option \<Rightarrow> json list" where
  "permissionsOf jwt = (case jwt of None \<Rightarrow> [] | Some t \<Rightarrow> (case payload_text t of None \<Rightarrow> [] | Some p \<Rightarrow> (case parse_json p of None \<Rightarrow> []
     | Some v \<Rightarrow> (case obj_get v ''perms'' of Some (JArr ps) \<Rightarrow> ps | _ \<Rightarrow> []))))"

definition contactDetailPage :: "web_request \<Rightarrow> json list" where
  "contactDetailPage req = permissionsOf (map_of (wr_cookies req) ACCESS_COOKIE)"

text \<open>\<open>permissions.includes('contacts:admin')\<close> decides whether the erasure panel is mounted.\<close>

definition showsGdprActions :: "json list \<Rightarrow> bool" where
  "showsGdprActions permissions = List.member permissions (JStr ''contacts:admin'')"

section \<open>Failures\<close>

datatype user_op = OpInvite | OpDelete | OpStatus | OpRoles

datatype user_error = DuplicateEmail | LastAdmin | GenericError

definition classifyUserError :: "user_op \<Rightarrow> nat \<Rightarrow> user_error" where
  "classifyUserError op status = (if status = 409 \<and> op = OpInvite then DuplicateEmail
     else if status = 409 \<and> (op = OpDelete \<or> op = OpStatus) then LastAdmin else GenericError)"

definition readProblemDetail :: "json option \<Rightarrow> json option" where
  "readProblemDetail e = (case e of None \<Rightarrow> None | Some v \<Rightarrow> obj_get v ''detail'')"

section \<open>Server actions\<close>

datatype invite_error = Mismatch | InvalidInput | InviteExpired | InviteNotFound | InviteRateLimited | InviteUnknown

text \<open>A form's entries; \<open>String(form.get(k) ?? '')\<close> of one.\<close>

definition form_text :: "(string \<times> string) list \<Rightarrow> string \<Rightarrow> string" where
  "form_text form k = (case map_of form k of Some v \<Rightarrow> v | None \<Rightarrow> [])"

definition inviteError :: "nat \<Rightarrow> invite_error" where
  "inviteError status = (if status = 400 then InvalidInput else if status = 404 then InviteNotFound
     else if status = 410 then InviteExpired else if status = 429 then InviteRateLimited else InviteUnknown)"

definition acceptInvitation :: "(string \<Rightarrow> string \<Rightarrow> string \<Rightarrow> ('w, 'd core_reply) comp) \<Rightarrow> string \<Rightarrow> (string \<times> string) list \<Rightarrow> ('w, invite_error option) comp" where
  "acceptInvitation core token form =
    (let name = trim (form_text form ''name''); password = form_text form ''password'' in
     if map_of form ''confirmPassword'' \<noteq> Some password then retM (Some Mismatch)
     else bindM (core token name password) (\<lambda>r. retM (case up_data r of Some _ \<Rightarrow> None | None \<Rightarrow> Some (inviteError (up_status r)))))"

datatype action_error = InvalidCode | MfaAlreadyEnabled | MfaNotEnabled | ActionUnknown

datatype enroll_state = EnrollPending string string | EnrollFailed action_error

definition sessionAuth :: "web_request \<Rightarrow> string" where
  "sessionAuth req = ''Bearer '' @ (case map_of (wr_cookies req) ACCESS_COOKIE of Some t \<Rightarrow> t | None \<Rightarrow> [])"

definition up_ok :: "'d core_reply \<Rightarrow> bool" where
  "up_ok r \<longleftrightarrow> 200 \<le> up_status r \<and> up_status r < 300"

text \<open>\<open>qr\<close> is what the QR library draws; the data of an enrolment is its URI and secret.\<close>

definition enrollMfaAction :: "(string \<Rightarrow> ('w, (string \<times> string) core_reply) comp) \<Rightarrow> (string \<Rightarrow> string) \<Rightarrow> web_request \<Rightarrow> ('w, enroll_state) comp" where
  "enrollMfaAction core qr req = bindM (core (sessionAuth req)) (\<lambda>r. retM (case up_data r of
      None \<Rightarrow> EnrollFailed (if up_status r = 409 then MfaAlreadyEnabled else ActionUnknown)
    | Some (uri, secret) \<Rightarrow> EnrollPending (qr uri) secret))"

definition confirmMfaAction :: "(string \<Rightarrow> string \<Rightarrow> ('w, 'd core_reply) comp) \<Rightarrow> web_request \<Rightarrow> (string \<times> string) list \<Rightarrow> ('w, action_error option) comp" where
  "confirmMfaAction core req form = bindM (core (sessionAuth req) (form_text form ''code'')) (\<lambda>r. retM (if up_ok r then None
     else Some (if up_status r = 400 then InvalidCode else ActionUnknown)))"

definition disableMfaAction :: "(string \<Rightarrow> string \<Rightarrow> ('w, 'd core_reply) comp) \<Rightarrow> web_request \<Rightarrow> (string \<times> string) list \<Rightarrow> ('w, action_error option) comp" where
  "disableMfaAction core req form = bindM (core (sessionAuth req) (form_text form ''code'')) (\<lambda>r. retM (if up_ok r then None
     else Some (if up_status r = 400 then InvalidCode else if up_status r = 404 then MfaNotEnabled else ActionUnknown)))"

definition updateLocaleAction :: "(string \<Rightarrow> string \<Rightarrow> ('w, 'd core_reply) comp) \<Rightarrow> web_request \<Rightarrow> (string \<times> string) list \<Rightarrow> ('w, action_error option) comp" where
  "updateLocaleAction core req form = (case map_of form ''locale'' of
      Some l \<Rightarrow> if l \<in> {''es'', ''pt'', ''en''} then bindM (core (sessionAuth req) l) (\<lambda>r. retM (if up_ok r then None else Some ActionUnknown))
        else retM (Some ActionUnknown)
    | None \<Rightarrow> retM (Some ActionUnknown))"

section \<open>What the navigation shows\<close>

definition perm_names :: "permission list \<Rightarrow> string list" where
  "perm_names ps = map (\<lambda>(m, a). permissionKey m a) ps"

lemma catalog_nav:
  assumes "set ps \<subseteq> set CATALOG"
  shows "set (filterNavByPermission navItems (Some ps)) \<subseteq> set (contacts_nav @ platform_nav)"
proof -
  have no: "''api_clients:view'' \<notin> set CATALOG" "''audit_log:view'' \<notin> set CATALOG" "''users:view'' \<notin> set CATALOG" "''roles:view'' \<notin> set CATALOG"
    by (simp_all add: CATALOG_def PERMISSION_MODULES_def PERMISSION_ACTIONS_def)
  have "\<not> List.member ps p" if "p \<notin> set CATALOG" for p using assms that by auto
  then have "filter (\<lambda>i. case nv_permission i of None \<Rightarrow> True | Some p \<Rightarrow> List.member ps p) (developer_nav @ settings_nav) = []"
    using no by (simp add: developer_nav_def settings_nav_def)
  then show ?thesis by (auto simp: filterNavByPermission_def navItems_def filter_empty_conv)
qed

text \<open>The navigation hides what core would serve: no set of permissions a tenant role can hold shows the
  users, roles, credentials or audit entries, whose permissions are not in the catalog; the permissions of the
  platform operator do not show the tenants entry; and the shell passes the sidebar no
  permissions at all, so it shows nothing to anybody.\<close>

theorem navigation_hides_what_core_serves:
  assumes "set ps \<subseteq> set CATALOG"
  shows "set (map nv_href (filterNavByPermission navItems (Some ps))) \<inter> {''/settings/users'', ''/settings/roles'', ''/developer/credentials'', ''/developer/audit''} = {} \<and>
    filterNavByPermission navItems (Some (perm_names OPERATOR_PERMISSIONS)) = [] \<and> consoleShell = []"
proof (intro conjI)
  show "set (map nv_href (filterNavByPermission navItems (Some ps))) \<inter> {''/settings/users'', ''/settings/roles'', ''/developer/credentials'', ''/developer/audit''} = {}"
  proof -
    have "set (map nv_href (filterNavByPermission navItems (Some ps))) \<subseteq> set (map nv_href (contacts_nav @ platform_nav))"
      using catalog_nav[OF assms] by auto
    moreover have "set (map nv_href (contacts_nav @ platform_nav)) \<inter> {''/settings/users'', ''/settings/roles'', ''/developer/credentials'', ''/developer/audit''} = {}"
      by (simp add: contacts_nav_def platform_nav_def)
    ultimately show ?thesis by blast
  qed
  show "filterNavByPermission navItems (Some (perm_names OPERATOR_PERMISSIONS)) = []" by code_simp
  show "consoleShell = []" by code_simp
qed

lemma navigation_hides_what_core_serves_witness:
  "length (filterNavByPermission navItems (Some (perm_names ADMIN_PERMISSIONS))) = 7 \<and>
   ''/settings/users'' \<notin> set (map nv_href (filterNavByPermission navItems (Some (perm_names ADMIN_PERMISSIONS))))"
proof -
  have "perm_names ADMIN_PERMISSIONS = CATALOG"
    by (simp add: perm_names_def permissionKey_def ADMIN_PERMISSIONS_def CATALOG_def PERMISSION_MODULES_def PERMISSION_ACTIONS_def)
  then have "set (perm_names ADMIN_PERMISSIONS) \<subseteq> set CATALOG" by simp
  moreover have "length (filterNavByPermission navItems (Some (perm_names ADMIN_PERMISSIONS))) = 7" by code_simp
  ultimately show ?thesis using navigation_hides_what_core_serves[of "perm_names ADMIN_PERMISSIONS"] by blast
qed

text \<open>The console offers a scope for API clients that the core refuses.\<close>

lemma jobs_scope_refused: "obj_get v ''scopes'' = Some (JArr (map JStr ss)) \<Longrightarrow> ''jobs:view'' \<in> set ss \<Longrightarrow> apiClientInput v = None"
proof -
  assume v: "obj_get v ''scopes'' = Some (JArr (map JStr ss))" and j: "''jobs:view'' \<in> set ss"
  have "''jobs:view'' \<notin> set CATALOG" by (simp add: CATALOG_def PERMISSION_MODULES_def PERMISSION_ACTIONS_def)
  then have "parseAll (\<lambda>x. parseScope (Some x)) (map JStr ss) = None"
    using j by (induction ss) (auto simp: parseScope_def split: option.split)
  then show ?thesis using v by (simp add: apiClientInput_def parseArray_def split: option.split)
qed

lemma console_catalog: "console_modules = PERMISSION_MODULES \<and> console_actions = PERMISSION_ACTIONS"
  by (simp add: console_modules_def console_actions_def PERMISSION_MODULES_def PERMISSION_ACTIONS_def)

end
