(* ===== verification/Console_Sign_In.thy ===== *)
theory Console_Sign_In
  imports Console_Nav Web_Session_Properties
begin

text \<open>
  The console's sign-in pages (\<open>(auth)/login\<close>, \<open>(auth)/mfa\<close>, \<open>(auth)/invite\<close>) and the page of a
  user's security settings (\<open>profile/security/security-panel.tsx\<close>): what their forms send and
  where they lead. Translated texts stand as their keys.
\<close>

section \<open>The pages\<close>

text \<open>\<open>LoginPage\<close> and \<open>MfaPage\<close> hand their form the checked target; a repeated parameter is no text.\<close>

datatype query_value = OneValue string | ManyValues "string list" | NoValue

definition signInPage :: "(string \<Rightarrow> string option) \<Rightarrow> string \<Rightarrow> query_value \<Rightarrow> exn + string" where
  "signInPage host_of locale nxt = safeNext host_of (case nxt of OneValue s \<Rightarrow> Some s | _ \<Rightarrow> None) (''/'' @ locale)"

section \<open>The forms\<close>

record auth_form =
  af_error :: "message option"
  af_expired :: bool
  af_pending :: bool

definition newAuthForm :: auth_form where
  "newAuthForm = \<lparr>af_error = None, af_expired = False, af_pending = False\<rparr>"

definition formSubmitted :: "auth_form \<Rightarrow> auth_form" where
  "formSubmitted s = s\<lparr>af_pending := True, af_error := None\<rparr>"

definition loginRequest :: "string \<Rightarrow> string \<Rightarrow> string \<Rightarrow> string \<Rightarrow> json" where
  "loginRequest email password nxt locale = JObj [(''email'', JStr email), (''password'', JStr password), (''next'', JStr nxt), (''locale'', JStr locale)]"

definition mfaRequest :: "string \<Rightarrow> string \<Rightarrow> string \<Rightarrow> json" where
  "mfaRequest totp nxt locale = JObj [(''code'', JStr totp), (''next'', JStr nxt), (''locale'', JStr locale)]"

text \<open>The end of a submission: the address the window goes to, if it does, and the form.\<close>

definition loginEnd :: "string \<Rightarrow> string \<Rightarrow> auth_result \<Rightarrow> auth_form \<Rightarrow> string option \<times> auth_form" where
  "loginEnd locale nxt r s = (case r of
      AuthNext n \<Rightarrow> (Some n, s)
    | AuthMfa \<Rightarrow> (Some (''/'' @ locale @ ''/mfa?next='' @ encodeURIComponent nxt), s)
    | AuthError e retry \<Rightarrow> (None, s\<lparr>af_error := Some (errorMessage e retry ''errors.invalid''), af_pending := False\<rparr>))"

definition mfaEnd :: "auth_result \<Rightarrow> auth_form \<Rightarrow> string option \<times> auth_form" where
  "mfaEnd r s = (case r of
      AuthNext n \<Rightarrow> (Some n, s)
    | AuthMfa \<Rightarrow> (None, s\<lparr>af_pending := False\<rparr>)
    | AuthError e retry \<Rightarrow> (None, s\<lparr>af_expired := (e = EExpired), af_error := Some (errorMessage e retry ''errors.invalidCode''), af_pending := False\<rparr>))"

text \<open>The invitation form, after an answer of its action: the link to the sign-in page, or a message.\<close>

datatype invite_view = InviteForm "string option" | InviteDone

definition invite_error_name :: "invite_error \<Rightarrow> string" where
  "invite_error_name e = (case e of Mismatch \<Rightarrow> ''mismatch'' | InvalidInput \<Rightarrow> ''invalid'' | InviteExpired \<Rightarrow> ''expired'' | InviteNotFound \<Rightarrow> ''notFound''
     | InviteRateLimited \<Rightarrow> ''rate_limited'' | InviteUnknown \<Rightarrow> ''unknown'')"

definition inviteView :: "invite_error option option \<Rightarrow> invite_view" where
  "inviteView state = (case state of
      None \<Rightarrow> InviteForm None
    | Some None \<Rightarrow> InviteDone
    | Some (Some e) \<Rightarrow> InviteForm (Some (if e = InvalidInput then ''invite.passwordHint'' else ''errors.'' @ invite_error_name e)))"

section \<open>Security settings\<close>

text \<open>An action's state is None while idle, and its error (or none) after an answer.\<close>

record security_panel =
  sp_enroll :: "enroll_state option"
  sp_confirmed :: "action_error option option"
  sp_disabled :: "action_error option option"
  sp_saved :: "action_error option option"

definition newSecurityPanel :: security_panel where
  "newSecurityPanel = \<lparr>sp_enroll = None, sp_confirmed = None, sp_disabled = None, sp_saved = None\<rparr>"

definition ERROR_KEYS :: "action_error \<Rightarrow> string" where
  "ERROR_KEYS e = (case e of InvalidCode \<Rightarrow> ''errors.invalidCode'' | MfaAlreadyEnabled \<Rightarrow> ''security.mfaAlreadyEnabled''
     | MfaNotEnabled \<Rightarrow> ''security.mfaNotEnabled'' | ActionUnknown \<Rightarrow> ''errors.unknown'')"

datatype mfa_view = MfaDone | MfaCode string string "string option" | MfaStart "string option"

definition mfaSection :: "security_panel \<Rightarrow> mfa_view" where
  "mfaSection s = (if sp_confirmed s = Some None then MfaDone
     else case sp_enroll s of
       Some (EnrollPending qr secret) \<Rightarrow> MfaCode qr secret (case sp_confirmed s of Some (Some e) \<Rightarrow> Some (ERROR_KEYS e) | _ \<Rightarrow> None)
     | Some (EnrollFailed e) \<Rightarrow> MfaStart (Some (ERROR_KEYS e))
     | None \<Rightarrow> MfaStart None)"

text \<open>The language form: after a success the page is replaced by itself in the chosen language.\<close>

definition localeSaved :: "action_error option \<Rightarrow> string \<Rightarrow> security_panel \<Rightarrow> string option \<times> security_panel" where
  "localeSaved r locale s = (if r = None then Some locale else None, s\<lparr>sp_saved := Some r\<rparr>)"

section \<open>Where a sign-in leads\<close>

definition on_site :: "(string \<Rightarrow> string option) \<Rightarrow> string \<Rightarrow> string \<Rightarrow> bool" where
  "on_site host_of site p \<longleftrightarrow> starts_with p ''/'' \<and> \<not> starts_with p ''//'' \<and> (case resolve_url host_of site p of Some u \<Rightarrow> url_host u = site \<and> url_ref u = p | None \<Rightarrow> False)"

lemma resolved_on_site:
  assumes "accepted_next p" "url_ref (locator site (url_text p)) = p"
  shows "on_site host_of site p"
proof -
  have "url_host (locator site t) = site" for t by (simp add: locator_def Let_def)
  then show ?thesis using assms resolve_accepted[OF assms(1), of host_of site] by (simp add: on_site_def accepted_next_def)
qed

lemma locale_home: "l \<in> set LOCALE_SEGMENTS \<Longrightarrow> accepted_next (''/'' @ l) \<and> url_ref (locator site (url_text (''/'' @ l))) = ''/'' @ l"
proof -
  have all: "list_all (\<lambda>l. accepted_next (''/'' @ l) \<and> url_text (''/'' @ l) = ''/'' @ l \<and> url_pathname (locator [] (''/'' @ l)) @ url_search (locator [] (''/'' @ l)) @ url_hash (locator [] (''/'' @ l)) = ''/'' @ l) LOCALE_SEGMENTS"
    by code_simp
  have "url_ref (locator site t) = url_ref (locator [] t)" for t by (simp add: locator_def Let_def url_ref_def)
  then show "l \<in> set LOCALE_SEGMENTS \<Longrightarrow> ?thesis" using all by (simp add: list_all_iff url_ref_def)
qed

text \<open>A target that has been through the check once and is accepted again comes out as it went in.\<close>

lemma normal_target:
  assumes "p = url_ref (locator h (url_text n))" "accepted_next p"
  shows "url_ref (locator site (url_text p)) = p"
proof -
  have "\<not> starts_with (url_pathname (locator h (url_text n))) ''//''"
    using assms(2) unfolding assms(1) url_ref_def accepted_next_def
    by (cases "url_pathname (locator h (url_text n))" rule: remdups_adj.cases) (auto simp: starts_with_def)
  from resolve_url_fixed[OF this, of Some site] have "resolve_url Some site p = Some ((locator h (url_text n))\<lparr>url_host := site\<rparr>)" by (simp add: assms(1))
  then have "locator site (url_text p) = (locator h (url_text n))\<lparr>url_host := site\<rparr>" using resolve_accepted[OF assms(2), of Some site] by simp
  then show ?thesis by (simp add: assms(1) url_ref_def)
qed

lemma checked_twice:
  assumes page: "signInPage host_of l q = Inr p" "l \<in> set LOCALE_SEGMENTS" and again: "safeNext host_of (Some p) (''/'' @ l') = Inr p'" "l' \<in> set LOCALE_SEGMENTS"
  shows "on_site host_of site p'"
proof (cases "accepted_next p")
  case True
  have "url_ref (locator t (url_text p)) = p" for t
  proof (cases "\<exists>n. q = OneValue n \<and> accepted_next n")
    case True
    then obtain n where "p = url_ref (locator ''local.invalid'' (url_text n))" using page(1) by (auto simp: signInPage_def safeNext_eq)
    then show ?thesis using normal_target \<open>accepted_next p\<close> by blast
  next
    case False
    then have "p = ''/'' @ l" using page(1) by (cases q) (auto simp: signInPage_def safeNext_eq, auto simp: safeNext_def)
    then show ?thesis using locale_home[OF page(2)] by simp
  qed
  then show ?thesis using again True resolved_on_site by (simp add: safeNext_eq)
next
  case False
  then show ?thesis using again locale_home[OF again(2)] resolved_on_site by (auto simp: safeNext_eq)
qed

lemma body_locale_known: "body_locale b \<in> set LOCALE_SEGMENTS"
  by (auto simp: body_locale_def localeOf_def Let_def LOCALE_SEGMENTS_def)

lemma plain_answers: "rs_answer csrfRefused \<noteq> Json (AuthNext t) n" "rs_answer (authFailure r) \<noteq> Json (AuthNext t) n" "rs_answer (json (AuthError e x) m) \<noteq> Json (AuthNext t) n"
    "rs_answer (json AuthMfa m) \<noteq> Json (AuthNext t) n"
  by (simp_all add: csrfRefused_def authFailure_def json_def Let_def)

lemma login_sends: "loginRoute ps core req b w = (Inr a, w') \<Longrightarrow> rs_answer a = Json (AuthNext t) 200 \<Longrightarrow> \<exists>tokens w0. sendTokens ps b tokens w0 = (Inr a, w')"
  by (auto simp: loginRoute_def bindM_def plain_answers split: if_splits option.splits sum.splits prod.splits login_result.splits)

lemma mfa_sends: "mfaRoute ps core req b w = (Inr a, w') \<Longrightarrow> rs_answer a = Json (AuthNext t) 200 \<Longrightarrow> \<exists>tokens w0. sendTokens ps b tokens w0 = (Inr a, w')"
  by (auto simp: mfaRoute_def bindM_def plain_answers split: if_splits option.splits sum.splits prod.splits)

lemma sent_target: "sendTokens ps b tokens w = (Inr a, w') \<Longrightarrow> rs_answer a = Json (AuthNext t) 200 \<Longrightarrow>
    safeNext (pa_host ps) (text_member b ''next'') (''/'' @ body_locale b) = Inr t"
  by (auto simp: sendTokens_def bindM_def json_def liftE_def split: sum.splits prod.splits)

text \<open>C37. Whatever target a link to the sign-in page names, signing in there leads to a page of the site:
  the target is checked when the page opens and again when the form is sent, with or without a
  second factor, and the second check refuses what the first one let out (the paths that begin
  with two slashes).\<close>

theorem signing_in_stays_on_site:
  assumes page: "signInPage (pa_host ps) l q = Inr p" "l \<in> set LOCALE_SEGMENTS"
    and answer: "loginRoute ps core req (Some (loginRequest email password p l)) w = (Inr a, w') \<or>
      mfaRoute ps verify req (Some (mfaRequest totp p l)) w = (Inr a, w')"
    and ok: "rs_answer a = Json (AuthNext target) 200"
  shows "on_site (pa_host ps) site target"
proof -
  have nxt: "text_member (Some (loginRequest email password p l)) ''next'' = Some p" "text_member (Some (mfaRequest totp p l)) ''next'' = Some p"
    by (simp_all add: text_member_def loginRequest_def mfaRequest_def obj_get_def)
  have "\<exists>b tokens w0. text_member b ''next'' = Some p \<and> sendTokens ps b tokens w0 = (Inr a, w')"
    using answer
  proof
    assume "loginRoute ps core req (Some (loginRequest email password p l)) w = (Inr a, w')"
    from login_sends[OF this ok] nxt(1) show ?thesis by blast
  next
    assume "mfaRoute ps verify req (Some (mfaRequest totp p l)) w = (Inr a, w')"
    from mfa_sends[OF this ok] nxt(2) show ?thesis by blast
  qed
  then obtain b where "safeNext (pa_host ps) (Some p) (''/'' @ body_locale b) = Inr target" using sent_target[OF _ ok] by metis
  then show ?thesis using checked_twice[OF page _ body_locale_known] by blast
qed

definition demo_sign_in :: web_request where
  "demo_sign_in = \<lparr>wr_method = ''POST'', wr_host = ''app.test'', wr_path = ''/api/auth/login'', wr_search = [],
     wr_headers = [(''origin'', ''https://app.test''), (''host'', ''app.test''), (CSRF_HEADER, ''tok'')], wr_cookies = [(CSRF_COOKIE, ''tok'')]\<rparr>"

definition demo_login :: "string \<Rightarrow> string \<Rightarrow> (nat, login_result core_reply) comp" where
  "demo_login email password w = (Inr \<lparr>up_status = 200, up_retry = None, up_data = Some (LoggedIn demo_tokens)\<rparr>, Suc w)"

lemma demo_login_answer:
  "loginRoute demo_parsers demo_login demo_sign_in (Some (loginRequest ''a@b.co'' ''pw'' ''//evil.test'' ''es'')) 0 =
    (Inr \<lparr>rs_answer = Json (AuthNext ''/es'') 200, rs_cookies = setTokens True demo_tokens\<rparr>, 1)"
proof -
  have ok: "csrfOk (pa_origin demo_parsers) demo_sign_in"
    by (simp add: csrfOk_def header_def cookie_def demo_sign_in_def demo_parsers_def CSRF_HEADER_def CSRF_COOKIE_def)
  have l: "body_locale (Some (loginRequest ''a@b.co'' ''pw'' ''//evil.test'' ''es'')) = ''es''" by code_simp
  then have ok': "csrfOk (\<lambda>origin. Some (drop 8 origin)) demo_sign_in" using ok by (simp add: demo_parsers_def)
  show ?thesis by (simp add: loginRoute_def ok' text_member_def loginRequest_def obj_get_def bindM_def demo_login_def sendTokens_def json_def safeNext_eq
    accepted_next_def starts_with_def demo_parsers_def liftE_def retM_def l[unfolded loginRequest_def])
qed

lemma signing_in_stays_on_site_witness:
  "signInPage Some ''es'' (OneValue ''/.//evil.test'') = Inr ''//evil.test'' \<and> on_site Some ''app.test'' ''/es''"
proof -
  have p: "signInPage (pa_host demo_parsers) ''es'' (OneValue ''/.//evil.test'') = Inr ''//evil.test''" by code_simp
  have l: "''es'' \<in> set LOCALE_SEGMENTS" by (simp add: LOCALE_SEGMENTS_def)
  show ?thesis using p signing_in_stays_on_site[OF p l disjI1[OF demo_login_answer], of "''/es''" "''app.test''"] by (simp add: demo_parsers_def)
qed

end
