(* ===== verification/Console_Api.thy ===== *)
theory Console_Api
  imports Web_Session
begin

text \<open>
  The calls the console's screens make through the proxy: the two \<open>api\<close> helpers of
  \<open>contacts/lists/api.ts\<close> (also used by the relational screens; \<open>contacts/fields/api.ts\<close> is the
  same without a query) and of \<open>contacts/import/api.ts\<close>. \<open>fetch\<close> is a computation over the
  world that throws when the network fails; a reply's body is None when it is not JSON.
\<close>

record browser_call =
  bc_method :: string
  bc_url :: string
  bc_headers :: "(string \<times> string) list"
  bc_body :: "json option"

record browser_reply =
  br_status :: nat
  br_json :: "json option"

record api_result =
  ar_ok :: bool
  ar_status :: nat
  ar_data :: "json option"

definition res_ok :: "browser_reply \<Rightarrow> bool" where
  "res_ok r \<longleftrightarrow> 200 \<le> br_status r \<and> br_status r < 300"

text \<open>The parameters set on a search that is empty: undefined and empty values are left out.\<close>

definition query_text :: "(string \<times> string option) list \<Rightarrow> string" where
  "query_text qs = (case concat (map (\<lambda>(k, v). case v of Some (c # t) \<Rightarrow> [form_encode k @ ''='' @ form_encode (c # t)] | _ \<Rightarrow> []) qs) of
      [] \<Rightarrow> [] | ps \<Rightarrow> ''?'' @ join_with ''&'' ps)"

definition listsCall :: "string list \<Rightarrow> string \<Rightarrow> string \<Rightarrow> (string \<times> string option) list \<Rightarrow> json option \<Rightarrow> browser_call" where
  "listsCall cookies method path query body =
    \<lparr>bc_method = method, bc_url = ''/api/admin'' @ path @ query_text query,
     bc_headers = (CSRF_HEADER, csrfToken cookies) # (case body of Some _ \<Rightarrow> [(''content-type'', ''application/json'')] | None \<Rightarrow> []),
     bc_body = body\<rparr>"

definition listsResult :: "browser_reply \<Rightarrow> exn + api_result" where
  "listsResult r = (if res_ok r \<and> br_status r \<noteq> 204
     then (case br_json r of None \<Rightarrow> Inl (PlainError ''Unexpected token'')
       | Some v \<Rightarrow> Inr \<lparr>ar_ok = True, ar_status = br_status r, ar_data = Some v\<rparr>)
     else Inr \<lparr>ar_ok = res_ok r, ar_status = br_status r, ar_data = None\<rparr>)"

definition listsApi :: "(browser_call \<Rightarrow> ('w, browser_reply) comp) \<Rightarrow> string list \<Rightarrow> string \<Rightarrow> string \<Rightarrow> (string \<times> string option) list \<Rightarrow> json option \<Rightarrow> ('w, api_result) comp" where
  "listsApi fetch cookies method path query body = bindM (fetch (listsCall cookies method path query body)) (\<lambda>r. liftE (listsResult r))"

definition fieldsApi :: "(browser_call \<Rightarrow> ('w, browser_reply) comp) \<Rightarrow> string list \<Rightarrow> string \<Rightarrow> string \<Rightarrow> json option \<Rightarrow> ('w, api_result) comp" where
  "fieldsApi fetch cookies method path body = bindM (fetch (listsCall cookies method path [] body)) (\<lambda>r. liftE (listsResult r))"

text \<open>The helper of the import screens throws on every failure; its bodies are objects, or none.\<close>

definition importApi :: "(browser_call \<Rightarrow> ('w, browser_reply) comp) \<Rightarrow> string list \<Rightarrow> string \<Rightarrow> string \<Rightarrow> json option \<Rightarrow> ('w, json) comp" where
  "importApi fetch cookies method path body = bindM (fetch (listsCall cookies method path [] body)) (\<lambda>r.
     if \<not> res_ok r then throwM (PlainError (show_nat (br_status r)))
     else case br_json r of None \<Rightarrow> throwM (PlainError ''Unexpected token'') | Some v \<Rightarrow> retM v)"

definition items_of :: "json \<Rightarrow> json list" where
  "items_of v = (case obj_get v ''items'' of Some (JArr vs) \<Rightarrow> vs | _ \<Rightarrow> [])"

text \<open>\<open>!f.deleted_at\<close>\<close>

definition not_deleted :: "json \<Rightarrow> bool" where
  "not_deleted f \<longleftrightarrow> obj_get f ''deleted_at'' \<in> {None, Some JNull, Some (JStr [])}"

definition fetchFields :: "(browser_call \<Rightarrow> ('w, browser_reply) comp) \<Rightarrow> string list \<Rightarrow> ('w, json list) comp" where
  "fetchFields fetch cookies = bindM (importApi fetch cookies ''GET'' ''/fields'' None) (\<lambda>v. retM (filter not_deleted (items_of v)))"

definition fetchLists :: "(browser_call \<Rightarrow> ('w, browser_reply) comp) \<Rightarrow> string list \<Rightarrow> ('w, json list) comp" where
  "fetchLists fetch cookies = bindM (importApi fetch cookies ''GET'' ''/lists?limit=200'' None) (\<lambda>v. retM (items_of v))"

definition fetchTables :: "(browser_call \<Rightarrow> ('w, browser_reply) comp) \<Rightarrow> string list \<Rightarrow> ('w, json list) comp" where
  "fetchTables fetch cookies = bindM (importApi fetch cookies ''GET'' ''/relational-tables?limit=200'' None) (\<lambda>v. retM (items_of v))"

text \<open>Names of a contact, for lists of members: field values that are falsy are left out.\<close>

definition truthy :: "json option \<Rightarrow> bool" where
  "truthy v \<longleftrightarrow> v \<notin> {None, Some JNull, Some (JStr []), Some (JBool False), Some (JNum (int_num 0))}"

definition fullName :: "json \<Rightarrow> string" where
  "fullName f = join_with '' '' (map (\<lambda>v. js_string (the v)) (filter truthy [obj_get f ''1'', obj_get f ''2'']))"

definition or_empty :: "json option \<Rightarrow> string" where
  "or_empty v = (case v of None \<Rightarrow> [] | Some JNull \<Rightarrow> [] | Some x \<Rightarrow> js_string x)"

definition contactLabel :: "json \<Rightarrow> string" where
  "contactLabel f = (if fullName f = [] then or_empty (obj_get f ''3'') else fullName f)"

text \<open>A call writes only with the CSRF token of its cookies, and an answer with data is a success.\<close>

lemma listsResult_data: "listsResult r = Inr x \<Longrightarrow> ar_data x \<noteq> None \<Longrightarrow> ar_ok x"
  by (auto simp: listsResult_def split: if_splits option.splits)

end
