(* ===== verification/Number_Text.thy ===== *)
theory Number_Text
  imports Js_Runtime Contacts_Write_Rows
begin

text \<open>
  \<open>Number(String(n)) = n\<close>: the text a number is written as reads back as the number, in its
  lowest form.
\<close>

definition lowest :: "jsnum \<Rightarrow> bool" where
  "lowest n \<longleftrightarrow> scale n = 0 \<or> mant n mod 10 \<noteq> 0"

lemma digit_of_read: "d < 10 \<Longrightarrow> digit_val (digit_of d) = d \<and> digit_char (digit_of d)"
  by (simp add: digit_val_def digit_of_def digit_char_def code_def)

lemma show_nat_read: "digits_nat (show_nat n) = n \<and> list_all digit_char (show_nat n) \<and> show_nat n \<noteq> []"
proof (induction n rule: less_induct)
  case (less n)
  show ?case
  proof (cases "n < 10")
    case True
    then show ?thesis using digit_of_read[of n] by (subst (1 2 3) show_nat.simps) (simp add: digits_nat_def)
  next
    case False
    then have "n div 10 < n" by simp
    from less[OF this] False show ?thesis using digit_of_read[of "n mod 10"]
      by (subst (1 2 3) show_nat.simps) (simp add: digits_nat_snoc)
  qed
qed

lemma digits_nat_zeros: "digits_nat (replicate k CHR ''0'' @ s) = digits_nat s"
proof -
  have "foldl (\<lambda>n c. 10 * n + digit_val c) 0 (replicate k CHR ''0'') = 0"
    by (induction k) (simp_all add: digit_val_def code_def)
  then show ?thesis by (simp add: digits_nat_def)
qed

lemma digit_codes: "digit_char c \<Longrightarrow> c \<noteq> CHR ''.'' \<and> c \<noteq> CHR ''-'' \<and> c \<noteq> CHR ''+'' \<and> \<not> ws_char c \<and> lower_char c = c \<and> c \<noteq> CHR ''e''"
  by (auto simp: digit_char_def ws_char_def lower_char_def upper_alpha_def code_def)

lemma index_of_none: "c \<notin> set s \<Longrightarrow> index_of c s = None"
  by (induction s) auto

lemma index_of_first: "c \<notin> set s \<Longrightarrow> index_of c (s @ c # t) = Some (length s)"
  by (induction s) auto

lemma lower_id: "list_all (\<lambda>c. lower_char c = c) s \<Longrightarrow> lower s = s"
  by (simp add: lower_def list_all_iff map_idI)

text \<open>The texts of numbers: a sign, digits, and perhaps a point and more digits.\<close>

definition sign_text :: "bool \<Rightarrow> string" where
  "sign_text neg = (if neg then ''-'' else [])"

lemma plain_mantissa:
  assumes "list_all digit_char a" "a \<noteq> []" "list_all digit_char b"
  shows "mantissa a = Some (a, [])" and "mantissa (a @ CHR ''.'' # b) = Some (a, b)"
proof -
  have no: "CHR ''.'' \<notin> set a" using assms(1) digit_codes by (auto simp: list_all_iff)
  show "mantissa a = Some (a, [])" using assms(1,2) by (simp add: mantissa_def index_of_none[OF no] is_digits_def)
  show "mantissa (a @ CHR ''.'' # b) = Some (a, b)" using assms by (simp add: mantissa_def index_of_first[OF no])
qed

lemma js_number_decimal: "trim u = u \<Longrightarrow> u \<noteq> [] \<Longrightarrow> lower (take 2 u) \<notin> {''0x'', ''0o'', ''0b''} \<Longrightarrow> js_number u = dec_literal u"
  by (simp add: js_number_def Let_def)

lemma number_of_mantissa:
  assumes t: "list_all (\<lambda>c. digit_char c \<or> c = CHR ''.'') t" and c: "t = c # r" "digit_char c" and m: "mantissa t = Some (a, b)"
  shows "js_number (sign_text neg @ t) = Some (mk_dec ((if neg then - 1 else 1) * digits_int (a @ b)) (length b))"
proof -
  let ?s = "sign_text neg @ t"
  have dot: "\<not> ws_char (CHR ''.'')" "lower_char (CHR ''.'') = CHR ''.''" "\<not> ws_char (CHR ''-'')" "lower_char (CHR ''-'') = CHR ''-''"
    by (simp_all add: ws_char_def lower_char_def upper_alpha_def code_def)
  have tc: "\<not> ws_char x \<and> lower_char x = x \<and> x \<noteq> CHR ''e'' \<and> x \<noteq> CHR ''x'' \<and> x \<noteq> CHR ''o'' \<and> x \<noteq> CHR ''b''" if "x \<in> set t" for x
    using that t digit_codes[of x] dot by (auto simp: list_all_iff digit_char_def code_def)
  have "list_all (\<lambda>c. \<not> ws_char c) ?s" using tc dot by (auto simp: sign_text_def list_all_iff)
  moreover have "dropWhile ws_char u = u" if "list_all (\<lambda>c. \<not> ws_char c) u" for u using that by (cases u) auto
  ultimately have trim: "trim ?s = ?s" by (simp add: trim_def strip_def)
  have low: "lower t = t" using tc by (intro lower_id) (simp add: list_all_iff)
  have e: "index_of (CHR ''e'') t = None" using tc by (intro index_of_none) auto
  have two: "lower (take 2 ?s) \<notin> {''0x'', ''0o'', ''0b''}"
  proof (cases neg)
    case True
    then show ?thesis using c by (simp add: sign_text_def lower_def dot)
  next
    case False
    then show ?thesis using c tc by (cases r) (auto simp: sign_text_def lower_def)
  qed
  have sign: "split_sign ?s = (neg, t)" using c digit_codes[of c] by (simp add: sign_text_def split_sign_def)
  have "dec_literal ?s = Some (mk_dec ((if neg then - 1 else 1) * digits_int (a @ b)) (length b))"
    by (simp add: dec_literal_def sign low e m Let_def is_digits_def digit_char_def code_def digits_int_def[of "''0''"] digits_nat_def digit_val_def)
  moreover have "?s \<noteq> []" using c by simp
  ultimately show ?thesis using js_number_decimal[OF trim _ two] by simp
qed

lemma mk_dec_lowest: "lowest (Dec m k) \<Longrightarrow> mk_dec m k = Dec m k"
  by (cases k) (simp_all add: lowest_def)

lemma split_last: "length s = n + k \<Longrightarrow> length (drop n s) = k \<and> take n s @ drop n s = s"
  by simp

lemma number_text: "lowest n \<Longrightarrow> js_number (num_string n) = Some n"
proof -
  assume low: "lowest n"
  obtain m k where n: "n = Dec m k" by (cases n)
  let ?d = "show_nat (nat \<bar>m\<bar>)"
  have d: "digits_nat ?d = nat \<bar>m\<bar>" "list_all digit_char ?d" "?d \<noteq> []" using show_nat_read by auto
  have val: "(if m < 0 then - 1 else 1) * int (nat \<bar>m\<bar>) = m" by simp
  show ?thesis
  proof (cases "k = 0")
    case True
    obtain c r where c: "?d = c # r" using d(3) by (cases ?d) auto
    have "num_string n = sign_text (m < 0) @ ?d" by (simp add: n True num_string_def show_int_def sign_text_def)
    moreover have "js_number (sign_text (m < 0) @ ?d) = Some (mk_dec ((if m < 0 then - 1 else 1) * digits_int (?d @ [])) (length ([] :: string)))"
      by (rule number_of_mantissa[OF _ c]) (use d c plain_mantissa(1) in \<open>auto simp: list_all_iff\<close>)
    ultimately show ?thesis using val by (simp add: n True digits_int_def d(1))
  next
    case False
    let ?p = "pad_left (Suc k) CHR ''0'' ?d" and ?i = "length (pad_left (Suc k) CHR ''0'' ?d) - k"
    let ?a = "take ?i ?p" and ?b = "drop ?i ?p"
    have len: "Suc k \<le> length ?p" by (simp add: pad_left_def)
    have "digit_char (CHR ''0'')" by (simp add: digit_char_def code_def)
    then have p: "list_all digit_char ?p" "digits_nat ?p = nat \<bar>m\<bar>"
      using d digits_nat_zeros by (auto simp: pad_left_def list_all_iff)
    have a: "list_all digit_char ?a" "list_all digit_char ?b" "?a \<noteq> []" using p(1) len by (auto simp: list_all_iff dest: in_set_takeD in_set_dropD)
    obtain c r where c: "?a = c # r" using a(3) by (cases ?a) auto
    have "num_string n = sign_text (m < 0) @ ?a @ CHR ''.'' # ?b"
      using False by (simp add: n num_string_def sign_text_def Let_def)
    moreover have "js_number (sign_text (m < 0) @ ?a @ CHR ''.'' # ?b) = Some (mk_dec ((if m < 0 then - 1 else 1) * digits_int (?a @ ?b)) (length ?b))"
    proof (rule number_of_mantissa)
      show "?a @ CHR ''.'' # ?b = c # r @ CHR ''.'' # ?b" "digit_char c" using c a(1) by auto
      show "mantissa (?a @ CHR ''.'' # ?b) = Some (?a, ?b)" by (rule plain_mantissa(2)[OF a(1,3,2)])
    qed (use a in \<open>auto simp: list_all_iff\<close>)
    moreover have "length ?b = k" using len by simp
    ultimately show ?thesis using val low mk_dec_lowest[of m k] by (simp add: n digits_int_def p(2))
  qed
qed

end
