(* ===== verification/Console_Contacts.thy ===== *)
theory Console_Contacts
  imports Console_Api Field_Registry Number_Text
begin

text \<open>
  The contact screens of the console: the profile with its inline editor
  (\<open>contacts/[id]/contact-detail.tsx\<close>) and the searchable list
  (\<open>contacts/_components/contacts-screen.tsx\<close>). A screen is the record of its React state; a
  handler is the request it sends and what the reply does to the state. Messages are their keys,
  and formatting of dates and numbers is an argument.
\<close>

section \<open>The profile\<close>

record ui_choice =
  uc_id :: int
  uc_labels :: "string \<Rightarrow> string option"

record ui_field =
  uf_id :: int
  uf_type :: field_type
  uf_labels :: "string \<Rightarrow> string option"
  uf_choices :: "ui_choice list"
  uf_readOnly :: bool
  uf_isSystem :: bool

definition CONSENT_FIELD_IDS :: "int list" where
  "CONSENT_FIELD_IDS = [31, 32, 33]"

definition CHANNELS :: "string list" where
  "CHANNELS = [''email'', ''sms'', ''push'']"

datatype draft = TextDraft string | BoolDraft bool | ChoicesDraft "json list"

record profile =
  pf_fields :: "(string \<times> json) list"
  pf_consents :: "(string \<times> json) list"
  pf_lists :: "(string \<times> string) list"

record detail =
  dt_fields :: "ui_field list"
  dt_profile :: "profile option"
  dt_history :: "json list"
  dt_error :: "string option"
  dt_editing :: "(int \<times> draft) option"
  dt_consent :: "string \<times> string \<times> string"

definition newDetail :: detail where
  "newDetail = \<lparr>dt_fields = [], dt_profile = None, dt_history = [], dt_error = None, dt_editing = None, dt_consent = (''email'', ''1'', [])\<rparr>"

text \<open>\<open>load\<close> once its three answers are there.\<close>

definition detailLoaded :: "ui_field list option \<Rightarrow> profile option \<Rightarrow> json list option \<Rightarrow> detail \<Rightarrow> detail" where
  "detailLoaded f p h s = (case (f, p, h) of
      (Some fs, Some pr, Some hs) \<Rightarrow> s\<lparr>dt_fields := fs, dt_profile := Some pr, dt_history := hs\<rparr>
    | _ \<Rightarrow> s\<lparr>dt_error := Some ''errors.load''\<rparr>)"

record formats =
  fm_number :: "jsnum option \<Rightarrow> string"
  fm_date :: "string \<Rightarrow> string"
  fm_text :: "string \<Rightarrow> string"
  fm_locale :: string

text \<open>\<open>Number(v)\<close> of a value that is not null.\<close>

definition to_number :: "json \<Rightarrow> jsnum option" where
  "to_number v = (case v of JNum n \<Rightarrow> Some n | JBool b \<Rightarrow> Some (int_num (if b then 1 else 0)) | JObj _ \<Rightarrow> None | _ \<Rightarrow> js_number (js_string v))"

definition choice_label :: "formats \<Rightarrow> ui_field \<Rightarrow> jsnum option \<Rightarrow> string" where
  "choice_label fm field cid = (case find (\<lambda>c. cid = Some (int_num (uc_id c))) (uf_choices field) of
      Some c \<Rightarrow> (case uc_labels c (fm_locale fm) of Some l \<Rightarrow> l | None \<Rightarrow> []) | None \<Rightarrow> [])"

definition showValue :: "formats \<Rightarrow> ui_field \<Rightarrow> json option \<Rightarrow> string" where
  "showValue fm field v = (case v of None \<Rightarrow> fm_text fm ''profile.empty''
    | Some x \<Rightarrow> if x \<in> {JNull, JStr []} then fm_text fm ''profile.empty''
      else (case uf_type field of
          FNumber \<Rightarrow> fm_number fm (to_number x)
        | FDate \<Rightarrow> fm_date fm (js_string x)
        | FBoolean \<Rightarrow> fm_text fm (if truthy v then ''profile.yes'' else ''profile.no'')
        | FSingle \<Rightarrow> choice_label fm field (to_number x)
        | FMulti \<Rightarrow> (case x of JArr vs \<Rightarrow> join_with '', '' (map (\<lambda>c. choice_label fm field (to_number c)) vs) | _ \<Rightarrow> [])
        | FText \<Rightarrow> js_string x))"

definition startDraft :: "field_type \<Rightarrow> json option \<Rightarrow> draft" where
  "startDraft type v = (case type of
      FBoolean \<Rightarrow> BoolDraft (v = Some (JBool True))
    | FMulti \<Rightarrow> ChoicesDraft (case v of Some (JArr vs) \<Rightarrow> vs | _ \<Rightarrow> [])
    | _ \<Rightarrow> TextDraft (or_empty v))"

definition startEdit :: "ui_field \<Rightarrow> detail \<Rightarrow> detail" where
  "startEdit field s = s\<lparr>dt_editing := Some (uf_id field,
     startDraft (uf_type field) (Option.bind (dt_profile s) (\<lambda>p. map_of (pf_fields p) (show_int (uf_id field)))))\<rparr>"

text \<open>A checkbox of a choice that is checked or unchecked.\<close>

definition toggleChoice :: "int \<Rightarrow> bool \<Rightarrow> json list \<Rightarrow> json list" where
  "toggleChoice i checked ds = (if checked then ds @ [JNum (int_num i)] else filter (\<lambda>x. x \<noteq> JNum (int_num i)) ds)"

text \<open>The value \<open>save\<close> sends; \<open>JSON.stringify\<close> writes a number that is not finite as null.\<close>

definition draftValue :: "field_type \<Rightarrow> draft \<Rightarrow> json" where
  "draftValue type d = (case d of
      BoolDraft b \<Rightarrow> JBool b
    | ChoicesDraft vs \<Rightarrow> if vs = [] then JNull else JArr vs
    | TextDraft t \<Rightarrow> if t = [] then JNull
        else if type = FNumber \<or> type = FSingle then (case js_number t of Some n \<Rightarrow> JNum n | None \<Rightarrow> JNull) else JStr t)"

definition saveBody :: "ui_field \<Rightarrow> draft \<Rightarrow> json" where
  "saveBody field d = JObj [(''fields'', JObj [(show_int (uf_id field), draftValue (uf_type field) d)])]"

text \<open>The Boolean says whether the screen loads again.\<close>

definition saveSettled :: "bool \<Rightarrow> nat \<Rightarrow> detail \<Rightarrow> detail \<times> bool" where
  "saveSettled ok status s = (if \<not> ok then (s\<lparr>dt_error := Some (if status = 409 then ''errors.duplicate'' else ''errors.generic'')\<rparr>, False)
     else (s\<lparr>dt_error := None, dt_editing := None\<rparr>, True))"

definition consentBody :: "detail \<Rightarrow> json" where
  "consentBody s = (case dt_consent s of (channel, value, t) \<Rightarrow>
     JObj [(''channel'', JStr channel), (''value'', case js_number value of Some n \<Rightarrow> JNum n | None \<Rightarrow> JNull),
           (''source'', JStr ''admin''), (''text'', JStr (trim t))])"

definition consentSettled :: "bool \<Rightarrow> detail \<Rightarrow> detail \<times> bool" where
  "consentSettled ok s = (if \<not> ok then (s\<lparr>dt_error := Some ''errors.generic''\<rparr>, False)
     else (s\<lparr>dt_error := None, dt_consent := (case dt_consent s of (c, v, _) \<Rightarrow> (c, v, []))\<rparr>, True))"

definition visibleFields :: "detail \<Rightarrow> ui_field list" where
  "visibleFields s = filter (\<lambda>f. \<not> List.member CONSENT_FIELD_IDS (uf_id f)) (dt_fields s)"

definition detailGroups :: "detail \<Rightarrow> ui_field list \<times> ui_field list" where
  "detailGroups s = (filter uf_isSystem (visibleFields s), filter (\<lambda>f. \<not> uf_isSystem f) (visibleFields s))"

definition detailTitle :: "string \<Rightarrow> profile \<Rightarrow> string" where
  "detailTitle i p = (let name = fullName (JObj (pf_fields p)) in if name \<noteq> [] then name
     else case map_of (pf_fields p) ''3'' of None \<Rightarrow> i | Some JNull \<Rightarrow> i | Some v \<Rightarrow> js_string v)"

definition consentLabel :: "json \<Rightarrow> string" where
  "consentLabel v = (if v = JNum (int_num 1) then ''consent.yes'' else if v = JNum (int_num 2) then ''consent.no'' else ''consent.unknown'')"

section \<open>Editing without a change\<close>

definition lowest_json :: "json \<Rightarrow> bool" where
  "lowest_json v \<longleftrightarrow> (case v of JNum n \<Rightarrow> lowest n | _ \<Rightarrow> True)"

lemma js_number_int: "js_number (show_int i) = Some (int_num i)"
proof -
  have "js_number (num_string (int_num i)) = Some (int_num i)" by (rule number_text) (simp add: lowest_def)
  then show ?thesis by (simp add: num_string_def)
qed

lemma num_string_ne: "num_string n \<noteq> []"
  using show_nat_read by (cases n) (auto simp: num_string_def show_int_def Let_def)

lemma iso_date_text: "valid_date s \<Longrightarrow> s \<noteq> []"
  by (auto simp: valid_date_def is_ymd_def match_classes_def)

text \<open>Opening the editor on a stored value and saving it as it is sends back a value that core
  stores unchanged, whatever the field's type, except that an empty text and an empty list of choices become
  no value, and a Boolean field without a value becomes false.\<close>

theorem unchanged_edit_keeps_the_value:
  assumes "stored_ok (uf_type field) ids v \<or> v = JNull" and "lowest_json v"
  shows "normalizeValue (uf_type field) ids (draftValue (uf_type field) (startDraft (uf_type field) (Some v))) =
    Inr (if v = JStr [] \<or> v = JArr [] then JNull else if v = JNull \<and> uf_type field = FBoolean then JBool False else v)"
proof (cases "v = JNull")
  case True
  then show ?thesis
    by (cases "uf_type field") (simp_all add: startDraft_def or_empty_def draftValue_def normalizeValue_def normalizeBoolean_def)
next
  case False
  then have s: "stored_ok (uf_type field) ids v" using assms(1) by simp
  note id = normalizeValue_stored_id[OF s]
  show ?thesis
  proof (cases "uf_type field")
    case FText
    then show ?thesis using s id by (auto simp: stored_ok_def startDraft_def or_empty_def draftValue_def normalizeValue_def split: json.splits)
  next
    case FNumber
    then obtain n where n: "v = JNum n" using s by (auto simp: stored_ok_def split: json.splits)
    then have "js_number (num_string n) = Some n" using assms(2) by (simp add: lowest_json_def number_text)
    then show ?thesis using FNumber n id num_string_ne[of n] by (simp add: startDraft_def or_empty_def draftValue_def)
  next
    case FDate
    then obtain t where t: "v = JStr t" "valid_date t" using s by (auto simp: stored_ok_def split: json.splits)
    then show ?thesis using FDate id iso_date_text[OF t(2)] by (simp add: startDraft_def or_empty_def draftValue_def)
  next
    case FBoolean
    then obtain b where "v = JBool b" using s by (auto simp: stored_ok_def split: json.splits)
    then show ?thesis using FBoolean id by (cases b) (simp_all add: startDraft_def draftValue_def)
  next
    case FSingle
    then obtain i where i: "i \<in> set ids" "v = int_json i" using s by (auto simp: stored_ok_def)
    then show ?thesis using FSingle id js_number_int[of i] num_string_ne[of "int_num i"]
      by (simp add: startDraft_def or_empty_def draftValue_def int_json_def num_string_def)
  next
    case FMulti
    then obtain vs where "v = JArr vs" using s by (auto simp: stored_ok_def split: json.splits)
    then show ?thesis using FMulti id by (auto simp: startDraft_def draftValue_def normalizeValue_def)
  qed
qed

definition demo_ui_field :: "field_type \<Rightarrow> ui_field" where
  "demo_ui_field type = \<lparr>uf_id = 20, uf_type = type, uf_labels = (\<lambda>_. None), uf_choices = [], uf_readOnly = False, uf_isSystem = False\<rparr>"

lemma unchanged_edit_keeps_the_value_witness:
  "normalizeValue FNumber [] (draftValue FNumber (startDraft FNumber (Some (JNum (Dec (- 125) 2))))) = Inr (JNum (Dec (- 125) 2)) \<and>
   normalizeValue FBoolean [] (draftValue FBoolean (startDraft FBoolean (Some JNull))) = Inr (JBool False)"
  using unchanged_edit_keeps_the_value[of "demo_ui_field FNumber" "[]" "JNum (Dec (- 125) 2)"]
    unchanged_edit_keeps_the_value[of "demo_ui_field FBoolean" "[]" JNull]
  by (simp add: demo_ui_field_def stored_ok_def lowest_json_def lowest_def)

end
