(* ===== verification/Console_Search.thy ===== *)
theory Console_Search
  imports Console_Api
begin

text \<open>
  The list of contacts (\<open>contacts/_components/contacts-screen.tsx\<close>): the search with its filter,
  the pages behind it, and the window of rows it renders. Searches overlap: each takes a number, and
  an answer counts only while its number is the last. \<open>sc_pending\<close> holds the calls on their way.
\<close>

definition ROW_HEIGHT :: int where "ROW_HEIGHT = 40"
definition VIEWPORT :: int where "VIEWPORT = 400"
definition OVERSCAN :: int where "OVERSCAN = 5"
definition PAGE_SIZE :: nat where "PAGE_SIZE = 50"
definition COLUMNS :: "nat list" where "COLUMNS = [1, 2, 3, 4]"

record search_filter =
  sf_field :: string
  sf_op :: string
  sf_value :: string

record search_call =
  sq_q :: string
  sq_filters :: "string option"
  sq_cursor :: "string option"

record 'c search_page =
  sp_items :: "'c list"
  sp_next :: "string option"

record 'c search_screen =
  sc_input :: string
  sc_q :: string
  sc_filter :: search_filter
  sc_rows :: "'c list"
  sc_cursor :: "string option"
  sc_loaded :: bool
  sc_error :: "string option"
  sc_scrollTop :: int
  sc_add :: "string \<times> string \<times> string"
  sc_seq :: nat
  sc_pending :: "(nat \<times> search_call) list"

definition newSearch :: "'c search_screen" where
  "newSearch = \<lparr>sc_input = [], sc_q = [], sc_filter = \<lparr>sf_field = [], sf_op = ''eq'', sf_value = []\<rparr>, sc_rows = [], sc_cursor = None,
     sc_loaded = False, sc_error = None, sc_scrollTop = 0, sc_add = ([], [], []), sc_seq = 0, sc_pending = []\<rparr>"

definition filterText :: "search_filter \<Rightarrow> string option" where
  "filterText f = (let noValue = (sf_op f = ''empty'' \<or> sf_op f = ''not_empty'') in
     if sf_field f \<noteq> [] \<and> (noValue \<or> sf_value f \<noteq> [])
     then Some (sf_field f @ '':'' @ sf_op f @ '':'' @ (if noValue then [] else sf_value f)) else None)"

definition searchQuery :: "search_call \<Rightarrow> (string \<times> string option) list" where
  "searchQuery c = [(''q'', Some (sq_q c)), (''fields'', Some (join_with '','' (map show_nat COLUMNS))), (''limit'', Some (show_nat PAGE_SIZE)),
     (''cursor'', sq_cursor c), (''filters'', sq_filters c)]"

definition search :: "string option \<Rightarrow> 'c search_screen \<Rightarrow> 'c search_screen" where
  "search cur s = s\<lparr>sc_seq := Suc (sc_seq s),
     sc_pending := sc_pending s @ [(Suc (sc_seq s), \<lparr>sq_q = sc_q s, sq_filters = filterText (sc_filter s), sq_cursor = cur\<rparr>)]\<rparr>"

text \<open>The rest of \<open>search\<close> once call number \<open>mine\<close>, sent with \<open>cur\<close>, is answered.\<close>

definition answered :: "nat \<Rightarrow> string option \<Rightarrow> 'c search_page option \<Rightarrow> 'c search_screen \<Rightarrow> 'c search_screen" where
  "answered mine cur res s = (if mine \<noteq> sc_seq s then s
     else case res of None \<Rightarrow> s\<lparr>sc_error := Some ''errors.load''\<rparr>
       | Some page \<Rightarrow> s\<lparr>sc_error := None, sc_loaded := True,
           sc_rows := (case cur of Some (_ # _) \<Rightarrow> sc_rows s @ sp_items page | _ \<Rightarrow> sp_items page),
           sc_cursor := sp_next page\<rparr>)"

definition answer :: "nat \<Rightarrow> 'c search_page option \<Rightarrow> 'c search_screen \<Rightarrow> 'c search_screen" where
  "answer mine res s = (case map_of (sc_pending s) mine of None \<Rightarrow> s
     | Some c \<Rightarrow> answered mine (sq_cursor c) res (s\<lparr>sc_pending := filter (\<lambda>p. fst p \<noteq> mine) (sc_pending s)\<rparr>))"

text \<open>The effects: the debounced text and a changed filter search again from the top.\<close>

definition queryChanged :: "string \<Rightarrow> search_filter \<Rightarrow> 'c search_screen \<Rightarrow> 'c search_screen" where
  "queryChanged inp f s = search None (s\<lparr>sc_input := inp, sc_q := trim inp, sc_filter := f, sc_scrollTop := 0\<rparr>)"

definition scrolled :: "int \<Rightarrow> int \<Rightarrow> 'c search_screen \<Rightarrow> 'c search_screen" where
  "scrolled pos height s = (let s' = s\<lparr>sc_scrollTop := pos\<rparr> in
     case sc_cursor s of Some (c # cs) \<Rightarrow> if height - ROW_HEIGHT * 3 \<le> pos + VIEWPORT then search (Some (c # cs)) s' else s' | _ \<Rightarrow> s')"

definition loadMoreContacts :: "'c search_screen \<Rightarrow> 'c search_screen" where
  "loadMoreContacts s = (case sc_cursor s of Some (c # cs) \<Rightarrow> search (Some (c # cs)) s | _ \<Rightarrow> s)"

definition quickAddBody :: "'c search_screen \<Rightarrow> json" where
  "quickAddBody s = (case sc_add s of (email, first, lst) \<Rightarrow> JObj [(''fields'', JObj ((if trim first \<noteq> [] then [(''1'', JStr (trim first))] else []) @
     (if trim lst \<noteq> [] then [(''2'', JStr (trim lst))] else []) @ [(''3'', JStr (trim email))]))])"

definition quickAddSettled :: "bool \<Rightarrow> nat \<Rightarrow> 'c search_screen \<Rightarrow> 'c search_screen" where
  "quickAddSettled ok status s = (if \<not> ok then s\<lparr>sc_error := Some (if status = 409 then ''errors.duplicate'' else ''errors.generic'')\<rparr>
     else search None (s\<lparr>sc_add := ([], [], []), sc_error := None, sc_scrollTop := 0\<rparr>))"

section \<open>The window\<close>

definition firstRow :: "int \<Rightarrow> int" where
  "firstRow pos = max 0 (pos div ROW_HEIGHT - OVERSCAN)"

text \<open>\<open>Math.ceil(x / 40)\<close> is \<open>- (- x div 40)\<close>.\<close>

definition lastRow :: "nat \<Rightarrow> int \<Rightarrow> int" where
  "lastRow n pos = min (int n) (- ((- (pos + VIEWPORT)) div ROW_HEIGHT) + OVERSCAN)"

text \<open>\<open>rows.slice(first, last)\<close> between two spacers.\<close>

definition renderedRows :: "'c list \<Rightarrow> int \<Rightarrow> 'c list" where
  "renderedRows rows pos = take (nat (lastRow (length rows) pos) - nat (firstRow pos)) (drop (nat (firstRow pos)) rows)"

definition tableHeight :: "nat \<Rightarrow> int \<Rightarrow> int" where
  "tableHeight n pos = (if 0 < firstRow pos then firstRow pos * ROW_HEIGHT else 0) + max 0 (lastRow n pos - firstRow pos) * ROW_HEIGHT +
     (if lastRow n pos < int n then (int n - lastRow n pos) * ROW_HEIGHT else 0)"

lemmas window_consts = ROW_HEIGHT_def VIEWPORT_def OVERSCAN_def

text \<open>The window never hides a row one can see: at a scroll position the table allows, every row that
  reaches into the viewport is rendered, no more than 22 rows are, and the spacers give the table
  the height of all its rows.\<close>

theorem window_shows_the_viewport:
  assumes "0 \<le> pos" and "pos \<le> int (length rows) * ROW_HEIGHT" and "i < length rows"
    and "int i * ROW_HEIGHT < pos + VIEWPORT" and "pos < (int i + 1) * ROW_HEIGHT"
  shows "rows ! i \<in> set (renderedRows rows pos) \<and> length (renderedRows rows pos) \<le> 22 \<and> tableHeight (length rows) pos = int (length rows) * ROW_HEIGHT"
proof -
  let ?f = "firstRow pos" and ?l = "lastRow (length rows) pos"
  have f: "0 \<le> ?f" "?f \<le> int i" using assms by (auto simp: firstRow_def window_consts)
  have l: "int i < ?l" "?l \<le> int (length rows)" using assms by (auto simp: lastRow_def window_consts)
  have w: "?l - ?f \<le> 22" using assms by (auto simp: firstRow_def lastRow_def window_consts)
  have i: "nat ?f \<le> i" "i < nat ?l" using f l by auto
  have "rows ! i = renderedRows rows pos ! (i - nat ?f)" "i - nat ?f < length (renderedRows rows pos)"
    using i l(2) by (auto simp: renderedRows_def)
  then have "rows ! i \<in> set (renderedRows rows pos)" by simp
  moreover have "length (renderedRows rows pos) \<le> 22" using w f(1) by (simp add: renderedRows_def)
  moreover have "tableHeight (length rows) pos = int (length rows) * ROW_HEIGHT"
    using f l by (auto simp: tableHeight_def window_consts algebra_simps)
  ultimately show ?thesis by blast
qed

lemma window_shows_the_viewport_witness: "(1000 :: nat) \<in> set (renderedRows [0..<2000] 40000)"
  using window_shows_the_viewport[of 40000 "[0..<2000]" 1000] by (simp add: window_consts)

section \<open>Overlapping searches\<close>

text \<open>Answers to calls that a later search has superseded, in any order.\<close>

definition answers :: "(nat \<times> 'c search_page option) list \<Rightarrow> 'c search_screen \<Rightarrow> 'c search_screen" where
  "answers as s = fold (\<lambda>(n, r). answer n r) as s"

lemma stale_answer: "n \<noteq> sc_seq s \<Longrightarrow> answer n r s = s\<lparr>sc_pending := if map_of (sc_pending s) n = None then sc_pending s else filter (\<lambda>p. fst p \<noteq> n) (sc_pending s)\<rparr>"
  by (simp add: answer_def answered_def split: option.split)

lemma stale_answers:
  assumes "\<forall>n \<in> fst ` set as. n \<noteq> sc_seq s"
  shows "\<exists>ps. answers as s = s\<lparr>sc_pending := ps\<rparr> \<and> (\<forall>c. map_of (sc_pending s) (sc_seq s) = Some c \<longrightarrow> map_of ps (sc_seq s) = Some c)"
  using assms
proof (induction as arbitrary: s)
  case Nil
  then show ?case by (intro exI[of _ "sc_pending s"]) (simp add: answers_def)
next
  case (Cons a as)
  obtain n r where a: "a = (n, r)" by fastforce
  let ?ps = "if map_of (sc_pending s) n = None then sc_pending s else filter (\<lambda>p. fst p \<noteq> n) (sc_pending s)"
  let ?s = "s\<lparr>sc_pending := ?ps\<rparr>"
  have n: "n \<noteq> sc_seq s" using Cons.prems by (simp add: a)
  have "answers (a # as) s = answers as ?s" by (simp add: answers_def a stale_answer[OF n])
  moreover obtain ps where "answers as ?s = ?s\<lparr>sc_pending := ps\<rparr>" "\<forall>c. map_of ?ps (sc_seq s) = Some c \<longrightarrow> map_of ps (sc_seq s) = Some c"
    using Cons.IH[of ?s] Cons.prems by auto
  moreover have "map_of ?ps (sc_seq s) = map_of (sc_pending s) (sc_seq s)"
  proof -
    have "map_of (filter (\<lambda>p. fst p \<noteq> n) xs) k = map_of xs k" if "k \<noteq> n" for xs :: "(nat \<times> search_call) list" and k
      using that by (induction xs) auto
    then show ?thesis using n by simp
  qed
  ultimately show ?case by (intro exI[of _ ps]) simp
qed

text \<open>The numbers of the calls on their way have been given out before.\<close>

definition numbered :: "'c search_screen \<Rightarrow> bool" where
  "numbered s \<longleftrightarrow> (\<forall>p \<in> set (sc_pending s). fst p \<le> sc_seq s)"

lemma search_last: "numbered s \<Longrightarrow> map_of (sc_pending (search cur s)) (sc_seq (search cur s)) =
    Some \<lparr>sq_q = sc_q s, sq_filters = filterText (sc_filter s), sq_cursor = cur\<rparr>"
proof -
  assume "numbered s"
  then have "map_of (sc_pending s) (Suc (sc_seq s)) = None" by (fastforce simp: numbered_def map_of_eq_None_iff)
  then show ?thesis by (simp add: search_def map_add_def)
qed

text \<open>A new query shows its first page and nothing else, however late the answers to older searches
  come; unless one scrolls to the end before that page arrives: then the page is dropped, and what is
  shown is the rows of the old query followed by a page of the new one that starts after the old cursor.\<close>

theorem scroll_during_search_mixes_queries:
  assumes "numbered s" and "\<forall>n \<in> fst ` set as. n \<le> sc_seq s"
  shows "sc_rows (answer (Suc (sc_seq s)) (Some page) (answers as (queryChanged inp f s))) = sp_items page \<and>
    (\<forall>c cs pos height. sc_cursor s = Some (c # cs) \<and> height - ROW_HEIGHT * 3 \<le> pos + VIEWPORT \<longrightarrow>
      (let s1 = scrolled pos height (queryChanged inp f s); s2 = answer (Suc (sc_seq s)) (Some page) s1 in
        map_of (sc_pending s1) (Suc (Suc (sc_seq s))) = Some \<lparr>sq_q = trim inp, sq_filters = filterText f, sq_cursor = Some (c # cs)\<rparr> \<and>
        sc_rows s2 = sc_rows s \<and> sc_rows (answer (Suc (Suc (sc_seq s))) (Some page2) s2) = sc_rows s @ sp_items page2))"
proof (intro conjI allI impI)
  let ?q = "queryChanged inp f s"
  have q: "sc_seq ?q = Suc (sc_seq s)" "sc_rows ?q = sc_rows s" "sc_cursor ?q = sc_cursor s" "sc_q ?q = trim inp" "sc_filter ?q = f"
    by (simp_all add: queryChanged_def search_def)
  have pend: "map_of (sc_pending ?q) (Suc (sc_seq s)) = Some \<lparr>sq_q = trim inp, sq_filters = filterText f, sq_cursor = None\<rparr>"
    using search_last[of "s\<lparr>sc_input := inp, sc_q := trim inp, sc_filter := f, sc_scrollTop := 0\<rparr>" None] assms(1)
    by (simp add: queryChanged_def numbered_def) (simp add: search_def)
  have "\<forall>n \<in> fst ` set as. n \<noteq> sc_seq ?q" using assms(2) q(1) by fastforce
  from stale_answers[OF this] obtain ps where ps: "answers as ?q = ?q\<lparr>sc_pending := ps\<rparr>"
    "map_of ps (Suc (sc_seq s)) = Some \<lparr>sq_q = trim inp, sq_filters = filterText f, sq_cursor = None\<rparr>" using pend q(1) by auto
  show "sc_rows (answer (Suc (sc_seq s)) (Some page) (answers as ?q)) = sp_items page"
    unfolding ps(1) by (simp add: answer_def answered_def ps(2) q(1))
  fix c cs pos height assume a: "sc_cursor s = Some (c # cs) \<and> height - ROW_HEIGHT * 3 \<le> pos + VIEWPORT"
  let ?s1 = "scrolled pos height ?q" and ?s2 = "answer (Suc (sc_seq s)) (Some page) (scrolled pos height ?q)"
  have s1: "?s1 = search (Some (c # cs)) (?q\<lparr>sc_scrollTop := pos\<rparr>)" using a by (simp add: scrolled_def q(3) Let_def)
  have n: "numbered (?q\<lparr>sc_scrollTop := pos\<rparr>)" using assms(1) by (fastforce simp: numbered_def queryChanged_def search_def)
  have seq: "sc_seq ?s1 = Suc (Suc (sc_seq s))" unfolding s1 by (simp add: search_def q(1))
  have c1: "map_of (sc_pending ?s1) (Suc (Suc (sc_seq s))) = Some \<lparr>sq_q = trim inp, sq_filters = filterText f, sq_cursor = Some (c # cs)\<rparr>"
    using search_last[OF n, of "Some (c # cs)"] unfolding s1[symmetric] seq by (simp add: q(4,5))
  have "Suc (sc_seq s) \<noteq> sc_seq ?s1" by (simp add: seq)
  with stale_answers[of "[(Suc (sc_seq s), Some page)]" ?s1] obtain ps where
    s2: "?s2 = ?s1\<lparr>sc_pending := ps\<rparr>" "map_of ps (sc_seq ?s1) = map_of (sc_pending ?s1) (sc_seq ?s1)" using c1 seq by (auto simp: answers_def)
  have rows: "sc_rows ?s1 = sc_rows s" unfolding s1 by (simp add: search_def q(2))
  have "sc_rows (answer (Suc (Suc (sc_seq s))) (Some page2) ?s2) = sc_rows s @ sp_items page2"
    unfolding s2(1) using s2(2) c1 by (simp add: answer_def answered_def seq rows)
  then show "let s1 = ?s1; s2 = answer (Suc (sc_seq s)) (Some page) s1 in
        map_of (sc_pending s1) (Suc (Suc (sc_seq s))) = Some \<lparr>sq_q = trim inp, sq_filters = filterText f, sq_cursor = Some (c # cs)\<rparr> \<and>
        sc_rows s2 = sc_rows s \<and> sc_rows (answer (Suc (Suc (sc_seq s))) (Some page2) s2) = sc_rows s @ sp_items page2"
    using c1 rows by (simp add: Let_def s2(1))
qed

lemma scroll_during_search_mixes_queries_witness:
  "sc_rows (answer 2 (Some \<lparr>sp_items = [''new z''], sp_next = None\<rparr>) (answer 1 (Some \<lparr>sp_items = [''new a''], sp_next = Some ''n''\<rparr>)
     (scrolled 1900 2400 (queryChanged ''new'' \<lparr>sf_field = [], sf_op = ''eq'', sf_value = []\<rparr> (newSearch\<lparr>sc_rows := [''old''], sc_cursor := Some ''k''\<rparr>))))) = [''old'', ''new z'']"
proof -
  let ?s = "(newSearch\<lparr>sc_rows := [''old''], sc_cursor := Some ''k''\<rparr>) :: string search_screen"
  have "numbered ?s" "\<forall>n \<in> fst ` set ([] :: (nat \<times> string search_page option) list). n \<le> sc_seq ?s" by (simp_all add: numbered_def newSearch_def)
  from scroll_during_search_mixes_queries[OF this, of "\<lparr>sp_items = [''new a''], sp_next = Some ''n''\<rparr>" "''new''" "\<lparr>sf_field = [], sf_op = ''eq'', sf_value = []\<rparr>"
      "\<lparr>sp_items = [''new z''], sp_next = None\<rparr>"]
  show ?thesis by (simp add: newSearch_def window_consts Let_def numeral_2_eq_2)
qed

end
