(* ===== verification/Console_Import.thy ===== *)
theory Console_Import
  imports Console_Api
begin

text \<open>
  The import wizard (\<open>contacts/import/import-wizard.tsx\<close>), the view of the job it starts
  (\<open>job-view.tsx\<close>) and the export form (\<open>contacts/exports/exports-view.tsx\<close>). The wizard is a
  state machine: \<open>wizard_step\<close> has one rule per control, enabled in the step that renders it, and
  one for the load that runs beside it. Parsing the local preview and the transfer of the file
  are not modelled: the upload ends with the job and its preview, or fails.
\<close>

section \<open>The wizard\<close>

datatype wizard_page = UploadPage | SettingsPage | MappingPage | ConfirmPage | JobPage

datatype target_kind = ToContacts | ToList | ToRelational

record import_field =
  if_id :: int
  if_apiName :: string
  if_labels :: "string list"
  if_unique :: bool

record import_table =
  it_id :: string
  it_columns :: "string list"

record import_preview =
  ip_delimiter :: string
  ip_encoding :: string
  ip_hasHeader :: bool
  ip_columns :: "string list"

record wizard =
  wz_page :: wizard_page
  wz_error :: "string option"
  wz_file :: "(string \<times> string) option"
  wz_uploading :: bool
  wz_preview :: "import_preview option"
  wz_importId :: "string option"
  wz_loaded :: bool
  wz_fields :: "import_field list"
  wz_lists :: "string list"
  wz_tables :: "import_table list"
  wz_kind :: target_kind
  wz_targetId :: string
  wz_mode :: string
  wz_keyId :: string
  wz_mapping :: "(string \<times> string) list"

definition newWizard :: wizard where
  "newWizard = \<lparr>wz_page = UploadPage, wz_error = None, wz_file = None, wz_uploading = False, wz_preview = None, wz_importId = None,
     wz_loaded = False, wz_fields = [], wz_lists = [], wz_tables = [], wz_kind = ToContacts, wz_targetId = [], wz_mode = ''upsert'',
     wz_keyId = ''3'', wz_mapping = []\<rparr>"

definition first_id :: "string list \<Rightarrow> string" where
  "first_id ids = (case ids of i # _ \<Rightarrow> i | [] \<Rightarrow> [])"

text \<open>The effect on mount, once its three calls are answered, or failed.\<close>

definition wizardLoaded :: "(import_field list \<times> string list \<times> import_table list) option \<Rightarrow> wizard \<Rightarrow> wizard" where
  "wizardLoaded r s = (case r of None \<Rightarrow> s\<lparr>wz_loaded := True, wz_error := Some ''loadFailed''\<rparr>
     | Some (f, l, t) \<Rightarrow> s\<lparr>wz_loaded := True, wz_fields := f, wz_lists := l, wz_tables := t,
         wz_targetId := (if wz_targetId s = [] then first_id l else wz_targetId s)\<rparr>)"

definition kind_name :: "target_kind \<Rightarrow> string" where
  "kind_name k = (case k of ToContacts \<Rightarrow> ''contacts'' | ToList \<Rightarrow> ''list'' | ToRelational \<Rightarrow> ''relational'')"

definition wizardTarget :: "wizard \<Rightarrow> string" where
  "wizardTarget s = (if wz_kind s = ToContacts then ''contacts'' else kind_name (wz_kind s) @ '':'' @ wz_targetId s)"

definition wizardTable :: "wizard \<Rightarrow> import_table option" where
  "wizardTable s = (if wz_kind s = ToRelational then find (\<lambda>t. it_id t = wz_targetId s) (wz_tables s) else None)"

definition destinations :: "wizard \<Rightarrow> string list" where
  "destinations s = (if wz_kind s = ToRelational then (case wizardTable s of Some t \<Rightarrow> it_columns t | None \<Rightarrow> [])
     else ''id'' # map (\<lambda>f. show_int (if_id f)) (wz_fields s))"

definition keyOptions :: "wizard \<Rightarrow> string list" where
  "keyOptions s = ''id'' # map (\<lambda>f. show_int (if_id f)) (filter if_unique (wz_fields s))"

definition pickFile :: "(string \<times> string) option \<Rightarrow> wizard \<Rightarrow> wizard" where
  "pickFile f s = s\<lparr>wz_file := f\<rparr>"

text \<open>\<open>upload\<close>: the call for the address, the transfer, the job and its preview; any failure leaves the page.\<close>

definition uploadStarted :: "wizard \<Rightarrow> wizard" where
  "uploadStarted s = (if wz_file s = None then s else s\<lparr>wz_error := None, wz_uploading := True\<rparr>)"

definition uploadSettled :: "(string \<times> import_preview) option \<Rightarrow> wizard \<Rightarrow> wizard" where
  "uploadSettled r s = (case r of None \<Rightarrow> s\<lparr>wz_error := Some ''uploadFailed'', wz_uploading := False\<rparr>
     | Some (i, pv) \<Rightarrow> s\<lparr>wz_importId := Some i, wz_preview := Some pv, wz_page := SettingsPage, wz_uploading := False\<rparr>)"

definition uploadUrlBody :: "string \<times> string \<Rightarrow> json" where
  "uploadUrlBody f = JObj [(''filename'', JStr (fst f)), (''content_type'', JStr (if snd f = [] then ''text/csv'' else snd f))]"

definition setKind :: "target_kind \<Rightarrow> wizard \<Rightarrow> wizard" where
  "setKind k s = s\<lparr>wz_kind := k, wz_targetId := (case k of ToList \<Rightarrow> first_id (wz_lists s) | ToRelational \<Rightarrow> first_id (map it_id (wz_tables s)) | ToContacts \<Rightarrow> [])\<rparr>"

definition norm_name :: "string \<Rightarrow> string" where
  "norm_name s = lower (trim s)"

text \<open>The destination suggested for a column, or the empty text for none.\<close>

definition suggestion :: "wizard \<Rightarrow> string \<Rightarrow> string" where
  "suggestion s col = (if wz_kind s = ToRelational
     then (case find (\<lambda>d. norm_name d = norm_name col) (destinations s) of Some d \<Rightarrow> d | None \<Rightarrow> [])
     else (case find (\<lambda>f. norm_name (if_apiName f) = norm_name col \<or> list_ex (\<lambda>l. norm_name l = norm_name col) (if_labels f)) (wz_fields s) of
         Some f \<Rightarrow> show_int (if_id f) | None \<Rightarrow> []))"

definition goMapping :: "wizard \<Rightarrow> wizard" where
  "goMapping s = (case wz_preview s of None \<Rightarrow> s
     | Some pv \<Rightarrow> s\<lparr>wz_mapping := fold (\<lambda>col. alist_put col (suggestion s col)) (ip_columns pv) [], wz_error := None, wz_page := MappingPage\<rparr>)"

definition setColumn :: "string \<Rightarrow> string \<Rightarrow> wizard \<Rightarrow> wizard" where
  "setColumn col v s = s\<lparr>wz_mapping := alist_put col v (wz_mapping s)\<rparr>"

definition chosen :: "wizard \<Rightarrow> (string \<times> string) list" where
  "chosen s = filter (\<lambda>(c, v). v \<noteq> []) (wz_mapping s)"

definition goConfirm :: "wizard \<Rightarrow> wizard" where
  "goConfirm s = (if chosen s = [] then s\<lparr>wz_error := Some ''noMapping''\<rparr>
     else if wz_kind s \<noteq> ToRelational \<and> \<not> List.member (map snd (chosen s)) (wz_keyId s) then s\<lparr>wz_error := Some ''keyUnmapped''\<rparr>
     else s\<lparr>wz_error := None, wz_page := ConfirmPage\<rparr>)"

definition canLeaveSettings :: "wizard \<Rightarrow> bool" where
  "canLeaveSettings s \<longleftrightarrow> wz_kind s = ToContacts \<or> wz_targetId s \<noteq> []"

text \<open>The body of the call that starts the job, when there is one.\<close>

definition startBody :: "wizard \<Rightarrow> (string \<times> json) option" where
  "startBody s = (case (wz_importId s, wz_preview s) of
      (Some (c # i), Some pv) \<Rightarrow> Some (''/imports/'' @ (c # i) @ ''/start'', JObj [(''delimiter'', JStr (ip_delimiter pv)), (''encoding'', JStr (ip_encoding pv)),
        (''has_header'', JBool (ip_hasHeader pv)), (''mapping'', JObj (map (\<lambda>(k, v). (k, JStr v)) (chosen s))), (''key_id'', JStr (wz_keyId s)),
        (''mode'', JStr (wz_mode s)), (''target'', JStr (wizardTarget s))])
    | _ \<Rightarrow> None)"

definition startSettled :: "bool \<Rightarrow> wizard \<Rightarrow> wizard" where
  "startSettled ok s = (if ok then s\<lparr>wz_error := None, wz_page := JobPage\<rparr> else s\<lparr>wz_error := Some ''startFailed''\<rparr>)"

section \<open>The controls\<close>

inductive wizard_step :: "wizard \<Rightarrow> wizard \<Rightarrow> bool" where
  step_loaded: "\<not> wz_loaded s \<Longrightarrow> wizard_step s (wizardLoaded r s)"
| step_pick: "wz_page s = UploadPage \<Longrightarrow> wizard_step s (pickFile f s)"
| step_upload: "wz_page s = UploadPage \<Longrightarrow> wz_file s \<noteq> None \<Longrightarrow> \<not> wz_uploading s \<Longrightarrow> wizard_step s (uploadStarted s)"
| step_uploaded: "wz_uploading s \<Longrightarrow> wizard_step s (uploadSettled r s)"
| step_kind: "wz_page s = SettingsPage \<Longrightarrow> wizard_step s (setKind k s)"
| step_target: "wz_page s = SettingsPage \<Longrightarrow> wizard_step s (s\<lparr>wz_targetId := i\<rparr>)"
| step_mode: "wz_page s = SettingsPage \<Longrightarrow> m \<in> {''create'', ''update'', ''upsert''} \<Longrightarrow> wizard_step s (s\<lparr>wz_mode := m\<rparr>)"
| step_key: "wz_page s = SettingsPage \<Longrightarrow> k \<in> set (keyOptions s) \<Longrightarrow> wizard_step s (s\<lparr>wz_keyId := k\<rparr>)"
| step_next: "wz_page s = SettingsPage \<Longrightarrow> canLeaveSettings s \<Longrightarrow> wizard_step s (goMapping s)"
| step_column: "wz_page s = MappingPage \<Longrightarrow> v \<in> set ([] # destinations s) \<Longrightarrow> wizard_step s (setColumn col v s)"
| step_back: "wz_page s = MappingPage \<Longrightarrow> wizard_step s (s\<lparr>wz_page := SettingsPage\<rparr>)"
| step_confirm: "wz_page s = MappingPage \<Longrightarrow> wizard_step s (goConfirm s)"
| step_revise: "wz_page s = ConfirmPage \<Longrightarrow> wizard_step s (s\<lparr>wz_page := MappingPage\<rparr>)"
| step_started: "wz_page s = ConfirmPage \<Longrightarrow> wizard_step s (startSettled ok s)"

definition mapped_well :: "wizard \<Rightarrow> bool" where
  "mapped_well s \<longleftrightarrow> (\<forall>v \<in> snd ` set (wz_mapping s). v = [] \<or> v \<in> set (destinations s))"

definition wizard_inv :: "wizard \<Rightarrow> bool" where
  "wizard_inv s \<longleftrightarrow> (wz_page s \<noteq> UploadPage \<longrightarrow> \<not> wz_uploading s) \<and>
     (\<not> wz_loaded s \<longrightarrow> wz_fields s = [] \<and> wz_tables s = []) \<and>
     (wz_page s = MappingPage \<or> wz_page s = ConfirmPage \<longrightarrow> mapped_well s) \<and>
     (wz_page s = ConfirmPage \<longrightarrow> chosen s \<noteq> [] \<and> (wz_kind s \<noteq> ToRelational \<longrightarrow> wz_keyId s \<in> snd ` set (chosen s)))"

lemma suggestion_fits: "suggestion s col = [] \<or> suggestion s col \<in> set (destinations s)"
proof (cases "wz_kind s = ToRelational")
  case True
  then show ?thesis by (auto simp: suggestion_def split: option.splits dest: find_Some_iff[THEN iffD1])
next
  case False
  then show ?thesis by (auto simp: suggestion_def destinations_def find_Some_iff split: option.splits)
qed

lemma alist_put_values: "snd ` set (alist_put k v xs) \<subseteq> insert v (snd ` set xs)"
  by (induction k v xs rule: alist_put.induct) auto

lemma suggested_values: "snd ` set (fold (\<lambda>col. alist_put col (suggestion s col)) cols m) \<subseteq> range (suggestion s) \<union> snd ` set m"
proof (induction cols arbitrary: m)
  case (Cons c cols)
  have "snd ` set (alist_put c (suggestion s c) m) \<subseteq> range (suggestion s) \<union> snd ` set m" using alist_put_values[of c "suggestion s c" m] by blast
  then show ?case using Cons[of "alist_put c (suggestion s c) m"] by (simp only: fold.simps comp_apply) blast
qed simp

lemma destinations_same: "wz_kind s' = wz_kind s \<Longrightarrow> wz_targetId s' = wz_targetId s \<Longrightarrow> wz_tables s' = wz_tables s \<Longrightarrow> wz_fields s' = wz_fields s \<Longrightarrow>
    destinations s' = destinations s"
  by (simp add: destinations_def wizardTable_def)

lemma mapped_well_page [simp]: "mapped_well (s\<lparr>wz_page := p\<rparr>) = mapped_well s" "mapped_well (s\<lparr>wz_error := e\<rparr>) = mapped_well s"
    "chosen (s\<lparr>wz_page := p\<rparr>) = chosen s" "chosen (s\<lparr>wz_error := e\<rparr>) = chosen s"
  by (simp_all add: mapped_well_def chosen_def destinations_def wizardTable_def)

lemma destinations_loaded: "\<not> wz_loaded s \<Longrightarrow> wz_fields s = [] \<and> wz_tables s = [] \<Longrightarrow> set (destinations s) \<subseteq> set (destinations (wizardLoaded r s))"
  by (auto simp: destinations_def wizardTable_def wizardLoaded_def split: option.splits prod.splits)

lemma wizard_step_inv: "wizard_step s s' \<Longrightarrow> wizard_inv s \<Longrightarrow> wizard_inv s'"
proof (induction rule: wizard_step.induct)
  case (step_loaded s r)
  have sub: "set (destinations s) \<subseteq> set (destinations (wizardLoaded r s))"
    using destinations_loaded[OF step_loaded(1), of r] step_loaded by (simp add: wizard_inv_def)
  have same: "wz_page (wizardLoaded r s) = wz_page s" "wz_uploading (wizardLoaded r s) = wz_uploading s" "wz_loaded (wizardLoaded r s)"
      "wz_mapping (wizardLoaded r s) = wz_mapping s" "wz_kind (wizardLoaded r s) = wz_kind s" "wz_keyId (wizardLoaded r s) = wz_keyId s"
    by (simp_all add: wizardLoaded_def split: option.split prod.split)
  have "mapped_well s \<Longrightarrow> mapped_well (wizardLoaded r s)" using sub unfolding mapped_well_def same by blast
  moreover have "chosen (wizardLoaded r s) = chosen s" by (simp add: chosen_def same)
  ultimately show ?case using step_loaded(2) same(3) unfolding wizard_inv_def same by simp
next
  case (step_next s)
  then show ?case
  proof (cases "wz_preview s")
    case (Some pv)
    have "destinations (goMapping s) = destinations s" by (rule destinations_same) (simp_all add: goMapping_def Some)
    moreover have "snd ` set (wz_mapping (goMapping s)) \<subseteq> range (suggestion s)"
      using suggested_values[of s "ip_columns pv" "[]"] by (simp add: goMapping_def Some)
    ultimately have "mapped_well (goMapping s)" using suggestion_fits unfolding mapped_well_def by (metis imageE subsetD)
    then show ?thesis using step_next by (simp add: wizard_inv_def) (simp add: goMapping_def Some)
  qed (simp add: goMapping_def)
next
  case (step_column s v col)
  have "destinations (setColumn col v s) = destinations s" by (rule destinations_same) (simp_all add: setColumn_def)
  moreover have "snd ` set (wz_mapping (setColumn col v s)) \<subseteq> insert v (snd ` set (wz_mapping s))" using alist_put_values by (simp add: setColumn_def)
  ultimately have "mapped_well (setColumn col v s)" using step_column unfolding mapped_well_def wizard_inv_def by fastforce
  then show ?case using step_column by (simp add: wizard_inv_def) (simp add: setColumn_def)
next
  case (step_confirm s)
  then show ?case by (simp add: wizard_inv_def goConfirm_def)
next
  case (step_uploaded s r)
  then show ?case by (auto simp: wizard_inv_def uploadSettled_def split: option.split)
qed (simp_all add: wizard_inv_def pickFile_def uploadStarted_def setKind_def startSettled_def del: option.simps)

lemma mapped_chosen: "mapped_well s \<Longrightarrow> set (map snd (chosen s)) \<subseteq> set (destinations s)"
  by (auto simp: mapped_well_def chosen_def)


definition demo_preview :: import_preview where
  "demo_preview = \<lparr>ip_delimiter = '','', ip_encoding = ''utf-8'', ip_hasHeader = True, ip_columns = [''Email '', ''Note'']\<rparr>"

definition demo_wizard :: wizard where
  "demo_wizard = goConfirm (goMapping (uploadSettled (Some (''j1'', demo_preview)) (uploadStarted (pickFile (Some (''a.csv'', [])) (wizardLoaded
     (Some ([\<lparr>if_id = 3, if_apiName = ''email'', if_labels = [''E-mail''], if_unique = True\<rparr>], [''l1''], [])) newWizard)))))"


section \<open>Watching a job\<close>

definition ACTIVE :: "string list" where
  "ACTIVE = [''draft'', ''queued'', ''running'']"

record job_view =
  jv_job :: "(string \<times> json) option"
  jv_failed :: bool

text \<open>One answer of the poll, a job's status and record or a failure; the Boolean says whether the timer is set again.\<close>

definition jobTick :: "(string \<times> json) option \<Rightarrow> job_view \<Rightarrow> job_view \<times> bool" where
  "jobTick r s = (case r of
      Some (status, j) \<Rightarrow> (s\<lparr>jv_job := Some (status, j), jv_failed := False\<rparr>, List.member ACTIVE status)
    | None \<Rightarrow> (s\<lparr>jv_failed := True\<rparr>, True))"

fun jobPoll :: "(string \<times> json) option list \<Rightarrow> job_view \<Rightarrow> job_view \<times> bool" where
  "jobPoll [] s = (s, True)"
| "jobPoll (r # rs) s = (case jobTick r s of (s', again) \<Rightarrow> if again then jobPoll rs s' else (s', False))"

definition jobDone :: "job_view \<Rightarrow> bool" where
  "jobDone s \<longleftrightarrow> (case jv_job s of Some (status, _) \<Rightarrow> \<not> List.member ACTIVE status | None \<Rightarrow> False)"

text \<open>The poll ends with the first answer that is not active, and shows that job.\<close>

lemma jobPoll_ends: "r = Some (status, j) \<Longrightarrow> \<not> List.member ACTIVE status \<Longrightarrow> list_all (\<lambda>x. case x of Some (t, _) \<Rightarrow> List.member ACTIVE t | None \<Rightarrow> True) rs \<Longrightarrow>
    \<exists>s'. jobPoll (rs @ r # rest) s = (s', False) \<and> jobDone s' \<and> jv_job s' = Some (status, j)"
  by (induction rs arbitrary: s) (auto simp: jobTick_def jobDone_def split: option.splits)

section \<open>Exports\<close>

record exports =
  ex_selected :: "int list"
  ex_scope :: string
  ex_error :: "string option"
  ex_jobId :: "string option"

definition toggleField :: "int \<Rightarrow> exports \<Rightarrow> exports" where
  "toggleField i s = s\<lparr>ex_selected := if List.member (ex_selected s) i then filter (\<lambda>x. x \<noteq> i) (ex_selected s) else ex_selected s @ [i]\<rparr>"

definition exportBody :: "exports \<Rightarrow> json option" where
  "exportBody s = (if ex_selected s = [] then None
     else Some (JObj [(''fields'', JArr (map (\<lambda>i. JNum (int_num i)) (ex_selected s))), (''scope'', JStr (ex_scope s)), (''format'', JStr ''csv'')]))"

text \<open>\<open>create\<close> with the answer of its call, if it makes one; the Boolean says whether the history loads again.\<close>

definition exportCreated :: "string option \<Rightarrow> exports \<Rightarrow> exports \<times> bool" where
  "exportCreated r s = (if ex_selected s = [] then (s\<lparr>ex_error := Some ''noFields''\<rparr>, False)
     else case r of Some i \<Rightarrow> (s\<lparr>ex_error := None, ex_jobId := Some i\<rparr>, True) | None \<Rightarrow> (s\<lparr>ex_error := Some ''createFailed''\<rparr>, False))"

text \<open>\<open>live(url, expires)\<close>, with the time of expiry already read.\<close>

definition liveUrl :: "int \<Rightarrow> string option \<Rightarrow> int option \<Rightarrow> bool" where
  "liveUrl now url expires \<longleftrightarrow> (case url of Some (_ # _) \<Rightarrow> (case expires of None \<Rightarrow> True | Some e \<Rightarrow> now < e) | _ \<Rightarrow> False)"

lemma toggleField_distinct: "distinct (ex_selected s) \<Longrightarrow> distinct (ex_selected (toggleField i s))"
  by (simp add: toggleField_def)

lemma toggleField_twice: "i \<notin> set (ex_selected s) \<Longrightarrow> toggleField i (toggleField i s) = s"
proof -
  assume "i \<notin> set (ex_selected s)"
  then have "filter (\<lambda>x. x \<noteq> i) (ex_selected s) = ex_selected s" by (auto intro: filter_True)
  with \<open>i \<notin> set (ex_selected s)\<close> show ?thesis by (simp add: toggleField_def)
qed

end
