(* ===== verification/Console_Tenants.thy ===== *)
theory Console_Tenants
  imports Tenants Number_Text Console_Api
begin

text \<open>
  The console's tenants (\<open>platform/tenants\<close>): the form and its schema, the payload of its calls
  (\<open>schema.ts\<close>, \<open>tenant-form.tsx\<close>), the answers (\<open>api.ts\<close>) and the screen with its dialogs
  (\<open>tenants-client.tsx\<close>). The list of \<open>Intl.supportedValuesOf\<close> is an argument.
\<close>

section \<open>The form\<close>

record tenant_limits =
  tl_contacts :: string
  tl_emails :: string
  tl_users :: string
  tl_requests :: string

record tenant_form =
  tf_name :: string
  tf_timezone :: string
  tf_locale :: string
  tf_limits :: tenant_limits

text \<open>A text field of zod: its value, or its messages.\<close>

definition limitField :: "string \<Rightarrow> string list + string" where
  "limitField s = (let t = trim s in if t = [] \<or> is_digits t then Inr t else Inl [''errors.limitInvalid''])"

definition nameField :: "string \<Rightarrow> string list + string" where
  "nameField s = (if length s < 1 then Inl [''errors.nameRequired''] else if 200 < length s then Inl [''errors.nameTooLong''] else Inr s)"

definition timezoneField :: "(string \<Rightarrow> bool) \<Rightarrow> string \<Rightarrow> string list + string" where
  "timezoneField listed s =
    (case (if length s < 1 then [''errors.timezoneRequired''] else []) @ (if listed s then [] else [''errors.timezoneInvalid'']) of
       [] \<Rightarrow> Inr s | es \<Rightarrow> Inl es)"

definition localeField :: "string \<Rightarrow> string list + string" where
  "localeField s = (if List.member LOCALES s then Inr s else Inl [''errors.localeRequired''])"

definition issues_at :: "string \<Rightarrow> string list + string \<Rightarrow> (string \<times> string) list" where
  "issues_at path r = (case r of Inl es \<Rightarrow> map (\<lambda>e. (path, e)) es | Inr _ \<Rightarrow> [])"

definition right :: "'e + string \<Rightarrow> string" where
  "right r = (case r of Inr x \<Rightarrow> x | Inl _ \<Rightarrow> [])"

definition tenantFormSchema :: "(string \<Rightarrow> bool) \<Rightarrow> tenant_form \<Rightarrow> (string \<times> string) list + tenant_form" where
  "tenantFormSchema listed v =
    (let n = nameField (tf_name v); z = timezoneField listed (tf_timezone v); l = localeField (tf_locale v);
         a = limitField (tl_contacts (tf_limits v)); b = limitField (tl_emails (tf_limits v));
         c = limitField (tl_users (tf_limits v)); d = limitField (tl_requests (tf_limits v));
         es = issues_at ''name'' n @ issues_at ''timezone'' z @ issues_at ''default_locale'' l @ issues_at ''limits.max_contacts'' a
           @ issues_at ''limits.max_emails_per_month'' b @ issues_at ''limits.max_users'' c @ issues_at ''limits.max_api_requests_per_minute'' d
     in if es = [] then Inr \<lparr>tf_name = right n, tf_timezone = right z, tf_locale = right l,
            tf_limits = \<lparr>tl_contacts = right a, tl_emails = right b, tl_users = right c, tl_requests = right d\<rparr>\<rparr>
        else Inl es)"

definition toNullableInt :: "string \<Rightarrow> json" where
  "toNullableInt s = (if s = [] then JNull else case js_number s of Some n \<Rightarrow> JNum n | None \<Rightarrow> JNull)"

definition toTenantPayload :: "tenant_form \<Rightarrow> json" where
  "toTenantPayload v = JObj [(''name'', JStr (tf_name v)), (''timezone'', JStr (tf_timezone v)), (''default_locale'', JStr (tf_locale v)),
     (''limits'', JObj [(''max_contacts'', toNullableInt (tl_contacts (tf_limits v))), (''max_emails_per_month'', toNullableInt (tl_emails (tf_limits v))),
       (''max_users'', toNullableInt (tl_users (tf_limits v))), (''max_api_requests_per_minute'', toNullableInt (tl_requests (tf_limits v)))])]"

definition toFieldString :: "json option \<Rightarrow> string" where
  "toFieldString v = (case v of None \<Rightarrow> [] | Some JNull \<Rightarrow> [] | Some x \<Rightarrow> js_string x)"

definition toDefaultValues :: "tenant_dto option \<Rightarrow> tenant_form" where
  "toDefaultValues t = (case t of
      None \<Rightarrow> \<lparr>tf_name = [], tf_timezone = [], tf_locale = ''es'', tf_limits = \<lparr>tl_contacts = [], tl_emails = [], tl_users = [], tl_requests = []\<rparr>\<rparr>
    | Some d \<Rightarrow> \<lparr>tf_name = te_name d, tf_timezone = te_timezone d, tf_locale = te_default_locale d,
        tf_limits = \<lparr>tl_contacts = toFieldString (obj_get (te_limits d) ''max_contacts''), tl_emails = toFieldString (obj_get (te_limits d) ''max_emails_per_month''),
          tl_users = toFieldString (obj_get (te_limits d) ''max_users''), tl_requests = toFieldString (obj_get (te_limits d) ''max_api_requests_per_minute'')\<rparr>\<rparr>)"

section \<open>Answers\<close>

record api_problem =
  ap_title :: "string option"
  ap_detail :: "string option"
  ap_status :: "nat option"

definition unwrapTenant :: "'a option \<Rightarrow> api_problem option \<Rightarrow> (string \<times> nat option) + 'a" where
  "unwrapTenant data err = (case err of
      Some e \<Rightarrow> Inl (case ap_detail e of Some d \<Rightarrow> d | None \<Rightarrow> (case ap_title e of Some x \<Rightarrow> x | None \<Rightarrow> ''request_failed''), ap_status e)
    | None \<Rightarrow> (case data of None \<Rightarrow> Inl (''request_failed'', None) | Some x \<Rightarrow> Inr x))"

text \<open>How a call of the screen ended: with a value, with a \<open>TenantApiError\<close>, or thrown otherwise.\<close>

datatype 'a outcome = Answered 'a | Refused string | Thrown

definition outcome_of :: "('a option \<times> api_problem option) option \<Rightarrow> 'a outcome" where
  "outcome_of r = (case r of None \<Rightarrow> Thrown
     | Some (d, e) \<Rightarrow> (case unwrapTenant d e of Inl (m, _) \<Rightarrow> Refused m | Inr x \<Rightarrow> Answered x))"

section \<open>The screen\<close>

datatype tenant_dialog = Closed | CreateDialog | EditDialog tenant_dto | ConfirmDialog tenant_dto string

datatype toast = SuccessToast string | ErrorToast string

record tenants_screen =
  tx_tenants :: "tenant_dto list"
  tx_next :: "string option"
  tx_loading :: bool
  tx_loadingMore :: bool
  tx_error :: bool
  tx_dialog :: tenant_dialog
  tx_submitting :: bool
  tx_toasts :: "toast list"

definition newTenantsScreen :: tenants_screen where
  "newTenantsScreen = \<lparr>tx_tenants = [], tx_next = None, tx_loading = True, tx_loadingMore = False, tx_error = False, tx_dialog = Closed,
     tx_submitting = False, tx_toasts = []\<rparr>"

definition toasted :: "toast \<Rightarrow> tenants_screen \<Rightarrow> tenants_screen" where
  "toasted x s = s\<lparr>tx_toasts := tx_toasts s @ [x]\<rparr>"

definition loadFirstPage :: "tenants_screen \<Rightarrow> tenants_screen" where
  "loadFirstPage s = s\<lparr>tx_loading := True, tx_error := False\<rparr>"

definition firstPage :: "(tenant_dto list \<times> string option) outcome \<Rightarrow> tenants_screen \<Rightarrow> tenants_screen" where
  "firstPage r s = (case r of Answered (ts, nx) \<Rightarrow> s\<lparr>tx_tenants := ts, tx_next := nx, tx_loading := False\<rparr>
     | _ \<Rightarrow> s\<lparr>tx_error := True, tx_loading := False\<rparr>)"

text \<open>The cursor of the call \<open>loadMore\<close> makes, if any, and what its answer does.\<close>

definition loadMoreTenants :: "tenants_screen \<Rightarrow> string option \<times> tenants_screen" where
  "loadMoreTenants s = (case tx_next s of Some (c # cs) \<Rightarrow> (Some (c # cs), s\<lparr>tx_loadingMore := True\<rparr>) | _ \<Rightarrow> (None, s))"

definition morePage :: "(tenant_dto list \<times> string option) outcome \<Rightarrow> tenants_screen \<Rightarrow> tenants_screen" where
  "morePage r s = (case r of Answered (ts, nx) \<Rightarrow> s\<lparr>tx_tenants := tx_tenants s @ ts, tx_next := nx, tx_loadingMore := False\<rparr>
     | _ \<Rightarrow> toasted (ErrorToast ''errors.loadMoreFailed'') (s\<lparr>tx_loadingMore := False\<rparr>))"

definition submitted :: "tenants_screen \<Rightarrow> tenants_screen" where
  "submitted s = s\<lparr>tx_submitting := True\<rparr>"

text \<open>The end the three handlers share: what a success does to the rows, and its message.\<close>

definition settled :: "(tenant_dto \<Rightarrow> tenant_dto list \<Rightarrow> tenant_dto list) \<Rightarrow> string \<Rightarrow> tenant_dto outcome \<Rightarrow> tenants_screen \<Rightarrow> tenants_screen" where
  "settled f msg r s = (case r of
      Answered x \<Rightarrow> toasted (SuccessToast msg) (s\<lparr>tx_tenants := f x (tx_tenants s), tx_dialog := Closed, tx_submitting := False\<rparr>)
    | Refused m \<Rightarrow> toasted (ErrorToast m) (s\<lparr>tx_submitting := False\<rparr>)
    | Thrown \<Rightarrow> toasted (ErrorToast ''errors.generic'') (s\<lparr>tx_submitting := False\<rparr>))"

definition replaced :: "tenant_dto \<Rightarrow> tenant_dto list \<Rightarrow> tenant_dto list" where
  "replaced u ts = map (\<lambda>t. if te_id t = te_id u then u else t) ts"

definition handleCreate :: "tenant_dto outcome \<Rightarrow> tenants_screen \<Rightarrow> tenants_screen" where
  "handleCreate r s = settled (#) ''toasts.created'' r s"

definition editCall :: "tenants_screen \<Rightarrow> tenant_form \<Rightarrow> (string \<times> json) option" where
  "editCall s v = (case tx_dialog s of EditDialog t \<Rightarrow> Some (te_id t, toTenantPayload v) | _ \<Rightarrow> None)"

definition handleEdit :: "tenant_dto outcome \<Rightarrow> tenants_screen \<Rightarrow> tenants_screen" where
  "handleEdit r s = settled replaced ''toasts.updated'' r s"

definition askStatus :: "tenant_dto \<Rightarrow> tenants_screen \<Rightarrow> tenants_screen" where
  "askStatus t s = s\<lparr>tx_dialog := ConfirmDialog t (if te_status t = ''active'' then ''suspended'' else ''active'')\<rparr>"

definition confirmCall :: "tenants_screen \<Rightarrow> (string \<times> json) option" where
  "confirmCall s = (case tx_dialog s of ConfirmDialog t st \<Rightarrow> Some (te_id t, JObj [(''status'', JStr st)]) | _ \<Rightarrow> None)"

definition handleConfirmStatus :: "string \<Rightarrow> tenant_dto outcome \<Rightarrow> tenants_screen \<Rightarrow> tenants_screen" where
  "handleConfirmStatus st r s = settled replaced (if st = ''suspended'' then ''toasts.suspended'' else ''toasts.reactivated'') r s"

text \<open>What the screen shows below its title.\<close>

datatype tenants_view = ShowLoading | ShowError | ShowEmpty | ShowTenants "tenant_dto list" bool

definition tenantsView :: "tenants_screen \<Rightarrow> tenants_view" where
  "tenantsView s = (if tx_loading s then ShowLoading else if tx_error s then ShowError else if tx_tenants s = [] then ShowEmpty
     else ShowTenants (tx_tenants s) (case tx_next s of Some (_ # _) \<Rightarrow> True | _ \<Rightarrow> False))"

section \<open>The form and the core\<close>

lemma digits_number: "is_digits s \<Longrightarrow> \<exists>n. js_number s = Some n \<and> is_int_num n \<and> 0 \<le> mant n"
proof -
  assume d: "is_digits s"
  then obtain c r where c: "s = c # r" "digit_char c" by (cases s) (auto simp: is_digits_def)
  have all: "list_all digit_char s" using d by (simp add: is_digits_def)
  have "js_number (sign_text False @ s) = Some (mk_dec ((if False then - 1 else 1) * digits_int (s @ [])) (length ([] :: string)))"
    by (rule number_of_mantissa[OF _ c]) (use all c plain_mantissa(1) in \<open>auto simp: list_all_iff\<close>)
  then show ?thesis by (simp add: sign_text_def is_int_num_def digits_int_def)
qed

lemma limit_of_field: "limitField s = Inr t \<Longrightarrow> is_limit (toNullableInt t)"
  using digits_number[of t] by (auto simp: limitField_def toNullableInt_def is_limit_def Let_def split: if_splits)

definition form_limits :: "tenant_form \<Rightarrow> json" where
  "form_limits v = the (obj_get (toTenantPayload v) ''limits'')"

lemma some_message: "nameField x \<noteq> Inl []" "timezoneField listed x \<noteq> Inl []" "localeField x \<noteq> Inl []" "limitField x \<noteq> Inl []"
  by (auto simp: nameField_def timezoneField_def localeField_def limitField_def Let_def split: list.splits)

lemma no_issues: "r \<noteq> Inl [] \<Longrightarrow> issues_at p r = [] \<Longrightarrow> r = Inr (right r)"
  by (cases r) (auto simp: issues_at_def right_def)

lemma form_valid:
  assumes "tenantFormSchema listed v = Inr w"
  shows "nameField (tf_name v) = Inr (tf_name w)" "timezoneField listed (tf_timezone v) = Inr (tf_timezone w)" "localeField (tf_locale v) = Inr (tf_locale w)"
    "limitField (tl_contacts (tf_limits v)) = Inr (tl_contacts (tf_limits w))" "limitField (tl_emails (tf_limits v)) = Inr (tl_emails (tf_limits w))"
    "limitField (tl_users (tf_limits v)) = Inr (tl_users (tf_limits w))" "limitField (tl_requests (tf_limits v)) = Inr (tl_requests (tf_limits w))"
proof -
  have "w = \<lparr>tf_name = right (nameField (tf_name v)), tf_timezone = right (timezoneField listed (tf_timezone v)), tf_locale = right (localeField (tf_locale v)),
      tf_limits = \<lparr>tl_contacts = right (limitField (tl_contacts (tf_limits v))), tl_emails = right (limitField (tl_emails (tf_limits v))),
        tl_users = right (limitField (tl_users (tf_limits v))), tl_requests = right (limitField (tl_requests (tf_limits v)))\<rparr>\<rparr>"
    and "issues_at ''name'' (nameField (tf_name v)) = []" "issues_at ''timezone'' (timezoneField listed (tf_timezone v)) = []"
      "issues_at ''default_locale'' (localeField (tf_locale v)) = []" "issues_at ''limits.max_contacts'' (limitField (tl_contacts (tf_limits v))) = []"
      "issues_at ''limits.max_emails_per_month'' (limitField (tl_emails (tf_limits v))) = []" "issues_at ''limits.max_users'' (limitField (tl_users (tf_limits v))) = []"
      "issues_at ''limits.max_api_requests_per_minute'' (limitField (tl_requests (tf_limits v))) = []"
    using assms unfolding tenantFormSchema_def Let_def by (simp_all split: if_splits)
  then show "nameField (tf_name v) = Inr (tf_name w)" "timezoneField listed (tf_timezone v) = Inr (tf_timezone w)" "localeField (tf_locale v) = Inr (tf_locale w)"
    "limitField (tl_contacts (tf_limits v)) = Inr (tl_contacts (tf_limits w))" "limitField (tl_emails (tf_limits v)) = Inr (tl_emails (tf_limits w))"
    "limitField (tl_users (tf_limits v)) = Inr (tl_users (tf_limits w))" "limitField (tl_requests (tf_limits v)) = Inr (tl_requests (tf_limits w))"
    using no_issues[OF some_message(1)] no_issues[OF some_message(2)] no_issues[OF some_message(3)] no_issues[OF some_message(4)] by simp_all
qed

lemma form_fields:
  assumes "tenantFormSchema listed v = Inr w"
  shows "1 \<le> length (tf_name w)" "length (tf_name w) \<le> 200" "1 \<le> length (tf_timezone w)" "listed (tf_timezone w)" "tf_locale w \<in> set LOCALES"
    and "\<forall>p \<in> set (case form_limits w of JObj kvs \<Rightarrow> kvs | _ \<Rightarrow> []). is_limit (snd p)"
proof -
  note valid = form_valid[OF assms]
  show "1 \<le> length (tf_name w)" "length (tf_name w) \<le> 200" using valid(1) by (auto simp: nameField_def Suc_le_eq split: if_splits)
  show "1 \<le> length (tf_timezone w)" "listed (tf_timezone w)" using valid(2) by (auto simp: timezoneField_def Suc_le_eq split: if_splits list.splits)
  show "tf_locale w \<in> set LOCALES" using valid(3) by (auto simp: localeField_def split: if_splits)
  show "\<forall>p \<in> set (case form_limits w of JObj kvs \<Rightarrow> kvs | _ \<Rightarrow> []). is_limit (snd p)"
    using valid(4-7) limit_of_field by (simp add: form_limits_def toTenantPayload_def obj_get_def)
qed

lemma payload_limits: "\<forall>p \<in> set (case form_limits w of JObj kvs \<Rightarrow> kvs | _ \<Rightarrow> []). is_limit (snd p) \<Longrightarrow> limitsSchema (form_limits w) = Some (form_limits w)"
  by (simp add: limitsSchema_def form_limits_def toTenantPayload_def obj_get_def strict_def limit_keys_def)

lemma payload_members:
  "obj_get (toTenantPayload w) ''name'' = Some (JStr (tf_name w))" "obj_get (toTenantPayload w) ''timezone'' = Some (JStr (tf_timezone w))"
  "obj_get (toTenantPayload w) ''default_locale'' = Some (JStr (tf_locale w))" "obj_get (toTenantPayload w) ''limits'' = Some (form_limits w)"
  "obj_get (toTenantPayload w) ''admin'' = None" "obj_get (toTenantPayload w) ''status'' = None"
  by (simp_all add: form_limits_def toTenantPayload_def obj_get_def)

lemma form_limits_members:
  "form_limits w = JObj [(''max_contacts'', toNullableInt (tl_contacts (tf_limits w))), (''max_emails_per_month'', toNullableInt (tl_emails (tf_limits w))),
     (''max_users'', toNullableInt (tl_users (tf_limits w))), (''max_api_requests_per_minute'', toNullableInt (tl_requests (tf_limits w)))]"
  by (simp add: form_limits_def toTenantPayload_def obj_get_def)

lemma payload_strict:
  "strict [''name'', ''timezone'', ''default_locale'', ''limits'', ''admin''] (toTenantPayload w)"
  "strict [''name'', ''timezone'', ''default_locale'', ''limits'', ''status''] (toTenantPayload w)" "toTenantPayload w \<noteq> JObj []"
  by (simp_all add: strict_def toTenantPayload_def)

text \<open>Whatever the form lets through, the core takes as it stands: creating with the payload
  creates exactly the values of the form with no administrator, and the same payload is a valid
  change of a tenant, if every zone the form offers is one the core knows.\<close>

theorem tenant_form_is_accepted:
  assumes zones: "\<forall>z. listed z \<longrightarrow> isTimeZone z" and form: "tenantFormSchema listed v = Inr w"
  shows "tenantCreateSchema isTimeZone isEmail (toTenantPayload w) = Some \<lparr>tc_name = tf_name w, tc_timezone = tf_timezone w, tc_locale = tf_locale w,
      tc_limits = Some (form_limits w), tc_admin = None\<rparr> \<and>
    tenantUpdateSchema isTimeZone (toTenantPayload w) = Some \<lparr>tu_name = Some (tf_name w), tu_timezone = Some (tf_timezone w), tu_locale = Some (tf_locale w),
      tu_limits = Some (form_limits w), tu_suspended = None\<rparr>"
proof -
  note fields = form_fields[OF form]
  have z: "isTimeZone (tf_timezone w)" using zones fields(4) by blast
  have l: "limitsSchema (form_limits w) = Some (form_limits w)" by (rule payload_limits[OF fields(6)])
  note parse = parseSized_def parseEnum_def timezoneSchema_def optional_def parseLimits_def payload_members payload_strict
  show ?thesis using fields(1-3,5) z l by (simp add: tenantCreateSchema_def tenantUpdateSchema_def parse)
qed

lemma digits_trim: "is_digits s \<Longrightarrow> trim s = s"
proof -
  assume d: "is_digits s"
  have "dropWhile ws_char u = u" if "\<forall>c \<in> set u. digit_char c" for u using that digit_codes by (cases u) auto
  then show ?thesis using d by (simp add: trim_def strip_def is_digits_def list_all_iff)
qed

lemma limit_text: "is_limit x \<Longrightarrow> limitField (toFieldString (Some x)) = Inr (toFieldString (Some x)) \<and> toNullableInt (toFieldString (Some x)) = x"
proof (cases x)
  case (JNum n)
  assume "is_limit x"
  then have i: "scale n = 0" "0 \<le> mant n" by (simp_all add: JNum is_limit_def is_int_num_def)
  then have str: "num_string n = show_nat (nat (mant n))" by (simp add: num_string_def show_int_def)
  then have "is_digits (num_string n)" using show_nat_read[of "nat (mant n)"] by (simp add: is_digits_def)
  moreover have "js_number (num_string n) = Some n" by (rule number_text) (simp add: lowest_def i)
  ultimately show ?thesis using digits_trim[of "num_string n"] by (auto simp: JNum toFieldString_def limitField_def toNullableInt_def is_digits_def)
qed (simp_all add: is_limit_def toFieldString_def limitField_def toNullableInt_def trim_def strip_def)

text \<open>A tenant as the core stores it, in a zone the form offers; a limit it does not name is unlimited, like null.\<close>

definition editable_tenant :: "(string \<Rightarrow> bool) \<Rightarrow> tenant \<Rightarrow> bool" where
  "editable_tenant listed t \<longleftrightarrow> 1 \<le> length (tn_name t) \<and> length (tn_name t) \<le> 200 \<and> 1 \<le> length (tn_timezone t) \<and> listed (tn_timezone t) \<and>
     List.member LOCALES (tn_locale t) \<and> limitsSchema (tn_limits t) = Some (tn_limits t)"

definition limit_of :: "json \<Rightarrow> string \<Rightarrow> json" where
  "limit_of l k = (case obj_get l k of Some v \<Rightarrow> v | None \<Rightarrow> JNull)"

definition every_limit :: "json \<Rightarrow> json" where
  "every_limit l = JObj (map (\<lambda>k. (k, limit_of l k)) limit_keys)"

lemma same_limits: "k \<in> set limit_keys \<Longrightarrow> limit_of (every_limit l) k = limit_of l k"
  by (auto simp: limit_of_def every_limit_def limit_keys_def obj_get_def)

lemma stored_limit: "limitsSchema l = Some l' \<Longrightarrow> is_limit (limit_of l k)"
proof (cases l)
  case (JObj kvs)
  assume "limitsSchema l = Some l'"
  then have "\<forall>p \<in> set kvs. is_limit (snd p)" by (simp add: JObj limitsSchema_def list_all_iff split: if_splits)
  then have "map_of kvs k = Some x \<Longrightarrow> is_limit x" for x using map_of_SomeD[of kvs k x] by fastforce
  then show ?thesis by (cases "map_of kvs k") (simp_all add: JObj limit_of_def obj_get_def is_limit_def[of JNull])
qed (simp_all add: limitsSchema_def)

lemma limit_field_of: "is_limit (limit_of l k) \<Longrightarrow> limitField (toFieldString (obj_get l k)) = Inr (toFieldString (obj_get l k)) \<and>
    toNullableInt (toFieldString (obj_get l k)) = limit_of l k"
  using limit_text[of "limit_of l k"] by (cases "obj_get l k") (simp_all add: limit_of_def, simp add: toFieldString_def)

text \<open>Opening the form on a tenant and saving it untouched passes the form, is taken by the core
  and leaves the tenant as it was, every limit with the value it had; a tenant in a zone the form
  does not offer cannot be saved at all.\<close>

theorem untouched_tenant_form_keeps_the_tenant:
  assumes zones: "\<forall>z. listed z \<longrightarrow> isTimeZone z" and t: "editable_tenant listed t"
  shows "let v = toDefaultValues (Some (toTenantDto t)) in tenantFormSchema listed v = Inr v \<and>
    (\<exists>u. tenantUpdateSchema isTimeZone (toTenantPayload v) = Some u \<and> updated_tenant u t = t\<lparr>tn_limits := every_limit (tn_limits t)\<rparr>) \<and>
    (\<forall>z. \<not> listed z \<longrightarrow> (\<exists>es. tenantFormSchema listed (v\<lparr>tf_timezone := z\<rparr>) = Inl es))"
proof -
  let ?v = "toDefaultValues (Some (toTenantDto t))"
  obtain kvs where l: "tn_limits t = JObj kvs" using t by (cases "tn_limits t") (auto simp: editable_tenant_def limitsSchema_def)
  have lim: "is_limit (limit_of (tn_limits t) k)" for k using t stored_limit by (simp add: editable_tenant_def)
  note text_of = limit_field_of[OF lim]
  have fields: "tf_name ?v = tn_name t" "tf_timezone ?v = tn_timezone t" "tf_locale ?v = tn_locale t"
    and lims: "tf_limits ?v = \<lparr>tl_contacts = toFieldString (obj_get (tn_limits t) ''max_contacts''), tl_emails = toFieldString (obj_get (tn_limits t) ''max_emails_per_month''),
      tl_users = toFieldString (obj_get (tn_limits t) ''max_users''), tl_requests = toFieldString (obj_get (tn_limits t) ''max_api_requests_per_minute'')\<rparr>"
    by (simp_all add: toDefaultValues_def toTenantDto_def l)
  have names: "nameField (tn_name t) = Inr (tn_name t)" "timezoneField listed (tn_timezone t) = Inr (tn_timezone t)" "localeField (tn_locale t) = Inr (tn_locale t)"
    using t by (auto simp: editable_tenant_def nameField_def timezoneField_def localeField_def)
  have valid: "tenantFormSchema listed ?v = Inr ?v"
    by (simp add: tenantFormSchema_def Let_def fields lims names text_of issues_at_def right_def)
  have payload: "form_limits ?v = every_limit (tn_limits t)"
    by (simp add: form_limits_members lims text_of every_limit_def limit_keys_def)
  let ?u = "\<lparr>tu_name = Some (tf_name ?v), tu_timezone = Some (tf_timezone ?v), tu_locale = Some (tf_locale ?v), tu_limits = Some (form_limits ?v), tu_suspended = None\<rparr>"
  have "tenantUpdateSchema isTimeZone (toTenantPayload ?v) = Some ?u"
    using form_fields[OF valid] zones payload_limits[OF form_fields(6)[OF valid]]
    by (simp add: tenantUpdateSchema_def parseSized_def parseEnum_def timezoneSchema_def optional_def parseLimits_def payload_members payload_strict)
  moreover have "updated_tenant ?u t = t\<lparr>tn_limits := every_limit (tn_limits t)\<rparr>" by (simp add: updated_tenant_def fields payload)
  moreover have "\<exists>es. tenantFormSchema listed (?v\<lparr>tf_timezone := z\<rparr>) = Inl es" if "\<not> listed z" for z
    using that by (simp add: tenantFormSchema_def Let_def issues_at_def timezoneField_def)
  ultimately show ?thesis using valid by (simp add: Let_def)
qed

definition demo_zone :: "string \<Rightarrow> bool" where
  "demo_zone z \<longleftrightarrow> z = ''America/Bogota''"

definition demo_tenant :: tenant where
  "demo_tenant = \<lparr>tn_id = ''t1'', tn_name = ''Acme'', tn_timezone = ''America/Bogota'', tn_locale = ''es'',
     tn_limits = JObj [(''max_users'', JNum (int_num 25))], tn_suspended = False, tn_createdAt = 0\<rparr>"

lemma untouched_tenant_form_keeps_the_tenant_witness:
  "let v = toDefaultValues (Some (toTenantDto demo_tenant)) in tenantFormSchema demo_zone v = Inr v \<and> tl_users (tf_limits v) = ''25''"
proof -
  have t: "editable_tenant demo_zone demo_tenant"
    by (simp add: editable_tenant_def demo_tenant_def demo_zone_def LOCALES_def limitsSchema_def strict_def limit_keys_def is_limit_def is_int_num_def)
  have "tl_users (tf_limits (toDefaultValues (Some (toTenantDto demo_tenant)))) = ''25''" by code_simp
  then show ?thesis using untouched_tenant_form_keeps_the_tenant[OF _ t, of demo_zone] by (simp add: Let_def)
qed

section \<open>The screen\<close>

text \<open>An edit replaces the row of its tenant and leaves the others; what fails leaves the rows and the dialog.\<close>

lemma replaced_ids: "map te_id (replaced u ts) = map te_id ts"
  by (simp add: replaced_def comp_def)

lemma edit_keeps_the_rows: "map te_id (tx_tenants (handleEdit r s)) = map te_id (tx_tenants s)"
  by (cases r) (simp_all add: handleEdit_def settled_def toasted_def replaced_ids)

lemma failed_calls_change_no_row:
  "r \<in> {Refused m, Thrown} \<Longrightarrow> tx_tenants (settled f msg r s) = tx_tenants s \<and> tx_dialog (settled f msg r s) = tx_dialog s \<and> \<not> tx_submitting (settled f msg r s)"
  by (auto simp: settled_def toasted_def)

text \<open>A suspended tenant is offered to be reactivated and an active one to be suspended, by a body the core takes.\<close>

lemma status_call_is_accepted:
  "confirmCall (askStatus t s) = Some (te_id t, b) \<Longrightarrow> tenantUpdateSchema isTimeZone b = Some \<lparr>tu_name = None, tu_timezone = None, tu_locale = None, tu_limits = None,
     tu_suspended = Some (te_status t = ''active'')\<rparr>"
  by (auto simp: confirmCall_def askStatus_def tenantUpdateSchema_def strict_def obj_get_def optional_def parseTenantStatus_def parseEnum_def split: if_splits)

end
