(* ===== verification/Console_Settings.thy ===== *)
theory Console_Settings
  imports Console_Nav
begin

text \<open>
  The console's settings: the screens of users (\<open>settings/users/users-screen.tsx\<close>) and of roles
  (\<open>settings/roles/roles-screen.tsx\<close>). A handler that calls the core is two functions, what it
  does before the call and what it does with the answer. A failed fetch throws, and leaves what
  was done before.
\<close>

section \<open>Users\<close>

record users_screen =
  ux_users :: "user_dto list option"
  ux_roles :: "role_dto list option"
  ux_loadError :: bool
  ux_search :: string
  ux_email :: string
  ux_roleIds :: "string list"
  ux_inviteError :: "string option"
  ux_inviteSuccess :: "string option"
  ux_submitting :: bool
  ux_editing :: "string option"
  ux_editingIds :: "string list"
  ux_rowError :: "(string \<times> string) list"
  ux_rowBusy :: "(string \<times> bool) list"

definition newUsers :: users_screen where
  "newUsers = \<lparr>ux_users = None, ux_roles = None, ux_loadError = False, ux_search = [], ux_email = [], ux_roleIds = [], ux_inviteError = None,
     ux_inviteSuccess = None, ux_submitting = False, ux_editing = None, ux_editingIds = [], ux_rowError = [], ux_rowBusy = []\<rparr>"

text \<open>An answer to a list: whether it was in order, and its items if it has data.\<close>

definition usersLoaded :: "bool \<times> user_dto list option \<Rightarrow> bool \<times> role_dto list option \<Rightarrow> users_screen \<Rightarrow> users_screen" where
  "usersLoaded u r s = (if \<not> fst u \<or> \<not> fst r then s\<lparr>ux_loadError := True\<rparr>
     else s\<lparr>ux_loadError := False, ux_users := Some (case snd u of Some xs \<Rightarrow> xs | None \<Rightarrow> []), ux_roles := Some (case snd r of Some xs \<Rightarrow> xs | None \<Rightarrow> [])\<rparr>)"

definition roleNameById :: "users_screen \<Rightarrow> (string \<times> string) list" where
  "roleNameById s = fold (\<lambda>r. alist_put (rd_id r) (rd_name r)) (case ux_roles s of Some rs \<Rightarrow> rs | None \<Rightarrow> []) []"

definition roleNames :: "users_screen \<Rightarrow> user_dto \<Rightarrow> string" where
  "roleNames s u = join_with '', '' (map (\<lambda>i. case map_of (roleNameById s) i of Some n \<Rightarrow> n | None \<Rightarrow> i) (ud_role_ids u))"

definition text_includes :: "string \<Rightarrow> string \<Rightarrow> bool" where
  "text_includes s q \<longleftrightarrow> list_ex (\<lambda>i. take (length q) (drop i s) = q) [0..<Suc (length s)]"

definition filteredUsers :: "users_screen \<Rightarrow> user_dto list" where
  "filteredUsers s = (case ux_users s of None \<Rightarrow> []
     | Some us \<Rightarrow> let q = lower (trim (ux_search s)) in if q = [] then us
         else filter (\<lambda>u. text_includes (lower (ud_email u)) q \<or> text_includes (lower (case ud_name u of Some n \<Rightarrow> n | None \<Rightarrow> [])) q) us)"

definition toggled :: "string \<Rightarrow> string list \<Rightarrow> string list" where
  "toggled i xs = (if List.member xs i then filter (\<lambda>x. x \<noteq> i) xs else xs @ [i])"

definition toggleInviteRole :: "string \<Rightarrow> users_screen \<Rightarrow> users_screen" where
  "toggleInviteRole i s = s\<lparr>ux_roleIds := toggled i (ux_roleIds s)\<rparr>"

definition inviteBody :: "users_screen \<Rightarrow> json option" where
  "inviteBody s = (if length (ux_roleIds s) = 0 then None
     else Some (JObj [(''email'', JStr (ux_email s)), (''role_ids'', JArr (map JStr (ux_roleIds s)))]))"

definition inviteStarted :: "users_screen \<Rightarrow> users_screen" where
  "inviteStarted s = (if length (ux_roleIds s) = 0 then s\<lparr>ux_inviteError := Some ''invite.rolesRequired''\<rparr>
     else s\<lparr>ux_submitting := True, ux_inviteError := None, ux_inviteSuccess := None\<rparr>)"

definition error_key :: "user_op \<Rightarrow> nat \<Rightarrow> string" where
  "error_key op status = ''errors.'' @ (case classifyUserError op status of DuplicateEmail \<Rightarrow> ''duplicateEmail'' | LastAdmin \<Rightarrow> ''lastAdmin'' | GenericError \<Rightarrow> ''generic'')"

definition status_ok :: "nat \<Rightarrow> bool" where
  "status_ok n \<longleftrightarrow> 200 \<le> n \<and> n < 300"

text \<open>The answer of a call, with the mail address of the user it made; the Boolean says whether the lists load again.\<close>

definition inviteSettled :: "nat \<Rightarrow> string option \<Rightarrow> users_screen \<Rightarrow> users_screen \<times> bool" where
  "inviteSettled status r s = (case r of
      Some e \<Rightarrow> if status_ok status then (s\<lparr>ux_submitting := False, ux_inviteSuccess := Some e, ux_email := [], ux_roleIds := []\<rparr>, True)
        else (s\<lparr>ux_submitting := False, ux_inviteError := Some (error_key OpInvite status)\<rparr>, False)
    | None \<Rightarrow> (s\<lparr>ux_submitting := False, ux_inviteError := Some (error_key OpInvite status)\<rparr>, False))"

definition startEditRoles :: "user_dto \<Rightarrow> users_screen \<Rightarrow> users_screen" where
  "startEditRoles u s = s\<lparr>ux_editing := Some (ud_id u), ux_editingIds := ud_role_ids u, ux_rowError := alist_put (ud_id u) [] (ux_rowError s)\<rparr>"

definition toggleEditingRole :: "string \<Rightarrow> users_screen \<Rightarrow> users_screen" where
  "toggleEditingRole i s = s\<lparr>ux_editingIds := toggled i (ux_editingIds s)\<rparr>"

definition rolesBody :: "users_screen \<Rightarrow> json" where
  "rolesBody s = JObj [(''role_ids'', JArr (map JStr (ux_editingIds s)))]"

definition rowStarted :: "user_dto \<Rightarrow> users_screen \<Rightarrow> users_screen" where
  "rowStarted u s = s\<lparr>ux_rowBusy := alist_put (ud_id u) True (ux_rowBusy s)\<rparr>"

definition rowSettled :: "user_op \<Rightarrow> user_dto \<Rightarrow> nat \<Rightarrow> (users_screen \<Rightarrow> users_screen) \<Rightarrow> users_screen \<Rightarrow> users_screen \<times> bool" where
  "rowSettled op u status done s = (let s' = s\<lparr>ux_rowBusy := alist_put (ud_id u) False (ux_rowBusy s)\<rparr> in
     if status_ok status then (done s', True) else (s'\<lparr>ux_rowError := alist_put (ud_id u) (error_key op status) (ux_rowError s)\<rparr>, False))"

definition saveRoles :: "user_dto \<Rightarrow> nat \<Rightarrow> users_screen \<Rightarrow> users_screen \<times> bool" where
  "saveRoles u status s = rowSettled OpRoles u status (\<lambda>x. x\<lparr>ux_editing := None\<rparr>) s"

definition nextStatus :: "user_dto \<Rightarrow> string" where
  "nextStatus u = (if ud_status u = ''disabled'' then ''active'' else ''disabled'')"

text \<open>The body of \<open>toggleStatus\<close>, if the dialog was confirmed.\<close>

definition statusBody :: "bool \<Rightarrow> user_dto \<Rightarrow> json option" where
  "statusBody confirmed u = (if confirmed then Some (JObj [(''status'', JStr (nextStatus u))]) else None)"

definition toggleStatus :: "user_dto \<Rightarrow> nat \<Rightarrow> users_screen \<Rightarrow> users_screen \<times> bool" where
  "toggleStatus u status s = rowSettled OpStatus u status id s"

definition deleteUser :: "user_dto \<Rightarrow> nat \<Rightarrow> users_screen \<Rightarrow> users_screen \<times> bool" where
  "deleteUser u status s = rowSettled OpDelete u status id s"

datatype users_view = NoUsers | UserTable "user_dto list" | NoTable

definition usersView :: "users_screen \<Rightarrow> users_view" where
  "usersView s = (if ux_users s = None then NoTable else if filteredUsers s \<noteq> [] then UserTable (filteredUsers s)
     else if ux_loadError s then NoTable else NoUsers)"

text \<open>The bodies are ones the core reads as meant.\<close>

lemma read_uuids: "list_all is_uuid xs \<Longrightarrow> parseAll parseUuid (map JStr xs) = Some xs"
  by (induction xs) (simp_all add: parseUuid_def)

lemma invite_body_is_read:
  "inviteBody s = Some b \<Longrightarrow> list_all is_uuid (ux_roleIds s) \<Longrightarrow> isEmail (ux_email s) \<Longrightarrow>
    inviteUserSchema isEmail b = Some \<lparr>ii_email = ux_email s, ii_role_ids = ux_roleIds s, ii_locale = None\<rparr>"
  by (auto simp: inviteBody_def inviteUserSchema_def obj_get_def parseEmail_def parseArray_def read_uuids optional_def Suc_le_eq split: if_splits)

lemma roles_body_is_read:
  "list_all is_uuid (ux_editingIds s) \<Longrightarrow> updateUserSchema (rolesBody s) = Some \<lparr>uu_name = None, uu_role_ids = Some (ux_editingIds s), uu_status = None\<rparr>"
  by (simp add: rolesBody_def updateUserSchema_def obj_get_def parseArray_def read_uuids optional_def)

lemma status_body_is_read:
  "statusBody True u = Some b \<Longrightarrow> updateUserSchema b = Some \<lparr>uu_name = None, uu_role_ids = None, uu_status = Some (if ud_status u = ''disabled'' then UActive else UDisabled)\<rparr>"
  by (auto simp: statusBody_def nextStatus_def updateUserSchema_def obj_get_def optional_def parseStatus_def)

lemma toggled_set: "set (toggled i xs) = (if i \<in> set xs then set xs - {i} else insert i (set xs))" "distinct xs \<Longrightarrow> distinct (toggled i xs)"
  by (auto simp: toggled_def)

text \<open>The answer to one user's roles closes whatever editor is open: roles ticked for another user meanwhile are dropped.\<close>

lemma late_answer_closes_another_editor:
  "status_ok status \<Longrightarrow> ux_editing (fst (saveRoles u status (startEditRoles v (rowStarted u (startEditRoles u s))))) = None"
  by (simp add: saveRoles_def rowSettled_def Let_def)

section \<open>Roles\<close>

record roles_screen =
  rx_roles :: "role_dto list option"
  rx_loadError :: bool
  rx_editing :: "string option"
  rx_draft :: "(string \<times> permission) list"
  rx_saving :: bool
  rx_rowError :: "(string \<times> string) list"

definition newRoles :: roles_screen where
  "newRoles = \<lparr>rx_roles = None, rx_loadError = False, rx_editing = None, rx_draft = [], rx_saving = False, rx_rowError = []\<rparr>"

definition rolesLoaded :: "bool \<times> role_dto list option \<Rightarrow> roles_screen \<Rightarrow> roles_screen" where
  "rolesLoaded r s = (case r of (True, Some rs) \<Rightarrow> s\<lparr>rx_loadError := False, rx_roles := Some rs\<rparr> | _ \<Rightarrow> s\<lparr>rx_loadError := True\<rparr>)"

definition startEditRole :: "role_dto \<Rightarrow> roles_screen \<Rightarrow> roles_screen" where
  "startEditRole r s = s\<lparr>rx_editing := Some (rd_id r), rx_draft := fold (\<lambda>p. alist_put (permissionKey (fst p) (snd p)) p) (rd_permissions r) [],
     rx_rowError := alist_put (rd_id r) [] (rx_rowError s)\<rparr>"

definition toggleCell :: "string \<Rightarrow> string \<Rightarrow> roles_screen \<Rightarrow> roles_screen" where
  "toggleCell m a s = s\<lparr>rx_draft := (if map_of (rx_draft s) (permissionKey m a) \<noteq> None then alist_del (permissionKey m a) (rx_draft s)
     else alist_put (permissionKey m a) (m, a) (rx_draft s))\<rparr>"

definition permission_json :: "permission \<Rightarrow> json" where
  "permission_json p = JObj [(''module'', JStr (fst p)), (''action'', JStr (snd p))]"

definition roleBody :: "roles_screen \<Rightarrow> json" where
  "roleBody s = JObj [(''permissions'', JArr (map (\<lambda>(k, p). permission_json p) (rx_draft s)))]"

definition roleSaving :: "roles_screen \<Rightarrow> roles_screen" where
  "roleSaving s = s\<lparr>rx_saving := True\<rparr>"

definition saveRole :: "role_dto \<Rightarrow> nat \<Rightarrow> roles_screen \<Rightarrow> roles_screen \<times> bool" where
  "saveRole r status s = (if status_ok status then (s\<lparr>rx_saving := False, rx_editing := None\<rparr>, True)
     else (s\<lparr>rx_saving := False, rx_rowError := alist_put (rd_id r) ''errors.generic'' (rx_rowError s)\<rparr>, False))"

text \<open>Whether \<open>deleteRole\<close> calls the core, and the end of that call.\<close>

definition deletesRole :: "bool \<Rightarrow> role_dto \<Rightarrow> bool" where
  "deletesRole confirmed r \<longleftrightarrow> \<not> isDefaultRole (rd_name r) \<and> confirmed"

definition deleteRole :: "role_dto \<Rightarrow> nat \<Rightarrow> roles_screen \<Rightarrow> roles_screen \<times> bool" where
  "deleteRole r status s = (if status_ok status then (s, True)
     else (s\<lparr>rx_rowError := alist_put (rd_id r) ''errors.generic'' (rx_rowError s)\<rparr>, False))"

section \<open>The boxes of a role\<close>

text \<open>The draft maps each key to its permission, and keys tell permissions of the catalog apart.\<close>

definition known_permission :: "permission \<Rightarrow> bool" where
  "known_permission p \<longleftrightarrow> List.member PERMISSION_MODULES (fst p) \<and> List.member PERMISSION_ACTIONS (snd p)"

definition draft_inv :: "(string \<times> permission) list \<Rightarrow> bool" where
  "draft_inv d \<longleftrightarrow> distinct (map fst d) \<and> (\<forall>x \<in> set d. known_permission (snd x) \<and> fst x = permissionKey (fst (snd x)) (snd (snd x)))"

lemma module_part: "List.member PERMISSION_MODULES m \<Longrightarrow> takeWhile (\<lambda>c. c \<noteq> CHR '':'') (permissionKey m a) = m"
  by (auto simp: permissionKey_def PERMISSION_MODULES_def)

lemma permissionKey_inj: "known_permission p \<Longrightarrow> known_permission q \<Longrightarrow> permissionKey (fst p) (snd p) = permissionKey (fst q) (snd q) \<Longrightarrow> p = q"
proof -
  assume p: "known_permission p" and q: "known_permission q" and k: "permissionKey (fst p) (snd p) = permissionKey (fst q) (snd q)"
  then have m: "fst p = fst q" using module_part[of "fst p" "snd p"] module_part[of "fst q" "snd q"] by (simp add: known_permission_def)
  with k show ?thesis by (simp add: permissionKey_def prod_eq_iff)
qed

lemma draft_entry: "draft_inv d \<Longrightarrow> known_permission p \<Longrightarrow> map_of d (permissionKey (fst p) (snd p)) = (if p \<in> snd ` set d then Some p else None)"
proof -
  assume d: "draft_inv d" and p: "known_permission p"
  let ?k = "permissionKey (fst p) (snd p)"
  show ?thesis
  proof (cases "p \<in> snd ` set d")
    case True
    then have "(?k, p) \<in> set d" using d by (auto simp: draft_inv_def)
    then show ?thesis using d True by (simp add: draft_inv_def map_of_is_SomeI)
  next
    case False
    have "map_of d ?k = None"
    proof (rule ccontr)
      assume "map_of d ?k \<noteq> None"
      then obtain q where q: "(?k, q) \<in> set d" by (auto dest: map_of_SomeD)
      then have "q = p" using d p by (auto simp: draft_inv_def intro!: permissionKey_inj[symmetric])
      with q False show False by force
    qed
    then show ?thesis using False by simp
  qed
qed

lemma draft_put:
  assumes d: "draft_inv d" and p: "known_permission p"
  shows "draft_inv (alist_put (permissionKey (fst p) (snd p)) p d)" "snd ` set (alist_put (permissionKey (fst p) (snd p)) p d) = insert p (snd ` set d)"
proof -
  let ?k = "permissionKey (fst p) (snd p)" let ?d = "alist_put ?k p d"
  have dist: "distinct (map fst ?d)" using d by (simp add: draft_inv_def)
  have entries: "x \<in> set ?d \<longleftrightarrow> x = (?k, p) \<or> x \<in> set d \<and> fst x \<noteq> ?k" for x
  proof -
    obtain k q where x: "x = (k, q)" by (cases x)
    have "x \<in> set ?d \<longleftrightarrow> map_of ?d k = Some q" unfolding x by (rule map_of_eq_Some_iff[OF dist, symmetric])
    also have "\<dots> \<longleftrightarrow> (if k = ?k then q = p else map_of d k = Some q)" by auto
    also have "\<dots> \<longleftrightarrow> x = (?k, p) \<or> x \<in> set d \<and> fst x \<noteq> ?k" using d x by (auto simp: draft_inv_def map_of_eq_Some_iff)
    finally show ?thesis .
  qed
  have good: "known_permission (snd x) \<and> fst x = permissionKey (fst (snd x)) (snd (snd x))" if "x \<in> set d" for x
    using that d by (simp add: draft_inv_def)
  have "known_permission (snd x) \<and> fst x = permissionKey (fst (snd x)) (snd (snd x))" if "x \<in> set ?d" for x
  proof (cases "x = (?k, p)")
    case False
    then show ?thesis using good that entries[of x] by blast
  qed (simp add: p)
  then show "draft_inv ?d" using dist unfolding draft_inv_def by blast
  have same: "snd x = p" if "x \<in> set d" "fst x = ?k" for x using permissionKey_inj[OF _ p] good[OF that(1)] that(2) by simp
  have "q \<in> snd ` set ?d \<longleftrightarrow> q \<in> insert p (snd ` set d)" for q
  proof
    assume "q \<in> insert p (snd ` set d)"
    then consider "q = p" | x where "x \<in> set d" "q = snd x" "q \<noteq> p" by blast
    then show "q \<in> snd ` set ?d"
    proof cases
      case 1
      then show ?thesis using entries[of "(?k, p)"] by (intro image_eqI[of _ _ "(?k, p)"]) simp_all
    next
      case 2
      then show ?thesis using entries[of x] same[of x] by blast
    qed
  next
    assume "q \<in> snd ` set ?d"
    then obtain x where "x \<in> set ?d" "q = snd x" by blast
    then show "q \<in> insert p (snd ` set d)" using entries[of x] by auto
  qed
  then show "snd ` set ?d = insert p (snd ` set d)" by blast
qed

lemma draft_del:
  assumes d: "draft_inv d" and p: "known_permission p"
  shows "draft_inv (alist_del (permissionKey (fst p) (snd p)) d)" "snd ` set (alist_del (permissionKey (fst p) (snd p)) d) = snd ` set d - {p}"
proof -
  let ?k = "permissionKey (fst p) (snd p)"
  have only: "(fst x \<noteq> ?k) = (snd x \<noteq> p)" if "x \<in> set d" for x
    using that d p permissionKey_inj[of "snd x" p] by (auto simp: draft_inv_def)
  have rest: "alist_del ?k d = filter (\<lambda>x. snd x \<noteq> p) d" unfolding alist_del_def using only by (intro filter_cong) auto
  have "distinct (map fst (alist_del ?k d))" using d by (simp add: draft_inv_def)
  then show "draft_inv (alist_del ?k d)" using d by (simp add: draft_inv_def) (simp add: rest)
  show "snd ` set (alist_del ?k d) = snd ` set d - {p}" by (auto simp: rest image_iff)
qed

text \<open>Ticking a box turns its permission over and leaves the others.\<close>

lemma toggleCell_draft:
  assumes d: "draft_inv (rx_draft s)" and p: "known_permission (m, a)"
  shows "draft_inv (rx_draft (toggleCell m a s))"
    "snd ` set (rx_draft (toggleCell m a s)) = (if (m, a) \<in> snd ` set (rx_draft s) then snd ` set (rx_draft s) - {(m, a)} else insert (m, a) (snd ` set (rx_draft s)))"
  using draft_entry[OF d p] draft_put[OF d p] draft_del[OF d p] by (simp_all add: toggleCell_def)

lemma startEdit_draft:
  assumes "list_all known_permission ps" "draft_inv d"
  shows "draft_inv (fold (\<lambda>p. alist_put (permissionKey (fst p) (snd p)) p) ps d) \<and>
    snd ` set (fold (\<lambda>p. alist_put (permissionKey (fst p) (snd p)) p) ps d) = set ps \<union> snd ` set d"
  using assms
proof (induction ps arbitrary: d)
  case (Cons p ps)
  then show ?case using draft_put[of d p] Cons.IH[of "alist_put (permissionKey (fst p) (snd p)) p d"] by simp
qed simp

lemma toggles_draft:
  assumes "list_all known_permission cells" "draft_inv (rx_draft s)"
  shows "draft_inv (rx_draft (fold (\<lambda>(m, a). toggleCell m a) cells s)) \<and>
    (\<forall>p. p \<in> snd ` set (rx_draft (fold (\<lambda>(m, a). toggleCell m a) cells s)) \<longleftrightarrow> (p \<in> snd ` set (rx_draft s)) \<noteq> odd (count_list cells p))"
  using assms
proof (induction cells arbitrary: s)
  case (Cons c cells)
  obtain m a where c: "c = (m, a)" by (cases c)
  note step = toggleCell_draft[of s m a]
  have "draft_inv (rx_draft (toggleCell m a s))" using Cons.prems step(1) by (simp add: c)
  note IH = Cons.IH[OF _ this]
  have "p \<in> snd ` set (rx_draft (toggleCell m a s)) \<longleftrightarrow> (p \<in> snd ` set (rx_draft s)) \<noteq> (p = (m, a))" for p
    using Cons.prems step(2) by (cases "p = (m, a)") (simp_all add: c)
  then show ?case using IH Cons.prems by (simp add: c) blast
qed simp

lemma read_permissions: "list_all known_permission ps \<Longrightarrow> parseAll parsePermission (map permission_json ps) = Some ps"
  by (induction ps) (auto simp: parsePermission_def permission_json_def obj_get_def known_permission_def)

text \<open>Saving the editor of a role sends a body the core accepts, and what it asks for is the
  role's permissions with each box turned over as often as it was clicked, none of them twice; the
  core refuses a list with a permission twice.\<close>

theorem saved_permissions_are_the_ticked_ones:
  assumes role: "list_all known_permission (rd_permissions r)" and cells: "list_all known_permission cells"
  shows "\<exists>ps. roleUpdateSchema (roleBody (fold (\<lambda>(m, a). toggleCell m a) cells (startEditRole r s))) = Some \<lparr>rp_name = None, rp_permissions = Some ps\<rparr> \<and>
    distinct ps \<and> (\<forall>p. p \<in> set ps \<longleftrightarrow> (p \<in> set (rd_permissions r)) \<noteq> odd (count_list cells p))"
proof -
  let ?s = "startEditRole r s" let ?t = "fold (\<lambda>(m, a). toggleCell m a) cells ?s"
  have "draft_inv (rx_draft ?s) \<and> snd ` set (rx_draft ?s) = set (rd_permissions r)"
    using startEdit_draft[OF role, of "[]"] by (simp add: startEditRole_def draft_inv_def)
  with toggles_draft[OF cells, of ?s] have t: "draft_inv (rx_draft ?t)"
    and ticked: "\<And>p. p \<in> snd ` set (rx_draft ?t) \<longleftrightarrow> (p \<in> set (rd_permissions r)) \<noteq> odd (count_list cells p)" by blast+
  let ?ps = "map snd (rx_draft ?t)"
  have known: "list_all known_permission ?ps" using t by (auto simp: draft_inv_def list_all_iff)
  have body: "roleBody ?t = JObj [(''permissions'', JArr (map permission_json ?ps))]" by (simp add: roleBody_def comp_def case_prod_beta)
  have read: "roleUpdateSchema (roleBody ?t) = Some \<lparr>rp_name = None, rp_permissions = Some ?ps\<rparr>"
    using read_permissions[OF known] by (simp add: body roleUpdateSchema_def obj_get_def optional_def parseArray_def)
  have keys: "map fst (rx_draft ?t) = map (\<lambda>p. permissionKey (fst p) (snd p)) ?ps" using t by (simp add: draft_inv_def)
  have "distinct (map (\<lambda>p. permissionKey (fst p) (snd p)) ?ps)" unfolding keys[symmetric] using t by (simp add: draft_inv_def)
  then have "distinct ?ps" by (rule distinct_map[THEN iffD1, THEN conjunct1])
  then show ?thesis using read ticked by (intro exI[of _ ?ps]) auto
qed

definition demo_role :: role_dto where
  "demo_role = \<lparr>rd_id = ''r1'', rd_name = ''Viewer'', rd_permissions = [(''contacts'', ''view''), (''email'', ''view'')], rd_created_at = []\<rparr>"

lemma saved_permissions_are_the_ticked_ones_witness:
  "\<exists>ps. roleUpdateSchema (roleBody (fold (\<lambda>(m, a). toggleCell m a) [(''contacts'', ''view''), (''contacts'', ''edit'')] (startEditRole demo_role newRoles))) =
      Some \<lparr>rp_name = None, rp_permissions = Some ps\<rparr> \<and> distinct ps \<and> (''contacts'', ''edit'') \<in> set ps \<and> (''contacts'', ''view'') \<notin> set ps \<and> (''email'', ''view'') \<in> set ps"
proof -
  have "list_all known_permission (rd_permissions demo_role)" "list_all known_permission [(''contacts'', ''view''), (''contacts'', ''edit'')]"
    by (simp_all add: demo_role_def known_permission_def PERMISSION_MODULES_def PERMISSION_ACTIONS_def)
  from saved_permissions_are_the_ticked_ones[OF this, of newRoles]
  obtain ps where ps: "roleUpdateSchema (roleBody (fold (\<lambda>(m, a). toggleCell m a) [(''contacts'', ''view''), (''contacts'', ''edit'')] (startEditRole demo_role newRoles))) =
      Some \<lparr>rp_name = None, rp_permissions = Some ps\<rparr>" "distinct ps"
    "\<And>p. p \<in> set ps \<longleftrightarrow> (p \<in> set (rd_permissions demo_role)) \<noteq> odd (count_list [(''contacts'', ''view''), (''contacts'', ''edit'')] p)" by blast
  show ?thesis by (intro exI[of _ ps] conjI ps(1,2)) (simp_all only: ps(3), simp_all add: demo_role_def)
qed

text \<open>A default role is never deleted, whatever the dialog answered.\<close>

lemma default_roles_stay: "isDefaultRole (rd_name r) \<Longrightarrow> \<not> deletesRole confirmed r"
  by (simp add: deletesRole_def)

end
