(* ===== verification/Console_Developer.thy ===== *)
theory Console_Developer
  imports Console_Nav Audit_Trail
begin

text \<open>
  The console's developer pages: API clients (\<open>developer/credentials/credentials-view.tsx\<close>) and
  the audit log (\<open>developer/audit/audit-view.tsx\<close>). A call ends with its data, or with an
  error (None). What a handler does before its call and with the answer are two functions.
\<close>

section \<open>API clients\<close>

text \<open>A client as the list holds it: a created one comes with its secret.\<close>

type_synonym client_item = "client_dto \<times> string option"

record credentials =
  cv_clients :: "client_item list"
  cv_next :: "string option"
  cv_loadError :: bool
  cv_createOpen :: bool
  cv_name :: string
  cv_scopes :: "string list"
  cv_creating :: bool
  cv_createError :: bool
  cv_newSecret :: "(string \<times> string) option"
  cv_copied :: bool
  cv_revokeTarget :: "client_item option"
  cv_revoking :: bool
  cv_revokeError :: bool

definition newCredentials :: credentials where
  "newCredentials = \<lparr>cv_clients = [], cv_next = None, cv_loadError = False, cv_createOpen = False, cv_name = [], cv_scopes = [], cv_creating = False,
     cv_createError = False, cv_newSecret = None, cv_copied = False, cv_revokeTarget = None, cv_revoking = False, cv_revokeError = False\<rparr>"

text \<open>\<open>loadClients(cursor)\<close>, with the answer.\<close>

definition cursor_given :: "string option \<Rightarrow> bool" where
  "cursor_given c \<longleftrightarrow> c \<noteq> None \<and> c \<noteq> Some []"

definition loadClients :: "string option \<Rightarrow> (client_dto list \<times> string option) option \<Rightarrow> credentials \<Rightarrow> credentials" where
  "loadClients cursor r s = (case r of None \<Rightarrow> s\<lparr>cv_loadError := True\<rparr>
     | Some (items, nx) \<Rightarrow> let rows = map (\<lambda>c. (c, None)) items in
         s\<lparr>cv_loadError := False, cv_clients := (if cursor_given cursor then cv_clients s @ rows else rows), cv_next := nx\<rparr>)"

definition toggleScope :: "string \<Rightarrow> credentials \<Rightarrow> credentials" where
  "toggleScope x s = s\<lparr>cv_scopes := (if List.member (cv_scopes s) x then filter (\<lambda>y. y \<noteq> x) (cv_scopes s) else cv_scopes s @ [x])\<rparr>"

definition closeCreateDialog :: "credentials \<Rightarrow> credentials" where
  "closeCreateDialog s = s\<lparr>cv_createOpen := False, cv_name := [], cv_scopes := [], cv_createError := False\<rparr>"

definition createBody :: "credentials \<Rightarrow> json option" where
  "createBody s = (if trim (cv_name s) = [] \<or> cv_scopes s = [] then None
     else Some (JObj [(''name'', JStr (trim (cv_name s))), (''scopes'', JArr (map JStr (cv_scopes s)))]))"

definition createStarted :: "credentials \<Rightarrow> credentials" where
  "createStarted s = (if createBody s = None then s else s\<lparr>cv_creating := True, cv_createError := False\<rparr>)"

definition createSettled :: "(client_dto \<times> string) option \<Rightarrow> credentials \<Rightarrow> credentials" where
  "createSettled r s = (case r of None \<Rightarrow> s\<lparr>cv_creating := False, cv_createError := True\<rparr>
     | Some (c, secret) \<Rightarrow> closeCreateDialog (s\<lparr>cv_creating := False, cv_clients := (c, Some secret) # cv_clients s, cv_newSecret := Some (cd_client_id c, secret)\<rparr>))"

definition closeSecretDialog :: "credentials \<Rightarrow> credentials" where
  "closeSecretDialog s = s\<lparr>cv_newSecret := None, cv_copied := False\<rparr>"

text \<open>What is written to the clipboard, and the state once that is done.\<close>

definition copySecret :: "credentials \<Rightarrow> string option \<times> credentials" where
  "copySecret s = (case cv_newSecret s of None \<Rightarrow> (None, s) | Some (_, secret) \<Rightarrow> (Some secret, s\<lparr>cv_copied := True\<rparr>))"

definition askRevoke :: "client_item \<Rightarrow> credentials \<Rightarrow> credentials" where
  "askRevoke c s = (if cd_status (fst c) = ''active'' then s\<lparr>cv_revokeTarget := Some c\<rparr> else s)"

definition revokeStarted :: "credentials \<Rightarrow> string option \<times> credentials" where
  "revokeStarted s = (case cv_revokeTarget s of None \<Rightarrow> (None, s)
     | Some c \<Rightarrow> (Some (''/api-clients/'' @ cd_id (fst c) @ ''/revoke''), s\<lparr>cv_revoking := True, cv_revokeError := False\<rparr>))"

definition revokeSettled :: "client_dto option \<Rightarrow> credentials \<Rightarrow> credentials" where
  "revokeSettled r s = (case r of None \<Rightarrow> s\<lparr>cv_revoking := False, cv_revokeError := True\<rparr>
     | Some d \<Rightarrow> s\<lparr>cv_revoking := False, cv_clients := map (\<lambda>c. if cd_id (fst c) = cd_id d then (d, None) else c) (cv_clients s), cv_revokeTarget := None\<rparr>)"

definition canSubmit :: "credentials \<Rightarrow> bool" where
  "canSubmit s \<longleftrightarrow> \<not> (cv_creating s \<or> trim (cv_name s) = [] \<or> cv_scopes s = [])"

text \<open>The boxes ticked are distinct scopes of the list.\<close>

definition scopes_inv :: "credentials \<Rightarrow> bool" where
  "scopes_inv s \<longleftrightarrow> distinct (cv_scopes s) \<and> set (cv_scopes s) \<subseteq> set AVAILABLE_SCOPES"

lemma toggleScope_inv: "x \<in> set AVAILABLE_SCOPES \<Longrightarrow> scopes_inv s \<Longrightarrow> scopes_inv (toggleScope x s)"
  by (auto simp: scopes_inv_def toggleScope_def)

lemma closeCreateDialog_inv: "scopes_inv (closeCreateDialog s)" "scopes_inv newCredentials"
  by (simp_all add: scopes_inv_def closeCreateDialog_def newCredentials_def)

lemma offered_scopes: "x \<in> set AVAILABLE_SCOPES \<Longrightarrow> parseScope (Some (JStr x)) = (if x = ''jobs:view'' then None else Some x)"
  by (auto simp: AVAILABLE_SCOPES_def parseScope_def CATALOG_def PERMISSION_MODULES_def PERMISSION_ACTIONS_def)

lemma read_scopes:
  "set xs \<subseteq> set AVAILABLE_SCOPES \<Longrightarrow> parseAll (\<lambda>x. parseScope (Some x)) (map JStr xs) = (if ''jobs:view'' \<in> set xs then None else Some xs)"
  by (induction xs) (auto simp: offered_scopes split: option.splits)

text \<open>The form for a new API client offers scopes the core grants, but for one: a body it sends is
  taken exactly when \<open>jobs:view\<close> is not among the ticked scopes and the name has at most 100
  characters, and is refused as a whole otherwise.\<close>

theorem client_form_is_accepted_without_jobs:
  assumes ticked: "scopes_inv s" and body: "createBody s = Some b"
  shows "apiClientInput b = (if ''jobs:view'' \<notin> set (cv_scopes s) \<and> length (trim (cv_name s)) \<le> 100
    then Some \<lparr>ci_name = trim (cv_name s), ci_scopes = cv_scopes s\<rparr> else None)"
proof -
  have b: "b = JObj [(''name'', JStr (trim (cv_name s))), (''scopes'', JArr (map JStr (cv_scopes s)))]" and n: "trim (cv_name s) \<noteq> []" "cv_scopes s \<noteq> []"
    using body by (auto simp: createBody_def split: if_splits)
  have "parseArray (\<lambda>x. parseScope (Some x)) (Some (JArr (map JStr (cv_scopes s)))) = (if ''jobs:view'' \<in> set (cv_scopes s) then None else Some (cv_scopes s))"
    using ticked read_scopes by (simp add: scopes_inv_def parseArray_def)
  then show ?thesis using ticked n by (auto simp: b apiClientInput_def obj_get_def parseSized_def scopes_inv_def Suc_le_eq split: if_splits)
qed

definition demo_credentials :: credentials where
  "demo_credentials = toggleScope ''jobs:view'' (toggleScope ''contacts:view'' (newCredentials\<lparr>cv_name := ''sync''\<rparr>))"

lemma client_form_is_accepted_without_jobs_witness: "\<exists>b. createBody demo_credentials = Some b \<and> apiClientInput b = None"
proof -
  have t: "scopes_inv demo_credentials" unfolding demo_credentials_def
    by (intro toggleScope_inv) (simp_all add: AVAILABLE_SCOPES_def scopes_inv_def newCredentials_def)
  have "trim ''sync'' = ''sync''" by code_simp
  then obtain b where b: "createBody demo_credentials = Some b" by (simp add: createBody_def demo_credentials_def toggleScope_def newCredentials_def)
  have "''jobs:view'' \<in> set (cv_scopes demo_credentials)" by (simp add: demo_credentials_def toggleScope_def newCredentials_def)
  with client_form_is_accepted_without_jobs[OF t b] b show ?thesis by simp
qed

text \<open>A revoked client loses its button, and a second revocation of the same client changes no row.\<close>

lemma revoked_row_is_inert:
  "cd_status d = ''revoked'' \<Longrightarrow> c \<in> set (cv_clients (revokeSettled (Some d) s)) \<Longrightarrow> cd_id (fst c) = cd_id d \<Longrightarrow> askRevoke c s' = s'"
  by (auto simp: revokeSettled_def askRevoke_def split: if_splits)

lemma revoking_twice: "cv_clients (revokeSettled (Some d) (revokeSettled (Some d) s)) = cv_clients (revokeSettled (Some d) s)"
  by (simp add: revokeSettled_def)

section \<open>The audit log\<close>

record audit_view =
  av_actor :: string
  av_type :: string
  av_from :: string
  av_to :: string
  av_entries :: "audit_dto list"
  av_next :: "string option"
  av_loadError :: bool
  av_detail :: "audit_dto option"

definition newAudit :: audit_view where
  "newAudit = \<lparr>av_actor = [], av_type = [], av_from = [], av_to = [], av_entries = [], av_next = None, av_loadError = False, av_detail = None\<rparr>"

text \<open>The query of a call; \<open>isoOf\<close> is \<open>new Date(d).toISOString()\<close> of a date field.\<close>

definition auditQuery :: "(string \<Rightarrow> string) \<Rightarrow> string option \<Rightarrow> audit_view \<Rightarrow> (string \<times> string) list" where
  "auditQuery isoOf cursor s = (if cursor_given cursor then [(''cursor'', the cursor)] else []) @ (if av_actor s \<noteq> [] then [(''actor_id'', av_actor s)] else []) @
     (if av_type s \<noteq> [] then [(''resource_type'', av_type s)] else []) @ (if av_from s \<noteq> [] then [(''from'', isoOf (av_from s))] else []) @
     (if av_to s \<noteq> [] then [(''to'', isoOf (av_to s))] else [])"

definition entriesLoaded :: "string option \<Rightarrow> (audit_dto list \<times> string option) option \<Rightarrow> audit_view \<Rightarrow> audit_view" where
  "entriesLoaded cursor r s = (case r of None \<Rightarrow> s\<lparr>av_loadError := True\<rparr>
     | Some (items, nx) \<Rightarrow> s\<lparr>av_loadError := False, av_entries := (if cursor_given cursor then av_entries s @ items else items), av_next := nx\<rparr>)"

definition resetFilters :: "audit_view \<Rightarrow> audit_view" where
  "resetFilters s = s\<lparr>av_actor := [], av_type := [], av_from := [], av_to := []\<rparr>"

text \<open>\<open>Object.entries\<close> of a JSON value, and the two members taken out of a change; None when that throws.\<close>

definition js_entries :: "json \<Rightarrow> (string \<times> json) list" where
  "js_entries v = (case v of JObj kvs \<Rightarrow> kvs | JArr vs \<Rightarrow> map (\<lambda>(i, x). (show_nat i, x)) (enumerate 0 vs)
     | JStr s \<Rightarrow> map (\<lambda>(i, c). (show_nat i, JStr [c])) (enumerate 0 s) | _ \<Rightarrow> [])"

definition before_after :: "json \<Rightarrow> (json option \<times> json option) option" where
  "before_after v = (if v = JNull then None else Some (obj_get v ''before'', obj_get v ''after''))"

datatype detail_view = NoChanges | ChangeRows "(string \<times> json option \<times> json option) list" | RenderFails

definition auditDetail :: "audit_dto \<Rightarrow> detail_view" where
  "auditDetail e = (case da_changes e of
      None \<Rightarrow> NoChanges
    | Some v \<Rightarrow> if v \<in> {JNull, JBool False, JStr [], JNum (int_num 0)} then NoChanges
        else (case those (map (\<lambda>(k, c). map_option (Pair k) (before_after c)) (js_entries v)) of
          None \<Rightarrow> RenderFails | Some rows \<Rightarrow> ChangeRows rows))"

text \<open>Resetting the filters leaves the rows, and a next page asked for then continues the old rows without the filters.\<close>

lemma reset_keeps_the_rows: "av_entries (resetFilters s) = av_entries s \<and> av_next (resetFilters s) = av_next s"
  by (simp add: resetFilters_def)

lemma page_after_reset_drops_the_filters:
  "av_next s = Some (c # cs) \<Longrightarrow> auditQuery isoOf (av_next s) (resetFilters s) = [(''cursor'', c # cs)] \<and>
    av_entries (entriesLoaded (av_next s) (Some (items, nx)) (resetFilters s)) = av_entries s @ items"
  by (simp add: auditQuery_def resetFilters_def cursor_given_def entriesLoaded_def)

text \<open>The cells the page shows for a member of a recorded request body.\<close>

definition body_cells :: "string \<Rightarrow> json \<Rightarrow> json option \<times> json option" where
  "body_cells k v = (if isSensitiveKey k then (None, None) else (obj_get (redactDiff v) ''before'', obj_get (redactDiff v) ''after''))"

lemma those_map: "those (map f xs) = (if \<exists>x \<in> set xs. f x = None then None else Some (map (\<lambda>x. the (f x)) xs))"
  by (induction xs) (auto split: option.splits)

lemma redacted_null: "redactDiff v = JNull \<longleftrightarrow> v = JNull"
  by (cases v) auto

lemma body_row:
  "map_option (Pair k) (before_after (if isSensitiveKey k then JStr ''[REDACTED]'' else redactDiff v)) =
    (if v = JNull \<and> \<not> isSensitiveKey k then None else Some (k, body_cells k v))"
  by (simp add: before_after_def body_cells_def redacted_null obj_get_def)

text \<open>The details of an audit entry never show the request it recorded. The core records the body of
  the request, the page looks for a before and an after in each of its members: members that are not
  objects have neither, so both cells stay empty, and a member that is null makes the page throw
  while it renders.\<close>

theorem audit_details_lose_the_request:
  assumes m: "aq_method q \<noteq> ''DELETE''" and body: "aq_body q = Some (JObj kvs)"
    and row: "da_changes e = stored_diff (ae_diff (entry_of q rtype response p now))"
  shows "auditDetail e = (if \<exists>k. (k, JNull) \<in> set kvs \<and> \<not> isSensitiveKey k then RenderFails else ChangeRows (map (\<lambda>(k, v). (k, body_cells k v)) kvs)) \<and>
    (\<forall>k v. (\<forall>ms. v \<noteq> JObj ms) \<longrightarrow> body_cells k v = (None, None))"
proof -
  let ?red = "\<lambda>(k, v). (k, if isSensitiveKey k then JStr ''[REDACTED]'' else redactDiff v)"
  have stored: "da_changes e = Some (JObj (map ?red kvs))" using m body by (simp add: row entry_of_def stored_diff_def)
  have rows: "map (\<lambda>(k, c). map_option (Pair k) (before_after c)) (map ?red kvs) = map (\<lambda>(k, v). if v = JNull \<and> \<not> isSensitiveKey k then None else Some (k, body_cells k v)) kvs"
    by (auto simp: body_row[simplified] split del: if_split)
  have "auditDetail e = (case those (map (\<lambda>(k, v). if v = JNull \<and> \<not> isSensitiveKey k then None else Some (k, body_cells k v)) kvs) of None \<Rightarrow> RenderFails | Some rs \<Rightarrow> ChangeRows rs)"
    unfolding auditDetail_def stored rows[symmetric] js_entries_def by simp
  also have "\<dots> = (if \<exists>k. (k, JNull) \<in> set kvs \<and> \<not> isSensitiveKey k then RenderFails else ChangeRows (map (\<lambda>(k, v). (k, body_cells k v)) kvs))"
    by (auto simp: those_map split: if_splits) 
  finally have detail: "auditDetail e = (if \<exists>k. (k, JNull) \<in> set kvs \<and> \<not> isSensitiveKey k then RenderFails else ChangeRows (map (\<lambda>(k, v). (k, body_cells k v)) kvs))" .
  have "body_cells k v = (None, None)" if "\<forall>ms. v \<noteq> JObj ms" for k v
    using that by (cases v) (simp_all add: body_cells_def obj_get_def)
  with detail show ?thesis by blast
qed

definition demo_request :: audit_request where
  "demo_request = \<lparr>aq_method = ''PATCH'', aq_url = None, aq_originalUrl = Some ''/admin/v1/lists/7'', aq_param_id = Some ''7'',
     aq_body = Some (JObj [(''name'', JStr ''News''), (''description'', JNull)]), aq_principal = None\<rparr>"

definition demo_editor :: principal where
  "demo_editor = \<lparr>pr_sub = ''u1'', pr_typ = TUser, pr_tenant = Some ''t1'', pr_perms = None, pr_scopes = None, pr_iat = 0, pr_exp = 900\<rparr>"

definition demo_entry :: audit_dto where
  "demo_entry = \<lparr>da_id = ''a1'', da_occurred_at = [], da_tenant_id = Some ''t1'', da_actor_type = ''user'', da_actor_id = ''u1'', da_action = ''lists.update'',
     da_resource_type = ''lists'', da_resource_id = Some ''7'', da_ip = None,
     da_changes = stored_diff (ae_diff (entry_of demo_request ''lists'' JNull demo_editor 0))\<rparr>"

lemma audit_details_lose_the_request_witness: "auditDetail demo_entry = RenderFails \<and> body_cells ''name'' (JStr ''News'') = (None, None)"
proof -
  have m: "aq_method demo_request \<noteq> ''DELETE''" and b: "aq_body demo_request = Some (JObj [(''name'', JStr ''News''), (''description'', JNull)])"
    and r: "da_changes demo_entry = stored_diff (ae_diff (entry_of demo_request ''lists'' JNull demo_editor 0))"
    by (simp_all add: demo_request_def demo_entry_def)
  have "\<not> isSensitiveKey ''description''" by code_simp
  with audit_details_lose_the_request[OF m b r] show ?thesis by simp
qed

end
