(* ===== verification/Console_Fields.thy ===== *)
theory Console_Fields
  imports Console_Api Contacts_Query
begin

text \<open>
  The console's fields (\<open>contacts/fields/fields-screen.tsx\<close> and \<open>field-form.tsx\<close>): the draft of
  the form with its controls, the bodies it sends, and the screen around it.
\<close>

section \<open>The draft\<close>

type_synonym form_labels = "(string \<times> string) list"

record form_choice =
  fo_id :: "int option"
  fo_api_name :: string
  fo_labels :: form_labels

record field_draft =
  dr_api_name :: string
  dr_type :: field_type
  dr_unique :: bool
  dr_labels :: form_labels
  dr_choices :: "form_choice list"

definition emptyLabels :: form_labels where
  "emptyLabels = [(''es'', []), (''pt'', []), (''en'', [])]"

definition labels_of_json :: "json \<Rightarrow> form_labels" where
  "labels_of_json v = (case v of JObj kvs \<Rightarrow> map (\<lambda>(k, x). (k, js_string x)) kvs | _ \<Rightarrow> [])"

definition form_choice_of :: "choice \<Rightarrow> form_choice" where
  "form_choice_of c = \<lparr>fo_id = Some (ch_id c), fo_api_name = ch_api_name c, fo_labels = labels_of_json (ch_labels c)\<rparr>"

definition fieldDraft :: "field_dto option \<Rightarrow> field_draft" where
  "fieldDraft f = (case f of
      None \<Rightarrow> \<lparr>dr_api_name = [], dr_type = FText, dr_unique = False, dr_labels = emptyLabels, dr_choices = []\<rparr>
    | Some f \<Rightarrow> \<lparr>dr_api_name = dto_api_name f, dr_type = dto_type f, dr_unique = dto_unique f, dr_labels = labels_of_json (dto_labels f),
        dr_choices = map form_choice_of (dto_choices f)\<rparr>)"

definition setChoice :: "nat \<Rightarrow> (form_choice \<Rightarrow> form_choice) \<Rightarrow> field_draft \<Rightarrow> field_draft" where
  "setChoice i f d = d\<lparr>dr_choices := map (\<lambda>(j, c). if j = i then f c else c) (enumerate 0 (dr_choices d))\<rparr>"

definition addOption :: "field_draft \<Rightarrow> field_draft" where
  "addOption d = d\<lparr>dr_choices := dr_choices d @ [\<lparr>fo_id = None, fo_api_name = [], fo_labels = emptyLabels\<rparr>]\<rparr>"

definition removeOption :: "nat \<Rightarrow> field_draft \<Rightarrow> field_draft" where
  "removeOption i d = d\<lparr>dr_choices := map snd (filter (\<lambda>(j, c). j \<noteq> i) (enumerate 0 (dr_choices d)))\<rparr>"

text \<open>A stored option (its id is truthy) has no button that removes it.\<close>

definition removable :: "form_choice \<Rightarrow> bool" where
  "removable c \<longleftrightarrow> fo_id c = None \<or> fo_id c = Some 0"

text \<open>The controls of the form for a field, or for a new one.\<close>

inductive draft_step :: "field_dto option \<Rightarrow> field_draft \<Rightarrow> field_draft \<Rightarrow> bool" for f where
  edit_name: "(\<And>x. f = Some x \<Longrightarrow> \<not> dto_is_system x) \<Longrightarrow> draft_step f d (d\<lparr>dr_api_name := n\<rparr>)"
| edit_type: "f = None \<Longrightarrow> draft_step f d (d\<lparr>dr_type := ty\<rparr>)"
| edit_unique: "f = None \<Longrightarrow> draft_step f d (d\<lparr>dr_unique := b\<rparr>)"
| edit_label: "l \<in> {''es'', ''pt'', ''en''} \<Longrightarrow> draft_step f d (d\<lparr>dr_labels := alist_put l x (dr_labels d)\<rparr>)"
| edit_option_name: "is_choice_type (dr_type d) \<Longrightarrow> draft_step f d (setChoice i (\<lambda>c. c\<lparr>fo_api_name := n\<rparr>) d)"
| edit_option_label: "is_choice_type (dr_type d) \<Longrightarrow> l \<in> {''es'', ''pt'', ''en''} \<Longrightarrow> draft_step f d (setChoice i (\<lambda>c. c\<lparr>fo_labels := alist_put l x (fo_labels c)\<rparr>) d)"
| add_option: "is_choice_type (dr_type d) \<Longrightarrow> draft_step f d (addOption d)"
| remove_option: "is_choice_type (dr_type d) \<Longrightarrow> i < length (dr_choices d) \<Longrightarrow> removable (dr_choices d ! i) \<Longrightarrow> draft_step f d (removeOption i d)"

text \<open>What the browser checks before it submits: required inputs, the pattern of names, and the state of the button.\<close>

definition labels_filled :: "form_labels \<Rightarrow> bool" where
  "labels_filled ls \<longleftrightarrow> list_all (\<lambda>l. map_of ls l \<noteq> None \<and> map_of ls l \<noteq> Some []) [''es'', ''pt'', ''en'']"

definition submittable :: "field_dto option \<Rightarrow> field_draft \<Rightarrow> bool" where
  "submittable f d \<longleftrightarrow> ((case f of Some x \<Rightarrow> dto_is_system x | None \<Rightarrow> False) \<or> is_api_name (dr_api_name d)) \<and> labels_filled (dr_labels d) \<and>
     (is_choice_type (dr_type d) \<longrightarrow> dr_choices d \<noteq> [] \<and> list_all (\<lambda>c. is_api_name (fo_api_name c) \<and> labels_filled (fo_labels c)) (dr_choices d))"

text \<open>\<open>submit\<close>\<close>

definition submittedDraft :: "field_draft \<Rightarrow> field_draft" where
  "submittedDraft d = d\<lparr>dr_choices := (if is_choice_type (dr_type d) then dr_choices d else [])\<rparr>"

section \<open>The screen\<close>

definition labels_json :: "form_labels \<Rightarrow> json" where
  "labels_json ls = JObj (map (\<lambda>(k, x). (k, JStr x)) ls)"

definition choice_json :: "form_choice \<Rightarrow> json" where
  "choice_json c = JObj ((case fo_id c of Some i \<Rightarrow> [(''id'', JNum (int_num i))] | None \<Rightarrow> []) @
     [(''api_name'', JStr (fo_api_name c)), (''labels'', labels_json (fo_labels c))])"

definition choices_member :: "field_draft \<Rightarrow> object" where
  "choices_member d = (if dr_choices d = [] then [] else [(''choices'', JArr (map choice_json (dr_choices d)))])"

definition fieldPatch :: "field_dto \<Rightarrow> field_draft \<Rightarrow> json" where
  "fieldPatch f d = JObj ((if dto_is_system f then [] else [(''api_name'', JStr (dr_api_name d))]) @ [(''labels'', labels_json (dr_labels d))] @ choices_member d)"

definition fieldPost :: "field_draft \<Rightarrow> json" where
  "fieldPost d = JObj ([(''api_name'', JStr (dr_api_name d)), (''type'', JStr (type_name (dr_type d))), (''unique'', JBool (dr_unique d)),
     (''labels'', labels_json (dr_labels d))] @ choices_member d)"

record fields_screen =
  fx_fields :: "field_dto list option"
  fx_loadError :: bool
  fx_error :: "string option"
  fx_form :: "field_dto option option"
  fx_deleting :: "field_dto option"

definition newFields :: fields_screen where
  "newFields = \<lparr>fx_fields = None, fx_loadError = False, fx_error = None, fx_form = None, fx_deleting = None\<rparr>"

definition fieldsLoaded :: "field_dto list option \<Rightarrow> fields_screen \<Rightarrow> fields_screen" where
  "fieldsLoaded r s = (case r of None \<Rightarrow> s\<lparr>fx_loadError := True\<rparr> | Some fs \<Rightarrow> s\<lparr>fx_loadError := False, fx_fields := Some fs\<rparr>)"

definition openForm :: "field_dto option \<Rightarrow> fields_screen \<Rightarrow> fields_screen" where
  "openForm f s = s\<lparr>fx_error := None, fx_form := Some f\<rparr>"

text \<open>\<open>run\<close>: the answer of the call, and of the reload that follows a success.\<close>

definition runFields :: "string \<Rightarrow> nat \<Rightarrow> field_dto list option \<Rightarrow> fields_screen \<Rightarrow> bool \<times> fields_screen" where
  "runFields conflictKey status again s = (let ok = (200 \<le> status \<and> status < 300);
     s' = s\<lparr>fx_error := (if ok then None else Some (if status = 409 then conflictKey else ''errors.generic''))\<rparr>
   in if ok then (True, fieldsLoaded again s') else (False, s'))"

definition saveCall :: "fields_screen \<Rightarrow> field_draft \<Rightarrow> string \<times> string \<times> json" where
  "saveCall s d = (case fx_form s of
      Some (Some f) \<Rightarrow> (''PATCH'', ''/fields/'' @ show_int (dto_field_id f), fieldPatch f d)
    | _ \<Rightarrow> (''POST'', ''/fields'', fieldPost d))"

definition saveField :: "nat \<Rightarrow> field_dto list option \<Rightarrow> fields_screen \<Rightarrow> fields_screen" where
  "saveField status again s = (case runFields ''errors.duplicate'' status again s of (ok, s') \<Rightarrow> if ok then s'\<lparr>fx_form := None\<rparr> else s')"

definition deleteCall :: "fields_screen \<Rightarrow> string option" where
  "deleteCall s = map_option (\<lambda>f. ''/fields/'' @ show_int (dto_field_id f)) (fx_deleting s)"

definition confirmFieldDelete :: "nat \<Rightarrow> field_dto list option \<Rightarrow> fields_screen \<Rightarrow> fields_screen" where
  "confirmFieldDelete status again s = (if fx_deleting s = None then s
     else case runFields ''errors.inUse'' status again s of (ok, s') \<Rightarrow> if ok then s'\<lparr>fx_deleting := None\<rparr> else s')"

definition askDelete :: "field_dto \<Rightarrow> fields_screen \<Rightarrow> fields_screen" where
  "askDelete f s = (if dto_is_system f then s else s\<lparr>fx_deleting := Some f\<rparr>)"

section \<open>The bodies\<close>

lemma map_of_strings: "map_of (map (\<lambda>(k, x). (k, JStr x)) ls) l = map_option JStr (map_of ls l)"
  by (induction ls) auto

lemma filled_labels: "labels_filled ls \<Longrightarrow> \<exists>l. parseLabels (Some (labels_json ls)) = Some l"
  by (auto simp: labels_filled_def parseLabels_def labels_json_def map_of_strings)

definition good_choice :: "form_choice \<Rightarrow> bool" where
  "good_choice c \<longleftrightarrow> is_api_name (fo_api_name c) \<and> labels_filled (fo_labels c) \<and> (\<forall>i. fo_id c = Some i \<longrightarrow> 1 \<le> i)"

lemma read_choice: "good_choice c \<Longrightarrow> \<exists>l. parseChoice (choice_json c) = Some \<lparr>ci_id = fo_id c, ci_api_name = fo_api_name c, ci_labels = l\<rparr>"
  using filled_labels[of "fo_labels c"]
  by (cases "fo_id c") (auto simp: good_choice_def parseChoice_def choice_json_def parseChoiceId_def parseApiName_def is_int_num_def)

lemma read_choices:
  "list_all good_choice cs \<Longrightarrow> \<exists>xs. parseAll parseChoice (map choice_json cs) = Some xs \<and> map ci_id xs = map fo_id cs \<and> map ci_api_name xs = map fo_api_name cs"
proof (induction cs)
  case (Cons c cs)
  then obtain xs where "parseAll parseChoice (map choice_json cs) = Some xs" "map ci_id xs = map fo_id cs" "map ci_api_name xs = map fo_api_name cs" by auto
  moreover obtain l where "parseChoice (choice_json c) = Some \<lparr>ci_id = fo_id c, ci_api_name = fo_api_name c, ci_labels = l\<rparr>"
    using Cons.prems read_choice by auto
  ultimately show ?case by simp
qed simp

section \<open>The options of a field\<close>

text \<open>The ids of a draft's stored options, which no control changes.\<close>

definition option_ids :: "field_draft \<Rightarrow> int list" where
  "option_ids d = List.map_filter fo_id (dr_choices d)"

lemma map_filter_update: "(\<And>c. fo_id (g c) = fo_id c) \<Longrightarrow> List.map_filter fo_id (map (\<lambda>(j, c). if j = i then g c else c) (enumerate n cs)) = List.map_filter fo_id cs"
  by (induction cs arbitrary: n) (auto simp: List.map_filter_simps split: option.splits)

lemma map_filter_without:
  "i < n + length cs \<Longrightarrow> n \<le> i \<Longrightarrow> fo_id (cs ! (i - n)) = None \<Longrightarrow>
    List.map_filter fo_id (map snd (filter (\<lambda>(j, c). j \<noteq> i) (enumerate n cs))) = List.map_filter fo_id cs"
proof (induction cs arbitrary: n)
  case (Cons c cs)
  show ?case
  proof (cases "i = n")
    case True
    have "filter (\<lambda>(j, c). j \<noteq> i) (enumerate (Suc n) cs) = enumerate (Suc n) cs"
      using True by (auto simp: in_set_enumerate_eq intro!: filter_True)
    then show ?thesis using True Cons.prems by (simp add: List.map_filter_simps)
  next
    case False
    then have "i - n = Suc (i - Suc n)" using Cons.prems by simp
    then show ?thesis using False Cons.prems Cons.IH[of "Suc n"] by (simp add: List.map_filter_simps split: option.split)
  qed
qed simp

lemma map_filter_new: "fo_id c = None \<Longrightarrow> List.map_filter fo_id (cs @ [c]) = List.map_filter fo_id cs"
  by (induction cs) (auto simp: List.map_filter_simps split: option.split)

lemma draft_step_options:
  assumes "draft_step f d d'" "0 \<notin> set (option_ids d)"
  shows "option_ids d' = option_ids d \<and> (f \<noteq> None \<longrightarrow> dr_type d' = dr_type d)"
  using assms
proof (induction rule: draft_step.induct)
  case (remove_option d i)
  let ?c = "dr_choices d ! i"
  have "?c \<in> set (dr_choices d)" using remove_option by simp
  moreover have "fo_id ?c \<noteq> Some 0"
  proof
    assume "fo_id ?c = Some 0"
    then have "0 \<in> set (option_ids d)" using \<open>?c \<in> set (dr_choices d)\<close> by (force simp: option_ids_def List.map_filter_def)
    with remove_option show False by simp
  qed
  ultimately have "fo_id ?c = None" using remove_option by (simp add: removable_def)
  then show ?case using remove_option map_filter_without[of i 0 "dr_choices d"] by (simp add: option_ids_def removeOption_def)
qed (simp_all add: option_ids_def setChoice_def addOption_def map_filter_update map_filter_new)

lemma reachable_draft:
  assumes "(draft_step f)\<^sup>*\<^sup>* d d'" "0 \<notin> set (option_ids d)"
  shows "option_ids d' = option_ids d \<and> (f \<noteq> None \<longrightarrow> dr_type d' = dr_type d)"
  using assms by (induction rule: rtranclp_induct) (auto dest: draft_step_options)

lemma stored_options: "option_ids (fieldDraft (Some f)) = map ch_id (dto_choices f)"
proof -
  have "List.map_filter fo_id (map form_choice_of cs) = map ch_id cs" for cs
    by (induction cs) (simp_all add: List.map_filter_simps form_choice_of_def)
  then show ?thesis by (simp add: option_ids_def fieldDraft_def)
qed

lemma map_filter_set: "set (List.map_filter g xs) = {y. \<exists>x \<in> set xs. g x = Some y}"
  by (induction xs) (auto simp: List.map_filter_simps split: option.splits)

lemma option_ids_set: "set (option_ids d) = {i. Some i \<in> fo_id ` set (dr_choices d)}"
  by (auto simp: option_ids_def map_filter_set image_iff) metis+

text \<open>C40. Editing a custom field through the form cannot meet the refusals of the core about options:
  whatever is clicked, a draft the browser submits is a body the core takes, whose options with an
  id are exactly the stored ones, so none of them is dropped (in use or not) and none is foreign.\<close>

theorem field_form_keeps_the_options:
  assumes field: "\<not> fd_isSystem def" "map ch_id (dto_choices f) = map ch_id (fd_choices def)" "\<not> dto_is_system f" "\<forall>c \<in> set (fd_choices def). 1 \<le> ch_id c"
    and form: "(draft_step (Some f))\<^sup>*\<^sup>* (fieldDraft (Some f)) d" "submittable (Some f) d"
  shows "\<exists>u. fieldUpdateSchema (fieldPatch f (submittedDraft d)) = Some u \<and> fu_api_name u = Some (dr_api_name d) \<and>
    (fu_choices u = None \<longleftrightarrow> dr_choices (submittedDraft d) = []) \<and>
    (\<forall>cs. fu_choices u = Some cs \<longrightarrow> set (List.map_filter ci_id cs) = ch_id ` set (fd_choices def) \<and>
      changeChoices t def cs w = (Inr (withChoiceIds cs (fd_choices def)), w))"
proof -
  let ?d = "submittedDraft d"
  have ids: "option_ids d = map ch_id (fd_choices def)"
    using reachable_draft[OF form(1)] field(4) by (simp add: stored_options field(2)) (metis imageE not_one_le_zero)
  have good: "list_all good_choice (dr_choices ?d)"
  proof -
    have "1 \<le> i" if "c \<in> set (dr_choices d)" "fo_id c = Some i" for c i
    proof -
      have "i \<in> set (option_ids d)" using that by (force simp: option_ids_set)
      then show ?thesis using field(4) by (auto simp: ids)
    qed
    then show ?thesis using form(2) by (auto simp: submittable_def submittedDraft_def good_choice_def list_all_iff)
  qed
  obtain xs where xs: "parseAll parseChoice (map choice_json (dr_choices ?d)) = Some xs" "map ci_id xs = map fo_id (dr_choices ?d)"
    using read_choices[OF good] by blast
  obtain l where l: "parseLabels (Some (labels_json (dr_labels ?d))) = Some l"
    using filled_labels[of "dr_labels d"] form(2) by (auto simp: submittable_def submittedDraft_def)
  have n: "parseApiName (Some (JStr (dr_api_name ?d))) = Some (dr_api_name d)"
    using form(2) field(3) by (simp add: submittable_def submittedDraft_def parseApiName_def)
  let ?u = "\<lparr>fu_api_name = Some (dr_api_name d), fu_labels = Some l, fu_choices = (if dr_choices ?d = [] then None else Some xs)\<rparr>"
  have read: "fieldUpdateSchema (fieldPatch f ?d) = Some ?u"
    using xs(1) l n field(3) by (simp add: fieldUpdateSchema_def fieldPatch_def choices_member_def optional_def parseArray_def)
  have "set (List.map_filter ci_id xs) = ch_id ` set (fd_choices def) \<and> changeChoices t def xs w = (Inr (withChoiceIds xs (fd_choices def)), w)" if "dr_choices ?d \<noteq> []"
  proof -
    have same: "dr_choices ?d = dr_choices d" using that by (simp add: submittedDraft_def split: if_splits)
    have got: "Some i \<in> ci_id ` set xs \<longleftrightarrow> i \<in> ch_id ` set (fd_choices def)" for i
    proof -
      have "ci_id ` set xs = fo_id ` set (dr_choices d)" using arg_cong[OF xs(2), of set] same by simp
      then show ?thesis using option_ids_set[of d] ids by auto
    qed
    have "removed_choices xs (fd_choices def) = []"
      using got by (force simp: removed_choices_def filter_empty_conv list_ex_iff)
    moreover have "\<not> list_ex (\<lambda>c. ci_id c \<noteq> None \<and> find_choice (fd_choices def) (ci_id c) = None) xs"
    proof -
      have "find_choice (fd_choices def) (ci_id c) \<noteq> None" if c: "c \<in> set xs" and h: "ci_id c \<noteq> None" for c
      proof -
        obtain i where i: "ci_id c = Some i" using h by blast
        then have "Some i \<in> ci_id ` set xs" using c by force
        then obtain o' where "o' \<in> set (fd_choices def)" "ch_id o' = i" using got by auto
        then show ?thesis using i by (auto simp: find_choice_def find_None_iff)
      qed
      then show ?thesis unfolding list_ex_iff by blast
    qed
    ultimately have "changeChoices t def xs w = (Inr (withChoiceIds xs (fd_choices def)), w)"
      using field(1) by (simp add: changeChoices_def Let_def)
    moreover have "set (List.map_filter ci_id xs) = ch_id ` set (fd_choices def)" 
    proof -
      have "set (List.map_filter ci_id xs) = {i. Some i \<in> ci_id ` set xs}" by (auto simp: map_filter_set image_iff) metis+
      then show ?thesis using got by auto
    qed
    ultimately show ?thesis by blast
  qed
  then show ?thesis using read by (intro exI[of _ ?u]) simp
qed

text \<open>Adding an option to a system field is offered by the same form, and refused by the core.\<close>

lemma system_field_options_are_refused:
  "fd_isSystem def \<Longrightarrow> length cs \<noteq> length (fd_choices def) \<Longrightarrow> changeChoices t def cs w = (Inl (HttpExc 403 ''system fields only accept labels''), w)"
  by (simp add: changeChoices_def Let_def)

definition demo_choice :: choice where
  "demo_choice = \<lparr>ch_id = 1, ch_api_name = ''red'', ch_labels = JObj [(''es'', JStr ''Rojo''), (''pt'', JStr ''Vermelho''), (''en'', JStr ''Red'')]\<rparr>"

definition demo_color :: field_def where
  "demo_color = \<lparr>fd_tenant = ''t'', fd_fieldId = 1001, fd_apiName = ''color'', fd_labels = ch_labels demo_choice, fd_type = FSingle, fd_choices = [demo_choice],
     fd_description = None, fd_isSystem = False, fd_unique = False, fd_readOnly = False, fd_deletedAt = None\<rparr>"

definition demo_color_dto :: field_dto where
  "demo_color_dto = \<lparr>dto_field_id = 1001, dto_api_name = ''color'', dto_type = FSingle, dto_labels = ch_labels demo_choice, dto_choices = [demo_choice],
     dto_unique = False, dto_read_only = False, dto_is_system = False, dto_deleted_at = None\<rparr>"

definition demo_draft :: field_draft where
  "demo_draft = (fieldDraft (Some demo_color_dto))\<lparr>dr_api_name := ''colour''\<rparr>"

lemma field_form_keeps_the_options_witness:
  "\<exists>u cs. fieldUpdateSchema (fieldPatch demo_color_dto (submittedDraft demo_draft)) = Some u \<and> fu_choices u = Some cs \<and>
    set (List.map_filter ci_id cs) = {1}"
proof -
  have f: "\<not> fd_isSystem demo_color" "map ch_id (dto_choices demo_color_dto) = map ch_id (fd_choices demo_color)" "\<not> dto_is_system demo_color_dto"
    "\<forall>c \<in> set (fd_choices demo_color). 1 \<le> ch_id c" by (simp_all add: demo_color_def demo_color_dto_def demo_choice_def)
  have "draft_step (Some demo_color_dto) (fieldDraft (Some demo_color_dto)) demo_draft"
    unfolding demo_draft_def by (rule edit_name) (simp add: demo_color_dto_def)
  then have reach: "(draft_step (Some demo_color_dto))\<^sup>*\<^sup>* (fieldDraft (Some demo_color_dto)) demo_draft" by blast
  have sub: "submittable (Some demo_color_dto) demo_draft"
    by (simp add: submittable_def demo_draft_def fieldDraft_def demo_color_dto_def demo_choice_def form_choice_of_def labels_of_json_def labels_filled_def
      is_choice_type_def is_api_name_def lower_alpha_def code_def)
  let ?r = "fieldUpdateSchema (fieldPatch demo_color_dto (submittedDraft demo_draft))"
  have "dr_choices (submittedDraft demo_draft) \<noteq> []"
    by (simp add: demo_draft_def fieldDraft_def submittedDraft_def demo_color_dto_def is_choice_type_def)
  moreover have "ch_id ` set (fd_choices demo_color) = {1}" by (simp add: demo_color_def demo_choice_def)
  moreover obtain u where u: "?r = Some u" "fu_choices u = None \<longleftrightarrow> dr_choices (submittedDraft demo_draft) = []"
    "\<forall>cs. fu_choices u = Some cs \<longrightarrow> set (List.map_filter ci_id cs) = ch_id ` set (fd_choices demo_color) \<and>
      changeChoices [] demo_color cs undefined = (Inr (withChoiceIds cs (fd_choices demo_color)), undefined)"
    using field_form_keeps_the_options[OF f reach sub, of "[]" undefined] by (elim exE conjE) (rule that)
  ultimately obtain cs where "fu_choices u = Some cs" by (cases "fu_choices u") simp_all
  with u(1,3) \<open>ch_id ` set (fd_choices demo_color) = {1}\<close> show ?thesis by (intro exI[of _ u] exI[of _ cs]) simp
qed

end
