(* ===== verification/Console_Lists.thy ===== *)
theory Console_Lists
  imports Console_Api Contact_Lists_Api
begin

text \<open>
  The console's contact lists: the screen of lists (\<open>contacts/lists/lists-screen.tsx\<close>) and one list
  with its members (\<open>contacts/lists/list-detail.tsx\<close>). An answer without data is None. Translated
  texts stand as their keys.
\<close>

section \<open>The lists\<close>

record list_item =
  li_id :: string
  li_name :: string
  li_count :: int

record lists_screen =
  lx_lists :: "list_item list option"
  lx_loadError :: bool
  lx_name :: string
  lx_error :: "string option"
  lx_renaming :: "(string \<times> string) option"
  lx_deleting :: "list_item option"

definition newLists :: lists_screen where
  "newLists = \<lparr>lx_lists = None, lx_loadError = False, lx_name = [], lx_error = None, lx_renaming = None, lx_deleting = None\<rparr>"

definition listsLoaded :: "list_item list option \<Rightarrow> lists_screen \<Rightarrow> lists_screen" where
  "listsLoaded r s = (case r of None \<Rightarrow> s\<lparr>lx_loadError := True\<rparr> | Some ls \<Rightarrow> s\<lparr>lx_loadError := False, lx_lists := Some ls\<rparr>)"

text \<open>\<open>run\<close>: the answer of the call, and of the reload that follows a success.\<close>

definition runLists :: "api_result \<Rightarrow> list_item list option \<Rightarrow> lists_screen \<Rightarrow> bool \<times> lists_screen" where
  "runLists r again s = (let s' = s\<lparr>lx_error := (if ar_ok r then None else Some (if ar_status r = 409 then ''errors.duplicate'' else ''errors.generic''))\<rparr>
     in if ar_ok r then (True, listsLoaded again s') else (False, s'))"

definition createList :: "lists_screen \<Rightarrow> string \<times> string \<times> json option" where
  "createList s = (''POST'', ''/lists'', Some (JObj [(''name'', JStr (trim (lx_name s)))]))"

definition listCreated :: "api_result \<Rightarrow> list_item list option \<Rightarrow> lists_screen \<Rightarrow> lists_screen" where
  "listCreated r again s = (case runLists r again s of (ok, s') \<Rightarrow> if ok then s'\<lparr>lx_name := []\<rparr> else s')"

definition renameList :: "lists_screen \<Rightarrow> (string \<times> string \<times> json option) option" where
  "renameList s = map_option (\<lambda>(i, n). (''PATCH'', ''/lists/'' @ i, Some (JObj [(''name'', JStr (trim n))]))) (lx_renaming s)"

definition listRenamed :: "api_result \<Rightarrow> list_item list option \<Rightarrow> lists_screen \<Rightarrow> lists_screen" where
  "listRenamed r again s = (case runLists r again s of (ok, s') \<Rightarrow> if ok then s'\<lparr>lx_renaming := None\<rparr> else s')"

definition deleteList :: "lists_screen \<Rightarrow> (string \<times> string \<times> json option) option" where
  "deleteList s = map_option (\<lambda>l. (''DELETE'', ''/lists/'' @ li_id l, None)) (lx_deleting s)"

definition listDeleted :: "api_result \<Rightarrow> list_item list option \<Rightarrow> lists_screen \<Rightarrow> lists_screen" where
  "listDeleted r again s = (case runLists r again s of (ok, s') \<Rightarrow> if ok then s'\<lparr>lx_deleting := None\<rparr> else s')"

text \<open>A refused call keeps what was typed; a success clears the message.\<close>

lemma refused_list_keeps_the_text: "\<not> ar_ok r \<Longrightarrow> lx_name (listCreated r again s) = lx_name s \<and> lx_error (listCreated r again s) \<noteq> None"
  by (simp add: listCreated_def runLists_def Let_def)

lemma accepted_list_clears_the_text: "ar_ok r \<Longrightarrow> lx_name (listCreated r again s) = [] \<and> lx_error (listCreated r again s) = None"
  by (cases again) (simp_all add: listCreated_def runLists_def listsLoaded_def Let_def)

section \<open>One list\<close>

definition LIST_PAGE_SIZE :: nat where "LIST_PAGE_SIZE = 25"

record list_member =
  lm_contact_id :: string
  lm_fields :: json

record list_detail =
  ld_list :: "list_item option"
  ld_members :: "list_member list"
  ld_cursor :: "string option"
  ld_selected :: "string list"
  ld_query :: string
  ld_results :: "(string \<times> json) list option"
  ld_error :: "string option"

definition newDetail :: list_detail where
  "newDetail = \<lparr>ld_list = None, ld_members = [], ld_cursor = None, ld_selected = [], ld_query = [], ld_results = None, ld_error = None\<rparr>"

definition detailCalls :: "string \<Rightarrow> (string \<times> (string \<times> string option) list) list" where
  "detailCalls i = [(''/lists/'' @ i, []), (''/lists/'' @ i @ ''/members'', [(''limit'', Some (show_nat LIST_PAGE_SIZE))])]"

definition detailLoaded :: "list_item option \<Rightarrow> (list_member list \<times> string option) option \<Rightarrow> list_detail \<Rightarrow> list_detail" where
  "detailLoaded l m s = (case (l, m) of
      (Some l, Some (ms, c)) \<Rightarrow> s\<lparr>ld_list := Some l, ld_members := ms, ld_cursor := c, ld_selected := []\<rparr>
    | _ \<Rightarrow> s\<lparr>ld_error := Some ''errors.load''\<rparr>)"

definition moreCall :: "string \<Rightarrow> list_detail \<Rightarrow> string \<times> (string \<times> string option) list" where
  "moreCall i s = (''/lists/'' @ i @ ''/members'', [(''limit'', Some (show_nat LIST_PAGE_SIZE)), (''cursor'', ld_cursor s)])"

definition moreLoaded :: "(list_member list \<times> string option) option \<Rightarrow> list_detail \<Rightarrow> list_detail" where
  "moreLoaded m s = (case m of None \<Rightarrow> s\<lparr>ld_error := Some ''errors.load''\<rparr>
     | Some (ms, c) \<Rightarrow> s\<lparr>ld_members := ld_members s @ ms, ld_cursor := c\<rparr>)"

definition searchCall :: "list_detail \<Rightarrow> string \<times> (string \<times> string option) list" where
  "searchCall s = (''/contacts'', [(''q'', Some (trim (ld_query s))), (''limit'', Some ''10'')])"

definition searched :: "(string \<times> json) list option \<Rightarrow> list_detail \<Rightarrow> list_detail" where
  "searched r s = (case r of None \<Rightarrow> s\<lparr>ld_error := Some ''errors.generic''\<rparr> | Some xs \<Rightarrow> s\<lparr>ld_error := None, ld_results := Some xs\<rparr>)"

definition changeBody :: "string list \<Rightarrow> json" where
  "changeBody ids = JObj [(''contact_ids'', JArr (map JStr ids))]"

text \<open>The end of \<open>change\<close>, with the answers of the reload after a success.\<close>

definition changed :: "bool \<Rightarrow> list_item option \<Rightarrow> (list_member list \<times> string option) option \<Rightarrow> list_detail \<Rightarrow> list_detail" where
  "changed ok l m s = (if ok then detailLoaded l m (s\<lparr>ld_error := None\<rparr>) else s\<lparr>ld_error := Some ''errors.generic''\<rparr>)"

definition memberIds :: "list_detail \<Rightarrow> string set" where
  "memberIds s = set (map lm_contact_id (ld_members s))"

definition toggleMember :: "string \<Rightarrow> list_detail \<Rightarrow> list_detail" where
  "toggleMember c s = s\<lparr>ld_selected := (if List.member (ld_selected s) c then filter (\<lambda>x. x \<noteq> c) (ld_selected s) else ld_selected s @ [c])\<rparr>"

text \<open>What can be clicked: adding a contact of the results that is not a member shown, and removing the selected ones.\<close>

definition canAdd :: "list_detail \<Rightarrow> string \<Rightarrow> bool" where
  "canAdd s c \<longleftrightarrow> (case ld_results s of Some rs \<Rightarrow> list_ex (\<lambda>r. fst r = c) rs | None \<Rightarrow> False) \<and> c \<notin> memberIds s"

definition canRemove :: "list_detail \<Rightarrow> bool" where
  "canRemove s \<longleftrightarrow> ld_selected s \<noteq> []"

inductive detail_step :: "list_detail \<Rightarrow> list_detail \<Rightarrow> bool" where
  detail_loaded: "detail_step s (detailLoaded l m s)"
| detail_more: "detail_step s (moreLoaded m s)"
| detail_query: "detail_step s (s\<lparr>ld_query := q\<rparr>)"
| detail_searched: "detail_step s (searched r s)"
| detail_add: "canAdd s c \<Longrightarrow> detail_step s (changed ok l m s)"
| detail_remove: "canRemove s \<Longrightarrow> detail_step s (changed ok l m s)"
| detail_toggle: "c \<in> memberIds s \<Longrightarrow> detail_step s (toggleMember c s)"

definition detail_inv :: "list_detail \<Rightarrow> bool" where
  "detail_inv s \<longleftrightarrow> distinct (ld_selected s) \<and> set (ld_selected s) \<subseteq> memberIds s"

lemma detail_step_inv: "detail_step s s' \<Longrightarrow> detail_inv s \<Longrightarrow> detail_inv s'"
  by (induction rule: detail_step.induct)
    (auto simp: detail_inv_def memberIds_def detailLoaded_def moreLoaded_def searched_def changed_def toggleMember_def split: option.splits prod.splits)

lemma detail_reachable: "detail_step\<^sup>*\<^sup>* newDetail s \<Longrightarrow> detail_inv s"
proof (induction rule: rtranclp_induct)
  case base
  show ?case by (simp add: detail_inv_def newDetail_def)
next
  case (step y z)
  then show ?case using detail_step_inv by blast
qed

lemma read_member_ids: "list_all is_uuid xs \<Longrightarrow> parseAll parseUuid (map JStr xs) = Some xs"
  by (induction xs) (simp_all add: parseUuid_def)

text \<open>Whatever was clicked, removing the selected members asks the core for distinct contacts that
  the page shows as members, none of them twice, and while there are at most as many as one
  request may carry the core takes the body as exactly those.\<close>

theorem removal_names_shown_members:
  assumes reach: "detail_step\<^sup>*\<^sup>* newDetail s" and sel: "canRemove s" and ids: "\<forall>c \<in> memberIds s. is_uuid c"
    and few: "length (ld_selected s) \<le> INTERNAL_MAX"
  shows "contactIds (changeBody (ld_selected s)) = Some (ld_selected s) \<and> distinct (ld_selected s) \<and> set (ld_selected s) \<subseteq> memberIds s"
proof -
  have inv: "distinct (ld_selected s)" "set (ld_selected s) \<subseteq> memberIds s" using detail_reachable[OF reach] by (simp_all add: detail_inv_def)
  have "list_all is_uuid (ld_selected s)" using inv ids by (auto simp: list_all_iff)
  then show ?thesis using inv sel few read_member_ids by (simp add: contactIds_def changeBody_def parseArray_def bounded_def canRemove_def Suc_le_eq)
qed

definition demo_member :: string where
  "demo_member = ''0190a000-0000-7000-8000-000000000001''"

definition demo_detail :: list_detail where
  "demo_detail = toggleMember demo_member (detailLoaded (Some \<lparr>li_id = ''l1'', li_name = ''News'', li_count = 1\<rparr>)
     (Some ([\<lparr>lm_contact_id = demo_member, lm_fields = JObj []\<rparr>], None)) newDetail)"

lemma removal_names_shown_members_witness: "contactIds (changeBody (ld_selected demo_detail)) = Some [demo_member]"
proof -
  let ?s = "detailLoaded (Some \<lparr>li_id = ''l1'', li_name = ''News'', li_count = 1\<rparr>) (Some ([\<lparr>lm_contact_id = demo_member, lm_fields = JObj []\<rparr>], None)) newDetail"
  have one: "detail_step newDetail ?s" by (rule detail_loaded)
  have two: "detail_step ?s demo_detail" unfolding demo_detail_def by (rule detail_toggle) (simp add: memberIds_def detailLoaded_def)
  have reach: "detail_step\<^sup>*\<^sup>* newDetail demo_detail" by (rule converse_rtranclp_into_rtranclp[OF one r_into_rtranclp[of detail_step, OF two]])
  have sel: "ld_selected demo_detail = [demo_member]" and mem: "memberIds demo_detail = {demo_member}"
    by (simp_all add: demo_detail_def toggleMember_def detailLoaded_def newDetail_def memberIds_def)
  have "is_uuid demo_member" unfolding demo_member_def by code_simp
  then show ?thesis using removal_names_shown_members[OF reach] by (simp add: sel mem canRemove_def INTERNAL_MAX_def)
qed

end
