(* ===== verification/Console_Relational.thy ===== *)
theory Console_Relational
  imports Console_Lists Contacts_Query Relational
begin

text \<open>
  The console's relational tables and GDPR actions: the screen of tables
  (\<open>contacts/relational/relational-screen.tsx\<close>), the rows of a contact
  (\<open>contacts/[id]/relational-panel.tsx\<close>), export and erasure of a contact
  (\<open>contacts/[id]/gdpr-actions.tsx\<close>) and the list of requests (\<open>contacts/gdpr/gdpr-screen.tsx\<close>).
\<close>

section \<open>Tables\<close>

record form_column =
  fk_name :: string
  fk_type :: field_type

record table_item =
  tb_id :: string
  tb_name :: string
  tb_key_field :: string
  tb_columns :: "form_column list"

definition COLUMN_TYPES :: "field_type list" where
  "COLUMN_TYPES = [FText, FNumber, FDate, FBoolean]"

definition blank :: form_column where
  "blank = \<lparr>fk_name = [], fk_type = FText\<rparr>"

definition setColumnAt :: "nat \<Rightarrow> (form_column \<Rightarrow> form_column) \<Rightarrow> form_column list \<Rightarrow> form_column list" where
  "setColumnAt i f cols = map (\<lambda>(j, c). if j = i then f c else c) (enumerate 0 cols)"

definition removeColumn :: "nat \<Rightarrow> form_column list \<Rightarrow> form_column list" where
  "removeColumn i cols = (if 1 < length cols then map snd (filter (\<lambda>(j, c). j \<noteq> i) (enumerate 0 cols)) else cols)"

definition addColumn :: "form_column list \<Rightarrow> form_column list" where
  "addColumn cols = cols @ [blank]"

record tables_screen =
  rs_tables :: "table_item list"
  rs_error :: "string option"
  rs_name :: string
  rs_cols :: "form_column list"
  rs_key :: string
  rs_extra :: "(string \<times> form_column list) option"
  rs_deleting :: "table_item option"

definition newTables :: tables_screen where
  "newTables = \<lparr>rs_tables = [], rs_error = None, rs_name = [], rs_cols = [blank], rs_key = [], rs_extra = None, rs_deleting = None\<rparr>"

definition tablesLoaded :: "table_item list option \<Rightarrow> tables_screen \<Rightarrow> tables_screen" where
  "tablesLoaded r s = (case r of None \<Rightarrow> s\<lparr>rs_error := Some ''errors.load''\<rparr> | Some ts \<Rightarrow> s\<lparr>rs_tables := ts\<rparr>)"

definition tableDone :: "api_result \<Rightarrow> table_item list option \<Rightarrow> tables_screen \<Rightarrow> bool \<times> tables_screen" where
  "tableDone r again s = (if \<not> ar_ok r then (False, s\<lparr>rs_error := Some (if ar_status r = 409 then ''errors.duplicate'' else ''errors.generic'')\<rparr>)
     else (True, tablesLoaded again (s\<lparr>rs_error := None\<rparr>)))"

definition column_json :: "form_column \<Rightarrow> json" where
  "column_json c = JObj [(''name'', JStr (fk_name c)), (''type'', JStr (type_name (fk_type c)))]"

text \<open>\<open>cols[0]!.name\<close> throws when there is no column; the form always keeps one.\<close>

definition keyField :: "tables_screen \<Rightarrow> string option" where
  "keyField s = (if rs_key s \<noteq> [] then Some (rs_key s) else (case rs_cols s of [] \<Rightarrow> None | c # _ \<Rightarrow> Some (fk_name c)))"

definition createTableBody :: "tables_screen \<Rightarrow> json option" where
  "createTableBody s = map_option (\<lambda>k. JObj [(''name'', JStr (rs_name s)), (''key_field'', JStr k), (''columns'', JArr (map column_json (rs_cols s)))]) (keyField s)"

definition tableCreated :: "api_result \<Rightarrow> table_item list option \<Rightarrow> tables_screen \<Rightarrow> tables_screen" where
  "tableCreated r again s = (case tableDone r again s of (ok, s') \<Rightarrow> if ok then s'\<lparr>rs_name := [], rs_cols := [blank], rs_key := []\<rparr> else s')"

definition addColumnsCall :: "tables_screen \<Rightarrow> (string \<times> json) option" where
  "addColumnsCall s = map_option (\<lambda>(i, cols). (''/relational-tables/'' @ i, JObj [(''add_columns'', JArr (map column_json cols))])) (rs_extra s)"

definition columnsAdded :: "api_result \<Rightarrow> table_item list option \<Rightarrow> tables_screen \<Rightarrow> tables_screen" where
  "columnsAdded r again s = (case tableDone r again s of (ok, s') \<Rightarrow> if ok then s'\<lparr>rs_extra := None\<rparr> else s')"

definition tableRemoved :: "api_result \<Rightarrow> table_item list option \<Rightarrow> tables_screen \<Rightarrow> tables_screen" where
  "tableRemoved r again s = (case tableDone r again s of (ok, s') \<Rightarrow> if ok then s'\<lparr>rs_deleting := None\<rparr> else s')"

text \<open>What the browser checks before it submits the form for a new table: names that match \<open>[a-z][a-z0-9_]*\<close>.\<close>

definition html_name :: "string \<Rightarrow> bool" where
  "html_name s \<longleftrightarrow> s \<noteq> [] \<and> lower_alpha (hd s) \<and> list_all (\<lambda>c. lower_alpha c \<or> digit_char c \<or> c = CHR ''_'') (tl s)"

definition table_submittable :: "tables_screen \<Rightarrow> bool" where
  "table_submittable s \<longleftrightarrow> html_name (rs_name s) \<and> list_all (\<lambda>c. html_name (fk_name c)) (rs_cols s)"

lemma type_name_read: "parseType (Some (JStr (type_name ty))) = Some ty"
  by (cases ty) (simp_all add: parseType_def type_name_def)

lemma column_read: "parseColumn (column_json c) = (if is_api_name (fk_name c) then Some \<lparr>cn_name = fk_name c, cn_type = fk_type c, cn_choices = None\<rparr> else None)"
  by (simp add: parseColumn_def column_json_def parseApiName_def optional_def type_name_read)

lemma columns_read:
  "list_all (\<lambda>c. is_api_name (fk_name c)) cs \<Longrightarrow>
    parseAll parseColumn (map column_json cs) = Some (map (\<lambda>c. \<lparr>cn_name = fk_name c, cn_type = fk_type c, cn_choices = None\<rparr>) cs)"
  by (induction cs) (simp_all add: column_read)

text \<open>A new table the browser submits is taken by the core when its names are short and distinct, its
  columns at most a hundred, and the key chosen is still the name of a column; renaming or removing
  the chosen column leaves the old name behind, and the core refuses the form with a general error.\<close>

theorem new_table_needs_its_key_column:
  assumes form: "table_submittable s" and key: "keyField s = Some k" and short: "is_api_name (rs_name s)" "list_all (\<lambda>c. is_api_name (fk_name c)) (rs_cols s)"
    and cols: "distinct (map fk_name (rs_cols s))" "rs_cols s \<noteq> []" "length (rs_cols s) \<le> 100"
  shows "\<exists>b. createTableBody s = Some b \<and> (tableCreateSchema b \<noteq> None \<longleftrightarrow> k \<in> set (map fk_name (rs_cols s))) \<and>
    (rs_key s = [] \<longrightarrow> tableCreateSchema b \<noteq> None)"
proof -
  let ?cs = "map (\<lambda>c. \<lparr>cn_name = fk_name c, cn_type = fk_type c, cn_choices = None\<rparr>) (rs_cols s)"
  have names: "map cn_name ?cs = map fk_name (rs_cols s)" by simp
  have "uniqueNames ?cs" using cols(1) unfolding uniqueNames_def names by (simp add: uniq_id)
  moreover have "bounded 100 (parseArray parseColumn (Some (JArr (map column_json (rs_cols s))))) = Some ?cs"
    using columns_read[OF short(2)] cols(2,3) by (simp add: parseArray_def bounded_def Suc_le_eq)
  moreover have "list_ex (\<lambda>c. cn_name c = k) ?cs \<longleftrightarrow> k \<in> set (map fk_name (rs_cols s))" by (auto simp: list_ex_iff)
  moreover have "rs_key s = [] \<Longrightarrow> k \<in> set (map fk_name (rs_cols s))" using key cols(2) by (cases "rs_cols s") (auto simp: keyField_def)
  ultimately show ?thesis using short(1) by (simp add: createTableBody_def key tableCreateSchema_def parseApiName_def)
qed

definition demo_tables :: tables_screen where
  "demo_tables = newTables\<lparr>rs_name := ''orders'', rs_cols := [\<lparr>fk_name = ''order_id'', fk_type = FText\<rparr>], rs_key := ''id''\<rparr>"

lemma new_table_needs_its_key_column_witness: "\<exists>b. createTableBody demo_tables = Some b \<and> tableCreateSchema b = None"
proof -
  have "table_submittable demo_tables" "keyField demo_tables = Some ''id''" "is_api_name (rs_name demo_tables)"
    "list_all (\<lambda>c. is_api_name (fk_name c)) (rs_cols demo_tables)" by code_simp+
  from new_table_needs_its_key_column[OF this] show ?thesis by (simp add: demo_tables_def newTables_def)
qed

section \<open>The rows of a contact\<close>

record row_item =
  rw_key :: string
  rw_data :: object

record panel =
  pn_tables :: "table_item list"
  pn_active :: "string option"
  pn_rows :: "row_item list option"
  pn_pending :: "string list"

definition newPanel :: panel where
  "newPanel = \<lparr>pn_tables = [], pn_active = None, pn_rows = None, pn_pending = []\<rparr>"

text \<open>The effect on the active table: the rows are cleared and asked for. \<open>pn_pending\<close> holds the tables whose rows are on their way.\<close>

definition activeChanged :: "string option \<Rightarrow> panel \<Rightarrow> panel" where
  "activeChanged a s = (if a = pn_active s then s else case a of
      Some (c # cs) \<Rightarrow> s\<lparr>pn_active := a, pn_rows := None, pn_pending := pn_pending s @ [c # cs]\<rparr>
    | _ \<Rightarrow> s\<lparr>pn_active := a\<rparr>)"

definition panelTables :: "table_item list option \<Rightarrow> panel \<Rightarrow> panel" where
  "panelTables r s = (let ts = (case r of Some ts \<Rightarrow> ts | None \<Rightarrow> []) in
     activeChanged (case ts of t # _ \<Rightarrow> Some (tb_id t) | [] \<Rightarrow> None) (s\<lparr>pn_tables := ts\<rparr>))"

text \<open>The tables could not be fetched: the active table stays.\<close>

definition panelFailed :: "panel \<Rightarrow> panel" where
  "panelFailed s = s\<lparr>pn_tables := []\<rparr>"

definition rowsArrived :: "string \<Rightarrow> row_item list option \<Rightarrow> panel \<Rightarrow> panel" where
  "rowsArrived i r s = s\<lparr>pn_rows := Some (case r of Some rs \<Rightarrow> rs | None \<Rightarrow> []), pn_pending := remove1 i (pn_pending s)\<rparr>"

definition cellText :: "json option \<Rightarrow> string" where
  "cellText v = (case v of None \<Rightarrow> ''panel.none'' | Some JNull \<Rightarrow> ''panel.none'' | Some (JBool b) \<Rightarrow> (if b then ''panel.yes'' else ''panel.no'')
     | Some x \<Rightarrow> js_string x)"

text \<open>What the panel shows: the table and, once there are rows, their cells by its columns.\<close>

definition panelView :: "panel \<Rightarrow> (string \<times> string list list option) option" where
  "panelView s = (case find (\<lambda>t. Some (tb_id t) = pn_active s) (pn_tables s) of
      None \<Rightarrow> None
    | Some t \<Rightarrow> Some (tb_name t, map_option (map (\<lambda>r. map (\<lambda>c. cellText (map_of (rw_data r) (fk_name c))) (tb_columns t))) (pn_rows s)))"

text \<open>An answer is not checked against the table on show: after switching from one table to another,
  the rows of the first, when they arrive last, replace those of the second and stay under its name.\<close>

theorem late_rows_show_under_another_table:
  assumes tabs: "pn_active s = Some a" "a \<noteq> b" "b \<noteq> []" "find (\<lambda>t. tb_id t = b) (pn_tables s) = Some t"
  shows "panelView (rowsArrived a (Some rows) (rowsArrived b (Some own) (activeChanged (Some b) s))) =
    Some (tb_name t, Some (map (\<lambda>r. map (\<lambda>c. cellText (map_of (rw_data r) (fk_name c))) (tb_columns t)) rows))"
proof -
  obtain c cs where "b = c # cs" using tabs(3) by (cases b) auto
  moreover have "find (\<lambda>t. Some (tb_id t) = Some b) (pn_tables s) = Some t" using tabs(4) by simp
  ultimately show ?thesis using tabs(1,2) by (simp add: panelView_def rowsArrived_def activeChanged_def)
qed

definition demo_panel :: panel where
  "demo_panel = panelTables (Some [\<lparr>tb_id = ''t1'', tb_name = ''orders'', tb_key_field = ''n'', tb_columns = [\<lparr>fk_name = ''n'', fk_type = FText\<rparr>]\<rparr>,
     \<lparr>tb_id = ''t2'', tb_name = ''visits'', tb_key_field = ''n'', tb_columns = [\<lparr>fk_name = ''n'', fk_type = FText\<rparr>]\<rparr>]) newPanel"

lemma late_rows_show_under_another_table_witness:
  "panelView (rowsArrived ''t1'' (Some [\<lparr>rw_key = ''1'', rw_data = [(''n'', JStr ''order 1'')]\<rparr>]) (rowsArrived ''t2'' (Some []) (activeChanged (Some ''t2'') demo_panel))) =
    Some (''visits'', Some [[''order 1'']])"
proof -
  let ?t = "\<lparr>tb_id = ''t2'', tb_name = ''visits'', tb_key_field = ''n'', tb_columns = [\<lparr>fk_name = ''n'', fk_type = FText\<rparr>]\<rparr>"
  have "pn_active demo_panel = Some ''t1''" "find (\<lambda>t. tb_id t = ''t2'') (pn_tables demo_panel) = Some ?t"
    by (simp_all add: demo_panel_def panelTables_def activeChanged_def newPanel_def Let_def)
  from late_rows_show_under_another_table[OF this(1) _ _ this(2), of "[\<lparr>rw_key = ''1'', rw_data = [(''n'', JStr ''order 1'')]\<rparr>]" "[]"]
  show ?thesis by (simp add: cellText_def)
qed

section \<open>Export and erasure\<close>

record gdpr_item =
  gi_id :: string
  gi_status :: string
  gi_result_url :: "string option"

record gdpr_panel =
  gp_export :: "gdpr_item option"
  gp_typed :: string
  gp_forgotten :: bool
  gp_error :: "string option"

definition newGdprPanel :: gdpr_panel where
  "newGdprPanel = \<lparr>gp_export = None, gp_typed = [], gp_forgotten = False, gp_error = None\<rparr>"

definition exportPending :: "gdpr_panel \<Rightarrow> bool" where
  "exportPending s \<longleftrightarrow> (case gp_export s of None \<Rightarrow> False | Some r \<Rightarrow> gi_status r = ''queued'' \<or> gi_status r = ''running'')"

text \<open>One tick of the poll with the requests it read, if any: the timer exists only while an export is pending.\<close>

definition pollExport :: "gdpr_item list option \<Rightarrow> gdpr_panel \<Rightarrow> gdpr_panel" where
  "pollExport r s = (if \<not> exportPending s then s
     else case find (\<lambda>x. Some (gi_id x) = map_option gi_id (gp_export s)) (case r of Some xs \<Rightarrow> xs | None \<Rightarrow> []) of
       Some x \<Rightarrow> s\<lparr>gp_export := Some x\<rparr> | None \<Rightarrow> s)"

definition exportRequested :: "gdpr_item option \<Rightarrow> gdpr_panel \<Rightarrow> gdpr_panel" where
  "exportRequested r s = (case r of None \<Rightarrow> s\<lparr>gp_error := Some ''errors.generic''\<rparr> | Some x \<Rightarrow> s\<lparr>gp_error := None, gp_export := Some x\<rparr>)"

text \<open>The call of \<open>forget\<close>, if it is made, and its end.\<close>

definition forgetCall :: "string \<Rightarrow> string \<Rightarrow> gdpr_panel \<Rightarrow> string option" where
  "forgetCall contactId email s = (if gp_typed s \<noteq> email then None else Some (''/contacts/'' @ contactId @ ''/gdpr/forget''))"

definition forgetSettled :: "bool \<Rightarrow> gdpr_panel \<Rightarrow> gdpr_panel" where
  "forgetSettled ok s = (if ok then s\<lparr>gp_error := None, gp_forgotten := True\<rparr> else s\<lparr>gp_error := Some ''errors.generic''\<rparr>)"

definition exportLink :: "gdpr_panel \<Rightarrow> string option" where
  "exportLink s = (case gp_export s of Some r \<Rightarrow> if gi_status r = ''done'' then gi_result_url r else None | None \<Rightarrow> None)"

text \<open>The mail address of the contact as the page passes it on.\<close>

definition contactEmail :: "object \<Rightarrow> string" where
  "contactEmail vals = (case map_of vals ''3'' of None \<Rightarrow> [] | Some JNull \<Rightarrow> [] | Some v \<Rightarrow> js_string v)"

text \<open>Erasure asks for the contact's address to be typed first, and only that text lets the call
  through; but a contact without an address needs nothing: the form as it opens already erases it.\<close>

theorem erasure_needs_the_address_if_there_is_one:
  "(forgetCall i (contactEmail vals) s \<noteq> None \<longleftrightarrow> gp_typed s = contactEmail vals) \<and>
   (contactEmail vals = [] \<longleftrightarrow> forgetCall i (contactEmail vals) newGdprPanel \<noteq> None)"
  by (auto simp: forgetCall_def newGdprPanel_def)

section \<open>The requests\<close>

record 'r gdpr_screen =
  gs_items :: "'r list option"
  gs_error :: bool

definition gdprLoaded :: "'r list option \<Rightarrow> 'r gdpr_screen \<Rightarrow> 'r gdpr_screen" where
  "gdprLoaded r s = (case r of Some xs \<Rightarrow> s\<lparr>gs_items := Some xs\<rparr> | None \<Rightarrow> s\<lparr>gs_error := True\<rparr>)"

text \<open>A poll only follows its own request, and stops with the first status that is final.\<close>

lemma pollExport_same: "gp_export (pollExport r s) = gp_export s \<or> map_option gi_id (gp_export (pollExport r s)) = map_option gi_id (gp_export s)"
  by (auto simp: pollExport_def find_Some_iff split: option.splits)

lemma poll_settled: "\<not> exportPending s \<Longrightarrow> fold pollExport rs s = s"
  by (induction rs) (simp_all add: pollExport_def)

end
