(* ===== verification/Core_Service.thy ===== *)
theory Core_Service
  imports Tenants
begin

text \<open>
  Start and health of the core service: the configuration (\<open>packages/ts-common/src/config\<close>,
  \<open>main.ts\<close>, \<open>app.module.ts\<close>), the probes (\<open>health.controller.ts\<close>) and the command that creates
  the first operator (\<open>cli/main.ts\<close>).
\<close>

section \<open>Configuration\<close>

text \<open>A parsed environment: the issues of the failing variables (their paths and zod's messages), or the configuration.\<close>

type_synonym config_issue = "string list \<times> string"

definition issue_line :: "config_issue \<Rightarrow> string" where
  "issue_line i = ''  - '' @ (case join_with ''.'' (fst i) of [] \<Rightarrow> ''(root)'' | p \<Rightarrow> p) @ '': '' @ snd i"

definition loadConfig :: "('env \<Rightarrow> config_issue list + 'c) \<Rightarrow> 'env \<Rightarrow> exn + 'c" where
  "loadConfig schema env = (case schema env of
      Inl issues \<Rightarrow> Inl (PlainError (''Invalid configuration:'' @ [chr 10] @ join_with [chr 10] (map issue_line issues)))
    | Inr c \<Rightarrow> Inr c)"

type_synonym environment = "string \<Rightarrow> string option"

record core_config =
  cc_port :: int
  cc_database :: string
  cc_nats :: string
  cc_issuer :: string

record identity_config =
  ic_keysDir :: string
  ic_encryptionKey :: string
  ic_serviceCredentials :: string

text \<open>\<open>msg\<close> gives zod's messages for a variable that fails and its value. A required value is never empty text.\<close>

definition failing :: "(string \<Rightarrow> string option \<Rightarrow> string list) \<Rightarrow> environment \<Rightarrow> string \<Rightarrow> config_issue list" where
  "failing msg env k = map (Pair [k]) (msg k (env k))"

definition required :: "(string \<Rightarrow> string option \<Rightarrow> string list) \<Rightarrow> environment \<Rightarrow> string \<Rightarrow> config_issue list + string" where
  "required msg env k = (case env k of Some (c # s) \<Rightarrow> Inr (c # s) | _ \<Rightarrow> Inl (failing msg env k))"

definition config_port :: "(string \<Rightarrow> string option \<Rightarrow> string list) \<Rightarrow> environment \<Rightarrow> config_issue list + int" where
  "config_port msg env = (case env ''PORT'' of
      None \<Rightarrow> Inr 3000
    | Some s \<Rightarrow> (case js_number s of
        Some n \<Rightarrow> if is_int_num n \<and> 0 < mant n then Inr (mant n) else Inl (failing msg env ''PORT'')
      | None \<Rightarrow> Inl (failing msg env ''PORT'')))"

definition config_issuer :: "(string \<Rightarrow> string option \<Rightarrow> string list) \<Rightarrow> environment \<Rightarrow> config_issue list + string" where
  "config_issuer msg env = (if env ''CORE_JWT_ISSUER'' = None then Inr ''open-emarsys/core'' else required msg env ''CORE_JWT_ISSUER'')"

definition issues_of :: "config_issue list + 'a \<Rightarrow> config_issue list" where
  "issues_of r = (case r of Inl es \<Rightarrow> es | Inr _ \<Rightarrow> [])"

definition configSchema :: "(string \<Rightarrow> string option \<Rightarrow> string list) \<Rightarrow> environment \<Rightarrow> config_issue list + core_config" where
  "configSchema msg env = (case (config_port msg env, required msg env ''DATABASE_URL'', required msg env ''NATS_URL'', config_issuer msg env) of
      (Inr p, Inr d, Inr n, Inr i) \<Rightarrow> Inr \<lparr>cc_port = p, cc_database = d, cc_nats = n, cc_issuer = i\<rparr>
    | (p, d, n, i) \<Rightarrow> Inl (issues_of p @ issues_of d @ issues_of n @ issues_of i))"

definition identityConfigSchema :: "(string \<Rightarrow> string option \<Rightarrow> string list) \<Rightarrow> environment \<Rightarrow> config_issue list + identity_config" where
  "identityConfigSchema msg env =
    (case (required msg env ''CORE_JWT_KEYS_DIR'', required msg env ''CORE_ENCRYPTION_KEY'', required msg env ''CORE_SERVICE_CREDENTIALS'') of
      (Inr a, Inr b, Inr c) \<Rightarrow> Inr \<lparr>ic_keysDir = a, ic_encryptionKey = b, ic_serviceCredentials = c\<rparr>
    | (a, b, c) \<Rightarrow> Inl (issues_of a @ issues_of b @ issues_of c))"

text \<open>\<open>bootstrap\<close> up to the port it listens on; \<open>AppModule.forRoot\<close> reads the second part.\<close>

definition bootstrap :: "(string \<Rightarrow> string option \<Rightarrow> string list) \<Rightarrow> environment \<Rightarrow> exn + core_config \<times> identity_config" where
  "bootstrap msg env = (case loadConfig (configSchema msg) env of
      Inl e \<Rightarrow> Inl e
    | Inr c \<Rightarrow> map_sum id (Pair c) (loadConfig (identityConfigSchema msg) env))"

section \<open>Health\<close>

definition healthz :: string where
  "healthz = ''ok''"

text \<open>What Postgres and NATS answer is an argument: an error's message, or nothing.\<close>

definition readyz :: "string option \<Rightarrow> string option \<Rightarrow> exn + string" where
  "readyz postgres nats = (case postgres of
      Some m \<Rightarrow> Inl (HttpExc 503 (''postgres not ready: '' @ m))
    | None \<Rightarrow> (case nats of Some m \<Rightarrow> Inl (HttpExc 503 (''nats not ready: '' @ m)) | None \<Rightarrow> Inr ''ok''))"

section \<open>The command\<close>

definition MIN_PASSWORD_LENGTH :: nat where
  "MIN_PASSWORD_LENGTH = 12"

text \<open>Its output and exit code; an exception leaves the process by itself.\<close>

definition createOperatorAction :: "(string \<Rightarrow> string \<Rightarrow> string) \<Rightarrow> string \<Rightarrow> string \<Rightarrow> (string \<times> nat) iact" where
  "createOperatorAction argon email password =
    (if length password < MIN_PASSWORD_LENGTH
     then retM (''password must be at least '' @ show_nat MIN_PASSWORD_LENGTH @ '' characters'', 1)
     else bindM (createOperator argon email password) (\<lambda>(created, userId).
       retM (if created then ''created operator '' @ email @ '' ('' @ userId @ '')''
             else ''operator '' @ email @ '' already exists ('' @ userId @ '')'', 0)))"

section \<open>Facts\<close>

lemma readyz_ok: "readyz p n = Inr r \<longleftrightarrow> p = None \<and> n = None \<and> r = healthz"
  by (auto simp: readyz_def healthz_def split: option.splits)

text \<open>A service that starts has all its settings: no empty text, and a port above zero.\<close>

lemma required_value: "required msg env k = Inr v \<Longrightarrow> env k = Some v \<and> v \<noteq> []"
  by (auto simp: required_def split: option.splits list.splits)

lemma started_is_configured:
  assumes "bootstrap msg env = Inr (c, i)"
  shows "0 < cc_port c \<and> env ''DATABASE_URL'' = Some (cc_database c) \<and> cc_database c \<noteq> [] \<and> env ''NATS_URL'' = Some (cc_nats c) \<and> cc_nats c \<noteq> [] \<and>
    cc_issuer c \<noteq> [] \<and> ic_keysDir i \<noteq> [] \<and> ic_encryptionKey i \<noteq> [] \<and> ic_serviceCredentials i \<noteq> []"
proof -
  have c: "configSchema msg env = Inr c" and i: "identityConfigSchema msg env = Inr i"
    using assms by (auto simp: bootstrap_def loadConfig_def split: sum.splits)
  obtain p d n s where parts: "config_port msg env = Inr p" "required msg env ''DATABASE_URL'' = Inr d" "required msg env ''NATS_URL'' = Inr n"
      "config_issuer msg env = Inr s" "c = \<lparr>cc_port = p, cc_database = d, cc_nats = n, cc_issuer = s\<rparr>"
    using c by (auto simp: configSchema_def split: sum.splits)
  have "0 < p" using parts(1) by (auto simp: config_port_def split: option.splits if_splits)
  moreover have "s \<noteq> []" using parts(4) required_value by (auto simp: config_issuer_def split: if_splits)
  moreover have "ic_keysDir i \<noteq> [] \<and> ic_encryptionKey i \<noteq> [] \<and> ic_serviceCredentials i \<noteq> []"
    using i required_value by (fastforce simp: identityConfigSchema_def split: sum.splits)
  ultimately show ?thesis using parts required_value by simp
qed

text \<open>A short password touches nothing.\<close>

lemma short_password_does_nothing: "length password < MIN_PASSWORD_LENGTH \<Longrightarrow> snd (createOperatorAction argon email password w) = w"
  by (simp add: createOperatorAction_def retM_def)

end
