(* ===== verification/Core_Routes.thy ===== *)
theory Core_Routes
  imports Contacts_Api Contact_Lists_Api Relational Gdpr Contacts_Query Consents Tenants Api_Clients OAuth
begin

text \<open>
  The routes of core: for every controller of \<open>services/core/src/modules\<close> its decorators (verb,
  path, status, \<open>@Public\<close>, \<open>@RequirePermission\<close>, \<open>@InternalOnly\<close>, \<open>@UseGuards\<close>, the envelope), the
  choice of a handler by verb and path, and the guards in front of it. The handlers that only pass
  their arguments on are here too; the others are in the theories of their services.
\<close>

section \<open>Handlers that pass on\<close>

text \<open>\<open>relational.controller.ts\<close>: Prisma refuses a \<open>take\<close> with a fraction.\<close>

record table_dto =
  rtd_id :: string
  rtd_name :: string
  rtd_key_field :: string
  rtd_columns :: "column list"
  rtd_created_at :: string
  rtd_updated_at :: string

definition toTableDto :: "rtable \<Rightarrow> table_dto" where
  "toTableDto t = \<lparr>rtd_id = tb_id t, rtd_name = tb_name t, rtd_key_field = tb_keyField t, rtd_columns = tb_columns t,
     rtd_created_at = iso_string (tb_createdAt t), rtd_updated_at = iso_string (tb_updatedAt t)\<rparr>"

definition toRowDto :: "rrow \<Rightarrow> string \<times> object \<times> string" where
  "toRowDto r = (rr_key r, rr_data r, iso_string (rr_updatedAt r))"

definition fractionalTake :: exn where
  "fractionalTake = PlainError ''take is not an integer''"

definition listTablesEndpoint :: "principal \<Rightarrow> string option \<Rightarrow> string option \<Rightarrow> (table_dto list \<times> string option) act" where
  "listTablesEndpoint p limit cursor = bindM (liftE (relTenantOf p)) (\<lambda>t. let n = pageSize limit in
     if \<not> is_int_num n then throwM fractionalTake
     else bindM (listTables t (nat (mant n)) cursor) (\<lambda>(ts, c). retM (map toTableDto ts, c)))"

definition getTableEndpoint :: "principal \<Rightarrow> string \<Rightarrow> table_dto act" where
  "getTableEndpoint p i = bindM (liftE (relTenantOf p)) (\<lambda>t. bindM (getTable t i) (\<lambda>r. retM (toTableDto r)))"

definition rowsOfEndpoint :: "principal \<Rightarrow> string \<Rightarrow> string \<Rightarrow> string option \<Rightarrow> string option \<Rightarrow> ((string \<times> object \<times> string) list \<times> string option) act" where
  "rowsOfEndpoint p contactId tableId limit cursor = bindM (liftE (relTenantOf p)) (\<lambda>t. let n = pageSize limit in
     if is_int_num n then bindM (rowsOf t contactId tableId (nat (mant n)) cursor) (\<lambda>(rs, c). retM (map toRowDto rs, c))
     else bindM (getTable t tableId) (\<lambda>_. if is_uuid contactId then throwM fractionalTake else retM ([], None)))"

text \<open>\<open>lists.controller.ts\<close>, \<open>contacts-query.controller.ts\<close>, \<open>tenants.controller.ts\<close>\<close>

definition listListsEndpoint :: "principal \<Rightarrow> query \<Rightarrow> list_dto cursor_page act" where
  "listListsEndpoint p q = bindM (liftE (listTenantOf p)) (\<lambda>t. list_lists t q)"

definition getListEndpoint :: "principal \<Rightarrow> string \<Rightarrow> list_dto act" where
  "getListEndpoint p i = bindM (liftE (listTenantOf p)) (\<lambda>t. getList t i)"

definition listMembersEndpoint :: "principal \<Rightarrow> string \<Rightarrow> query \<Rightarrow> member_dto cursor_page act" where
  "listMembersEndpoint p i q = bindM (liftE (listTenantOf p)) (\<lambda>t. list_members t i q)"

definition listsOfEndpoint :: "principal \<Rightarrow> string \<Rightarrow> query \<Rightarrow> list_dto cursor_page act" where
  "listsOfEndpoint p i q = bindM (liftE (listTenantOf p)) (\<lambda>t. listsOf t i q)"

definition profileEndpoint :: "(string \<Rightarrow> string option) \<Rightarrow> principal \<Rightarrow> string \<Rightarrow>
    (contact_dto \<times> (string \<times> json option) list \<times> (string \<times> json) list \<times> (string \<times> string) list) act" where
  "profileEndpoint defaultLocale p i = bindM (liftE (queryTenantOf p)) (\<lambda>t0. bindM (liftE (inTenant (Some t0))) (\<lambda>t. profile defaultLocale t i))"

definition getTenantEndpoint :: "string \<Rightarrow> tenant_dto iact" where
  "getTenantEndpoint i = getTenantDto i"

text \<open>\<open>gdpr.controller.ts\<close>, \<open>consents.controller.ts\<close>\<close>

definition publicGdprExport :: "principal \<Rightarrow> json \<Rightarrow> string gact" where
  "publicGdprExport p body = publicGdprRequest p body GExport"

definition publicGdprForget :: "principal \<Rightarrow> json \<Rightarrow> string gact" where
  "publicGdprForget p body = publicGdprRequest p body GForget"

definition adminGdprExport :: "principal \<Rightarrow> string \<Rightarrow> gdpr_req gact" where
  "adminGdprExport p i = adminGdprRequest p i GExport"

definition adminGdprForget :: "principal \<Rightarrow> string \<Rightarrow> gdpr_req gact" where
  "adminGdprForget p i = adminGdprRequest p i GForget"

definition consentLimit :: "json option \<Rightarrow> nat option" where
  "consentLimit v = (case v of None \<Rightarrow> Some 50
     | Some x \<Rightarrow> (case js_number (js_string x) of
         Some n \<Rightarrow> if is_int_num n \<and> 1 \<le> mant n \<and> mant n \<le> 200 then Some (nat (mant n)) else None
       | None \<Rightarrow> None))"

definition consentQuery :: "json \<Rightarrow> (channel option \<times> string option \<times> nat) option" where
  "consentQuery v = (case v of JObj kvs \<Rightarrow> (case (optional parseChannel (map_of kvs ''channel''),
        optional (\<lambda>x. case x of Some (JStr s) \<Rightarrow> Some s | _ \<Rightarrow> None) (map_of kvs ''cursor''), consentLimit (map_of kvs ''limit'')) of
       (Some ch, Some c, Some n) \<Rightarrow> Some (ch, c, n) | _ \<Rightarrow> None)
     | _ \<Rightarrow> None)"

definition listConsents :: "principal \<Rightarrow> string \<Rightarrow> json \<Rightarrow> (consent_dto list \<times> string option) act" where
  "listConsents p i q = bindM (liftE (parseBody consentQuery q)) (\<lambda>(ch, c, n). bindM (liftE (consentTenantOf p)) (\<lambda>t. history t i ch n c))"

section \<open>Endpoints\<close>

datatype segment = Literal string | Param string

record endpoint =
  ep_verb :: string
  ep_path :: "segment list"
  ep_status :: nat
  ep_route :: route
  ep_operator :: bool
  ep_envelope :: bool

text \<open>What the decorators of a handler and of its class say about the caller.\<close>

datatype access = Open | Signed | Needs string | Service "string option"

fun route_of :: "access \<Rightarrow> route" where
  "route_of Open = \<lparr>rt_public = True, rt_internal = False, rt_required = []\<rparr>"
| "route_of Signed = \<lparr>rt_public = False, rt_internal = False, rt_required = []\<rparr>"
| "route_of (Needs p) = \<lparr>rt_public = False, rt_internal = False, rt_required = [p]\<rparr>"
| "route_of (Service p) = \<lparr>rt_public = False, rt_internal = True, rt_required = (case p of None \<Rightarrow> [] | Some x \<Rightarrow> [x])\<rparr>"

definition segment_of :: "string \<Rightarrow> segment" where
  "segment_of s = (case s of [] \<Rightarrow> Literal [] | c # n \<Rightarrow> if c = CHR '':'' then Param n else Literal s)"

definition segments :: "string \<Rightarrow> segment list" where
  "segments s = map segment_of (filter (\<lambda>x. x \<noteq> []) (split_on CHR ''/'' s))"

definition controller :: "string \<Rightarrow> bool \<Rightarrow> bool \<Rightarrow> (string \<times> string \<times> nat \<times> access) list \<Rightarrow> endpoint list" where
  "controller prefix envelope operator rows = map (\<lambda>(verb, path, status, access).
     \<lparr>ep_verb = verb, ep_path = segments prefix @ segments path, ep_status = status, ep_route = route_of access, ep_operator = operator, ep_envelope = envelope\<rparr>) rows"

section \<open>The controllers\<close>

definition ApiClientsController :: "endpoint list" where
  "ApiClientsController = controller ''admin/v1/api-clients'' False False
    [(''GET'', [], 200, Needs ''identity:admin''),
     (''POST'', [], 201, Needs ''identity:admin''),
     (''POST'', '':id/revoke'', 200, Needs ''identity:admin'')]"

definition AuditLogController :: "endpoint list" where
  "AuditLogController = controller ''admin/v1/audit-log'' False False
    [(''GET'', [], 200, Needs ''identity:admin'')]"

definition AuthController :: "endpoint list" where
  "AuthController = controller [] False False
    [(''GET'', ''.well-known/jwks.json'', 200, Open),
     (''POST'', ''admin/v1/auth/login'', 200, Open),
     (''POST'', ''admin/v1/auth/mfa/verify'', 200, Open),
     (''POST'', ''admin/v1/auth/refresh'', 200, Open),
     (''POST'', ''admin/v1/auth/logout'', 204, Signed),
     (''PATCH'', ''admin/v1/me'', 200, Signed),
     (''POST'', ''admin/v1/me/mfa/enroll'', 200, Signed),
     (''POST'', ''admin/v1/me/mfa/confirm'', 200, Signed),
     (''DELETE'', ''admin/v1/me/mfa'', 204, Signed)]"

definition PublicConsentsController :: "endpoint list" where
  "PublicConsentsController = controller ''api/v3/contact/consent'' True False
    [(''POST'', [], 200, Needs ''contacts:edit'')]"

definition AdminConsentsController :: "endpoint list" where
  "AdminConsentsController = controller ''admin/v1/contacts/:id/consents'' False False
    [(''GET'', [], 200, Needs ''contacts:view''),
     (''POST'', [], 201, Needs ''contacts:edit'')]"

definition PublicContactsQueryController :: "endpoint list" where
  "PublicContactsQueryController = controller ''api/v3/contact'' True False
    [(''POST'', ''getdata'', 200, Needs ''contacts:view'')]"

definition AdminContactsQueryController :: "endpoint list" where
  "AdminContactsQueryController = controller ''admin/v1/contacts'' False False
    [(''GET'', [], 200, Needs ''contacts:view''),
     (''GET'', '':id'', 200, Needs ''contacts:view'')]"

definition InternalContactsQueryController :: "endpoint list" where
  "InternalContactsQueryController = controller ''internal/v1/contacts'' False False
    [(''POST'', ''lookup'', 200, Service None),
     (''GET'', ''stream'', 200, Service None)]"

definition PublicContactsWriteController :: "endpoint list" where
  "PublicContactsWriteController = controller ''api/v3/contact'' True False
    [(''POST'', [], 200, Needs ''contacts:edit''),
     (''PUT'', [], 200, Needs ''contacts:edit''),
     (''POST'', ''delete'', 200, Needs ''contacts:edit'')]"

definition AdminContactsWriteController :: "endpoint list" where
  "AdminContactsWriteController = controller ''admin/v1/contacts'' False False
    [(''PATCH'', '':id'', 200, Needs ''contacts:edit''),
     (''DELETE'', '':id'', 204, Needs ''contacts:edit'')]"

definition InternalContactsWriteController :: "endpoint list" where
  "InternalContactsWriteController = controller ''internal/v1/contacts'' False False
    [(''POST'', ''batch-upsert'', 200, Service (Some ''contacts:edit'')),
     (''POST'', '':id/fields'', 200, Service (Some ''contacts:edit''))]"

definition FieldsController :: "endpoint list" where
  "FieldsController = controller ''admin/v1/fields'' False False
    [(''GET'', [], 200, Needs ''contacts:view''),
     (''POST'', [], 201, Needs ''contacts:admin''),
     (''PATCH'', '':fieldId'', 200, Needs ''contacts:admin''),
     (''DELETE'', '':fieldId'', 204, Needs ''contacts:admin'')]"

definition PublicFieldsController :: "endpoint list" where
  "PublicFieldsController = controller ''api/v3/field'' True False
    [(''GET'', [], 200, Needs ''contacts:view''),
     (''POST'', [], 200, Needs ''contacts:admin''),
     (''GET'', '':id/choice'', 200, Needs ''contacts:view'')]"

definition InternalFieldsController :: "endpoint list" where
  "InternalFieldsController = controller ''internal/v1/fields'' False False
    [(''GET'', [], 200, Service None)]"

definition PublicGdprController :: "endpoint list" where
  "PublicGdprController = controller ''api/v3/gdpr'' True False
    [(''POST'', ''export'', 202, Needs ''contacts:admin''),
     (''POST'', ''forget'', 202, Needs ''contacts:admin'')]"

definition AdminGdprController :: "endpoint list" where
  "AdminGdprController = controller ''admin/v1'' False False
    [(''POST'', ''contacts/:id/gdpr/export'', 202, Needs ''contacts:admin''),
     (''POST'', ''contacts/:id/gdpr/forget'', 202, Needs ''contacts:admin''),
     (''GET'', ''gdpr-requests'', 200, Needs ''contacts:admin'')]"

definition HealthController :: "endpoint list" where
  "HealthController = controller [] False False
    [(''GET'', ''healthz'', 200, Open),
     (''GET'', ''readyz'', 200, Open)]"

definition PublicListsController :: "endpoint list" where
  "PublicListsController = controller ''api/v3/contactlist'' True False
    [(''GET'', [], 200, Needs ''contacts:view''),
     (''POST'', [], 200, Needs ''contacts:edit''),
     (''POST'', '':id/add'', 200, Needs ''contacts:edit''),
     (''POST'', '':id/delete'', 200, Needs ''contacts:edit''),
     (''GET'', '':id/count'', 200, Needs ''contacts:view'')]"

definition AdminListsController :: "endpoint list" where
  "AdminListsController = controller ''admin/v1'' False False
    [(''GET'', ''lists'', 200, Needs ''contacts:view''),
     (''POST'', ''lists'', 201, Needs ''contacts:edit''),
     (''GET'', ''lists/:id'', 200, Needs ''contacts:view''),
     (''PATCH'', ''lists/:id'', 200, Needs ''contacts:edit''),
     (''DELETE'', ''lists/:id'', 204, Needs ''contacts:edit''),
     (''GET'', ''lists/:id/members'', 200, Needs ''contacts:view''),
     (''POST'', ''lists/:id/members'', 200, Needs ''contacts:edit''),
     (''DELETE'', ''lists/:id/members'', 200, Needs ''contacts:edit''),
     (''GET'', ''contacts/:id/lists'', 200, Needs ''contacts:view'')]"

definition InternalListsController :: "endpoint list" where
  "InternalListsController = controller ''internal/v1/lists'' False False
    [(''POST'', '':id/members'', 200, Service (Some ''contacts:edit''))]"

definition OAuthController :: "endpoint list" where
  "OAuthController = controller [] False False
    [(''POST'', ''api/v3/oauth/token'', 200, Open),
     (''POST'', ''internal/v1/service-token'', 200, Open),
     (''GET'', ''internal/v1/revocations'', 200, Service None)]"

definition RelationalController :: "endpoint list" where
  "RelationalController = controller ''admin/v1'' False False
    [(''GET'', ''relational-tables'', 200, Needs ''contacts:view''),
     (''POST'', ''relational-tables'', 201, Needs ''contacts:admin''),
     (''GET'', ''relational-tables/:id'', 200, Needs ''contacts:view''),
     (''PATCH'', ''relational-tables/:id'', 200, Needs ''contacts:admin''),
     (''DELETE'', ''relational-tables/:id'', 204, Needs ''contacts:admin''),
     (''GET'', ''contacts/:id/relational/:tableId'', 200, Needs ''contacts:view'')]"

definition PublicRelationalController :: "endpoint list" where
  "PublicRelationalController = controller ''api/v3/relational'' True False
    [(''PUT'', '':tableId/rows'', 200, Needs ''contacts:edit'')]"

definition InternalRelationalController :: "endpoint list" where
  "InternalRelationalController = controller ''internal/v1/relational'' False False
    [(''POST'', '':tableId/rows'', 200, Service None)]"

definition RolesController :: "endpoint list" where
  "RolesController = controller ''admin/v1/roles'' False False
    [(''GET'', [], 200, Needs ''identity:view''),
     (''POST'', [], 201, Needs ''identity:admin''),
     (''PATCH'', '':id'', 200, Needs ''identity:admin''),
     (''DELETE'', '':id'', 204, Needs ''identity:admin'')]"

definition TenantsController :: "endpoint list" where
  "TenantsController = controller ''admin/v1/tenants'' False True
    [(''GET'', [], 200, Needs ''tenants:view''),
     (''POST'', [], 201, Needs ''tenants:admin''),
     (''GET'', '':id'', 200, Needs ''tenants:view''),
     (''PATCH'', '':id'', 200, Needs ''tenants:admin'')]"

definition InvitationsController :: "endpoint list" where
  "InvitationsController = controller ''admin/v1/invitations'' False False
    [(''POST'', '':token/accept'', 200, Open)]"

definition UsersController :: "endpoint list" where
  "UsersController = controller ''admin/v1/users'' False False
    [(''GET'', [], 200, Needs ''identity:view''),
     (''POST'', ''invitations'', 201, Needs ''identity:admin''),
     (''PATCH'', '':id'', 200, Needs ''identity:admin''),
     (''DELETE'', '':id'', 204, Needs ''identity:admin'')]"

definition CORE_ROUTES :: "endpoint list" where
  "CORE_ROUTES = ApiClientsController @ AuditLogController @ AuthController @ PublicConsentsController @ AdminConsentsController @ PublicContactsQueryController @ AdminContactsQueryController @ InternalContactsQueryController @ PublicContactsWriteController @ AdminContactsWriteController @ InternalContactsWriteController @ FieldsController @ PublicFieldsController @ InternalFieldsController @ PublicGdprController @ AdminGdprController @ HealthController @ PublicListsController @ AdminListsController @ InternalListsController @ OAuthController @ RelationalController @ PublicRelationalController @ InternalRelationalController @ RolesController @ TenantsController @ InvitationsController @ UsersController"

section \<open>From a request to its handler\<close>

text \<open>
  The choice of a handler is Express's, an argument: what is relied on is that it gives a route that
  is there, of the verb of the request (a handler of GET answers HEAD).
\<close>

type_synonym router = "string \<Rightarrow> string \<Rightarrow> endpoint option"

definition verb_fits :: "endpoint \<Rightarrow> string \<Rightarrow> bool" where
  "verb_fits e verb \<longleftrightarrow> ep_verb e = verb \<or> (ep_verb e = ''GET'' \<and> verb = ''HEAD'')"

definition chooses_routes :: "router \<Rightarrow> bool" where
  "chooses_routes router \<longleftrightarrow> (\<forall>verb path e. router verb path = Some e \<longrightarrow> e \<in> set CORE_ROUTES \<and> verb_fits e verb)"

text \<open>The global guard comes first (\<open>APP_GUARD\<close>), then the guard of the class; without a handler there is nothing to guard.\<close>

definition authorize :: "router \<Rightarrow> (string \<Rightarrow> exn + principal) \<Rightarrow> string \<Rightarrow> string \<Rightarrow> string option \<Rightarrow> exn + endpoint \<times> principal option" where
  "authorize router verify verb path authorization = (case router verb path of
      None \<Rightarrow> Inl (HttpExc 404 (''Cannot '' @ verb @ '' '' @ path))
    | Some e \<Rightarrow> (case canActivate verify (ep_route e) authorization of
        Inl x \<Rightarrow> Inl x
      | Inr p \<Rightarrow> if ep_operator e then map_sum id (\<lambda>_. (e, p)) (operatorOnly p) else Inr (e, p)))"

text \<open>The matching Express documents: literals without case, one segment for a parameter, a final slash overlooked.\<close>

definition request_segments :: "string \<Rightarrow> string list" where
  "request_segments path = (case split_on CHR ''/'' path of [] \<Rightarrow> []
     | s # ss \<Rightarrow> let r = (if s = [] then ss else s # ss) in if r \<noteq> [] \<and> last r = [] then butlast r else r)"

fun segment_fits :: "segment \<Rightarrow> string \<Rightarrow> bool" where
  "segment_fits (Literal l) s \<longleftrightarrow> lower l = lower s"
| "segment_fits (Param n) s \<longleftrightarrow> s \<noteq> []"

definition handles :: "endpoint \<Rightarrow> string \<Rightarrow> string list \<Rightarrow> bool" where
  "handles e verb ss \<longleftrightarrow> length (ep_path e) = length ss \<and> verb_fits e verb \<and> list_all2 segment_fits (ep_path e) ss"

definition dispatch :: router where
  "dispatch verb path = find (\<lambda>e. handles e verb (request_segments path)) CORE_ROUTES"

section \<open>Facts\<close>

text \<open>The words of the paths are in small letters, so a comparison of them is one of the words as they are.\<close>

definition WORDS :: "string list" where
  "WORDS = [''.well-known'', ''accept'', ''add'', ''admin'', ''api'', ''api-clients'', ''audit-log'', ''auth'',
     ''batch-upsert'', ''choice'', ''confirm'', ''consent'', ''consents'', ''contact'', ''contactlist'', ''contacts'',
     ''count'', ''delete'', ''enroll'', ''export'', ''field'', ''fields'', ''forget'', ''gdpr'',
     ''gdpr-requests'', ''getdata'', ''healthz'', ''internal'', ''invitations'', ''jwks.json'', ''lists'', ''login'',
     ''logout'', ''lookup'', ''me'', ''members'', ''mfa'', ''oauth'', ''readyz'', ''refresh'',
     ''relational'', ''relational-tables'', ''revocations'', ''revoke'', ''roles'', ''rows'', ''service-token'', ''stream'',
     ''tenants'', ''token'', ''users'', ''v1'', ''v3'', ''verify'']"

fun worded :: "segment \<Rightarrow> bool" where
  "worded (Literal l) \<longleftrightarrow> List.member WORDS l"
| "worded (Param n) \<longleftrightarrow> True"

lemma words_lower: "list_all (\<lambda>w. lower w = w) WORDS"
  by (simp add: WORDS_def lower_def lower_char_def upper_alpha_def code_def)

lemma routes_worded: "list_all (\<lambda>e. list_all worded (ep_path e)) CORE_ROUTES"
  by code_simp

fun segments_meet :: "segment \<Rightarrow> segment \<Rightarrow> bool" where
  "segments_meet (Literal l) (Literal k) \<longleftrightarrow> l = k"
| "segments_meet _ _ \<longleftrightarrow> True"

definition routes_of :: "string \<Rightarrow> nat \<Rightarrow> endpoint list" where
  "routes_of v n = filter (\<lambda>e. length (ep_path e) = n) (filter (\<lambda>e. ep_verb e = v) CORE_ROUTES)"

definition apart :: "endpoint list \<Rightarrow> bool" where
  "apart es = sorted_wrt (\<lambda>e f. \<not> list_all2 segments_meet (ep_path e) (ep_path f)) es"

lemma apart_GET: "list_all (\<lambda>n. apart (routes_of ''GET'' n)) [1..<8]"
  by code_simp

lemma apart_POST: "list_all (\<lambda>n. apart (routes_of ''POST'' n)) [1..<8]"
  by code_simp

lemma apart_PUT: "list_all (\<lambda>n. apart (routes_of ''PUT'' n)) [1..<8]"
  by code_simp

lemma apart_PATCH: "list_all (\<lambda>n. apart (routes_of ''PATCH'' n)) [1..<8]"
  by code_simp

lemma apart_DELETE: "list_all (\<lambda>n. apart (routes_of ''DELETE'' n)) [1..<8]"
  by code_simp

definition VERBS :: "string list" where
  "VERBS = [''GET'', ''POST'', ''PUT'', ''PATCH'', ''DELETE'']"

lemma routes_shape: "list_all (\<lambda>e. List.member VERBS (ep_verb e) \<and> 0 < length (ep_path e) \<and> length (ep_path e) < 8) CORE_ROUTES"
  by code_simp

lemma routes_apart: "v \<in> set VERBS \<Longrightarrow> 0 < n \<Longrightarrow> n < 8 \<Longrightarrow> apart (routes_of v n)"
  using apart_GET apart_POST apart_PUT apart_PATCH apart_DELETE by (auto simp: VERBS_def list_all_iff)

lemma segments_meet_sym: "segments_meet a b \<longleftrightarrow> segments_meet b a"
  by (cases a; cases b) auto

lemma apart_equal: "apart es \<Longrightarrow> e \<in> set es \<Longrightarrow> f \<in> set es \<Longrightarrow> list_all2 segments_meet (ep_path e) (ep_path f) \<Longrightarrow> e = f"
proof (induction es)
  case Nil
  then show ?case by simp
next
  case (Cons a es)
  have "list_all2 segments_meet (ep_path f) (ep_path e)"
    using Cons.prems(4) segments_meet_sym by (simp add: list_all2_conv_all_nth)
  then show ?case using Cons by (auto simp: apart_def)
qed

lemma fits_meet: "worded a \<Longrightarrow> worded b \<Longrightarrow> segment_fits a s \<Longrightarrow> segment_fits b s \<Longrightarrow> segments_meet a b"
  using words_lower by (cases a; cases b) (auto simp: list_all_iff)

lemma routes_of_mem: "e \<in> set CORE_ROUTES \<Longrightarrow> e \<in> set (routes_of (ep_verb e) (length (ep_path e)))"
  by (simp add: routes_of_def)

lemma route_facts: "e \<in> set CORE_ROUTES \<Longrightarrow> ep_verb e \<in> set VERBS \<and> 0 < length (ep_path e) \<and> length (ep_path e) < 8 \<and> list_all worded (ep_path e)"
  using routes_shape routes_worded by (simp add: list_all_iff)

lemma verb_fits_same: "e \<in> set CORE_ROUTES \<Longrightarrow> f \<in> set CORE_ROUTES \<Longrightarrow> verb_fits e v \<Longrightarrow> verb_fits f v \<Longrightarrow> ep_verb e = ep_verb f"
  using route_facts[of e] route_facts[of f] by (auto simp: verb_fits_def VERBS_def)

text \<open>A request has one handler at most: no two routes of core fit the same verb and path, so the
  order in which the modules are loaded does not matter.\<close>

lemma one_route:
  assumes "e \<in> set CORE_ROUTES" and "f \<in> set CORE_ROUTES" and "handles e verb ss" and "handles f verb ss"
  shows "e = f"
proof -
  have v: "ep_verb e = ep_verb f" and l: "length (ep_path e) = length (ep_path f)"
    using assms verb_fits_same by (auto simp: handles_def)
  have "list_all2 segments_meet (ep_path e) (ep_path f)"
    using assms route_facts[OF assms(1)] route_facts[OF assms(2)] fits_meet unfolding handles_def list_all2_conv_all_nth list_all_length
    by metis
  then show ?thesis using apart_equal[OF routes_apart[of "ep_verb e" "length (ep_path e)"]] routes_of_mem[OF assms(1)] routes_of_mem[OF assms(2)]
      route_facts[OF assms(1)] v l by simp
qed

section \<open>Who is let through\<close>

definition places :: "(string \<times> string) list \<Rightarrow> (string \<times> segment list) list" where
  "places = map (\<lambda>(v, p). (v, segments p))"

definition place :: "endpoint \<Rightarrow> string \<times> segment list" where
  "place e = (ep_verb e, ep_path e)"

text \<open>The routes without a token, and those by which a caller that may only view can change something.\<close>

definition OPEN_ROUTES :: "(string \<times> string) list" where
  "OPEN_ROUTES = [(''GET'', ''.well-known/jwks.json''), (''POST'', ''admin/v1/auth/login''), (''POST'', ''admin/v1/auth/mfa/verify''),
     (''POST'', ''admin/v1/auth/refresh''), (''GET'', ''healthz''), (''GET'', ''readyz''), (''POST'', ''api/v3/oauth/token''),
     (''POST'', ''internal/v1/service-token''), (''POST'', ''admin/v1/invitations/:token/accept'')]"

definition VIEWER_CHANGES :: "(string \<times> string) list" where
  "VIEWER_CHANGES = [(''POST'', ''admin/v1/auth/logout''), (''PATCH'', ''admin/v1/me''), (''POST'', ''admin/v1/me/mfa/enroll''),
     (''POST'', ''admin/v1/me/mfa/confirm''), (''DELETE'', ''admin/v1/me/mfa''), (''POST'', ''api/v3/contact/getdata''),
     (''POST'', ''internal/v1/contacts/lookup''), (''POST'', ''internal/v1/relational/:tableId/rows'')]"

lemma open_places: "map place (filter (\<lambda>e. rt_public (ep_route e)) CORE_ROUTES) = places OPEN_ROUTES"
  by code_simp

lemma viewer_places: "map place (filter (\<lambda>e. \<not> rt_public (ep_route e) \<and> ep_verb e \<noteq> ''GET'' \<and>
    list_all (\<lambda>g. ends_with g '':view'') (rt_required (ep_route e))) CORE_ROUTES) = places VIEWER_CHANGES"
  by code_simp

lemma internal_places: "list_all (\<lambda>e. rt_public (ep_route e) \<or> rt_internal (ep_route e) = (hd (ep_path e) = Literal ''internal'')) CORE_ROUTES"
  by code_simp

lemma operator_places: "list_all (\<lambda>e. ep_operator e = (take 3 (ep_path e) = [Literal ''admin'', Literal ''v1'', Literal ''tenants''])) CORE_ROUTES"
  by code_simp

text \<open>The permissions of a route are those roles and clients can be given, but for the operator's.\<close>

lemma required_in_catalog: "list_all (\<lambda>e. list_all (List.member (if ep_operator e then map (\<lambda>(m, a). m @ '':'' @ a) OPERATOR_PERMISSIONS else CATALOG)) (rt_required (ep_route e))) CORE_ROUTES"
  by code_simp

lemma envelope_places: "list_all (\<lambda>e. ep_envelope e = (take 2 (ep_path e) = [Literal ''api'', Literal ''v3''] \<and> ep_path e \<noteq> segments ''api/v3/oauth/token'')) CORE_ROUTES"
  by code_simp

lemma dispatch_Some: "dispatch verb path = Some e \<Longrightarrow> e \<in> set CORE_ROUTES \<and> handles e verb (request_segments path)"
  by (auto simp: dispatch_def find_Some_iff)

lemma dispatch_handler:
  assumes "e \<in> set CORE_ROUTES" and "handles e verb (request_segments path)"
  shows "dispatch verb path = Some e"
proof (cases "dispatch verb path")
  case None
  then show ?thesis using assms by (auto simp: dispatch_def find_None_iff)
next
  case (Some f)
  then show ?thesis using dispatch_Some[OF Some] one_route[OF assms(1) _ assms(2)] by auto
qed

lemma dispatch_chooses: "chooses_routes dispatch"
  unfolding chooses_routes_def using dispatch_Some by (auto simp: handles_def)

lemma place_open: "e \<in> set CORE_ROUTES \<Longrightarrow> rt_public (ep_route e) \<Longrightarrow> place e \<in> set (places OPEN_ROUTES)"
  unfolding open_places[symmetric] by auto

lemma viewer_change:
  assumes "e \<in> set CORE_ROUTES" and "\<not> rt_public (ep_route e)" and "ep_verb e \<noteq> ''GET''"
    and "set (rt_required (ep_route e)) \<subseteq> set gs" and "\<forall>g\<in>set gs. ends_with g '':view''"
  shows "place e \<in> set (places VIEWER_CHANGES)"
proof -
  have "list_all (\<lambda>g. ends_with g '':view'') (rt_required (ep_route e))" using assms(4,5) by (auto simp: list_all_iff)
  then have "place e \<in> set (map place (filter (\<lambda>e. \<not> rt_public (ep_route e) \<and> ep_verb e \<noteq> ''GET'' \<and>
      list_all (\<lambda>g. ends_with g '':view'') (rt_required (ep_route e))) CORE_ROUTES))"
    using assms(1-3) by auto
  then show ?thesis by (simp only: viewer_places)
qed

text \<open>C6. Every request core lets through was let through for a reason. Without a token only the nine
  open routes answer. With one, the verifier has accepted it, the caller holds every permission of
  the route, service tokens reach the internal routes and no others, and the tenants are for
  operators. A caller whose permissions are all of the kind view changes nothing but its own
  account: the other routes it reaches with a verb that writes are the two look-ups sent with POST,
  and the internal batch of relational rows, which names no permission.\<close>

theorem requests_are_guarded:
  assumes "chooses_routes router" and "authorize router verify verb path authorization = Inr (e, who)"
  shows "router verb path = Some e \<and> (who = None \<longrightarrow> place e \<in> set (places OPEN_ROUTES)) \<and>
    (\<forall>p. who = Some p \<longrightarrow> (\<exists>token. bearerToken authorization = Some token \<and> verify token = Inr p) \<and>
       set (rt_required (ep_route e)) \<subseteq> set (grantsOf p) \<and>
       (pr_typ p = TService \<longleftrightarrow> hd (ep_path e) = Literal ''internal'') \<and>
       (take 3 (ep_path e) = [Literal ''admin'', Literal ''v1'', Literal ''tenants''] \<longrightarrow> pr_tenant p = None) \<and>
       (verb \<notin> {''GET'', ''HEAD''} \<and> (\<forall>g\<in>set (grantsOf p). ends_with g '':view'') \<longrightarrow> place e \<in> set (places VIEWER_CHANGES)))"
proof -
  obtain d: "router verb path = Some e" and g: "canActivate verify (ep_route e) authorization = Inr who"
      and o: "ep_operator e \<Longrightarrow> operatorOnly who = Inr True"
    using assms(2) by (auto simp: authorize_def operatorOnly_def split: option.splits sum.splits if_splits)
  have e: "e \<in> set CORE_ROUTES" and h: "verb_fits e verb" using assms(1) d by (auto simp: chooses_routes_def)
  have none: "who = None \<longrightarrow> place e \<in> set (places OPEN_ROUTES)"
    using g canActivate_none place_open[OF e] by auto
  have some: "(\<exists>token. bearerToken authorization = Some token \<and> verify token = Inr p) \<and>
       set (rt_required (ep_route e)) \<subseteq> set (grantsOf p) \<and>
       (pr_typ p = TService \<longleftrightarrow> hd (ep_path e) = Literal ''internal'') \<and>
       (take 3 (ep_path e) = [Literal ''admin'', Literal ''v1'', Literal ''tenants''] \<longrightarrow> pr_tenant p = None) \<and>
       (verb \<notin> {''GET'', ''HEAD''} \<and> (\<forall>g\<in>set (grantsOf p). ends_with g '':view'') \<longrightarrow> place e \<in> set (places VIEWER_CHANGES))"
    if w: "who = Some p" for p
  proof -
    have c: "\<not> rt_public (ep_route e)" "\<exists>token. bearerToken authorization = Some token \<and> verify token = Inr p"
        "rt_internal (ep_route e) \<longleftrightarrow> pr_typ p = TService" "set (rt_required (ep_route e)) \<subseteq> set (grantsOf p)"
      using g w canActivate_principal by auto
    have i: "pr_typ p = TService \<longleftrightarrow> hd (ep_path e) = Literal ''internal''"
      using internal_places e c by (auto simp: list_all_iff)
    have t: "take 3 (ep_path e) = [Literal ''admin'', Literal ''v1'', Literal ''tenants''] \<longrightarrow> pr_tenant p = None"
      using operator_places e o w by (auto simp: list_all_iff operatorOnly_def split: if_splits)
    have "verb \<notin> {''GET'', ''HEAD''} \<Longrightarrow> ep_verb e \<noteq> ''GET''" using h by (auto simp: verb_fits_def)
    then show ?thesis using c i t viewer_change[OF e c(1) _ c(4)] by blast
  qed
  show ?thesis using d none some by blast
qed

section \<open>The contracts\<close>

text \<open>\<open>contracts/openapi\<close>: of every operation its verb, path, first status of success and the permission it names.\<close>

definition CONTACTS_CONTRACT :: "(string \<times> string \<times> nat \<times> access) list" where
  "CONTACTS_CONTRACT =
    [(''GET'', ''/fields'', 200, Needs ''contacts:view''),
     (''POST'', ''/fields'', 201, Needs ''contacts:admin''),
     (''PATCH'', ''/fields/{fieldId}'', 200, Needs ''contacts:admin''),
     (''DELETE'', ''/fields/{fieldId}'', 204, Needs ''contacts:admin''),
     (''GET'', ''/contacts'', 200, Needs ''contacts:view''),
     (''POST'', ''/contacts'', 201, Needs ''contacts:edit''),
     (''GET'', ''/contacts/{id}'', 200, Needs ''contacts:view''),
     (''PATCH'', ''/contacts/{id}'', 200, Needs ''contacts:edit''),
     (''DELETE'', ''/contacts/{id}'', 204, Needs ''contacts:edit''),
     (''GET'', ''/contacts/{id}/consents'', 200, Needs ''contacts:view''),
     (''POST'', ''/contacts/{id}/consents'', 201, Needs ''contacts:edit''),
     (''GET'', ''/contacts/{id}/lists'', 200, Needs ''contacts:view''),
     (''GET'', ''/contacts/{id}/relational/{tableId}'', 200, Needs ''contacts:view''),
     (''POST'', ''/contacts/{id}/gdpr/export'', 202, Needs ''contacts:admin''),
     (''POST'', ''/contacts/{id}/gdpr/forget'', 202, Needs ''contacts:admin''),
     (''GET'', ''/gdpr-requests'', 200, Needs ''contacts:admin''),
     (''GET'', ''/lists'', 200, Needs ''contacts:view''),
     (''POST'', ''/lists'', 201, Needs ''contacts:edit''),
     (''GET'', ''/lists/{id}'', 200, Needs ''contacts:view''),
     (''PATCH'', ''/lists/{id}'', 200, Needs ''contacts:edit''),
     (''DELETE'', ''/lists/{id}'', 204, Needs ''contacts:edit''),
     (''GET'', ''/lists/{id}/members'', 200, Needs ''contacts:view''),
     (''POST'', ''/lists/{id}/members'', 200, Needs ''contacts:edit''),
     (''DELETE'', ''/lists/{id}/members'', 200, Needs ''contacts:edit''),
     (''GET'', ''/relational-tables'', 200, Needs ''contacts:view''),
     (''POST'', ''/relational-tables'', 201, Needs ''contacts:admin''),
     (''GET'', ''/relational-tables/{id}'', 200, Needs ''contacts:view''),
     (''PATCH'', ''/relational-tables/{id}'', 200, Needs ''contacts:admin''),
     (''DELETE'', ''/relational-tables/{id}'', 204, Needs ''contacts:admin'')]"

definition PUBLIC_CONTRACT :: "(string \<times> string \<times> nat \<times> access) list" where
  "PUBLIC_CONTRACT =
    [(''POST'', ''/oauth/token'', 200, Open),
     (''GET'', ''/jobs/{id}'', 200, Needs ''jobs:view''),
     (''GET'', ''/field'', 200, Needs ''contacts:view''),
     (''POST'', ''/field'', 200, Needs ''contacts:admin''),
     (''GET'', ''/field/{id}/choice'', 200, Needs ''contacts:view''),
     (''POST'', ''/contact'', 200, Needs ''contacts:edit''),
     (''PUT'', ''/contact'', 200, Needs ''contacts:edit''),
     (''POST'', ''/contact/delete'', 200, Needs ''contacts:edit''),
     (''POST'', ''/contact/getdata'', 200, Needs ''contacts:view''),
     (''POST'', ''/contact/consent'', 200, Needs ''contacts:edit''),
     (''GET'', ''/contactlist'', 200, Needs ''contacts:view''),
     (''POST'', ''/contactlist'', 200, Needs ''contacts:edit''),
     (''POST'', ''/contactlist/{id}/add'', 200, Needs ''contacts:edit''),
     (''POST'', ''/contactlist/{id}/delete'', 200, Needs ''contacts:edit''),
     (''GET'', ''/contactlist/{id}/count'', 200, Needs ''contacts:view''),
     (''POST'', ''/gdpr/export'', 202, Needs ''contacts:admin''),
     (''POST'', ''/gdpr/forget'', 202, Needs ''contacts:admin''),
     (''POST'', ''/import'', 202, Needs ''contacts:edit''),
     (''POST'', ''/export'', 202, Needs ''contacts:view''),
     (''PUT'', ''/relational/{tableId}/rows'', 200, Needs ''contacts:edit'')]"

definition IDENTITY_CONTRACT :: "(string \<times> string \<times> nat \<times> access) list" where
  "IDENTITY_CONTRACT =
    [(''POST'', ''/auth/login'', 200, Open),
     (''POST'', ''/auth/mfa/verify'', 200, Open),
     (''POST'', ''/auth/refresh'', 200, Open),
     (''POST'', ''/auth/logout'', 204, Signed),
     (''PATCH'', ''/me'', 200, Signed),
     (''POST'', ''/me/mfa/enroll'', 200, Signed),
     (''POST'', ''/me/mfa/confirm'', 204, Signed),
     (''DELETE'', ''/me/mfa'', 204, Signed),
     (''GET'', ''/tenants'', 200, Needs ''tenants:view''),
     (''POST'', ''/tenants'', 201, Needs ''tenants:admin''),
     (''GET'', ''/tenants/{id}'', 200, Needs ''tenants:view''),
     (''PATCH'', ''/tenants/{id}'', 200, Needs ''tenants:admin''),
     (''GET'', ''/users'', 200, Needs ''users:view''),
     (''POST'', ''/users/invitations'', 201, Needs ''users:admin''),
     (''POST'', ''/invitations/{token}/accept'', 200, Open),
     (''PATCH'', ''/users/{id}'', 200, Needs ''users:admin''),
     (''DELETE'', ''/users/{id}'', 204, Needs ''users:admin''),
     (''GET'', ''/roles'', 200, Needs ''roles:view''),
     (''POST'', ''/roles'', 201, Needs ''roles:admin''),
     (''PATCH'', ''/roles/{id}'', 200, Needs ''roles:admin''),
     (''DELETE'', ''/roles/{id}'', 204, Needs ''roles:admin''),
     (''GET'', ''/api-clients'', 200, Needs ''api_clients:view''),
     (''POST'', ''/api-clients'', 201, Needs ''api_clients:admin''),
     (''POST'', ''/api-clients/{id}/revoke'', 200, Needs ''api_clients:admin''),
     (''GET'', ''/audit-log'', 200, Needs ''audit_log:view'')]"

definition contract_segment :: "string \<Rightarrow> segment" where
  "contract_segment s = (case s of [] \<Rightarrow> Literal [] | c # n \<Rightarrow> if code c = 123 then Param (butlast n) else Literal s)"

definition contract_path :: "string \<Rightarrow> string \<Rightarrow> segment list" where
  "contract_path base p = segments base @ map contract_segment (tl (split_on CHR ''/'' p))"

definition contract_of :: "string \<Rightarrow> string \<times> string \<times> nat \<times> access \<Rightarrow> string \<times> segment list \<times> nat \<times> route" where
  "contract_of base oper = (case oper of (v, p, st, a) \<Rightarrow> (v, contract_path base p, st, route_of a))"

definition offer :: "endpoint \<Rightarrow> string \<times> segment list \<times> nat \<times> route" where
  "offer e = (ep_verb e, ep_path e, ep_status e, ep_route e)"

definition CONTACT_ROUTES :: "endpoint list" where
  "CONTACT_ROUTES = FieldsController @ AdminContactsQueryController @ AdminContactsWriteController @ AdminConsentsController @ AdminListsController @
     RelationalController @ AdminGdprController"

definition PUBLIC_ROUTES :: "endpoint list" where
  "PUBLIC_ROUTES = filter (\<lambda>e. take 2 (ep_path e) = [Literal ''api'', Literal ''v3'']) CORE_ROUTES"


text \<open>The identity contract names permissions that no role can hold: the routes ask for those of the module identity.\<close>

definition IDENTITY_ROUTES :: "endpoint list" where
  "IDENTITY_ROUTES = AuthController @ TenantsController @ UsersController @ InvitationsController @ RolesController @ ApiClientsController @ AuditLogController"

lemma identity_contract_names_other_permissions:
  "map (\<lambda>(v, p, st, a). a) (filter (\<lambda>oper. \<not> list_ex (\<lambda>e. offer e = contract_of ''admin/v1'' oper) IDENTITY_ROUTES) IDENTITY_CONTRACT) =
    [Signed, Needs ''users:view'', Needs ''users:admin'', Needs ''users:admin'', Needs ''users:admin'', Needs ''roles:view'', Needs ''roles:admin'',
     Needs ''roles:admin'', Needs ''roles:admin'', Needs ''api_clients:view'', Needs ''api_clients:admin'', Needs ''api_clients:admin'', Needs ''audit_log:view'']"
  by code_simp

definition demo_viewer :: principal where
  "demo_viewer = \<lparr>pr_sub = ''7'', pr_typ = TUser, pr_tenant = Some ''t1'', pr_perms = Some [''contacts:view''], pr_scopes = None, pr_iat = 0, pr_exp = 0\<rparr>"

lemma demo_route: "map_option offer (dispatch ''GET'' ''/admin/v1/lists'') =
    Some (''GET'', segments ''admin/v1/lists'', 200, route_of (Needs ''contacts:view''))"
  by code_simp

lemma requests_are_guarded_witness:
  "\<exists>e. authorize dispatch (\<lambda>_. Inr demo_viewer) ''GET'' ''/admin/v1/lists'' (Some ''Bearer t'') = Inr (e, Some demo_viewer) \<and>
     set (rt_required (ep_route e)) \<subseteq> set (grantsOf demo_viewer) \<and> ep_path e = segments ''admin/v1/lists''"
proof -
  obtain e where d: "dispatch ''GET'' ''/admin/v1/lists'' = Some e" and o: "ep_path e = segments ''admin/v1/lists''" "ep_route e = route_of (Needs ''contacts:view'')"
    using demo_route by (auto simp: offer_def)
  have "take 3 (segments ''admin/v1/lists'') \<noteq> [Literal ''admin'', Literal ''v1'', Literal ''tenants'']" by code_simp
  then have "\<not> ep_operator e" using operator_places dispatch_Some[OF d] o(1) by (auto simp: list_all_iff)
  moreover have "canActivate (\<lambda>_. Inr demo_viewer) (ep_route e) (Some ''Bearer t'') = Inr (Some demo_viewer)" unfolding o(2) by code_simp
  ultimately have a: "authorize dispatch (\<lambda>_. Inr demo_viewer) ''GET'' ''/admin/v1/lists'' (Some ''Bearer t'') = Inr (e, Some demo_viewer)"
    using d by (simp add: authorize_def)
  then show ?thesis using requests_are_guarded[OF dispatch_chooses a] o(1) by blast
qed

text \<open>What the console sends to add a contact (\<open>POST /contacts\<close>) has no handler, whoever sends it.\<close>

lemma no_route_adds_a_contact: "dispatch ''POST'' ''/admin/v1/contacts'' = None"
  by code_simp

lemma adding_a_contact_is_not_found:
  "authorize dispatch verify ''POST'' ''/admin/v1/contacts'' authorization = Inl (HttpExc 404 ''Cannot POST /admin/v1/contacts'')"
  using no_route_adds_a_contact by (simp add: authorize_def)

end
