(* ===== verification/Contact_Stream_Sql.thy ===== *)
theory Contact_Stream_Sql
  imports Contacts_Query Number_Text
begin

text \<open>
  The statements of the contact export (\<open>contact-stream.service.ts\<close>): the transaction around them,
  the text of the cursor, and the identifiers written into it. \<open>Contacts_Query\<close> says what the rows
  are; here is what goes over the connection, whose answers are an argument.
\<close>

section \<open>The transaction\<close>

datatype statement = BeginReadOnly | SetTenant string | Sql string "string list" | Commit | Rollback

text \<open>\<open>query\<close> sends a statement and gives the lines of its answer; \<open>release\<close> hands the connection back.\<close>

definition withTx :: "(statement \<Rightarrow> ('c, string list) comp) \<Rightarrow> ('c \<Rightarrow> 'c) \<Rightarrow> string \<Rightarrow> ('c, 'a) comp \<Rightarrow> ('c, 'a) comp" where
  "withTx query release t fn c =
    (case bindM (query BeginReadOnly) (\<lambda>_. bindM (query (SetTenant t)) (\<lambda>_. bindM fn (\<lambda>r. bindM (query Commit) (\<lambda>_. retM r)))) c of
       (Inr a, c') \<Rightarrow> (Inr a, release c')
     | (Inl e, c') \<Rightarrow> (Inl e, release (snd (query Rollback c'))))"

section \<open>The text of the cursor\<close>

definition sql_quoted :: "string \<Rightarrow> string" where
  "sql_quoted s = chr 39 # s @ [chr 39]"

definition field_pairs :: "int list \<Rightarrow> string" where
  "field_pairs ids = join_with '', '' (map (\<lambda>f. sql_quoted (show_int f) @ '', c.data -> '' @ sql_quoted (show_int f)) ids)"

definition select_part :: "int list \<Rightarrow> string" where
  "select_part ids = ''SELECT jsonb_build_object('' @ sql_quoted ''id'' @ '', c.id, '' @ sql_quoted ''fields'' @
     '', jsonb_strip_nulls(jsonb_build_object('' @ field_pairs ids @ '')))::text AS line'' @ [chr 10] @ ''      FROM contacts.contacts c ''"

definition where_part :: "string \<Rightarrow> string" where
  "where_part t = '' WHERE c.tenant_id = '' @ t @ ''::uuid AND c.deleted_at IS NULL ORDER BY c.id''"

definition join_part :: "string \<Rightarrow> string" where
  "join_part l = ''JOIN contacts.list_members m ON m.contact_id = c.id AND m.list_id = '' @ l @ ''::uuid''"

definition stream_sql :: "int list \<Rightarrow> string option \<Rightarrow> string" where
  "stream_sql ids listId = select_part ids @ (case listId of Some (x # l) \<Rightarrow> join_part ''$2'' | _ \<Rightarrow> []) @ where_part ''$1''"

definition stream_params :: "string \<Rightarrow> string option \<Rightarrow> string list" where
  "stream_params t listId = t # (case listId of Some (x # l) \<Rightarrow> [x # l] | _ \<Rightarrow> [])"

text \<open>\<open>inline\<close>: a dollar and a digit become the quoted parameter, which has to be a UUID.\<close>

definition param_at :: "string list \<Rightarrow> char \<Rightarrow> exn + string" where
  "param_at ps d = (let n = digit_val d; v = (if 1 \<le> n \<and> n \<le> length ps then ps ! (n - 1) else []) in
     if is_uuid v then Inr (sql_quoted v) else Inl (PlainError ''not a UUID''))"

fun inline_sql :: "string list \<Rightarrow> string \<Rightarrow> exn + string" where
  "inline_sql ps [] = Inr []"
| "inline_sql ps [c] = Inr [c]"
| "inline_sql ps (c # d # s) = (if code c = 36 \<and> digit_char d
     then (case param_at ps d of Inl e \<Rightarrow> Inl e | Inr v \<Rightarrow> map_sum id ((@) v) (inline_sql ps s))
     else map_sum id ((#) c) (inline_sql ps (d # s)))"

text \<open>
  The loop over the fetches, with fuel, None when it runs out: \<open>closed n\<close> tells whether the reader is
  gone at the n-th. More fuel than rows is enough (\<open>fetch_refines\<close>).
\<close>

fun fetchAll :: "nat \<Rightarrow> (statement \<Rightarrow> ('c, string list) comp) \<Rightarrow> (nat \<Rightarrow> bool) \<Rightarrow> nat \<Rightarrow> string list list \<Rightarrow> ('c, string list list option) comp" where
  "fetchAll 0 query closed n sent = retM None"
| "fetchAll (Suc k) query closed n sent = bindM (query (Sql (''FETCH '' @ show_nat BATCH @ '' FROM contacts_export'') [])) (\<lambda>rows.
     if rows = [] \<or> closed n then retM (Some sent) else fetchAll k query closed (Suc n) (sent @ [rows]))"

definition streamSql :: "nat \<Rightarrow> (statement \<Rightarrow> ('c, string list) comp) \<Rightarrow> ('c \<Rightarrow> 'c) \<Rightarrow> (nat \<Rightarrow> bool) \<Rightarrow> string \<Rightarrow> int list \<Rightarrow> string option \<Rightarrow> ('c, string list list option) comp" where
  "streamSql k query release closed t ids listId = withTx query release t
     (bindM (liftE (inline_sql (stream_params t listId) (stream_sql ids listId))) (\<lambda>sql.
      bindM (query (Sql (''DECLARE contacts_export NO SCROLL CURSOR FOR '' @ sql) [])) (\<lambda>_. fetchAll k query closed 0 [])))"

definition listExistsSql :: "(statement \<Rightarrow> ('c, string list) comp) \<Rightarrow> ('c \<Rightarrow> 'c) \<Rightarrow> string \<Rightarrow> string \<Rightarrow> ('c, bool) comp" where
  "listExistsSql query release t l = withTx query release t
     (bindM (query (Sql ''SELECT 1 FROM contacts.lists WHERE id = $1::uuid'' [l])) (\<lambda>rows. retM (length rows = 1)))"

section \<open>Facts\<close>

text \<open>Text without a dollar stays as it is, and an identifier is written in quotes.\<close>

definition no_dollar :: "string \<Rightarrow> bool" where
  "no_dollar s \<longleftrightarrow> list_all (\<lambda>c. code c \<noteq> 36) s"

lemma no_dollar_simps: "no_dollar []" "no_dollar (c # s) \<longleftrightarrow> code c \<noteq> 36 \<and> no_dollar s" "no_dollar (a @ b) \<longleftrightarrow> no_dollar a \<and> no_dollar b"
  by (simp_all add: no_dollar_def)

lemma inline_char: "code c \<noteq> 36 \<Longrightarrow> inline_sql ps (c # s) = map_sum id ((#) c) (inline_sql ps s)"
  by (cases s) simp_all

lemma inline_text: "no_dollar a \<Longrightarrow> inline_sql ps (a @ s) = map_sum id ((@) a) (inline_sql ps s)"
proof (induction a)
  case Nil
  then show ?case by (cases "inline_sql ps s") auto
next
  case (Cons c a)
  then show ?case by (cases "inline_sql ps s") (auto simp: no_dollar_simps inline_char)
qed

lemma inline_all_text: "no_dollar a \<Longrightarrow> inline_sql ps a = Inr a"
  using inline_text[of a ps "[]"] by simp

lemma digit_code: "digit_char c \<Longrightarrow> code c \<noteq> 36"
  by (auto simp: digit_char_def)

lemma inline_param: "code c = 36 \<Longrightarrow> digit_char d \<Longrightarrow> param_at ps d = Inr v \<Longrightarrow> inline_sql ps (c # d # s) = map_sum id ((@) v) (inline_sql ps s)"
  by simp

lemma digits_no_dollar: "no_dollar (show_nat n)"
  using show_nat_read[of n] digit_code by (auto simp: no_dollar_def list_all_iff)

lemma show_int_no_dollar: "no_dollar (show_int i)"
  using digits_no_dollar by (auto simp: show_int_def no_dollar_simps code_def)

lemma join_no_dollar: "no_dollar d \<Longrightarrow> list_all no_dollar ws \<Longrightarrow> no_dollar (join_with d ws)"
  by (induction d ws rule: join_with.induct) (auto simp: no_dollar_simps)

lemma select_no_dollar: "no_dollar (select_part ids)"
proof -
  have "no_dollar (field_pairs ids)" unfolding field_pairs_def
    by (intro join_no_dollar) (simp_all add: list_all_iff no_dollar_simps sql_quoted_def show_int_no_dollar code_def)
  then show ?thesis by (simp add: select_part_def no_dollar_simps sql_quoted_def code_def)
qed

lemma inline_place:
  assumes "param_at ps d = Inr v" and "code c = 36" and "digit_char d" and "no_dollar a"
  shows "inline_sql ps (a @ [c, d] @ s) = map_sum id (\<lambda>r. a @ v @ r) (inline_sql ps s)"
  using assms inline_text[OF assms(4), of ps "[c, d] @ s"] by (cases "inline_sql ps s") auto

lemma first_param: "is_uuid t \<Longrightarrow> param_at (t # ps) CHR ''1'' = Inr (sql_quoted t)"
  by (simp add: param_at_def digit_val_def code_def)

lemma second_param: "is_uuid l \<Longrightarrow> param_at (t # l # ps) CHR ''2'' = Inr (sql_quoted l)"
  by (simp add: param_at_def digit_val_def code_def)

text \<open>The cursor's text carries the tenant, and the list if there is one, as quoted identifiers, and nothing else of them.\<close>

lemma dollar: "code CHR ''$'' = 36" "digit_char CHR ''1''" "digit_char CHR ''2''"
  by (simp_all add: code_def digit_char_def)

lemma where_inlined: "is_uuid t \<Longrightarrow> inline_sql (t # ps) (where_part ''$1'') = Inr (where_part (sql_quoted t))"
  unfolding where_part_def
  by (subst inline_place[OF first_param dollar(1,2)], assumption, simp add: no_dollar_simps code_def, subst inline_all_text, simp add: no_dollar_simps code_def, simp)

lemma join_inlined: "is_uuid l \<Longrightarrow> inline_sql (t # l # ps) (join_part ''$2'' @ s) = map_sum id ((@) (join_part (sql_quoted l))) (inline_sql (t # l # ps) s)"
  unfolding join_part_def append_assoc
  by (subst inline_place[OF second_param dollar(1,3)], assumption, simp add: no_dollar_simps code_def, subst inline_text, simp add: no_dollar_simps code_def,
      cases "inline_sql (t # l # ps) s", simp_all)

lemma stream_inlined:
  assumes "is_uuid t" and "\<forall>l. listId = Some l \<longrightarrow> l = [] \<or> is_uuid l"
  shows "inline_sql (stream_params t listId) (stream_sql ids listId) =
    Inr (select_part ids @ (case listId of Some (x # l) \<Rightarrow> join_part (sql_quoted (x # l)) | _ \<Rightarrow> []) @ where_part (sql_quoted t))"
proof (cases "listId = None \<or> listId = Some []")
  case True
  then show ?thesis using assms(1) by (auto simp: stream_params_def stream_sql_def inline_text[OF select_no_dollar] where_inlined)
next
  case False
  then obtain x l where l: "listId = Some (x # l)" by (cases listId; cases "the listId") auto
  then have "is_uuid (x # l)" using assms(2) by auto
  then show ?thesis using assms(1) by (simp add: l stream_params_def stream_sql_def inline_text[OF select_no_dollar] join_inlined where_inlined)
qed

text \<open>Anything else than identifiers ends the export before the cursor is declared.\<close>

lemma forged_tenant_is_refused: "\<not> is_uuid t \<Longrightarrow> \<exists>e. inline_sql (stream_params t None) (stream_sql ids None) = Inl e"
proof -
  assume t: "\<not> is_uuid t"
  have "param_at [t] CHR ''1'' = Inl (PlainError ''not a UUID'')" using t by (simp add: param_at_def digit_val_def code_def)
  then have "inline_sql [t] (where_part ''$1'') = Inl (PlainError ''not a UUID'')"
    unfolding where_part_def by (subst inline_text, simp add: no_dollar_simps code_def, simp add: dollar)
  then show ?thesis by (simp add: stream_params_def stream_sql_def inline_text[OF select_no_dollar])
qed

text \<open>On a connection that keeps what it is sent, the work stands between the tenant and the end of its transaction.\<close>

definition recorded :: "(statement \<Rightarrow> exn + string list) \<Rightarrow> statement \<Rightarrow> (statement list, string list) comp" where
  "recorded ans st c = (ans st, c @ [st])"

lemma withTx_frames:
  assumes "\<And>c. \<exists>ss. snd (fn c) = c @ ss" and "ans BeginReadOnly = Inr a" and "ans (SetTenant t) = Inr b"
  shows "\<exists>ss end. snd (withTx (recorded ans) id t fn []) = [BeginReadOnly, SetTenant t] @ ss @ [end] \<and> end \<in> {Commit, Rollback}"
proof -
  obtain r c' where f: "fn [BeginReadOnly, SetTenant t] = (r, c')" by force
  obtain ss where c': "c' = [BeginReadOnly, SetTenant t] @ ss" using assms(1)[of "[BeginReadOnly, SetTenant t]"] f by auto
  show ?thesis using assms(2,3) f c' by (cases r; cases "ans Commit") (auto simp: withTx_def bindM_def recorded_def retM_def)
qed

text \<open>Over a cursor that gives out rows in order, the loop sends the batches \<open>Contacts_Query\<close> sends.\<close>

definition cursor_rows :: "statement \<Rightarrow> (string list, string list) comp" where
  "cursor_rows st rows = (Inr (take BATCH rows), drop BATCH rows)"

lemma fetch_refines:
  "length rows < k \<Longrightarrow> fst (fetchAll k cursor_rows closed n sent rows) = Inr (Some (sent @ fetchLoop closed n rows))"
proof (induction k arbitrary: n sent rows)
  case 0
  then show ?case by simp
next
  case (Suc k)
  have row: "cursor_rows st rows = (Inr (take BATCH rows), drop BATCH rows)" for st by (simp add: cursor_rows_def)
  show ?case
  proof (cases "take BATCH rows = [] \<or> closed n")
    case True
    then show ?thesis by (subst fetchLoop.simps) (simp add: bindM_def row retM_def)
  next
    case False
    then have "length (drop BATCH rows) < k" using Suc.prems by (cases rows) (auto simp: BATCH_def)
    from Suc.IH[OF this, of "Suc n" "sent @ [take BATCH rows]"] False show ?thesis
      by (subst fetchLoop.simps) (simp add: bindM_def row)
  qed
qed

end
