(* ===== verification/Seed_Scripts.thy ===== *)
theory Seed_Scripts
  imports Contacts_Api Relational Tenants Api_Clients Json_Text Web_Url
begin

text \<open>
  The seed scripts (\<open>scripts/seed/00-platform/seed.ts\<close>, \<open>scripts/seed/10-contacts/seed.ts\<close>):
  programs that fill an installation over HTTP. What they touch is the record of a machine: the
  services they call (any type), the file \<open>.env.local\<close> and what they printed. The paging loop may
  not end, so a run is an option: None when it does not return.
\<close>

section \<open>Runs\<close>

record 's machine =
  mc_remote :: 's
  mc_env_local :: "string option"
  mc_log :: "string list"

type_synonym ('s, 'a) run = "'s machine \<Rightarrow> ((exn + 'a) \<times> 's machine) option"

definition doneR :: "'a \<Rightarrow> ('s, 'a) run" where
  "doneR a m = Some (Inr a, m)"

definition failR :: "exn \<Rightarrow> ('s, 'a) run" where
  "failR e m = Some (Inl e, m)"

definition ofR :: "exn + 'a \<Rightarrow> ('s, 'a) run" where
  "ofR r m = Some (r, m)"

definition bindR :: "('s, 'a) run \<Rightarrow> ('a \<Rightarrow> ('s, 'b) run) \<Rightarrow> ('s, 'b) run" where
  "bindR f g m = (case f m of None \<Rightarrow> None | Some (Inl e, m') \<Rightarrow> Some (Inl e, m') | Some (Inr a, m') \<Rightarrow> g a m')"

definition logR :: "string \<Rightarrow> ('s, unit) run" where
  "logR l m = Some (Inr (), m\<lparr>mc_log := mc_log m @ [l]\<rparr>)"

definition remoteR :: "('s \<Rightarrow> (exn + 'a) \<times> 's) \<Rightarrow> ('s, 'a) run" where
  "remoteR f m = (case f (mc_remote m) of (r, s) \<Rightarrow> Some (r, m\<lparr>mc_remote := s\<rparr>))"

fun eachR :: "('x \<Rightarrow> ('s, unit) run) \<Rightarrow> 'x list \<Rightarrow> ('s, unit) run" where
  "eachR f [] = doneR ()"
| "eachR f (x # xs) = bindR (f x) (\<lambda>_. eachR f xs)"

section \<open>Values of an answer\<close>

text \<open>Answers are cast, not checked: a member of undefined or null throws, a missing one is undefined (None).\<close>

definition typeError :: exn where
  "typeError = PlainError ''TypeError''"

definition propOf :: "json option \<Rightarrow> string \<Rightarrow> exn + json option" where
  "propOf v k = (case v of None \<Rightarrow> Inl typeError | Some JNull \<Rightarrow> Inl typeError | Some x \<Rightarrow> Inr (obj_get x k))"

definition shown :: "json option \<Rightarrow> string" where
  "shown v = (case v of None \<Rightarrow> ''undefined'' | Some x \<Rightarrow> js_string x)"

definition truthy :: "json option \<Rightarrow> bool" where
  "truthy v = (case v of None \<Rightarrow> False | Some JNull \<Rightarrow> False | Some (JBool b) \<Rightarrow> b | Some (JNum n) \<Rightarrow> mant n \<noteq> 0 | Some (JStr s) \<Rightarrow> s \<noteq> [] | _ \<Rightarrow> True)"

text \<open>What \<open>...v\<close>, \<open>v.find\<close> and \<open>v.map\<close> go through.\<close>

definition spread :: "json option \<Rightarrow> exn + json list" where
  "spread v = (case v of Some (JArr xs) \<Rightarrow> Inr xs | Some (JStr s) \<Rightarrow> Inr (map (\<lambda>c. JStr [c]) s) | _ \<Rightarrow> Inl typeError)"

definition elements :: "json option \<Rightarrow> exn + json list" where
  "elements v = (case v of Some (JArr xs) \<Rightarrow> Inr xs | _ \<Rightarrow> Inl typeError)"

text \<open>\<open>xs.find\<close>: the test may throw, and is not applied after the first hit.\<close>

fun find_first :: "(json \<Rightarrow> exn + bool) \<Rightarrow> json list \<Rightarrow> exn + json option" where
  "find_first p [] = Inr None"
| "find_first p (x # xs) = (case p x of Inl e \<Rightarrow> Inl e | Inr b \<Rightarrow> if b then Inr (Some x) else find_first p xs)"

definition has_member :: "string \<Rightarrow> string \<Rightarrow> json \<Rightarrow> exn + bool" where
  "has_member k s x = map_sum id (\<lambda>v. v = Some (JStr s)) (propOf (Some x) k)"

text \<open>\<open>undefined\<close> members leave an object, and become null in an array.\<close>

definition sent_members :: "(string \<times> json option) list \<Rightarrow> json" where
  "sent_members kvs = JObj (concat (map (\<lambda>(k, v). case v of None \<Rightarrow> [] | Some x \<Rightarrow> [(k, x)]) kvs))"

definition sent_item :: "json option \<Rightarrow> json" where
  "sent_item v = (case v of None \<Rightarrow> JNull | Some x \<Rightarrow> x)"

section \<open>Calls\<close>

record http_call =
  hc_method :: string
  hc_url :: string
  hc_token :: "string option"
  hc_body :: "json option"

text \<open>Status and text of the answer, or the error of a call that does not reach the service.\<close>

type_synonym 's fetcher = "http_call \<Rightarrow> 's \<Rightarrow> (exn + nat \<times> string) \<times> 's"

definition read_answer :: "string \<Rightarrow> nat \<times> string \<Rightarrow> exn + json option" where
  "read_answer what r = (case r of (status, body) \<Rightarrow>
      if \<not> (200 \<le> status \<and> status < 300) then Inl (PlainError (what @ '' -> '' @ show_nat status @ '' '' @ body))
      else if body = [] then Inr None
      else case parse_json body of None \<Rightarrow> Inl (PlainError ''SyntaxError'') | Some v \<Rightarrow> Inr (Some v))"

definition seedApi :: "'s fetcher \<Rightarrow> string \<Rightarrow> string \<Rightarrow> string option \<Rightarrow> json option \<Rightarrow> ('s, json option) run" where
  "seedApi fetch verb url token body =
    bindR (remoteR (fetch \<lparr>hc_method = verb, hc_url = url, hc_token = (if token = Some [] then None else token), hc_body = body\<rparr>))
      (\<lambda>r. ofR (read_answer (verb @ '' '' @ url) r))"

type_synonym 's admin_call = "string \<Rightarrow> string \<Rightarrow> string option \<Rightarrow> json option \<Rightarrow> ('s, json option) run"

definition seedAdmin :: "'s fetcher \<Rightarrow> string \<Rightarrow> 's admin_call" where
  "seedAdmin fetch core verb p token body = seedApi fetch verb (core @ ''/admin/v1'' @ p) token body"

text \<open>
  The \<open>do ... while (cursor)\<close> of \<open>listAll\<close>: \<open>fetchPage\<close> is one turn, and \<open>listFrom\<close> goes on from a cursor with what it has.
\<close>

definition page_path :: "string \<Rightarrow> json option \<Rightarrow> string" where
  "page_path p cursor = p @ ''?limit=200'' @ (if truthy cursor then ''&cursor='' @ encodeURIComponent (shown cursor) else [])"

definition read_page :: "json option \<Rightarrow> exn + json list \<times> json option" where
  "read_page page = (case propOf page ''items'' of Inl e \<Rightarrow> Inl e
    | Inr v \<Rightarrow> (case spread v of Inl e \<Rightarrow> Inl e
      | Inr xs \<Rightarrow> map_sum id (Pair xs) (propOf page ''next_cursor'')))"

definition fetchPage :: "'s admin_call \<Rightarrow> string \<Rightarrow> string option \<Rightarrow> json option \<Rightarrow> ('s, json list \<times> json option) run" where
  "fetchPage admin p token cursor = bindR (admin ''GET'' (page_path p cursor) token None) (\<lambda>page. ofR (read_page page))"

partial_function (option) listFrom :: "'s admin_call \<Rightarrow> string \<Rightarrow> string option \<Rightarrow> json list \<Rightarrow> json option \<Rightarrow> 's machine \<Rightarrow> ((exn + json list) \<times> 's machine) option" where
  "listFrom admin p token items cursor m = (case fetchPage admin p token cursor m of None \<Rightarrow> None
     | Some (r, m') \<Rightarrow> (case r of Inl e \<Rightarrow> Some (Inl e, m')
        | Inr (xs, c) \<Rightarrow> if truthy c then listFrom admin p token (items @ xs) c m' else Some (Inr (items @ xs), m')))"

definition listAll :: "'s admin_call \<Rightarrow> string \<Rightarrow> string option \<Rightarrow> ('s, json list) run" where
  "listAll admin p token = listFrom admin p token [] None"

section \<open>The environment and \<open>.env.local\<close>\<close>

type_synonym env_vars = "string \<Rightarrow> string option"

definition env_var :: "env_vars \<Rightarrow> string \<Rightarrow> exn + string" where
  "env_var env name = (case env name of Some (c # s) \<Rightarrow> Inr (c # s)
     | _ \<Rightarrow> Inl (PlainError (''missing env var '' @ name @ '' (see deploy/compose/.env.example)'')))"

definition env_or :: "env_vars \<Rightarrow> string \<Rightarrow> string \<Rightarrow> string" where
  "env_or env name d = (case env name of None \<Rightarrow> d | Some v \<Rightarrow> v)"

definition CORE :: "env_vars \<Rightarrow> string" where
  "CORE env = env_or env ''OE_CORE_URL'' ''http://localhost:3001''"

definition MAILPIT :: "env_vars \<Rightarrow> string" where
  "MAILPIT env = env_or env ''OE_MAILPIT_URL'' ''http://localhost:8025''"

definition TENANT_NAME :: string where
  "TENANT_NAME = ''Tienda Demo''"

definition CLIENT_NAME :: string where
  "CLIENT_NAME = ''Demo API client''"

record demo_user =
  du_email :: string
  du_role :: string
  du_password :: string

definition DEMO_USERS :: "env_vars \<Rightarrow> exn + demo_user list" where
  "DEMO_USERS env = (case (env_var env ''OE_DEMO_MARKETER_PASSWORD'', env_var env ''OE_DEMO_VIEWER_PASSWORD'') of
      (Inl e, _) \<Rightarrow> Inl e
    | (_, Inl e) \<Rightarrow> Inl e
    | (Inr a, Inr b) \<Rightarrow> Inr [\<lparr>du_email = ''marketer@demo.local'', du_role = ''Marketer'', du_password = a\<rparr>,
        \<lparr>du_email = ''viewer@demo.local'', du_role = ''Viewer'', du_password = b\<rparr>])"

text \<open>\<open>^KEY=(.+)$\<close> with the flag \<open>m\<close>: the first line of the key that is not empty; \<open>.\<close> stops at line feeds and carriage returns.\<close>

fun text_lines :: "(char \<Rightarrow> bool) \<Rightarrow> string \<Rightarrow> string list" where
  "text_lines brk [] = [[]]"
| "text_lines brk (c # s) = (if brk c then [] # text_lines brk s else (c # hd (text_lines brk s)) # tl (text_lines brk s))"

definition line_break :: "char \<Rightarrow> bool" where
  "line_break c \<longleftrightarrow> c = chr 10 \<or> c = chr 13"

definition key_line :: "string \<Rightarrow> string \<Rightarrow> bool" where
  "key_line k l \<longleftrightarrow> starts_with l (k @ ''='')"

definition env_line :: "string \<Rightarrow> string \<Rightarrow> string option" where
  "env_line k s = map_option (drop (Suc (length k))) (find (\<lambda>l. key_line k l \<and> Suc (length k) < length l) (text_lines line_break s))"

text \<open>\<open>writeEnvLocal\<close>: the lines of other keys stay, the new ones follow.\<close>

definition file_lines :: "string option \<Rightarrow> string list" where
  "file_lines f = (case f of None \<Rightarrow> [] | Some s \<Rightarrow> filter (\<lambda>l. l \<noteq> []) (text_lines (\<lambda>c. c = chr 10) s))"

definition env_local_text :: "(string \<times> string) list \<Rightarrow> string option \<Rightarrow> string" where
  "env_local_text kvs f = join_with [chr 10] (filter (\<lambda>l. \<not> list_ex (\<lambda>kv. key_line (fst kv) l) kvs) (file_lines f) @
      map (\<lambda>(k, v). k @ ''='' @ v) kvs) @ [chr 10]"

definition writeEnvLocal :: "(string \<times> string) list \<Rightarrow> ('s, unit) run" where
  "writeEnvLocal kvs m = Some (Inr (), m\<lparr>mc_env_local := Some (env_local_text kvs (mc_env_local m))\<rparr>)"

section \<open>The platform seed\<close>

definition token_of :: "json option \<Rightarrow> string option" where
  "token_of v = (if truthy v then Some (shown v) else None)"

definition seedLogin :: "'s admin_call \<Rightarrow> string \<Rightarrow> string \<Rightarrow> ('s, string option) run" where
  "seedLogin admin email password =
    bindR (admin ''POST'' ''/auth/login'' None (Some (JObj [(''email'', JStr email), (''password'', JStr password)])))
      (\<lambda>r. ofR (map_sum id token_of (propOf r ''access_token'')))"

text \<open>The command of core that creates the operator: its arguments and the database it is given.\<close>

type_synonym 's cli = "string list \<Rightarrow> string \<Rightarrow> 's \<Rightarrow> (exn + unit) \<times> 's"

definition database_url :: "env_vars \<Rightarrow> exn + string" where
  "database_url env = (case env ''DATABASE_URL'' of Some u \<Rightarrow> Inr u
     | None \<Rightarrow> (case env_var env ''OE_PG_CORE_PASSWORD'' of Inl e \<Rightarrow> Inl e
        | Inr w \<Rightarrow> map_sum id (\<lambda>d. ''postgres://core:'' @ w @ ''@localhost:'' @ env_or env ''OE_PG_PORT'' ''5432'' @ ''/'' @ d @ ''?schema=identity'')
            (env_var env ''OE_PG_DB'')))"

definition seedOperator :: "env_vars \<Rightarrow> 's cli \<Rightarrow> ('s, unit) run" where
  "seedOperator env cli = bindR (ofR (database_url env)) (\<lambda>url.
     bindR (ofR (env_var env ''OE_OPERATOR_EMAIL'')) (\<lambda>e. bindR (ofR (env_var env ''OE_OPERATOR_PASSWORD'')) (\<lambda>w.
       remoteR (cli [''--filter'', ''@oe/core'', ''cli'', ''create-operator'', ''--email'', e, ''--password'', w] url))))"

text \<open>\<open>/\/invite\/([^\s"<]+)/\<close>: the first place where it fits.\<close>

definition invite_char :: "char \<Rightarrow> bool" where
  "invite_char c \<longleftrightarrow> \<not> ws_char c \<and> code c \<noteq> 34 \<and> c \<noteq> CHR ''<''"

fun invite_link :: "string \<Rightarrow> string option" where
  "invite_link [] = None"
| "invite_link (c # s) = (let t = takeWhile invite_char (drop 8 (c # s)) in
     if starts_with (c # s) ''/invite/'' \<and> t \<noteq> [] then Some t else invite_link s)"

definition first_of :: "json option \<Rightarrow> exn + json option" where
  "first_of v = (case v of None \<Rightarrow> Inl typeError | Some JNull \<Rightarrow> Inl typeError
     | Some (JArr (x # xs)) \<Rightarrow> Inr (Some x) | _ \<Rightarrow> Inr None)"

definition message_id :: "json option \<Rightarrow> exn + json option" where
  "message_id found = (case propOf found ''messages'' of Inl e \<Rightarrow> Inl e
    | Inr v \<Rightarrow> map_sum id (\<lambda>x. Option.bind x (\<lambda>j. obj_get j ''ID'')) (first_of v))"

definition inviteToken :: "'s fetcher \<Rightarrow> env_vars \<Rightarrow> string \<Rightarrow> ('s, string) run" where
  "inviteToken fetch env email =
    bindR (seedApi fetch ''GET'' (MAILPIT env @ ''/api/v1/search?query='' @ encodeURIComponent (''to:'' @ email)) None None) (\<lambda>found.
    bindR (ofR (message_id found)) (\<lambda>i.
    if \<not> truthy i then failR (PlainError (''no invitation mail for '' @ email @ '' in Mailpit''))
    else bindR (seedApi fetch ''GET'' (MAILPIT env @ ''/api/v1/message/'' @ shown i) None None) (\<lambda>msg.
      bindR (ofR (propOf msg ''Text'')) (\<lambda>t. case invite_link (shown t) of
          None \<Rightarrow> failR (PlainError (''invitation mail for '' @ email @ '' has no link''))
        | Some k \<Rightarrow> doneR k))))"

definition tenant_body :: "string \<Rightarrow> json" where
  "tenant_body password = JObj [(''name'', JStr TENANT_NAME), (''timezone'', JStr ''America/Sao_Paulo''), (''default_locale'', JStr ''es''),
     (''admin'', JObj [(''email'', JStr ''admin@demo.local''), (''password'', JStr password)])]"

definition ensureTenant :: "'s admin_call \<Rightarrow> env_vars \<Rightarrow> string option \<Rightarrow> ('s, unit) run" where
  "ensureTenant admin env operator = bindR (listAll admin ''/tenants'' operator) (\<lambda>tenants.
     bindR (ofR (find_first (has_member ''name'' TENANT_NAME) tenants)) (\<lambda>t.
     if t \<noteq> None then logR (''tenant \"'' @ TENANT_NAME @ ''\" already exists'')
     else bindR (ofR (env_var env ''OE_DEMO_ADMIN_PASSWORD'')) (\<lambda>w.
       bindR (admin ''POST'' ''/tenants'' operator (Some (tenant_body w))) (\<lambda>_.
       logR (''created tenant \"'' @ TENANT_NAME @ ''\" with admin@demo.local'')))))"

text \<open>\<open>x.email.toLowerCase() === u.email\<close>\<close>

definition same_email :: "string \<Rightarrow> json \<Rightarrow> exn + bool" where
  "same_email e x = (case propOf (Some x) ''email'' of Inl err \<Rightarrow> Inl err
     | Inr (Some (JStr s)) \<Rightarrow> Inr (lower s = e) | Inr _ \<Rightarrow> Inl typeError)"

definition inviteUser :: "'s admin_call \<Rightarrow> string option \<Rightarrow> json list \<Rightarrow> demo_user \<Rightarrow> ('s, unit) run" where
  "inviteUser admin token roles u = bindR (ofR (find_first (has_member ''name'' (du_role u)) roles)) (\<lambda>role. case role of
      None \<Rightarrow> failR (PlainError (''role '' @ du_role u @ '' not found''))
    | Some r \<Rightarrow> bindR (admin ''POST'' ''/users/invitations'' token
          (Some (JObj [(''email'', JStr (du_email u)), (''role_ids'', JArr [sent_item (obj_get r ''id'')]), (''locale'', JStr ''es'')])))
        (\<lambda>_. doneR ()))"

definition ensureUser :: "'s admin_call \<Rightarrow> 's fetcher \<Rightarrow> env_vars \<Rightarrow> string option \<Rightarrow> json list \<Rightarrow> json list \<Rightarrow> demo_user \<Rightarrow> ('s, unit) run" where
  "ensureUser admin fetch env token roles users u =
    bindR (ofR (find_first (same_email (du_email u)) users)) (\<lambda>existing.
    if existing \<noteq> None \<and> obj_get (the existing) ''status'' = Some (JStr ''active'') then doneR ()
    else bindR (if existing = None then inviteUser admin token roles u else doneR ()) (\<lambda>_.
      bindR (inviteToken fetch env (du_email u)) (\<lambda>k.
      bindR (admin ''POST'' (''/invitations/'' @ k @ ''/accept'') None (Some (JObj [(''name'', JStr (du_role u)), (''password'', JStr (du_password u))]))) (\<lambda>_.
      logR (''created '' @ du_email u)))))"

text \<open>The secret of a client is returned once: the client stays while \<open>.env.local\<close> holds a secret.\<close>

definition demo_client :: "json \<Rightarrow> exn + bool" where
  "demo_client c = map_sum id (\<lambda>b. b \<and> obj_get c ''status'' = Some (JStr ''active'')) (has_member ''name'' CLIENT_NAME c)"

definition have_secret :: "'s machine \<Rightarrow> bool" where
  "have_secret m = (case mc_env_local m of None \<Rightarrow> False | Some s \<Rightarrow> env_line ''OE_DEMO_CLIENT_SECRET'' s \<noteq> None)"

definition scope_text :: "json \<Rightarrow> exn + json" where
  "scope_text p = (case (propOf (Some p) ''module'', propOf (Some p) ''action'') of
      (Inr m, Inr a) \<Rightarrow> Inr (JStr (shown m @ '':'' @ shown a)) | _ \<Rightarrow> Inl typeError)"

fun all_scopes :: "json list \<Rightarrow> exn + json list" where
  "all_scopes [] = Inr []"
| "all_scopes (p # ps) = (case scope_text p of Inl e \<Rightarrow> Inl e | Inr s \<Rightarrow> map_sum id (Cons s) (all_scopes ps))"

definition admin_scopes :: "json list \<Rightarrow> exn + json list" where
  "admin_scopes roles = (case find_first (has_member ''name'' ''Admin'') roles of Inl e \<Rightarrow> Inl e
    | Inr r \<Rightarrow> (case propOf r ''permissions'' of Inl e \<Rightarrow> Inl e
      | Inr ps \<Rightarrow> (case elements ps of Inl e \<Rightarrow> Inl e | Inr xs \<Rightarrow> all_scopes xs)))"

definition client_body :: "json list \<Rightarrow> json" where
  "client_body scopes = JObj [(''name'', JStr CLIENT_NAME), (''scopes'', JArr scopes)]"

definition createDemoClient :: "'s admin_call \<Rightarrow> string option \<Rightarrow> json list \<Rightarrow> ('s, unit) run" where
  "createDemoClient admin token roles = bindR (ofR (admin_scopes roles)) (\<lambda>scopes.
     bindR (admin ''POST'' ''/api-clients'' token (Some (client_body scopes))) (\<lambda>created.
     bindR (ofR (propOf created ''client_id'')) (\<lambda>i. bindR (ofR (propOf created ''client_secret'')) (\<lambda>w.
     bindR (writeEnvLocal [(''OE_DEMO_CLIENT_ID'', shown i), (''OE_DEMO_CLIENT_SECRET'', shown w)]) (\<lambda>_.
     logR ''created demo API client; credentials written to .env.local'')))))"

definition ensureClient :: "'s admin_call \<Rightarrow> string option \<Rightarrow> json list \<Rightarrow> ('s, unit) run" where
  "ensureClient admin token roles = bindR (listAll admin ''/api-clients'' token) (\<lambda>clients.
     bindR (ofR (find_first demo_client clients)) (\<lambda>active.
     bindR (\<lambda>m. doneR (have_secret m) m) (\<lambda>have.
     if active \<noteq> None \<and> have then logR ''demo API client already exists''
     else bindR (case active of None \<Rightarrow> doneR None
           | Some a \<Rightarrow> admin ''POST'' (''/api-clients/'' @ shown (obj_get a ''id'') @ ''/revoke'') token None) (\<lambda>_.
       createDemoClient admin token roles))))"

definition platformSeed :: "'s fetcher \<Rightarrow> 's cli \<Rightarrow> env_vars \<Rightarrow> ('s, unit) run" where
  "platformSeed fetch cli env = (let admin = seedAdmin fetch (CORE env) in
     bindR (ofR (DEMO_USERS env)) (\<lambda>demo.
     bindR (seedOperator env cli) (\<lambda>_.
     bindR (ofR (env_var env ''OE_OPERATOR_EMAIL'')) (\<lambda>oe. bindR (ofR (env_var env ''OE_OPERATOR_PASSWORD'')) (\<lambda>ow.
     bindR (seedLogin admin oe ow) (\<lambda>operator.
     bindR (ensureTenant admin env operator) (\<lambda>_.
     bindR (ofR (env_var env ''OE_DEMO_ADMIN_PASSWORD'')) (\<lambda>aw.
     bindR (seedLogin admin ''admin@demo.local'' aw) (\<lambda>token.
     bindR (listAll admin ''/roles'' token) (\<lambda>roles.
     bindR (listAll admin ''/users'' token) (\<lambda>users.
     bindR (eachR (ensureUser admin fetch env token roles users) demo) (\<lambda>_.
     ensureClient admin token roles))))))))))))"

text \<open>\<open>main().catch\<close>: the exit code.\<close>

definition exit_code :: "((exn + unit) \<times> 's machine) option \<Rightarrow> nat option" where
  "exit_code r = map_option (\<lambda>(x, m). case x of Inl e \<Rightarrow> 1 | Inr u \<Rightarrow> 0) r"

section \<open>The seed of contacts\<close>

definition CONTACTS :: nat where
  "CONTACTS = 1000"

definition EMAIL_FIELD :: string where
  "EMAIL_FIELD = ''3''"

definition SIZES :: "string list" where
  "SIZES = [''XS'', ''S'', ''M'', ''L'', ''XL'']"

definition COUNTRIES :: "string list" where
  "COUNTRIES = [''Brasil'', ''Argentina'', ''Chile'', ''M'' @ [chr 233] @ ''xico'', ''Colombia'', ''Espa'' @ [chr 241] @ ''a'']"

definition credential :: "env_vars \<Rightarrow> string \<Rightarrow> string \<Rightarrow> string option" where
  "credential env local k = (case env k of Some (c # s) \<Rightarrow> Some (c # s) | _ \<Rightarrow> env_line k local)"

definition clientCredentials :: "env_vars \<Rightarrow> string option \<Rightarrow> exn + string \<times> string" where
  "clientCredentials env file = (let local = (case file of None \<Rightarrow> [] | Some s \<Rightarrow> s) in
     case (credential env local ''OE_DEMO_CLIENT_ID'', credential env local ''OE_DEMO_CLIENT_SECRET'') of
       (Some i, Some w) \<Rightarrow> Inr (i, w)
     | _ \<Rightarrow> Inl (PlainError ''OE_DEMO_CLIENT_ID/SECRET missing: run scripts/seed/00-platform first''))"

text \<open>A form is sent, so the call is not the JSON one: its body is the text of the form.\<close>

definition token_form :: "string \<Rightarrow> string \<Rightarrow> string" where
  "token_form i w = ''grant_type=client_credentials&client_id='' @ form_encode i @ ''&client_secret='' @ form_encode w"

type_synonym 's form_fetcher = "string \<Rightarrow> string \<Rightarrow> 's \<Rightarrow> (exn + nat \<times> string) \<times> 's"

definition read_token :: "nat \<times> string \<Rightarrow> exn + string" where
  "read_token r = (case r of (status, body) \<Rightarrow>
      if \<not> (200 \<le> status \<and> status < 300) then Inl (PlainError (''token -> '' @ show_nat status @ '' '' @ body))
      else case parse_json body of None \<Rightarrow> Inl (PlainError ''SyntaxError'')
        | Some v \<Rightarrow> map_sum id shown (propOf (Some v) ''access_token''))"

definition seedToken :: "'s form_fetcher \<Rightarrow> env_vars \<Rightarrow> ('s, string) run" where
  "seedToken post env = bindR (\<lambda>m. ofR (clientCredentials env (mc_env_local m)) m) (\<lambda>(i, w).
     bindR (remoteR (post (CORE env @ ''/api/v3/oauth/token'') (token_form i w))) (\<lambda>r. ofR (read_token r)))"

text \<open>The calls after it: a method, a path and a body; the bearer is always sent, and an error names the path.\<close>

type_synonym 's path_call = "string \<Rightarrow> string \<Rightarrow> json option \<Rightarrow> ('s, json option) run"

definition contactsApi :: "'s fetcher \<Rightarrow> string \<Rightarrow> string \<Rightarrow> 's path_call" where
  "contactsApi fetch core bearer verb p body =
    bindR (remoteR (fetch \<lparr>hc_method = verb, hc_url = core @ p, hc_token = Some bearer, hc_body = body\<rparr>))
      (\<lambda>r. ofR (read_answer (verb @ '' '' @ p) r))"

definition v3 :: "'s path_call \<Rightarrow> 's path_call" where
  "v3 api verb p body = bindR (api verb (''/api/v3'' @ p) body) (\<lambda>r. ofR (propOf r ''data''))"

definition FIELD_DEFS :: "(string \<times> json) list" where
  "FIELD_DEFS = map (\<lambda>(n, s, t, c). (s, JObj ([(''name'', JStr n), (''string_id'', JStr s), (''application_type'', JStr t)] @ c)))
     [(''Pa'' @ [chr 237] @ ''s de inter'' @ [chr 233] @ ''s'', ''pais_interes'', ''text'', []),
      (''Talle'', ''talle'', ''single_choice'', [(''choices'', JArr (map JStr SIZES))]),
      (''Fecha de '' @ [chr 250] @ ''ltima compra'', ''fecha_ultima_compra'', ''date'', [])]"

fun ensureFieldsFrom :: "'s path_call \<Rightarrow> json list \<Rightarrow> (string \<times> json) list \<Rightarrow> (string \<times> json option) list \<Rightarrow> ('s, (string \<times> json option) list) run" where
  "ensureFieldsFrom api have [] ids = doneR ids"
| "ensureFieldsFrom api have ((s, d) # ds) ids = bindR (ofR (find_first (has_member ''string_id'' s) have)) (\<lambda>found.
     bindR (case found of Some f \<Rightarrow> doneR (obj_get f ''id'')
         | None \<Rightarrow> bindR (v3 api ''POST'' ''/field'' (Some d)) (\<lambda>r. ofR (propOf r ''id''))) (\<lambda>i.
     ensureFieldsFrom api have ds (alist_put s i ids)))"

definition ensureFields :: "'s path_call \<Rightarrow> ('s, (string \<times> json option) list) run" where
  "ensureFields api = bindR (v3 api ''GET'' ''/field'' None) (\<lambda>r. bindR (ofR (elements r)) (\<lambda>have. ensureFieldsFrom api have FIELD_DEFS []))"

definition emailOf :: "nat \<Rightarrow> string" where
  "emailOf i = ''seed-'' @ pad_left 4 CHR ''0'' (show_nat i) @ ''@demo.local''"

text \<open>The id of a field as the key of an object; \<open>f.talle\<close> of a key that is not there is undefined.\<close>

definition field_id :: "(string \<times> json option) list \<Rightarrow> string \<Rightarrow> string" where
  "field_id f k = shown (Option.bind (map_of f k) id)"

definition size_id :: "json list \<Rightarrow> nat \<Rightarrow> exn + json option" where
  "size_id sizes i = (if sizes = [] then Inl typeError else propOf (Some (sizes ! (i mod length sizes))) ''id'')"

definition purchase_day :: "nat \<Rightarrow> string" where
  "purchase_day i = iso_date (days_of_civil 2026 1 1 + int (i mod 240))"

definition seed_contact :: "(string \<times> json option) list \<Rightarrow> nat \<Rightarrow> json option \<Rightarrow> json" where
  "seed_contact f i sz = sent_members (fold (\<lambda>(k, v). alist_put k v)
     [(''1'', Some (JStr (''Contacto '' @ show_nat (i + 1)))), (''2'', Some (JStr ''Demo'')), (EMAIL_FIELD, Some (JStr (emailOf (i + 1)))),
      (field_id f ''pais_interes'', Some (JStr (COUNTRIES ! (i mod length COUNTRIES)))), (field_id f ''talle'', sz),
      (field_id f ''fecha_ultima_compra'', Some (JStr (purchase_day i)))] [])"

fun seed_contacts :: "(string \<times> json option) list \<Rightarrow> json list \<Rightarrow> nat list \<Rightarrow> exn + json list" where
  "seed_contacts f sizes [] = Inr []"
| "seed_contacts f sizes (i # is) = (case size_id sizes i of Inl e \<Rightarrow> Inl e
     | Inr v \<Rightarrow> map_sum id (Cons (seed_contact f i v)) (seed_contacts f sizes is))"

text \<open>\<open>v.length\<close> of any value.\<close>

definition length_of :: "json option \<Rightarrow> exn + json option" where
  "length_of v = (case v of Some (JArr xs) \<Rightarrow> Inr (Some (JNum (int_num (int (length xs))))) | Some (JStr s) \<Rightarrow> Inr (Some (JNum (int_num (int (length s)))))
     | _ \<Rightarrow> propOf v ''length'')"

definition contacts_body :: "json list \<Rightarrow> json" where
  "contacts_body cs = JObj [(''key_id'', JStr EMAIL_FIELD), (''contacts'', JArr cs)]"

text \<open>\<open>stringify\<close> writes the first errors into the message.\<close>

definition upsertContacts :: "(json list \<Rightarrow> string) \<Rightarrow> 's path_call \<Rightarrow> (string \<times> json option) list \<Rightarrow> ('s, unit) run" where
  "upsertContacts stringify api f =
    bindR (v3 api ''GET'' (''/field/'' @ field_id f ''talle'' @ ''/choice'') None) (\<lambda>sizes.
    bindR (ofR (spread sizes)) (\<lambda>ss. bindR (ofR (seed_contacts f ss [0..<CONTACTS])) (\<lambda>cs.
    bindR (v3 api ''PUT'' ''/contact?create_if_not_exists=1'' (Some (contacts_body cs))) (\<lambda>r.
    bindR (ofR (propOf r ''errors'')) (\<lambda>es. bindR (ofR (length_of es)) (\<lambda>n.
    if truthy n then bindR (ofR (spread es)) (\<lambda>xs. failR (PlainError (''contact upsert errors: '' @ stringify (take 3 xs))))
    else bindR (ofR (propOf r ''ids'')) (\<lambda>is. bindR (ofR (length_of is)) (\<lambda>k. logR (''upserted '' @ shown k @ '' contacts'')))))))))"

definition LIST_SPECS :: "(string \<times> (nat \<Rightarrow> bool)) list" where
  "LIST_SPECS = [(''Clientes recientes'', \<lambda>i. i \<le> 500), (''Clientes de talle par'', \<lambda>i. i mod 2 = 0)]"

definition member_emails :: "(nat \<Rightarrow> bool) \<Rightarrow> string list" where
  "member_emails p = map emailOf (filter p [1..<Suc CONTACTS])"

definition members_body :: "string list \<Rightarrow> json" where
  "members_body emails = JObj [(''key_id'', JStr EMAIL_FIELD), (''external_ids'', JArr (map JStr emails))]"

definition ensureList :: "'s path_call \<Rightarrow> json list \<Rightarrow> string \<times> (nat \<Rightarrow> bool) \<Rightarrow> ('s, unit) run" where
  "ensureList api have spec = bindR (ofR (find_first (has_member ''name'' (fst spec)) have)) (\<lambda>found.
     bindR (case found of Some l \<Rightarrow> doneR (obj_get l ''id'')
         | None \<Rightarrow> bindR (v3 api ''POST'' ''/contactlist'' (Some (JObj [(''name'', JStr (fst spec))]))) (\<lambda>r. ofR (propOf r ''id''))) (\<lambda>i.
     bindR (v3 api ''POST'' (''/contactlist/'' @ shown i @ ''/add'') (Some (members_body (member_emails (snd spec))))) (\<lambda>_.
     bindR (v3 api ''GET'' (''/contactlist/'' @ shown i @ ''/count'') None) (\<lambda>r. bindR (ofR (propOf r ''count'')) (\<lambda>n.
     logR (''list \"'' @ fst spec @ ''\": '' @ shown n @ '' members''))))))"

definition ensureLists :: "'s path_call \<Rightarrow> ('s, unit) run" where
  "ensureLists api = bindR (v3 api ''GET'' ''/contactlist'' None) (\<lambda>r.
     bindR (ofR (elements r)) (\<lambda>have. eachR (ensureList api have) LIST_SPECS))"

definition pets_table :: json where
  "pets_table = JObj [(''name'', JStr ''mascotas''), (''key_field'', JStr ''nombre''),
     (''columns'', JArr [JObj [(''name'', JStr ''nombre''), (''type'', JStr ''text'')], JObj [(''name'', JStr ''especie''), (''type'', JStr ''text'')],
        JObj [(''name'', JStr ''edad''), (''type'', JStr ''number'')]])]"

definition pet_row :: "nat \<Rightarrow> json" where
  "pet_row i = JObj [(''key_value'', JStr (emailOf (i + 1))), (''row_key'', JStr (''mascota-'' @ show_nat (i + 1))),
     (''data'', JObj [(''nombre'', JStr (''Mascota '' @ show_nat (i + 1))), (''especie'', JStr (if i mod 2 = 1 then ''gato'' else ''perro'')),
        (''edad'', JNum (int_num (int (i mod 15 + 1))))])]"

definition pets_body :: json where
  "pets_body = JObj [(''key_id'', JStr EMAIL_FIELD), (''rows'', JArr (map pet_row [0..<100]))]"

text \<open>One page of the tables is read: \<open>Array.isArray(tables) ? tables : tables.items\<close>.\<close>

definition table_rows :: "json option \<Rightarrow> exn + json list" where
  "table_rows v = (case v of Some (JArr xs) \<Rightarrow> Inr xs
     | _ \<Rightarrow> (case propOf v ''items'' of Inl e \<Rightarrow> Inl e | Inr x \<Rightarrow> elements x))"

text \<open>\<open>found?.id ?? (await ...).id\<close>\<close>

definition known_id :: "json option \<Rightarrow> json option" where
  "known_id found = (case Option.bind found (\<lambda>t. obj_get t ''id'') of Some JNull \<Rightarrow> None | i \<Rightarrow> i)"

definition ensurePets :: "'s path_call \<Rightarrow> ('s, unit) run" where
  "ensurePets api = bindR (api ''GET'' ''/admin/v1/relational-tables'' None) (\<lambda>tables.
     bindR (ofR (table_rows tables)) (\<lambda>ts. bindR (ofR (find_first (has_member ''name'' ''mascotas'') ts)) (\<lambda>found.
     bindR (case known_id found of Some i \<Rightarrow> doneR (Some i)
         | None \<Rightarrow> bindR (api ''POST'' ''/admin/v1/relational-tables'' (Some pets_table)) (\<lambda>r. ofR (propOf r ''id''))) (\<lambda>i.
     bindR (v3 api ''PUT'' (''/relational/'' @ shown i @ ''/rows'') (Some pets_body)) (\<lambda>_.
     logR ''relational table \"mascotas\": 100 rows'')))))"

definition contactsSeed :: "(json list \<Rightarrow> string) \<Rightarrow> 's fetcher \<Rightarrow> 's form_fetcher \<Rightarrow> env_vars \<Rightarrow> ('s, unit) run" where
  "contactsSeed stringify fetch post env = bindR (seedToken post env) (\<lambda>bearer. let api = contactsApi fetch (CORE env) bearer in
     bindR (ensureFields api) (\<lambda>f. bindR (upsertContacts stringify api f) (\<lambda>_.
     bindR (ensureLists api) (\<lambda>_. ensurePets api))))"

section \<open>The credentials file\<close>

text \<open>The lines that \<open>writeEnvLocal\<close> writes are the lines a reader finds.\<close>

lemma text_lines_ne [simp]: "text_lines brk s \<noteq> []"
  by (induction s) auto

lemma text_lines_word: "list_all (\<lambda>c. \<not> brk c) w \<Longrightarrow> brk d \<Longrightarrow> text_lines brk (w @ d # s) = w # text_lines brk s"
  by (induction w) auto

lemma text_lines_chars: "l \<in> set (text_lines brk s) \<Longrightarrow> c \<in> set l \<Longrightarrow> c \<in> set s \<and> \<not> brk c"
proof (induction s arbitrary: l)
  case Nil
  then show ?case by simp
next
  case (Cons a s)
  obtain h t where ht: "text_lines brk s = h # t" using text_lines_ne[of brk s] by (cases "text_lines brk s") auto
  show ?case using Cons.prems Cons.IH[of h] Cons.IH[of l] ht by (auto split: if_splits)
qed

lemma text_lines_joined:
  assumes "brk d"
  shows "ls \<noteq> [] \<Longrightarrow> \<forall>l\<in>set ls. list_all (\<lambda>c. \<not> brk c) l \<Longrightarrow> text_lines brk (join_with [d] ls @ [d]) = ls @ [[]]"
proof (induction ls rule: induct_list012)
  case 1
  then show ?case by simp
next
  case (2 l)
  then show ?case using text_lines_word[of brk l d "[]"] assms by simp
next
  case (3 l k ls)
  then show ?case using text_lines_word[of brk l d "join_with [d] (k # ls) @ [d]"] assms by simp
qed

definition plain_line :: "string \<Rightarrow> bool" where
  "plain_line s \<longleftrightarrow> list_all (\<lambda>c. \<not> line_break c) s"

lemma plain_line_simps: "plain_line (a @ b) \<longleftrightarrow> plain_line a \<and> plain_line b" "plain_line ''=''"
  by (simp add: plain_line_def, code_simp)

lemma file_line_plain: "\<forall>s. f = Some s \<longrightarrow> chr 13 \<notin> set s \<Longrightarrow> l \<in> set (file_lines f) \<Longrightarrow> plain_line l"
  using text_lines_chars by (fastforce simp: file_lines_def plain_line_def line_break_def list_all_iff split: option.splits)

lemma key_line_own: "CHR ''='' \<notin> set k \<Longrightarrow> CHR ''='' \<notin> set j \<Longrightarrow> key_line k (j @ ''='' @ v) \<longleftrightarrow> k = j"
proof (induction k arbitrary: j)
  case Nil
  then show ?case by (cases j) (auto simp: key_line_def starts_with_def)
next
  case (Cons a k)
  then show ?case by (cases j) (auto simp: key_line_def starts_with_def)
qed

lemma find_new_line:
  "CHR ''='' \<notin> set k \<Longrightarrow> \<forall>(j, w)\<in>set kvs. CHR ''='' \<notin> set j \<and> w \<noteq> [] \<Longrightarrow> map_of kvs k = Some v \<Longrightarrow>
    find (\<lambda>l. key_line k l \<and> Suc (length k) < length l) (map (\<lambda>(j, w). j @ ''='' @ w) kvs @ rest) = Some (k @ ''='' @ v)"
proof (induction kvs)
  case Nil
  then show ?case by simp
next
  case (Cons p kvs)
  obtain j w where p: "p = (j, w)" by force
  show ?case using Cons p key_line_own[of k j w] by (auto split: if_splits)
qed

lemma find_later: "find p xs = None \<Longrightarrow> find p (xs @ ys) = find p ys"
  by (induction xs) (auto split: if_splits)

lemma written_line_is_read:
  assumes "\<forall>(j, w)\<in>set kvs. CHR ''='' \<notin> set j \<and> plain_line j \<and> w \<noteq> [] \<and> plain_line w"
    and "map_of kvs k = Some v" and "\<forall>s. f = Some s \<longrightarrow> chr 13 \<notin> set s"
  shows "env_line k (env_local_text kvs f) = Some v"
proof -
  let ?kept = "filter (\<lambda>l. \<not> list_ex (\<lambda>kv. key_line (fst kv) l) kvs) (file_lines f)"
  let ?new = "map (\<lambda>(j, w). j @ ''='' @ w) kvs"
  have k: "(k, v) \<in> set kvs" using assms(2) by (rule map_of_SomeD)
  have ne: "?kept @ ?new \<noteq> []" using k by auto
  have kept: "plain_line l" if "l \<in> set ?kept" for l
    using that file_line_plain[OF assms(3), of l] by simp
  have new: "plain_line l" if l: "l \<in> set ?new" for l
  proof -
    obtain j w where jw: "(j, w) \<in> set kvs" "l = j @ ''='' @ w" using l by auto
    have "plain_line j \<and> plain_line w" using assms(1) jw(1) by blast
    then show ?thesis using jw(2) plain_line_simps by metis
  qed
  have plain: "\<forall>l\<in>set (?kept @ ?new). list_all (\<lambda>c. \<not> line_break c) l"
    using kept new unfolding plain_line_def by (metis Un_iff set_append)
  have brk: "line_break (chr 10)" by (simp add: line_break_def)
  have "text_lines line_break (env_local_text kvs f) = (?kept @ ?new) @ [[]]"
    unfolding env_local_text_def by (rule text_lines_joined[OF brk ne plain])
  moreover have "\<not> key_line k l" if "l \<in> set ?kept" for l
    using that k unfolding list_ex_iff by force
  then have "find (\<lambda>l. key_line k l \<and> Suc (length k) < length l) ?kept = None"
    unfolding find_None_iff by blast
  moreover have "\<forall>(j, w)\<in>set kvs. CHR ''='' \<notin> set j \<and> w \<noteq> []" using assms(1) by blast
  then have "find (\<lambda>l. key_line k l \<and> Suc (length k) < length l) (?new @ [[]]) = Some (k @ ''='' @ v)"
    using assms(1,2) k by (intro find_new_line) blast+
  ultimately show ?thesis unfolding env_line_def by (simp add: find_later)
qed

lemma client_keys: "plain_line ''OE_DEMO_CLIENT_ID''" "plain_line ''OE_DEMO_CLIENT_SECRET''"
  by code_simp+

text \<open>The second script signs in as the client that the first has written, and a later run of the first keeps it.\<close>

lemma contacts_seed_reads_the_written_client:
  assumes "i \<noteq> []" and "w \<noteq> []" and "plain_line i" and "plain_line w" and "\<forall>s. f = Some s \<longrightarrow> chr 13 \<notin> set s"
    and "env ''OE_DEMO_CLIENT_ID'' = None" and "env ''OE_DEMO_CLIENT_SECRET'' = None"
  shows "clientCredentials env (Some (env_local_text [(''OE_DEMO_CLIENT_ID'', i), (''OE_DEMO_CLIENT_SECRET'', w)] f)) = Inr (i, w)"
proof -
  let ?kvs = "[(''OE_DEMO_CLIENT_ID'', i), (''OE_DEMO_CLIENT_SECRET'', w)]"
  have all: "\<forall>(j, w)\<in>set ?kvs. CHR ''='' \<notin> set j \<and> plain_line j \<and> w \<noteq> [] \<and> plain_line w"
    using assms(1-4) client_keys by simp
  show ?thesis using written_line_is_read[OF all _ assms(5), of "''OE_DEMO_CLIENT_ID''" i]
      written_line_is_read[OF all _ assms(5), of "''OE_DEMO_CLIENT_SECRET''" w] assms
    by (simp add: clientCredentials_def credential_def)
qed

lemma written_client_stays:
  assumes "w \<noteq> []" and "i \<noteq> []" and "plain_line i" and "plain_line w" and "\<forall>s. mc_env_local m = Some s \<longrightarrow> chr 13 \<notin> set s"
    and "writeEnvLocal [(''OE_DEMO_CLIENT_ID'', i), (''OE_DEMO_CLIENT_SECRET'', w)] m = Some (r, m')"
    and "listAll admin ''/api-clients'' token m' = Some (Inr clients, m'')" and "find_first demo_client clients = Inr (Some c)"
    and "mc_env_local m'' = mc_env_local m'"
  shows "ensureClient admin token roles m' = Some (Inr (), m''\<lparr>mc_log := mc_log m'' @ [''demo API client already exists'']\<rparr>)"
proof -
  let ?kvs = "[(''OE_DEMO_CLIENT_ID'', i), (''OE_DEMO_CLIENT_SECRET'', w)]"
  have all: "\<forall>(j, w)\<in>set ?kvs. CHR ''='' \<notin> set j \<and> plain_line j \<and> w \<noteq> [] \<and> plain_line w"
    using assms(1-4) client_keys by simp
  have "have_secret m''" using written_line_is_read[OF all _ assms(5), of "''OE_DEMO_CLIENT_SECRET''" w] assms(6,9)
    by (auto simp: have_secret_def writeEnvLocal_def)
  then show ?thesis using assms(7,8) by (simp add: ensureClient_def bindR_def ofR_def doneR_def logR_def)
qed

section \<open>What core reads of the bodies\<close>

lemma seeded_tenant_is_accepted:
  assumes "isTimeZone ''America/Sao_Paulo''" and "isEmail ''admin@demo.local''" and "12 \<le> length w" and "length w \<le> 128"
  shows "tenantCreateSchema isTimeZone isEmail (tenant_body w) = Some \<lparr>tc_name = TENANT_NAME, tc_timezone = ''America/Sao_Paulo'', tc_locale = ''es'',
    tc_limits = None, tc_admin = Some \<lparr>an_email = ''admin@demo.local'', an_password = w\<rparr>\<rparr>"
  using assms by (simp add: tenantCreateSchema_def tenant_body_def strict_def obj_get_def parseSized_def timezoneSchema_def parseEnum_def LOCALES_def
      optional_def parseAdmin_def parseEmail_def TENANT_NAME_def)

lemma seeded_fields_are_accepted: "list_all (\<lambda>(s, d). map_option pf_string_id (publicFieldCreateSchema d) = Some (Some s)) FIELD_DEFS"
  by code_simp

lemma seeded_table_is_accepted: "map_option ti_name (tableCreateSchema pets_table) = Some ''mascotas''"
  by code_simp

lemma parseAll_total: "\<forall>x\<in>set xs. f x \<noteq> None \<Longrightarrow> \<exists>ys. parseAll f xs = Some ys \<and> length ys = length xs"
  by (induction xs) (auto split: option.splits)

lemma seeded_pets_are_accepted: "\<exists>r. rowsRequestSchema pets_body = Some r \<and> rq_key_id r = EMAIL_FIELD \<and> length (rq_rows r) = 100"
proof -
  have "\<forall>x\<in>set (map pet_row [0..<100]). parseRow x \<noteq> None" by (simp add: parseRow_def pet_row_def)
  from parseAll_total[OF this] obtain ys where "parseAll parseRow (map pet_row [0..<100]) = Some ys" "length ys = 100" by auto
  then show ?thesis by (auto simp: rowsRequestSchema_def pets_body_def parseArray_def atLeastOne_def EMAIL_FIELD_def)
qed

lemma seed_contact_object: "\<exists>kvs. seed_contact f i v = JObj kvs"
  unfolding seed_contact_def sent_members_def by blast

lemma map_sum_Inr: "map_sum id g r = Inr y \<longleftrightarrow> (\<exists>x. r = Inr x \<and> y = g x)"
  by (cases r) auto

lemma seeded_contacts_length: "seed_contacts f sizes is = Inr cs \<Longrightarrow> length cs = length is \<and> (\<forall>c\<in>set cs. \<exists>kvs. c = JObj kvs)"
  by (induction "is" arbitrary: cs) (auto simp: map_sum_Inr seed_contact_object split: sum.splits)

text \<open>The whole seed fits in one request.\<close>

lemma seeded_contacts_are_accepted:
  assumes "seed_contacts f sizes [0..<CONTACTS] = Inr cs"
  shows "\<exists>os. publicBatch (contacts_body cs) = Some (EMAIL_FIELD, os) \<and> length os = CONTACTS"
proof -
  have cs: "length cs = CONTACTS" "\<forall>c\<in>set cs. \<exists>kvs. c = JObj kvs" using seeded_contacts_length[OF assms] by auto
  then have "\<forall>x\<in>set cs. parseRecord x \<noteq> None" by (auto simp: parseRecord_def)
  from parseAll_total[OF this] obtain os where os: "parseAll parseRecord cs = Some os" "length os = CONTACTS" using cs by auto
  have "parseKeyId (Some (JStr EMAIL_FIELD)) = Some EMAIL_FIELD" by code_simp
  then show ?thesis using os by (auto simp: publicBatch_def contacts_body_def parseItems_def parseArray_def bounded_def MAX_BATCH_def CONTACTS_def)
qed

lemma seeded_members_are_accepted:
  assumes "es \<noteq> []" and "length es \<le> 1000"
  shows "parsePublic publicMembers (members_body es) = Inr \<lparr>pm_key_id = EMAIL_FIELD, pm_external_ids = es\<rparr>"
proof -
  have "parseAll parseStr (map JStr es) = Some es" by (induction es) (auto simp: parseStr_def)
  moreover have "parseKeyId (Some (JStr EMAIL_FIELD)) = Some EMAIL_FIELD" by code_simp
  moreover have "1 \<le> length es" using assms(1) by (cases es) auto
  ultimately show ?thesis using assms(2)
    by (simp add: parsePublic_def publicMembers_def members_body_def parseArray_def obj_get_def PUBLIC_MAX_def)
qed

text \<open>The role of an administrator, as core lists it, gives a client it accepts.\<close>

definition permission_json :: "permission \<Rightarrow> json" where
  "permission_json p = JObj [(''module'', JStr (fst p)), (''action'', JStr (snd p))]"

lemma scopes_of_permissions: "all_scopes (map permission_json ps) = Inr (map (\<lambda>p. JStr (fst p @ '':'' @ snd p)) ps)"
  by (induction ps) (simp_all add: scope_text_def propOf_def permission_json_def obj_get_def shown_def)

lemma admin_scopes_are_accepted:
  "apiClientInput (client_body (map (\<lambda>p. JStr (fst p @ '':'' @ snd p)) ADMIN_PERMISSIONS)) \<noteq> None"
  by code_simp

section \<open>Paging\<close>

text \<open>\<open>listAll\<close> returns when the cursors of the answers go down some measure, and gives the pages in order.\<close>

lemma list_all_returns:
  assumes "\<And>c m. \<exists>r m'. fetchPage admin p token c m = Some (r, m')"
    and "\<And>c m xs c' m'. fetchPage admin p token c m = Some (Inr (xs, c'), m') \<Longrightarrow> truthy c' \<Longrightarrow> (\<mu> c' :: nat) < \<mu> c"
  shows "\<exists>r m'. listFrom admin p token items c m = Some (r, m')"
proof (induction "\<mu> c" arbitrary: items c m rule: less_induct)
  case less
  obtain r m' where r: "fetchPage admin p token c m = Some (r, m')" using assms(1) by blast
  show ?case
  proof (cases r)
    case (Inl e)
    then show ?thesis using r by (subst listFrom.simps) simp
  next
    case (Inr pg)
    obtain xs c' where pg: "pg = (xs, c')" by force
    show ?thesis
    proof (cases "truthy c'")
      case True
      have "\<mu> c' < \<mu> c" using assms(2) r Inr pg True by blast
      from less[OF this] show ?thesis using r Inr pg True by (subst listFrom.simps) auto
    qed (use r Inr pg in \<open>subst listFrom.simps, simp\<close>)
  qed
qed

section \<open>Running it again\<close>

lemma seeded_tenant_stays:
  "listAll admin ''/tenants'' operator m = Some (Inr ts, m') \<Longrightarrow> find_first (has_member ''name'' TENANT_NAME) ts = Inr (Some t) \<Longrightarrow>
    ensureTenant admin env operator m = Some (Inr (), m'\<lparr>mc_log := mc_log m' @ [''tenant \"'' @ TENANT_NAME @ ''\" already exists'']\<rparr>)"
  by (simp add: ensureTenant_def bindR_def ofR_def logR_def)

lemma seeded_users_stay:
  assumes "\<forall>u\<in>set us. \<exists>x. find_first (same_email (du_email u)) users = Inr (Some x) \<and> obj_get x ''status'' = Some (JStr ''active'')"
  shows "eachR (ensureUser admin fetch env token roles users) us m = Some (Inr (), m)"
  using assms by (induction us) (auto simp: ensureUser_def bindR_def ofR_def doneR_def)

lemma seeded_fields_stay:
  assumes "\<forall>(s, d)\<in>set ds. \<exists>x. find_first (has_member ''string_id'' s) have = Inr (Some x)"
  shows "\<exists>ids'. ensureFieldsFrom api have ds ids m = Some (Inr ids', m)"
  using assms by (induction ds arbitrary: ids) (auto simp: bindR_def ofR_def doneR_def)

text \<open>A table beyond the first page is not found, and is created again.\<close>

lemma later_table_is_created_again:
  assumes "api ''GET'' ''/admin/v1/relational-tables'' None m = Some (Inr page, m')" and "table_rows page = Inr ts"
    and "find_first (has_member ''name'' ''mascotas'') ts = Inr None"
    and "api ''POST'' ''/admin/v1/relational-tables'' (Some pets_table) m' = Some (Inl e, m'')"
  shows "ensurePets api m = Some (Inl e, m'')"
  using assms by (simp add: ensurePets_def bindR_def ofR_def known_id_def)

end
