(* ===== verification/Spec2Isabelle.thy ===== *)
theory Spec2Isabelle
  imports Common_Properties Field_Properties Contacts_Delete Contact_Lists_Api
    Relational Gdpr Contacts_Query
    Keyring Invitation_Properties Auth_Sessions Auth_Lockout Tenant_Properties Audit_Properties Contacts_Api Web_Browser Console_Sign_In Console_Contacts Console_Search Console_Import Console_Tenants Console_Settings
    Console_Developer Console_Fields Console_Relational Core_Service Core_Routes Contact_Stream_Sql Seed_Scripts
begin

text \<open>
  open-emarsys: a verification development of its TypeScript services.

  \<^bold>\<open>The program.\<close> open-emarsys is a multi-tenant store of marketing contacts. Its TypeScript is the
  core service (\<open>services/core\<close>, NestJS over Postgres and NATS), the library its services share
  (\<open>packages/ts-common\<close>), the web console (\<open>apps/admin-web\<close>, Next.js) and two seed scripts
  (\<open>scripts/seed\<close>). A request meets the guard (who may call), the audit interceptor (writes leave
  an entry), a controller (zod schemas, the tenant of the principal) and a service, whose queries
  run in a transaction that sets the tenant for row-level security. Contact writes put their
  events in an outbox in the same transaction; a relay publishes them, and consumers answer each
  message. The console keeps the session in cookies, refreshes it, and passes calls on to core.

  \<^bold>\<open>How code becomes definitions.\<close> A handler is a function from a store to an outcome (an exception
  or a value) with the store it leaves (\<open>Prelude.comp\<close>); a transaction restores the store on an
  exception. The stores are \<open>world\<close> (\<open>Contacts_Db\<close>: the contacts schema, the field cache, the
  clock) and \<open>iworld\<close> (\<open>Identity_Db\<close>: the identity schema, mails and published events); each table
  is a list of records in the order of insertion, with its unique constraints checked where the
  code can meet them. A choice of the system (the statement another request commits in between, an
  id, a mail that fails) is an argument. A screen of the console is the record of its React state,
  and an event handler or the end of a call is a function on it. What runs forever or interleaves
  is a step relation with rule induction: the relay (\<open>Outbox.relay_step\<close>), the connection
  (\<open>Tenant_Scope.driver_step\<close>), the queue of GDPR requests, the sessions
  (\<open>Auth_Sessions.session_step\<close>), the requests of a tenant (\<open>Identity_Properties.tenant_step\<close>), the
  wizard and the draft of a field in the console.

  \<^bold>\<open>Foundations.\<close>
  \<^item> \<open>Prelude\<close>: exceptions, computations, transactions; the locale \<open>frame\<close> (a relation between the
    store before and after that every operation of a component keeps), interpreted for the
    isolation of tenants, for reads, for untouched contacts, for the progress of GDPR requests and
    for the administrators of a tenant.
  \<^item> \<open>Js_Runtime\<close>, \<open>Number_Text\<close>, \<open>Json_Text\<close>: strings and regular expressions, numbers and their
    texts (a number reads back from its text), JSON values and \<open>JSON.parse\<close>, dates.
  \<^item> \<open>Http_Lib\<close>, \<open>Cursor_Codec\<close>: cursor pages, problem and envelope filters (\<open>ts-common/src/http\<close>), the
    encoding of cursors; the locale \<open>keyset\<close> (pages that follow a key enumerate a list once),
    interpreted for lists, members and the tables of identity.

  \<^bold>\<open>The shared library.\<close>
  \<^item> \<open>Tenant_Scope\<close>: \<open>tenant/index.ts\<close> and \<open>prisma-tenant/index.ts\<close>, the extension of Prisma and the
    driver of Kysely with every error path. Every query on the connection runs under the tenant
    of its request.
  \<^item> \<open>Auth_Lib\<close>: \<open>auth/*.ts\<close>, the claims schema, the guard and the service-token client; exactly who
    is admitted, and one token request at a time.
  \<^item> \<open>Nats_Lib\<close>: \<open>nats/*.ts\<close>, UUID v7 identifiers that sort by time, the publisher and the consumer
    loop; every delivery is answered once, and a dead letter that fails stops the consumer.
  \<^item> \<open>Keyring\<close>: \<open>keyring/index.ts\<close>; sealed values open again, also after a rotation of keys.
  \<^item> \<open>Audit_Trail\<close>, \<open>Audit_Properties\<close>: \<open>audit/*.ts\<close> and core's sinks, redaction and consumer.
  \<^item> \<open>Common_Properties\<close> states the properties of these.

  \<^bold>\<open>Contacts in core\<close> (\<open>services/core/src/modules\<close>).
  \<^item> \<open>Field_Registry\<close>, \<open>Field_Properties\<close>: \<open>fields/*.ts\<close>, \<open>contacts-shared\<close>: schemas, normalisation of
    values, the cache, the key resolver, the service.
  \<^item> \<open>Outbox\<close>: \<open>contacts-write/outbox.ts\<close>; events reach the broker at least once and the table empties.
  \<^item> \<open>Contacts_Write\<close> with \<open>_Results\<close>, \<open>_Rows\<close>, \<open>_Properties\<close> and \<open>Contacts_Delete\<close>:
    \<open>contacts-write.service.ts\<close>. A batch answers one result per item in order, merges exactly the
    values it was given (refining a map update), keeps \<open>unique_values\<close> in step with the data,
    leaves one event per written contact and other tenants alone; a failed batch changes nothing.
  \<^item> \<open>Contacts_Api\<close>: the controllers of contacts and fields. \<open>Contacts_Query\<close>: look-ups, filters and the
    export stream, with its statements and the identifiers inlined in them in
    \<open>Contact_Stream_Sql\<close>. \<open>Consents\<close>: the hook that records consent changes. \<open>Contact_Lists\<close>,
    \<open>Contact_Lists_Api\<close>: lists and members. \<open>Relational\<close>: tables and row batches, refining a map.
  \<^item> \<open>Gdpr\<close>: requests, the queue, export and erasure; accepted requests are settled, and erasure
    erases in every table.

  \<^bold>\<open>Identity in core.\<close>
  \<^item> \<open>Identity_Db\<close>, \<open>Roles\<close>, \<open>Users\<close>, \<open>Invitations\<close>, \<open>Identity_Properties\<close>, \<open>Invitation_Properties\<close>: an
    active administrator remains over every sequence of requests, an invitation admits once.
  \<^item> \<open>Auth_Service\<close>, \<open>Auth_Sessions\<close>, \<open>Auth_Lockout\<close>, \<open>Access_Tokens\<close>: one live refresh token per
    session, refresh tokens that work once, the lock after five failures, and the guard admitting
    exactly what the roles of the user grant.
  \<^item> \<open>Api_Clients\<close>, \<open>OAuth\<close>, \<open>OAuth_Properties\<close>: client tokens, throttle and revocation. \<open>Tenants\<close>,
    \<open>Tenant_Properties\<close>: tenants, the first operator, suspension. \<open>Core_Service\<close>: what \<open>main.ts\<close> and
    \<open>app.module.ts\<close> demand of the environment, the probes, the command line.
  \<^item> \<open>Core_Routes\<close>: the routes of all controllers with their verbs, paths, statuses and access, the
    guards in front of them, and the handlers that only pass on. No two routes fit one request;
    who is let through has what the route names; the routes are those of the OpenAPI contracts,
    but for one operation without a handler.

  \<^bold>\<open>The console\<close> (\<open>apps/admin-web/src\<close>).
  \<^item> \<open>Web_Url\<close>, \<open>Web_Url_Facts\<close>: references, form and percent encoding. \<open>Web_Session\<close>,
    \<open>Web_Session_Properties\<close>: \<open>lib/session\<close>, \<open>middleware.ts\<close>, the routes under \<open>app/api\<close>: where a
    redirect can lead, what the double-submit check refuses.
  \<^item> \<open>Web_Browser\<close> composes console, core and a browser: an expired session comes back to the page
    it asked for. \<open>Console_Sign_In\<close>: the pages of login, second factor and invitation.
  \<^item> \<open>Console_Nav\<close>, \<open>Console_Api\<close>: navigation, permissions, server actions, calls.
  \<^item> \<open>Console_Contacts\<close>, \<open>Console_Search\<close>, \<open>Console_Import\<close>, \<open>Console_Lists\<close>, \<open>Console_Fields\<close>,
    \<open>Console_Relational\<close>, \<open>Console_Tenants\<close>, \<open>Console_Settings\<close>, \<open>Console_Developer\<close>: the screens of
    those names. Their lemmas say that the body a form sends is the body core's schema reads, that
    state invariants hold over every sequence of events, and what a late answer does.
  \<^item> \<open>Seed_Scripts\<close>: the two programs over HTTP. The bodies they send are those core's schemas
    accept, the second reads the credentials the first has written, and a second run repeats
    nothing.

  \<^bold>\<open>The kinds of lemma.\<close> Each component theory has the equations of its operations on every branch
  (errors included), the facts \<open>keeps ...\<close> of its frames (in the collection \<open>keepsI\<close>), its invariant
  and, where there is a contract, the abstract operation it refines. Properties stand in the
  theories \<open>..._Properties\<close> or at the end of a component's theory, each with a witness at a concrete
  store. Some lemmas state a fault of the code as it is, on a concrete run: an e-mail with a leading
  tab that fails its batch (\<open>Contacts_Delete\<close>), a locked account that shields another
  (\<open>Auth_Lockout\<close>), a session that outlives its revocation (\<open>Auth_Sessions\<close>), two demotions that leave
  no administrator (\<open>Identity_Properties\<close>), a refresh that leaves the site
  (\<open>Web_Session_Properties\<close>), details of an audit row that lose the request
  (\<open>Console_Developer\<close>), answers that arrive late (\<open>Console_Settings\<close>, \<open>Console_Search\<close>,
  \<open>Console_Relational\<close>), a table beyond the first page (\<open>Seed_Scripts\<close>).

  \<^bold>\<open>Bounds and fuel.\<close> The write engine tries \<open>ATTEMPTS\<close> times, as the code does, and then throws.
  \<open>publicLists\<close> and the export stream take fuel: the rows of the tenant and one more page are
  enough, which their properties prove; the loop over the fetches of \<open>Contact_Stream_Sql\<close> needs one
  more than the rows. \<open>read_value\<close> takes the length of its text, since every
  recursive call comes after a character. A visit of the browser follows at most three requests,
  a page with its two redirects. \<open>listFrom\<close> of the seed scripts is a partial function and returns
  when the cursors go down a measure. All other recursion is structural.

  \<^bold>\<open>Parameters.\<close> Code that is not in the repository is an argument: jose (signatures), Argon2,
  SHA-256, HKDF, AES-GCM and TOTP, the e-mail and time-zone checks of zod and Intl, the formatters of
  Intl, the parser of hosts in URLs, the locale routing of next-intl, the choice of a handler by Express, the reading of dates by
  \<open>Date.parse\<close> beyond the formats written out, \<open>fetch\<close>, the object store, the mail transport and the
  broker. What is assumed of them is named in the statement that needs it (a sealed value opens
  under its key, a signed token verifies to its claims).

  \<^bold>\<open>Not modelled.\<close>
  \<^item> Strings with code units of 256 and more, and numbers beyond fifteen digits: a string is a list
    of characters below 256 and a number an exact decimal. Sorting by locale is not modelled.
  \<^item> Markup, styles, focus and keyboard of the components (\<open>components/ui\<close>, the dialogs, the layouts),
    the merging of message files; a rendered page is the data it shows.
  \<^item> Timers as durations (a debounce or a poll is a step), memory and connection limits.
  \<^item> Dependency injection (the \<open>*.module.ts\<close> files), logging and tracing: no state of their own.
  \<^item> Postgres and NATS beyond the statements the code sends: constraints and row-level security are
    written out, isolation levels are the interleavings given as arguments.
  \<^item> The texts of zod's issues, except where the code reads them.
  \<^item> The Go services and libraries, generated contracts, tests, deployment files.
\<close>

end
